(* ===== verification/Prelude.thy ===== *)
theory Prelude
  imports Main "HOL-Library.Word"
begin

text \<open>
  Shared vocabulary of the development: the machine integers of the C and C++ sources, the
  result codes that travel between the components, the views of C strings and byte buffers,
  and the generic list and word lemmas the component theories rely on.
\<close>

unbundle bit_operations_syntax

section \<open>Machine integers\<close>

type_synonym u8 = "8 word"
type_synonym u16 = "16 word"
type_synonym u32 = "32 word"
type_synonym u64 = "64 word"

section \<open>Result codes of the driver API (MobiCoreDriverApi.h)\<close>

abbreviation (input) MC_DRV_OK :: u32 where "MC_DRV_OK \<equiv> 0"
abbreviation (input) MC_DRV_ERR_UNKNOWN :: u32 where "MC_DRV_ERR_UNKNOWN \<equiv> 6"
abbreviation (input) MC_DRV_ERR_UNKNOWN_DEVICE :: u32 where "MC_DRV_ERR_UNKNOWN_DEVICE \<equiv> 7"
abbreviation (input) MC_DRV_ERR_UNKNOWN_SESSION :: u32 where "MC_DRV_ERR_UNKNOWN_SESSION \<equiv> 8"
abbreviation (input) MC_DRV_ERR_INVALID_OPERATION :: u32 where "MC_DRV_ERR_INVALID_OPERATION \<equiv> 9"
abbreviation (input) MC_DRV_ERR_NO_FREE_MEMORY :: u32 where "MC_DRV_ERR_NO_FREE_MEMORY \<equiv> 0xc"
abbreviation (input) MC_DRV_ERR_DAEMON_UNREACHABLE :: u32 where "MC_DRV_ERR_DAEMON_UNREACHABLE \<equiv> 0xf"
abbreviation (input) MC_DRV_ERR_INVALID_DEVICE_FILE :: u32 where "MC_DRV_ERR_INVALID_DEVICE_FILE \<equiv> 0x10"
abbreviation (input) MC_DRV_ERR_INVALID_PARAMETER :: u32 where "MC_DRV_ERR_INVALID_PARAMETER \<equiv> 0x11"
abbreviation (input) MC_DRV_ERR_NQ_FAILED :: u32 where "MC_DRV_ERR_NQ_FAILED \<equiv> 0x16"
abbreviation (input) MC_DRV_ERR_DAEMON_DEVICE_NOT_OPEN :: u32 where "MC_DRV_ERR_DAEMON_DEVICE_NOT_OPEN \<equiv> 0x21"

text \<open>The codes that the header defines as synonyms of others.\<close>

abbreviation (input) MC_DRV_ERR_DEVICE_ALREADY_OPEN :: u32 where "MC_DRV_ERR_DEVICE_ALREADY_OPEN \<equiv> MC_DRV_ERR_INVALID_OPERATION"
abbreviation (input) MC_DRV_ERR_DAEMON_SOCKET :: u32 where "MC_DRV_ERR_DAEMON_SOCKET \<equiv> MC_DRV_ERR_DAEMON_UNREACHABLE"
abbreviation (input) MC_DRV_ERR_DAEMON_KMOD_ERROR :: u32 where "MC_DRV_ERR_DAEMON_KMOD_ERROR \<equiv> MC_DRV_ERR_DAEMON_UNREACHABLE"
abbreviation (input) MC_DRV_ERR_DAEMON_MCI_ERROR :: u32 where "MC_DRV_ERR_DAEMON_MCI_ERROR \<equiv> MC_DRV_ERR_DAEMON_UNREACHABLE"
abbreviation (input) MC_DRV_ERR_MCP_ERROR :: u32 where "MC_DRV_ERR_MCP_ERROR \<equiv> MC_DRV_ERR_DAEMON_UNREACHABLE"
abbreviation (input) MC_DRV_ERR_TRUSTLET_NOT_FOUND :: u32 where "MC_DRV_ERR_TRUSTLET_NOT_FOUND \<equiv> MC_DRV_ERR_INVALID_DEVICE_FILE"
abbreviation (input) MC_DRV_ERR_TCI_GREATER_THAN_WSM :: u32 where "MC_DRV_ERR_TCI_GREATER_THAN_WSM \<equiv> MC_DRV_ERR_INVALID_PARAMETER"
abbreviation (input) MC_DRV_ERR_DAEMON_WSM_HANDLE_NOT_FOUND :: u32 where "MC_DRV_ERR_DAEMON_WSM_HANDLE_NOT_FOUND \<equiv> MC_DRV_ERR_INVALID_PARAMETER"
abbreviation (input) MC_DRV_ERR_DAEMON_UNKNOWN_SESSION :: u32 where "MC_DRV_ERR_DAEMON_UNKNOWN_SESSION \<equiv> MC_DRV_ERR_UNKNOWN_SESSION"

definition MAKE_MC_DRV_MCP_ERROR :: "u32 \<Rightarrow> u32" where
  "MAKE_MC_DRV_MCP_ERROR mcpCode = MC_DRV_ERR_MCP_ERROR OR push_bit 8 (mcpCode AND 0x000FFFFF)"

definition MC_DRV_ERROR_MAJOR :: "u32 \<Rightarrow> u32" where
  "MC_DRV_ERROR_MAJOR ecode = ecode AND 0xFF"

definition MC_DRV_ERROR_MCP :: "u32 \<Rightarrow> u32" where
  "MC_DRV_ERROR_MCP ecode = drop_bit 8 ecode AND 0xFF"

lemma MAKE_MC_DRV_MCP_ERROR_nonzero [simp]: "MAKE_MC_DRV_MCP_ERROR x \<noteq> 0"
  by (simp add: MAKE_MC_DRV_MCP_ERROR_def or_eq_0_iff)

lemma MC_DRV_ERROR_MAJOR_MAKE [simp]:
  "MC_DRV_ERROR_MAJOR (MAKE_MC_DRV_MCP_ERROR x) = MC_DRV_ERR_MCP_ERROR"
  unfolding MC_DRV_ERROR_MAJOR_def MAKE_MC_DRV_MCP_ERROR_def
  by (rule bit_word_eqI) (auto simp: bit_simps numeral_eq_Suc less_Suc_eq_0_disj)

lemma MC_DRV_ERROR_MCP_MAKE [simp]:
  "MC_DRV_ERROR_MCP (MAKE_MC_DRV_MCP_ERROR x) = x AND 0xFF"
  unfolding MC_DRV_ERROR_MCP_def MAKE_MC_DRV_MCP_ERROR_def
proof (rule bit_word_eqI, goal_cases)
  case (1 n)
  then show ?case by (auto simp: bit_simps) (auto simp: numeral_eq_Suc less_Suc_eq_0_disj)
qed

section \<open>Lists updated through a key\<close>

text \<open>
  The sources keep their objects in lists of pointers and change the object a pointer refers
  to. A model of such a list holds the objects with their identity; an update through a
  pointer changes the objects of that identity and leaves the order alone.
\<close>

definition update_at :: "('a \<Rightarrow> 'k) \<Rightarrow> 'k \<Rightarrow> ('a \<Rightarrow> 'a) \<Rightarrow> 'a list \<Rightarrow> 'a list" where
  "update_at key k f xs = map (\<lambda>x. if key x = k then f x else x) xs"

definition erase_at :: "('a \<Rightarrow> 'k) \<Rightarrow> 'k \<Rightarrow> 'a list \<Rightarrow> 'a list" where
  "erase_at key k xs = filter (\<lambda>x. key x \<noteq> k) xs"

lemma update_at_simps [simp]:
  "update_at key k f [] = []"
  "update_at key k f (x # xs) = (if key x = k then f x else x) # update_at key k f xs"
  by (simp_all add: update_at_def)

lemma erase_at_simps [simp]:
  "erase_at key k [] = []"
  "erase_at key k (x # xs) = (if key x = k then erase_at key k xs else x # erase_at key k xs)"
  by (simp_all add: erase_at_def)

lemma length_update_at [simp]: "length (update_at key k f xs) = length xs"
  by (simp add: update_at_def)

lemma map_update_at:
  "(\<And>x. g (f x) = g x) \<Longrightarrow> map g (update_at key k f xs) = map g xs"
  by (induction xs) auto

lemma set_erase_at [simp]: "set (erase_at key k xs) = {x \<in> set xs. key x \<noteq> k}"
  by (auto simp: erase_at_def)

lemma distinct_map_erase_at:
  "distinct (map g xs) \<Longrightarrow> distinct (map g (erase_at key k xs))"
  by (simp add: erase_at_def distinct_map_filter)

section \<open>Words\<close>

lemma unat_plus_no_wrap:
  fixes a b :: "'w::len word"
  shows "unat a + unat b < 2 ^ LENGTH('w) \<Longrightarrow> unat (a + b) = unat a + unat b"
  by (simp add: unat_word_ariths)

lemma unat_diff_succ:
  fixes w r :: "'w::len word"
  shows "Suc (unat (w - r)) < 2 ^ LENGTH('w) \<Longrightarrow> unat (w + 1 - r) = Suc (unat (w - r))"
  using unat_plus_no_wrap [of "w - r" 1] by (simp add: algebra_simps)

lemma unat_diff_pred:
  fixes w r :: "'w::len word"
  assumes "w - r \<noteq> 0"
  shows "unat (w - (r + 1)) = unat (w - r) - 1"
proof -
  have "w - (r + 1) = (w - r) - 1" by simp
  with assms show ?thesis by (metis unat_minus_one)
qed

section \<open>Reading fields of C structures out of bytes\<close>

definition byte_at :: "u8 list \<Rightarrow> nat \<Rightarrow> u8" where
  "byte_at bs i = (if i < length bs then bs ! i else 0)"

definition le32 :: "u8 list \<Rightarrow> nat \<Rightarrow> u32" where
  "le32 bs i = ucast (byte_at bs i) OR push_bit 8 (ucast (byte_at bs (i + 1)))
     OR push_bit 16 (ucast (byte_at bs (i + 2))) OR push_bit 24 (ucast (byte_at bs (i + 3)))"

text \<open>The bytes of a member of \<open>n\<close> bytes, lowest first.\<close>

definition le_bytes :: "nat \<Rightarrow> u64 \<Rightarrow> u8 list" where
  "le_bytes n w = map (\<lambda>i. ucast (drop_bit (8 * i) w)) [0..<n]"

lemma length_le_bytes [simp]: "length (le_bytes n w) = n"
  by (simp add: le_bytes_def)

lemma byte_at_append: "byte_at (xs @ ys) i = (if i < length xs then byte_at xs i else byte_at ys (i - length xs))"
  by (auto simp: byte_at_def nth_append)

lemma byte_at_le_bytes: "i < n \<Longrightarrow> byte_at (le_bytes n w) i = ucast (drop_bit (8 * i) w)"
  by (simp add: byte_at_def le_bytes_def)

lemma four_bytes:
  fixes w :: u64
  shows "ucast (ucast w :: u8) OR push_bit 8 (ucast (ucast (drop_bit 8 w) :: u8))
    OR push_bit 16 (ucast (ucast (drop_bit 16 w) :: u8)) OR push_bit 24 (ucast (ucast (drop_bit 24 w) :: u8)) = (ucast w :: u32)"
proof (rule bit_word_eqI)
  fix n assume n: "n < LENGTH(32)"
  consider "n < 8" | "8 \<le> n" "n < 16" | "16 \<le> n" "n < 24" | "24 \<le> n" using n by linarith
  then show "bit (ucast (ucast w :: u8) OR push_bit 8 (ucast (ucast (drop_bit 8 w) :: u8))
    OR push_bit 16 (ucast (ucast (drop_bit 16 w) :: u8)) OR push_bit 24 (ucast (ucast (drop_bit 24 w) :: u8)) :: u32) n
    \<longleftrightarrow> bit (ucast w :: u32) n"
    using n by cases (simp_all add: bit_simps, auto)
qed

lemma le32_le_bytes:
  assumes "4 \<le> n" "i = length xs"
  shows "le32 (xs @ le_bytes n w @ ys) i = ucast w"
proof -
  have b: "byte_at (xs @ le_bytes n w @ ys) (i + k) = ucast (drop_bit (8 * k) w)" if "k < 4" for k
    using that assms by (simp add: byte_at_append byte_at_le_bytes)
  show ?thesis
    using b [of 0] b [of 1] b [of 2] b [of 3] by (simp add: le32_def four_bytes)
qed

end
