(* ===== verification/Base64.thy ===== *)
theory Base64
  imports Prelude
begin

text \<open>
  \<^verbatim>\<open>mobicore/rootpa/Code/Common/base64.c\<close>: the codec RootPA uses for the payload of its XML
  messages. Bytes are \<open>u8\<close>; the C string to decode is the list of its bytes before the
  terminating zero, and the input still to be read is the rest of that list.
\<close>

section \<open>The tables\<close>

definition cb64 :: "u8 list" where
  "cb64 = map of_char ''ABCDEFGHIJKLMNOPQRSTUVWXYZabcdefghijklmnopqrstuvwxyz0123456789+/''"

definition cd64 :: "u8 list" where
  "cd64 = map of_char (''|$$$}rstuvwxyz{$$$$$$$>?@ABCDEFGHIJKLMNOPQRSTUVW$$$$$$XYZ['' @ [CHR 0x5C]
     @ '']^_'' @ [CHR 0x60] @ ''abcdefghijklmnopq'')"

section \<open>Encoding\<close>

definition encodeblock :: "u8 \<Rightarrow> u8 \<Rightarrow> u8 \<Rightarrow> nat \<Rightarrow> u8 list" where
  "encodeblock in0 in1 in2 len =
     [cb64 ! unat (drop_bit 2 in0),
      cb64 ! unat (push_bit 4 (in0 AND 0x03) OR drop_bit 4 (in1 AND 0xf0)),
      (if len > 1 then cb64 ! unat (push_bit 2 (in1 AND 0x0f) OR drop_bit 6 (in2 AND 0xc0))
       else of_char (CHR ''='')),
      (if len > 2 then cb64 ! unat (in2 AND 0x3f) else of_char (CHR ''=''))]"

text \<open>The inner \<open>for\<close>: one byte of the block, 0 past the end of the input.\<close>

definition plain_byte :: "u8 list \<Rightarrow> nat \<Rightarrow> u8" where
  "plain_byte d i = (if i < length d then d ! i else 0)"

definition block_len :: "u8 list \<Rightarrow> nat \<Rightarrow> nat" where
  "block_len d i = (if i < length d then 1 else 0) + (if i + 1 < length d then 1 else 0)
     + (if i + 2 < length d then 1 else 0)"

function encode_loop :: "u8 list \<Rightarrow> nat \<Rightarrow> u8 list \<Rightarrow> u8 list" where
  "encode_loop d inIndex out =
     (if inIndex < length d then
        (let len = block_len d inIndex
         in encode_loop d (inIndex + 3)
              (if len > 0
               then out @ encodeblock (plain_byte d inIndex) (plain_byte d (inIndex + 1))
                            (plain_byte d (inIndex + 2)) len
               else out))
      else out)"
  by pat_completeness auto
termination
  by (relation "measure (\<lambda>(d, i, out). length d - i)") auto

declare encode_loop.simps [simp del]

definition encode_outSize :: "nat \<Rightarrow> nat" where
  "encode_outSize len = (len div 3 + (if len mod 3 > 0 then 1 else 0)) * 4 + 1"

definition base64EncodeAddEndZero :: "(nat \<Rightarrow> bool) \<Rightarrow> u8 list option \<Rightarrow> u8 list option" where
  "base64EncodeAddEndZero malloc toBeEncoded =
     (case toBeEncoded of
        None \<Rightarrow> None
      | Some d \<Rightarrow>
          if \<not> malloc (encode_outSize (length d)) then None
          else Some (encode_loop d 0 [] @ [0]))"

section \<open>Decoding\<close>

definition decodeblock :: "u8 list \<Rightarrow> u8 list" where
  "decodeblock b =
     [push_bit 2 (b ! 0) OR drop_bit 4 (b ! 1),
      push_bit 4 (b ! 1) OR drop_bit 2 (b ! 2),
      (push_bit 6 (b ! 2) AND 0xc0) OR b ! 3]"

text \<open>The value of one character: 0 for a character to skip, else the sextet plus one.\<close>

definition char_val :: "u8 \<Rightarrow> nat" where
  "char_val c =
     (let v = (if unat c < 43 \<or> 122 < unat c then 0 else unat (cd64 ! (unat c - 43)))
      in if v \<noteq> 0 then (if v = 36 then 0 else v - 61) else v)"

text \<open>The \<open>while\<close> that skips characters outside the alphabet.\<close>

fun next_val :: "u8 list \<Rightarrow> nat \<times> u8 list" where
  "next_val [] = (0, [])"
| "next_val (c # cs) = (let v = char_val c in if v = 0 then next_val cs else (v, cs))"

lemma next_val_shorter: "rest \<noteq> [] \<Longrightarrow> length (snd (next_val rest)) < length rest"
proof (induction rest)
  case (Cons c cs)
  then show ?case by (cases cs) (auto simp: Let_def less_SucI)
qed simp

text \<open>The \<open>for\<close> that fills the four input bytes; \<open>b\<close> keeps what it held before.\<close>

function fill :: "nat \<Rightarrow> u8 list \<Rightarrow> nat \<Rightarrow> u8 list \<Rightarrow> u8 list \<times> nat \<times> u8 list" where
  "fill i b len rest =
     (if i < 4 \<and> rest \<noteq> [] then
        (let (v, rest') = next_val rest
         in if v \<noteq> 0 then fill (i + 1) (b[i := of_nat (v - 1)]) (len + 1) rest'
            else fill (i + 1) b len rest')
      else (b, len, rest))"
  by pat_completeness auto
termination
  by (relation "measure (\<lambda>(i, b, len, rest). 4 - i)") auto

declare fill.simps [simp del]

lemma fill_rest_le: "length (snd (snd (fill i b len rest))) \<le> length rest"
proof (induction i b len rest rule: fill.induct)
  case (1 i b len rest)
  show ?case
  proof (cases "i < 4 \<and> rest \<noteq> []")
    case True
    obtain v rest' where n: "next_val rest = (v, rest')" by force
    have "length rest' \<le> length rest" using next_val_shorter [of rest] True n by simp
    then show ?thesis
      using 1(1)[OF True n [symmetric] refl] 1(2)[OF True n [symmetric] refl] True n
      by (subst fill.simps) (auto intro: order_trans)
  next
    case False
    then show ?thesis by (subst fill.simps) auto
  qed
qed

lemma fill_shorter:
  assumes "rest \<noteq> []"
  shows "length (snd (snd (fill 0 b len rest))) < length rest"
proof -
  obtain v rest' where n: "next_val rest = (v, rest')" by force
  have "length rest' < length rest" using next_val_shorter [OF assms] n by simp
  then show ?thesis
    using assms n fill_rest_le [of 1 _ _ rest']
    by (subst fill.simps) (auto intro: le_less_trans)
qed

function decode_loop :: "u8 list \<Rightarrow> u8 list \<Rightarrow> u8 list \<Rightarrow> u8 list" where
  "decode_loop b rest out =
     (if rest \<noteq> [] then
        (let (b', len, rest') = fill 0 b 0 rest
         in decode_loop b' rest'
              (if len > 0 then out @ take (len - 1) (decodeblock b') else out))
      else out)"
  by pat_completeness auto
termination
proof (relation "measure (\<lambda>(b, rest, out). length rest)", goal_cases)
  case (2 b rest out x b' y len rest')
  then show ?case using fill_shorter [of rest b 0] by (metis in_measure old.prod.case snd_conv)
qed simp

declare decode_loop.simps [simp del]

definition decode_outSize :: "nat \<Rightarrow> nat" where
  "decode_outSize inSize = (inSize * 3) div 4 + (inSize * 3) mod 4"

text \<open>
  \<open>garbage\<close> is what the last three bytes of the uninitialised buffer \<open>in\<close> hold. The result is
  the decoded prefix of the allocated buffer, and \<open>None\<close> stands for the returned size 0
  with no buffer.
\<close>

definition base64DecodeStringRemoveEndZero ::
  "(nat \<Rightarrow> bool) \<Rightarrow> u8 list \<Rightarrow> u8 list option \<Rightarrow> u8 list option" where
  "base64DecodeStringRemoveEndZero malloc garbage toBeDecoded =
     (case toBeDecoded of
        None \<Rightarrow> None
      | Some s \<Rightarrow>
          if \<not> malloc (decode_outSize (length s)) then None
          else Some (decode_loop (0 # take 3 garbage) s []))"

section \<open>Reference definitions\<close>

text \<open>The encoding of a byte string, three bytes at a time, without indices.\<close>

fun enc_ref :: "u8 list \<Rightarrow> u8 list" where
  "enc_ref [] = []"
| "enc_ref [a] = encodeblock a 0 0 1"
| "enc_ref [a, b] = encodeblock a b 0 2"
| "enc_ref (a # b # c # r) = encodeblock a b c 3 @ enc_ref r"

text \<open>The sextets a string carries: its characters of the alphabet, in order.\<close>

definition sextets :: "u8 list \<Rightarrow> u8 list" where
  "sextets s = map (\<lambda>v. of_nat (v - 1)) (filter (\<lambda>v. v \<noteq> 0) (map char_val s))"

fun dec_ref :: "u8 list \<Rightarrow> u8 list" where
  "dec_ref [a, b] = take 1 (decodeblock [a, b, 0, 0])"
| "dec_ref [a, b, c] = take 2 (decodeblock [a, b, c, 0])"
| "dec_ref (a # b # c # d # r) = decodeblock [a, b, c, d] @ dec_ref r"
| "dec_ref _ = []"

section \<open>Encoding: the loop is the reference\<close>

lemma length_encodeblock [simp]: "length (encodeblock a b c len) = 4"
  by (simp add: encodeblock_def)

lemma drop_plain_byte: "i < length d \<Longrightarrow> drop i d = plain_byte d i # drop (Suc i) d"
  by (simp add: plain_byte_def Cons_nth_drop_Suc)

lemma encode_loop_ref: "encode_loop d i out = out @ enc_ref (drop i d)"
proof (induction d i out rule: encode_loop.induct)
  case (1 d i out)
  consider "length d \<le> i" | "length d = i + 1" | "length d = i + 2" | "i + 2 < length d"
    by linarith
  then show ?case
  proof cases
    case 1
    then show ?thesis by (subst encode_loop.simps) simp
  next
    case 2
    then show ?thesis using "1" [OF _ refl]
      by (subst encode_loop.simps) (simp add: block_len_def drop_plain_byte plain_byte_def)
  next
    case 3
    then show ?thesis using "1" [OF _ refl]
      by (subst encode_loop.simps)
        (simp add: block_len_def drop_plain_byte plain_byte_def numeral_2_eq_2)
  next
    case 4
    then have "drop i d = plain_byte d i # plain_byte d (i + 1) # plain_byte d (i + 2) # drop (i + 3) d"
      by (simp add: drop_plain_byte eval_nat_numeral)
    with 4 show ?thesis using "1" [OF _ refl]
      by (subst encode_loop.simps) (simp add: block_len_def numeral_3_eq_3)
  qed
qed

lemma length_enc_ref: "length (enc_ref d) + 1 = encode_outSize (length d)"
proof (induction d rule: enc_ref.induct)
  case (4 a b c r)
  have "(3 + n) div 3 = Suc (n div 3)" "(3 + n) mod 3 = n mod 3" for n :: nat by simp_all
  with 4 show ?case by (simp add: encode_outSize_def)
qed (simp_all add: encode_outSize_def)

section \<open>Decoding: the loop is the reference\<close>

lemma sextets_simps [simp]:
  "sextets [] = []"
  "sextets (c # s) = (if char_val c = 0 then sextets s else of_nat (char_val c - 1) # sextets s)"
  "sextets (s @ t) = sextets s @ sextets t"
  by (simp_all add: sextets_def)

lemma length_sextets_le: "length (sextets s) \<le> length s"
  by (induction s) auto

lemma next_val_sextets:
  "next_val rest = (v, rest') \<Longrightarrow>
     (v = 0 \<longrightarrow> sextets rest = [] \<and> rest' = []) \<and>
     (v \<noteq> 0 \<longrightarrow> sextets rest = of_nat (v - 1) # sextets rest')"
  by (induction rest) (auto simp: Let_def split: if_splits)

lemma fill_spec:
  "i \<le> 4 \<Longrightarrow> length b = 4 \<Longrightarrow>
   fill i b len rest = (b', len', rest') \<Longrightarrow>
     (let got = take (4 - i) (sextets rest)
      in len' = len + length got \<and> sextets rest' = drop (4 - i) (sextets rest)
         \<and> b' = take i b @ got @ drop (i + length got) b)"
proof (induction i b len rest arbitrary: b' len' rest' rule: fill.induct)
  case (1 i b len rest)
  show ?case
  proof (cases "i < 4 \<and> rest \<noteq> []")
    case False
    with 1(3-5) show ?thesis by (subst (asm) fill.simps) (auto simp: Let_def)
  next
    case True
    obtain v r where n: "next_val rest = (v, r)" by force
    note sx = next_val_sextets [OF n]
    from True obtain k where k: "4 - i = Suc k" by (cases "4 - i") auto
    then have k': "4 - (i + 1) = k" "3 - i = k" by simp_all
    show ?thesis
    proof (cases "v = 0")
      case v0: True
      have e: "fill (i + 1) b len r = (b', len', rest')"
        using 1(5) True n v0 by (subst (asm) fill.simps) simp
      then show ?thesis using sx v0 by (subst (asm) fill.simps) (auto simp: Let_def)
    next
      case False
      have e: "fill (i + 1) (b[i := of_nat (v - 1)]) (len + 1) r = (b', len', rest')"
        using 1(5) True n False by (subst (asm) fill.simps) simp
      have "take (i + 1) (b[i := of_nat (v - 1)]) = take i b @ [of_nat (v - 1)]"
        using True 1(4) by (simp add: take_Suc_conv_app_nth)
      moreover have "drop (i + 1 + m) (b[i := of_nat (v - 1)]) = drop (i + 1 + m) b" for m
        by (simp add: drop_update_cancel)
      ultimately show ?thesis
        using 1(1)[OF True n [symmetric] refl False _ _ e] True 1(4) sx False
        by (simp add: Let_def k k')
    qed
  qed
qed

lemma dec_ref_short: "length ss < 2 \<Longrightarrow> dec_ref ss = []"
  by (cases ss rule: dec_ref.cases) auto

lemma dec_ref_block:
  assumes "length b = 4" "ss \<noteq> []"
  shows "dec_ref ss = take (length (take 4 ss) - 1) (decodeblock (take 4 ss @ drop (length (take 4 ss)) b))
           @ dec_ref (drop 4 ss)"
  using assms by (cases ss rule: dec_ref.cases) (auto simp: decodeblock_def)

lemma decode_loop_ref:
  "length b = 4 \<Longrightarrow> decode_loop b rest out = out @ dec_ref (sextets rest)"
proof (induction b rest out rule: decode_loop.induct)
  case (1 b rest out)
  show ?case
  proof (cases "rest = []")
    case True
    then show ?thesis by (subst decode_loop.simps) simp
  next
    case False
    obtain b' len rest' where f: "fill 0 b 0 rest = (b', len, rest')" by (metis prod_cases3)
    have sp: "len = length (take 4 (sextets rest))" "sextets rest' = drop 4 (sextets rest)"
      "b' = take 4 (sextets rest) @ drop len b"
      using fill_spec [OF _ 1(2) f] by (simp_all add: Let_def)
    have lb': "length b' = 4" using sp(3) 1(2) sp(1) by simp
    show ?thesis
    proof (cases "sextets rest = []")
      case True
      then have "len = 0" using sp(1) by simp
      then show ?thesis using 1(1)[OF False refl f [symmetric] refl lb'] False f sp(2) True
        by (subst decode_loop.simps) simp
    next
      case ne: False
      then have "len > 0" using sp(1) by simp
      then show ?thesis using 1(1)[OF False refl f [symmetric] refl lb'] False f sp
          dec_ref_block [OF 1(2) ne]
        by (subst decode_loop.simps) simp
    qed
  qed
qed

lemma length_dec_ref_le: "length (dec_ref ss) \<le> (length ss * 3) div 4"
  by (induction ss rule: dec_ref.induct) (auto simp: decodeblock_def)

section \<open>The two tables are inverse\<close>

lemma cb64_bytes:
  "cb64 = [65, 66, 67, 68, 69, 70, 71, 72, 73, 74, 75, 76, 77, 78, 79, 80, 81, 82, 83, 84, 85,
     86, 87, 88, 89, 90, 97, 98, 99, 100, 101, 102, 103, 104, 105, 106, 107, 108, 109, 110, 111,
     112, 113, 114, 115, 116, 117, 118, 119, 120, 121, 122, 48, 49, 50, 51, 52, 53, 54, 55, 56,
     57, 43, 47]"
  by (simp add: cb64_def)

lemma cd64_bytes:
  "cd64 = [124, 36, 36, 36, 125, 114, 115, 116, 117, 118, 119, 120, 121, 122, 123, 36, 36, 36,
     36, 36, 36, 36, 62, 63, 64, 65, 66, 67, 68, 69, 70, 71, 72, 73, 74, 75, 76, 77, 78, 79, 80,
     81, 82, 83, 84, 85, 86, 87, 36, 36, 36, 36, 36, 36, 88, 89, 90, 91, 92, 93, 94, 95, 96, 97,
     98, 99, 100, 101, 102, 103, 104, 105, 106, 107, 108, 109, 110, 111, 112, 113]"
  by (simp add: cd64_def)

lemma map_char_val_cb64: "map char_val cb64 = map Suc [0..<64]"
  by (simp add: cb64_bytes cd64_bytes char_val_def upt_rec)

lemma char_val_equals [simp]: "char_val 61 = 0"
  by (simp add: char_val_def cd64_bytes)

section \<open>Round trip\<close>

text \<open>The four sextets of a block of three bytes.\<close>

definition sx0 :: "u8 \<Rightarrow> u8" where "sx0 a = drop_bit 2 a"
definition sx1 :: "u8 \<Rightarrow> u8 \<Rightarrow> u8" where
  "sx1 a b = push_bit 4 (a AND 0x03) OR drop_bit 4 (b AND 0xf0)"
definition sx2 :: "u8 \<Rightarrow> u8 \<Rightarrow> u8" where
  "sx2 b c = push_bit 2 (b AND 0x0f) OR drop_bit 6 (c AND 0xc0)"
definition sx3 :: "u8 \<Rightarrow> u8" where "sx3 c = c AND 0x3f"

lemmas sx_defs = sx0_def sx1_def sx2_def sx3_def

lemma encodeblock_sx:
  "encodeblock a b c len =
     [cb64 ! unat (sx0 a), cb64 ! unat (sx1 a b),
      (if len > 1 then cb64 ! unat (sx2 b c) else 61),
      (if len > 2 then cb64 ! unat (sx3 c) else 61)]"
  by (simp add: encodeblock_def sx_defs)

lemma sextet_bound: "w AND 0x3f = w \<Longrightarrow> unat (w :: u8) < 64"
proof -
  assume "w AND 0x3f = w"
  then have "w \<le> 0x3f" by (metis word_and_le1)
  then show ?thesis by (simp add: word_le_nat_alt)
qed

lemma less_8_cases:
  "n < LENGTH(8) \<Longrightarrow> n = 0 \<or> n = 1 \<or> n = 2 \<or> n = 3 \<or> n = 4 \<or> n = 5 \<or> n = 6 \<or> n = 7"
  by simp linarith

lemma sx_bounds [simp]: "unat (sx1 a b) < 64" "unat (sx2 a b) < 64" "unat (sx3 a) < 64"
  unfolding sx_defs
  by ((rule sextet_bound, rule bit_word_eqI, drule less_8_cases, elim disjE; simp add: bit_simps)+)

lemma sx0_bound [simp]: "unat (sx0 a) < 64"
proof -
  have "unat a < 256" using unsigned_less [of a] by simp
  then show ?thesis by (simp add: sx0_def drop_bit_eq_div unat_div)
qed

lemma decode_byte0: "push_bit 2 (sx0 a) OR drop_bit 4 (sx1 a b) = a"
  unfolding sx_defs
  by (rule bit_word_eqI, drule less_8_cases, elim disjE; auto simp: bit_simps)

lemma decode_byte1: "push_bit 4 (sx1 a b) OR drop_bit 2 (sx2 b c) = b"
  unfolding sx_defs
  by (rule bit_word_eqI, drule less_8_cases, elim disjE; auto simp: bit_simps)

lemma decode_byte2: "(push_bit 6 (sx2 b c) AND 0xc0) OR sx3 c = c"
  unfolding sx_defs
  by (rule bit_word_eqI, drule less_8_cases, elim disjE; auto simp: bit_simps)

lemmas decode_bytes = decode_byte0 decode_byte1 decode_byte2

lemma char_val_cb64: "k < 64 \<Longrightarrow> char_val (cb64 ! k) = Suc k"
proof -
  assume k: "k < 64"
  have "length cb64 = 64" by (simp add: cb64_bytes)
  then have "char_val (cb64 ! k) = map char_val cb64 ! k" using k by simp
  also have "\<dots> = Suc k" using k by (simp only: map_char_val_cb64) simp
  finally show ?thesis .
qed

lemma sextets_cb64: "unat w < 64 \<Longrightarrow> sextets (cb64 ! unat w # s) = w # sextets s"
  by (simp add: char_val_cb64)

lemma sextets_encodeblock:
  "sextets (encodeblock a b c 1 @ s) = sx0 a # sx1 a b # sextets s"
  "sextets (encodeblock a b c 2 @ s) = sx0 a # sx1 a b # sx2 b c # sextets s"
  "sextets (encodeblock a b c 3 @ s) = sx0 a # sx1 a b # sx2 b c # sx3 c # sextets s"
  unfolding encodeblock_sx by (simp_all add: char_val_cb64)

lemma dec_enc_ref: "dec_ref (sextets (enc_ref d)) = d"
proof (induction d rule: enc_ref.induct)
  case (2 a)
  show ?case using sextets_encodeblock(1) [of a 0 0 "[]"] decode_byte0 [of a 0]
    by (simp add: decodeblock_def)
next
  case (3 a b)
  show ?case using sextets_encodeblock(2) [of a b 0 "[]"] decode_byte0 [of a b] decode_byte1 [of a b 0]
    by (simp add: decodeblock_def)
next
  case (4 a b c r)
  then show ?case
    by (simp only: enc_ref.simps sextets_encodeblock dec_ref.simps)
      (simp add: decodeblock_def decode_bytes)
qed simp

lemma enc_ref_no_nul: "0 \<notin> set (enc_ref d)"
proof (induction d rule: enc_ref.induct)
  have "length cb64 = 64" "0 \<notin> set cb64" by (simp_all add: cb64_bytes)
  then have nz: "unat w < 64 \<Longrightarrow> cb64 ! unat w \<noteq> 0" for w :: u8 by (metis nth_mem)
  have blk: "0 \<notin> set (encodeblock a b c len)" for a b c len
    using nz [of "sx0 a"] nz [of "sx1 a b"] nz [of "sx2 b c"] nz [of "sx3 c"]
    by (auto simp: encodeblock_sx)
  { case (2 a) show ?case using blk by simp }
  { case (3 a b) show ?case using blk by simp }
  { case (4 a b c r) then show ?case using blk by simp }
qed simp

section \<open>The codec as an interface\<close>

text \<open>
  What the XML layer relies on: decoding inverts encoding. The consequences are proved once,
  for any codec with this law.
\<close>

locale codec =
  fixes encode :: "'a \<Rightarrow> 'b" and decode :: "'b \<Rightarrow> 'a"
  assumes decode_encode: "decode (encode x) = x"
begin

lemma encode_inj: "encode x = encode y \<Longrightarrow> x = y"
  by (metis decode_encode)

lemma encode_decode_encode: "encode (decode (encode x)) = encode x"
  by (simp add: decode_encode)

lemma decode_surj: "\<exists>y. decode y = x"
  using decode_encode by blast

end

text \<open>
  The model's own routines: the encoder's buffer up to its terminating zero, and the decoder
  on whatever its uninitialised buffer holds.
\<close>

definition b64_encode :: "u8 list \<Rightarrow> u8 list" where
  "b64_encode d = encode_loop d 0 []"

definition b64_decode :: "u8 list \<Rightarrow> u8 list \<Rightarrow> u8 list" where
  "b64_decode garbage s = decode_loop (0 # take 3 garbage) s []"

lemma b64_encode_ref: "b64_encode d = enc_ref d"
  by (simp add: b64_encode_def encode_loop_ref)

lemma b64_decode_ref: "length garbage = 3 \<Longrightarrow> b64_decode garbage s = dec_ref (sextets s)"
  by (simp add: b64_decode_def decode_loop_ref)

interpretation b64: codec b64_encode "b64_decode [x, y, z]" for x y z
  by unfold_locales (simp add: b64_encode_ref b64_decode_ref dec_enc_ref)

section \<open>Properties\<close>

text \<open>
  C31: what \<open>base64EncodeAddEndZero\<close> returns, \<open>base64DecodeStringRemoveEndZero\<close> decodes back
  to the input bytes, for every input and whatever the decoder's uninitialised buffer holds.
\<close>

theorem base64_roundtrip:
  assumes "length garbage = 3"
    and "base64EncodeAddEndZero m1 (Some d) = Some buf"
    and "m2 (decode_outSize (length (butlast buf)))"
  shows "base64DecodeStringRemoveEndZero m2 garbage (Some (butlast buf)) = Some d"
proof -
  obtain x y z where g: "garbage = [x, y, z]"
    using assms(1) by (auto simp: length_Suc_conv eval_nat_numeral)
  have "butlast buf = b64_encode d"
    using assms(2) by (auto simp: base64EncodeAddEndZero_def b64_encode_def split: if_splits)
  then show ?thesis
    using assms(3) b64.decode_encode [of x y z d] g
    by (simp add: base64DecodeStringRemoveEndZero_def b64_decode_def)
qed

theorem base64_roundtrip_witness:
  "base64DecodeStringRemoveEndZero (\<lambda>_. True) [7, 8, 9]
     (Some (butlast [84, 87, 70, 117, 77, 81, 61, 61, 0])) = Some [77, 97, 110, 49]"
proof (rule base64_roundtrip [of _ "\<lambda>_. True"])
  show "base64EncodeAddEndZero (\<lambda>_. True) (Some [77, 97, 110, 49]) =
      Some [84, 87, 70, 117, 77, 81, 61, 61, 0]"
    by (simp add: base64EncodeAddEndZero_def encode_loop_ref encodeblock_def cb64_bytes)
qed simp_all

text \<open>
  the encoder fills its allocation exactly: the buffer has the \<open>outSize\<close> bytes that were
  allocated, the last one is the only zero byte, and what comes before is the encoding of the
  input three bytes at a time.
\<close>

theorem base64_encode_fills_buffer:
  assumes "base64EncodeAddEndZero m (Some d) = Some buf"
  shows "length buf = encode_outSize (length d) \<and> last buf = 0 \<and> 0 \<notin> set (butlast buf)
    \<and> butlast buf = enc_ref d"
proof -
  have "buf = enc_ref d @ [0]"
    using assms by (auto simp: base64EncodeAddEndZero_def encode_loop_ref split: if_splits)
  then show ?thesis using length_enc_ref [of d] enc_ref_no_nul [of d] by simp
qed

theorem base64_encode_fills_buffer_witness:
  "length [84, 81, 61, 61, 0 :: u8] = encode_outSize (length [77 :: u8])"
proof -
  have "base64EncodeAddEndZero (\<lambda>_. True) (Some [77]) = Some [84, 81, 61, 61, 0]"
    by (simp add: base64EncodeAddEndZero_def encode_loop_ref encodeblock_def cb64_bytes)
  from base64_encode_fills_buffer [OF this] show ?thesis by blast
qed

text \<open>
  On any input, well-formed or not, the decoder writes no byte past the buffer it
  allocated, skips every character outside the alphabet, and its result does not depend on
  the uninitialised bytes of its input block.
\<close>

theorem base64_decode_bounded:
  assumes "length garbage = 3"
    and "base64DecodeStringRemoveEndZero m garbage (Some s) = Some out"
  shows "length out \<le> decode_outSize (length s) \<and> out = dec_ref (sextets s)"
proof -
  have out: "out = dec_ref (sextets s)"
    using assms by (auto simp: base64DecodeStringRemoveEndZero_def decode_loop_ref split: if_splits)
  have "length out \<le> (length (sextets s) * 3) div 4"
    unfolding out by (rule length_dec_ref_le)
  also have "\<dots> \<le> (length s * 3) div 4"
    using length_sextets_le [of s] by (intro div_le_mono mult_le_mono) auto
  finally show ?thesis using out by (simp add: decode_outSize_def)
qed

theorem base64_decode_bounded_witness:
  "length [77 :: u8] \<le> decode_outSize (length [84, 10, 81, 61, 61 :: u8])"
proof -
  have w: "base64DecodeStringRemoveEndZero (\<lambda>_. True) [1, 2, 3] (Some [84, 10, 81, 61, 61]) = Some [77]"
    by (simp add: base64DecodeStringRemoveEndZero_def decode_loop_ref char_val_def cd64_bytes
        decodeblock_def)
  show ?thesis by (rule base64_decode_bounded [OF _ w, THEN conjunct1]) simp
qed

end
