(* ===== verification/Crc32.thy ===== *)
theory Crc32
  imports Prelude
begin

text \<open>
  \<^verbatim>\<open>mobicore/provlib/src/crc32.c\<close>: the table-driven CRC-32 that protects the messages of the
  provisioning library. The global table is the list \<open>crctable\<close> the functions pass around;
  \<open>InitCRCTable\<close> builds it, \<open>CalcCRC32\<close> reads it.
\<close>

section \<open>The routines\<close>

function reflect_loop :: "nat \<Rightarrow> nat \<Rightarrow> u32 \<Rightarrow> u32 \<Rightarrow> u32" where
  "reflect_loop c i rf acc =
     (if i < c + 1 then
        (let acc' = (if rf AND 1 \<noteq> 0 then acc OR push_bit (c - i) 1 else acc)
         in reflect_loop c (i + 1) (drop_bit 1 rf) acc')
      else acc)"
  by pat_completeness auto
termination
  by (relation "measure (\<lambda>(c, i, rf, acc). c + 1 - i)") auto

declare reflect_loop.simps [simp del]

definition reflect :: "u32 \<Rightarrow> nat \<Rightarrow> u32" where
  "reflect rf c = reflect_loop c 1 rf 0"

text \<open>The body of the inner loop over \<open>j\<close>, and the entry of index \<open>i\<close>.\<close>

definition table_step :: "u32 \<Rightarrow> u32" where
  "table_step e = push_bit 1 e XOR (if e AND push_bit 31 1 \<noteq> 0 then 0x04C11DB7 else 0)"

definition table_entry :: "nat \<Rightarrow> u32" where
  "table_entry i = reflect ((table_step ^^ 8) (push_bit 24 (reflect (of_nat i) 8))) 32"

definition InitCRCTable :: "u32 list" where
  "InitCRCTable = map table_entry [0..<256]"

fun crc_loop :: "u32 list \<Rightarrow> u32 \<Rightarrow> u8 list \<Rightarrow> u32" where
  "crc_loop crctable crc [] = crc"
| "crc_loop crctable crc (d # data) =
     crc_loop crctable (drop_bit 8 crc XOR crctable ! unat ((crc AND 0xFF) XOR ucast d)) data"

definition CalcCRC32 :: "u32 list \<Rightarrow> u8 list \<Rightarrow> u32" where
  "CalcCRC32 crctable data = crc_loop crctable 0xFFFFFFFF data XOR 0xFFFFFFFF"

section \<open>Reference: one bit at a time\<close>

definition crc_bit :: "u32 \<Rightarrow> u32" where
  "crc_bit r = (if bit r 0 then drop_bit 1 r XOR 0xEDB88320 else drop_bit 1 r)"

fun crc_ref :: "u32 \<Rightarrow> u8 list \<Rightarrow> u32" where
  "crc_ref crc [] = crc"
| "crc_ref crc (d # data) = crc_ref ((crc_bit ^^ 8) (crc XOR ucast d)) data"

section \<open>Bit reversal\<close>

lemma and_one_nonzero: "(rf AND 1 \<noteq> 0) = bit (rf :: u32) 0"
  by (simp add: bit_0 and_one_eq odd_iff_mod_2_eq_one)

lemma bit_reflect_loop:
  "1 \<le> i \<Longrightarrow> c \<le> 32 \<Longrightarrow>
   bit (reflect_loop c i rf acc) n =
     (bit acc n \<or> (n < c \<and> i \<le> c - n \<and> bit rf (c - n - i)))"
proof (induction c i rf acc arbitrary: n rule: reflect_loop.induct)
  case (1 c i rf acc)
  show ?case
  proof (cases "i < c + 1")
    case False
    then show ?thesis by (subst reflect_loop.simps) auto
  next
    case True
    let ?v = "if rf AND 1 \<noteq> 0 then acc OR push_bit (c - i) 1 else acc"
    have v: "bit ?v n = (bit acc n \<or> n = c - i \<and> bit rf 0)"
      using True 1(2,3) by (auto simp: and_one_nonzero bit_simps bit_push_bit_iff)
    have "bit (reflect_loop c i rf acc) n =
        (bit ?v n \<or> (n < c \<and> i + 1 \<le> c - n \<and> bit (drop_bit 1 rf) (c - n - (i + 1))))"
      using 1(1)[OF True refl] 1(2,3) True by (subst reflect_loop.simps) (simp add: Let_def)
    also have "\<dots> = (bit acc n \<or> (n < c \<and> i \<le> c - n \<and> bit rf (c - n - i)))"
    proof (cases "n = c - i")
      case eq: True
      then show ?thesis using True 1(2) unfolding v by (auto simp: bit_drop_bit_eq)
    next
      case ne: False
      show ?thesis
      proof (cases "n < c \<and> i \<le> c - n")
        case in_range: True
        then have "i + 1 \<le> c - n" using ne by linarith
        moreover from this have "Suc (c - n - (i + 1)) = c - n - i" by linarith
        ultimately show ?thesis using in_range ne unfolding v by (simp add: bit_drop_bit_eq)
      next
        case False
        then show ?thesis using ne unfolding v by auto
      qed
    qed
    finally show ?thesis .
  qed
qed

lemma bit_reflect: "c \<le> 32 \<Longrightarrow> bit (reflect x c) n = (n < c \<and> bit x (c - 1 - n))"
  by (auto simp: reflect_def bit_reflect_loop)

lemma reflect_reflect: "reflect (reflect x 32) 32 = x"
  by (rule bit_word_eqI) (auto simp: bit_reflect)

section \<open>The table is eight steps of the reference\<close>

lemma msb_test: "(e AND push_bit 31 1 \<noteq> 0) = bit (e :: u32) 31"
  by (simp add: bit_iff_and_push_bit_not_eq_0)

lemma reflect_push_bit: "reflect (push_bit k e) 32 = drop_bit k (reflect e 32)"
  by (rule bit_word_eqI) (auto simp: bit_reflect bit_simps add.commute)

lemma reflect_table_step: "reflect (table_step e) 32 = crc_bit (reflect e 32)"
proof (rule bit_word_eqI)
  have poly: "reflect 0x04C11DB7 32 = (0xEDB88320 :: u32)"
    by (simp add: reflect_def reflect_loop.simps)
  fix n assume n: "n < LENGTH(32)"
  have shift: "bit (reflect (push_bit 1 e) 32) n = bit (drop_bit 1 (reflect e 32)) n"
    by (simp only: reflect_push_bit)
  have split: "bit (reflect (a XOR b) 32) n = (bit (reflect a 32) n \<noteq> bit (reflect b 32) n)" for a b :: u32
    using n by (auto simp: bit_reflect bit_simps)
  show "bit (reflect (table_step e) 32) n = bit (crc_bit (reflect e 32)) n"
  proof (cases "bit e 31")
    case True
    then have "bit (reflect e 32) 0" by (simp add: bit_reflect)
    then show ?thesis using True
      by (simp only: table_step_def crc_bit_def msb_test if_True split shift poly bit_xor_iff)
  next
    case False
    then have "\<not> bit (reflect e 32) 0" by (simp add: bit_reflect)
    then show ?thesis using False shift
      by (simp only: table_step_def crc_bit_def msb_test if_False xor.right_neutral)
  qed
qed

lemma reflect_table_steps: "reflect ((table_step ^^ k) e) 32 = (crc_bit ^^ k) (reflect e 32)"
  by (induction k) (simp_all add: reflect_table_step)

lemma reflect_byte:
  assumes "i < 256"
  shows "reflect (push_bit 24 (reflect (of_nat i) 8)) 32 = (of_nat i :: u32)"
proof (rule bit_word_eqI)
  fix n assume n: "n < LENGTH(32)"
  have "take_bit 8 i = i" using assms by (simp add: take_bit_eq_mod)
  then have "bit i n = (n < 8 \<and> bit i n)" by (metis bit_take_bit_iff)
  then show "bit (reflect (push_bit 24 (reflect (of_nat i) 8)) 32) n = bit (of_nat i :: u32) n"
    using n unfolding reflect_push_bit by (auto simp: bit_reflect bit_drop_bit_eq bit_simps)
qed

lemma table_entry_steps: "i < 256 \<Longrightarrow> table_entry i = (crc_bit ^^ 8) (of_nat i)"
  by (simp only: table_entry_def reflect_table_steps reflect_byte)

section \<open>One table lookup is eight steps\<close>

lemma crc_bit_xor: "crc_bit (a XOR b) = crc_bit a XOR crc_bit b"
  by (rule bit_word_eqI) (auto simp: crc_bit_def bit_simps)

lemma crc_bits_xor: "(crc_bit ^^ k) (a XOR b) = (crc_bit ^^ k) a XOR (crc_bit ^^ k) b"
  by (induction k) (simp_all add: crc_bit_xor)

lemma crc_bits_clear: "(\<And>m. m < k \<Longrightarrow> \<not> bit a m) \<Longrightarrow> (crc_bit ^^ k) a = drop_bit k a"
proof (induction k)
  case (Suc k)
  then have "(crc_bit ^^ k) a = drop_bit k a" by simp
  moreover have "\<not> bit (drop_bit k a) 0" using Suc.prems [of k] by (simp add: bit_simps)
  ultimately have "(crc_bit ^^ Suc k) a = drop_bit 1 (drop_bit k a)"
    by (simp only: funpow.simps o_apply crc_bit_def if_False)
  then show ?case by simp
qed simp

lemma crc_bits_byte:
  assumes low: "\<And>n. bit (m :: u32) n = (n < 8)"
  shows "(crc_bit ^^ 8) x = drop_bit 8 x XOR (crc_bit ^^ 8) (x AND m)"
proof -
  have "x = (x AND NOT m) XOR (x AND m)"
    by (rule bit_word_eqI) (auto simp: bit_simps)
  then have "(crc_bit ^^ 8) x = (crc_bit ^^ 8) (x AND NOT m) XOR (crc_bit ^^ 8) (x AND m)"
    by (metis crc_bits_xor)
  also have "(crc_bit ^^ 8) (x AND NOT m) = drop_bit 8 (x AND NOT m)"
    by (rule crc_bits_clear) (auto simp: bit_and_iff bit_not_iff low)
  also have "drop_bit 8 (x AND NOT m) = drop_bit 8 x"
    by (rule bit_word_eqI) (auto simp: bit_simps low dest: bit_imp_le_length)
  finally show ?thesis .
qed

lemma bit_0xFF: "bit (0xFF :: u32) n = (n < 8)"
proof -
  have "(0xFF :: u32) = mask 8" by (simp add: mask_eq_exp_minus_1)
  then show ?thesis by (simp only: bit_mask_iff) auto
qed

lemma ucast_low_byte:
  assumes low: "\<And>n. bit (m :: u32) n = (n < 8)"
  shows "(crc AND m) XOR ucast (d :: u8) = (crc XOR ucast d) AND m"
  by (rule bit_word_eqI) (auto simp: bit_simps low dest: bit_imp_le_length)

lemma table_lookup:
  "drop_bit 8 crc XOR InitCRCTable ! unat ((crc AND 0xFF) XOR ucast d) =
     (crc_bit ^^ 8) (crc XOR ucast (d :: u8))"
proof -
  let ?x = "crc XOR ucast d :: u32"
  have idx: "(crc AND 0xFF) XOR ucast d = ?x AND 0xFF"
    by (rule ucast_low_byte [OF bit_0xFF])
  have "?x AND 0xFF \<le> 0xFF" by (rule word_and_le1)
  then have bound: "unat (?x AND 0xFF) < 256" by (simp add: word_le_nat_alt)
  then have "InitCRCTable ! unat (?x AND 0xFF) = (crc_bit ^^ 8) (?x AND 0xFF)"
    by (simp only: InitCRCTable_def) (simp add: table_entry_steps)
  moreover have "drop_bit 8 crc = drop_bit 8 ?x"
    by (rule bit_word_eqI) (auto simp: bit_simps dest: bit_imp_le_length)
  ultimately show ?thesis by (simp only: idx crc_bits_byte [OF bit_0xFF, of ?x])
qed

section \<open>Properties\<close>

text \<open>
  C32: with the table \<open>InitCRCTable\<close> builds, \<open>CalcCRC32\<close> computes the reflected CRC-32
  (polynomial 0xEDB88320) of every byte string: one lookup per byte equals eight single-bit
  division steps.
\<close>

theorem CalcCRC32_is_crc32:
  "CalcCRC32 InitCRCTable data = crc_ref 0xFFFFFFFF data XOR 0xFFFFFFFF"
proof -
  have "crc_loop InitCRCTable crc data = crc_ref crc data" for crc
    by (induction data arbitrary: crc) (simp_all only: crc_loop.simps crc_ref.simps table_lookup)
  then show ?thesis by (simp only: CalcCRC32_def)
qed

end
