(* ===== verification/NotificationQueue.thy ===== *)
theory NotificationQueue
  imports Prelude
begin

text \<open>
  \<^verbatim>\<open>mobicore/daemon/Daemon/Device/NotificationQueue.cpp\<close> over the structures of
  \<^verbatim>\<open>mobicore/common/MobiCore/inc/Mci/mcinq.h\<close>: the two ring buffers in shared memory through
  which the normal world and the secure world exchange notifications. The counters run freely
  modulo \<open>2 ^ 32\<close>; the slot of a counter is its low bits.
\<close>

section \<open>Data\<close>

record notification_t =
  nq_sessionId :: u32
  nq_payload :: u32

record notificationQueue_t =
  writeCnt :: u32
  readCnt :: u32
  queueSize :: u32
  slots :: "notification_t list"

abbreviation (input) SID_MCP :: u32 where "SID_MCP \<equiv> 0"

record NotificationQueue =
  nq_in :: notificationQueue_t
  nq_out :: notificationQueue_t

section \<open>Operations\<close>

text \<open>The constructor writes only the sizes of the two queues.\<close>

definition newNotificationQueue ::
  "notificationQueue_t \<Rightarrow> notificationQueue_t \<Rightarrow> u32 \<Rightarrow> NotificationQueue" where
  "newNotificationQueue i out num =
     \<lparr>nq_in = i\<lparr>queueSize := num\<rparr>, nq_out = out\<lparr>queueSize := num\<rparr>\<rparr>"

definition slot_index :: "notificationQueue_t \<Rightarrow> u32 \<Rightarrow> nat" where
  "slot_index q cnt = unat (cnt AND (queueSize q - 1))"

definition ring_put :: "notificationQueue_t \<Rightarrow> notification_t \<Rightarrow> notificationQueue_t" where
  "ring_put q n =
     (if writeCnt q - readCnt q < queueSize q
      then q\<lparr>slots := (slots q)[slot_index q (writeCnt q) := n], writeCnt := writeCnt q + 1\<rparr>
      else q)"

definition ring_get :: "notificationQueue_t \<Rightarrow> notification_t option \<times> notificationQueue_t" where
  "ring_get q =
     (if writeCnt q - readCnt q > 0
      then (Some (slots q ! slot_index q (readCnt q)), q\<lparr>readCnt := readCnt q + 1\<rparr>)
      else (None, q))"

definition putNotification :: "NotificationQueue \<Rightarrow> notification_t \<Rightarrow> NotificationQueue" where
  "putNotification nq n = nq\<lparr>nq_out := ring_put (nq_out nq) n\<rparr>"

definition getNotification :: "NotificationQueue \<Rightarrow> notification_t option \<times> NotificationQueue" where
  "getNotification nq = (let (r, q) = ring_get (nq_in nq) in (r, nq\<lparr>nq_in := q\<rparr>))"

section \<open>The interface of a bounded queue\<close>

text \<open>Taking up to \<open>k\<close> elements out of a queue, as the interrupt handler does.\<close>

fun drain :: "('q \<Rightarrow> 'a option \<times> 'q) \<Rightarrow> nat \<Rightarrow> 'q \<Rightarrow> 'a list \<times> 'q" where
  "drain get 0 q = ([], q)"
| "drain get (Suc k) q =
     (case get q of
        (None, q') \<Rightarrow> ([], q')
      | (Some x, q') \<Rightarrow> (let (xs, q'') = drain get k q' in (x # xs, q'')))"

locale bounded_queue =
  fixes put :: "'q \<Rightarrow> 'a \<Rightarrow> 'q"
    and get :: "'q \<Rightarrow> 'a option \<times> 'q"
    and items :: "'q \<Rightarrow> 'a list"
    and inv :: "'q \<Rightarrow> bool"
    and cap :: "'q \<Rightarrow> nat"
  assumes items_put: "inv q \<Longrightarrow>
      items (put q x) = (if length (items q) < cap q then items q @ [x] else items q)"
    and get_items: "inv q \<Longrightarrow> get q = (r, q') \<Longrightarrow>
      (case items q of [] \<Rightarrow> r = None \<and> items q' = [] | y # ys \<Rightarrow> r = Some y \<and> items q' = ys)"
    and inv_put: "inv q \<Longrightarrow> inv (put q x)"
    and inv_get: "inv q \<Longrightarrow> get q = (r, q') \<Longrightarrow> inv q'"
    and cap_put: "inv q \<Longrightarrow> cap (put q x) = cap q"
    and cap_get: "inv q \<Longrightarrow> get q = (r, q') \<Longrightarrow> cap q' = cap q"
    and items_cap: "inv q \<Longrightarrow> length (items q) \<le> cap q"
begin

lemma puts:
  "inv q \<Longrightarrow> inv (foldl put q xs) \<and> cap (foldl put q xs) = cap q
     \<and> items (foldl put q xs) = items q @ take (cap q - length (items q)) xs"
proof (induction xs arbitrary: q)
  case (Cons x xs)
  note step = Cons.IH [OF inv_put [OF Cons.prems], of x]
  show ?case
  proof (cases "length (items q) < cap q")
    case True
    then obtain d where "cap q - length (items q) = Suc d" by (metis Suc_diff_Suc)
    moreover from this have "cap q - Suc (length (items q)) = d" by simp
    ultimately show ?thesis using True step Cons.prems by (simp add: items_put cap_put)
  next
    case False
    with step Cons.prems show ?thesis by (simp add: items_put cap_put)
  qed
qed simp

lemma drain_items:
  "inv q \<Longrightarrow> drain get k q = (xs, q') \<Longrightarrow>
     inv q' \<and> xs = take k (items q) \<and> items q' = drop k (items q)"
proof (induction k arbitrary: q xs q')
  case (Suc k)
  obtain r q1 where g: "get q = (r, q1)" by force
  note gi = get_items [OF Suc.prems(1) g] and iv = inv_get [OF Suc.prems(1) g]
  show ?case
  proof (cases "items q")
    case Nil
    with gi g Suc.prems iv show ?thesis by simp
  next
    case (Cons y ys)
    obtain zs q2 where d: "drain get k q1 = (zs, q2)" by force
    with Cons gi g Suc.prems Suc.IH [OF iv d] show ?thesis by simp
  qed
qed simp

lemma fifo:
  assumes "inv q" "length (items q) + length xs \<le> cap q"
    and "drain get (length (items q) + length xs) (foldl put q xs) = (ys, q')"
  shows "ys = items q @ xs \<and> items q' = []"
  using puts [OF assms(1), of xs] drain_items [OF _ assms(3)] assms(2) by simp

end

section \<open>The ring buffer is a bounded queue\<close>

definition ring_count :: "notificationQueue_t \<Rightarrow> nat" where
  "ring_count q = unat (writeCnt q - readCnt q)"

definition ring_items :: "notificationQueue_t \<Rightarrow> notification_t list" where
  "ring_items q = map (\<lambda>j. slots q ! slot_index q (readCnt q + of_nat j)) [0..<ring_count q]"

definition ring_cap :: "notificationQueue_t \<Rightarrow> nat" where
  "ring_cap q = unat (queueSize q)"

text \<open>
  The size is the number of slots and a power of two (the daemon uses 16), and the counters
  are at most one size apart.
\<close>

definition ring_inv :: "notificationQueue_t \<Rightarrow> bool" where
  "ring_inv q \<longleftrightarrow> length (slots q) = unat (queueSize q)
     \<and> (\<exists>k < 32. queueSize q = push_bit k 1) \<and> ring_count q \<le> unat (queueSize q)"

lemma size_pow: "k < 32 \<Longrightarrow> unat (2 ^ k :: u32) = 2 ^ k"
proof -
  assume "k < 32"
  have "unat (2 ^ k :: u32) = unat (push_bit k (1 :: u32))" by simp
  also have "\<dots> = 2 ^ k mod 2 ^ 32"
    by (simp only: unsigned_push_bit_eq) (simp add: take_bit_eq_mod)
  also have "\<dots> = 2 ^ k" using \<open>k < 32\<close> by (intro mod_less power_strict_increasing) simp_all
  finally show ?thesis .
qed

lemma and_size_minus_1: "w AND (2 ^ k - 1) = take_bit k (w :: u32)"
  by (simp add: take_bit_eq_mask mask_eq_exp_minus_1)

lemma slot_index_mod:
  assumes "queueSize q = push_bit k 1" "k < 32"
  shows "slot_index q (r + of_nat j) = (unat r + j) mod 2 ^ k"
proof -
  have dv: "(2::nat) ^ k dvd 2 ^ 32" using assms(2) by (intro le_imp_power_dvd) simp
  have "slot_index q (r + of_nat j) = unat (r + of_nat j) mod 2 ^ k"
    by (simp add: slot_index_def assms(1) and_size_minus_1 unsigned_take_bit_eq)
      (simp add: take_bit_eq_mod)
  also have "\<dots> = ((unat r + j mod 2 ^ 32) mod 2 ^ 32) mod 2 ^ k"
    by (simp add: unat_word_ariths unat_of_nat)
  also have "\<dots> = (unat r + j) mod 2 ^ k"
    using dv by (metis mod_add_right_eq mod_mod_cancel)
  finally show ?thesis .
qed

lemma ring_invE:
  assumes "ring_inv q"
  obtains k where "k < 32" "queueSize q = push_bit k 1" "length (slots q) = 2 ^ k"
    "ring_count q \<le> 2 ^ k" "ring_cap q = 2 ^ k"
  using assms by (auto simp: ring_inv_def ring_cap_def size_pow)

text \<open>Every slot the operations touch exists.\<close>

lemma slot_index_bound: "ring_inv q \<Longrightarrow> slot_index q c < length (slots q)"
  using slot_index_mod [of q _ c 0] by (elim ring_invE) simp

lemma length_ring_items [simp]: "length (ring_items q) = ring_count q"
  by (simp add: ring_items_def)

lemma not_full_iff:
  "writeCnt q - readCnt q < queueSize q \<longleftrightarrow> ring_count q < ring_cap q"
  by (simp add: ring_count_def ring_cap_def word_less_nat_alt)

lemma ring_count_put:
  assumes "ring_inv q" "ring_count q < ring_cap q"
  shows "ring_count (ring_put q n) = Suc (ring_count q)"
proof -
  from assms(1) obtain k where k: "k < 32" "ring_cap q = 2 ^ k" by (elim ring_invE) blast
  then have "ring_cap q \<le> 2 ^ 31" using power_increasing [of k 31 "2 :: nat"] by simp
  then have "Suc (unat (writeCnt q - readCnt q)) < 2 ^ LENGTH(32)"
    using assms(2) by (simp add: ring_count_def)
  then show ?thesis using assms(2)
    by (simp add: ring_put_def not_full_iff ring_count_def unat_diff_succ)
qed

lemma ring_items_put:
  assumes inv: "ring_inv q"
  shows "ring_items (ring_put q n) =
    (if length (ring_items q) < ring_cap q then ring_items q @ [n] else ring_items q)"
proof (cases "ring_count q < ring_cap q")
  case False
  then show ?thesis by (simp add: ring_put_def not_full_iff)
next
  case True
  from inv obtain k where k: "k < 32" "queueSize q = push_bit k 1" "length (slots q) = 2 ^ k"
    "ring_count q \<le> 2 ^ k" "ring_cap q = 2 ^ k" by (rule ring_invE)
  let ?c = "ring_count q" and ?q = "ring_put q n"
  have w: "writeCnt q = readCnt q + of_nat ?c" by (simp add: ring_count_def)
  have put: "?q = q\<lparr>slots := (slots q)[slot_index q (writeCnt q) := n], writeCnt := writeCnt q + 1\<rparr>"
    using True by (simp add: ring_put_def not_full_iff)
  have ix: "slot_index ?q c = slot_index q c" for c by (simp add: put slot_index_def)
  have old: "slots ?q ! slot_index q (readCnt q + of_nat j) = slots q ! slot_index q (readCnt q + of_nat j)"
    if "j < ?c" for j
  proof -
    have "(unat (readCnt q) + j) mod 2 ^ k \<noteq> (unat (readCnt q) + ?c) mod 2 ^ k"
    proof
      assume "(unat (readCnt q) + j) mod 2 ^ k = (unat (readCnt q) + ?c) mod 2 ^ k"
      then have "2 ^ k dvd (unat (readCnt q) + ?c) - (unat (readCnt q) + j)"
        using that by (metis add_left_mono less_imp_le mod_eq_dvd_iff_nat)
      then have "2 ^ k \<le> ?c - j" using that by (intro dvd_imp_le) simp_all
      with True k(5) show False by simp
    qed
    then show ?thesis by (simp add: put w slot_index_mod [OF k(2,1)])
  qed
  have new: "slots ?q ! slot_index q (readCnt q + of_nat ?c) = n"
    using slot_index_bound [OF inv, of "writeCnt q"] by (simp add: put w)
  have rd: "readCnt ?q = readCnt q" by (simp add: put)
  have "ring_items ?q = map (\<lambda>j. slots ?q ! slot_index q (readCnt q + of_nat j)) [0..<?c]
      @ [slots ?q ! slot_index q (readCnt q + of_nat ?c)]"
    using ring_count_put [OF inv True, of n] by (simp add: ring_items_def ix rd)
  also have "\<dots> = ring_items q @ [n]" using old new by (simp add: ring_items_def)
  finally show ?thesis using True by simp
qed

lemma ring_inv_put:
  assumes "ring_inv q" shows "ring_inv (ring_put q n)"
proof (cases "ring_count q < ring_cap q")
  case True
  have "queueSize (ring_put q n) = queueSize q" "length (slots (ring_put q n)) = length (slots q)"
    by (simp_all add: ring_put_def)
  then show ?thesis
    using assms ring_count_put [OF assms True, of n] True by (auto simp: ring_inv_def ring_cap_def)
qed (use assms in \<open>simp add: ring_put_def not_full_iff\<close>)

lemma ring_get_eq:
  "ring_get q = (if ring_items q = [] then (None, q)
     else (Some (hd (ring_items q)), q\<lparr>readCnt := readCnt q + 1\<rparr>))"
proof -
  have e: "(0 < writeCnt q - readCnt q) = (ring_items q \<noteq> [])"
    by (simp add: ring_items_def ring_count_def word_greater_zero_iff unat_eq_0)
  have "hd (ring_items q) = slots q ! slot_index q (readCnt q)" if "ring_items q \<noteq> []"
    using that by (simp add: ring_items_def hd_map)
  then show ?thesis by (auto simp: ring_get_def e)
qed

lemma ring_items_advance:
  assumes "ring_items q \<noteq> []"
  shows "ring_items (q\<lparr>readCnt := readCnt q + 1\<rparr>) = tl (ring_items q)"
proof -
  let ?q = "q\<lparr>readCnt := readCnt q + 1\<rparr>"
  from assms have "writeCnt q - readCnt q \<noteq> 0" by (auto simp: ring_items_def ring_count_def)
  then have c: "ring_count ?q = ring_count q - 1"
    by (simp only: ring_count_def) (simp add: unat_diff_pred)
  have "ring_items ?q ! j = tl (ring_items q) ! j" if "j < ring_count q - 1" for j
    using that c by (simp add: ring_items_def slot_index_def nth_tl algebra_simps)
  then show ?thesis by (intro nth_equalityI) (simp_all add: c)
qed

lemma ring_inv_advance:
  assumes "ring_inv q" "ring_items q \<noteq> []"
  shows "ring_inv (q\<lparr>readCnt := readCnt q + 1\<rparr>)"
proof -
  have "ring_count (q\<lparr>readCnt := readCnt q + 1\<rparr>) \<le> ring_count q"
    using ring_items_advance [OF assms(2)]
    by (metis diff_le_self length_ring_items length_tl)
  then show ?thesis using assms(1) by (auto simp: ring_inv_def)
qed

interpretation ring: bounded_queue ring_put ring_get ring_items ring_inv ring_cap
proof
  fix q x r q'
  assume inv: "ring_inv q"
  show "ring_items (ring_put q x) =
      (if length (ring_items q) < ring_cap q then ring_items q @ [x] else ring_items q)"
    by (rule ring_items_put [OF inv])
  show "ring_inv (ring_put q x)" by (rule ring_inv_put [OF inv])
  show "ring_cap (ring_put q x) = ring_cap q" by (simp add: ring_put_def ring_cap_def)
  show "length (ring_items q) \<le> ring_cap q" using inv by (simp add: ring_inv_def ring_cap_def)
  assume g: "ring_get q = (r, q')"
  show "case ring_items q of [] \<Rightarrow> r = None \<and> ring_items q' = []
      | y # ys \<Rightarrow> r = Some y \<and> ring_items q' = ys"
    using g ring_items_advance [of q] by (auto simp: ring_get_eq split: list.splits if_splits)
  show "ring_inv q'" using g inv ring_inv_advance [OF inv] by (auto simp: ring_get_eq split: if_splits)
  show "ring_cap q' = ring_cap q" using g by (auto simp: ring_get_def ring_cap_def split: if_splits)
qed

section \<open>Properties\<close>

text \<open>
  The ring buffer is a lossless FIFO as long as it has room: if the notifications already
  in a well-formed queue and the ones put next fit, then taking as many out returns the old
  ones followed by the new ones, in order, and leaves the queue empty. The counters may wrap
  around \<open>2 ^ 32\<close> on the way.
\<close>

theorem ring_is_fifo:
  assumes "ring_inv q" "length (ring_items q) + length ns \<le> ring_cap q"
    and "drain ring_get (length (ring_items q) + length ns) (foldl ring_put q ns) = (taken, q')"
  shows "taken = ring_items q @ ns \<and> ring_items q' = []"
  using assms by (rule ring.fifo)

theorem ring_is_fifo_witness:
  "fst (drain ring_get 2 (foldl ring_put
      \<lparr>writeCnt = 0xFFFFFFFF, readCnt = 0xFFFFFFFF, queueSize = 2,
       slots = [\<lparr>nq_sessionId = 0, nq_payload = 0\<rparr>, \<lparr>nq_sessionId = 0, nq_payload = 0\<rparr>]\<rparr>
      [\<lparr>nq_sessionId = 1, nq_payload = 7\<rparr>, \<lparr>nq_sessionId = 2, nq_payload = 8\<rparr>])) =
   [\<lparr>nq_sessionId = 1, nq_payload = 7\<rparr>, \<lparr>nq_sessionId = 2, nq_payload = 8\<rparr>]"
  (is "fst (drain ring_get 2 (foldl ring_put ?q ?ns)) = _")
proof -
  have inv: "ring_inv ?q"
    by (auto simp: ring_inv_def ring_count_def intro!: exI [of _ 1])
  have e: "ring_items ?q = []" by (simp add: ring_items_def ring_count_def)
  obtain taken q' where d: "drain ring_get (length (ring_items ?q) + length ?ns)
      (foldl ring_put ?q ?ns) = (taken, q')" by force
  have "length (ring_items ?q) + length ?ns \<le> ring_cap ?q" by (simp add: e ring_cap_def)
  from ring_is_fifo [OF inv this d] d e show ?thesis
    by (simp add: numeral_2_eq_2 del: drain.simps foldl.simps)
qed

text \<open>
  \<open>putNotification\<close> on a well-formed outgoing queue appends the notification when there is
  room, silently drops it when the queue is full, keeps the queue well-formed, writes only a
  slot that exists, and never touches the incoming queue.
\<close>

theorem putNotification_spec:
  assumes "ring_inv (nq_out nq)"
  shows "nq_in (putNotification nq n) = nq_in nq
    \<and> ring_inv (nq_out (putNotification nq n))
    \<and> ring_items (nq_out (putNotification nq n)) =
        (if length (ring_items (nq_out nq)) < ring_cap (nq_out nq)
         then ring_items (nq_out nq) @ [n] else ring_items (nq_out nq))
    \<and> slot_index (nq_out nq) (writeCnt (nq_out nq)) < length (slots (nq_out nq))"
  using ring.items_put [OF assms] ring.inv_put [OF assms] slot_index_bound [OF assms]
  by (simp add: putNotification_def)

theorem putNotification_spec_witness:
  "ring_items (nq_out (putNotification
     (newNotificationQueue \<lparr>writeCnt = 0, readCnt = 0, queueSize = 0, slots = []\<rparr>
        \<lparr>writeCnt = 5, readCnt = 4, queueSize = 0, slots = [\<lparr>nq_sessionId = 3, nq_payload = 0\<rparr>]\<rparr> 1)
     \<lparr>nq_sessionId = 1, nq_payload = 7\<rparr>)) = [\<lparr>nq_sessionId = 3, nq_payload = 0\<rparr>]"
  (is "ring_items (nq_out (putNotification ?nq _)) = _")
proof -
  have inv: "ring_inv (nq_out ?nq)"
    by (auto simp: newNotificationQueue_def ring_inv_def ring_count_def intro!: exI [of _ 0])
  show ?thesis
    using putNotification_spec [OF inv, of "\<lparr>nq_sessionId = 1, nq_payload = 7\<rparr>"]
    by (simp add: newNotificationQueue_def ring_items_def ring_count_def ring_cap_def slot_index_def)
qed

section \<open>Refinement of a plain list queue\<close>

text \<open>
  The abstract queue is a list with a capacity: putting drops what does not fit, getting takes
  the head. \<open>ring_run\<close> performs the same operations on the ring in shared memory.
\<close>

datatype queue_op = Put notification_t | Get

fun queue_run :: "nat \<Rightarrow> queue_op list \<Rightarrow> notification_t list \<Rightarrow> notification_t option list \<times> notification_t list" where
  "queue_run cap [] xs = ([], xs)"
| "queue_run cap (Put n # ops) xs = queue_run cap ops (if length xs < cap then xs @ [n] else xs)"
| "queue_run cap (Get # ops) xs =
     (let (rs, ys) = queue_run cap ops (drop 1 xs)
      in ((case xs of [] \<Rightarrow> None | x # _ \<Rightarrow> Some x) # rs, ys))"

fun ring_run :: "queue_op list \<Rightarrow> notificationQueue_t \<Rightarrow> notification_t option list \<times> notificationQueue_t" where
  "ring_run [] q = ([], q)"
| "ring_run (Put n # ops) q = ring_run ops (ring_put q n)"
| "ring_run (Get # ops) q = (let (r, q) = ring_get q; (rs, q) = ring_run ops q in (r # rs, q))"

text \<open>
  C34: The notification ring refines a list queue. Whatever puts and gets are performed on a
  well-formed ring, in any order and number, every get answers what it answers on the list of
  pending notifications, the list that remains is the abstraction of the ring that remains, and
  the ring stays well formed with the same capacity. The counters may wrap around \<open>2 ^ 32\<close> any
  number of times.
\<close>

theorem ring_refines_queue:
  assumes "ring_inv q" "ring_run ops q = (rs, q')"
  shows "queue_run (ring_cap q) ops (ring_items q) = (rs, ring_items q')
    \<and> ring_inv q' \<and> ring_cap q' = ring_cap q"
  using assms
proof (induction ops arbitrary: q rs q')
  case (Cons op ops)
  show ?case
  proof (cases op)
    case (Put n)
    then show ?thesis
      using Cons.IH [OF ring.inv_put [OF Cons.prems(1)]] Cons.prems
      by (simp add: ring.items_put ring.cap_put)
  next
    case Get
    obtain r q1 where g: "ring_get q = (r, q1)" by force
    obtain rs1 q2 where d: "ring_run ops q1 = (rs1, q2)" by force
    note law = ring.get_items [OF Cons.prems(1) g] ring.inv_get [OF Cons.prems(1) g]
      ring.cap_get [OF Cons.prems(1) g]
    show ?thesis
      using Cons.IH [OF law(2) d] law Cons.prems(2) Get g d by (auto split: list.splits)
  qed
qed simp

theorem ring_refines_queue_witness:
  "fst (ring_run [Put \<lparr>nq_sessionId = 1, nq_payload = 7\<rparr>, Get, Get]
     \<lparr>writeCnt = 0xFFFFFFFF, readCnt = 0xFFFFFFFF, queueSize = 2,
      slots = [\<lparr>nq_sessionId = 0, nq_payload = 0\<rparr>, \<lparr>nq_sessionId = 0, nq_payload = 0\<rparr>]\<rparr>)
   = [Some \<lparr>nq_sessionId = 1, nq_payload = 7\<rparr>, None]"
  (is "fst (ring_run ?ops ?q) = _")
proof -
  have inv: "ring_inv ?q"
    by (auto simp: ring_inv_def ring_count_def intro!: exI [of _ 1])
  have e: "ring_items ?q = []" "ring_cap ?q = 2" by (simp_all add: ring_items_def ring_count_def ring_cap_def)
  obtain rs q' where d: "ring_run ?ops ?q = (rs, q')" by force
  from ring_refines_queue [OF inv d] d e show ?thesis by (simp del: ring_run.simps)
qed

end
