(* ===== verification/TrustletSession.thy ===== *)
theory TrustletSession
  imports NotificationQueue
begin

text \<open>
  \<^verbatim>\<open>mobicore/daemon/Daemon/Device/TrustletSession.cpp\<close>: what the daemon keeps for one open
  session with a trusted application: who owns it, where its notifications go, the ones
  waiting, and the bulk buffers mapped into it. A session object is identified by its
  address \<open>ts_self\<close>; connections are identified by numbers, \<open>None\<close> is the null pointer.
\<close>

section \<open>std::map\<close>

text \<open>An ordered map as its list of entries, keys increasing.\<close>

type_synonym ('k, 'v) smap = "('k \<times> 'v) list"

fun smap_put :: "'k::linorder \<Rightarrow> 'v \<Rightarrow> ('k, 'v) smap \<Rightarrow> ('k, 'v) smap" where
  "smap_put k v [] = [(k, v)]"
| "smap_put k v ((k', v') # m) =
     (if k < k' then (k, v) # (k', v') # m
      else if k = k' then (k, v) # m
      else (k', v') # smap_put k v m)"

definition smap_erase :: "'k::linorder \<Rightarrow> ('k, 'v) smap \<Rightarrow> ('k, 'v) smap" where
  "smap_erase k m = filter (\<lambda>e. fst e \<noteq> k) m"

definition smap_inv :: "('k::linorder, 'v) smap \<Rightarrow> bool" where
  "smap_inv m = sorted_wrt (<) (map fst m)"

text \<open>What a client of a keyed container relies on.\<close>

locale keyed_store =
  fixes find :: "'m \<Rightarrow> 'k \<Rightarrow> 'v option"
    and put :: "'k \<Rightarrow> 'v \<Rightarrow> 'm \<Rightarrow> 'm"
    and erase :: "'k \<Rightarrow> 'm \<Rightarrow> 'm"
    and inv :: "'m \<Rightarrow> bool"
  assumes find_put: "inv m \<Longrightarrow> find (put k v m) = (find m)(k \<mapsto> v)"
    and find_erase: "inv m \<Longrightarrow> find (erase k m) = (find m)(k := None)"
    and inv_put: "inv m \<Longrightarrow> inv (put k v m)"
    and inv_erase: "inv m \<Longrightarrow> inv (erase k m)"
begin

lemma find_put_same: "inv m \<Longrightarrow> find (put k v m) k = Some v"
  by (simp add: find_put)

lemma find_put_other: "inv m \<Longrightarrow> j \<noteq> k \<Longrightarrow> find (put k v m) j = find m j"
  by (simp add: find_put)

lemma erase_put_fresh:
  "inv m \<Longrightarrow> find m k = None \<Longrightarrow> find (erase k (put k v m)) = find m"
  by (simp add: find_erase find_put inv_put fun_upd_idem)

lemma put_twice: "inv m \<Longrightarrow> find (put k v (put k w m)) = find (put k v m)"
  by (simp add: find_put inv_put)

end

lemma set_smap_put: "set (map fst (smap_put k v m)) = insert k (set (map fst m))"
  by (induction k v m rule: smap_put.induct) auto

lemma smap_inv_put: "smap_inv m \<Longrightarrow> smap_inv (smap_put k v m)"
proof (induction k v m rule: smap_put.induct)
  case (2 k v k' v' m)
  then show ?case using set_smap_put [of k v m] by (auto simp: smap_inv_def)
qed (simp add: smap_inv_def)

lemma smap_inv_erase: "smap_inv m \<Longrightarrow> smap_inv (smap_erase k m)"
  by (simp add: smap_inv_def smap_erase_def sorted_wrt_map sorted_wrt_filter)

lemma smap_find_put: "map_of (smap_put k v m) = (map_of m)(k \<mapsto> v)"
  by (induction k v m rule: smap_put.induct) (auto simp: fun_eq_iff)

lemma smap_find_erase: "map_of (smap_erase k m) = (map_of m)(k := None)"
  by (induction m) (auto simp: smap_erase_def fun_eq_iff)

interpretation smap: keyed_store map_of smap_put smap_erase smap_inv
  by unfold_locales (simp_all add: smap_find_put smap_find_erase smap_inv_put smap_inv_erase)

section \<open>The session object\<close>

type_synonym conn = nat

record CWsm =
  wsm_virtAddr :: u64
  wsm_len :: u32
  wsm_handle :: u32
  wsm_physAddr :: u64

datatype TS_STATE = TS_TA_RUNNING | TS_TA_DEAD | TS_CLOSE_SEND | TS_CLOSED

record TrustletSession =
  ts_self :: nat
  ts_sessionId :: u32
  ts_sessionMagic :: u32
  ts_deviceConnection :: "conn option"
  ts_notificationConnection :: "conn option"
  ts_gp_level :: u32
  ts_sessionState :: TS_STATE
  ts_notifications :: "notification_t list"
  ts_buffers :: "(u32, CWsm) smap"

text \<open>\<open>addr\<close> is the address of the new object, \<open>magic\<close> the number \<open>rand()\<close> returned.\<close>

definition newTrustletSession :: "nat \<Rightarrow> u32 \<Rightarrow> conn \<Rightarrow> u32 \<Rightarrow> TrustletSession" where
  "newTrustletSession addr magic deviceConnection sessionId =
     \<lparr>ts_self = addr, ts_sessionId = sessionId, ts_sessionMagic = magic,
      ts_deviceConnection = Some deviceConnection, ts_notificationConnection = None,
      ts_gp_level = 0, ts_sessionState = TS_TA_RUNNING, ts_notifications = [], ts_buffers = []\<rparr>"

definition queueNotification :: "TrustletSession \<Rightarrow> notification_t \<Rightarrow> TrustletSession" where
  "queueNotification s n =
     (if ts_sessionState s = TS_TA_DEAD then s
      else
        (let s1 = (if ts_gp_level s = 1 \<and> nq_payload n \<noteq> 0
                   then s\<lparr>ts_sessionState := TS_TA_DEAD\<rparr> else s)
         in if ts_sessionState s1 = TS_CLOSE_SEND then s1
            else s1\<lparr>ts_notifications := ts_notifications s1 @ [n]\<rparr>))"

text \<open>The result lists what was written to the notification connection.\<close>

definition processQueuedNotifications :: "TrustletSession \<Rightarrow> notification_t list \<times> TrustletSession" where
  "processQueuedNotifications s =
     (case ts_notificationConnection s of
        None \<Rightarrow> ([], s)
      | Some _ \<Rightarrow> (ts_notifications s, s\<lparr>ts_notifications := []\<rparr>))"

definition addBulkBuff :: "TrustletSession \<Rightarrow> CWsm option \<Rightarrow> bool \<times> TrustletSession" where
  "addBulkBuff s pWsm =
     (case pWsm of
        None \<Rightarrow> (False, s)
      | Some w \<Rightarrow>
          if map_of (ts_buffers s) (wsm_handle w) \<noteq> None then (False, s)
          else (True, s\<lparr>ts_buffers := smap_put (wsm_handle w) w (ts_buffers s)\<rparr>))"

definition removeBulkBuff :: "TrustletSession \<Rightarrow> u32 \<Rightarrow> bool \<times> TrustletSession" where
  "removeBulkBuff s handle =
     (if map_of (ts_buffers s) handle = None then (False, s)
      else (True, s\<lparr>ts_buffers := smap_erase handle (ts_buffers s)\<rparr>))"

definition findBulkBuff :: "TrustletSession \<Rightarrow> u32 \<Rightarrow> u32 \<Rightarrow> bool" where
  "findBulkBuff s handle lenBulkMem =
     (case map_of (ts_buffers s) handle of
        None \<Rightarrow> False
      | Some w \<Rightarrow> wsm_len w = lenBulkMem)"

definition popBulkBuff :: "TrustletSession \<Rightarrow> CWsm option \<times> TrustletSession" where
  "popBulkBuff s =
     (case ts_buffers s of
        [] \<Rightarrow> (None, s)
      | (_, w) # _ \<Rightarrow> (Some w, s\<lparr>ts_buffers := smap_erase (wsm_handle w) (ts_buffers s)\<rparr>))"

text \<open>The destructor closes the notification connection it still has.\<close>

definition deleteTrustletSession :: "TrustletSession \<Rightarrow> conn option" where
  "deleteTrustletSession s = ts_notificationConnection s"

section \<open>Well-formed sessions\<close>

definition ts_inv :: "TrustletSession \<Rightarrow> bool" where
  "ts_inv s \<longleftrightarrow> smap_inv (ts_buffers s) \<and> (\<forall>(k, w) \<in> set (ts_buffers s). wsm_handle w = k)"

lemma smap_put_set: "set (smap_put k v m) \<subseteq> insert (k, v) (set m)"
  by (induction k v m rule: smap_put.induct) auto

lemma ts_inv_new [simp]: "ts_inv (newTrustletSession a m c i)"
  by (simp add: ts_inv_def newTrustletSession_def smap_inv_def)

lemma ts_inv_queue [simp]: "ts_inv (queueNotification s n) = ts_inv s"
  by (simp add: ts_inv_def queueNotification_def Let_def)

lemma ts_inv_process: "ts_inv s \<Longrightarrow> ts_inv (snd (processQueuedNotifications s))"
  by (simp add: ts_inv_def processQueuedNotifications_def split: option.split)

lemma ts_inv_add:
  assumes "ts_inv s" shows "ts_inv (snd (addBulkBuff s p))"
proof (cases p)
  case (Some w)
  then show ?thesis using assms smap_put_set [of "wsm_handle w" w "ts_buffers s"]
    by (auto simp: ts_inv_def addBulkBuff_def smap_inv_put)
qed (use assms in \<open>simp add: addBulkBuff_def\<close>)

lemma ts_inv_remove: "ts_inv s \<Longrightarrow> ts_inv (snd (removeBulkBuff s h))"
  by (auto simp: ts_inv_def removeBulkBuff_def smap_inv_erase smap_erase_def smap_inv_def
      sorted_wrt_map sorted_wrt_filter)

lemma ts_inv_pop: "ts_inv s \<Longrightarrow> ts_inv (snd (popBulkBuff s))"
  by (auto simp: ts_inv_def popBulkBuff_def smap_erase_def smap_inv_def sorted_wrt_map
      sorted_wrt_filter split: list.split)

lemma popBulkBuff_Cons:
  assumes "ts_inv s" "ts_buffers s = (k, w) # m"
  shows "popBulkBuff s = (Some w, s\<lparr>ts_buffers := m\<rparr>)"
proof -
  have "k = wsm_handle w" "\<forall>e \<in> set m. fst e \<noteq> k"
    using assms by (auto simp: ts_inv_def smap_inv_def)
  then have "smap_erase (wsm_handle w) ((k, w) # m) = m"
    by (simp add: smap_erase_def)
  then show ?thesis using assms(2) by (simp add: popBulkBuff_def)
qed

text \<open>The life of a session's state, as the comments of the enumeration give it.\<close>

inductive ts_step :: "TS_STATE \<Rightarrow> TS_STATE \<Rightarrow> bool" where
  die: "ts_step TS_TA_RUNNING TS_TA_DEAD"
| close: "ts_step TS_TA_RUNNING TS_CLOSE_SEND"
| close_dead: "ts_step TS_TA_DEAD TS_CLOSE_SEND"
| closed_dead: "ts_step TS_TA_DEAD TS_CLOSED"
| close_again: "ts_step TS_CLOSE_SEND TS_CLOSE_SEND"
| die_closing: "ts_step TS_CLOSE_SEND TS_TA_DEAD"
| closed: "ts_step TS_CLOSE_SEND TS_CLOSED"

inductive_cases ts_step_runningE: "ts_step TS_TA_RUNNING t"
inductive_simps ts_step_to_dead: "ts_step t TS_TA_DEAD"

text \<open>An exit notification, as \<open>queueNotification\<close> recognises it.\<close>

definition exit_notification :: "TrustletSession \<Rightarrow> notification_t \<Rightarrow> bool" where
  "exit_notification s n \<longleftrightarrow> ts_gp_level s = 1 \<and> nq_payload n \<noteq> 0"

lemma queueNotification_state:
  "ts_sessionState (queueNotification s n) =
     (if exit_notification s n then TS_TA_DEAD else ts_sessionState s)"
  by (auto simp: queueNotification_def exit_notification_def Let_def)

lemma queueNotification_notifications:
  "ts_notifications (queueNotification s n) =
     (if ts_sessionState s = TS_TA_DEAD
         \<or> ts_sessionState s = TS_CLOSE_SEND \<and> \<not> exit_notification s n
      then ts_notifications s else ts_notifications s @ [n])"
  by (auto simp: queueNotification_def exit_notification_def Let_def)

lemma queueNotification_frame [simp]:
  "ts_self (queueNotification s n) = ts_self s"
  "ts_sessionId (queueNotification s n) = ts_sessionId s"
  "ts_sessionMagic (queueNotification s n) = ts_sessionMagic s"
  "ts_deviceConnection (queueNotification s n) = ts_deviceConnection s"
  "ts_notificationConnection (queueNotification s n) = ts_notificationConnection s"
  "ts_gp_level (queueNotification s n) = ts_gp_level s"
  "ts_buffers (queueNotification s n) = ts_buffers s"
  by (simp_all add: queueNotification_def Let_def)

text \<open>The loop of \<open>closeSession\<close> that empties the buffer map.\<close>

function popAll :: "TrustletSession \<Rightarrow> CWsm list \<times> TrustletSession" where
  "popAll s =
     (case popBulkBuff s of
        (None, s') \<Rightarrow> ([], s')
      | (Some w, s') \<Rightarrow>
          if length (ts_buffers s') < length (ts_buffers s)
          then (let (ws, s'') = popAll s' in (w # ws, s'')) else ([w], s'))"
  by pat_completeness auto
termination
  by (relation "measure (\<lambda>s. length (ts_buffers s))") auto

declare popAll.simps [simp del]

lemma popAll_all:
  "ts_inv s \<Longrightarrow> popAll s = (map snd (ts_buffers s), s\<lparr>ts_buffers := []\<rparr>)"
proof (induction "ts_buffers s" arbitrary: s)
  case Nil
  then show ?case by (subst popAll.simps) (simp add: popBulkBuff_def)
next
  case (Cons e m)
  obtain k w where e: "e = (k, w)" by force
  have p: "popBulkBuff s = (Some w, s\<lparr>ts_buffers := m\<rparr>)"
    by (rule popBulkBuff_Cons [OF Cons.prems, of k]) (use Cons.hyps(2) e in simp)
  have "ts_inv (s\<lparr>ts_buffers := m\<rparr>)" using ts_inv_pop [OF Cons.prems] p by simp
  from Cons.hyps(1)[OF _ this] have "popAll (s\<lparr>ts_buffers := m\<rparr>) = (map snd m, s\<lparr>ts_buffers := []\<rparr>)"
    by simp
  then show ?case using Cons.hyps(2) [symmetric] e
    by (subst popAll.simps) (simp add: p)
qed

section \<open>Properties\<close>

text \<open>
  queueing a notification moves a session only along the transitions its state enumeration
  documents (or leaves the state alone), a dead session queues nothing and stays dead, and a
  session being closed drops everything but the exit notification of its trusted application.
\<close>

theorem queueNotification_state_machine:
  "(ts_sessionState (queueNotification s n) = ts_sessionState s
      \<or> ts_sessionState s = TS_CLOSED
      \<or> ts_step (ts_sessionState s) (ts_sessionState (queueNotification s n)))
   \<and> (ts_sessionState s = TS_TA_DEAD \<longrightarrow> queueNotification s n = s)
   \<and> (ts_sessionState s = TS_CLOSE_SEND \<longrightarrow>
        queueNotification s n =
          (if exit_notification s n
           then s\<lparr>ts_sessionState := TS_TA_DEAD, ts_notifications := ts_notifications s @ [n]\<rparr>
           else s))"
proof -
  have "ts_step t TS_TA_DEAD \<or> t = TS_TA_DEAD \<or> t = TS_CLOSED" for t
    by (cases t) (auto simp: ts_step_to_dead)
  then show ?thesis
    by (auto simp: queueNotification_state exit_notification_def queueNotification_def Let_def)
qed

theorem queueNotification_state_machine_witness:
  "let s = (newTrustletSession 1 2 3 4)\<lparr>ts_gp_level := 1, ts_sessionState := TS_CLOSE_SEND\<rparr>
   in queueNotification s \<lparr>nq_sessionId = 4, nq_payload = 0\<rparr> = s"
  using queueNotification_state_machine
    [of "(newTrustletSession 1 2 3 4)\<lparr>ts_gp_level := 1, ts_sessionState := TS_CLOSE_SEND\<rparr>"
        "\<lparr>nq_sessionId = 4, nq_payload = 0\<rparr>"]
  by (simp add: Let_def exit_notification_def)

text \<open>
  The bulk buffers of a well-formed session behave as a map from handles: a buffer added
  under a fresh handle is found with exactly its length, a second buffer under a used handle
  is refused without effect, and a removed handle is no longer found; all other handles are
  unaffected.
\<close>

theorem bulkBuff_map:
  assumes inv: "ts_inv s"
  shows "(fst (addBulkBuff s (Some w)) = (map_of (ts_buffers s) (wsm_handle w) = None))
    \<and> (\<not> fst (addBulkBuff s (Some w)) \<longrightarrow> snd (addBulkBuff s (Some w)) = s)
    \<and> (fst (addBulkBuff s (Some w)) \<longrightarrow>
        (\<forall>h len. findBulkBuff (snd (addBulkBuff s (Some w))) h len =
           (if h = wsm_handle w then len = wsm_len w else findBulkBuff s h len)))
    \<and> (\<forall>g h len. findBulkBuff (snd (removeBulkBuff s g)) h len = (h \<noteq> g \<and> findBulkBuff s h len))
    \<and> ts_inv (snd (addBulkBuff s (Some w))) \<and> ts_inv (snd (removeBulkBuff s h))"
proof -
  have m: "smap_inv (ts_buffers s)" using inv by (simp add: ts_inv_def)
  have rm: "findBulkBuff (snd (removeBulkBuff s g)) h len = (h \<noteq> g \<and> findBulkBuff s h len)" for g h len
    using m by (auto simp: findBulkBuff_def removeBulkBuff_def smap.find_erase split: option.split)
  have add: "findBulkBuff (snd (addBulkBuff s (Some w))) h len =
      (if h = wsm_handle w then len = wsm_len w else findBulkBuff s h len)"
    if "map_of (ts_buffers s) (wsm_handle w) = None" for h len
    using m that by (auto simp: findBulkBuff_def addBulkBuff_def smap.find_put split: option.split)
  have "fst (addBulkBuff s (Some w)) = (map_of (ts_buffers s) (wsm_handle w) = None)"
    "\<not> fst (addBulkBuff s (Some w)) \<Longrightarrow> snd (addBulkBuff s (Some w)) = s"
    by (auto simp: addBulkBuff_def split: if_splits)
  then show ?thesis using rm add ts_inv_add [OF inv] ts_inv_remove [OF inv] by auto
qed

theorem bulkBuff_map_witness:
  "findBulkBuff (snd (addBulkBuff (newTrustletSession 1 2 3 4)
     (Some \<lparr>wsm_virtAddr = 0, wsm_len = 8, wsm_handle = 5, wsm_physAddr = 0\<rparr>))) 5 8"
  using bulkBuff_map [OF ts_inv_new,
      of 1 2 3 4 "\<lparr>wsm_virtAddr = 0, wsm_len = 8, wsm_handle = 5, wsm_physAddr = 0\<rparr>" 0]
  by (simp add: newTrustletSession_def)

end
