(* ===== verification/World.thy ===== *)
theory World
  imports TrustletSession
begin

text \<open>
  What the daemon's device code talks to: the MCP messages of \<^verbatim>\<open>Mci/mcimcp.h\<close>, the load format
  header of \<^verbatim>\<open>mcLoadFormat.h\<close>, and the environment. The kernel module, the secure world, the
  sockets and the allocator are not part of the daemon; a \<open>world\<close> holds one function for each
  service, which answers from the sequence of events so far, so that every behaviour of the
  environment is some \<open>world\<close>. Each call leaves an event behind; the events are what the
  theorems about locks, messages and replies talk about.
\<close>

section \<open>The load format header\<close>

type_synonym mcUuid_t = "u8 list"

record segmentDescriptor_t =
  seg_start :: u32
  seg_len :: u32

record mclfHeader_t =
  h_magic :: u32
  h_version :: u32
  h_flags :: u32
  h_memType :: u32
  h_serviceType :: u32
  h_numInstances :: u32
  h_uuid :: mcUuid_t
  h_driverId :: u32
  h_numThreads :: u32
  h_text :: segmentDescriptor_t
  h_data :: segmentDescriptor_t
  h_bssLen :: u32
  h_entry :: u32
  h_serviceVersion :: u32
  h_permittedSuid :: "u8 list"
  h_permittedHwCfg :: u32
  h_gp_level :: u32
  h_attestationOffset :: u32

record loadDataOpenSession_t =
  ld_baseAddr :: u64
  ld_offs :: u32
  ld_len :: u32
  ld_tlHeader :: mclfHeader_t

record loadTokenData_t =
  lt_addr :: u64
  lt_offs :: u64
  lt_len :: u64

record mcVersionInfo_t =
  productId :: "u8 list"
  versionMci :: u32
  versionSo :: u32
  versionMclf :: u32
  versionContainer :: u32
  versionMcConfig :: u32
  versionTlApi :: u32
  versionDrApi :: u32
  versionCmp :: u32

section \<open>MCP messages\<close>

abbreviation (input) MC_MCP_RET_OK :: u32 where "MC_MCP_RET_OK \<equiv> 0"
abbreviation (input) MC_MCP_RET_ERR_CLOSE_TASK_FAILED :: u32 where
  "MC_MCP_RET_ERR_CLOSE_TASK_FAILED \<equiv> 28"

abbreviation (input) MC_MCP_CMD_OPEN_SESSION :: u32 where "MC_MCP_CMD_OPEN_SESSION \<equiv> 1"
abbreviation (input) MC_MCP_CMD_CLOSE_SESSION :: u32 where "MC_MCP_CMD_CLOSE_SESSION \<equiv> 3"
abbreviation (input) MC_MCP_CMD_MAP :: u32 where "MC_MCP_CMD_MAP \<equiv> 4"
abbreviation (input) MC_MCP_CMD_UNMAP :: u32 where "MC_MCP_CMD_UNMAP \<equiv> 5"
abbreviation (input) MC_MCP_CMD_GET_MOBICORE_VERSION :: u32 where
  "MC_MCP_CMD_GET_MOBICORE_VERSION \<equiv> 9"
abbreviation (input) MC_MCP_CMD_LOAD_TOKEN :: u32 where "MC_MCP_CMD_LOAD_TOKEN \<equiv> 0xB"
abbreviation (input) MC_MCP_CMD_CHECK_LOAD_TA :: u32 where "MC_MCP_CMD_CHECK_LOAD_TA \<equiv> 0xC"

abbreviation (input) WSM_INVALID :: u32 where "WSM_INVALID \<equiv> 0"
abbreviation (input) WSM_CONTIGUOUS :: u32 where "WSM_CONTIGUOUS \<equiv> 1"
abbreviation (input) WSM_L2 :: u32 where "WSM_L2 \<equiv> 2"

record mcpCmdOpen_t =
  open_uuid :: mcUuid_t
  adrTciBuffer :: u64
  adrLoadData :: u64
  ofsTciBuffer :: u32
  lenTciBuffer :: u32
  wsmTypeTci :: u32
  wsmTypeLoadData :: u32
  ofsLoadData :: u32
  lenLoadData :: u32
  open_tlHeader :: mclfHeader_t

record mcpCmdCheckLoad_t =
  check_uuid :: mcUuid_t
  check_adrLoadData :: u64
  check_wsmTypeLoadData :: u32
  check_ofsLoadData :: u32
  check_lenLoadData :: u32
  check_tlHeader :: mclfHeader_t

record mcpCmdMap_t =
  map_sessionId :: u32
  map_wsmType :: u32
  ofsBuffer :: u32
  adrBuffer :: u64
  lenBuffer :: u32

record mcpCmdUnmap_t =
  unmap_sessionId :: u32
  unmap_wsmType :: u32
  unmap_secureVirtualAdr :: u32
  lenVirtualBuffer :: u32

record mcpCmdLoadToken_t =
  token_wsmTypeLoadData :: u32
  token_adrLoadData :: u64
  token_ofsLoadData :: u64
  token_lenLoadData :: u64

text \<open>The command member of the union, complete as it is when the secure world is notified.\<close>

datatype mcpCommand =
    CmdOpen mcpCmdOpen_t
  | CmdCheckLoad mcpCmdCheckLoad_t
  | CmdClose u32
  | CmdMap mcpCmdMap_t
  | CmdUnmap mcpCmdUnmap_t
  | CmdGetMobiCoreVersion
  | CmdLoadToken mcpCmdLoadToken_t

fun cmdId :: "mcpCommand \<Rightarrow> u32" where
  "cmdId (CmdOpen _) = MC_MCP_CMD_OPEN_SESSION"
| "cmdId (CmdCheckLoad _) = MC_MCP_CMD_CHECK_LOAD_TA"
| "cmdId (CmdClose _) = MC_MCP_CMD_CLOSE_SESSION"
| "cmdId (CmdMap _) = MC_MCP_CMD_MAP"
| "cmdId (CmdUnmap _) = MC_MCP_CMD_UNMAP"
| "cmdId CmdGetMobiCoreVersion = MC_MCP_CMD_GET_MOBICORE_VERSION"
| "cmdId (CmdLoadToken _) = MC_MCP_CMD_LOAD_TOKEN"

text \<open>The response members: the header and the fields after it that the daemon reads.\<close>

record mcpRsp_t =
  rspId :: u32
  rspResult :: u32
  rsp_sessionId :: u32
  rsp_secureVirtualAdr :: u32
  rsp_versionInfo :: mcVersionInfo_t

definition FLAG_RESPONSE :: u32 where "FLAG_RESPONSE = push_bit 31 1"

section \<open>Events and the environment\<close>

datatype wire = W32 u32 | WB "u8 list" | WVersion mcVersionInfo_t

text \<open>The registry's functions as the daemon calls them, with their input.\<close>

datatype registry_call =
    RegReadAuthToken
  | RegReadRoot nat
  | RegReadSp u32 nat
  | RegReadTrustletCon mcUuid_t u32 nat
  | RegStoreAuthToken "u8 list"
  | RegStoreRoot "u8 list"
  | RegStoreSp u32 "u8 list"
  | RegStoreTrustletCon mcUuid_t u32 "u8 list"
  | RegStoreData "u8 list"
  | RegStoreTABlob u32 "u8 list"
  | RegDeleteAuthToken
  | RegCleanupRoot
  | RegCleanupSp u32
  | RegCleanupTrustlet mcUuid_t u32

record regObject_t =
  ro_value :: u64
  ro_len :: u32
  ro_tlHeader :: mclfHeader_t

datatype ev =
    KmodLock u32 u32
  | KmodUnlock u32 u32
  | KmodCleanup u32
  | KmodFindL2 u32 int u64
  | KmodFindContiguous u32 int "(u64 \<times> u32) option"
  | KmodRegister u64 u32 "(u32 \<times> u64) option"
  | KmodUnregister u32 u32
  | KmodMapWsm u32 "(u64 \<times> u32 \<times> u64) option"
  | KmodNsiq int
  | KmodYield int
  | KmodInfo u32 u32
  | McpSent mcpCommand
  | McpWait
  | NewObject nat
  | DeleteObject nat
  | Rand u32
  | ConnRead conn int
  | ConnWrite conn "wire list"
  | ConnDelete conn
  | ConnDetach conn
  | MutexLock
  | MutexUnlock
  | StaleIterator
  | AssertFailed
  | RegistryCall registry_call u32
  | RegistryBlob bool
  | Malloc nat bool

text \<open>
  One S-SIQ seen by the interrupt thread: whether waiting for it succeeded, and the
  notifications the secure world had put into the incoming queue by then.
\<close>

record sw_round =
  ssiq_ok :: bool
  sw_puts :: "notification_t list"

record world =
  kmod_lockWsmL2 :: "ev list \<Rightarrow> u32 \<Rightarrow> u32"
  kmod_unlockWsmL2 :: "ev list \<Rightarrow> u32 \<Rightarrow> u32"
  kmod_cleanupWsmL2 :: "ev list \<Rightarrow> u32"
  kmod_findWsmL2 :: "ev list \<Rightarrow> u32 \<Rightarrow> int \<Rightarrow> u64"
  kmod_findContiguousWsm :: "ev list \<Rightarrow> u32 \<Rightarrow> int \<Rightarrow> (u64 \<times> u32) option"
  kmod_registerWsmL2 :: "ev list \<Rightarrow> u64 \<Rightarrow> u32 \<Rightarrow> (u32 \<times> u64) option"
  kmod_unregisterWsmL2 :: "ev list \<Rightarrow> u32 \<Rightarrow> u32"
  kmod_mapWsm :: "ev list \<Rightarrow> u32 \<Rightarrow> (u64 \<times> u32 \<times> u64) option"
  kmod_fcNSIQ :: "ev list \<Rightarrow> int"
  kmod_fcYield :: "ev list \<Rightarrow> int"
  kmod_fcInfo :: "ev list \<Rightarrow> u32 \<Rightarrow> u32"
  sw_rounds :: "ev list \<Rightarrow> sw_round list"
  sw_rsp :: "ev list \<Rightarrow> mcpRsp_t"
  new_object :: "ev list \<Rightarrow> nat list \<Rightarrow> nat"
  os_rand :: "ev list \<Rightarrow> u32"
  socketDescriptor :: "conn \<Rightarrow> int"
  sock_readData :: "ev list \<Rightarrow> conn \<Rightarrow> nat \<Rightarrow> int \<times> u8 list"
  registry :: "ev list \<Rightarrow> registry_call \<Rightarrow> u32 \<times> u8 list"
  getServiceBlob :: "ev list \<Rightarrow> mcUuid_t \<Rightarrow> bool \<Rightarrow> regObject_t option"
  memGetServiceBlob :: "ev list \<Rightarrow> u32 \<Rightarrow> u8 list \<Rightarrow> regObject_t option"
  getDriverBlob :: "ev list \<Rightarrow> string \<Rightarrow> regObject_t option"
  malloc_ok :: "ev list \<Rightarrow> nat \<Rightarrow> bool"
  permitted :: "conn \<Rightarrow> bool"

text \<open>
  \<open>sock_readData\<close> answers what \<open>readData\<close> returned and the contents of the buffer after it, as
  far as they are defined; \<open>registry\<close> answers the result and the contents of the output
  buffer. Connection permissions depend on a compile-time switch.

  What the daemon relies on of \<open>operator new\<close>: the address of a new object is not the address
  of a live one.
\<close>

definition new_fresh :: "world \<Rightarrow> bool" where
  "new_fresh W \<longleftrightarrow> (\<forall>h live. new_object W h live \<notin> set live)"

text \<open>A quiet environment, in which every call succeeds and the secure world says nothing.\<close>

definition no_version :: mcVersionInfo_t where
  "no_version = \<lparr>productId = [], versionMci = 0, versionSo = 0, versionMclf = 0,
     versionContainer = 0, versionMcConfig = 0, versionTlApi = 0, versionDrApi = 0, versionCmp = 0\<rparr>"

definition quiet_world :: world where
  "quiet_world =
     \<lparr>kmod_lockWsmL2 = (\<lambda>_ _. 0), kmod_unlockWsmL2 = (\<lambda>_ _. 0), kmod_cleanupWsmL2 = (\<lambda>_. 0),
      kmod_findWsmL2 = (\<lambda>_ _ _. 0), kmod_findContiguousWsm = (\<lambda>_ _ _. None),
      kmod_registerWsmL2 = (\<lambda>_ _ _. None), kmod_unregisterWsmL2 = (\<lambda>_ _. 0),
      kmod_mapWsm = (\<lambda>_ _. None), kmod_fcNSIQ = (\<lambda>_. 0), kmod_fcYield = (\<lambda>_. 0),
      kmod_fcInfo = (\<lambda>_ _. 2), sw_rounds = (\<lambda>_. []),
      sw_rsp = (\<lambda>_. \<lparr>rspId = 0, rspResult = 0, rsp_sessionId = 0, rsp_secureVirtualAdr = 0,
                      rsp_versionInfo = no_version\<rparr>),
      new_object = (\<lambda>_ live. Suc (Max (set (0 # live)))), os_rand = (\<lambda>_. 0),
      socketDescriptor = (\<lambda>_. 0), sock_readData = (\<lambda>_ _ _. (0, [])),
      registry = (\<lambda>_ _. (0, [])), getServiceBlob = (\<lambda>_ _ _. None),
      memGetServiceBlob = (\<lambda>_ _ _. None), getDriverBlob = (\<lambda>_ _. None),
      malloc_ok = (\<lambda>_ _. True), permitted = (\<lambda>_. True)\<rparr>"

text \<open>A secure world that answers the last command sent, with a given result and payload.\<close>

fun last_cmd :: "ev list \<Rightarrow> u32" where
  "last_cmd [] = 0"
| "last_cmd (e # es) =
     (if last_cmd es \<noteq> 0 then last_cmd es
      else case e of McpSent c \<Rightarrow> cmdId c | _ \<Rightarrow> 0)"

definition answering :: "u32 \<Rightarrow> u32 \<Rightarrow> notification_t list \<Rightarrow> world \<Rightarrow> world" where
  "answering res sid ns W =
     W\<lparr>sw_rounds := (\<lambda>_. [\<lparr>ssiq_ok = True, sw_puts = ns @ [\<lparr>nq_sessionId = SID_MCP, nq_payload = 0\<rparr>]\<rparr>]),
       sw_rsp := (\<lambda>h. \<lparr>rspId = last_cmd h OR FLAG_RESPONSE, rspResult = res, rsp_sessionId = sid,
                       rsp_secureVirtualAdr = 0x1000, rsp_versionInfo = no_version\<rparr>)\<rparr>"

lemma new_fresh_quiet: "new_fresh quiet_world"
proof -
  have "Suc (Max (insert 0 (set live))) \<notin> set live" for live :: "nat list"
  proof
    assume "Suc (Max (insert 0 (set live))) \<in> set live"
    then have "Suc (Max (insert 0 (set live))) \<le> Max (insert 0 (set live))" by (intro Max_ge) simp_all
    then show False by simp
  qed
  then show ?thesis by (simp add: new_fresh_def quiet_world_def)
qed

lemma new_fresh_answering [simp]: "new_fresh (answering r s ns W) = new_fresh W"
  by (simp add: new_fresh_def answering_def)

end
