(* ===== verification/McDevice.thy ===== *)
theory McDevice
  imports World
begin

text \<open>
  \<^verbatim>\<open>mobicore/daemon/Daemon/Device/MobiCoreDevice.cpp\<close> with its platform part
  \<^verbatim>\<open>Platforms/Generic/TrustZoneDevice.cpp\<close>: the daemon's view of the secure world. Operations
  run one at a time under the daemon's lock; the interrupt thread runs while an operation
  sleeps in \<open>waitMcpNotification\<close>, which is where the secure world's notifications arrive.
  Pointers to sessions are the identities \<open>ts_self\<close>.
\<close>

section \<open>State\<close>

record MobiCoreDevice =
  nq :: NotificationQueue
  mcpMessage :: mcpCommand
  mcFault :: bool
  mciReused :: bool
  mcVersionInfo :: "mcVersionInfo_t option"
  trustletSessions :: "TrustletSession list"
  notifications :: "notification_t list"
  mcpSem :: nat
  schedSem :: nat
  taSem :: nat
  irqExiting :: bool
  schedExiting :: bool
  taExiting :: bool
  connectionData :: "conn \<Rightarrow> bool"
  hist :: "ev list"

type_synonym dev = MobiCoreDevice

definition emit :: "ev \<Rightarrow> dev \<Rightarrow> dev" where
  "emit e d = d\<lparr>hist := hist d @ [e]\<rparr>"

definition with_session :: "nat \<Rightarrow> (TrustletSession \<Rightarrow> TrustletSession) \<Rightarrow> dev \<Rightarrow> dev" where
  "with_session self f d = d\<lparr>trustletSessions := update_at ts_self self f (trustletSessions d)\<rparr>"

definition session_at :: "dev \<Rightarrow> nat \<Rightarrow> TrustletSession option" where
  "session_at d self = find (\<lambda>s. ts_self s = self) (trustletSessions d)"

definition getTrustletSession :: "dev \<Rightarrow> u32 \<Rightarrow> TrustletSession option" where
  "getTrustletSession d sessionId = find (\<lambda>s. ts_sessionId s = sessionId) (trustletSessions d)"

definition getSessionConnection :: "u32 \<Rightarrow> notification_t \<Rightarrow> dev \<Rightarrow> conn option \<times> dev" where
  "getSessionConnection sessionId n d =
     (case getTrustletSession d sessionId of
        None \<Rightarrow> (None, d)
      | Some s \<Rightarrow>
          (case ts_notificationConnection s of
             None \<Rightarrow> (None, with_session (ts_self s) (\<lambda>s. queueNotification s n) d)
           | Some c \<Rightarrow> (Some c, d)))"

definition findSession :: "dev \<Rightarrow> conn \<Rightarrow> u32 \<Rightarrow> TrustletSession option" where
  "findSession d c sessionId =
     (case getTrustletSession d sessionId of
        None \<Rightarrow> None
      | Some s \<Rightarrow> if ts_deviceConnection s \<noteq> Some c then None else Some s)"

definition open_device :: "conn \<Rightarrow> dev \<Rightarrow> dev" where
  "open_device c d = d\<lparr>connectionData := (connectionData d)(c := True)\<rparr>"

definition queueUnknownNotification :: "notification_t \<Rightarrow> dev \<Rightarrow> dev" where
  "queueUnknownNotification n d = d\<lparr>notifications := notifications d @ [n]\<rparr>"

section \<open>Kernel module calls\<close>

definition lockWsmL2 :: "world \<Rightarrow> u32 \<Rightarrow> dev \<Rightarrow> bool \<times> dev" where
  "lockWsmL2 W handle d =
     (let r = kmod_lockWsmL2 W (hist d) handle in (r = 0, emit (KmodLock handle r) d))"

definition unlockWsmL2 :: "world \<Rightarrow> u32 \<Rightarrow> dev \<Rightarrow> bool \<times> dev" where
  "unlockWsmL2 W handle d =
     (let r = kmod_unlockWsmL2 W (hist d) handle in (r = 0, emit (KmodUnlock handle r) d))"

definition cleanupWsmL2 :: "world \<Rightarrow> dev \<Rightarrow> bool \<times> dev" where
  "cleanupWsmL2 W d = (let r = kmod_cleanupWsmL2 W (hist d) in (r = 0, emit (KmodCleanup r) d))"

definition findWsmL2 :: "world \<Rightarrow> u32 \<Rightarrow> int \<Rightarrow> dev \<Rightarrow> u64 \<times> dev" where
  "findWsmL2 W handle fd d =
     (let r = kmod_findWsmL2 W (hist d) handle fd in (r, emit (KmodFindL2 handle fd r) d))"

definition findContiguousWsm :: "world \<Rightarrow> u32 \<Rightarrow> int \<Rightarrow> dev \<Rightarrow> (u64 \<times> u32) option \<times> dev" where
  "findContiguousWsm W handle fd d =
     (let r = kmod_findContiguousWsm W (hist d) handle fd
      in (r, emit (KmodFindContiguous handle fd r) d))"

definition registerWsmL2 :: "world \<Rightarrow> u64 \<Rightarrow> u32 \<Rightarrow> dev \<Rightarrow> CWsm option \<times> dev" where
  "registerWsmL2 W buffer l d =
     (let r = kmod_registerWsmL2 W (hist d) buffer l
      in (map_option (\<lambda>(handle, phys).
            \<lparr>wsm_virtAddr = buffer, wsm_len = l, wsm_handle = handle, wsm_physAddr = phys\<rparr>) r,
          emit (KmodRegister buffer l r) d))"

definition unregisterWsmL2 :: "world \<Rightarrow> CWsm \<Rightarrow> dev \<Rightarrow> bool \<times> dev" where
  "unregisterWsmL2 W pWsm d =
     (let r = kmod_unregisterWsmL2 W (hist d) (wsm_handle pWsm)
      in (r = 0, emit (KmodUnregister (wsm_handle pWsm) r) d))"

definition allocateContiguousPersistentWsm :: "world \<Rightarrow> u32 \<Rightarrow> dev \<Rightarrow> CWsm option \<times> dev" where
  "allocateContiguousPersistentWsm W l d =
     (if l = 0 then (None, d)
      else
        (let r = kmod_mapWsm W (hist d) l
         in (map_option (\<lambda>(virt, handle, phys).
               \<lparr>wsm_virtAddr = virt, wsm_len = l, wsm_handle = handle, wsm_physAddr = phys\<rparr>) r,
             emit (KmodMapWsm l r) d)))"

definition nsiq :: "world \<Rightarrow> dev \<Rightarrow> bool \<times> dev" where
  "nsiq W d =
     (let r = kmod_fcNSIQ W (hist d); d1 = emit (KmodNsiq r) d
      in if r \<noteq> 0 then (False, d1) else (True, d1\<lparr>schedSem := Suc (schedSem d1)\<rparr>))"

definition yield :: "world \<Rightarrow> dev \<Rightarrow> bool \<times> dev" where
  "yield W d = (let r = kmod_fcYield W (hist d) in (r = 0, emit (KmodYield r) d))"

definition fcInfo :: "world \<Rightarrow> u32 \<Rightarrow> dev \<Rightarrow> u32 \<times> dev" where
  "fcInfo W i d = (let st = kmod_fcInfo W (hist d) i in (st, emit (KmodInfo i st) d))"

definition getMobicoreStatus :: "world \<Rightarrow> dev \<Rightarrow> u32 \<times> dev" where
  "getMobicoreStatus W d = fcInfo W 0 d"

definition dumpMobicoreStatus :: "world \<Rightarrow> dev \<Rightarrow> dev" where
  "dumpMobicoreStatus W d =
     foldl (\<lambda>d i. snd (fcInfo W (of_nat i) d)) d ([1..<17] @ [19..<23])"

text \<open>\<open>notify(sessionId)\<close> of the platform device.\<close>

definition notify_swd :: "world \<Rightarrow> u32 \<Rightarrow> dev \<Rightarrow> dev" where
  "notify_swd W sessionId d =
     (if sessionId \<noteq> SID_MCP \<and> getTrustletSession d sessionId = None then d
      else snd (nsiq W (d\<lparr>nq := putNotification (nq d)
                              \<lparr>nq_sessionId = sessionId, nq_payload = 0\<rparr>\<rparr>)))"

section \<open>The interrupt thread\<close>

definition notification_wire :: "notification_t \<Rightarrow> wire list" where
  "notification_wire n = [W32 (nq_sessionId n), W32 (nq_payload n)]"

definition handle_notification :: "notification_t \<Rightarrow> dev \<Rightarrow> dev" where
  "handle_notification n d =
     (if nq_sessionId n = SID_MCP then d\<lparr>mcpSem := Suc (mcpSem d)\<rparr>
      else case getTrustletSession d (nq_sessionId n) of
        None \<Rightarrow> queueUnknownNotification n d
      | Some ts \<Rightarrow>
          (case ts_notificationConnection ts of
             None \<Rightarrow>
               (let d1 = with_session (ts_self ts) (\<lambda>s. queueNotification s n) d
                in if ts_deviceConnection ts = None then d1\<lparr>taSem := Suc (taSem d1)\<rparr> else d1)
           | Some c \<Rightarrow> emit (ConnWrite c (notification_wire n)) d))"

lemma handle_notification_nq [simp]: "nq (handle_notification n d) = nq d"
  by (simp add: handle_notification_def queueUnknownNotification_def with_session_def emit_def
      Let_def split: option.split)

lemma getNotification_count:
  "getNotification q = (Some n, q') \<Longrightarrow> ring_count (nq_in q') < ring_count (nq_in q)"
  by (auto simp: getNotification_def ring_get_def ring_count_def word_greater_zero_iff
      unat_diff_pred unat_gt_0 split: if_splits)

function irq_drain :: "dev \<Rightarrow> dev" where
  "irq_drain d =
     (case getNotification (nq d) of
        (None, nq') \<Rightarrow> d\<lparr>nq := nq'\<rparr>
      | (Some n, nq') \<Rightarrow> irq_drain (handle_notification n (d\<lparr>nq := nq'\<rparr>)))"
  by pat_completeness auto
termination
  by (relation "measure (\<lambda>d. ring_count (nq_in (nq d)))") (auto dest: getNotification_count [OF sym])

declare irq_drain.simps [simp del]

text \<open>
  The loop of \<open>handleIrq\<close> over the S-SIQs that arrive; once waiting for one fails the thread
  ends, marks itself as exiting and wakes whoever waits for an MCP answer.
\<close>

fun handleIrq :: "sw_round list \<Rightarrow> dev \<Rightarrow> dev" where
  "handleIrq [] d = d"
| "handleIrq (r # rs) d =
     (if irqExiting d then d
      else if \<not> ssiq_ok r then d\<lparr>irqExiting := True, mcpSem := Suc (mcpSem d)\<rparr>
      else
        (let d1 = d\<lparr>nq := (nq d)\<lparr>nq_in := foldl ring_put (nq_in (nq d)) (sw_puts r)\<rparr>\<rparr>;
             d2 = irq_drain d1
         in handleIrq rs (d2\<lparr>schedSem := Suc (schedSem d2)\<rparr>)))"

section \<open>MCP exchanges\<close>

text \<open>\<open>mcpSessionNotification.wait(10)\<close>: false is the time-out.\<close>

definition mcp_wait :: "world \<Rightarrow> dev \<Rightarrow> bool \<times> dev" where
  "mcp_wait W d =
     (let d1 = emit McpWait (handleIrq (sw_rounds W (hist d)) d)
      in if mcpSem d1 = 0 then (False, d1) else (True, d1\<lparr>mcpSem := mcpSem d1 - 1\<rparr>))"

abbreviation (input) MC_STATUS_HALT :: u32 where "MC_STATUS_HALT \<equiv> 3"

fun wait_loop :: "world \<Rightarrow> nat \<Rightarrow> dev \<Rightarrow> bool \<times> dev" where
  "wait_loop W 0 d = (False, d\<lparr>mcFault := True\<rparr>)"
| "wait_loop W (Suc counter) d =
     (if mcFault d then (False, d)
      else
        (let (got, d1) = mcp_wait W d
         in if got then (True, d1)
            else
              (let (status, d2) = getMobicoreStatus W d1
               in if status = MC_STATUS_HALT
                  then (False, (dumpMobicoreStatus W d2)\<lparr>mcFault := True\<rparr>)
                  else wait_loop W counter d2)))"

definition waitMcpNotification :: "world \<Rightarrow> dev \<Rightarrow> bool \<times> dev" where
  "waitMcpNotification W d =
     (let (ok, d1) = wait_loop W 5 d
      in (ok \<and> \<not> irqExiting d1 \<and> \<not> schedExiting d1 \<and> \<not> taExiting d1, d1))"

definition mshNotifyAndWait :: "world \<Rightarrow> dev \<Rightarrow> u32 \<times> dev" where
  "mshNotifyAndWait W d =
     (let (ok, d1) = waitMcpNotification W (notify_swd W SID_MCP (emit (McpSent (mcpMessage d)) d))
      in (if ok then MC_DRV_OK else MC_DRV_ERR_DAEMON_MCI_ERROR, d1))"

text \<open>
  What every command does: write the message, notify, wait, compare the response's identifier.
  The answer is read from the shared buffer.
\<close>

definition mcp_exchange :: "world \<Rightarrow> mcpCommand \<Rightarrow> dev \<Rightarrow> (u32 + mcpRsp_t) \<times> dev" where
  "mcp_exchange W c d =
     (let (mcRet, d1) = mshNotifyAndWait W (d\<lparr>mcpMessage := c\<rparr>)
      in if mcRet \<noteq> MC_MCP_RET_OK then (Inl mcRet, d1)
         else
           (let rsp = sw_rsp W (hist d1)
            in if rspId rsp \<noteq> (cmdId c OR FLAG_RESPONSE)
               then (Inl MC_DRV_ERR_DAEMON_MCI_ERROR, d1)
               else (Inr rsp, d1)))"

section \<open>Sessions\<close>

definition sendSessionCloseCmd :: "world \<Rightarrow> u32 \<Rightarrow> dev \<Rightarrow> u32 \<times> dev" where
  "sendSessionCloseCmd W sessionId d =
     (case mcp_exchange W (CmdClose sessionId) d of
        (Inl mcRet, d1) \<Rightarrow> (mcRet, d1)
      | (Inr rsp, d1) \<Rightarrow> (rspResult rsp, d1))"

definition closeSessionInternal :: "world \<Rightarrow> TrustletSession \<Rightarrow> dev \<Rightarrow> u32 \<times> dev" where
  "closeSessionInternal W session d =
     (let (mcRet, d1) = sendSessionCloseCmd W (ts_sessionId session) d
      in if mcRet \<noteq> MC_MCP_RET_OK then (MAKE_MC_DRV_MCP_ERROR mcRet, d1) else (MC_DRV_OK, d1))"

definition start :: "world \<Rightarrow> dev \<Rightarrow> dev" where
  "start W d =
     (if mciReused d
      then foldl (\<lambda>d sessionId. snd (sendSessionCloseCmd W (of_nat sessionId) d)) d [2..<20]
      else d)"

text \<open>
  Finding the buffer of the TCI. The result is the type, address and offset written to the
  message and the length found; with exactly one of handle and length zero nothing is
  written, and the length test that follows always refuses.
\<close>

definition tci_resolve :: "world \<Rightarrow> conn \<Rightarrow> u32 \<Rightarrow> u32 \<Rightarrow> u32 \<Rightarrow> dev
    \<Rightarrow> (u32 + u32 \<times> u64 \<times> u32 \<times> u32) \<times> dev" where
  "tci_resolve W c tciHandle tciLen tciOffset d =
     (if tciHandle \<noteq> 0 \<and> tciLen \<noteq> 0 then
        (let (contig, d1) = findContiguousWsm W tciHandle (socketDescriptor W c) d;
             (found, d2) =
               (case contig of
                  Some (tci, l) \<Rightarrow> (Some (WSM_CONTIGUOUS, tci, 0, l), d1)
                | None \<Rightarrow>
                    (let (tci, d2) = findWsmL2 W tciHandle (socketDescriptor W c) d1
                     in (if tci \<noteq> 0 then Some (WSM_L2, tci, tciOffset, tciLen) else None, d2)))
         in case found of
              None \<Rightarrow> (Inl MC_DRV_ERR_DAEMON_WSM_HANDLE_NOT_FOUND, d2)
            | Some r \<Rightarrow>
                (let (locked, d3) = lockWsmL2 W tciHandle d2
                 in if \<not> locked then (Inl MC_DRV_ERR_DAEMON_WSM_HANDLE_NOT_FOUND, d3)
                    else (Inr r, d3)))
      else (Inr (WSM_INVALID, 0, tciOffset, 0), d))"

definition unlock_tci :: "world \<Rightarrow> u32 \<Rightarrow> u32 \<Rightarrow> dev \<Rightarrow> dev" where
  "unlock_tci W tciHandle tciLen d =
     (if tciHandle \<noteq> 0 \<and> tciLen \<noteq> 0 then snd (unlockWsmL2 W tciHandle d) else d)"

record mcDrvRspOpenSessionPayload_t =
  pl_sessionId :: u32
  pl_deviceSessionId :: u32
  pl_sessionMagic :: u32

text \<open>
  A successful open: the new session object joins the list, owns the TCI buffer and takes the
  notifications that arrived before it existed.
\<close>

definition add_session :: "world \<Rightarrow> conn \<Rightarrow> loadDataOpenSession_t \<Rightarrow> u32 \<Rightarrow> u32 \<Rightarrow> u32 \<Rightarrow> dev
    \<Rightarrow> mcDrvRspOpenSessionPayload_t \<times> dev" where
  "add_session W c ld tciHandle tciLen sessionId d =
     (let self = new_object W (hist d) (map ts_self (trustletSessions d));
          d1 = emit (NewObject self) d;
          m = os_rand W (hist d1);
          d2 = emit (Rand m) d1;
          s0 = (newTrustletSession self m c sessionId)\<lparr>ts_gp_level := h_gp_level (ld_tlHeader ld)\<rparr>;
          s1 = (if tciHandle \<noteq> 0 \<and> tciLen \<noteq> 0
                then snd (addBulkBuff s0 (Some \<lparr>wsm_virtAddr = ucast (ld_offs ld),
                       wsm_len = ld_len ld, wsm_handle = tciHandle, wsm_physAddr = 0\<rparr>))
                else s0);
          s2 = foldl queueNotification s1 (notifications d2)
      in (\<lparr>pl_sessionId = sessionId, pl_deviceSessionId = of_nat self, pl_sessionMagic = m\<rparr>,
          d2\<lparr>trustletSessions := trustletSessions d2 @ [s2], notifications := []\<rparr>))"

definition openSession :: "world \<Rightarrow> conn \<Rightarrow> loadDataOpenSession_t \<Rightarrow> u32 \<Rightarrow> u32 \<Rightarrow> u32 \<Rightarrow> dev
    \<Rightarrow> (u32 + mcDrvRspOpenSessionPayload_t) \<times> dev" where
  "openSession W c ld tciHandle tciLen tciOffset d =
     (case tci_resolve W c tciHandle tciLen tciOffset d of
        (Inl e, d1) \<Rightarrow> (Inl e, d1)
      | (Inr (wsmType, adr, ofs, l), d1) \<Rightarrow>
          if tciHandle \<noteq> 0 \<and> tciLen = 0 \<or> l < tciLen
          then (Inl MC_DRV_ERR_TCI_GREATER_THAN_WSM, d1)
          else
            (let cmd = CmdOpen \<lparr>open_uuid = h_uuid (ld_tlHeader ld), adrTciBuffer = adr,
                   adrLoadData = ld_baseAddr ld, ofsTciBuffer = ofs, lenTciBuffer = tciLen,
                   wsmTypeTci = wsmType, wsmTypeLoadData = WSM_L2, ofsLoadData = ld_offs ld,
                   lenLoadData = ld_len ld, open_tlHeader = ld_tlHeader ld\<rparr>
             in case mcp_exchange W cmd (d1\<lparr>notifications := []\<rparr>) of
                  (Inl e, d2) \<Rightarrow> (Inl e, unlock_tci W tciHandle tciLen d2)
                | (Inr rsp, d2) \<Rightarrow>
                    if rspResult rsp \<noteq> MC_MCP_RET_OK
                    then (Inl (MAKE_MC_DRV_MCP_ERROR (rspResult rsp)), unlock_tci W tciHandle tciLen d2)
                    else
                      (let (payload, d3) = add_session W c ld tciHandle tciLen (rsp_sessionId rsp) d2
                       in (Inr payload, d3))))"

definition checkLoad :: "world \<Rightarrow> loadDataOpenSession_t \<Rightarrow> dev \<Rightarrow> u32 \<times> dev" where
  "checkLoad W ld d =
     (let cmd = CmdCheckLoad \<lparr>check_uuid = h_uuid (ld_tlHeader ld),
            check_adrLoadData = ld_baseAddr ld, check_wsmTypeLoadData = WSM_L2,
            check_ofsLoadData = ld_offs ld, check_lenLoadData = ld_len ld,
            check_tlHeader = ld_tlHeader ld\<rparr>
      in case mcp_exchange W cmd (d\<lparr>notifications := []\<rparr>) of
           (Inl e, d1) \<Rightarrow> (e, d1)
         | (Inr rsp, d1) \<Rightarrow>
             if rspResult rsp \<noteq> MC_MCP_RET_OK then (MAKE_MC_DRV_MCP_ERROR (rspResult rsp), d1)
             else (MC_DRV_OK, d1))"

record MC_DRV_CMD_NQ_CONNECT =
  nqc_deviceId :: u32
  nqc_sessionId :: u32
  nqc_deviceSessionId :: u32
  nqc_sessionMagic :: u32

definition nq_connect_matches :: "MC_DRV_CMD_NQ_CONNECT \<Rightarrow> TrustletSession \<Rightarrow> bool" where
  "nq_connect_matches cmd s \<longleftrightarrow>
     ts_self s = unat (nqc_deviceSessionId cmd)
     \<and> ts_sessionMagic s = nqc_sessionMagic cmd \<and> ts_sessionId s = nqc_sessionId cmd"

definition registerTrustletConnection ::
  "conn \<Rightarrow> MC_DRV_CMD_NQ_CONNECT \<Rightarrow> dev \<Rightarrow> TrustletSession option \<times> dev" where
  "registerTrustletConnection c cmd d =
     (case find (nq_connect_matches cmd) (trustletSessions d) of
        None \<Rightarrow> (None, d)
      | Some s \<Rightarrow>
          (Some (s\<lparr>ts_notificationConnection := Some c\<rparr>),
           with_session (ts_self s) (\<lambda>s. s\<lparr>ts_notificationConnection := Some c\<rparr>) d))"

text \<open>Removing a session object from the list and deleting it.\<close>

definition delete_session :: "TrustletSession \<Rightarrow> dev \<Rightarrow> dev" where
  "delete_session s d =
     (let d1 = d\<lparr>trustletSessions := erase_at ts_self (ts_self s) (trustletSessions d)\<rparr>;
          d2 = (case deleteTrustletSession s of None \<Rightarrow> d1 | Some c \<Rightarrow> emit (ConnDelete c) d1)
      in emit (DeleteObject (ts_self s)) d2)"

definition release_session :: "world \<Rightarrow> TrustletSession \<Rightarrow> dev \<Rightarrow> dev" where
  "release_session W s d =
     (let (bufs, s') = popAll s
      in delete_session s' (foldl (\<lambda>d w. snd (unlockWsmL2 W (wsm_handle w) d)) d bufs))"

text \<open>What \<open>closeSession\<close> does to a session of a GP trusted application before it sends the command.\<close>

definition detach_client :: "TrustletSession \<Rightarrow> dev \<Rightarrow> dev" where
  "detach_client s d =
     with_session (ts_self s)
       (\<lambda>s. s\<lparr>ts_deviceConnection := None, ts_notificationConnection := None,
              ts_sessionState := TS_CLOSE_SEND\<rparr>)
       (case ts_notificationConnection s of None \<Rightarrow> d | Some nc \<Rightarrow> emit (ConnDelete nc) d)"

definition closeSession :: "world \<Rightarrow> conn \<Rightarrow> u32 \<Rightarrow> dev \<Rightarrow> u32 \<times> dev" where
  "closeSession W c sessionId d =
     (case findSession d c sessionId of
        None \<Rightarrow> (MC_DRV_ERR_DAEMON_UNKNOWN_SESSION, d)
      | Some s \<Rightarrow>
          (let gp = (ts_gp_level s = 1);
               (mcRet, d1) = closeSessionInternal W s (if gp then detach_client s d else d);
               now = (case session_at d1 (ts_self s) of None \<Rightarrow> s | Some s1 \<Rightarrow> s1)
           in if gp \<and> mcRet = MAKE_MC_DRV_MCP_ERROR MC_MCP_RET_ERR_CLOSE_TASK_FAILED then
                if ts_sessionState now = TS_TA_DEAD then
                  (let (mcRet2, d2) = closeSessionInternal W s d1;
                       now2 = (case session_at d2 (ts_self s) of None \<Rightarrow> s | Some s2 \<Rightarrow> s2)
                   in if mcRet2 \<noteq> MC_MCP_RET_OK
                      then (MAKE_MC_DRV_MCP_ERROR mcRet2, emit AssertFailed d2)
                      else (MC_MCP_RET_OK, release_session W now2 d2))
                else (MC_MCP_RET_OK, d1)
              else if mcRet \<noteq> MC_MCP_RET_OK then (MAKE_MC_DRV_MCP_ERROR mcRet, d1)
              else (MC_MCP_RET_OK, release_session W now d1)))"

text \<open>
  The loop of \<open>close\<close> walks the list backwards. When \<open>closeSession\<close> erases the element just
  visited, the reverse iterator is left based on the freed node: its next use is undefined
  behaviour, marked by \<open>StaleIterator\<close>; the walk then follows the links the node had.
\<close>

fun close_loop :: "world \<Rightarrow> conn \<Rightarrow> nat list \<Rightarrow> dev \<Rightarrow> dev" where
  "close_loop W c [] d = d"
| "close_loop W c (self # selves) d =
     (case session_at d self of
        None \<Rightarrow> close_loop W c selves d
      | Some s \<Rightarrow>
          if ts_deviceConnection s = Some c then
            (let (_, d1) = closeSession W c (ts_sessionId s) d;
                 d2 = (if length (trustletSessions d1) < length (trustletSessions d)
                       then emit StaleIterator d1 else d1)
             in close_loop W c selves d2)
          else close_loop W c selves d)"

definition close_device :: "world \<Rightarrow> conn \<Rightarrow> dev \<Rightarrow> dev" where
  "close_device W c d =
     (let d1 = close_loop W c (rev (map ts_self (trustletSessions d))) (emit MutexLock d);
          d2 = snd (cleanupWsmL2 W (emit MutexUnlock d1))
      in emit MutexUnlock (d2\<lparr>connectionData := (connectionData d2)(c := False)\<rparr>))"

definition notify :: "world \<Rightarrow> conn \<Rightarrow> u32 \<Rightarrow> dev \<Rightarrow> u32 \<times> dev" where
  "notify W c sessionId d =
     (case findSession d c sessionId of
        None \<Rightarrow> (MC_DRV_ERR_DAEMON_UNKNOWN_SESSION, d)
      | Some _ \<Rightarrow> (MC_DRV_OK, notify_swd W sessionId d))"

definition mapBulk :: "world \<Rightarrow> conn \<Rightarrow> u32 \<Rightarrow> u32 \<Rightarrow> u64 \<Rightarrow> u32 \<Rightarrow> u32 \<Rightarrow> dev \<Rightarrow> (u32 + u32) \<times> dev" where
  "mapBulk W c sessionId handle pAddrL2 offsetPayload lenBulkMem d =
     (case findSession d c sessionId of
        None \<Rightarrow> (Inl MC_DRV_ERR_DAEMON_UNKNOWN_SESSION, d)
      | Some s \<Rightarrow>
          (let d1 = with_session (ts_self s) (\<lambda>s. snd (addBulkBuff s (Some
                      \<lparr>wsm_virtAddr = ucast offsetPayload, wsm_len = lenBulkMem,
                       wsm_handle = handle, wsm_physAddr = pAddrL2\<rparr>))) d;
               cmd = CmdMap \<lparr>map_sessionId = sessionId, map_wsmType = WSM_L2,
                 ofsBuffer = offsetPayload, adrBuffer = pAddrL2, lenBuffer = lenBulkMem\<rparr>
           in case mcp_exchange W cmd d1 of
                (Inl e, d2) \<Rightarrow> (Inl e, d2)
              | (Inr rsp, d2) \<Rightarrow>
                  if rspResult rsp \<noteq> MC_MCP_RET_OK
                  then (Inl (MAKE_MC_DRV_MCP_ERROR (rspResult rsp)), d2)
                  else (Inr (rsp_secureVirtualAdr rsp), d2)))"

definition unmapBulk :: "world \<Rightarrow> conn \<Rightarrow> u32 \<Rightarrow> u32 \<Rightarrow> u32 \<Rightarrow> u32 \<Rightarrow> dev \<Rightarrow> u32 \<times> dev" where
  "unmapBulk W c sessionId handle secureVirtualAdr lenBulkMem d =
     (case findSession d c sessionId of
        None \<Rightarrow> (MC_DRV_ERR_DAEMON_UNKNOWN_SESSION, d)
      | Some s \<Rightarrow>
          if \<not> findBulkBuff s handle lenBulkMem
          then (MC_DRV_ERR_DAEMON_WSM_HANDLE_NOT_FOUND, d)
          else
            (let cmd = CmdUnmap \<lparr>unmap_sessionId = sessionId, unmap_wsmType = WSM_L2,
                   unmap_secureVirtualAdr = secureVirtualAdr, lenVirtualBuffer = lenBulkMem\<rparr>
             in case mcp_exchange W cmd d of
                  (Inl e, d1) \<Rightarrow> (e, d1)
                | (Inr rsp, d1) \<Rightarrow>
                    if rspResult rsp \<noteq> MC_MCP_RET_OK
                    then (MAKE_MC_DRV_MCP_ERROR (rspResult rsp), d1)
                    else (MC_DRV_OK,
                          with_session (ts_self s) (\<lambda>s. snd (removeBulkBuff s handle)) d1)))"

definition getMobiCoreVersion :: "world \<Rightarrow> dev \<Rightarrow> (u32 + mcVersionInfo_t) \<times> dev" where
  "getMobiCoreVersion W d =
     (case mcVersionInfo d of
        Some v \<Rightarrow> (Inr v, d)
      | None \<Rightarrow>
          (case mcp_exchange W CmdGetMobiCoreVersion d of
             (Inl e, d1) \<Rightarrow> (Inl e, d1)
           | (Inr rsp, d1) \<Rightarrow>
               if rspResult rsp \<noteq> MC_MCP_RET_OK
               then (Inl (MAKE_MC_DRV_MCP_ERROR (rspResult rsp)), d1)
               else (Inr (rsp_versionInfo rsp), d1\<lparr>mcVersionInfo := Some (rsp_versionInfo rsp)\<rparr>)))"

definition loadToken :: "world \<Rightarrow> loadTokenData_t \<Rightarrow> dev \<Rightarrow> u32 \<times> dev" where
  "loadToken W t d =
     (let cmd = CmdLoadToken \<lparr>token_wsmTypeLoadData = WSM_L2,
            token_adrLoadData = ucast (ucast (lt_addr t) :: u32),
            token_ofsLoadData = lt_offs t, token_lenLoadData = lt_len t\<rparr>
      in case mcp_exchange W cmd (d\<lparr>notifications := []\<rparr>) of
           (Inl e, d1) \<Rightarrow> (e, d1)
         | (Inr rsp, d1) \<Rightarrow>
             if rspResult rsp \<noteq> MC_MCP_RET_OK then (MAKE_MC_DRV_MCP_ERROR (rspResult rsp), d1)
             else (MC_DRV_OK, d1))"

section \<open>The exit handler and the scheduler\<close>

fun ta_exit_loop :: "world \<Rightarrow> nat list \<Rightarrow> dev \<Rightarrow> dev" where
  "ta_exit_loop W [] d = d"
| "ta_exit_loop W (self # selves) d =
     (case session_at d self of
        None \<Rightarrow> ta_exit_loop W selves d
      | Some ts \<Rightarrow>
          if ts_sessionState ts = TS_TA_DEAD then
            (let (mcRet, d1) = closeSessionInternal W ts d;
                 now = (case session_at d1 self of None \<Rightarrow> ts | Some s \<Rightarrow> s)
             in ta_exit_loop W selves (if mcRet = MC_DRV_OK then delete_session now d1 else d1))
          else ta_exit_loop W selves d)"

text \<open>One round of \<open>handleTaExit\<close>, which starts when \<open>taExitNotification\<close> can be taken.\<close>

definition handleTaExit :: "world \<Rightarrow> dev \<Rightarrow> dev" where
  "handleTaExit W d =
     (if taSem d = 0 then d
      else ta_exit_loop W (map ts_self (trustletSessions d)) (d\<lparr>taSem := taSem d - 1\<rparr>))"

abbreviation (input) SCHEDULING_FREQ :: nat where "SCHEDULING_FREQ \<equiv> 5"

text \<open>
  One turn of the loop of \<open>schedule\<close>, for a value of the schedule flag: whether the loop goes
  on, the time slice left, and the device. An idle secure world makes it wait for
  \<open>schedSync\<close>.
\<close>

definition schedule_step :: "world \<Rightarrow> bool \<Rightarrow> nat \<times> dev \<Rightarrow> bool \<times> nat \<times> dev" where
  "schedule_step W idle st =
     (let (timeslice, d) = st
      in if idle then (True, timeslice, d\<lparr>schedSem := schedSem d - 1\<rparr>)
         else if timeslice = 0 then
           (let (ok, d1) = nsiq W d in (ok, SCHEDULING_FREQ, d1))
         else
           (let (ok, d1) = yield W d in (ok, timeslice - 1, d1)))"

fun schedule_run :: "world \<Rightarrow> bool list \<Rightarrow> nat \<times> dev \<Rightarrow> nat \<times> dev" where
  "schedule_run W [] st = st"
| "schedule_run W (idle # hints) st =
     (let (go, st1) = schedule_step W idle st
      in if go then schedule_run W hints st1 else st1)"

text \<open>
  The wait of \<open>initDevice\<close> for the secure world to come up, for at most \<open>n\<close> turns; \<open>None\<close> is
  still waiting.
\<close>

fun yields :: "world \<Rightarrow> nat \<Rightarrow> dev \<Rightarrow> bool \<times> dev" where
  "yields W 0 d = (True, d)"
| "yields W (Suc n) d = (let (ok, d1) = yield W d in if ok then yields W n d1 else (False, d1))"

fun init_wait :: "world \<Rightarrow> nat \<Rightarrow> dev \<Rightarrow> (bool \<times> dev) option" where
  "init_wait W 0 d = None"
| "init_wait W (Suc n) d =
     (let (status, d1) = getMobicoreStatus W d
      in if status = 2 then Some (True, d1)
         else if status = 0 then
           (let (ok, d2) = yields W 10 d1 in if ok then init_wait W n d2 else Some (False, d2))
         else if status = MC_STATUS_HALT then Some (False, dumpMobicoreStatus W d1)
         else Some (False, d1))"

section \<open>What may happen while an operation waits\<close>

text \<open>
  An operation that waits for the secure world lets the interrupt thread run. \<open>waited d d'\<close>
  collects what that can do: sessions only receive notifications, the list of sessions, the
  connections and the version information stay, and no lock is taken or given back.
\<close>

named_theorems dev_simps \<open>definitions of the operations that only record an event\<close>

lemmas [dev_simps] = emit_def with_session_def queueUnknownNotification_def lockWsmL2_def
  unlockWsmL2_def cleanupWsmL2_def findWsmL2_def findContiguousWsm_def nsiq_def yield_def
  fcInfo_def getMobicoreStatus_def

definition notified :: "TrustletSession \<Rightarrow> TrustletSession \<Rightarrow> bool" where
  "notified s s' \<longleftrightarrow> (\<exists>ns. s' = foldl queueNotification s ns)"

fun waiting_event :: "ev \<Rightarrow> bool" where
  "waiting_event (KmodNsiq _) = True"
| "waiting_event (KmodInfo _ _) = True"
| "waiting_event (McpSent _) = True"
| "waiting_event McpWait = True"
| "waiting_event (ConnWrite _ _) = True"
| "waiting_event _ = False"

definition waited :: "dev \<Rightarrow> dev \<Rightarrow> bool" where
  "waited d d' \<longleftrightarrow> list_all2 notified (trustletSessions d) (trustletSessions d')
     \<and> connectionData d' = connectionData d \<and> mcVersionInfo d' = mcVersionInfo d
     \<and> (\<exists>es. hist d' = hist d @ es \<and> list_all waiting_event es)
     \<and> (\<exists>ns. notifications d' = notifications d @ ns)
     \<and> (ring_inv (nq_in (nq d)) \<longrightarrow> ring_inv (nq_in (nq d')))
     \<and> (ring_inv (nq_out (nq d)) \<longrightarrow> ring_inv (nq_out (nq d')))
     \<and> (mcFault d \<longrightarrow> mcFault d') \<and> (irqExiting d \<longrightarrow> irqExiting d')
     \<and> taSem d \<le> taSem d'"

lemma notified_refl [simp, intro]: "notified s s"
  unfolding notified_def by (rule exI [of _ "[]"]) simp

lemma notified_one [simp, intro]: "notified s (queueNotification s n)"
  unfolding notified_def by (rule exI [of _ "[n]"]) simp

lemma notified_trans: "notified a b \<Longrightarrow> notified b c \<Longrightarrow> notified a c"
  by (auto simp: notified_def simp flip: foldl_append)

lemma foldl_queueNotification_frame:
  "ts_self (foldl queueNotification s ns) = ts_self s"
  "ts_sessionId (foldl queueNotification s ns) = ts_sessionId s"
  "ts_sessionMagic (foldl queueNotification s ns) = ts_sessionMagic s"
  "ts_deviceConnection (foldl queueNotification s ns) = ts_deviceConnection s"
  "ts_notificationConnection (foldl queueNotification s ns) = ts_notificationConnection s"
  "ts_gp_level (foldl queueNotification s ns) = ts_gp_level s"
  "ts_buffers (foldl queueNotification s ns) = ts_buffers s"
  "ts_inv (foldl queueNotification s ns) = ts_inv s"
  by (induction ns arbitrary: s) simp_all

lemma foldl_queueNotification_state:
  "ts_sessionState (foldl queueNotification s ns) = ts_sessionState s
   \<or> ts_gp_level s = 1 \<and> ts_sessionState (foldl queueNotification s ns) = TS_TA_DEAD"
proof (induction ns arbitrary: s)
  case (Cons n ns)
  from Cons [of "queueNotification s n"] queueNotification_state [of s n] show ?case
    by (auto simp: exit_notification_def split: if_splits)
qed simp

lemma notifiedD:
  assumes "notified s s'"
  shows "ts_self s' = ts_self s" "ts_sessionId s' = ts_sessionId s"
    "ts_sessionMagic s' = ts_sessionMagic s" "ts_deviceConnection s' = ts_deviceConnection s"
    "ts_notificationConnection s' = ts_notificationConnection s"
    "ts_gp_level s' = ts_gp_level s" "ts_buffers s' = ts_buffers s" "ts_inv s' = ts_inv s"
    "ts_sessionState s' = ts_sessionState s \<or> ts_gp_level s = 1 \<and> ts_sessionState s' = TS_TA_DEAD"
  using assms foldl_queueNotification_state
  by (auto simp: notified_def foldl_queueNotification_frame)

lemma list_all2_notified_refl [simp]: "list_all2 notified xs xs"
  by (simp add: list_all2_refl)

lemma list_all2_notified_update:
  "list_all2 notified xs (update_at k i (\<lambda>s. queueNotification s n) xs)"
  by (induction xs) auto

lemma waited_refl [simp, intro]: "waited d d"
  by (simp add: waited_def)

lemma waited_trans:
  assumes "waited a b" "waited b c"
  shows "waited a c"
proof -
  have "list_all2 notified (trustletSessions a) (trustletSessions c)"
    using assms list_all2_trans [OF notified_trans] by (auto simp: waited_def)
  moreover obtain es fs where "hist b = hist a @ es" "hist c = hist b @ fs"
    "list_all waiting_event es" "list_all waiting_event fs" using assms by (auto simp: waited_def)
  moreover from this have "\<exists>es. hist c = hist a @ es \<and> list_all waiting_event es"
    by (intro exI [of _ "es @ fs"]) simp
  ultimately show ?thesis using assms by (auto simp: waited_def)
qed

lemma waited_emit: "waiting_event e \<Longrightarrow> waited d (emit e d)"
  by (simp add: waited_def emit_def)

lemma waited_frame [simp]:
  "waited d (d\<lparr>mcpSem := n\<rparr>)" "waited d (d\<lparr>schedSem := n\<rparr>)" "waited d (d\<lparr>mcpMessage := m\<rparr>)"
  "waited d (d\<lparr>mcFault := True\<rparr>)"
  by (simp_all add: waited_def)

lemma waited_nq_in:
  "(ring_inv (nq_in (nq d)) \<Longrightarrow> ring_inv q) \<Longrightarrow> waited d (d\<lparr>nq := (nq d)\<lparr>nq_in := q\<rparr>\<rparr>)"
  by (simp add: waited_def)

lemma waited_nq_out:
  "waited d (d\<lparr>nq := putNotification (nq d) n\<rparr>)"
  by (simp add: waited_def putNotification_def ring.inv_put)

lemma waited_handle_notification: "waited d (handle_notification n d)"
  by (simp add: waited_def handle_notification_def Let_def dev_simps list_all2_notified_update
      split: option.split)

lemma waited_irq_drain: "waited d (irq_drain d)"
proof (induction d rule: irq_drain.induct)
  case (1 d)
  obtain r q where g: "getNotification (nq d) = (r, q)" by force
  obtain r' p where p: "ring_get (nq_in (nq d)) = (r', p)" by force
  with g have q: "q = (nq d)\<lparr>nq_in := p\<rparr>" by (simp add: getNotification_def)
  have w: "waited d (d\<lparr>nq := q\<rparr>)"
    unfolding q by (rule waited_nq_in) (rule ring.inv_get [OF _ p])
  show ?case
  proof (cases r)
    case None
    then show ?thesis using g w by (subst irq_drain.simps) simp
  next
    case (Some n)
    then have "waited (handle_notification n (d\<lparr>nq := q\<rparr>)) (irq_drain d)"
      using 1 [OF g [symmetric]] g by (subst irq_drain.simps) simp
    then show ?thesis using w waited_handle_notification waited_trans by blast
  qed
qed

lemma waited_handleIrq: "waited d (handleIrq rs d)"
proof (induction rs d rule: handleIrq.induct)
  case (2 r rs d)
  let ?d1 = "d\<lparr>nq := (nq d)\<lparr>nq_in := foldl ring_put (nq_in (nq d)) (sw_puts r)\<rparr>\<rparr>"
  have a: "waited d ?d1" by (rule waited_nq_in) (simp add: ring.puts)
  have "waited d ((irq_drain ?d1)\<lparr>schedSem := k\<rparr>)" for k
    using a waited_irq_drain waited_frame(2) waited_trans by blast
  moreover have "waited d (d\<lparr>irqExiting := True, mcpSem := k\<rparr>)" for k by (simp add: waited_def)
  ultimately show ?case using waited_trans [OF _ 2] by (simp add: Let_def)
qed simp

lemma waited_mcp_wait: "waited d (snd (mcp_wait W d))"
proof -
  let ?d = "emit McpWait (handleIrq (sw_rounds W (hist d)) d)"
  have a: "waited d ?d" by (rule waited_trans [OF waited_handleIrq waited_emit]) simp
  from a waited_trans [OF a waited_frame(1)] show ?thesis by (simp add: mcp_wait_def Let_def)
qed

lemma waited_fcInfo: "waited d (snd (fcInfo W i d))"
  by (simp add: fcInfo_def Let_def waited_emit)

lemma waited_foldl: "(\<And>d x. waited d (f d x)) \<Longrightarrow> waited d (foldl f d xs)"
  by (induction xs arbitrary: d) (auto intro: waited_trans)

lemma waited_dump: "waited d (dumpMobicoreStatus W d)"
  unfolding dumpMobicoreStatus_def by (intro waited_foldl waited_fcInfo)

lemma waited_wait_loop: "waited d (snd (wait_loop W k d))"
proof (induction W k d rule: wait_loop.induct)
  case (2 W k d)
  obtain got d1 where w: "mcp_wait W d = (got, d1)" by force
  obtain st d2 where i: "fcInfo W 0 d1 = (st, d2)" by force
  have a: "waited d d1" using waited_mcp_wait [of d W] w by simp
  have b: "waited d d2" using waited_fcInfo [of d1 W 0] i by (auto intro: waited_trans [OF a])
  have c: "waited d ((dumpMobicoreStatus W d2)\<lparr>mcFault := True\<rparr>)"
    by (rule waited_trans [OF b]) (rule waited_trans [OF waited_dump waited_frame(4)])
  show ?case using 2 w i a b c by (auto simp: getMobicoreStatus_def intro: waited_trans)
qed simp

lemma waited_notify_swd: "waited d (notify_swd W sid d)"
proof -
  have "waited d (snd (nsiq W (d\<lparr>nq := putNotification (nq d) n\<rparr>)))" for n
    by (rule waited_trans [OF waited_nq_out [of d n]]) (simp add: waited_def nsiq_def emit_def Let_def)
  then show ?thesis by (simp add: notify_swd_def)
qed

lemma waited_mshNotifyAndWait: "waited d (snd (mshNotifyAndWait W d))"
proof -
  let ?d = "notify_swd W SID_MCP (emit (McpSent (mcpMessage d)) d)"
  have "waited d ?d" by (rule waited_trans [OF waited_emit waited_notify_swd]) simp
  then have "waited d (snd (wait_loop W 5 ?d))" by (rule waited_trans [OF _ waited_wait_loop])
  then show ?thesis
    by (auto simp: mshNotifyAndWait_def waitMcpNotification_def split: prod.splits)
qed

lemma waited_mcp_exchange: "waited d (snd (mcp_exchange W c d))"
  using waited_trans [OF waited_frame(3) waited_mshNotifyAndWait, of d W c]
  by (fastforce simp: mcp_exchange_def Let_def split: prod.split)
end
