(* ===== verification/McDeviceLaws.thy ===== *)
theory McDeviceLaws
  imports McDevice
begin

text \<open>
  What the device promises: the invariant of the session list along every run, isolation of the
  clients from each other, the life of a session from open to close with its locks, the bounded
  wait for the secure world, and the routing of notifications.
\<close>

section \<open>The invariant\<close>

text \<open>
  An orphaned session, whose client has been detached, belongs to a GP trusted application and
  is on its way out; the state \<open>TS_CLOSED\<close> is never used.
\<close>

definition session_ok :: "TrustletSession \<Rightarrow> bool" where
  "session_ok s \<longleftrightarrow> ts_inv s \<and> ts_sessionState s \<noteq> TS_CLOSED
     \<and> (ts_deviceConnection s = None \<longrightarrow>
          ts_gp_level s = 1 \<and> ts_sessionState s \<in> {TS_CLOSE_SEND, TS_TA_DEAD})"

definition dev_inv :: "dev \<Rightarrow> bool" where
  "dev_inv d \<longleftrightarrow> distinct (map ts_self (trustletSessions d))
     \<and> (\<forall>s \<in> set (trustletSessions d). session_ok s)
     \<and> ring_inv (nq_in (nq d)) \<and> ring_inv (nq_out (nq d))"

definition newDevice :: "NotificationQueue \<Rightarrow> bool \<Rightarrow> dev" where
  "newDevice q reused =
     \<lparr>nq = q, mcpMessage = CmdGetMobiCoreVersion, mcFault = False, mciReused = reused,
      mcVersionInfo = None, trustletSessions = [], notifications = [], mcpSem = 0, schedSem = 0,
      taSem = 0, irqExiting = False, schedExiting = False, taExiting = False,
      connectionData = (\<lambda>_. False), hist = []\<rparr>"

inductive dev_step :: "world \<Rightarrow> dev \<Rightarrow> dev \<Rightarrow> bool" for W where
  step_open: "dev_step W d (open_device c d)"
| step_close: "dev_step W d (close_device W c d)"
| step_openSession: "dev_step W d (snd (openSession W c ld h l ofs d))"
| step_checkLoad: "dev_step W d (snd (checkLoad W ld d))"
| step_register: "dev_step W d (snd (registerTrustletConnection c cmd d))"
| step_closeSession: "dev_step W d (snd (closeSession W c sid d))"
| step_notify: "dev_step W d (snd (notify W c sid d))"
| step_mapBulk: "dev_step W d (snd (mapBulk W c sid h a ofs l d))"
| step_unmapBulk: "dev_step W d (snd (unmapBulk W c sid h v l d))"
| step_version: "dev_step W d (snd (getMobiCoreVersion W d))"
| step_loadToken: "dev_step W d (snd (loadToken W t d))"
| step_taExit: "dev_step W d (handleTaExit W d)"
| step_irq: "dev_step W d (handleIrq rs d)"
| step_start: "dev_step W d (start W d)"
| step_lock: "dev_step W d (snd (lockWsmL2 W h d))"
| step_unlock: "dev_step W d (snd (unlockWsmL2 W h d))"

lemma session_ok_notified: "session_ok s \<Longrightarrow> notified s s' \<Longrightarrow> session_ok s'"
  using notifiedD [of s s'] by (auto simp: session_ok_def)

lemma map_ts_self_notified:
  "list_all2 notified xs ys \<Longrightarrow> map ts_self ys = map ts_self xs"
  by (induction rule: list_all2_induct) (simp_all add: notifiedD)

lemma ball_notified:
  "list_all2 notified xs ys \<Longrightarrow> (\<And>s s'. P s \<Longrightarrow> notified s s' \<Longrightarrow> Q s') \<Longrightarrow>
     \<forall>s \<in> set xs. P s \<Longrightarrow> \<forall>s \<in> set ys. Q s"
  by (induction rule: list_all2_induct) auto

lemma dev_inv_waited:
  assumes "dev_inv d" "waited d d'"
  shows "dev_inv d'"
proof -
  have l: "list_all2 notified (trustletSessions d) (trustletSessions d')"
    using assms(2) by (simp add: waited_def)
  have "\<forall>s \<in> set (trustletSessions d'). session_ok s"
    by (rule ball_notified [OF l, where P = session_ok])
      (use assms(1) session_ok_notified in \<open>auto simp: dev_inv_def\<close>)
  then show ?thesis using map_ts_self_notified [OF l] assms by (simp add: dev_inv_def waited_def)
qed

lemma dev_inv_emit [simp]: "dev_inv (emit e d) = dev_inv d"
  by (simp add: dev_inv_def emit_def)

lemma dev_inv_frame [simp]:
  "dev_inv (d\<lparr>notifications := ns\<rparr>) = dev_inv d"
  "dev_inv (d\<lparr>connectionData := cd\<rparr>) = dev_inv d"
  "dev_inv (d\<lparr>mcVersionInfo := v\<rparr>) = dev_inv d"
  "dev_inv (d\<lparr>taSem := k\<rparr>) = dev_inv d"
  by (simp_all add: dev_inv_def)

lemma dev_inv_exchange: "dev_inv d \<Longrightarrow> dev_inv (snd (mcp_exchange W c d))"
  by (rule dev_inv_waited [OF _ waited_mcp_exchange])

lemma dev_inv_exchangeE:
  "mcp_exchange W c d = (r, d') \<Longrightarrow> dev_inv d \<Longrightarrow> dev_inv d'"
  using dev_inv_exchange [of d W c] by simp

lemma dev_inv_with_session:
  assumes "dev_inv d" "\<And>s. session_ok s \<Longrightarrow> session_ok (f s)" "\<And>s. ts_self (f s) = ts_self s"
  shows "dev_inv (with_session self f d)"
proof -
  have "map ts_self (update_at ts_self self f xs) = map ts_self xs" for xs
    using assms(3) by (rule map_update_at)
  moreover have "\<forall>s \<in> set (update_at ts_self self f (trustletSessions d)). session_ok s"
    using assms(1,2) by (auto simp: dev_inv_def update_at_def)
  ultimately show ?thesis using assms(1) by (simp add: dev_inv_def with_session_def)
qed

lemma dev_inv_kmod [simp]:
  "dev_inv (snd (lockWsmL2 W h d)) = dev_inv d"
  "dev_inv (snd (unlockWsmL2 W h d)) = dev_inv d"
  "dev_inv (snd (cleanupWsmL2 W d)) = dev_inv d"
  "dev_inv (snd (findWsmL2 W h fd d)) = dev_inv d"
  "dev_inv (snd (findContiguousWsm W h fd d)) = dev_inv d"
  "dev_inv (unlock_tci W h l d) = dev_inv d"
  by (simp_all add: lockWsmL2_def unlockWsmL2_def cleanupWsmL2_def findWsmL2_def
      findContiguousWsm_def unlock_tci_def Let_def)

lemma session_ok_add: "session_ok s \<Longrightarrow> session_ok (snd (addBulkBuff s w))"
  using ts_inv_add [of s w] by (auto simp: session_ok_def addBulkBuff_def split: option.split)

lemma session_ok_remove: "session_ok s \<Longrightarrow> session_ok (snd (removeBulkBuff s h))"
  using ts_inv_remove [of s h] by (auto simp: session_ok_def removeBulkBuff_def)

lemma addBulkBuff_frame [simp]:
  "ts_self (snd (addBulkBuff s w)) = ts_self s"
  "ts_sessionId (snd (addBulkBuff s w)) = ts_sessionId s"
  "ts_deviceConnection (snd (addBulkBuff s w)) = ts_deviceConnection s"
  "ts_gp_level (snd (addBulkBuff s w)) = ts_gp_level s"
  "ts_sessionState (snd (addBulkBuff s w)) = ts_sessionState s"
  "ts_notifications (snd (addBulkBuff s w)) = ts_notifications s"
  "ts_notificationConnection (snd (addBulkBuff s w)) = ts_notificationConnection s"
  by (simp_all add: addBulkBuff_def split: option.split)

lemma removeBulkBuff_self [simp]: "ts_self (snd (removeBulkBuff s h)) = ts_self s"
  by (simp add: removeBulkBuff_def)

lemma dev_inv_delete: "dev_inv d \<Longrightarrow> dev_inv (delete_session s d)"
  by (cases "deleteTrustletSession s")
    (simp_all add: dev_inv_def delete_session_def Let_def emit_def distinct_map_erase_at)

lemma dev_inv_unlocks:
  "dev_inv (foldl (\<lambda>d w. snd (unlockWsmL2 W (wsm_handle w) d)) d ws) = dev_inv d"
  by (induction ws arbitrary: d) simp_all

lemma dev_inv_release: "dev_inv d \<Longrightarrow> dev_inv (release_session W s d)"
  by (simp add: release_session_def dev_inv_delete dev_inv_unlocks split: prod.split)

lemma session_ok_detach:
  "session_ok s \<Longrightarrow> ts_gp_level s = 1 \<Longrightarrow>
     session_ok (s\<lparr>ts_deviceConnection := None, ts_notificationConnection := None,
                   ts_sessionState := TS_CLOSE_SEND\<rparr>)"
  by (simp add: session_ok_def ts_inv_def)

lemma find_SomeD: "find P xs = Some x \<Longrightarrow> x \<in> set xs \<and> P x"
  by (auto simp: find_Some_iff)

lemma findSessionD:
  assumes "findSession d c sid = Some s"
  shows "s \<in> set (trustletSessions d)" "ts_sessionId s = sid" "ts_deviceConnection s = Some c"
    "getTrustletSession d sid = Some s"
  using assms by (auto simp: findSession_def getTrustletSession_def dest!: find_SomeD
      split: option.splits if_splits)

lemma dev_inv_detach:
  assumes inv: "dev_inv d" and s: "s \<in> set (trustletSessions d)" "ts_gp_level s = 1"
  shows "dev_inv (detach_client s d)"
proof -
  have eq: "ts_gp_level t = 1" if "t \<in> set (trustletSessions d)" "ts_self t = ts_self s" for t
    using inv s that by (metis dev_inv_def distinct_map inj_onD)
  let ?f = "\<lambda>s :: TrustletSession. s\<lparr>ts_deviceConnection := None, ts_notificationConnection := None,
                   ts_sessionState := TS_CLOSE_SEND\<rparr>"
  have "distinct (map ts_self (update_at ts_self (ts_self s) ?f (trustletSessions d)))"
    using inv map_update_at [of ts_self ?f ts_self] by (simp add: dev_inv_def)
  moreover have "\<forall>t \<in> set (update_at ts_self (ts_self s) ?f (trustletSessions d)). session_ok t"
    using inv eq session_ok_detach by (auto simp: update_at_def dev_inv_def)
  ultimately show ?thesis using inv
    by (simp add: detach_client_def dev_inv_def with_session_def emit_def split: option.split)
qed

lemma dev_inv_closeInternal: "dev_inv d \<Longrightarrow> dev_inv (snd (closeSessionInternal W s d))"
  using dev_inv_exchange [of d W "CmdClose (ts_sessionId s)"]
  by (auto simp: closeSessionInternal_def sendSessionCloseCmd_def split: prod.split sum.split)

lemma dev_inv_closeSession:
  assumes "dev_inv d" shows "dev_inv (snd (closeSession W c sid d))"
proof (cases "findSession d c sid")
  case (Some s)
  let ?d0 = "if ts_gp_level s = 1 then detach_client s d else d"
  have "dev_inv ?d0" using dev_inv_detach [OF assms findSessionD(1) [OF Some]] assms by simp
  then have 1: "dev_inv (snd (closeSessionInternal W s ?d0))" by (rule dev_inv_closeInternal)
  obtain r d1 where c: "closeSessionInternal W s ?d0 = (r, d1)" by force
  obtain r2 d2 where c2: "closeSessionInternal W s d1 = (r2, d2)" by force
  from 1 c have i1: "dev_inv d1" by simp
  from dev_inv_closeInternal [OF i1, of W s] c2 have i2: "dev_inv d2" by simp
  from i1 i2 show ?thesis using Some c c2
    by (simp add: closeSession_def Let_def dev_inv_release)
qed (use assms in \<open>simp add: closeSession_def\<close>)

lemma session_ok_new:
  "session_ok ((newTrustletSession self m c sid)\<lparr>ts_gp_level := g\<rparr>)"
  by (simp add: session_ok_def newTrustletSession_def ts_inv_def smap_inv_def)

lemma session_ok_queue: "session_ok s \<Longrightarrow> session_ok (foldl queueNotification s ns)"
  by (rule session_ok_notified) (auto simp: notified_def)

text \<open>The session object that a successful open creates.\<close>

definition opened_session :: "nat \<Rightarrow> u32 \<Rightarrow> conn \<Rightarrow> loadDataOpenSession_t \<Rightarrow> u32 \<Rightarrow> u32 \<Rightarrow> u32
    \<Rightarrow> notification_t list \<Rightarrow> TrustletSession" where
  "opened_session self m c ld tciHandle tciLen sid ns =
     (let s0 = (newTrustletSession self m c sid)\<lparr>ts_gp_level := h_gp_level (ld_tlHeader ld)\<rparr>
      in foldl queueNotification
           (if tciHandle \<noteq> 0 \<and> tciLen \<noteq> 0
            then s0\<lparr>ts_buffers := [(tciHandle, \<lparr>wsm_virtAddr = ucast (ld_offs ld),
                    wsm_len = ld_len ld, wsm_handle = tciHandle, wsm_physAddr = 0\<rparr>)]\<rparr>
            else s0) ns)"

lemma add_session_eq:
  fixes W d defines "self \<equiv> new_object W (hist d) (map ts_self (trustletSessions d))"
  defines "m \<equiv> os_rand W (hist d @ [NewObject self])"
  shows "add_session W c ld h l sid d =
    (\<lparr>pl_sessionId = sid, pl_deviceSessionId = of_nat self, pl_sessionMagic = m\<rparr>,
     d\<lparr>trustletSessions := trustletSessions d @ [opened_session self m c ld h l sid (notifications d)],
       notifications := [], hist := hist d @ [NewObject self, Rand m]\<rparr>)"
  by (simp add: add_session_def Let_def emit_def opened_session_def self_def m_def
      addBulkBuff_def newTrustletSession_def)

lemma opened_session_frame [simp]:
  "ts_self (opened_session self m c ld h l sid ns) = self"
  "ts_sessionId (opened_session self m c ld h l sid ns) = sid"
  "ts_sessionMagic (opened_session self m c ld h l sid ns) = m"
  "ts_deviceConnection (opened_session self m c ld h l sid ns) = Some c"
  "ts_notificationConnection (opened_session self m c ld h l sid ns) = None"
  "ts_gp_level (opened_session self m c ld h l sid ns) = h_gp_level (ld_tlHeader ld)"
  "map fst (ts_buffers (opened_session self m c ld h l sid ns)) =
     (if h \<noteq> 0 \<and> l \<noteq> 0 then [h] else [])"
  by (simp_all add: opened_session_def Let_def foldl_queueNotification_frame newTrustletSession_def)

lemma session_ok_opened: "session_ok (opened_session self m c ld h l sid ns)"
proof -
  have "session_ok ((newTrustletSession self m c sid)
      \<lparr>ts_gp_level := h_gp_level (ld_tlHeader ld), ts_buffers := [(h, w)]\<rparr>)" if "wsm_handle w = h" for w
    using that by (simp add: session_ok_def newTrustletSession_def ts_inv_def smap_inv_def)
  then show ?thesis
    by (simp add: opened_session_def Let_def session_ok_queue session_ok_new)
qed

lemma dev_inv_add_session:
  "new_fresh W \<Longrightarrow> dev_inv d \<Longrightarrow> dev_inv (snd (add_session W c ld h l sid d))"
  by (simp add: add_session_eq dev_inv_def session_ok_opened new_fresh_def flip: set_map)

lemma tci_resolve_inv: "tci_resolve W c h l ofs d = (r, d1) \<Longrightarrow> dev_inv d1 = dev_inv d"
  by (auto simp: tci_resolve_def Let_def findContiguousWsm_def findWsmL2_def lockWsmL2_def
      split: option.splits if_splits prod.splits)

lemma dev_inv_openSession:
  assumes "new_fresh W" "dev_inv d" shows "dev_inv (snd (openSession W c ld h l ofs d))"
proof -
  obtain r d1 where t: "tci_resolve W c h l ofs d = (r, d1)" by force
  have i1: "dev_inv (d1\<lparr>notifications := []\<rparr>)" using tci_resolve_inv [OF t] assms by simp
  have "dev_inv d3" if "mcp_exchange W cmd (d1\<lparr>notifications := []\<rparr>) = (x, d2)"
    "add_session W c ld h l sid d2 = (p, d3)" for cmd x d2 sid p d3
    using dev_inv_add_session [OF assms(1) dev_inv_exchangeE [OF that(1) i1], of c ld h l sid] that(2)
    by simp
  with i1 dev_inv_exchangeE [OF _ i1] t show ?thesis
    by (auto simp: openSession_def Let_def split: sum.split prod.split)
qed

lemma dev_inv_close_loop: "dev_inv d \<Longrightarrow> dev_inv (close_loop W c selves d)"
proof (induction W c selves d rule: close_loop.induct)
  case (2 W c self selves d)
  show ?case
  proof (cases "session_at d self")
    case (Some s)
    obtain r d1 where "closeSession W c (ts_sessionId s) d = (r, d1)" by force
    with Some 2 dev_inv_closeSession [of d W c "ts_sessionId s"] show ?thesis
      by (simp add: Let_def)
  qed (use 2 in simp)
qed simp

lemma dev_inv_ta_exit_loop: "dev_inv d \<Longrightarrow> dev_inv (ta_exit_loop W selves d)"
proof (induction W selves d rule: ta_exit_loop.induct)
  case (2 W self selves d)
  show ?case
  proof (cases "session_at d self")
    case (Some s)
    obtain r d1 where "closeSessionInternal W s d = (r, d1)" by force
    with Some 2 dev_inv_closeInternal [of d W s] show ?thesis
      by (simp add: Let_def dev_inv_delete)
  qed (use 2 in simp)
qed simp

lemma dev_inv_foldl:
  "(\<And>d x. dev_inv d \<Longrightarrow> dev_inv (f d x)) \<Longrightarrow> dev_inv d \<Longrightarrow> dev_inv (foldl f d xs)"
  by (induction xs arbitrary: d) auto

lemma dev_inv_step:
  assumes "new_fresh W" "dev_step W d d'" "dev_inv d"
  shows "dev_inv d'"
  using assms(2)
proof cases
  case (step_mapBulk c sid h a ofs l)
  have "dev_inv (with_session k (\<lambda>s. snd (addBulkBuff s w)) d)" for k w
    by (rule dev_inv_with_session [OF assms(3) session_ok_add]) simp_all
  with step_mapBulk assms(3) dev_inv_exchangeE show ?thesis
    by (auto simp: mapBulk_def Let_def split: option.split sum.split prod.split)
next
  case (step_unmapBulk c sid h v l)
  have "dev_inv (with_session k (\<lambda>s. snd (removeBulkBuff s w)) d1)" if "dev_inv d1" for k w d1
    by (rule dev_inv_with_session [OF that session_ok_remove]) simp_all
  with step_unmapBulk assms(3) dev_inv_exchangeE show ?thesis
    by (auto simp: unmapBulk_def Let_def split: option.split sum.split prod.split)
next
  case (step_register c cmd)
  have "dev_inv (with_session k (\<lambda>s. s\<lparr>ts_notificationConnection := Some c\<rparr>) d)" for k
    by (rule dev_inv_with_session [OF assms(3)]) (simp_all add: session_ok_def ts_inv_def)
  with step_register assms(3) show ?thesis
    by (simp add: registerTrustletConnection_def split: option.split)
next
  case step_start
  have "dev_inv (snd (sendSessionCloseCmd W sid d1))" if "dev_inv d1" for sid d1
    using dev_inv_exchange [OF that, of W "CmdClose sid"]
    by (auto simp: sendSessionCloseCmd_def split: prod.split sum.split)
  with step_start assms(3) show ?thesis by (simp add: start_def dev_inv_foldl)
next
  case (step_close c)
  then show ?thesis
    using assms(3) by (simp add: close_device_def Let_def dev_inv_close_loop)
next
  case (step_irq rs)
  then show ?thesis using dev_inv_waited [OF assms(3) waited_handleIrq] by simp
next
  case (step_notify c sid)
  then show ?thesis using assms(3) dev_inv_waited [OF assms(3) waited_notify_swd]
    by (simp add: notify_def split: option.split)
next
  case step_version
  then show ?thesis using assms(3) dev_inv_exchangeE
    by (auto simp: getMobiCoreVersion_def split: option.split sum.split prod.split)
next
  case (step_checkLoad ld)
  have "dev_inv (d\<lparr>notifications := []\<rparr>)" using assms(3) by simp
  with step_checkLoad show ?thesis using dev_inv_exchangeE
    by (auto simp: checkLoad_def Let_def split: sum.split prod.split)
next
  case (step_loadToken t)
  have "dev_inv (d\<lparr>notifications := []\<rparr>)" using assms(3) by simp
  with step_loadToken show ?thesis using dev_inv_exchangeE
    by (auto simp: loadToken_def Let_def split: sum.split prod.split)
qed (use assms in \<open>simp_all add: open_device_def dev_inv_openSession dev_inv_closeSession
      handleTaExit_def dev_inv_ta_exit_loop\<close>)

section \<open>Isolation of clients\<close>

text \<open>\<open>spared k d d'\<close>: between \<open>d\<close> and \<open>d'\<close> every session but \<open>k\<close> only received notifications.\<close>

definition spared :: "nat \<Rightarrow> dev \<Rightarrow> dev \<Rightarrow> bool" where
  "spared k d d' \<longleftrightarrow> (\<forall>s \<in> set (trustletSessions d). ts_self s \<noteq> k \<longrightarrow>
     (\<exists>s' \<in> set (trustletSessions d'). notified s s'))"

definition confined :: "conn \<Rightarrow> dev \<Rightarrow> dev \<Rightarrow> bool" where
  "confined c d d' \<longleftrightarrow> (\<forall>s \<in> set (trustletSessions d). ts_deviceConnection s \<noteq> Some c \<longrightarrow>
     (\<exists>s' \<in> set (trustletSessions d'). notified s s'))"

lemma trustletSessions_emit [simp]: "trustletSessions (emit e d) = trustletSessions d"
  by (simp add: emit_def)

lemma spared_refl [simp]: "spared k d d" and confined_refl [simp]: "confined c d d"
  by (auto simp: spared_def confined_def)

lemma spared_trans: "spared k a b \<Longrightarrow> spared k b d \<Longrightarrow> spared k a d"
  unfolding spared_def by (metis notified_trans notifiedD(1))

lemma confined_trans: "confined c a b \<Longrightarrow> confined c b d \<Longrightarrow> confined c a d"
  unfolding confined_def by (metis notified_trans notifiedD(4))

lemma waited_list_all2:
  "waited d d' \<Longrightarrow> list_all2 notified (trustletSessions d) (trustletSessions d')"
  by (simp add: waited_def)

lemma list_all2_notified_mem:
  "list_all2 notified xs ys \<Longrightarrow> s \<in> set xs \<Longrightarrow> \<exists>s' \<in> set ys. notified s s'"
  by (induction rule: list_all2_induct) auto

lemma waited_sessions:
  "waited d d' \<Longrightarrow> s \<in> set (trustletSessions d) \<Longrightarrow> \<exists>s' \<in> set (trustletSessions d'). notified s s'"
  by (drule waited_list_all2) (rule list_all2_notified_mem)

lemma spared_waited: "waited d d' \<Longrightarrow> spared k d d'"
  and confined_waited: "waited d d' \<Longrightarrow> confined c d d'"
  by (auto simp: spared_def confined_def waited_sessions)

lemma spared_exchange: "mcp_exchange W c d = (r, d') \<Longrightarrow> spared k d d'"
  using waited_mcp_exchange [of d W c] by (simp add: spared_waited)

lemma spared_same_sessions: "trustletSessions d' = trustletSessions d \<Longrightarrow> spared k d d'"
  by (auto simp: spared_def)

lemma spared_with_session: "spared k d (with_session k f d)"
  by (force simp: spared_def with_session_def update_at_def)

lemma spared_closeInternal: "spared k d (snd (closeSessionInternal W s d))"
  using spared_exchange [of W "CmdClose (ts_sessionId s)" d]
  by (auto simp: closeSessionInternal_def sendSessionCloseCmd_def split: prod.split sum.split)

lemma spared_detach: "spared (ts_self s) d (detach_client s d)"
proof -
  have "spared (ts_self s) d (with_session (ts_self s) f (case x of None \<Rightarrow> d | Some nc \<Rightarrow> emit (ConnDelete nc) d))"
    for f x by (rule spared_trans [OF spared_same_sessions spared_with_session])
      (simp add: emit_def split: option.split)
  then show ?thesis by (simp add: detach_client_def)
qed

lemma spared_delete: "spared (ts_self s) d (delete_session s d)"
  by (cases "deleteTrustletSession s") (auto simp: spared_def delete_session_def emit_def)

lemma popAll_self: "ts_self (snd (popAll s)) = ts_self s"
proof (induction s rule: popAll.induct)
  case (1 s)
  obtain r s' where p: "popBulkBuff s = (r, s')" by force
  then have [simp]: "ts_self s' = ts_self s" by (auto simp: popBulkBuff_def split: list.splits)
  show ?case using 1 p by (subst popAll.simps) (auto split: option.split prod.split)
qed

lemma trustletSessions_unlocks:
  "trustletSessions (foldl (\<lambda>d w. snd (unlockWsmL2 W (wsm_handle w) d)) d ws) = trustletSessions d"
  by (induction ws arbitrary: d) (simp_all add: unlockWsmL2_def Let_def emit_def)

lemma spared_release: "spared (ts_self s) d (release_session W s d)"
proof -
  obtain ws s' where p: "popAll s = (ws, s')" by force
  with popAll_self [of s] have "ts_self s' = ts_self s" by simp
  with p show ?thesis using spared_trans [OF spared_same_sessions spared_delete [of s']]
    by (simp add: release_session_def trustletSessions_unlocks)
qed

lemma session_at_self: "session_at d k = Some s \<Longrightarrow> ts_self s = k \<and> s \<in> set (trustletSessions d)"
  by (auto simp: session_at_def dest: find_SomeD)

lemma spared_closeSession:
  assumes "findSession d c sid = Some s"
  shows "spared (ts_self s) d (snd (closeSession W c sid d))"
proof -
  let ?d0 = "if ts_gp_level s = 1 then detach_client s d else d"
  obtain r d1 where c1: "closeSessionInternal W s ?d0 = (r, d1)" by force
  obtain r2 d2 where c2: "closeSessionInternal W s d1 = (r2, d2)" by force
  have s1: "spared (ts_self s) d d1"
    using spared_closeInternal [of "ts_self s" ?d0 W s] c1 spared_detach spared_trans
    by (fastforce split: if_splits)
  have s2: "spared (ts_self s) d d2"
    using spared_trans [OF s1] spared_closeInternal [of "ts_self s" d1 W s] c2 by simp
  have now: "ts_self (case session_at e (ts_self s) of None \<Rightarrow> s | Some t \<Rightarrow> t) = ts_self s" for e
    using session_at_self by (auto split: option.split)
  have rel: "spared (ts_self s) d (release_session W (case session_at e (ts_self s) of None \<Rightarrow> s | Some t \<Rightarrow> t) e)"
    if "spared (ts_self s) d e" for e
    using spared_trans [OF that] spared_release [of "case session_at e (ts_self s) of None \<Rightarrow> s | Some t \<Rightarrow> t" e W]
    by (simp add: now)
  have em: "spared (ts_self s) d (emit AssertFailed d2)"
    by (rule spared_trans [OF s2 spared_same_sessions]) (simp add: emit_def)
  show ?thesis using assms c1 c2 s1 rel [OF s1] rel [OF s2] em
    by (simp add: closeSession_def Let_def)
qed

lemma spared_confined:
  assumes "dev_inv d" "s \<in> set (trustletSessions d)" "ts_deviceConnection s = Some c"
    and "spared (ts_self s) d d'"
  shows "confined c d d'"
proof -
  have "ts_self t \<noteq> ts_self s" if "t \<in> set (trustletSessions d)" "ts_deviceConnection t \<noteq> Some c" for t
    using assms(1-3) that by (metis dev_inv_def distinct_map inj_onD)
  with assms(4) show ?thesis by (simp add: spared_def confined_def)
qed

lemma confined_closeSession:
  assumes "dev_inv d" shows "confined c d (snd (closeSession W c sid d))"
proof (cases "findSession d c sid")
  case (Some s)
  then show ?thesis using spared_confined [OF assms _ _ spared_closeSession [OF Some]] findSessionD
    by blast
qed (simp add: closeSession_def)

lemma confined_close_loop: "dev_inv d \<Longrightarrow> confined c d (close_loop W c selves d)"
proof (induction W c selves d rule: close_loop.induct)
  case (2 W c self selves d)
  show ?case
  proof (cases "session_at d self")
    case (Some s)
    obtain r d1 where c: "closeSession W c (ts_sessionId s) d = (r, d1)" by force
    let ?d2 = "if length (trustletSessions d1) < length (trustletSessions d)
      then emit StaleIterator d1 else d1"
    have "confined c d ?d2"
      using confined_closeSession [OF 2(4), of c W "ts_sessionId s"] c by (simp add: confined_def)
    moreover have "dev_inv ?d2" using dev_inv_closeSession [OF 2(4), of W c "ts_sessionId s"] c by simp
    ultimately show ?thesis using Some c 2(2) [OF Some _ refl c [symmetric] refl] 2(3) [OF Some _ 2(4)]
      confined_trans [of c d ?d2] by (auto simp: Let_def)
  qed (use 2 in simp)
qed simp

lemma confined_same_sessions: "trustletSessions d' = trustletSessions d \<Longrightarrow> confined c d d'"
  by (auto simp: confined_def)

lemma confined_close_device:
  assumes "dev_inv d" shows "confined c d (close_device W c d)"
proof -
  have "confined c d (close_loop W c ks (emit MutexLock d))" for ks
    using confined_close_loop [of "emit MutexLock d" c W ks] assms by (simp add: confined_def)
  then show ?thesis
    by (simp add: close_device_def confined_def cleanupWsmL2_def Let_def emit_def)
qed

lemma confined_mapBulk:
  assumes "dev_inv d" shows "confined c d (snd (mapBulk W c sid h a ofs l d))"
proof (cases "findSession d c sid")
  case (Some s)
  have "spared (ts_self s) d d2" if "mcp_exchange W cmd (with_session (ts_self s) f d) = (r, d2)" for cmd f r d2
    using spared_trans [OF spared_with_session spared_exchange [OF that]] .
  then have "spared (ts_self s) d (snd (mapBulk W c sid h a ofs l d))"
    using Some by (auto simp: mapBulk_def Let_def split: sum.split prod.split)
  with spared_confined [OF assms] findSessionD [OF Some] show ?thesis by blast
qed (simp add: mapBulk_def)

lemma confined_unmapBulk:
  assumes "dev_inv d" shows "confined c d (snd (unmapBulk W c sid h v l d))"
proof (cases "findSession d c sid")
  case (Some s)
  have "spared (ts_self s) d (with_session (ts_self s) f d2)" "spared (ts_self s) d d2"
    if "mcp_exchange W cmd d = (r, d2)" for cmd f r d2
    using spared_trans [OF spared_exchange [OF that] spared_with_session] spared_exchange [OF that] .
  then have "spared (ts_self s) d (snd (unmapBulk W c sid h v l d))"
    using Some by (auto simp: unmapBulk_def Let_def split: sum.split prod.split)
  with spared_confined [OF assms] findSessionD [OF Some] show ?thesis by blast
qed (simp add: unmapBulk_def)

lemma tci_resolve_sessions:
  "tci_resolve W c h l ofs d = (r, d1) \<Longrightarrow> trustletSessions d1 = trustletSessions d"
  by (auto simp: tci_resolve_def Let_def dev_simps split: option.splits if_splits prod.splits)

text \<open>The four ways through \<open>openSession\<close>.\<close>

lemma openSessionE:
  assumes "openSession W c ld h l ofs d = (r, d')"
  obtains (unresolved) e where "tci_resolve W c h l ofs d = (Inl e, d')" "r = Inl e"
  | (short) ty adr of' n where "tci_resolve W c h l ofs d = (Inr (ty, adr, of', n), d')"
      "h \<noteq> 0 \<and> l = 0 \<or> n < l" "r = Inl MC_DRV_ERR_TCI_GREATER_THAN_WSM"
  | (failed) ty adr of' n d1 cmd x d2 e where
      "tci_resolve W c h l ofs d = (Inr (ty, adr, of', n), d1)"
      "\<not> (h \<noteq> 0 \<and> l = 0 \<or> n < l)"
      "mcp_exchange W (CmdOpen cmd) (d1\<lparr>notifications := []\<rparr>) = (x, d2)"
      "r = Inl e" "d' = unlock_tci W h l d2"
  | (opened) ty adr of' n d1 cmd rsp d2 p where
      "tci_resolve W c h l ofs d = (Inr (ty, adr, of', n), d1)"
      "\<not> (h \<noteq> 0 \<and> l = 0 \<or> n < l)"
      "mcp_exchange W (CmdOpen cmd) (d1\<lparr>notifications := []\<rparr>) = (Inr rsp, d2)"
      "rspResult rsp = MC_MCP_RET_OK" "r = Inr p"
      "add_session W c ld h l (rsp_sessionId rsp) d2 = (p, d')"
proof -
  obtain q d1 where t: "tci_resolve W c h l ofs d = (q, d1)" by force
  show ?thesis
  proof (cases q)
    case (Inr v)
    obtain ty adr of' n where v: "v = (ty, adr, of', n)" by (metis prod_cases4)
    define cmd where "cmd = \<lparr>open_uuid = h_uuid (ld_tlHeader ld), adrTciBuffer = adr,
       adrLoadData = ld_baseAddr ld, ofsTciBuffer = of', lenTciBuffer = l,
       wsmTypeTci = ty, wsmTypeLoadData = WSM_L2, ofsLoadData = ld_offs ld,
       lenLoadData = ld_len ld, open_tlHeader = ld_tlHeader ld\<rparr>"
    obtain x d2 where e: "mcp_exchange W (CmdOpen cmd) (d1\<lparr>notifications := []\<rparr>) = (x, d2)" by force
    show ?thesis
    proof (cases "h \<noteq> 0 \<and> l = 0 \<or> n < l")
      case True
      then show ?thesis using assms t Inr v by (intro short) (auto simp: openSession_def)
    next
      case False
      note eq = assms [unfolded openSession_def, simplified t Inr v, simplified,
          folded cmd_def, unfolded e Let_def]
      show ?thesis
      proof (cases "\<exists>rsp. x = Inr rsp \<and> rspResult rsp = MC_MCP_RET_OK")
        case True
        then show ?thesis using eq False t Inr v e opened
          by (auto split: prod.splits)
      next
        case f: False
        have "\<exists>e. r = Inl e \<and> d' = unlock_tci W h l d2"
          using eq False f by (auto split: sum.splits if_splits)
        with failed [OF t [unfolded Inr v] False e] show ?thesis by blast
      qed
    qed
  qed (use assms t unresolved in \<open>simp add: openSession_def\<close>)
qed

lemma confined_openSession: "confined c d (snd (openSession W c ld h l ofs d))"
proof -
  obtain r d' where o: "openSession W c ld h l ofs d = (r, d')" by force
  have ex: "confined c d d2" if "tci_resolve W c h l ofs d = (q, d1)"
    "mcp_exchange W cmd (d1\<lparr>notifications := []\<rparr>) = (x, d2)" for q d1 cmd x d2
  proof (rule confined_trans)
    show "confined c d (d1\<lparr>notifications := []\<rparr>)"
      using tci_resolve_sessions [OF that(1)] by (intro confined_same_sessions) simp
    show "confined c (d1\<lparr>notifications := []\<rparr>) d2"
      using confined_waited [OF waited_mcp_exchange, of c "d1\<lparr>notifications := []\<rparr>" W cmd] that(2)
      by simp
  qed
  from o show ?thesis
  proof (cases rule: openSessionE)
    case (failed ty adr of' n d1 cmd x d2 e)
    with ex o show ?thesis
      by (fastforce simp: confined_def unlock_tci_def unlockWsmL2_def Let_def)
  next
    case (opened ty adr of' n d1 cmd rsp d2 p)
    with ex o show ?thesis by (fastforce simp: confined_def add_session_eq)
  qed (use o tci_resolve_sessions in \<open>auto intro: confined_same_sessions\<close>)
qed
end
