(* ===== verification/McSessions.thy ===== *)
theory McSessions
  imports McDeviceLaws
begin

text \<open>
  The properties of the device: its invariant over every run, isolation of clients, the locks
  a session holds from open to close, the cleanup of dead sessions, the bounded wait for the
  secure world and the routing of its notifications.
\<close>

section \<open>Locks held on world shared memory\<close>

definition lock_change :: "u32 \<Rightarrow> ev \<Rightarrow> int" where
  "lock_change h e = (case e of KmodLock g r \<Rightarrow> if g = h \<and> r = 0 then 1 else 0
                      | KmodUnlock g _ \<Rightarrow> if g = h then -1 else 0 | _ \<Rightarrow> 0)"

definition locks :: "u32 \<Rightarrow> dev \<Rightarrow> int" where
  "locks h d = sum_list (map (lock_change h) (hist d))"

lemma locks_emit [simp]: "locks h (emit e d) = locks h d + lock_change h e"
  by (simp add: locks_def emit_def)

lemma lock_change_simps [simp]:
  "lock_change h (KmodLock g r) = (if g = h \<and> r = 0 then 1 else 0)"
  "lock_change h (KmodUnlock g r) = (if g = h then -1 else 0)"
  "waiting_event e \<Longrightarrow> lock_change h e = 0"
  "lock_change h (NewObject k) = 0" "lock_change h (DeleteObject k) = 0"
  "lock_change h (Rand m) = 0" "lock_change h (ConnDelete c) = 0"
  "lock_change h (KmodFindL2 g fd a) = 0" "lock_change h (KmodFindContiguous g fd x) = 0"
  "lock_change h AssertFailed = 0" "lock_change h StaleIterator = 0"
  by (cases e; simp add: lock_change_def)+

lemma locks_frame [simp]:
  "locks h (d\<lparr>notifications := ns\<rparr>) = locks h d"
  "locks h (d\<lparr>trustletSessions := ss\<rparr>) = locks h d"
  "locks h (with_session k f d) = locks h d"
  by (simp_all add: locks_def with_session_def)

lemma locks_waited:
  assumes "waited d d'" shows "locks h d' = locks h d"
proof -
  obtain es where "hist d' = hist d @ es" "list_all waiting_event es"
    using assms by (auto simp: waited_def)
  moreover from this(2) have "sum_list (map (lock_change h) es) = 0" by (induction es) auto
  ultimately show ?thesis by (simp add: locks_def)
qed

lemma locks_exchange: "mcp_exchange W c d = (r, d') \<Longrightarrow> locks h d' = locks h d"
  using locks_waited [OF waited_mcp_exchange, of h W c d] by simp

lemma locks_unlock_tci:
  "locks g (unlock_tci W h l d) = locks g d - (if g = h \<and> h \<noteq> 0 \<and> l \<noteq> 0 then 1 else 0)"
  by (auto simp: unlock_tci_def unlockWsmL2_def Let_def)

lemma locks_tci_resolve:
  "tci_resolve W c h l ofs d = (r, d') \<Longrightarrow>
     locks g d' = locks g d + (if g = h \<and> h \<noteq> 0 \<and> l \<noteq> 0 \<and> (\<exists>x. r = Inr x) then 1 else 0)"
  by (auto simp: tci_resolve_def findContiguousWsm_def findWsmL2_def lockWsmL2_def Let_def
      split: option.splits if_splits prod.splits)

lemma locks_add_session: "add_session W c ld h l sid d = (p, d') \<Longrightarrow> locks g d' = locks g d"
  by (auto simp: add_session_eq locks_def)

text \<open>The TCI buffer was found, but it is a contiguous one shorter than the client says.\<close>

definition tci_too_short :: "world \<Rightarrow> conn \<Rightarrow> u32 \<Rightarrow> u32 \<Rightarrow> u32 \<Rightarrow> dev \<Rightarrow> bool" where
  "tci_too_short W c h l ofs d \<longleftrightarrow>
     (case fst (tci_resolve W c h l ofs d) of Inr (_, _, _, n) \<Rightarrow> n < l | Inl _ \<Rightarrow> False)"

lemma openSession_lock_balance:
  assumes "openSession W c ld h l ofs d = (r, d')"
  shows "locks g d' = locks g d +
    (if g = h \<and> h \<noteq> 0 \<and> l \<noteq> 0 \<and> (tci_too_short W c h l ofs d \<or> (\<exists>p. r = Inr p)) then 1 else 0)"
  using assms
proof (cases rule: openSessionE)
  case (unresolved e)
  then show ?thesis by (simp add: locks_tci_resolve tci_too_short_def)
next
  case (short ty adr of' n)
  then show ?thesis by (auto simp: locks_tci_resolve [of W c h l ofs d _ d'] tci_too_short_def)
next
  case (failed ty adr of' n d1 cmd x d2 e)
  then show ?thesis
    using locks_tci_resolve [OF failed(1), of g] locks_exchange [OF failed(3), of g]
    by (simp add: locks_unlock_tci tci_too_short_def)
next
  case (opened ty adr of' n d1 cmd rsp d2 p)
  then show ?thesis
    using locks_tci_resolve [OF opened(1), of g] locks_exchange [OF opened(3), of g]
      locks_add_session [OF opened(6), of g]
    by simp
qed

section \<open>Opening and closing\<close>

lemma list_all2_notified_erase:
  "list_all2 notified xs ys \<Longrightarrow> list_all2 notified (erase_at ts_self k xs) (erase_at ts_self k ys)"
  by (induction rule: list_all2_induct) (simp_all add: notifiedD)

lemma waited_closeInternal: "waited d (snd (closeSessionInternal W s d))"
  using waited_mcp_exchange [of d W "CmdClose (ts_sessionId s)"]
  by (auto simp: closeSessionInternal_def sendSessionCloseCmd_def split: prod.split sum.split)

lemma find_notified:
  assumes "list_all2 notified xs ys" "\<And>s t. notified s t \<Longrightarrow> P t = P s"
  shows "(case find P xs of None \<Rightarrow> find P ys = None
          | Some s \<Rightarrow> (\<exists>t. find P ys = Some t \<and> notified s t))"
  using assms(1)
proof (induction rule: list_all2_induct)
  case (Cons x xs y ys)
  then show ?case using assms(2) by (auto split: option.splits)
qed simp

lemma session_at_waited:
  assumes "waited d d'" "session_at d k = Some s"
  obtains t where "session_at d' k = Some t" "notified s t"
  using find_notified [OF waited_list_all2 [OF assms(1)], of "\<lambda>s. ts_self s = k"] assms(2) notifiedD(1)
  by (auto simp: session_at_def)

lemma session_at_unique:
  assumes "dev_inv d" "s \<in> set (trustletSessions d)"
  shows "session_at d (ts_self s) = Some s"
proof -
  have "distinct (map ts_self xs) \<Longrightarrow> s \<in> set xs \<Longrightarrow> find (\<lambda>t. ts_self t = ts_self s) xs = Some s" for xs
    by (induction xs) auto
  then show ?thesis using assms by (simp add: session_at_def dev_inv_def)
qed

lemma locks_unlocks:
  "locks g (foldl (\<lambda>d w. snd (unlockWsmL2 W (wsm_handle w) d)) d ws)
     = locks g d - int (length (filter (\<lambda>w. wsm_handle w = g) ws))"
  by (induction ws arbitrary: d) (simp_all add: unlockWsmL2_def Let_def)

lemma locks_delete: "locks g (delete_session s d) = locks g d"
  by (simp add: delete_session_def Let_def split: option.split)

lemma buffers_of_handle:
  assumes "ts_inv s"
  shows "length (filter (\<lambda>w. wsm_handle w = g) (map snd (ts_buffers s)))
    = (if map_of (ts_buffers s) g = None then 0 else 1)"
proof -
  have "\<lbrakk>distinct (map fst m); \<forall>(k, w) \<in> set m. wsm_handle w = k\<rbrakk> \<Longrightarrow>
      length (filter (\<lambda>w. wsm_handle w = g) (map snd m)) = (if map_of m g = None then 0 else 1)"
    for m :: "(u32 \<times> CWsm) list"
  proof (induction m)
    case (Cons e m)
    obtain k w where e: "e = (k, w)" by force
    have "filter (\<lambda>w. wsm_handle w = g) (map snd m) = []" if "g \<notin> fst ` set m"
      using that Cons(3) by (force simp: filter_empty_conv)
    then show ?case using Cons e by (auto simp: map_of_eq_None_iff image_iff)
  qed simp
  moreover have "distinct (map fst (ts_buffers s))"
    using assms strict_sorted_iff by (auto simp: ts_inv_def smap_inv_def)
  ultimately show ?thesis using assms by (simp add: ts_inv_def)
qed

lemma release_session_spec:
  assumes "ts_inv s"
  shows "trustletSessions (release_session W s d) = erase_at ts_self (ts_self s) (trustletSessions d)"
    and "locks g (release_session W s d) =
      locks g d - (if map_of (ts_buffers s) g = None then 0 else 1)"
  using buffers_of_handle [OF assms, of g]
  by (simp_all add: release_session_def popAll_all [OF assms] locks_delete locks_unlocks
      delete_session_def trustletSessions_unlocks Let_def split: option.split)

lemma session_inv: "dev_inv d \<Longrightarrow> s \<in> set (trustletSessions d) \<Longrightarrow> ts_inv s"
  by (simp add: dev_inv_def session_ok_def)

lemma closeSession_result:
  assumes inv: "dev_inv d" and s: "findSession d c sid = Some s" "ts_gp_level s \<noteq> 1"
    and cl: "closeSession W c sid d = (r, d')"
  shows "if r = MC_MCP_RET_OK
    then list_all2 notified (erase_at ts_self (ts_self s) (trustletSessions d)) (trustletSessions d')
      \<and> locks g d' = locks g d - (if map_of (ts_buffers s) g = None then 0 else 1)
    else list_all2 notified (trustletSessions d) (trustletSessions d') \<and> locks g d' = locks g d"
proof -
  obtain r1 d1 where c1: "closeSessionInternal W s d = (r1, d1)" by force
  have w: "waited d d1" using waited_closeInternal [of d W s] c1 by simp
  have sm: "s \<in> set (trustletSessions d)" by (rule findSessionD(1) [OF s(1)])
  obtain t where t: "session_at d1 (ts_self s) = Some t" "notified s t"
    by (rule session_at_waited [OF w session_at_unique [OF inv sm]])
  have tv: "ts_inv t" "ts_self t = ts_self s" "ts_buffers t = ts_buffers s"
    using notifiedD [OF t(2)] session_inv [OF inv sm] by auto
  show ?thesis
  proof (cases "r1 = 0")
    case True
    then have "d' = release_session W t d1" "r = 0"
      using cl s c1 t by (simp_all add: closeSession_def Let_def)
    then show ?thesis
      using release_session_spec(1) [OF tv(1), of W d1] release_session_spec(2) [OF tv(1), of g W d1] tv(2,3) locks_waited [OF w, of g]
        list_all2_notified_erase [OF waited_list_all2 [OF w], of "ts_self s"] by simp
  next
    case False
    then have "d' = d1" "r = MAKE_MC_DRV_MCP_ERROR r1"
      using cl s c1 by (simp_all add: closeSession_def Let_def)
    then show ?thesis using locks_waited [OF w, of g] waited_list_all2 [OF w] by simp
  qed
qed

lemma detach_client_self:
  "t \<in> set (trustletSessions (detach_client s d)) \<Longrightarrow> ts_self t = ts_self s \<Longrightarrow>
     ts_deviceConnection t = None"
  by (auto simp: detach_client_def with_session_def update_at_def split: option.splits if_splits)

text \<open>Session \<open>k\<close> has no client any more.\<close>

definition clientless :: "nat \<Rightarrow> dev \<Rightarrow> bool" where
  "clientless k d \<longleftrightarrow>
     (\<forall>t \<in> set (trustletSessions d). ts_self t = k \<longrightarrow> ts_deviceConnection t = None)"

lemma clientless_waited: "waited d d' \<Longrightarrow> clientless k d \<Longrightarrow> clientless k d'"
proof (drule waited_list_all2)
  show "list_all2 notified (trustletSessions d) (trustletSessions d') \<Longrightarrow>
      clientless k d \<Longrightarrow> clientless k d'"
    unfolding clientless_def
    by (induction rule: list_all2_induct) (auto simp: notifiedD)
qed

lemma clientless_release: "clientless k d \<Longrightarrow> clientless k (release_session W s d)"
  by (auto simp: clientless_def release_session_def delete_session_def trustletSessions_unlocks
      Let_def split: prod.split option.split)

lemma closeSession_clientless:
  assumes "findSession d c sid = Some s" "ts_gp_level s = 1"
  shows "clientless (ts_self s) (snd (closeSession W c sid d))"
proof -
  let ?k = "ts_self s"
  obtain r1 d1 where c1: "closeSessionInternal W s (detach_client s d) = (r1, d1)" by force
  obtain r2 d2 where c2: "closeSessionInternal W s d1 = (r2, d2)" by force
  have "clientless ?k (detach_client s d)" using detach_client_self by (auto simp: clientless_def)
  from clientless_waited [OF waited_closeInternal this, of W s] c1 have 1: "clientless ?k d1" by simp
  from clientless_waited [OF waited_closeInternal this, of W s] c2 have 2: "clientless ?k d2" by simp
  have "clientless ?k (emit AssertFailed d2)" using 2 by (simp add: clientless_def)
  with 1 2 show ?thesis
    using assms c1 c2 by (simp add: closeSession_def Let_def clientless_release)
qed

lemma openSession_opened:
  assumes "openSession W c ld h l ofs d = (Inr p, d')"
  obtains ss m self ns where
    "list_all2 notified (trustletSessions d) ss"
    "trustletSessions d' = ss @ [opened_session self m c ld h l (pl_sessionId p) ns]"
    "\<not> tci_too_short W c h l ofs d" "pl_deviceSessionId p = of_nat self" "pl_sessionMagic p = m"
    "self = new_object W (butlast (butlast (hist d'))) (map ts_self (trustletSessions d))"
  using assms
proof (cases rule: openSessionE)
  case (opened ty adr of' n d1 cmd rsp d2 q)
  let ?ns = "notifications d2"
  have w: "list_all2 notified (trustletSessions d) (trustletSessions d2)"
    using waited_list_all2 [OF waited_mcp_exchange, of "d1\<lparr>notifications := []\<rparr>" W "CmdOpen cmd"]
      opened(3) tci_resolve_sessions [OF opened(1)] by simp
  from opened(6) map_ts_self_notified [OF w] that [OF w] opened(1,2,5) show ?thesis
    by (auto simp: add_session_eq tci_too_short_def butlast_append)
qed simp_all

section \<open>Waiting is bounded\<close>

definition waits :: "dev \<Rightarrow> nat" where
  "waits d = length (filter (\<lambda>e. e = McpWait) (hist d))"

lemma waits_emit [simp]: "waits (emit e d) = waits d + (if e = McpWait then 1 else 0)"
  by (simp add: waits_def emit_def)

lemma waits_frame [simp]:
  "waits (d\<lparr>nq := q\<rparr>) = waits d" "waits (d\<lparr>mcpSem := k\<rparr>) = waits d"
  "waits (d\<lparr>schedSem := k\<rparr>) = waits d" "waits (d\<lparr>taSem := k\<rparr>) = waits d"
  "waits (d\<lparr>irqExiting := b\<rparr>) = waits d" "waits (d\<lparr>mcFault := b\<rparr>) = waits d"
  "waits (d\<lparr>notifications := ns\<rparr>) = waits d" "waits (with_session i f d) = waits d"
  "waits (d\<lparr>mcpMessage := m\<rparr>) = waits d"
  by (simp_all add: waits_def with_session_def)

lemma waits_handle_notification [simp]: "waits (handle_notification n d) = waits d"
  by (simp add: handle_notification_def queueUnknownNotification_def Let_def split: option.split)

lemma waits_irq_drain [simp]: "waits (irq_drain d) = waits d"
  by (induction d rule: irq_drain.induct)
    (subst irq_drain.simps, simp split: prod.split option.split)

lemma waits_handleIrq [simp]: "waits (handleIrq rs d) = waits d"
  by (induction rs d rule: handleIrq.induct) (simp_all add: Let_def)

lemma waits_mcp_wait: "mcp_wait W d = (ok, d') \<Longrightarrow> waits d' = Suc (waits d)"
  by (auto simp: mcp_wait_def Let_def split: if_splits)

lemma waits_fcInfo: "waits (snd (fcInfo W i d)) = waits d"
  by (simp add: fcInfo_def Let_def)

lemma waits_dump: "waits (dumpMobicoreStatus W d) = waits d"
proof -
  have "waits (foldl (\<lambda>d i. snd (fcInfo W (of_nat i) d)) d xs) = waits d" for xs :: "nat list"
    by (induction xs arbitrary: d) (simp_all add: waits_fcInfo)
  then show ?thesis unfolding dumpMobicoreStatus_def .
qed

lemma wait_loop_result:
  "wait_loop W k d = (ok, d') \<Longrightarrow>
     waits d' \<le> waits d + k \<and> (\<not> ok \<longrightarrow> mcFault d') \<and> (mcFault d \<longrightarrow> \<not> ok \<and> (k > 0 \<longrightarrow> d' = d))"
proof (induction W k d rule: wait_loop.induct)
  case (2 W k d)
  obtain got d1 where w: "mcp_wait W d = (got, d1)" by force
  obtain st d2 where i: "fcInfo W 0 d1 = (st, d2)" by force
  have "waits d2 = Suc (waits d)" using waits_mcp_wait [OF w] waits_fcInfo [of W 0 d1] i by simp
  moreover have "mcFault d \<Longrightarrow> wait_loop W (Suc k) d = (False, d)" by simp
  ultimately show ?case using 2 w i waits_mcp_wait [OF w]
    by (auto simp: getMobicoreStatus_def waits_dump split: if_splits)
qed (auto simp: waits_def)

lemma waits_notify_swd [simp]: "waits (notify_swd W sid d) = waits d"
  by (simp add: notify_swd_def nsiq_def Let_def)

lemma mcFault_notify_swd [simp]: "mcFault (notify_swd W sid d) = mcFault d"
  by (simp add: notify_swd_def nsiq_def Let_def emit_def)

lemma mcFault_frame [simp]: "mcFault (emit e d) = mcFault d" "mcFault (d\<lparr>mcpMessage := m\<rparr>) = mcFault d"
  by (simp_all add: emit_def)

lemma exchange_bounded:
  assumes "mcp_exchange W c d = (r, d')"
  shows "waits d' \<le> waits d + 5"
    and "mcFault d \<Longrightarrow> r = Inl MC_DRV_ERR_DAEMON_MCI_ERROR \<and> mcFault d' \<and> waits d' = waits d"
    and "r = Inr rsp \<Longrightarrow> rspId rsp = (cmdId c OR FLAG_RESPONSE) \<and> rsp = sw_rsp W (hist d')
           \<and> \<not> irqExiting d'"
proof -
  let ?d = "notify_swd W SID_MCP (emit (McpSent c) (d\<lparr>mcpMessage := c\<rparr>))"
  obtain ok d1 where l: "wait_loop W 5 ?d = (ok, d1)" by force
  note b = wait_loop_result [OF l]
  have [simp]: "d' = d1"
    and r: "r = (if ok \<and> \<not> irqExiting d1 \<and> \<not> schedExiting d1 \<and> \<not> taExiting d1 then
             if rspId (sw_rsp W (hist d1)) \<noteq> (cmdId c OR FLAG_RESPONSE)
             then Inl MC_DRV_ERR_DAEMON_MCI_ERROR else Inr (sw_rsp W (hist d1))
           else Inl MC_DRV_ERR_DAEMON_MCI_ERROR)"
    using assms l by (auto simp: mcp_exchange_def mshNotifyAndWait_def waitMcpNotification_def
        Let_def split: if_splits)
  show "waits d' \<le> waits d + 5" using b by simp
  show "mcFault d \<Longrightarrow> r = Inl MC_DRV_ERR_DAEMON_MCI_ERROR \<and> mcFault d' \<and> waits d' = waits d"
    using b r by simp
  show "r = Inr rsp \<Longrightarrow> rspId rsp = (cmdId c OR FLAG_RESPONSE) \<and> rsp = sw_rsp W (hist d')
           \<and> \<not> irqExiting d'"
    using r by (simp split: if_splits)
qed

section \<open>Where notifications go\<close>

text \<open>The session that takes a notification into its own queue: known, not connected.\<close>

definition queued_at :: "dev \<Rightarrow> nat \<Rightarrow> notification_t \<Rightarrow> bool" where
  "queued_at d k n \<longleftrightarrow> nq_sessionId n \<noteq> SID_MCP \<and>
     (\<exists>s. getTrustletSession d (nq_sessionId n) = Some s \<and> ts_self s = k
          \<and> ts_notificationConnection s = None)"

definition delivery :: "dev \<Rightarrow> notification_t \<Rightarrow> ev option" where
  "delivery d n =
     (if nq_sessionId n = SID_MCP then None
      else case getTrustletSession d (nq_sessionId n) of
        None \<Rightarrow> None
      | Some s \<Rightarrow> map_option (\<lambda>c. ConnWrite c (notification_wire n)) (ts_notificationConnection s))"

definition unknown_to :: "dev \<Rightarrow> notification_t \<Rightarrow> bool" where
  "unknown_to d n \<longleftrightarrow> nq_sessionId n \<noteq> SID_MCP \<and> getTrustletSession d (nq_sessionId n) = None"

text \<open>The device after the interrupt thread has taken the notifications \<open>ns\<close> out of the queue.\<close>

definition routed :: "dev \<Rightarrow> notification_t list \<Rightarrow> dev \<Rightarrow> bool" where
  "routed d ns d' \<longleftrightarrow>
     trustletSessions d' =
       map (\<lambda>s. foldl queueNotification s (filter (queued_at d (ts_self s)) ns)) (trustletSessions d)
     \<and> notifications d' = notifications d @ filter (unknown_to d) ns
     \<and> hist d' = hist d @ List.map_filter (delivery d) ns
     \<and> mcpSem d' = mcpSem d + length (filter (\<lambda>n. nq_sessionId n = SID_MCP) ns)"

lemma getTrustletSession_map:
  assumes "\<And>s. ts_sessionId (f s) = ts_sessionId s" "trustletSessions d' = map f (trustletSessions d)"
  shows "getTrustletSession d' sid = map_option f (getTrustletSession d sid)"
proof -
  have "find (\<lambda>s. ts_sessionId s = sid) (map f xs) = map_option f (find (\<lambda>s. ts_sessionId s = sid) xs)"
    for xs using assms(1) by (induction xs) auto
  then show ?thesis using assms(2) by (simp add: getTrustletSession_def)
qed

lemma routed_same_targets:
  assumes "routed d ns d'"
  shows "queued_at d' = queued_at d" "delivery d' = delivery d" "unknown_to d' = unknown_to d"
proof -
  have "getTrustletSession d' sid = map_option
      (\<lambda>s. foldl queueNotification s (filter (queued_at d (ts_self s)) ns)) (getTrustletSession d sid)"
    for sid
    by (rule getTrustletSession_map) (use assms in \<open>simp_all add: routed_def foldl_queueNotification_frame\<close>)
  then show "queued_at d' = queued_at d" "delivery d' = delivery d" "unknown_to d' = unknown_to d"
    by (auto simp: fun_eq_iff queued_at_def delivery_def unknown_to_def
        foldl_queueNotification_frame split: option.split)
qed

lemma routed_one: "routed d [n] (handle_notification n d)"
proof (cases "nq_sessionId n = SID_MCP")
  case True
  then show ?thesis
    by (simp add: routed_def handle_notification_def queued_at_def unknown_to_def delivery_def
        map_filter_simps)
next
  case False
  have upd: "map (\<lambda>s. foldl queueNotification s (if queued_at d (ts_self s) n then [n] else [])) xs
      = update_at ts_self k (\<lambda>s. queueNotification s n) xs"
    if "\<And>j. queued_at d j n = (j = k)" for k xs
    using that by (simp add: update_at_def)
  show ?thesis
  proof (cases "getTrustletSession d (nq_sessionId n)")
    case None
    with False show ?thesis
      by (simp add: routed_def handle_notification_def queued_at_def unknown_to_def delivery_def
          map_filter_simps queueUnknownNotification_def)
  next
    case (Some s)
    have q: "queued_at d j n = (j = ts_self s \<and> ts_notificationConnection s = None)" for j
      using False Some by (auto simp: queued_at_def)
    show ?thesis
    proof (cases "ts_notificationConnection s")
      case None
      with q have "queued_at d j n = (j = ts_self s)" for j by simp
      from upd [OF this] False Some None show ?thesis
        by (simp add: routed_def handle_notification_def unknown_to_def delivery_def
            map_filter_simps with_session_def Let_def cong: if_cong)
    next
      case c: (Some c)
      with q have "\<not> queued_at d j n" for j by simp
      with False Some c show ?thesis
        by (simp add: routed_def handle_notification_def unknown_to_def delivery_def
            map_filter_simps emit_def)
    qed
  qed
qed

lemma routed_append:
  assumes a: "routed d ns d1" and b: "routed d1 ms d2"
  shows "routed d (ns @ ms) d2"
  using a b [unfolded routed_def routed_same_targets [OF a]]
  by (simp add: routed_def foldl_queueNotification_frame map_filter_def comp_def)

lemma ring_get_items:
  "ring_get q = (if ring_items q = [] then (None, q)
     else (Some (hd (ring_items q)), q\<lparr>readCnt := readCnt q + 1\<rparr>))"
  by (rule ring_get_eq)

lemma routed_nq: "routed (d\<lparr>nq := q\<rparr>) ns d' = routed d ns d'"
proof -
  have "queued_at (d\<lparr>nq := q\<rparr>) = queued_at d" "delivery (d\<lparr>nq := q\<rparr>) = delivery d"
    "unknown_to (d\<lparr>nq := q\<rparr>) = unknown_to d"
    by (simp_all add: fun_eq_iff queued_at_def delivery_def unknown_to_def getTrustletSession_def)
  then show ?thesis by (simp add: routed_def)
qed

lemma irq_drain_routes:
  "routed d (ring_items (nq_in (nq d))) (irq_drain d) \<and> ring_items (nq_in (nq (irq_drain d))) = []"
proof (induction d rule: irq_drain.induct)
  case (1 d)
  let ?q = "nq_in (nq d)"
  show ?case
  proof (cases "ring_items ?q = []")
    case True
    then have "irq_drain d = d"
      by (subst irq_drain.simps) (simp add: getNotification_def ring_get_items)
    then show ?thesis using True
      by (simp add: routed_def map_filter_def comp_def)
  next
    case False
    let ?n = "hd (ring_items ?q)" and ?q' = "(nq d)\<lparr>nq_in := ?q\<lparr>readCnt := readCnt ?q + 1\<rparr>\<rparr>"
    have g: "getNotification (nq d) = (Some ?n, ?q')"
      using False by (simp add: getNotification_def ring_get_items)
    let ?d1 = "handle_notification ?n (d\<lparr>nq := ?q'\<rparr>)"
    have e: "irq_drain d = irq_drain ?d1" using g by (subst irq_drain.simps) simp
    have t: "ring_items (nq_in (nq ?d1)) = tl (ring_items ?q)"
      using ring_items_advance [OF False] by simp
    have "routed d [?n] ?d1" using routed_one [of "d\<lparr>nq := ?q'\<rparr>"] by (simp add: routed_nq)
    from routed_append [OF this] 1 [OF g [symmetric] refl] t False show ?thesis
      unfolding e by fastforce
  qed
qed
end
