(* ===== verification/McProperties.thy ===== *)
theory McProperties
  imports McSessions
begin

text \<open>
  The properties of the device, each with a witness that applies it to a concrete device and
  environment.
\<close>

section \<open>Devices and environments for the witnesses\<close>

definition sample_ring :: notificationQueue_t where
  "sample_ring = \<lparr>writeCnt = 0, readCnt = 0, queueSize = 2,
     slots = [\<lparr>nq_sessionId = 0, nq_payload = 0\<rparr>, \<lparr>nq_sessionId = 0, nq_payload = 0\<rparr>]\<rparr>"

definition sample_queue :: NotificationQueue where
  "sample_queue = \<lparr>nq_in = sample_ring, nq_out = sample_ring\<rparr>"

definition sample_session :: "nat \<Rightarrow> conn \<Rightarrow> u32 \<Rightarrow> u32 \<Rightarrow> TrustletSession" where
  "sample_session self c sid gp = (newTrustletSession self 77 c sid)\<lparr>ts_gp_level := gp\<rparr>"

text \<open>Client 1 has session 5, client 2 the GP session 6.\<close>

definition sample_dev :: dev where
  "sample_dev = (newDevice sample_queue False)
     \<lparr>trustletSessions := [sample_session 100 1 5 0, sample_session 200 2 6 1]\<rparr>"

definition sample_header :: mclfHeader_t where
  "sample_header = \<lparr>h_magic = 0, h_version = 0, h_flags = 0, h_memType = 0, h_serviceType = 0,
     h_numInstances = 0, h_uuid = [], h_driverId = 0, h_numThreads = 0,
     h_text = \<lparr>seg_start = 0, seg_len = 0\<rparr>, h_data = \<lparr>seg_start = 0, seg_len = 0\<rparr>, h_bssLen = 0,
     h_entry = 0, h_serviceVersion = 0, h_permittedSuid = [], h_permittedHwCfg = 0,
     h_gp_level = 0, h_attestationOffset = 0\<rparr>"

definition sample_load :: loadDataOpenSession_t where
  "sample_load = \<lparr>ld_baseAddr = 0, ld_offs = 0, ld_len = 64, ld_tlHeader = sample_header\<rparr>"

text \<open>A kernel module that knows one contiguous buffer of 32 bytes.\<close>

definition buffer_world :: world where
  "buffer_world = (answering 0 9 [] quiet_world)
     \<lparr>kmod_findContiguousWsm := (\<lambda>_ h _. if h = 3 then Some (0x8000, 32) else None)\<rparr>"

lemma ring_inv_sample [simp]: "ring_inv sample_ring"
  by (auto simp: ring_inv_def ring_count_def sample_ring_def intro!: exI [of _ 1])

lemma dev_inv_sample [simp]: "dev_inv sample_dev"
  by (simp add: dev_inv_def sample_dev_def newDevice_def sample_queue_def session_ok_def
      sample_session_def newTrustletSession_def ts_inv_def smap_inv_def)

lemma new_fresh_buffer [simp]: "new_fresh buffer_world"
  using new_fresh_quiet by (simp add: buffer_world_def new_fresh_def answering_def)

section \<open>Invariant and isolation\<close>

text \<open>
  C3: in every state the device can reach, whatever the clients, the kernel module and the secure
  world do, the session objects have distinct addresses, their buffer maps are well-formed, a
  session that lost its client belongs to a GP trusted application that is closing or dead,
  and both notification queues keep their counters within their size.
\<close>

theorem device_invariant:
  assumes "new_fresh W" "ring_inv (nq_in q)" "ring_inv (nq_out q)"
    and "(dev_step W)\<^sup>*\<^sup>* (newDevice q reused) d"
  shows "dev_inv d"
  using assms(4)
proof (induction rule: rtranclp_induct)
  case base
  show ?case using assms(2,3) by (simp add: dev_inv_def newDevice_def)
next
  case (step d d')
  then show ?case using dev_inv_step [OF assms(1)] by blast
qed

theorem device_invariant_witness:
  "dev_inv (snd (openSession buffer_world 1 sample_load 3 16 0 (newDevice sample_queue False)))"
  by (rule device_invariant [of buffer_world sample_queue False])
    (auto simp: sample_queue_def intro!: r_into_rtranclp step_openSession)

text \<open>
  no request of one client reaches the sessions of another. Whatever connection \<open>c\<close> asks
  for, every session that \<open>c\<close> does not own is still there afterwards and has at most received
  notifications.
\<close>

theorem clients_isolated:
  assumes "dev_inv d"
    and "d' \<in> {snd (closeSession W c sid d), close_device W c d, snd (mapBulk W c sid h a ofs l d),
      snd (unmapBulk W c sid h v l d), snd (openSession W c ld h l ofs d), snd (notify W c sid d)}"
    and "s \<in> set (trustletSessions d)" "ts_deviceConnection s \<noteq> Some c"
  shows "\<exists>s' \<in> set (trustletSessions d'). notified s s'"
proof -
  have "confined c d (snd (notify W c sid d))"
    using confined_waited [OF waited_notify_swd] by (simp add: notify_def split: option.split)
  with assms(2) have "confined c d d'"
    by (auto simp: confined_closeSession [OF assms(1)] confined_close_device [OF assms(1)]
      confined_mapBulk [OF assms(1)] confined_unmapBulk [OF assms(1)] confined_openSession)
  with assms(3,4) show ?thesis by (simp add: confined_def)
qed

theorem clients_isolated_witness:
  "\<exists>s' \<in> set (trustletSessions (close_device buffer_world 1 sample_dev)).
     notified (sample_session 200 2 6 1) s'"
  by (rule clients_isolated [OF dev_inv_sample, of _ buffer_world 1 5 0 0 0 0 0 sample_load])
    (simp_all add: sample_dev_def sample_session_def newTrustletSession_def)

text \<open>
  A client can act on a session only when it owns it: with the identifier of a session that
  is unknown or belongs to another connection, closing, notifying, mapping and unmapping all
  answer "unknown session", send nothing to the secure world and change nothing.
\<close>

theorem foreign_session_refused:
  assumes "\<And>s. getTrustletSession d sid = Some s \<Longrightarrow> ts_deviceConnection s \<noteq> Some c"
  shows "closeSession W c sid d = (MC_DRV_ERR_DAEMON_UNKNOWN_SESSION, d)
    \<and> notify W c sid d = (MC_DRV_ERR_DAEMON_UNKNOWN_SESSION, d)
    \<and> mapBulk W c sid h a ofs l d = (Inl MC_DRV_ERR_DAEMON_UNKNOWN_SESSION, d)
    \<and> unmapBulk W c sid h v l d = (MC_DRV_ERR_DAEMON_UNKNOWN_SESSION, d)"
proof -
  have "findSession d c sid = None"
    using assms by (auto simp: findSession_def split: option.split)
  then show ?thesis by (simp add: closeSession_def notify_def mapBulk_def unmapBulk_def)
qed

theorem foreign_session_refused_witness:
  "closeSession buffer_world 1 6 sample_dev = (MC_DRV_ERR_DAEMON_UNKNOWN_SESSION, sample_dev)"
  using foreign_session_refused [of sample_dev 6 1 buffer_world 0 0 0 0 0]
  by (simp add: getTrustletSession_def sample_dev_def sample_session_def newTrustletSession_def)

section \<open>The life of a session\<close>

text \<open>
  C28: the lock on the TCI buffer. A successful \<open>openSession\<close> with a TCI leaves exactly one
  lock on its handle; every failure gives back whatever lock was taken, except that a
  contiguous buffer shorter than the length the client gave stays locked.
\<close>

theorem openSession_locks:
  assumes "openSession W c ld h l ofs d = (r, d')"
  shows "locks g d' = locks g d +
    (if g = h \<and> h \<noteq> 0 \<and> l \<noteq> 0 \<and> (tci_too_short W c h l ofs d \<or> (\<exists>p. r = Inr p)) then 1 else 0)"
  using assms by (rule openSession_lock_balance)

theorem openSession_locks_witness:
  "fst (openSession buffer_world 1 sample_load 3 64 0 sample_dev) = Inl MC_DRV_ERR_TCI_GREATER_THAN_WSM
   \<and> locks 3 (snd (openSession buffer_world 1 sample_load 3 64 0 sample_dev)) = 1"
proof -
  obtain r d' where o: "openSession buffer_world 1 sample_load 3 64 0 sample_dev = (r, d')" by force
  have "tci_too_short buffer_world 1 3 64 0 sample_dev" by code_simp
  moreover have "locks 3 sample_dev = 0" by code_simp
  ultimately have "locks 3 d' = 1" using openSession_locks [OF o, of 3] by simp
  moreover have "fst (openSession buffer_world 1 sample_load 3 64 0 sample_dev)
      = Inl MC_DRV_ERR_TCI_GREATER_THAN_WSM" by code_simp
  ultimately show ?thesis using o by simp
qed

text \<open>
  closing an ordinary session. If the secure world agrees, exactly that session is gone, all
  others have at most received notifications, and each of its buffers is unlocked once. If it
  does not, the session stays and nothing is unlocked.
\<close>

theorem closeSession_spec:
  assumes "dev_inv d" "findSession d c sid = Some s" "ts_gp_level s \<noteq> 1"
    and "closeSession W c sid d = (r, d')"
  shows "if r = MC_MCP_RET_OK
    then list_all2 notified (erase_at ts_self (ts_self s) (trustletSessions d)) (trustletSessions d')
      \<and> locks g d' = locks g d - (if map_of (ts_buffers s) g = None then 0 else 1)
    else list_all2 notified (trustletSessions d) (trustletSessions d') \<and> locks g d' = locks g d"
  using assms by (rule closeSession_result)

theorem closeSession_spec_witness:
  "list_all2 notified [sample_session 200 2 6 1]
     (trustletSessions (snd (closeSession buffer_world 1 5 sample_dev)))"
proof -
  obtain r d' where c: "closeSession buffer_world 1 5 sample_dev = (r, d')" by force
  have f: "findSession sample_dev 1 5 = Some (sample_session 100 1 5 0)"
    by (simp add: findSession_def getTrustletSession_def sample_dev_def sample_session_def
        newTrustletSession_def)
  have "fst (closeSession buffer_world 1 5 sample_dev) = 0" by code_simp
  with closeSession_spec [OF dev_inv_sample f _ c, of 0] c show ?thesis
    by (simp add: sample_dev_def sample_session_def newTrustletSession_def)
qed



text \<open>
  Closing the session of a GP trusted application cuts the client off at once: whatever the
  secure world answers, afterwards the session is gone or has no client, so that no connection
  can reach it again.
\<close>

theorem gp_close_detaches:
  assumes "findSession d c sid = Some s" "ts_gp_level s = 1"
    and "t \<in> set (trustletSessions (snd (closeSession W c sid d)))" "ts_self t = ts_self s"
  shows "ts_deviceConnection t = None"
  using closeSession_clientless [OF assms(1,2), of W] assms(3,4) by (simp add: clientless_def)

text \<open>The secure world refuses to close the task, and the session waits for its exit.\<close>

theorem gp_close_detaches_witness:
  "let d = snd (closeSession (answering 28 0 [] quiet_world) 2 6 sample_dev)
   in \<forall>t \<in> set (trustletSessions d). ts_self t = 200 \<longrightarrow> ts_deviceConnection t = None"
proof -
  have f: "findSession sample_dev 2 6 = Some (sample_session 200 2 6 1)"
    by (simp add: findSession_def getTrustletSession_def sample_dev_def sample_session_def
        newTrustletSession_def)
  show ?thesis
    using gp_close_detaches [OF f, of _ "answering 28 0 [] quiet_world"]
    by (auto simp: Let_def sample_session_def newTrustletSession_def)
qed

section \<open>Exchanges with the secure world\<close>

text \<open>
  C30: an exchange always comes back, after at most five waits of ten seconds. Once the device has
  faulted it fails without waiting, and the device stays faulted. An answer is accepted only
  when it carries the identifier of the command with the response flag, and never after the
  interrupt thread has ended.
\<close>

theorem mcp_exchange_bounded:
  assumes "mcp_exchange W c d = (r, d')"
  shows "waits d' \<le> waits d + 5
    \<and> (mcFault d \<longrightarrow> r = Inl MC_DRV_ERR_DAEMON_MCI_ERROR \<and> mcFault d' \<and> waits d' = waits d)
    \<and> (\<forall>rsp. r = Inr rsp \<longrightarrow> rspId rsp = (cmdId c OR FLAG_RESPONSE) \<and> rsp = sw_rsp W (hist d')
          \<and> \<not> irqExiting d')"
  using exchange_bounded [OF assms] by blast

theorem mcp_exchange_bounded_witness:
  "waits (snd (mcp_exchange quiet_world (CmdClose 5) sample_dev)) \<le> 5"
proof -
  obtain r d' where e: "mcp_exchange quiet_world (CmdClose 5) sample_dev = (r, d')" by force
  have "waits sample_dev = 0" by (simp add: waits_def sample_dev_def newDevice_def)
  with mcp_exchange_bounded [OF e] e show ?thesis by simp
qed

text \<open>
  C29: the interrupt thread empties the incoming queue and routes every notification in it, in
  order, to exactly one place: the MCP semaphore, the connection of its session, the queue of
  its session when that has no connection yet, or the device's queue when the session is not
  known.
\<close>

theorem irq_routes_all:
  "routed d (ring_items (nq_in (nq d))) (irq_drain d) \<and> ring_items (nq_in (nq (irq_drain d))) = []
   \<and> (\<forall>n. of_bool (nq_sessionId n = SID_MCP) + of_bool (unknown_to d n)
          + of_bool (delivery d n \<noteq> None) + of_bool (\<exists>k. queued_at d k n) = (1 :: nat))"
proof -
  have "of_bool (nq_sessionId n = SID_MCP) + of_bool (unknown_to d n)
      + of_bool (delivery d n \<noteq> None) + of_bool (\<exists>k. queued_at d k n) = (1 :: nat)" for n
    by (cases "getTrustletSession d (nq_sessionId n)")
      (auto simp: unknown_to_def delivery_def queued_at_def split: option.split)
  then show ?thesis using irq_drain_routes [of d] by blast
qed

section \<open>Cleaning up\<close>

text \<open>A session of an ordinary trusted application, or of one that is still alive, stays.\<close>

definition kept :: "dev \<Rightarrow> dev \<Rightarrow> bool" where
  "kept d d' \<longleftrightarrow> (\<forall>s \<in> set (trustletSessions d). ts_gp_level s \<noteq> 1 \<and> ts_sessionState s \<noteq> TS_TA_DEAD
     \<longrightarrow> (\<exists>s' \<in> set (trustletSessions d'). notified s s'))"

lemma kept_trans: "kept a b \<Longrightarrow> kept b d \<Longrightarrow> kept a d"
  unfolding kept_def
proof
  fix s
  assume ab: "\<forall>s \<in> set (trustletSessions a). ts_gp_level s \<noteq> 1 \<and> ts_sessionState s \<noteq> TS_TA_DEAD
      \<longrightarrow> (\<exists>s' \<in> set (trustletSessions b). notified s s')"
    and bd: "\<forall>s \<in> set (trustletSessions b). ts_gp_level s \<noteq> 1 \<and> ts_sessionState s \<noteq> TS_TA_DEAD
      \<longrightarrow> (\<exists>s' \<in> set (trustletSessions d). notified s s')"
    and s: "s \<in> set (trustletSessions a)"
  show "ts_gp_level s \<noteq> 1 \<and> ts_sessionState s \<noteq> TS_TA_DEAD
      \<longrightarrow> (\<exists>s' \<in> set (trustletSessions d). notified s s')"
  proof
    assume l: "ts_gp_level s \<noteq> 1 \<and> ts_sessionState s \<noteq> TS_TA_DEAD"
    then obtain t where t: "t \<in> set (trustletSessions b)" "notified s t" using ab s by blast
    then have "ts_gp_level t \<noteq> 1 \<and> ts_sessionState t \<noteq> TS_TA_DEAD"
      using notifiedD(6,9) [OF t(2)] l by auto
    then obtain u where "u \<in> set (trustletSessions d)" "notified t u" using bd t(1) by blast
    then show "\<exists>s' \<in> set (trustletSessions d). notified s s'" using notified_trans [OF t(2)] by blast
  qed
qed

lemma kept_waited: "waited d d' \<Longrightarrow> kept d d'"
  by (auto simp: kept_def waited_sessions)

lemma kept_delete:
  assumes "dev_inv d" "t \<in> set (trustletSessions d)" "ts_sessionState t = TS_TA_DEAD"
  shows "kept d (delete_session t d)"
proof -
  have "ts_self s \<noteq> ts_self t" if "s \<in> set (trustletSessions d)" "ts_sessionState s \<noteq> TS_TA_DEAD" for s
    using assms that by (metis dev_inv_def distinct_map inj_onD)
  then show ?thesis using spared_delete [of t d] by (auto simp: kept_def spared_def)
qed

lemma ta_exit_loop_spec:
  "dev_inv d \<Longrightarrow> kept d (ta_exit_loop W ks d) \<and> locks g (ta_exit_loop W ks d) = locks g d"
proof (induction W ks d rule: ta_exit_loop.induct)
  case (1 W d)
  show ?case by (auto simp: kept_def)
next
  case (2 W self ks d)
  show ?case
  proof (cases "session_at d self")
    case (Some ts)
    show ?thesis
    proof (cases "ts_sessionState ts = TS_TA_DEAD")
      case True
      obtain r d1 where c: "closeSessionInternal W ts d = (r, d1)" by force
      have w: "waited d d1" using waited_closeInternal [of d W ts] c by simp
      obtain t where t: "session_at d1 self = Some t" "notified ts t"
        by (rule session_at_waited [OF w Some])
      let ?d2 = "if r = MC_DRV_OK then delete_session t d1 else d1"
      have i: "dev_inv d1" by (rule dev_inv_waited [OF 2(4) w])
      have k: "kept d1 (delete_session t d1)"
        using kept_delete [OF i] session_at_self [OF t(1)] notifiedD(9) [OF t(2)] True by auto
      have "dev_inv ?d2" using i by (simp add: dev_inv_delete)
      with 2(2) [OF Some True c [symmetric]] t
      have IH: "kept ?d2 (ta_exit_loop W ks ?d2)" "locks g (ta_exit_loop W ks ?d2) = locks g ?d2" by simp_all
      have "kept d ?d2" using kept_trans [OF kept_waited [OF w] k] kept_waited [OF w] by simp
      moreover have "locks g ?d2 = locks g d" using locks_waited [OF w] by (simp add: locks_delete)
      moreover have "ta_exit_loop W (self # ks) d = ta_exit_loop W ks ?d2"
        using Some True c t by simp
      ultimately show ?thesis using IH kept_trans by metis
    qed (use 2 Some in simp)
  qed (use 2 in simp)
qed

text \<open>
  the exit handler removes only dead sessions and sessions of GP trusted applications. It
  never unlocks a buffer: the buffers of a session removed here stay locked in the kernel,
  unlike those of a session removed by \<open>closeSession\<close>.
\<close>

theorem handleTaExit_spec:
  assumes "dev_inv d"
  shows "kept d (handleTaExit W d) \<and> locks g (handleTaExit W d) = locks g d"
proof -
  let ?d = "d\<lparr>taSem := taSem d - 1\<rparr>"
  have "kept ?d (ta_exit_loop W ks ?d) \<and> locks g (ta_exit_loop W ks ?d) = locks g ?d" for ks
    by (rule ta_exit_loop_spec) (use assms in simp)
  then show ?thesis by (auto simp: handleTaExit_def kept_def locks_def)
qed

definition dead_dev :: dev where
  "dead_dev = sample_dev\<lparr>taSem := 1, trustletSessions := [sample_session 100 1 5 0,
     (sample_session 200 2 6 1)\<lparr>ts_deviceConnection := None, ts_sessionState := TS_TA_DEAD,
       ts_buffers := [(3, \<lparr>wsm_virtAddr = 0, wsm_len = 8, wsm_handle = 3, wsm_physAddr = 0\<rparr>)]\<rparr>]\<rparr>"

theorem handleTaExit_spec_witness:
  "map ts_self (trustletSessions (handleTaExit buffer_world dead_dev)) = [100]
   \<and> locks 3 (handleTaExit buffer_world dead_dev) = locks 3 dead_dev"
proof -
  have "dev_inv dead_dev"
    by (simp add: dev_inv_def dead_dev_def sample_dev_def newDevice_def sample_queue_def session_ok_def
        sample_session_def newTrustletSession_def ts_inv_def smap_inv_def)
  from handleTaExit_spec [OF this, of buffer_world 3]
  have "locks 3 (handleTaExit buffer_world dead_dev) = locks 3 dead_dev" by blast
  moreover have "map ts_self (trustletSessions (handleTaExit buffer_world dead_dev)) = [100]"
    by code_simp
  ultimately show ?thesis by blast
qed

text \<open>Events added between two states all satisfy \<open>P\<close>.\<close>

definition adds :: "(ev \<Rightarrow> bool) \<Rightarrow> dev \<Rightarrow> dev \<Rightarrow> bool" where
  "adds P d d' \<longleftrightarrow> (\<exists>es. hist d' = hist d @ es \<and> list_all P es)"

lemma adds_trans: "adds P a b \<Longrightarrow> adds P b d \<Longrightarrow> adds P a d"
  by (force simp: adds_def)

lemma adds_emit: "P e \<Longrightarrow> adds P d (emit e d)"
  by (simp add: adds_def emit_def)

lemma adds_same: "hist d' = hist d \<Longrightarrow> adds P d d'"
  by (simp add: adds_def)

definition plain :: "ev \<Rightarrow> bool" where
  "plain e \<longleftrightarrow> e \<noteq> MutexLock \<and> e \<noteq> MutexUnlock \<and> e \<noteq> StaleIterator"

lemma adds_waited: "waited d d' \<Longrightarrow> adds plain d d'"
proof -
  have "waiting_event e \<Longrightarrow> plain e" for e by (auto simp: plain_def)
  then show "waited d d' \<Longrightarrow> adds plain d d'"
    by (auto simp: waited_def adds_def list_all_iff)
qed

lemma adds_detach: "adds plain d (detach_client s d)"
  by (auto simp: detach_client_def with_session_def adds_def emit_def plain_def split: option.split)

lemma adds_release: "adds plain d (release_session W s d)"
proof -
  have u: "adds plain d (foldl (\<lambda>d w. snd (unlockWsmL2 W (wsm_handle w) d)) d ws)" for ws
  proof (induction ws arbitrary: d)
    case (Cons w ws)
    have "adds plain d (snd (unlockWsmL2 W (wsm_handle w) d))"
      by (simp add: unlockWsmL2_def Let_def adds_emit plain_def)
    with Cons adds_trans show ?case by fastforce
  qed (simp add: adds_same)
  have "adds plain d (delete_session s' d)" for s' d
    by (cases "deleteTrustletSession s'") (simp_all add: delete_session_def adds_def emit_def plain_def)
  with u show ?thesis by (auto simp: release_session_def split: prod.split intro: adds_trans)
qed

lemma adds_closeSession: "adds plain d (snd (closeSession W c sid d))"
proof (cases "findSession d c sid")
  case (Some s)
  let ?d0 = "if ts_gp_level s = 1 then detach_client s d else d"
  obtain r1 d1 where c1: "closeSessionInternal W s ?d0 = (r1, d1)" by force
  obtain r2 d2 where c2: "closeSessionInternal W s d1 = (r2, d2)" by force
  have "adds plain d ?d0" by (simp add: adds_detach adds_same)
  from adds_trans [OF this adds_waited [OF waited_closeInternal [of ?d0 W s]]] c1
  have 1: "adds plain d d1" by simp
  from adds_trans [OF 1 adds_waited [OF waited_closeInternal [of d1 W s]]] c2
  have 2: "adds plain d d2" by simp
  have "adds plain d (emit AssertFailed d2)"
    by (rule adds_trans [OF 2 adds_emit]) (simp add: plain_def)
  with 1 2 adds_trans [OF 1 adds_release] adds_trans [OF 2 adds_release] Some c1 c2
  show ?thesis by (simp add: closeSession_def Let_def)
qed (simp add: closeSession_def adds_same)

lemma adds_close_loop:
  "adds (\<lambda>e. e \<noteq> MutexLock \<and> e \<noteq> MutexUnlock) d (close_loop W c ks d)
   \<and> (length (trustletSessions (close_loop W c ks d)) < length (trustletSessions d)
        \<longrightarrow> StaleIterator \<in> set (drop (length (hist d)) (hist (close_loop W c ks d))))"
proof (induction W c ks d rule: close_loop.induct)
  case (2 W c self ks d)
  show ?case
  proof (cases "\<exists>s. session_at d self = Some s \<and> ts_deviceConnection s = Some c")
    case True
    then obtain s where s: "session_at d self = Some s" "ts_deviceConnection s = Some c" by blast
    obtain r d1 where c: "closeSession W c (ts_sessionId s) d = (r, d1)" by force
    let ?shrunk = "length (trustletSessions d1) < length (trustletSessions d)"
    let ?d2 = "if ?shrunk then emit StaleIterator d1 else d1"
    obtain es where es: "hist d1 = hist d @ es" "list_all plain es"
      using adds_closeSession [of d W c "ts_sessionId s"] c by (auto simp: adds_def)
    then have pl: "list_all (\<lambda>e. e \<noteq> MutexLock \<and> e \<noteq> MutexUnlock) es"
      by (auto simp: plain_def list_all_iff)
    have eq: "close_loop W c (self # ks) d = close_loop W c ks ?d2" using s c by (simp add: Let_def)
    from 2(2) [OF s refl c [symmetric] refl]
    obtain fs where fs: "hist (close_loop W c ks ?d2) = hist ?d2 @ fs"
      "list_all (\<lambda>e. e \<noteq> MutexLock \<and> e \<noteq> MutexUnlock) fs"
      and IH: "length (trustletSessions (close_loop W c ks ?d2)) < length (trustletSessions ?d2)
        \<Longrightarrow> StaleIterator \<in> set fs"
      by (auto simp: adds_def)
    show ?thesis unfolding eq using es(1) pl fs IH
      by (cases ?shrunk) (auto simp: adds_def emit_def)
  next
    case False
    have "close_loop W c (self # ks) d = close_loop W c ks d"
      using False by (auto split: option.split)
    then show ?thesis using 2(1) 2(3) False by (cases "session_at d self") auto
  qed
qed (simp add: adds_same)

text \<open>
  closing the device of a connection. Whenever this removes a session, the loop that walks
  the list backwards goes on from an iterator to the removed element; and its critical section
  is left twice. Afterwards no device is registered with the connection.
\<close>

theorem close_device_defects:
  fixes W c d
  defines "new \<equiv> drop (length (hist d)) (hist (close_device W c d))"
  shows "(length (trustletSessions (close_device W c d)) < length (trustletSessions d)
            \<longrightarrow> StaleIterator \<in> set new)
    \<and> filter (\<lambda>e. e \<in> {MutexLock, MutexUnlock}) new = [MutexLock, MutexUnlock, MutexUnlock]
    \<and> \<not> connectionData (close_device W c d) c"
proof -
  let ?ks = "rev (map ts_self (trustletSessions d))"
  let ?d1 = "close_loop W c ?ks (emit MutexLock d)"
  from adds_close_loop [of "emit MutexLock d" W c ?ks]
  obtain es where es: "hist ?d1 = hist d @ MutexLock # es"
    "list_all (\<lambda>e. e \<noteq> MutexLock \<and> e \<noteq> MutexUnlock) es"
    and st: "length (trustletSessions ?d1) < length (trustletSessions d) \<longrightarrow> StaleIterator \<in> set es"
    by (auto simp: adds_def emit_def)
  let ?r = "kmod_cleanupWsmL2 W (hist ?d1 @ [MutexUnlock])"
  have "hist (close_device W c d) = hist d @ MutexLock # es @ [MutexUnlock, KmodCleanup ?r, MutexUnlock]"
    "trustletSessions (close_device W c d) = trustletSessions ?d1"
    using es(1) by (simp_all add: close_device_def Let_def emit_def cleanupWsmL2_def)
  moreover have "filter (\<lambda>e. e = MutexLock \<or> e = MutexUnlock) es = []"
    using es(2) by (auto simp: filter_empty_conv list_all_iff)
  ultimately show ?thesis using st
    by (simp add: new_def) (simp add: close_device_def Let_def emit_def)
qed

theorem close_device_defects_witness:
  "StaleIterator \<in> set (hist (close_device buffer_world 1 sample_dev))"
proof -
  have "length (trustletSessions (close_device buffer_world 1 sample_dev)) < length (trustletSessions sample_dev)"
    by code_simp
  then show ?thesis using close_device_defects [of buffer_world 1 sample_dev] by (auto dest: in_set_dropD)
qed

section \<open>Connecting the notification channel\<close>

text \<open>
  A notification connection is attached only to a session whose address, magic number and
  identifier the client knows, and to no other; on a mismatch nothing changes. With the values
  that \<open>openSession\<close> returned it succeeds exactly when the address of the session object fits
  the 32 bits of the protocol field.
\<close>

theorem registerTrustletConnection_spec:
  assumes inv: "dev_inv d" and s: "s \<in> set (trustletSessions d)"
    and cmd: "nqc_sessionMagic cmd = ts_sessionMagic s" "nqc_sessionId cmd = ts_sessionId s"
      "nqc_deviceSessionId cmd = of_nat (ts_self s)"
    and reg: "registerTrustletConnection c cmd d = (r, d')"
  shows "(ts_self s < 2 ^ 32 \<longrightarrow> r = Some (s\<lparr>ts_notificationConnection := Some c\<rparr>)
            \<and> trustletSessions d' = map (\<lambda>t. if t = s then t\<lparr>ts_notificationConnection := Some c\<rparr> else t)
                                      (trustletSessions d))
    \<and> (r = None \<longrightarrow> d' = d)
    \<and> (\<forall>t. r = Some t \<longrightarrow> ts_sessionMagic t = nqc_sessionMagic cmd \<and> ts_sessionId t = nqc_sessionId cmd
          \<and> ts_self t = unat (nqc_deviceSessionId cmd))"
proof -
  have uniq: "t = s" if "t \<in> set (trustletSessions d)" "ts_self t = ts_self s" for t
    using inv s that by (metis dev_inv_def distinct_map inj_onD)
  show ?thesis
  proof (cases "find (nq_connect_matches cmd) (trustletSessions d)")
    case None
    have "\<not> ts_self s < 2 ^ 32"
    proof
      assume "ts_self s < 2 ^ 32"
      then have "nq_connect_matches cmd s"
        using cmd by (simp add: nq_connect_matches_def unat_of_nat)
      with None s show False by (simp add: find_None_iff)
    qed
    then show ?thesis using None reg by (simp add: registerTrustletConnection_def)
  next
    case (Some t)
    then have t: "t \<in> set (trustletSessions d)" "nq_connect_matches cmd t"
      using find_SomeD by fastforce+
    have r: "r = Some (t\<lparr>ts_notificationConnection := Some c\<rparr>)"
      "d' = with_session (ts_self t) (\<lambda>t. t\<lparr>ts_notificationConnection := Some c\<rparr>) d"
      using Some reg by (simp_all add: registerTrustletConnection_def)
    have "t = s" if "ts_self s < 2 ^ 32"
      using t that cmd uniq by (simp add: nq_connect_matches_def unat_of_nat)
    moreover have "update_at ts_self (ts_self s) f (trustletSessions d)
        = map (\<lambda>t. if t = s then f t else t) (trustletSessions d)" for f
      unfolding update_at_def using uniq by (intro map_cong) auto
    ultimately show ?thesis using r t(2) by (auto simp: with_session_def nq_connect_matches_def)
  qed
qed

theorem registerTrustletConnection_spec_witness:
  "fst (registerTrustletConnection 4
      \<lparr>nqc_deviceId = 0, nqc_sessionId = 5, nqc_deviceSessionId = 100, nqc_sessionMagic = 77\<rparr> sample_dev)
   = Some ((sample_session 100 1 5 0)\<lparr>ts_notificationConnection := Some 4\<rparr>)"
proof -
  let ?cmd = "\<lparr>nqc_deviceId = 0, nqc_sessionId = 5, nqc_deviceSessionId = 100, nqc_sessionMagic = 77\<rparr>"
  obtain r d' where reg: "registerTrustletConnection 4 ?cmd sample_dev = (r, d')" by force
  have "sample_session 100 1 5 0 \<in> set (trustletSessions sample_dev)" by (simp add: sample_dev_def)
  from registerTrustletConnection_spec [OF dev_inv_sample this _ _ _ reg] reg show ?thesis
    by (simp add: sample_session_def newTrustletSession_def)
qed

section \<open>Scheduling\<close>

definition yield_count :: "dev \<Rightarrow> nat" where
  "yield_count d = length (filter (\<lambda>e. case e of KmodYield _ \<Rightarrow> True | _ \<Rightarrow> False) (hist d))"

definition nsiq_count :: "dev \<Rightarrow> nat" where
  "nsiq_count d = length (filter (\<lambda>e. case e of KmodNsiq _ \<Rightarrow> True | _ \<Rightarrow> False) (hist d))"

lemma schedule_step_balance:
  "schedule_step W idle (t, d) = (go, t', d') \<Longrightarrow>
     t' + yield_count d' + 5 * nsiq_count d = t + yield_count d + 5 * nsiq_count d'
     \<and> (t \<le> 5 \<longrightarrow> t' \<le> 5)"
  by (auto simp: schedule_step_def nsiq_def yield_def yield_count_def nsiq_count_def emit_def Let_def
      split: if_splits)

text \<open>
  the scheduler gives the secure world at most five yields between two forced scheduling
  decisions: along any run the yields spent and the slice left are exactly accounted for by
  five per N-SIQ sent, and the slice never exceeds five.
\<close>

theorem schedule_slices:
  assumes "schedule_run W hints (t, d) = (t', d')" "t \<le> 5"
  shows "t' + yield_count d' + 5 * nsiq_count d = t + yield_count d + 5 * nsiq_count d' \<and> t' \<le> 5"
  using assms
proof (induction hints arbitrary: t d)
  case (Cons idle hints)
  obtain go t1 d1 where s: "schedule_step W idle (t, d) = (go, t1, d1)" by (metis prod_cases3)
  note b = schedule_step_balance [OF s]
  show ?case
  proof (cases go)
    case True
    with Cons.prems s have "schedule_run W hints (t1, d1) = (t', d')" by simp
    from Cons.IH [OF this] b Cons.prems(2) show ?thesis by simp
  next
    case False
    with Cons.prems s b show ?thesis by simp
  qed
qed simp

theorem schedule_slices_witness:
  "let (t, d) = schedule_run quiet_world (replicate 8 False) (5, sample_dev)
   in t + yield_count d = 5 + 5 * nsiq_count d"
proof -
  obtain t d where r: "schedule_run quiet_world (replicate 8 False) (5, sample_dev) = (t, d)" by force
  have "yield_count sample_dev = 0" "nsiq_count sample_dev = 0"
    by (simp_all add: yield_count_def nsiq_count_def sample_dev_def newDevice_def)
  with schedule_slices [OF r] show ?thesis unfolding r by simp
qed
end
