(* ===== verification/McDaemon.thy ===== *)
theory McDaemon
  imports McProperties
begin

text \<open>
  \<^verbatim>\<open>mobicore/daemon/Daemon/MobiCoreDriverDaemon.cpp\<close>: the handlers for the requests that clients
  send over their sockets, and their dispatcher. The command structures are those of
  \<^verbatim>\<open>MobiCoreDriverCmd.h\<close> as a 64-bit build lays them out. A handler that may never return has an
  optional result, \<open>None\<close> for not returning.
\<close>

section \<open>Reading and answering\<close>

definition readData :: "world \<Rightarrow> conn \<Rightarrow> nat \<Rightarrow> dev \<Rightarrow> int \<times> u8 list \<times> dev" where
  "readData W c n d =
     (let (rlen, buf) = sock_readData W (hist d) c n in (rlen, buf, emit (ConnRead c rlen) d))"

definition writeResult :: "conn \<Rightarrow> u32 \<Rightarrow> dev \<Rightarrow> dev" where
  "writeResult c code d = emit (ConnWrite c [W32 code]) d"

text \<open>\<open>RECV_PAYLOAD_FROM_CLIENT\<close>: \<open>None\<close> when the handler returns early.\<close>

definition recv_payload :: "world \<Rightarrow> conn \<Rightarrow> nat \<Rightarrow> dev \<Rightarrow> u8 list option \<times> dev" where
  "recv_payload W c n d =
     (let (rlen, buf, d1) = readData W c n d
      in if rlen < 0 then (None, writeResult c MC_DRV_ERR_DAEMON_SOCKET d1)
         else if rlen \<noteq> int n then (None, writeResult c MC_DRV_ERR_DAEMON_SOCKET d1)
         else (Some buf, d1))"

text \<open>\<open>CHECK_DEVICE\<close>: run the rest of the handler only when a device is registered.\<close>

definition check_device :: "conn \<Rightarrow> (dev \<Rightarrow> dev) \<Rightarrow> dev \<Rightarrow> dev" where
  "check_device c k d =
     (if \<not> connectionData d c then writeResult c MC_DRV_ERR_DAEMON_DEVICE_NOT_OPEN d else k d)"

definition getData :: "world \<Rightarrow> conn \<Rightarrow> nat \<Rightarrow> dev \<Rightarrow> u8 list option \<times> dev" where
  "getData W c n d =
     (let (rlen, buf, d1) = readData W c n d
      in if rlen < int n then (None, d1) else (Some buf, d1))"

abbreviation (input) MC_DEVICE_ID_DEFAULT :: u32 where "MC_DEVICE_ID_DEFAULT \<equiv> 0"

section \<open>Devices and sessions\<close>

definition processOpenDevice :: "world \<Rightarrow> conn \<Rightarrow> dev \<Rightarrow> dev" where
  "processOpenDevice W c d =
     (case recv_payload W c 4 d of
        (None, d1) \<Rightarrow> d1
      | (Some cmd, d1) \<Rightarrow>
          if connectionData d1 c then writeResult c MC_DRV_ERR_DEVICE_ALREADY_OPEN d1
          else if le32 cmd 0 \<noteq> MC_DEVICE_ID_DEFAULT
          then writeResult c MC_DRV_ERR_UNKNOWN_DEVICE d1
          else writeResult c MC_DRV_OK (open_device c d1))"

definition processCloseDevice :: "world \<Rightarrow> conn \<Rightarrow> dev \<Rightarrow> dev" where
  "processCloseDevice W c d =
     check_device c (\<lambda>d. writeResult c MC_DRV_OK (close_device W c d)) d"

definition load_data :: "regObject_t \<Rightarrow> CWsm \<Rightarrow> loadDataOpenSession_t" where
  "load_data ro w = \<lparr>ld_baseAddr = wsm_physAddr w, ld_offs = ucast (ro_value ro) AND 0xFFF,
     ld_len = ro_len ro, ld_tlHeader = ro_tlHeader ro\<rparr>"

text \<open>
  What opening a session does once the service blob has been looked up; the same for blobs of
  the registry and blobs sent by the client.
\<close>

definition open_blob :: "world \<Rightarrow> conn \<Rightarrow> regObject_t option \<Rightarrow> u32 \<Rightarrow> u32 \<Rightarrow> u32 \<Rightarrow> dev \<Rightarrow> dev" where
  "open_blob W c regObj handle tciLen tci d =
     (case regObj of
        None \<Rightarrow> writeResult c MC_DRV_ERR_TRUSTLET_NOT_FOUND d
      | Some ro \<Rightarrow>
          if ro_len ro = 0 then writeResult c MC_DRV_ERR_TRUSTLET_NOT_FOUND d
          else
            (case registerWsmL2 W (ro_value ro) (ro_len ro) d of
               (None, d1) \<Rightarrow> writeResult c MC_DRV_ERR_DAEMON_KMOD_ERROR d1
             | (Some w, d1) \<Rightarrow>
                 (let (ret, d2) = openSession W c (load_data ro w) handle tciLen tci d1;
                      (ok, d3) = unregisterWsmL2 W w d2
                  in if \<not> ok then writeResult c MC_DRV_ERR_DAEMON_KMOD_ERROR d3
                     else case ret of
                       Inl e \<Rightarrow> writeResult c e d3
                     | Inr p \<Rightarrow> emit (ConnWrite c [W32 MC_DRV_OK, W32 (pl_sessionId p),
                                    W32 (pl_deviceSessionId p), W32 (pl_sessionMagic p)]) d3)))"

text \<open>
  \<open>MC_DRV_CMD_OPEN_SESSION_struct\<close> after its header: device 0, UUID 4, TCI 20, handle 28,
  length 32. The TCI offset is a 64-bit field, of which \<open>openSession\<close> takes the low half.
\<close>

definition processOpenSession :: "world \<Rightarrow> conn \<Rightarrow> bool \<Rightarrow> dev \<Rightarrow> dev" where
  "processOpenSession W c isGpUuid d =
     (case recv_payload W c 36 d of
        (None, d1) \<Rightarrow> d1
      | (Some cmd, d1) \<Rightarrow>
          check_device c (\<lambda>d.
            (let ro = getServiceBlob W (hist d) (take 16 (drop 4 cmd)) isGpUuid
             in open_blob W c ro (le32 cmd 28) (le32 cmd 32) (le32 cmd 20)
                  (emit (RegistryBlob (ro \<noteq> None)) d))) d1)"

definition processLoadCheck :: "world \<Rightarrow> u32 \<Rightarrow> u8 list \<Rightarrow> dev \<Rightarrow> u32 \<times> dev" where
  "processLoadCheck W spid blob d =
     (let regObj = memGetServiceBlob W (hist d) spid blob;
          d0 = emit (RegistryBlob (regObj \<noteq> None)) d
      in case regObj of
        None \<Rightarrow> (MC_DRV_ERR_TRUSTLET_NOT_FOUND, d0)
      | Some ro \<Rightarrow>
          if ro_len ro = 0 then (MC_DRV_ERR_TRUSTLET_NOT_FOUND, d0)
          else
            (case registerWsmL2 W (ro_value ro) (ro_len ro) d0 of
               (None, d1) \<Rightarrow> (MC_DRV_ERR_DAEMON_KMOD_ERROR, d1)
             | (Some w, d1) \<Rightarrow>
                 (let (ret, d2) = checkLoad W (load_data ro w) d1;
                      (ok, d3) = unregisterWsmL2 W w d2
                  in if \<not> ok then (MC_DRV_ERR_DAEMON_KMOD_ERROR, d3) else (ret, d3))))"

text \<open>
  The loop that reads a trusted application of the client's, \<open>None\<close> when it never ends; in the
  result \<open>None\<close> is a read error.
\<close>

partial_function (option) read_trustlet ::
  "world \<Rightarrow> conn \<Rightarrow> nat \<Rightarrow> u8 list \<Rightarrow> dev \<Rightarrow> (u8 list option \<times> dev) option" where
  "read_trustlet W c remaining acc d =
     (if remaining = 0 then Some (Some acc, d)
      else
        (let (rlen, buf, d1) = readData W c remaining d
         in if rlen < 0 then Some (None, writeResult c MC_DRV_ERR_DAEMON_SOCKET d1)
            else read_trustlet W c (remaining - nat rlen) (acc @ take (nat rlen) buf) d1))"

text \<open>
  \<open>MC_DRV_CMD_OPEN_TRUSTLET_struct\<close> after its header: device 0, SPID 4, length of the trusted
  application 8, TCI 12, handle 20, length 24.
\<close>

definition processOpenTrustlet :: "world \<Rightarrow> conn \<Rightarrow> dev \<Rightarrow> dev option" where
  "processOpenTrustlet W c d =
     (case recv_payload W c 28 d of
        (None, d1) \<Rightarrow> Some d1
      | (Some cmd, d1) \<Rightarrow>
          if \<not> connectionData d1 c then Some (writeResult c MC_DRV_ERR_DAEMON_DEVICE_NOT_OPEN d1)
          else
            (let len = unat (le32 cmd 8);
                 ok = malloc_ok W (hist d1) len;
                 d2 = emit (Malloc len ok) d1
             in if \<not> ok then Some (writeResult c MC_DRV_ERR_DAEMON_SOCKET d2)
                else case read_trustlet W c len [] d2 of
                  None \<Rightarrow> None
                | Some (None, d3) \<Rightarrow> Some d3
                | Some (Some blob, d3) \<Rightarrow>
                    (let ro = memGetServiceBlob W (hist d3) (le32 cmd 4) blob
                     in Some (open_blob W c ro (le32 cmd 20) (le32 cmd 24) (le32 cmd 12)
                          (emit (RegistryBlob (ro \<noteq> None)) d3)))))"

definition processCloseSession :: "world \<Rightarrow> conn \<Rightarrow> dev \<Rightarrow> dev" where
  "processCloseSession W c d =
     (case recv_payload W c 4 d of
        (None, d1) \<Rightarrow> d1
      | (Some cmd, d1) \<Rightarrow>
          check_device c (\<lambda>d.
            (let (ret, d2) = closeSession W c (le32 cmd 0) d in writeResult c ret d2)) d1)"

text \<open>Both servers forget the connection before it becomes a notification channel.\<close>

definition processNqConnect :: "world \<Rightarrow> conn \<Rightarrow> dev \<Rightarrow> dev" where
  "processNqConnect W c d =
     (case recv_payload W c 16 d of
        (None, d1) \<Rightarrow> d1
      | (Some cmd, d1) \<Rightarrow>
          if connectionData d1 c then writeResult c MC_DRV_ERR_NQ_FAILED d1
          else
            (let d2 = emit (ConnDetach c) (emit (ConnDetach c) d1)
             in if le32 cmd 0 \<noteq> MC_DEVICE_ID_DEFAULT
                then writeResult c MC_DRV_ERR_UNKNOWN_DEVICE d2
                else case registerTrustletConnection c
                    \<lparr>nqc_deviceId = le32 cmd 0, nqc_sessionId = le32 cmd 4,
                     nqc_deviceSessionId = le32 cmd 8, nqc_sessionMagic = le32 cmd 12\<rparr> d2 of
                  (None, d3) \<Rightarrow> writeResult c MC_DRV_ERR_UNKNOWN d3
                | (Some ts, d3) \<Rightarrow>
                    (let (ns, ts') = processQueuedNotifications ts;
                         d4 = with_session (ts_self ts) (\<lambda>s. snd (processQueuedNotifications s))
                                (writeResult c MC_DRV_OK d3)
                     in foldl (\<lambda>d n. emit (ConnWrite c (notification_wire n)) d) d4 ns)))"

text \<open>A notification is never answered, not even when it fails.\<close>

definition processNotify :: "world \<Rightarrow> conn \<Rightarrow> dev \<Rightarrow> dev" where
  "processNotify W c d =
     (let (rlen, cmd, d1) = readData W c 4 d
      in if rlen < 0 then d1
         else if rlen \<noteq> 4 then d1
         else if \<not> connectionData d1 c then d1
         else snd (notify W c (le32 cmd 0) d1))"

section \<open>Bulk buffers and versions\<close>

text \<open>
  \<open>MC_DRV_CMD_MAP_BULK_BUF_struct\<close> after its header: session 0, handle 4, payload offset 12 (64
  bits, of which \<open>mapBulk\<close> takes the low half), length 20, padding 24.
\<close>

definition processMapBulkBuf :: "world \<Rightarrow> conn \<Rightarrow> dev \<Rightarrow> dev" where
  "processMapBulkBuf W c d =
     (case recv_payload W c 28 d of
        (None, d1) \<Rightarrow> d1
      | (Some cmd, d1) \<Rightarrow>
          check_device c (\<lambda>d.
            (let (locked, d2) = lockWsmL2 W (le32 cmd 4) d
             in if \<not> locked then writeResult c MC_DRV_ERR_DAEMON_WSM_HANDLE_NOT_FOUND d2
                else
                  (let (pAddrL2, d3) = findWsmL2 W (le32 cmd 4) (socketDescriptor W c) d2
                   in if pAddrL2 = 0 then writeResult c MC_DRV_ERR_DAEMON_WSM_HANDLE_NOT_FOUND d3
                      else case mapBulk W c (le32 cmd 0) (le32 cmd 4) pAddrL2 (le32 cmd 12)
                                  (le32 cmd 20) d3 of
                        (Inl e, d4) \<Rightarrow> writeResult c e d4
                      | (Inr secureVirtualAdr, d4) \<Rightarrow>
                          emit (ConnWrite c [W32 MC_DRV_OK, W32 (le32 cmd 0), W32 secureVirtualAdr]) d4)))
            d1)"

text \<open>
  \<open>MC_DRV_CMD_UNMAP_BULK_BUF_struct\<close> after its header: session 0, handle 4, padding 8, secure
  address 12 (64 bits, of which \<open>unmapBulk\<close> takes the low half), length 20, padding 24.
\<close>

definition processUnmapBulkBuf :: "world \<Rightarrow> conn \<Rightarrow> dev \<Rightarrow> dev" where
  "processUnmapBulkBuf W c d =
     (case recv_payload W c 28 d of
        (None, d1) \<Rightarrow> d1
      | (Some cmd, d1) \<Rightarrow>
          check_device c (\<lambda>d.
            (let (mcResult, d2) = unmapBulk W c (le32 cmd 0) (le32 cmd 4) (le32 cmd 12) (le32 cmd 20) d
             in if mcResult \<noteq> MC_DRV_OK then writeResult c mcResult d2
                else writeResult c MC_DRV_OK (snd (unlockWsmL2 W (le32 cmd 4) d2)))) d1)"

definition processGetVersion :: "conn \<Rightarrow> dev \<Rightarrow> dev" where
  "processGetVersion c d = emit (ConnWrite c [W32 MC_DRV_OK, W32 (push_bit 16 0 OR 2)]) d"

definition processGetMobiCoreVersion :: "world \<Rightarrow> conn \<Rightarrow> dev \<Rightarrow> dev" where
  "processGetMobiCoreVersion W c d =
     check_device c (\<lambda>d.
       (case getMobiCoreVersion W d of
          (Inl e, d1) \<Rightarrow> writeResult c e d1
        | (Inr v, d1) \<Rightarrow> emit (ConnWrite c [W32 MC_DRV_OK, WVersion v]) d1)) d"

section \<open>The registry\<close>

abbreviation (input) MAX_DATA_SIZE :: nat where "MAX_DATA_SIZE \<equiv> 512"

abbreviation (input) MC_DRV_REG_STORE_AUTH_TOKEN :: u32 where "MC_DRV_REG_STORE_AUTH_TOKEN \<equiv> 0x100000"
abbreviation (input) MC_DRV_REG_READ_AUTH_TOKEN :: u32 where "MC_DRV_REG_READ_AUTH_TOKEN \<equiv> 0x100001"
abbreviation (input) MC_DRV_REG_DELETE_AUTH_TOKEN :: u32 where "MC_DRV_REG_DELETE_AUTH_TOKEN \<equiv> 0x100002"
abbreviation (input) MC_DRV_REG_READ_ROOT_CONT :: u32 where "MC_DRV_REG_READ_ROOT_CONT \<equiv> 0x100003"
abbreviation (input) MC_DRV_REG_WRITE_ROOT_CONT :: u32 where "MC_DRV_REG_WRITE_ROOT_CONT \<equiv> 0x100004"
abbreviation (input) MC_DRV_REG_DELETE_ROOT_CONT :: u32 where "MC_DRV_REG_DELETE_ROOT_CONT \<equiv> 0x100005"
abbreviation (input) MC_DRV_REG_READ_SP_CONT :: u32 where "MC_DRV_REG_READ_SP_CONT \<equiv> 0x100006"
abbreviation (input) MC_DRV_REG_WRITE_SP_CONT :: u32 where "MC_DRV_REG_WRITE_SP_CONT \<equiv> 0x100007"
abbreviation (input) MC_DRV_REG_DELETE_SP_CONT :: u32 where "MC_DRV_REG_DELETE_SP_CONT \<equiv> 0x100008"
abbreviation (input) MC_DRV_REG_READ_TL_CONT :: u32 where "MC_DRV_REG_READ_TL_CONT \<equiv> 0x100009"
abbreviation (input) MC_DRV_REG_WRITE_TL_CONT :: u32 where "MC_DRV_REG_WRITE_TL_CONT \<equiv> 0x10000A"
abbreviation (input) MC_DRV_REG_DELETE_TL_CONT :: u32 where "MC_DRV_REG_DELETE_TL_CONT \<equiv> 0x10000B"
abbreviation (input) MC_DRV_REG_WRITE_SO_DATA :: u32 where "MC_DRV_REG_WRITE_SO_DATA \<equiv> 0x10000C"
abbreviation (input) MC_DRV_REG_STORE_TA_BLOB :: u32 where "MC_DRV_REG_STORE_TA_BLOB \<equiv> 0x10000D"

definition registry_do :: "world \<Rightarrow> registry_call \<Rightarrow> dev \<Rightarrow> u32 \<times> u8 list \<times> dev" where
  "registry_do W r d =
     (let (ret, out) = registry W (hist d) r in (ret, out, emit (RegistryCall r ret) d))"

text \<open>Reading the arguments: the switch of a handler is left early when \<open>getData\<close> fails.\<close>

definition get_spid :: "world \<Rightarrow> conn \<Rightarrow> (u32 \<Rightarrow> dev \<Rightarrow> 'r \<times> dev) \<Rightarrow> 'r \<Rightarrow> dev \<Rightarrow> 'r \<times> dev" where
  "get_spid W c k dflt d =
     (case getData W c 4 d of (None, d1) \<Rightarrow> (dflt, d1) | (Some b, d1) \<Rightarrow> k (le32 b 0) d1)"

definition get_uuid :: "world \<Rightarrow> conn \<Rightarrow> (mcUuid_t \<Rightarrow> dev \<Rightarrow> 'r \<times> dev) \<Rightarrow> 'r \<Rightarrow> dev \<Rightarrow> 'r \<times> dev" where
  "get_uuid W c k dflt d =
     (case getData W c 16 d of (None, d1) \<Rightarrow> (dflt, d1) | (Some b, d1) \<Rightarrow> k b d1)"

definition get_bytes :: "world \<Rightarrow> conn \<Rightarrow> nat \<Rightarrow> (u8 list \<Rightarrow> dev \<Rightarrow> 'r \<times> dev) \<Rightarrow> 'r \<Rightarrow> dev \<Rightarrow> 'r \<times> dev" where
  "get_bytes W c n k dflt d =
     (case getData W c n d of (None, d1) \<Rightarrow> (dflt, d1) | (Some b, d1) \<Rightarrow> k b d1)"

definition registry_read :: "world \<Rightarrow> registry_call \<Rightarrow> dev \<Rightarrow> (u32 \<times> u8 list) \<times> dev" where
  "registry_read W r d = (let (ret, out, d1) = registry_do W r d in ((ret, out), d1))"

definition registry_run :: "world \<Rightarrow> registry_call \<Rightarrow> dev \<Rightarrow> u32 \<times> dev" where
  "registry_run W r d = (let (ret, _, d1) = registry_do W r d in (ret, d1))"

text \<open>The result code and the contents of the buffer that is written after it.\<close>

definition registry_read_switch :: "world \<Rightarrow> u32 \<Rightarrow> conn \<Rightarrow> dev \<Rightarrow> (u32 \<times> u8 list) \<times> dev" where
  "registry_read_switch W commandId c d =
     (let dflt = (MC_DRV_ERR_INVALID_OPERATION, [])
      in if commandId = MC_DRV_REG_READ_AUTH_TOKEN then registry_read W RegReadAuthToken d
         else if commandId = MC_DRV_REG_READ_ROOT_CONT then registry_read W (RegReadRoot MAX_DATA_SIZE) d
         else if commandId = MC_DRV_REG_READ_SP_CONT then
           get_spid W c (\<lambda>spid. registry_read W (RegReadSp spid MAX_DATA_SIZE)) dflt d
         else if commandId = MC_DRV_REG_READ_TL_CONT then
           get_uuid W c (\<lambda>uuid. get_spid W c (\<lambda>spid.
             registry_read W (RegReadTrustletCon uuid spid MAX_DATA_SIZE)) dflt) dflt d
         else (dflt, d))"

definition processRegistryReadData :: "world \<Rightarrow> u32 \<Rightarrow> conn \<Rightarrow> dev \<Rightarrow> dev" where
  "processRegistryReadData W commandId c d =
     (if \<not> permitted W c then writeResult c MC_DRV_ERR_INVALID_OPERATION d
      else
        (let ((responseId, buf), d1) = registry_read_switch W commandId c d;
             d2 = writeResult c responseId d1
         in if responseId \<noteq> MC_DRV_ERR_INVALID_OPERATION then emit (ConnWrite c [WB buf]) d2 else d2))"

definition store_ta_blob :: "world \<Rightarrow> conn \<Rightarrow> nat \<Rightarrow> u32 \<Rightarrow> dev \<Rightarrow> u32 \<times> dev" where
  "store_ta_blob W c blobSize spid d =
     (let ok = malloc_ok W (hist d) blobSize; d1 = emit (Malloc blobSize ok) d
      in if \<not> ok then (MC_DRV_ERR_NO_FREE_MEMORY, d1)
         else get_bytes W c blobSize (\<lambda>blob d.
           (let (ret, d2) = processLoadCheck W spid blob d
            in if ret \<noteq> MC_DRV_OK then (ret, d2) else registry_run W (RegStoreTABlob spid blob) d2))
           MC_DRV_ERR_INVALID_OPERATION d1)"

definition registry_write_switch :: "world \<Rightarrow> u32 \<Rightarrow> conn \<Rightarrow> nat \<Rightarrow> dev \<Rightarrow> u32 \<times> dev" where
  "registry_write_switch W commandId c soSize d =
     (let dflt = MC_DRV_ERR_INVALID_OPERATION
      in if commandId = MC_DRV_REG_STORE_AUTH_TOKEN then
           get_bytes W c soSize (\<lambda>so. registry_run W (RegStoreAuthToken so)) dflt d
         else if commandId = MC_DRV_REG_WRITE_ROOT_CONT then
           get_bytes W c soSize (\<lambda>so. registry_run W (RegStoreRoot so)) dflt d
         else if commandId = MC_DRV_REG_WRITE_SP_CONT then
           get_spid W c (\<lambda>spid. get_bytes W c soSize
             (\<lambda>so. registry_run W (RegStoreSp spid so)) dflt) dflt d
         else if commandId = MC_DRV_REG_WRITE_TL_CONT then
           get_uuid W c (\<lambda>uuid. get_spid W c (\<lambda>spid. get_bytes W c soSize
             (\<lambda>so. registry_run W (RegStoreTrustletCon uuid spid so)) dflt) dflt) dflt d
         else if commandId = MC_DRV_REG_WRITE_SO_DATA then
           get_bytes W c soSize (\<lambda>so. registry_run W (RegStoreData so)) dflt d
         else if commandId = MC_DRV_REG_STORE_TA_BLOB then
           get_spid W c (\<lambda>spid. store_ta_blob W c soSize spid) dflt d
         else (dflt, d))"

definition processRegistryWriteData :: "world \<Rightarrow> u32 \<Rightarrow> conn \<Rightarrow> dev \<Rightarrow> dev" where
  "processRegistryWriteData W commandId c d =
     (if \<not> permitted W c then writeResult c MC_DRV_ERR_INVALID_OPERATION d
      else
        case getData W c 4 d of
          (None, d1) \<Rightarrow> writeResult c MC_DRV_ERR_INVALID_OPERATION d1
        | (Some b, d1) \<Rightarrow>
            (let soSize = unat (le32 b 0);
                 ok = malloc_ok W (hist d1) soSize;
                 d2 = emit (Malloc soSize ok) d1
             in if \<not> ok then writeResult c MC_DRV_ERR_NO_FREE_MEMORY d2
                else
                  (let (responseId, d3) = registry_write_switch W commandId c soSize d2
                   in writeResult c responseId d3)))"

definition registry_delete_switch :: "world \<Rightarrow> u32 \<Rightarrow> conn \<Rightarrow> dev \<Rightarrow> u32 \<times> dev" where
  "registry_delete_switch W commandId c d =
     (let dflt = MC_DRV_ERR_INVALID_OPERATION
      in if commandId = MC_DRV_REG_DELETE_AUTH_TOKEN then registry_run W RegDeleteAuthToken d
         else if commandId = MC_DRV_REG_DELETE_ROOT_CONT then registry_run W RegCleanupRoot d
         else if commandId = MC_DRV_REG_DELETE_SP_CONT then
           get_spid W c (\<lambda>spid. registry_run W (RegCleanupSp spid)) dflt d
         else if commandId = MC_DRV_REG_DELETE_TL_CONT then
           get_uuid W c (\<lambda>uuid. get_spid W c (\<lambda>spid.
             registry_run W (RegCleanupTrustlet uuid spid)) dflt) dflt d
         else (dflt, d))"

definition processRegistryDeleteData :: "world \<Rightarrow> u32 \<Rightarrow> conn \<Rightarrow> dev \<Rightarrow> dev" where
  "processRegistryDeleteData W commandId c d =
     (if \<not> permitted W c then writeResult c MC_DRV_ERR_INVALID_OPERATION d
      else
        (let (responseId, d1) = registry_delete_switch W commandId c d
         in writeResult c responseId d1))"

section \<open>The dispatcher\<close>

definition registry_writes :: "u32 list" where
  "registry_writes = [MC_DRV_REG_STORE_AUTH_TOKEN, MC_DRV_REG_WRITE_ROOT_CONT, MC_DRV_REG_WRITE_SP_CONT,
     MC_DRV_REG_WRITE_TL_CONT, MC_DRV_REG_WRITE_SO_DATA, MC_DRV_REG_STORE_TA_BLOB]"

definition registry_reads :: "u32 list" where
  "registry_reads = [MC_DRV_REG_READ_AUTH_TOKEN, MC_DRV_REG_READ_ROOT_CONT, MC_DRV_REG_READ_SP_CONT,
     MC_DRV_REG_READ_TL_CONT]"

definition registry_deletes :: "u32 list" where
  "registry_deletes = [MC_DRV_REG_DELETE_AUTH_TOKEN, MC_DRV_REG_DELETE_ROOT_CONT,
     MC_DRV_REG_DELETE_SP_CONT, MC_DRV_REG_DELETE_TL_CONT]"

definition dispatch :: "world \<Rightarrow> u32 \<Rightarrow> conn \<Rightarrow> dev \<Rightarrow> (bool \<times> dev) option" where
  "dispatch W cmd c d =
     (if cmd = 2 then Some (True, processOpenDevice W c d)
      else if cmd = 3 then Some (True, processCloseDevice W c d)
      else if cmd = 5 then Some (True, processOpenSession W c False d)
      else if cmd = 12 then map_option (Pair True) (processOpenTrustlet W c d)
      else if cmd = 13 then Some (True, processOpenSession W c True d)
      else if cmd = 6 then Some (True, processCloseSession W c d)
      else if cmd = 4 then Some (True, processNqConnect W c d)
      else if cmd = 7 then Some (True, processNotify W c d)
      else if cmd = 8 then Some (True, processMapBulkBuf W c d)
      else if cmd = 9 then Some (True, processUnmapBulkBuf W c d)
      else if cmd = 10 then Some (True, processGetVersion c d)
      else if cmd = 11 then Some (True, processGetMobiCoreVersion W c d)
      else if cmd \<in> set registry_writes then Some (True, processRegistryWriteData W cmd c d)
      else if cmd \<in> set registry_reads then Some (True, processRegistryReadData W cmd c d)
      else if cmd \<in> set registry_deletes then Some (True, processRegistryDeleteData W cmd c d)
      else Some (False, d))"

text \<open>
  \<open>handleConnection\<close>: false tells the server to drop the connection. A header shorter than four
  bytes is not noticed.
\<close>

definition handleConnection :: "world \<Rightarrow> conn \<Rightarrow> dev \<Rightarrow> (bool \<times> dev) option" where
  "handleConnection W c d =
     (if mcFault d then Some (False, d)
      else
        (let (rlen, hdr, d1) = readData W c 4 d
         in if rlen = 0 then Some (False, d1)
            else if rlen = -1 then Some (False, d1)
            else if rlen = -2 then Some (False, d1)
            else dispatch W (le32 hdr 0) c d1))"

definition dropConnection :: "world \<Rightarrow> conn \<Rightarrow> dev \<Rightarrow> dev" where
  "dropConnection W c d = (if connectionData d c then close_device W c d else d)"

text \<open>
  Loading a driver at start-up: on success the connection made for it and its TCI buffer are
  remembered. \<open>new_conn\<close> is the fresh connection object.
\<close>

record MobicoreDriverResources =
  res_conn :: conn
  res_pTciWsm :: CWsm
  res_sessionId :: u32

definition loadDeviceDriver :: "world \<Rightarrow> string \<Rightarrow> conn \<Rightarrow> dev \<Rightarrow> MobicoreDriverResources option \<times> dev" where
  "loadDeviceDriver W path new_conn d =
     (let regObj = getDriverBlob W (hist d) path;
          d0 = emit (RegistryBlob (regObj \<noteq> None)) d
      in case regObj of
        None \<Rightarrow> (None, d0)
      | Some ro \<Rightarrow>
          (case registerWsmL2 W (ro_value ro) (ro_len ro) d0 of
             (None, d1) \<Rightarrow> (None, d1)
           | (Some w, d1) \<Rightarrow>
               (case allocateContiguousPersistentWsm W 4096 d1 of
                  (None, d2) \<Rightarrow> (None, snd (unregisterWsmL2 W w d2))
                | (Some tci, d2) \<Rightarrow>
                    (let (ret, d3) = openSession W new_conn (load_data ro w) (wsm_handle tci) (wsm_len tci) 0 d2;
                         d4 = snd (unregisterWsmL2 W w d3)
                     in case ret of
                          Inl _ \<Rightarrow> (None, emit (ConnDelete new_conn) d4)
                        | Inr p \<Rightarrow> (Some \<lparr>res_conn = new_conn, res_pTciWsm = tci,
                                        res_sessionId = pl_sessionId p\<rparr>, d4)))))"
end
