(* ===== verification/McDaemonLaws.thy ===== *)
theory McDaemonLaws
  imports McDaemon
begin

text \<open>
  What holds of every request a client can send. The handlers rely on the device only through
  its operations, so a relation between device states that every operation respects holds
  between before and after any request; the locale below proves this once, and its
  interpretations give the invariant, the isolation of clients and the permanence of a fault.
\<close>

section \<open>Relations that every device operation respects\<close>

locale device_frame =
  fixes R :: "dev \<Rightarrow> dev \<Rightarrow> bool" and W :: world and c :: conn
  assumes R_refl: "R d d"
    and R_trans: "R d1 d2 \<Longrightarrow> R d2 d3 \<Longrightarrow> R d1 d3"
    and R_emit: "R d (emit e d)"
    and R_open: "R d (open_device c d)"
    and R_close: "R d (close_device W c d)"
    and R_openSession: "R d (snd (openSession W c ld h l ofs d))"
    and R_checkLoad: "R d (snd (checkLoad W ld d))"
    and R_closeSession: "R d (snd (closeSession W c sid d))"
    and R_notify: "R d (snd (notify W c sid d))"
    and R_mapBulk: "R d (snd (mapBulk W c sid h a ofs l d))"
    and R_unmapBulk: "R d (snd (unmapBulk W c sid h v l d))"
    and R_version: "R d (snd (getMobiCoreVersion W d))"
begin

lemma R_emits: "R d e \<Longrightarrow> R d (emit x e)"
  by (rule R_trans [OF _ R_emit])

lemma R_write: "R d e \<Longrightarrow> R d (writeResult c code e)"
  by (simp add: writeResult_def R_emits)

lemma R_readData: "readData W c n d = (rlen, buf, d1) \<Longrightarrow> R d d1"
  by (auto simp: readData_def Let_def R_emit split: prod.splits)

lemma R_recv: "recv_payload W c n d = (r, d1) \<Longrightarrow> R d d1"
  using R_readData by (fastforce simp: recv_payload_def Let_def R_write split: prod.splits if_splits)

lemma R_getData: "getData W c n d = (r, d1) \<Longrightarrow> R d d1"
  using R_readData by (fastforce simp: getData_def Let_def split: prod.splits if_splits)

lemma R_check: "(R d (k d)) \<Longrightarrow> R d (check_device c k d)"
  by (simp add: check_device_def R_write R_refl)

lemma R_payload:
  assumes "\<And>cmd d1. R d1 (k cmd d1)"
  shows "R d (case recv_payload W c n d of (None, d1) \<Rightarrow> d1 | (Some cmd, d1) \<Rightarrow> k cmd d1)"
  using R_recv [of n d] assms R_trans by (fastforce split: prod.split option.split)

lemma R_lock: "lockWsmL2 W h d = (r, d1) \<Longrightarrow> R d d1"
  and R_unlock: "R d (snd (unlockWsmL2 W h d))"
  and R_find: "findWsmL2 W h fd d = (a, d1) \<Longrightarrow> R d d1"
  and R_register: "registerWsmL2 W v l d = (w, d1) \<Longrightarrow> R d d1"
  and R_unregister: "unregisterWsmL2 W x d = (b, d1) \<Longrightarrow> R d d1"
  by (auto simp: lockWsmL2_def unlockWsmL2_def findWsmL2_def registerWsmL2_def unregisterWsmL2_def
      Let_def R_emit)

lemma R_open_blob: "R d (open_blob W c ro h l tci d)"
proof (cases ro)
  case (Some r)
  obtain w d1 where reg: "registerWsmL2 W (ro_value r) (ro_len r) d = (w, d1)" by force
  note 1 = R_register [OF reg]
  show ?thesis
  proof (cases w)
    case (Some x)
    obtain ret d2 where o: "openSession W c (load_data r x) h l tci d1 = (ret, d2)" by force
    obtain ok d3 where u: "unregisterWsmL2 W x d2 = (ok, d3)" by force
    have "R d1 d2" using R_openSession [of d1 "load_data r x" h l tci] o by simp
    then have "R d d3" using 1 R_unregister [OF u] R_trans by blast
    then show ?thesis using \<open>ro = Some r\<close> reg Some o u
      by (auto simp: open_blob_def Let_def R_write R_emits R_refl split: sum.split)
  qed (use 1 reg \<open>ro = Some r\<close> in \<open>auto simp: open_blob_def R_write R_refl\<close>)
qed (simp add: open_blob_def R_write R_refl)

lemma R_processOpenDevice: "R d (processOpenDevice W c d)"
  unfolding processOpenDevice_def by (rule R_payload) (simp add: R_write R_refl R_open)

lemma R_processCloseDevice: "R d (processCloseDevice W c d)"
  unfolding processCloseDevice_def by (rule R_check) (simp add: R_write R_close)

lemma R_processOpenSession: "R d (processOpenSession W c gp d)"
  unfolding processOpenSession_def Let_def
  by (intro R_payload R_check) (rule R_trans [OF R_emit R_open_blob])

lemma R_processCloseSession: "R d (processCloseSession W c d)"
proof -
  have "R d (let (ret, d2) = closeSession W c sid d in writeResult c ret d2)" for sid d
    using R_closeSession [of d sid] by (auto simp: R_write split: prod.split)
  then show ?thesis unfolding processCloseSession_def by (intro R_payload R_check)
qed

lemma R_processNotify: "R d (processNotify W c d)"
proof -
  obtain rlen cmd d1 where r: "readData W c 4 d = (rlen, cmd, d1)" by (metis prod_cases3)
  from R_readData [OF r] R_notify [of d1] R_trans show ?thesis
    unfolding processNotify_def r by (auto simp: Let_def)
qed

lemma R_processMapBulkBuf: "R d (processMapBulkBuf W c d)"
  unfolding processMapBulkBuf_def
proof (intro R_payload R_check)
  fix cmd d
  obtain locked d2 where l: "lockWsmL2 W (le32 cmd 4) d = (locked, d2)" by force
  obtain a d3 where f: "findWsmL2 W (le32 cmd 4) (socketDescriptor W c) d2 = (a, d3)" by force
  obtain r d4 where m: "mapBulk W c (le32 cmd 0) (le32 cmd 4) a (le32 cmd 12) (le32 cmd 20) d3 = (r, d4)"
    by force
  have 3: "R d d3" using R_trans [OF R_lock [OF l] R_find [OF f]] .
  have "R d3 d4" using R_mapBulk [of d3 "le32 cmd 0" "le32 cmd 4" a "le32 cmd 12" "le32 cmd 20"] m by simp
  then have 4: "R d d4" by (rule R_trans [OF 3])
  show "R d (let (locked, d2) = lockWsmL2 W (le32 cmd 4) d
      in if \<not> locked then writeResult c MC_DRV_ERR_DAEMON_WSM_HANDLE_NOT_FOUND d2
         else let (pAddrL2, d3) = findWsmL2 W (le32 cmd 4) (socketDescriptor W c) d2
           in if pAddrL2 = 0 then writeResult c MC_DRV_ERR_DAEMON_WSM_HANDLE_NOT_FOUND d3
              else case mapBulk W c (le32 cmd 0) (le32 cmd 4) pAddrL2 (le32 cmd 12) (le32 cmd 20) d3 of
                (Inl e, d4) \<Rightarrow> writeResult c e d4
              | (Inr v, d4) \<Rightarrow> emit (ConnWrite c [W32 MC_DRV_OK, W32 (le32 cmd 0), W32 v]) d4)"
    using R_lock [OF l] 3 4 m l f by (auto simp: R_write R_emits split: sum.split)
qed

lemma R_processUnmapBulkBuf: "R d (processUnmapBulkBuf W c d)"
  unfolding processUnmapBulkBuf_def
proof (intro R_payload R_check)
  fix cmd d
  obtain r d2 where u: "unmapBulk W c (le32 cmd 0) (le32 cmd 4) (le32 cmd 12) (le32 cmd 20) d = (r, d2)"
    by force
  have 2: "R d d2" using R_unmapBulk [of d "le32 cmd 0" "le32 cmd 4" "le32 cmd 12" "le32 cmd 20"] u by simp
  show "R d (let (mcResult, d2) = unmapBulk W c (le32 cmd 0) (le32 cmd 4) (le32 cmd 12) (le32 cmd 20) d
      in if mcResult \<noteq> MC_DRV_OK then writeResult c mcResult d2
         else writeResult c MC_DRV_OK (snd (unlockWsmL2 W (le32 cmd 4) d2)))"
    using 2 R_trans [OF 2 R_unlock] u by (simp add: R_write)
qed

lemma R_processGetVersion: "R d (processGetVersion c d)"
  by (simp add: processGetVersion_def R_emit)

lemma R_processGetMobiCoreVersion: "R d (processGetMobiCoreVersion W c d)"
  unfolding processGetMobiCoreVersion_def
proof (rule R_check)
  show "R d (case getMobiCoreVersion W d of (Inl e, d1) \<Rightarrow> writeResult c e d1
      | (Inr v, d1) \<Rightarrow> emit (ConnWrite c [W32 MC_DRV_OK, WVersion v]) d1)"
    using R_version [of d] by (auto simp: R_write R_emits split: prod.split sum.split)
qed

lemma R_read_trustlet:
  assumes "read_trustlet W c n acc d = Some (r, d')" shows "R d d'"
proof -
  have "W = W \<longrightarrow> c = c \<longrightarrow> R d (snd (r, d'))"
  proof (rule read_trustlet.raw_induct [where P = "\<lambda>V b m xs e p. V = W \<longrightarrow> b = c \<longrightarrow> R e (snd p)",
        OF _ assms], intro impI)
    fix rec V b m xs e p
    assume IH: "\<And>V b m xs e p. rec V b m xs e = Some p \<Longrightarrow> V = W \<longrightarrow> b = c \<longrightarrow> R e (snd p)"
      and eq: "(if m = 0 then Some (Some xs, e)
        else let (rlen, buf, d1) = readData V b m e
          in if rlen < 0 then Some (None, writeResult b MC_DRV_ERR_DAEMON_SOCKET d1)
             else rec V b (m - nat rlen) (xs @ take (nat rlen) buf) d1) = Some p"
      and [simp]: "V = W" "b = c"
    obtain rlen buf d1 where r: "readData W c m e = (rlen, buf, d1)" by (metis prod_cases3)
    show "R e (snd p)"
    proof (cases "m = 0 \<or> rlen < 0")
      case True
      with eq r R_readData [OF r] show ?thesis by (auto simp: R_refl R_write Let_def split: if_splits)
    next
      case False
      with eq r have "rec W c (m - nat rlen) (xs @ take (nat rlen) buf) d1 = Some p"
        by (simp add: Let_def)
      from IH [OF this] R_trans [OF R_readData [OF r]] show ?thesis by simp
    qed
  qed
  then show ?thesis by simp
qed

lemma R_processOpenTrustlet:
  assumes "processOpenTrustlet W c d = Some d'" shows "R d d'"
proof -
  obtain r d1 where p: "recv_payload W c 28 d = (r, d1)" by force
  note 1 = R_recv [OF p]
  show ?thesis
  proof (cases r)
    case (Some cmd)
    let ?n = "unat (le32 cmd 8)"
    let ?ok = "malloc_ok W (hist d1) ?n"
    note 2 = R_emits [OF 1, of "Malloc ?n ?ok"]
    show ?thesis
    proof (cases "connectionData d1 c \<and> ?ok")
      case True
      then obtain rb d3 where rt: "read_trustlet W c ?n [] (emit (Malloc ?n ?ok) d1) = Some (rb, d3)"
        using assms p Some by (auto simp: processOpenTrustlet_def Let_def split: option.splits)
      have 3: "R d d3" by (rule R_trans [OF 2 R_read_trustlet [OF rt]])
      have "R d (open_blob W c ro h l t (emit x d3))" for ro h l t x
        by (rule R_trans [OF R_emits [OF 3] R_open_blob])
      with 3 True rt assms p Some show ?thesis
        by (auto simp: processOpenTrustlet_def Let_def split: option.splits)
    next
      case False
      with assms p Some 1 2 show ?thesis
        by (auto simp: processOpenTrustlet_def Let_def R_write split: if_splits)
    qed
  qed (use 1 p assms in \<open>simp add: processOpenTrustlet_def\<close>)
qed

lemma R_registry: "registry_do W r d = (ret, out, d1) \<Longrightarrow> R d d1"
  by (auto simp: registry_do_def Let_def R_emit split: prod.splits)

lemma R_registry_read: "R d (snd (registry_read W r d))"
  and R_registry_run: "R d (snd (registry_run W r d))"
  using R_registry [of r d] by (auto simp: registry_read_def registry_run_def split: prod.split)

lemma R_get_spid: "(\<And>x d1. R d1 (snd (k x d1))) \<Longrightarrow> R d (snd (get_spid W c k dflt d))"
  and R_get_uuid: "(\<And>x d1. R d1 (snd (l x d1))) \<Longrightarrow> R d (snd (get_uuid W c l dflt d))"
  and R_get_bytes: "(\<And>x d1. R d1 (snd (m x d1))) \<Longrightarrow> R d (snd (get_bytes W c n m dflt d))"
  using R_getData R_trans
  by (fastforce simp: get_spid_def get_uuid_def get_bytes_def split: prod.split option.split)+

lemma R_processRegistryReadData: "R d (processRegistryReadData W cmd c d)"
proof -
  obtain x buf d1 where s: "registry_read_switch W cmd c d = ((x, buf), d1)" by (metis surj_pair)
  have "R d (snd (registry_read_switch W cmd c d))"
    by (simp add: registry_read_switch_def Let_def R_get_spid R_get_uuid R_registry_read R_refl)
  with s have "R d d1" by simp
  with s show ?thesis by (auto simp: processRegistryReadData_def Let_def R_write R_emits R_refl)
qed

lemma R_processLoadCheck: "R d (snd (processLoadCheck W spid blob d))"
proof (cases "memGetServiceBlob W (hist d) spid blob")
  case (Some r)
  let ?d = "emit (RegistryBlob True) d"
  obtain w d1 where reg: "registerWsmL2 W (ro_value r) (ro_len r) ?d = (w, d1)" by force
  have 1: "R d d1" by (rule R_trans [OF R_emit R_register [OF reg]])
  show ?thesis
  proof (cases w)
    case (Some x)
    obtain ret d2 where o: "checkLoad W (load_data r x) d1 = (ret, d2)" by force
    obtain ok d3 where u: "unregisterWsmL2 W x d2 = (ok, d3)" by force
    have "R d1 d2" using R_checkLoad [of d1 "load_data r x"] o by simp
    then have "R d d3" using 1 R_unregister [OF u] R_trans by blast
    then show ?thesis using \<open>memGetServiceBlob W (hist d) spid blob = Some r\<close> reg Some o u
      by (auto simp: processLoadCheck_def Let_def R_emit)
  qed (use 1 reg \<open>memGetServiceBlob W (hist d) spid blob = Some r\<close> in
      \<open>auto simp: processLoadCheck_def Let_def R_emit\<close>)
qed (simp add: processLoadCheck_def Let_def R_emit)

lemma R_store_ta_blob: "R d (snd (store_ta_blob W c n spid d))"
proof -
  have "R d1 (snd (let (ret, d2) = processLoadCheck W spid blob d1
      in if ret \<noteq> MC_DRV_OK then (ret, d2) else registry_run W (RegStoreTABlob spid blob) d2))" for blob d1
    using R_processLoadCheck [of d1 spid blob] R_trans [OF _ R_registry_run]
    by (auto split: prod.split)
  then have "R e (snd (get_bytes W c n (\<lambda>blob d1. let (ret, d2) = processLoadCheck W spid blob d1
      in if ret \<noteq> MC_DRV_OK then (ret, d2) else registry_run W (RegStoreTABlob spid blob) d2) dflt e))"
    for e dflt by (rule R_get_bytes)
  from R_trans [OF R_emit this] show ?thesis
    by (auto simp: store_ta_blob_def Let_def R_emit)
qed

lemma R_processRegistryWriteData: "R d (processRegistryWriteData W cmd c d)"
proof -
  obtain r d1 where g: "getData W c 4 d = (r, d1)" by force
  note 1 = R_getData [OF g]
  show ?thesis
  proof (cases r)
    case (Some b)
    let ?n = "unat (le32 b 0)"
    define d2 where "d2 = emit (Malloc ?n (malloc_ok W (hist d1) ?n)) d1"
    obtain x d3 where s: "registry_write_switch W cmd c ?n d2 = (x, d3)" by force
    have "R d2 (snd (registry_write_switch W cmd c ?n d2))"
      by (simp add: registry_write_switch_def Let_def R_get_spid R_get_uuid R_get_bytes
          R_registry_run R_store_ta_blob R_refl)
    with s have "R d d3" using R_trans [OF R_emits [OF 1]] by (simp add: d2_def)
    with g Some s 1 show ?thesis unfolding d2_def
      by (cases "malloc_ok W (hist d1) ?n")
        (simp_all add: processRegistryWriteData_def Let_def R_write R_emits R_refl)
  qed (use 1 g in \<open>simp add: processRegistryWriteData_def R_write R_refl\<close>)
qed

lemma R_processRegistryDeleteData: "R d (processRegistryDeleteData W cmd c d)"
proof -
  obtain x d1 where s: "registry_delete_switch W cmd c d = (x, d1)" by force
  have "R d (snd (registry_delete_switch W cmd c d))"
    by (simp add: registry_delete_switch_def Let_def R_get_spid R_get_uuid R_registry_run R_refl)
  with s have "R d d1" by simp
  with s show ?thesis by (auto simp: processRegistryDeleteData_def R_write R_refl)
qed

text \<open>Every request but \<open>NQ_CONNECT\<close>, whatever bytes the client sends.\<close>

lemma R_dispatch:
  assumes "dispatch W cmd c d = Some (go, d')" "cmd \<noteq> 4" shows "R d d'"
  using assms
  by (auto simp: dispatch_def R_refl R_processOpenDevice R_processCloseDevice R_processOpenSession
      R_processOpenTrustlet R_processCloseSession R_processNotify R_processMapBulkBuf
      R_processUnmapBulkBuf R_processGetVersion R_processGetMobiCoreVersion
      R_processRegistryWriteData R_processRegistryReadData R_processRegistryDeleteData
      split: if_splits)

lemma R_handleConnection:
  assumes h: "handleConnection W c d = Some (go, d')"
    and nq: "\<And>d d'. dispatch W 4 c d = Some (go, d') \<Longrightarrow> R d d'"
  shows "R d d'"
proof -
  obtain rlen hdr d1 where r: "readData W c 4 d = (rlen, hdr, d1)" by (metis prod_cases3)
  have "R d1 d'" if "dispatch W (le32 hdr 0) c d1 = Some (go, d')"
    using R_dispatch [OF that] nq that by (cases "le32 hdr 0 = 4") auto
  with h r R_readData [OF r] show ?thesis
    by (auto simp: handleConnection_def R_refl Let_def intro: R_trans split: if_splits)
qed

lemma R_dropConnection: "R d (dropConnection W c d)"
  by (simp add: dropConnection_def R_close R_refl)

end

text \<open>The same for relations that attaching a notification connection respects too.\<close>

locale device_frame_nq = device_frame +
  assumes R_nq: "R d (snd (registerTrustletConnection c cmd d))"
    and R_flush: "R d (with_session k (\<lambda>s. snd (processQueuedNotifications s)) d)"
begin

lemma R_processNqConnect: "R d (processNqConnect W c d)"
  unfolding processNqConnect_def
proof (rule R_payload)
  fix cmd d1
  let ?d2 = "emit (ConnDetach c) (emit (ConnDetach c) d1)"
  let ?cmd = "\<lparr>nqc_deviceId = le32 cmd 0, nqc_sessionId = le32 cmd 4,
    nqc_deviceSessionId = le32 cmd 8, nqc_sessionMagic = le32 cmd 12\<rparr>"
  obtain r d3 where g: "registerTrustletConnection c ?cmd ?d2 = (r, d3)" by force
  have 2: "R d1 ?d2" by (simp add: R_emits R_refl)
  have "R ?d2 d3" using R_nq [of ?d2 ?cmd] g by simp
  then have 3: "R d1 d3" by (rule R_trans [OF 2])
  have writes: "R d1 e \<Longrightarrow> R d1 (foldl (\<lambda>d n. emit (ConnWrite c (notification_wire n)) d) e ns)" for e ns
    by (induction ns arbitrary: e) (simp_all add: R_emits)
  have flush: "R d1 (with_session k (\<lambda>s. snd (processQueuedNotifications s)) (writeResult c x d3))" for k x
    by (rule R_trans [OF R_write [OF 3] R_flush])
  show "R d1 (if connectionData d1 c then writeResult c MC_DRV_ERR_NQ_FAILED d1
      else let d2 = ?d2 in
        if le32 cmd 0 \<noteq> MC_DEVICE_ID_DEFAULT then writeResult c MC_DRV_ERR_UNKNOWN_DEVICE d2
        else case registerTrustletConnection c ?cmd d2 of
          (None, d3) \<Rightarrow> writeResult c MC_DRV_ERR_UNKNOWN d3
        | (Some ts, d3) \<Rightarrow>
            let (ns, ts') = processQueuedNotifications ts;
                d4 = with_session (ts_self ts) (\<lambda>s. snd (processQueuedNotifications s))
                  (writeResult c MC_DRV_OK d3)
            in foldl (\<lambda>d n. emit (ConnWrite c (notification_wire n)) d) d4 ns)"
    using 2 3 writes flush g
    by (auto simp: Let_def R_write R_refl split: option.split prod.split)
qed

lemma R_request: "handleConnection W c d = Some (go, d') \<Longrightarrow> R d d'"
  by (rule R_handleConnection) (auto simp: dispatch_def R_processNqConnect)

end

section \<open>The device's relations\<close>

text \<open>The invariant is kept and the sessions of other clients are only notified.\<close>

definition isolates :: "world \<Rightarrow> conn \<Rightarrow> dev \<Rightarrow> dev \<Rightarrow> bool" where
  "isolates W c d d' \<longleftrightarrow> (new_fresh W \<longrightarrow> dev_inv d \<longrightarrow> dev_inv d' \<and> confined c d d')"

definition keeps_inv :: "world \<Rightarrow> dev \<Rightarrow> dev \<Rightarrow> bool" where
  "keeps_inv W d d' \<longleftrightarrow> (new_fresh W \<longrightarrow> dev_inv d \<longrightarrow> dev_inv d')"

lemma confined_emit: "confined c d (emit e d)"
  by (simp add: confined_same_sessions)

lemma confined_exchange: "mcp_exchange W cmd d = (r, d') \<Longrightarrow> confined c d d'"
  using confined_waited [OF waited_mcp_exchange, of c d W cmd] by simp

lemma confined_checkLoad: "confined c d (snd (checkLoad W ld d))"
proof -
  have "confined c d d'" if "mcp_exchange W cmd (d\<lparr>notifications := []\<rparr>) = (r, d')" for cmd r d'
    using confined_exchange [OF that, of c] by (simp add: confined_def)
  then show ?thesis by (auto simp: checkLoad_def Let_def split: sum.split prod.split)
qed

lemma confined_version: "confined c d (snd (getMobiCoreVersion W d))"
  using confined_exchange [of W CmdGetMobiCoreVersion d _ _ c]
  by (auto simp: getMobiCoreVersion_def confined_def split: option.split sum.split prod.split)

interpretation isolation: device_frame "isolates W c" W c for W c
proof
  fix d d1 d2 d3 ld h l ofs sid a v e
  show "isolates W c d d" by (simp add: isolates_def)
  show "isolates W c d1 d2 \<Longrightarrow> isolates W c d2 d3 \<Longrightarrow> isolates W c d1 d3"
    using confined_trans by (fastforce simp: isolates_def)
  show "isolates W c d (emit e d)" by (simp add: isolates_def confined_emit)
  show "isolates W c d (open_device c d)" by (simp add: isolates_def open_device_def confined_same_sessions)
  have step: "isolates W c d d'" if "dev_step W d d'" "dev_inv d \<Longrightarrow> confined c d d'" for d'
    using that dev_inv_step by (auto simp: isolates_def)
  show "isolates W c d (close_device W c d)"
    by (rule step [OF step_close confined_close_device])
  show "isolates W c d (snd (openSession W c ld h l ofs d))"
    by (rule step [OF step_openSession confined_openSession])
  show "isolates W c d (snd (checkLoad W ld d))"
    by (rule step [OF step_checkLoad confined_checkLoad])
  show "isolates W c d (snd (closeSession W c sid d))"
    by (rule step [OF step_closeSession confined_closeSession])
  have "confined c d (snd (notify W c sid d))"
    using confined_waited [OF waited_notify_swd] by (simp add: notify_def split: option.split)
  then show "isolates W c d (snd (notify W c sid d))" by (rule step [OF step_notify])
  show "isolates W c d (snd (getMobiCoreVersion W d))"
    by (rule step [OF step_version confined_version])
next
  fix d sid h a ofs l v
  have step: "isolates W c d d'" if "dev_step W d d'" "dev_inv d \<Longrightarrow> confined c d d'" for d'
    using that dev_inv_step by (auto simp: isolates_def)
  show "isolates W c d (snd (mapBulk W c sid h a ofs l d))"
    by (rule step [OF step_mapBulk confined_mapBulk])
  show "isolates W c d (snd (unmapBulk W c sid h v l d))"
    by (rule step [OF step_unmapBulk confined_unmapBulk])
qed

lemma session_ok_flush: "session_ok s \<Longrightarrow> session_ok (snd (processQueuedNotifications s))"
  by (auto simp: session_ok_def ts_inv_def processQueuedNotifications_def split: option.split)

interpretation invariant: device_frame_nq "keeps_inv W" W c for W c
proof
  fix d d1 d2 d3 k e cmd
  have s: "keeps_inv W d d'" if "isolates W c d d'" for d d' using that by (simp add: isolates_def keeps_inv_def)
  show "keeps_inv W d d" by (simp add: keeps_inv_def)
  show "keeps_inv W d1 d2 \<Longrightarrow> keeps_inv W d2 d3 \<Longrightarrow> keeps_inv W d1 d3" by (simp add: keeps_inv_def)
  show "keeps_inv W d (emit e d)" by (simp add: keeps_inv_def)
  show "keeps_inv W d (open_device c d)" by (rule s [OF isolation.R_open])
  show "keeps_inv W d (close_device W c d)" by (rule s [OF isolation.R_close])
  show "keeps_inv W d (snd (openSession W c ld h l ofs d))" for ld h l ofs by (rule s [OF isolation.R_openSession])
  show "keeps_inv W d (snd (checkLoad W ld d))" for ld by (rule s [OF isolation.R_checkLoad])
  show "keeps_inv W d (snd (closeSession W c sid d))" for sid by (rule s [OF isolation.R_closeSession])
  show "keeps_inv W d (snd (notify W c sid d))" for sid by (rule s [OF isolation.R_notify])
  show "keeps_inv W d (snd (mapBulk W c sid h a ofs l d))" for sid h a ofs l by (rule s [OF isolation.R_mapBulk])
  show "keeps_inv W d (snd (unmapBulk W c sid h v l d))" for sid h v l by (rule s [OF isolation.R_unmapBulk])
  show "keeps_inv W d (snd (getMobiCoreVersion W d))" by (rule s [OF isolation.R_version])
  show "keeps_inv W d (snd (registerTrustletConnection c cmd d))"
    using dev_inv_step [OF _ step_register] by (auto simp: keeps_inv_def)
  have "ts_self (snd (processQueuedNotifications s)) = ts_self s" for s
    by (simp add: processQueuedNotifications_def split: option.split)
  then show "keeps_inv W d (with_session k (\<lambda>s. snd (processQueuedNotifications s)) d)"
    using dev_inv_with_session [OF _ session_ok_flush] by (simp add: keeps_inv_def)
qed

section \<open>Properties of requests\<close>

lemma dispatch_returns: "cmd \<noteq> 12 \<Longrightarrow> \<exists>go d'. dispatch W cmd c d = Some (go, d')"
  by (auto simp: dispatch_def)

lemma handleConnection_returns:
  "le32 (fst (snd (readData W c 4 d))) 0 \<noteq> 12 \<Longrightarrow> \<exists>go d'. handleConnection W c d = Some (go, d')"
  using dispatch_returns by (auto simp: handleConnection_def Let_def split: prod.split)

text \<open>
  C2: the device invariant survives every request, whatever bytes a client sends, and whatever
  the kernel module, the secure world, the registry and the allocator answer.
\<close>

theorem requests_keep_invariant:
  assumes "new_fresh W" "dev_inv d" "handleConnection W c d = Some (go, d')"
  shows "dev_inv d'"
  using invariant.R_request [OF assms(3)] assms(1,2) by (simp add: keeps_inv_def)

text \<open>A client that sends the header of a request without the rest of it.\<close>

definition client_sending :: "u8 list \<Rightarrow> u8 list \<Rightarrow> world \<Rightarrow> world" where
  "client_sending hdr body W = W\<lparr>sock_readData := (\<lambda>h c n.
     let b = (if h = [] then hdr else body) in (int (min n (length b)), take n b))\<rparr>"

theorem requests_keep_invariant_witness:
  "\<exists>go d'. handleConnection (client_sending [6, 0, 0, 0] [5, 0, 0, 0] buffer_world) 1 sample_dev = Some (go, d')
     \<and> dev_inv d'"
proof -
  let ?W = "client_sending [6, 0, 0, 0] [5, 0, 0, 0] buffer_world"
  have "le32 (fst (snd (readData ?W 1 4 sample_dev))) 0 = 6" by code_simp
  then obtain go d' where h: "handleConnection ?W 1 sample_dev = Some (go, d')"
    using handleConnection_returns [of ?W 1 sample_dev] by fastforce
  have "new_fresh ?W" using new_fresh_buffer by (simp add: new_fresh_def client_sending_def)
  from requests_keep_invariant [OF this dev_inv_sample h] h show ?thesis by blast
qed



text \<open>
  a connection must open the device before it can use it. Every command that needs a device
  is answered, without one, by the error for that (or by a socket error when the payload cannot
  be read), and apart from reading and that answer nothing happens.
\<close>

theorem device_required:
  assumes "\<not> connectionData d c" "cmd \<in> {3, 5, 6, 8, 9, 11, 13}"
  shows "\<exists>es. dispatch W cmd c d = Some (True, d\<lparr>hist := hist d @ es\<rparr>)
    \<and> (\<forall>e \<in> set es. (\<exists>n. e = ConnRead c n)
         \<or> e = ConnWrite c [W32 MC_DRV_ERR_DAEMON_DEVICE_NOT_OPEN]
         \<or> e = ConnWrite c [W32 MC_DRV_ERR_DAEMON_SOCKET])
    \<and> (\<exists>w. ConnWrite c w \<in> set es)"
proof -
  define refused where "refused d' \<longleftrightarrow> (\<exists>es. d' = d\<lparr>hist := hist d @ es\<rparr>
    \<and> (\<forall>e \<in> set es. (\<exists>n. e = ConnRead c n)
         \<or> e = ConnWrite c [W32 MC_DRV_ERR_DAEMON_DEVICE_NOT_OPEN]
         \<or> e = ConnWrite c [W32 MC_DRV_ERR_DAEMON_SOCKET])
    \<and> (\<exists>w. ConnWrite c w \<in> set es))" for d'
  have chk: "check_device c k d1 = writeResult c MC_DRV_ERR_DAEMON_DEVICE_NOT_OPEN d1"
    if "connectionData d1 = connectionData d" for k d1
    using that assms(1) by (simp add: check_device_def)
  have direct: "refused (check_device c k d)" for k
    unfolding chk [OF refl] refused_def writeResult_def emit_def by (intro exI conjI) auto
  have payload: "refused (case recv_payload W c n d of (None, d1) \<Rightarrow> d1
      | (Some cmd, d1) \<Rightarrow> check_device c (k cmd) d1)" for n k
  proof -
    obtain r d1 where p: "recv_payload W c n d = (r, d1)" by force
    then have d1: "case r of None \<Rightarrow> \<exists>x. d1 = d\<lparr>hist := hist d @ [ConnRead c x, ConnWrite c [W32 MC_DRV_ERR_DAEMON_SOCKET]]\<rparr>
        | Some _ \<Rightarrow> \<exists>x. d1 = d\<lparr>hist := hist d @ [ConnRead c x]\<rparr>"
      by (auto simp: recv_payload_def readData_def writeResult_def emit_def Let_def
          split: prod.splits if_splits)
    show ?thesis
    proof (cases r)
      case None
      then obtain x where "d1 = d\<lparr>hist := hist d @ [ConnRead c x, ConnWrite c [W32 MC_DRV_ERR_DAEMON_SOCKET]]\<rparr>"
        using d1 by auto
      with p None show ?thesis unfolding refused_def
        by (intro exI [of _ "[ConnRead c x, ConnWrite c [W32 MC_DRV_ERR_DAEMON_SOCKET]]"]) auto
    next
      case (Some b)
      then obtain x where e: "d1 = d\<lparr>hist := hist d @ [ConnRead c x]\<rparr>" using d1 by auto
      then have "check_device c (k b) d1 = d\<lparr>hist := hist d
          @ [ConnRead c x, ConnWrite c [W32 MC_DRV_ERR_DAEMON_DEVICE_NOT_OPEN]]\<rparr>"
        by (simp add: chk writeResult_def emit_def)
      with p Some show ?thesis unfolding refused_def
        by (intro exI [of _ "[ConnRead c x, ConnWrite c [W32 MC_DRV_ERR_DAEMON_DEVICE_NOT_OPEN]]"]) auto
    qed
  qed
  have "\<exists>d'. dispatch W cmd c d = Some (True, d') \<and> refused d'"
    using assms(2) payload direct
    by (auto simp: dispatch_def processCloseDevice_def processOpenSession_def processCloseSession_def
        processMapBulkBuf_def processUnmapBulkBuf_def processGetMobiCoreVersion_def)
  then show ?thesis unfolding refused_def by blast
qed

theorem device_required_witness:
  "\<exists>es. dispatch quiet_world 11 1 sample_dev = Some (True, sample_dev\<lparr>hist := hist sample_dev @ es\<rparr>)"
  using device_required [of sample_dev 1 11 quiet_world] by (auto simp: sample_dev_def newDevice_def)

text \<open>
  the lock that \<open>MAP_BULK_BUF\<close> takes on the client's buffer is never given back by the
  request itself: once it has succeeded, the handle is locked once more after the request,
  also when resolving the buffer, finding the session or mapping fails and the client is told
  so.
\<close>

theorem map_bulk_keeps_lock:
  assumes "recv_payload W c 28 d = (Some cmd, d1)" "connectionData d1 c"
    and "kmod_lockWsmL2 W (hist d1) (le32 cmd 4) = 0"
  shows "locks (le32 cmd 4) (processMapBulkBuf W c d) = locks (le32 cmd 4) d + 1"
proof -
  let ?h = "le32 cmd 4"
  have 1: "locks ?h d1 = locks ?h d"
    using assms(1) by (auto simp: recv_payload_def readData_def writeResult_def Let_def
        lock_change_def split: prod.splits if_splits)
  obtain d2 where l: "lockWsmL2 W ?h d1 = (True, d2)" "locks ?h d2 = locks ?h d + 1"
    using assms(3) 1 by (simp add: lockWsmL2_def Let_def)
  obtain a d3 where f: "findWsmL2 W ?h (socketDescriptor W c) d2 = (a, d3)" by force
  then have 3: "locks ?h d3 = locks ?h d + 1" using l(2) by (auto simp: findWsmL2_def Let_def)
  obtain r d4 where m: "mapBulk W c (le32 cmd 0) ?h a (le32 cmd 12) (le32 cmd 20) d3 = (r, d4)" by force
  then have 4: "locks ?h d4 = locks ?h d + 1"
    using 3 locks_exchange by (fastforce simp: mapBulk_def Let_def split: option.splits sum.splits prod.splits if_splits)
  show ?thesis using assms(1,2) l f m 3 4
    by (auto simp: processMapBulkBuf_def check_device_def writeResult_def lock_change_def split: sum.split)
qed

text \<open>The client names a session that does not exist; its buffer 7 stays locked.\<close>

theorem map_bulk_keeps_lock_witness:
  "locks 7 (processMapBulkBuf (client_sending [] ([9, 0, 0, 0, 7, 0, 0, 0] @ replicate 20 0)
      (buffer_world\<lparr>kmod_findWsmL2 := (\<lambda>_ _ _. 0x9000)\<rparr>)) 1
      (open_device 1 (emit MutexLock sample_dev))) = 1"
proof -
  let ?W = "client_sending [] ([9, 0, 0, 0, 7, 0, 0, 0] @ replicate 20 0)
    (buffer_world\<lparr>kmod_findWsmL2 := (\<lambda>_ _ _. 0x9000)\<rparr>)"
  let ?d = "open_device 1 (emit MutexLock sample_dev)"
  let ?b = "[9, 0, 0, 0, 7, 0, 0, 0] @ replicate 20 0"
  have p: "recv_payload ?W 1 28 ?d = (Some ?b, emit (ConnRead 1 28) ?d)"
    by (simp add: recv_payload_def readData_def client_sending_def open_device_def emit_def)
  have h: "le32 ?b 4 = 7" by code_simp
  have "connectionData (emit (ConnRead 1 28) ?d) 1" by (simp add: open_device_def emit_def)
  moreover have "kmod_lockWsmL2 ?W (hist (emit (ConnRead 1 28) ?d)) (le32 ?b 4) = 0"
    by (simp add: client_sending_def buffer_world_def answering_def quiet_world_def)
  moreover have "locks 7 ?d = 0" by code_simp
  ultimately show ?thesis using map_bulk_keeps_lock [OF p] h by simp
qed

lemma read_trustlet_returns:
  assumes "\<And>h m. fst (sock_readData W h c m) \<noteq> 0"
  shows "\<exists>r. read_trustlet W c n acc d = Some r"
proof (induction n arbitrary: acc d rule: less_induct)
  case (less n)
  obtain rlen buf d1 where r: "readData W c n d = (rlen, buf, d1)" by (metis prod_cases3)
  then have "rlen \<noteq> 0" using assms [of "hist d" n] by (auto simp: readData_def split: prod.splits)
  show ?case
  proof (cases "n = 0 \<or> rlen < 0")
    case True
    then show ?thesis using r by (subst read_trustlet.simps) auto
  next
    case False
    then have "n - nat rlen < n" using \<open>rlen \<noteq> 0\<close> by simp
    from less.IH [OF this] False r show ?thesis by (subst read_trustlet.simps) simp
  qed
qed

lemma read_trustlet_hangs:
  assumes "\<And>h m. length h \<ge> k \<Longrightarrow> fst (sock_readData W h c m) = 0"
    and "n > 0" "length (hist d) \<ge> k"
  shows "read_trustlet W c n acc d = None"
proof -
  have False if r: "read_trustlet W c n acc d = Some p" for p
  proof -
    have "W = W \<longrightarrow> c = c \<longrightarrow> n > 0 \<longrightarrow> length (hist d) \<ge> k \<longrightarrow> False"
    proof (rule read_trustlet.raw_induct [where
          P = "\<lambda>V b m xs e p. V = W \<longrightarrow> b = c \<longrightarrow> m > 0 \<longrightarrow> length (hist e) \<ge> k \<longrightarrow> False",
          OF _ r], intro impI)
      fix rec V b m xs e p
      assume IH: "\<And>V b m xs e p. rec V b m xs e = Some p \<Longrightarrow>
            V = W \<longrightarrow> b = c \<longrightarrow> m > 0 \<longrightarrow> length (hist e) \<ge> k \<longrightarrow> False"
        and eq: "(if m = 0 then Some (Some xs, e)
          else let (rlen, buf, d1) = readData V b m e
            in if rlen < 0 then Some (None, writeResult b MC_DRV_ERR_DAEMON_SOCKET d1)
               else rec V b (m - nat rlen) (xs @ take (nat rlen) buf) d1) = Some p"
        and [simp]: "V = W" "b = c" and m: "m > 0" "length (hist e) \<ge> k"
      obtain rl buf where s: "sock_readData W (hist e) c m = (rl, buf)" by force
      then have "readData W c m e = (0, buf, emit (ConnRead c 0) e)"
        using assms(1) [OF m(2), of m] by (simp add: readData_def)
      with eq m have "rec W c m xs (emit (ConnRead c 0) e) = Some p" by simp
      from IH [OF this] m show False by (simp add: emit_def)
    qed
    with assms(2,3) show False by simp
  qed
  then show ?thesis by (cases "read_trustlet W c n acc d") auto
qed

text \<open>
  \<open>OPEN_TRUSTLET\<close> comes back as long as reading from the client never reports zero bytes,
  that is, as long as the peer does not close its end.
\<close>

theorem open_trustlet_returns:
  assumes "\<And>h m. fst (sock_readData W h c m) \<noteq> 0"
  shows "\<exists>d'. processOpenTrustlet W c d = Some d'"
proof -
  obtain r d1 where p: "recv_payload W c 28 d = (r, d1)" by force
  show ?thesis
  proof (cases r)
    case (Some cmd)
    let ?n = "unat (le32 cmd 8)"
    obtain b d3 where "read_trustlet W c ?n [] (emit (Malloc ?n True) d1) = Some (b, d3)"
      using read_trustlet_returns [OF assms] by force
    then show ?thesis using p Some
      by (auto simp: processOpenTrustlet_def Let_def split: option.split)
  qed (use p in \<open>simp add: processOpenTrustlet_def\<close>)
qed

theorem open_trustlet_returns_witness:
  "\<exists>d'. processOpenTrustlet (quiet_world\<lparr>sock_readData := (\<lambda>_ _ n. (int n + 1, []))\<rparr>) 1 sample_dev = Some d'"
  by (rule open_trustlet_returns) simp

text \<open>
  C33: if the client sends the command, announces data, and closes its end, \<open>OPEN_TRUSTLET\<close> never
  comes back: each read reports zero bytes, which the loop does not take for an end. The daemon
  then holds its lock for ever.
\<close>

theorem open_trustlet_hangs:
  assumes "recv_payload W c 28 d = (Some cmd, d1)" "connectionData d1 c" "le32 cmd 8 \<noteq> 0"
    and "malloc_ok W (hist d1) (unat (le32 cmd 8))"
    and "\<And>h m. length h > length (hist d1) \<Longrightarrow> fst (sock_readData W h c m) = 0"
  shows "processOpenTrustlet W c d = None"
proof -
  have "read_trustlet W c (unat (le32 cmd 8)) [] (emit (Malloc (unat (le32 cmd 8)) True) d1) = None"
    by (rule read_trustlet_hangs [where k = "Suc (length (hist d1))"])
      (use assms in \<open>auto simp: emit_def unat_gt_0\<close>)
  then show ?thesis using assms by (simp add: processOpenTrustlet_def Let_def)
qed

theorem open_trustlet_hangs_witness:
  "processOpenTrustlet (quiet_world\<lparr>sock_readData := (\<lambda>h _ n.
     if h = [] then (28, replicate 8 0 @ [5] @ replicate 19 0) else (0, []))\<rparr>) 1
     (open_device 1 sample_dev) = None"
proof -
  let ?W = "quiet_world\<lparr>sock_readData := (\<lambda>h _ n.
     if h = [] then (28, replicate 8 0 @ [5] @ replicate 19 0) else (0, []))\<rparr>"
  let ?d = "open_device 1 sample_dev"
  let ?b = "replicate 8 0 @ [5] @ replicate 19 0"
  have p: "recv_payload ?W 1 28 ?d = (Some ?b, emit (ConnRead 1 28) ?d)"
    by (simp add: recv_payload_def readData_def open_device_def sample_dev_def newDevice_def)
  have "le32 ?b 8 \<noteq> 0" by code_simp
  moreover have "connectionData (emit (ConnRead 1 28) ?d) 1" by (simp add: open_device_def emit_def)
  moreover have "malloc_ok ?W (hist (emit (ConnRead 1 28) ?d)) (unat (le32 ?b 8))"
    by (simp add: quiet_world_def)
  moreover have "fst (sock_readData ?W h 1 m) = 0" if "length h > length (hist (emit (ConnRead 1 28) ?d))" for h m
    using that by auto
  ultimately show ?thesis using open_trustlet_hangs [OF p] by blast
qed

text \<open>
  reading the registry. The client always receives the result code; and unless that code is
  "invalid operation" it receives the contents of the output buffer too, also when the registry
  reported an error and never filled it.
\<close>

theorem registry_read_answers:
  assumes "permitted W c" "registry_read_switch W cmd c d = ((code, buf), d1)"
  shows "processRegistryReadData W cmd c d = d1\<lparr>hist := hist d1 @ [ConnWrite c [W32 code]]
    @ (if code = MC_DRV_ERR_INVALID_OPERATION then [] else [ConnWrite c [WB buf]])\<rparr>"
  using assms by (simp add: processRegistryReadData_def writeResult_def emit_def Let_def)

theorem registry_read_answers_witness:
  "ConnWrite 1 [WB [1, 2, 3]] \<in> set (hist (processRegistryReadData
     (quiet_world\<lparr>registry := (\<lambda>_ _. (MC_DRV_ERR_INVALID_DEVICE_FILE, [1, 2, 3]))\<rparr>)
     MC_DRV_REG_READ_ROOT_CONT 1 sample_dev))"
proof -
  let ?W = "quiet_world\<lparr>registry := (\<lambda>_ _. (MC_DRV_ERR_INVALID_DEVICE_FILE, [1, 2, 3]))\<rparr>"
  have "registry_read_switch ?W MC_DRV_REG_READ_ROOT_CONT 1 sample_dev
      = ((MC_DRV_ERR_INVALID_DEVICE_FILE, [1, 2, 3]),
         emit (RegistryCall (RegReadRoot 512) MC_DRV_ERR_INVALID_DEVICE_FILE) sample_dev)"
    by (simp add: registry_read_switch_def registry_read_def registry_do_def)
  from registry_read_answers [OF _ this] show ?thesis by (simp add: quiet_world_def)
qed
end
