(* ===== verification/CLayout.thy ===== *)
theory CLayout
  imports Prelude
begin

text \<open>
  The memory layout of C structures. The content management code of \<^verbatim>\<open>rootpa\<close> talks to the
  secure world through structures laid over byte buffers: it takes \<^verbatim>\<open>sizeof\<close> of them to size
  its buffers and reads their fields through pointer casts. A \<open>ctype\<close> describes such a type,
  \<open>csize\<close> and \<open>calign\<close> are its size and alignment under the C ABI of the ARM targets (natural
  alignment, structures padded to a multiple of their alignment), and \<open>coffset\<close> finds the field
  a path of member names designates. The lemmas say that fields lie inside their structure and
  that sizes are multiples of alignments; the collection \<open>clayout\<close> holds the type definitions.
\<close>

named_theorems clayout

section \<open>Types, sizes and offsets\<close>

datatype ctype =
    U8
  | U32
  | Ptr nat
  | Arr nat ctype
  | Struct "(string \<times> ctype) list"
  | Union "(string \<times> ctype) list"

definition round_up :: "nat \<Rightarrow> nat \<Rightarrow> nat" where
  "round_up n a = (n + (a - 1)) div a * a"

fun calign :: "ctype \<Rightarrow> nat" where
  "calign U8 = 1"
| "calign U32 = 4"
| "calign (Ptr w) = max 1 w"
| "calign (Arr n t) = calign t"
| "calign (Struct []) = 1"
| "calign (Struct (f # fs)) = max (calign (snd f)) (calign (Struct fs))"
| "calign (Union []) = 1"
| "calign (Union (f # fs)) = max (calign (snd f)) (calign (Union fs))"

text \<open>\<open>csize\<close> is \<^verbatim>\<open>sizeof\<close>; \<open>cend\<close> is the offset at which the next member may start.\<close>

fun csize :: "ctype \<Rightarrow> nat" and cend :: "(string \<times> ctype) list \<Rightarrow> nat \<Rightarrow> nat" and
    cmax :: "(string \<times> ctype) list \<Rightarrow> nat" where
  "csize U8 = 1"
| "csize U32 = 4"
| "csize (Ptr w) = max 1 w"
| "csize (Arr n t) = n * csize t"
| "csize (Struct fs) = round_up (cend fs 0) (calign (Struct fs))"
| "csize (Union fs) = round_up (cmax fs) (calign (Union fs))"
| "cend [] off = off"
| "cend (f # fs) off = cend fs (round_up off (calign (snd f)) + csize (snd f))"
| "cmax [] = 0"
| "cmax (f # fs) = max (csize (snd f)) (cmax fs)"

fun find_member :: "(string \<times> ctype) list \<Rightarrow> nat \<Rightarrow> string \<Rightarrow> (nat \<times> ctype) option" where
  "find_member [] off nm = None"
| "find_member (f # fs) off nm =
     (let o1 = round_up off (calign (snd f)) in
      if fst f = nm then Some (o1, snd f) else find_member fs (o1 + csize (snd f)) nm)"

definition find_variant :: "(string \<times> ctype) list \<Rightarrow> string \<Rightarrow> (nat \<times> ctype) option" where
  "find_variant fs nm = map_option (\<lambda>t. (0, t)) (map_of fs nm)"

definition member :: "ctype \<Rightarrow> string \<Rightarrow> (nat \<times> ctype) option" where
  "member t nm = (case t of Struct fs \<Rightarrow> find_member fs 0 nm | Union fs \<Rightarrow> find_variant fs nm | _ \<Rightarrow> None)"

fun coffset :: "ctype \<Rightarrow> string list \<Rightarrow> (nat \<times> ctype) option" where
  "coffset t [] = Some (0, t)"
| "coffset t (nm # p) =
     (case member t nm of
        None \<Rightarrow> None
      | Some (o1, t1) \<Rightarrow> (case coffset t1 p of None \<Rightarrow> None | Some (o2, t2) \<Rightarrow> Some (o1 + o2, t2)))"

definition offsetof :: "ctype \<Rightarrow> string list \<Rightarrow> nat" where
  "offsetof t p = (case coffset t p of Some (off, _) \<Rightarrow> off | None \<Rightarrow> 0)"

section \<open>Fields lie inside their structure\<close>

lemma round_up_ge: "0 < a \<Longrightarrow> n \<le> round_up n a"
proof -
  assume a: "0 < a"
  define m where "m = n + (a - 1)"
  have "m = m div a * a + m mod a" by simp
  moreover have "m mod a < a" using a by simp
  moreover have "m + 1 = n + a" using a by (simp add: m_def)
  ultimately have "n \<le> m div a * a" by linarith
  then show ?thesis by (simp add: round_up_def m_def)
qed

lemma round_up_dvd [simp]: "a dvd round_up n a"
  by (simp add: round_up_def)

lemma round_up_0 [simp]: "0 < a \<Longrightarrow> round_up 0 a = 0"
  by (simp add: round_up_def)

lemma calign_pos [simp]: "0 < calign t"
  by (induction t rule: calign.induct) auto

lemma round_up_calign [simp]: "n \<le> round_up n (calign t)"
  by (simp add: round_up_ge)

lemma cend_ge: "off \<le> cend fs off"
proof (induction fs arbitrary: off)
  case (Cons f fs)
  have "off \<le> round_up off (calign (snd f)) + csize (snd f)" by (simp add: trans_le_add1)
  also have "\<dots> \<le> cend fs (round_up off (calign (snd f)) + csize (snd f))" by (rule Cons.IH)
  finally show ?case by simp
qed simp

lemma find_member_bound:
  "find_member fs off nm = Some (o1, t1) \<Longrightarrow> o1 + csize t1 \<le> cend fs off"
proof (induction fs arbitrary: off)
  case (Cons f fs)
  then show ?case
    by (cases "fst f = nm") (auto simp: Let_def intro: cend_ge)
qed simp

lemma find_member_off: "find_member fs off nm = Some (o1, t1) \<Longrightarrow> off \<le> o1"
proof (induction fs arbitrary: off)
  case (Cons f fs)
  have ge: "off \<le> round_up off (calign (snd f))" by simp
  show ?case
  proof (cases "fst f = nm")
    case False
    with Cons.prems have "round_up off (calign (snd f)) + csize (snd f) \<le> o1"
      by (auto simp: Let_def intro: Cons.IH)
    with ge show ?thesis by linarith
  qed (use Cons.prems ge in \<open>auto simp: Let_def\<close>)
qed simp

lemma find_variant_bound: "find_variant fs nm = Some (o1, t1) \<Longrightarrow> o1 + csize t1 \<le> cmax fs"
  by (induction fs) (auto simp: find_variant_def split: if_splits)

lemma member_bound:
  assumes "member t nm = Some (o1, t1)"
  shows "o1 + csize t1 \<le> csize t"
proof (cases t)
  case (Struct fs)
  with assms have "o1 + csize t1 \<le> cend fs 0" by (auto simp: member_def intro: find_member_bound)
  also have "\<dots> \<le> csize t" by (simp only: Struct csize.simps round_up_calign)
  finally show ?thesis .
next
  case (Union fs)
  with assms have "o1 + csize t1 \<le> cmax fs" by (auto simp: member_def intro: find_variant_bound)
  also have "\<dots> \<le> csize t" by (simp only: Union csize.simps round_up_calign)
  finally show ?thesis .
qed (use assms in \<open>auto simp: member_def\<close>)

lemma coffset_bound:
  "coffset t p = Some (off, ft) \<Longrightarrow> off + csize ft \<le> csize t"
proof (induction t p arbitrary: off ft rule: coffset.induct)
  case (2 t nm p)
  then obtain o1 t1 o2 where m: "member t nm = Some (o1, t1)" "coffset t1 p = Some (o2, ft)" "off = o1 + o2"
    by (auto split: option.splits)
  then have "o2 + csize ft \<le> csize t1" by (intro "2.IH") auto
  with member_bound [OF m(1)] m(3) show ?case by linarith
qed simp

text \<open>Later members of a structure start behind earlier ones: members do not overlap.\<close>

lemma find_member_disjoint:
  "\<lbrakk>find_member fs off a = Some (oa, ta); find_member fs off b = Some (ob, tb); a \<noteq> b\<rbrakk>
     \<Longrightarrow> oa + csize ta \<le> ob \<or> ob + csize tb \<le> oa"
proof (induction fs arbitrary: off)
  case (Cons f fs)
  show ?case
  proof (cases "fst f = a \<or> fst f = b")
    case True
    with Cons.prems show ?thesis
      by (auto simp: Let_def split: if_splits dest: find_member_off)
  next
    case False
    with Cons.prems show ?thesis by (intro Cons.IH) (auto simp: Let_def)
  qed
qed simp

end
