(* ===== verification/CmpTypes.thy ===== *)
theory CmpTypes
  imports CLayout
begin

text \<open>
  The types of the content management protocol: the secure object and container types of
  \<^verbatim>\<open>mcSo.h\<close> and \<^verbatim>\<open>mcContainer.h\<close>, the TCI messages of \<^verbatim>\<open>TlCm/3.0/cmp.h\<close>, the messages of the
  mapped buffer of \<^verbatim>\<open>TlCm/3.0/cmpMap.h\<close> and the TCI buffer type \<^verbatim>\<open>cmp_t\<close>. Each C type is a
  \<open>ctype\<close> with the members of its declaration in order; scalar typedefs and enumerations stand as
  the 32-bit integer they are. The header of a TCI command contains a pointer, so it and the
  types that contain it take the width \<open>ps\<close> of a pointer. The last section evaluates the sizes
  the buffers are dimensioned with.
\<close>

section \<open>Identifiers (mcUuid.h)\<close>

abbreviation (input) UUID_LENGTH :: nat where "UUID_LENGTH \<equiv> 16"

definition mcUuid_t :: "ctype" where [clayout]:
  "mcUuid_t = Struct
     [(''value'', Arr UUID_LENGTH U8)]"

section \<open>The device identifier (mcSuid.h)\<close>

abbreviation (input) MC_SUID_LEN :: nat where "MC_SUID_LEN \<equiv> 16"

definition suidData_t :: "ctype" where [clayout]:
  "suidData_t = Struct
     [(''data'', Arr (MC_SUID_LEN - csize U32) U8)]"

definition mcSuid_t :: "ctype" where [clayout]:
  "mcSuid_t = Struct
     [(''sipId'', U32),
      (''suidData'', suidData_t)]"

section \<open>Version information (mcVersionInfo.h)\<close>

abbreviation (input) MC_PRODUCT_ID_LEN :: nat where "MC_PRODUCT_ID_LEN \<equiv> 64"

definition mcVersionInfo_t :: "ctype" where [clayout]:
  "mcVersionInfo_t = Struct
     [(''productId'', Arr MC_PRODUCT_ID_LEN U8),
      (''versionMci'', U32),
      (''versionSo'', U32),
      (''versionMclf'', U32),
      (''versionContainer'', U32),
      (''versionMcConfig'', U32),
      (''versionTlApi'', U32),
      (''versionDrApi'', U32),
      (''versionCmp'', U32)]"

section \<open>Secure objects (mcSo.h)\<close>

definition tlApiSpTrustletId_t :: "ctype" where [clayout]:
  "tlApiSpTrustletId_t = Struct
     [(''spid'', U32),
      (''uuid'', mcUuid_t)]"

definition mcSoHeader_t :: "ctype" where [clayout]:
  "mcSoHeader_t = Struct
     [(''type'', U32),
      (''version'', U32),
      (''context'', U32),
      (''lifetime'', U32),
      (''producer'', tlApiSpTrustletId_t),
      (''plainLen'', U32),
      (''encryptedLen'', U32)]"

definition MC_SO_ENCRYPT_PADDED_SIZE_F21 :: "nat \<Rightarrow> nat" where [clayout]:
  "MC_SO_ENCRYPT_PADDED_SIZE_F21 netsize = netsize + 16 - netsize mod 16"

definition MC_SO_SIZE_F22 :: "nat \<Rightarrow> nat \<Rightarrow> nat" where [clayout]:
  "MC_SO_SIZE_F22 plainLen encryptedLen =
     (if plainLen + encryptedLen < encryptedLen \<or> 1000000 < plainLen + encryptedLen then 0
      else csize mcSoHeader_t + plainLen + encryptedLen + 32 + 16)"

definition MC_SO_SIZE_F21 :: "nat \<Rightarrow> nat \<Rightarrow> nat" where [clayout]:
  "MC_SO_SIZE_F21 plainLen encryptedLen =
     (if plainLen + encryptedLen < encryptedLen \<or> 1000000 < plainLen + encryptedLen then 0
      else csize mcSoHeader_t + plainLen + MC_SO_ENCRYPT_PADDED_SIZE_F21 (encryptedLen + 32))"

abbreviation (input) MC_SO_SIZE :: "nat \<Rightarrow> nat \<Rightarrow> nat" where "MC_SO_SIZE \<equiv> MC_SO_SIZE_F22"

section \<open>Containers (mcContainer.h)\<close>

abbreviation (input) MC_CONT_SYMMETRIC_KEY_SIZE :: nat where "MC_CONT_SYMMETRIC_KEY_SIZE \<equiv> 32"
abbreviation (input) MC_CONT_CHILDREN_COUNT :: nat where "MC_CONT_CHILDREN_COUNT \<equiv> 16"
abbreviation (input) MC_DATA_CONT_MAX_DATA_SIZE :: nat where "MC_DATA_CONT_MAX_DATA_SIZE \<equiv> 2048"
abbreviation (input) MC_BYTES_TO_WORDS :: "nat \<Rightarrow> nat" where "MC_BYTES_TO_WORDS bytes \<equiv> bytes div csize U32"

definition SO_CONT_HASH_AND_PAD_SIZE :: "nat \<Rightarrow> nat \<Rightarrow> nat" where [clayout]:
  "SO_CONT_HASH_AND_PAD_SIZE contTotalSize contCoSize =
     max (MC_SO_SIZE_F21 (contTotalSize - contCoSize) contCoSize - csize mcSoHeader_t - contTotalSize)
         (MC_SO_SIZE (contTotalSize - contCoSize) contCoSize - csize mcSoHeader_t - contTotalSize)"

definition mcPid_t :: "ctype" where [clayout]:
  "mcPid_t = Struct
     [(''data'', U32)]"

definition mcSymmetricKey_t :: "ctype" where [clayout]:
  "mcSymmetricKey_t = Struct
     [(''keydata'', Arr (MC_BYTES_TO_WORDS MC_CONT_SYMMETRIC_KEY_SIZE) U32)]"

definition mcContainerAttribs_t :: "ctype" where [clayout]:
  "mcContainerAttribs_t = Struct
     [(''state'', U32)]"

definition mcSha256_t :: "ctype" where [clayout]:
  "mcSha256_t = Struct
     [(''data'', Arr 32 U8)]"

definition mcCoSocCont_t :: "ctype" where [clayout]:
  "mcCoSocCont_t = Struct
     [(''kSocAuth'', mcSymmetricKey_t)]"

definition mcCoRootCont_t :: "ctype" where [clayout]:
  "mcCoRootCont_t = Struct
     [(''kRootAuth'', mcSymmetricKey_t)]"

definition mcCoSpCont_t :: "ctype" where [clayout]:
  "mcCoSpCont_t = Struct
     [(''kSpAuth'', mcSymmetricKey_t)]"

definition mcCoTltCont_t :: "ctype" where [clayout]:
  "mcCoTltCont_t = Struct
     [(''kTl'', mcSymmetricKey_t)]"

definition mcCoDataCont_t :: "ctype" where [clayout]:
  "mcCoDataCont_t = Struct
     [(''data'', Arr MC_DATA_CONT_MAX_DATA_SIZE U8)]"

definition mcSocCont_t :: "ctype" where [clayout]:
  "mcSocCont_t = Struct
     [(''type'', U32),
      (''version'', U32),
      (''attribs'', mcContainerAttribs_t),
      (''suid'', mcSuid_t),
      (''co'', mcCoSocCont_t)]"

definition mcRootCont_t :: "ctype" where [clayout]:
  "mcRootCont_t = Struct
     [(''type'', U32),
      (''version'', U32),
      (''attribs'', mcContainerAttribs_t),
      (''suid'', mcSuid_t),
      (''rootid'', U32),
      (''children'', Arr MC_CONT_CHILDREN_COUNT U32),
      (''co'', mcCoRootCont_t)]"

definition mcSpCont_t :: "ctype" where [clayout]:
  "mcSpCont_t = Struct
     [(''type'', U32),
      (''version'', U32),
      (''attribs'', mcContainerAttribs_t),
      (''spid'', U32),
      (''children'', Arr MC_CONT_CHILDREN_COUNT mcUuid_t),
      (''co'', mcCoSpCont_t)]"

definition mcTltContCommon_t :: "ctype" where [clayout]:
  "mcTltContCommon_t = Struct
     [(''type'', U32),
      (''version'', U32),
      (''attribs'', mcContainerAttribs_t),
      (''parent'', U32),
      (''uuid'', mcUuid_t),
      (''co'', mcCoTltCont_t)]"

definition mcTltCont_2_1_t :: "ctype" where [clayout]:
  "mcTltCont_2_1_t = Struct
     [(''common'', mcTltContCommon_t),
      (''skSpTltEnc'', mcSha256_t),
      (''tltVersion'', U32)]"

definition mcDataCont_t :: "ctype" where [clayout]:
  "mcDataCont_t = Struct
     [(''type'', U32),
      (''version'', U32),
      (''uuid'', mcUuid_t),
      (''pid'', mcPid_t),
      (''co'', mcCoDataCont_t)]"

definition mcSoAuthTokenCont_t :: "ctype" where [clayout]:
  "mcSoAuthTokenCont_t = Struct
     [(''soHeader'', mcSoHeader_t),
      (''coSoc'', mcSocCont_t),
      (''hashAndPad'', Arr (SO_CONT_HASH_AND_PAD_SIZE (csize mcSocCont_t) (csize mcCoSocCont_t)) U8)]"

definition mcSoRootCont_t :: "ctype" where [clayout]:
  "mcSoRootCont_t = Struct
     [(''soHeader'', mcSoHeader_t),
      (''cont'', mcRootCont_t),
      (''hashAndPad'', Arr (SO_CONT_HASH_AND_PAD_SIZE (csize mcRootCont_t) (csize mcCoRootCont_t)) U8)]"

definition mcSoSpCont_t :: "ctype" where [clayout]:
  "mcSoSpCont_t = Struct
     [(''soHeader'', mcSoHeader_t),
      (''cont'', mcSpCont_t),
      (''hashAndPad'', Arr (SO_CONT_HASH_AND_PAD_SIZE (csize mcSpCont_t) (csize mcCoSpCont_t)) U8)]"

definition mcSoTltCont_2_1_t :: "ctype" where [clayout]:
  "mcSoTltCont_2_1_t = Struct
     [(''soHeader'', mcSoHeader_t),
      (''cont'', mcTltCont_2_1_t),
      (''hashAndPad'', Arr (SO_CONT_HASH_AND_PAD_SIZE (csize mcTltCont_2_1_t) (csize mcCoTltCont_t)) U8)]"

definition mcSoDataCont_t :: "ctype" where [clayout]:
  "mcSoDataCont_t = Struct
     [(''soHeader'', mcSoHeader_t),
      (''cont'', mcDataCont_t),
      (''hashAndPad'', Arr (SO_CONT_HASH_AND_PAD_SIZE (csize mcDataCont_t) (csize mcCoDataCont_t)) U8)]"

section \<open>Common CMP types (cmpCommon.h)\<close>

abbreviation (input) CMP_MAC_SIZE :: nat where "CMP_MAC_SIZE \<equiv> 32"
abbreviation (input) CMP_GEN_AUTH_TOKEN_PSS_SIZE :: nat where "CMP_GEN_AUTH_TOKEN_PSS_SIZE \<equiv> 256"

definition CMP_ED_PADDING :: "nat \<Rightarrow> nat" where [clayout]:
  "CMP_ED_PADDING netsize = 16 - netsize mod 16"

definition cmpCommandHeader_t :: "ctype" where [clayout]:
  "cmpCommandHeader_t = Struct
     [(''commandId'', U32)]"

definition cmpResponseHeader_t :: "ctype" where [clayout]:
  "cmpResponseHeader_t = Struct
     [(''responseId'', U32),
      (''returnCode'', U32)]"

definition cmpMac_t :: "ctype" where [clayout]:
  "cmpMac_t = Struct
     [(''mac'', Arr CMP_MAC_SIZE U8)]"

definition cmpRnd8_t :: "ctype" where [clayout]:
  "cmpRnd8_t = Struct
     [(''data'', Arr 8 U8)]"

definition cmpRnd32_t :: "ctype" where [clayout]:
  "cmpRnd32_t = Struct
     [(''data'', Arr 32 U8)]"

definition cmpVersionData1_t :: "ctype" where [clayout]:
  "cmpVersionData1_t = Struct
     [(''number'', U32)]"

definition cmpVersionData2_t :: "ctype" where [clayout]:
  "cmpVersionData2_t = Struct
     [(''versionInfo'', mcVersionInfo_t)]"

definition cmpVersionData_t :: "ctype" where [clayout]:
  "cmpVersionData_t = Union
     [(''versionData1'', cmpVersionData1_t),
      (''versionData2'', cmpVersionData2_t)]"

definition cmpCmdGetVersion_t :: "ctype" where [clayout]:
  "cmpCmdGetVersion_t = Struct
     [(''cmdHeader'', cmpCommandHeader_t)]"

definition cmpRspGetVersion_t :: "ctype" where [clayout]:
  "cmpRspGetVersion_t = Struct
     [(''rspHeader'', cmpResponseHeader_t),
      (''tag'', U32),
      (''data'', cmpVersionData_t)]"

definition cmpCmdGetSuid_t :: "ctype" where [clayout]:
  "cmpCmdGetSuid_t = Struct
     [(''cmdHeader'', cmpCommandHeader_t)]"

definition cmpRspGetSuid_t :: "ctype" where [clayout]:
  "cmpRspGetSuid_t = Struct
     [(''rspHeader'', cmpResponseHeader_t),
      (''suid'', mcSuid_t)]"

definition cmpGenAuthTokenCmdSdata_t :: "ctype" where [clayout]:
  "cmpGenAuthTokenCmdSdata_t = Struct
     [(''cmdHeader'', cmpCommandHeader_t),
      (''suid'', mcSuid_t),
      (''kSocAuth'', mcSymmetricKey_t),
      (''kid'', U32)]"

definition cmpGenAuthTokenCmd_t :: "ctype" where [clayout]:
  "cmpGenAuthTokenCmd_t = Struct
     [(''sdata'', cmpGenAuthTokenCmdSdata_t),
      (''pssSignature'', Arr CMP_GEN_AUTH_TOKEN_PSS_SIZE U8)]"

definition cmpCmdGenAuthToken_t :: "ctype" where [clayout]:
  "cmpCmdGenAuthToken_t = Struct
     [(''cmd'', cmpGenAuthTokenCmd_t)]"

definition cmpGenAuthTokenRsp_t :: "ctype" where [clayout]:
  "cmpGenAuthTokenRsp_t = Struct
     [(''rspHeader'', cmpResponseHeader_t)]"

definition cmpRspGenAuthToken_t :: "ctype" where [clayout]:
  "cmpRspGenAuthToken_t = Struct
     [(''rsp'', cmpGenAuthTokenRsp_t),
      (''soAuthCont'', mcSoAuthTokenCont_t)]"

section \<open>TCI messages (cmp.h)\<close>

definition cmpMapInfo_t :: "nat \<Rightarrow> ctype" where [clayout]:
  "cmpMapInfo_t ps = Struct
     [(''addr'', Ptr ps),
      (''len'', U32)]"

definition cmpMapOffsetInfo_t :: "ctype" where [clayout]:
  "cmpMapOffsetInfo_t = Struct
     [(''offset'', U32),
      (''len'', U32)]"

definition cmpCommandHeaderTci_t :: "nat \<Rightarrow> ctype" where [clayout]:
  "cmpCommandHeaderTci_t ps = Struct
     [(''version'', U32),
      (''commandId'', U32),
      (''mapInfo'', cmpMapInfo_t ps),
      (''cmpCmdMapOffsetInfo'', cmpMapOffsetInfo_t)]"

definition cmpResponseHeaderTci_t :: "ctype" where [clayout]:
  "cmpResponseHeaderTci_t = Struct
     [(''version'', U32),
      (''responseId'', U32),
      (''len'', U32)]"

definition cmpCmdGetVersionTci_t :: "nat \<Rightarrow> ctype" where [clayout]:
  "cmpCmdGetVersionTci_t ps = Struct
     [(''cmdHeader'', cmpCommandHeaderTci_t ps)]"

definition cmpRspGetVersionTci_t :: "ctype" where [clayout]:
  "cmpRspGetVersionTci_t = Struct
     [(''rspHeader'', cmpResponseHeaderTci_t),
      (''cmpRspMapOffsetInfo'', cmpMapOffsetInfo_t)]"

definition cmpCmdGetSuidTci_t :: "nat \<Rightarrow> ctype" where [clayout]:
  "cmpCmdGetSuidTci_t ps = Struct
     [(''cmdHeader'', cmpCommandHeaderTci_t ps)]"

definition cmpRspGetSuidTci_t :: "ctype" where [clayout]:
  "cmpRspGetSuidTci_t = Struct
     [(''rspHeader'', cmpResponseHeaderTci_t),
      (''cmpRspMapOffsetInfo'', cmpMapOffsetInfo_t)]"

definition cmpCmdGenAuthTokenTci_t :: "nat \<Rightarrow> ctype" where [clayout]:
  "cmpCmdGenAuthTokenTci_t ps = Struct
     [(''cmdHeader'', cmpCommandHeaderTci_t ps)]"

definition cmpRspGenAuthTokenTci_t :: "ctype" where [clayout]:
  "cmpRspGenAuthTokenTci_t = Struct
     [(''rspHeaderTci'', cmpResponseHeaderTci_t),
      (''cmpRspMapOffsetInfo'', cmpMapOffsetInfo_t),
      (''cmpAuthTokenContMapOffsetInfo'', cmpMapOffsetInfo_t)]"

definition cmpCmdBeginSocAuthenticationTci_t :: "nat \<Rightarrow> ctype" where [clayout]:
  "cmpCmdBeginSocAuthenticationTci_t ps = Struct
     [(''cmdHeader'', cmpCommandHeaderTci_t ps),
      (''cmpAuthTokenContMapOffsetInfo'', cmpMapOffsetInfo_t)]"

definition cmpRspBeginSocAuthenticationTci_t :: "ctype" where [clayout]:
  "cmpRspBeginSocAuthenticationTci_t = Struct
     [(''rspHeader'', cmpResponseHeaderTci_t),
      (''cmpRspMapOffsetInfo'', cmpMapOffsetInfo_t)]"

definition cmpCmdBeginRootAuthenticationTci_t :: "nat \<Rightarrow> ctype" where [clayout]:
  "cmpCmdBeginRootAuthenticationTci_t ps = Struct
     [(''cmdHeader'', cmpCommandHeaderTci_t ps),
      (''cmpRootContMapOffsetInfo'', cmpMapOffsetInfo_t)]"

definition cmpRspBeginRootAuthenticationTci_t :: "ctype" where [clayout]:
  "cmpRspBeginRootAuthenticationTci_t = Struct
     [(''rspHeader'', cmpResponseHeaderTci_t),
      (''cmpRspMapOffsetInfo'', cmpMapOffsetInfo_t)]"

definition cmpCmdBeginSpAuthenticationTci_t :: "nat \<Rightarrow> ctype" where [clayout]:
  "cmpCmdBeginSpAuthenticationTci_t ps = Struct
     [(''cmdHeader'', cmpCommandHeaderTci_t ps),
      (''cmpRootContMapOffsetInfo'', cmpMapOffsetInfo_t),
      (''cmpSpContMapOffsetInfo'', cmpMapOffsetInfo_t)]"

definition cmpRspBeginSpAuthenticationTci_t :: "ctype" where [clayout]:
  "cmpRspBeginSpAuthenticationTci_t = Struct
     [(''rspHeader'', cmpResponseHeaderTci_t),
      (''cmpRspMapOffsetInfo'', cmpMapOffsetInfo_t)]"

definition cmpCmdAuthenticateTci_t :: "nat \<Rightarrow> ctype" where [clayout]:
  "cmpCmdAuthenticateTci_t ps = Struct
     [(''cmdHeader'', cmpCommandHeaderTci_t ps)]"

definition cmpRspAuthenticateTci_t :: "ctype" where [clayout]:
  "cmpRspAuthenticateTci_t = Struct
     [(''rspHeader'', cmpResponseHeaderTci_t),
      (''cmpRspMapOffsetInfo'', cmpMapOffsetInfo_t)]"

definition cmpCmdAuthenticateTerminateTci_t :: "nat \<Rightarrow> ctype" where [clayout]:
  "cmpCmdAuthenticateTerminateTci_t ps = Struct
     [(''cmdHeader'', cmpCommandHeaderTci_t ps)]"

definition cmpRspAuthenticateTerminateTci_t :: "ctype" where [clayout]:
  "cmpRspAuthenticateTerminateTci_t = Struct
     [(''rspHeader'', cmpResponseHeaderTci_t),
      (''cmpRspMapOffsetInfo'', cmpMapOffsetInfo_t)]"

definition cmpCmdRootContRegisterActivateTci_t :: "nat \<Rightarrow> ctype" where [clayout]:
  "cmpCmdRootContRegisterActivateTci_t ps = Struct
     [(''cmdHeader'', cmpCommandHeaderTci_t ps)]"

definition cmpRspRootContRegisterActivateTci_t :: "ctype" where [clayout]:
  "cmpRspRootContRegisterActivateTci_t = Struct
     [(''rspHeader'', cmpResponseHeaderTci_t),
      (''cmpRspMapOffsetInfo'', cmpMapOffsetInfo_t),
      (''cmpRootContMapOffsetInfo'', cmpMapOffsetInfo_t)]"

definition cmpCmdRootContUnregisterTci_t :: "nat \<Rightarrow> ctype" where [clayout]:
  "cmpCmdRootContUnregisterTci_t ps = Struct
     [(''cmdHeader'', cmpCommandHeaderTci_t ps)]"

definition cmpRspRootContUnregisterTci_t :: "ctype" where [clayout]:
  "cmpRspRootContUnregisterTci_t = Struct
     [(''rspHeader'', cmpResponseHeaderTci_t),
      (''cmpRspMapOffsetInfo'', cmpMapOffsetInfo_t)]"

definition cmpCmdRootContLockByRootTci_t :: "nat \<Rightarrow> ctype" where [clayout]:
  "cmpCmdRootContLockByRootTci_t ps = Struct
     [(''cmdHeader'', cmpCommandHeaderTci_t ps)]"

definition cmpRspRootContLockByRootTci_t :: "ctype" where [clayout]:
  "cmpRspRootContLockByRootTci_t = Struct
     [(''rspHeader'', cmpResponseHeaderTci_t),
      (''cmpRspMapOffsetInfo'', cmpMapOffsetInfo_t),
      (''cmpRootContMapOffsetInfo'', cmpMapOffsetInfo_t)]"

definition cmpCmdRootContUnlockByRootTci_t :: "nat \<Rightarrow> ctype" where [clayout]:
  "cmpCmdRootContUnlockByRootTci_t ps = Struct
     [(''cmdHeader'', cmpCommandHeaderTci_t ps)]"

definition cmpRspRootContUnlockByRootTci_t :: "ctype" where [clayout]:
  "cmpRspRootContUnlockByRootTci_t = Struct
     [(''rspHeader'', cmpResponseHeaderTci_t),
      (''cmpRspMapOffsetInfo'', cmpMapOffsetInfo_t),
      (''cmpRootContMapOffsetInfo'', cmpMapOffsetInfo_t)]"

definition cmpCmdSpContRegisterActivateTci_t :: "nat \<Rightarrow> ctype" where [clayout]:
  "cmpCmdSpContRegisterActivateTci_t ps = Struct
     [(''cmdHeader'', cmpCommandHeaderTci_t ps)]"

definition cmpRspSpContRegisterActivateTci_t :: "ctype" where [clayout]:
  "cmpRspSpContRegisterActivateTci_t = Struct
     [(''rspHeader'', cmpResponseHeaderTci_t),
      (''cmpRspMapOffsetInfo'', cmpMapOffsetInfo_t),
      (''cmpRootContMapOffsetInfo'', cmpMapOffsetInfo_t),
      (''cmpSpContMapOffsetInfo'', cmpMapOffsetInfo_t)]"

definition cmpCmdSpContUnregisterTci_t :: "nat \<Rightarrow> ctype" where [clayout]:
  "cmpCmdSpContUnregisterTci_t ps = Struct
     [(''cmdHeader'', cmpCommandHeaderTci_t ps)]"

definition cmpRspSpContUnregisterTci_t :: "ctype" where [clayout]:
  "cmpRspSpContUnregisterTci_t = Struct
     [(''rspHeader'', cmpResponseHeaderTci_t),
      (''cmpRspMapOffsetInfo'', cmpMapOffsetInfo_t),
      (''cmpRootContMapOffsetInfo'', cmpMapOffsetInfo_t)]"

definition cmpCmdSpContRegisterTci_t :: "nat \<Rightarrow> ctype" where [clayout]:
  "cmpCmdSpContRegisterTci_t ps = Struct
     [(''cmdHeader'', cmpCommandHeaderTci_t ps)]"

definition cmpRspSpContRegisterTci_t :: "ctype" where [clayout]:
  "cmpRspSpContRegisterTci_t = Struct
     [(''rspHeader'', cmpResponseHeaderTci_t),
      (''cmpRspMapOffsetInfo'', cmpMapOffsetInfo_t),
      (''cmpRootContMapOffsetInfo'', cmpMapOffsetInfo_t),
      (''cmpSpContMapOffsetInfo'', cmpMapOffsetInfo_t)]"

definition cmpCmdSpContLockByRootTci_t :: "nat \<Rightarrow> ctype" where [clayout]:
  "cmpCmdSpContLockByRootTci_t ps = Struct
     [(''cmdHeader'', cmpCommandHeaderTci_t ps),
      (''cmpSpContMapOffsetInfo'', cmpMapOffsetInfo_t)]"

definition cmpRspSpContLockByRootTci_t :: "ctype" where [clayout]:
  "cmpRspSpContLockByRootTci_t = Struct
     [(''rspHeader'', cmpResponseHeaderTci_t),
      (''cmpRspMapOffsetInfo'', cmpMapOffsetInfo_t),
      (''cmpSpContMapOffsetInfo'', cmpMapOffsetInfo_t)]"

definition cmpCmdSpContUnlockByRootTci_t :: "nat \<Rightarrow> ctype" where [clayout]:
  "cmpCmdSpContUnlockByRootTci_t ps = Struct
     [(''cmdHeader'', cmpCommandHeaderTci_t ps),
      (''cmpSpContMapOffsetInfo'', cmpMapOffsetInfo_t)]"

definition cmpRspSpContUnlockByRootTci_t :: "ctype" where [clayout]:
  "cmpRspSpContUnlockByRootTci_t = Struct
     [(''rspHeader'', cmpResponseHeaderTci_t),
      (''cmpRspMapOffsetInfo'', cmpMapOffsetInfo_t),
      (''cmpSpContMapOffsetInfo'', cmpMapOffsetInfo_t)]"

definition cmpCmdSpContActivateTci_t :: "nat \<Rightarrow> ctype" where [clayout]:
  "cmpCmdSpContActivateTci_t ps = Struct
     [(''cmdHeader'', cmpCommandHeaderTci_t ps)]"

definition cmpRspSpContActivateTci_t :: "ctype" where [clayout]:
  "cmpRspSpContActivateTci_t = Struct
     [(''rspHeader'', cmpResponseHeaderTci_t),
      (''cmpRspMapOffsetInfo'', cmpMapOffsetInfo_t),
      (''cmpSpContMapOffsetInfo'', cmpMapOffsetInfo_t)]"

definition cmpCmdSpContLockBySpTci_t :: "nat \<Rightarrow> ctype" where [clayout]:
  "cmpCmdSpContLockBySpTci_t ps = Struct
     [(''cmdHeader'', cmpCommandHeaderTci_t ps)]"

definition cmpRspSpContLockBySpTci_t :: "ctype" where [clayout]:
  "cmpRspSpContLockBySpTci_t = Struct
     [(''rspHeader'', cmpResponseHeaderTci_t),
      (''cmpRspMapOffsetInfo'', cmpMapOffsetInfo_t),
      (''cmpSpContMapOffsetInfo'', cmpMapOffsetInfo_t)]"

definition cmpCmdSpContUnlockBySpTci_t :: "nat \<Rightarrow> ctype" where [clayout]:
  "cmpCmdSpContUnlockBySpTci_t ps = Struct
     [(''cmdHeader'', cmpCommandHeaderTci_t ps)]"

definition cmpRspSpContUnlockBySpTci_t :: "ctype" where [clayout]:
  "cmpRspSpContUnlockBySpTci_t = Struct
     [(''rspHeader'', cmpResponseHeaderTci_t),
      (''cmpRspMapOffsetInfo'', cmpMapOffsetInfo_t),
      (''cmpSpContMapOffsetInfo'', cmpMapOffsetInfo_t)]"

definition cmpCmdTltContRegisterActivateTci_t :: "nat \<Rightarrow> ctype" where [clayout]:
  "cmpCmdTltContRegisterActivateTci_t ps = Struct
     [(''cmdHeader'', cmpCommandHeaderTci_t ps)]"

definition cmpRspTltContRegisterActivateTci_t :: "ctype" where [clayout]:
  "cmpRspTltContRegisterActivateTci_t = Struct
     [(''rspHeader'', cmpResponseHeaderTci_t),
      (''cmpRspMapOffsetInfo'', cmpMapOffsetInfo_t),
      (''cmpSpContMapOffsetInfo'', cmpMapOffsetInfo_t),
      (''cmpTltContMapOffsetInfo'', cmpMapOffsetInfo_t)]"

definition cmpCmdTltContUnregisterTci_t :: "nat \<Rightarrow> ctype" where [clayout]:
  "cmpCmdTltContUnregisterTci_t ps = Struct
     [(''cmdHeader'', cmpCommandHeaderTci_t ps)]"

definition cmpRspTltContUnregisterTci_t :: "ctype" where [clayout]:
  "cmpRspTltContUnregisterTci_t = Struct
     [(''rspHeader'', cmpResponseHeaderTci_t),
      (''cmpRspMapOffsetInfo'', cmpMapOffsetInfo_t),
      (''cmpSpContMapOffsetInfo'', cmpMapOffsetInfo_t)]"

definition cmpCmdTltContRegisterTci_t :: "nat \<Rightarrow> ctype" where [clayout]:
  "cmpCmdTltContRegisterTci_t ps = Struct
     [(''cmdHeader'', cmpCommandHeaderTci_t ps)]"

definition cmpRspTltContRegisterTci_t :: "ctype" where [clayout]:
  "cmpRspTltContRegisterTci_t = Struct
     [(''rspHeader'', cmpResponseHeaderTci_t),
      (''cmpRspMapOffsetInfo'', cmpMapOffsetInfo_t),
      (''cmpSpContMapOffsetInfo'', cmpMapOffsetInfo_t),
      (''cmpTltContMapOffsetInfo'', cmpMapOffsetInfo_t)]"

definition cmpCmdTltContActivateTci_t :: "nat \<Rightarrow> ctype" where [clayout]:
  "cmpCmdTltContActivateTci_t ps = Struct
     [(''cmdHeader'', cmpCommandHeaderTci_t ps),
      (''cmpTltContMapOffsetInfo'', cmpMapOffsetInfo_t)]"

definition cmpRspTltContActivateTci_t :: "ctype" where [clayout]:
  "cmpRspTltContActivateTci_t = Struct
     [(''rspHeader'', cmpResponseHeaderTci_t),
      (''cmpRspMapOffsetInfo'', cmpMapOffsetInfo_t),
      (''cmpTltContMapOffsetInfo'', cmpMapOffsetInfo_t)]"

definition cmpCmdTltContLockBySpTci_t :: "nat \<Rightarrow> ctype" where [clayout]:
  "cmpCmdTltContLockBySpTci_t ps = Struct
     [(''cmdHeader'', cmpCommandHeaderTci_t ps),
      (''cmpTltContMapOffsetInfo'', cmpMapOffsetInfo_t)]"

definition cmpRspTltContLockBySpTci_t :: "ctype" where [clayout]:
  "cmpRspTltContLockBySpTci_t = Struct
     [(''rspHeader'', cmpResponseHeaderTci_t),
      (''cmpRspMapOffsetInfo'', cmpMapOffsetInfo_t),
      (''cmpTltContMapOffsetInfo'', cmpMapOffsetInfo_t)]"

definition cmpCmdTltContUnlockBySpTci_t :: "nat \<Rightarrow> ctype" where [clayout]:
  "cmpCmdTltContUnlockBySpTci_t ps = Struct
     [(''cmdHeader'', cmpCommandHeaderTci_t ps),
      (''cmpTltContMapOffsetInfo'', cmpMapOffsetInfo_t)]"

definition cmpRspTltContUnlockBySpTci_t :: "ctype" where [clayout]:
  "cmpRspTltContUnlockBySpTci_t = Struct
     [(''rspHeader'', cmpResponseHeaderTci_t),
      (''cmpRspMapOffsetInfo'', cmpMapOffsetInfo_t),
      (''cmpTltContMapOffsetInfo'', cmpMapOffsetInfo_t)]"

definition cmpCmdTltContPersonalizeTci_t :: "nat \<Rightarrow> ctype" where [clayout]:
  "cmpCmdTltContPersonalizeTci_t ps = Struct
     [(''cmdHeader'', cmpCommandHeaderTci_t ps),
      (''cmpTltContMapOffsetInfo'', cmpMapOffsetInfo_t)]"

definition cmpRspTltContPersonalizeTci_t :: "ctype" where [clayout]:
  "cmpRspTltContPersonalizeTci_t = Struct
     [(''rspHeader'', cmpResponseHeaderTci_t),
      (''cmpRspMapOffsetInfo'', cmpMapOffsetInfo_t),
      (''cmpTltContPersoMapOffsetInfo'', cmpMapOffsetInfo_t)]"

section \<open>Mapped messages (cmpMap.h)\<close>

definition cmpMapGetVersion_t :: "ctype" where [clayout]:
  "cmpMapGetVersion_t = Union
     [(''cmpCmdGetVersion'', cmpCmdGetVersion_t),
      (''cmpRspGetVersion'', cmpRspGetVersion_t)]"

definition cmpMapGetSuid_t :: "ctype" where [clayout]:
  "cmpMapGetSuid_t = Union
     [(''cmpCmdGetSuid'', cmpCmdGetSuid_t),
      (''cmpRspGetSuid'', cmpRspGetSuid_t)]"

definition cmpMapGenAuthToken_t :: "ctype" where [clayout]:
  "cmpMapGenAuthToken_t = Union
     [(''cmpCmdGenAuthToken'', cmpCmdGenAuthToken_t),
      (''cmpRspGenAuthToken'', cmpRspGenAuthToken_t)]"

definition cmpCommandHeaderMap_t :: "ctype" where [clayout]:
  "cmpCommandHeaderMap_t = Struct
     [(''commandId'', U32),
      (''len'', U32),
      (''reserved'', U32)]"

definition cmpResponseHeaderMap_t :: "ctype" where [clayout]:
  "cmpResponseHeaderMap_t = Struct
     [(''responseId'', U32),
      (''returnCode'', U32),
      (''len'', U32),
      (''reserved'', U32)]"

definition cmpBeginSocAuthenticationCmd_t :: "ctype" where [clayout]:
  "cmpBeginSocAuthenticationCmd_t = Struct
     [(''cmdHeader'', cmpCommandHeaderMap_t)]"

definition cmpCmdBeginSocAuthentication_t :: "ctype" where [clayout]:
  "cmpCmdBeginSocAuthentication_t = Struct
     [(''cmd'', cmpBeginSocAuthenticationCmd_t)]"

definition cmpBeginSocAuthenticationRspSdata_t :: "ctype" where [clayout]:
  "cmpBeginSocAuthenticationRspSdata_t = Struct
     [(''rspHeader'', cmpResponseHeaderMap_t),
      (''suid'', mcSuid_t),
      (''rnd1'', cmpRnd8_t)]"

definition cmpBeginSocAuthenticationRsp_t :: "ctype" where [clayout]:
  "cmpBeginSocAuthenticationRsp_t = Struct
     [(''sdata'', cmpBeginSocAuthenticationRspSdata_t),
      (''mac'', cmpMac_t)]"

definition cmpRspBeginSocAuthentication_t :: "ctype" where [clayout]:
  "cmpRspBeginSocAuthentication_t = Struct
     [(''rsp'', cmpBeginSocAuthenticationRsp_t)]"

definition cmpMapBeginSocAuthentication_t :: "ctype" where [clayout]:
  "cmpMapBeginSocAuthentication_t = Union
     [(''cmpCmdBeginSocAuthentication'', cmpCmdBeginSocAuthentication_t),
      (''cmpRspBeginSocAuthentication'', cmpRspBeginSocAuthentication_t)]"

definition cmpBeginRootAuthenticationCmd_t :: "ctype" where [clayout]:
  "cmpBeginRootAuthenticationCmd_t = Struct
     [(''cmdHeader'', cmpCommandHeaderMap_t)]"

definition cmpCmdBeginRootAuthentication_t :: "ctype" where [clayout]:
  "cmpCmdBeginRootAuthentication_t = Struct
     [(''cmd'', cmpBeginRootAuthenticationCmd_t)]"

definition cmpBeginRootAuthenticationRspSdata_t :: "ctype" where [clayout]:
  "cmpBeginRootAuthenticationRspSdata_t = Struct
     [(''rspHeader'', cmpResponseHeaderMap_t),
      (''suid'', mcSuid_t),
      (''rnd1'', cmpRnd8_t)]"

definition cmpBeginRootAuthenticationRsp_t :: "ctype" where [clayout]:
  "cmpBeginRootAuthenticationRsp_t = Struct
     [(''sdata'', cmpBeginRootAuthenticationRspSdata_t),
      (''mac'', cmpMac_t)]"

definition cmpRspBeginRootAuthentication_t :: "ctype" where [clayout]:
  "cmpRspBeginRootAuthentication_t = Struct
     [(''rsp'', cmpBeginRootAuthenticationRsp_t)]"

definition cmpMapBeginRootAuthentication_t :: "ctype" where [clayout]:
  "cmpMapBeginRootAuthentication_t = Union
     [(''cmpCmdBeginRootAuthentication'', cmpCmdBeginRootAuthentication_t),
      (''cmpRspBeginRootAuthentication'', cmpRspBeginRootAuthentication_t)]"

definition cmpBeginSpAuthenticationCmd_t :: "ctype" where [clayout]:
  "cmpBeginSpAuthenticationCmd_t = Struct
     [(''cmdHeader'', cmpCommandHeaderMap_t),
      (''spid'', U32)]"

definition cmpCmdBeginSpAuthentication_t :: "ctype" where [clayout]:
  "cmpCmdBeginSpAuthentication_t = Struct
     [(''cmd'', cmpBeginSpAuthenticationCmd_t)]"

definition cmpBeginSpAuthenticationRspSdata_t :: "ctype" where [clayout]:
  "cmpBeginSpAuthenticationRspSdata_t = Struct
     [(''rspHeader'', cmpResponseHeaderMap_t),
      (''suid'', mcSuid_t),
      (''spid'', U32),
      (''rnd1'', cmpRnd8_t)]"

definition cmpBeginSpAuthenticationRsp_t :: "ctype" where [clayout]:
  "cmpBeginSpAuthenticationRsp_t = Struct
     [(''sdata'', cmpBeginSpAuthenticationRspSdata_t),
      (''mac'', cmpMac_t)]"

definition cmpRspBeginSpAuthentication_t :: "ctype" where [clayout]:
  "cmpRspBeginSpAuthentication_t = Struct
     [(''rsp'', cmpBeginSpAuthenticationRsp_t)]"

definition cmpMapBeginSpAuthentication_t :: "ctype" where [clayout]:
  "cmpMapBeginSpAuthentication_t = Union
     [(''cmpCmdBeginSpAuthentication'', cmpCmdBeginSpAuthentication_t),
      (''cmpRspBeginSpAuthentication'', cmpRspBeginSpAuthentication_t)]"

definition cmpAuthMsgEdata_t :: "ctype" where [clayout]:
  "cmpAuthMsgEdata_t = Struct
     [(''rnd2'', cmpRnd8_t),
      (''suid'', mcSuid_t),
      (''entityId'', U32),
      (''rnd1'', cmpRnd8_t),
      (''k2'', cmpRnd32_t)]"

definition cmpAuthCmdEd_t :: "ctype" where [clayout]:
  "cmpAuthCmdEd_t = Struct
     [(''edata'', cmpAuthMsgEdata_t),
      (''padding'', Arr (CMP_ED_PADDING (csize cmpAuthMsgEdata_t)) U8)]"

definition cmpAuthCmdSdata_t :: "ctype" where [clayout]:
  "cmpAuthCmdSdata_t = Struct
     [(''cmdHeader'', cmpCommandHeaderMap_t),
      (''edLen'', U32),
      (''ed'', cmpAuthCmdEd_t)]"

definition cmpAuthenticateCmd_t :: "ctype" where [clayout]:
  "cmpAuthenticateCmd_t = Struct
     [(''sdata'', cmpAuthCmdSdata_t),
      (''mac'', cmpMac_t)]"

definition cmpCmdAuthenticate_t :: "ctype" where [clayout]:
  "cmpCmdAuthenticate_t = Struct
     [(''cmd'', cmpAuthenticateCmd_t)]"

definition cmpAuthRspEdata_t :: "ctype" where [clayout]:
  "cmpAuthRspEdata_t = Struct
     [(''rnd2'', cmpRnd8_t),
      (''suid'', mcSuid_t),
      (''entityId'', U32),
      (''rnd1'', cmpRnd8_t),
      (''k1'', cmpRnd32_t)]"

definition cmpAuthRspEd_t :: "ctype" where [clayout]:
  "cmpAuthRspEd_t = Struct
     [(''edata'', cmpAuthRspEdata_t),
      (''padding'', Arr (CMP_ED_PADDING (csize cmpAuthRspEdata_t)) U8)]"

definition cmpAuthRspSdata_t :: "ctype" where [clayout]:
  "cmpAuthRspSdata_t = Struct
     [(''rspHeader'', cmpResponseHeaderMap_t),
      (''edLen'', U32),
      (''ed'', cmpAuthRspEd_t)]"

definition cmpAuthenticateRsp_t :: "ctype" where [clayout]:
  "cmpAuthenticateRsp_t = Struct
     [(''sdata'', cmpAuthRspSdata_t),
      (''mac'', cmpMac_t)]"

definition cmpRspAuthenticate_t :: "ctype" where [clayout]:
  "cmpRspAuthenticate_t = Struct
     [(''rsp'', cmpAuthenticateRsp_t)]"

definition cmpMapAuthenticate_t :: "ctype" where [clayout]:
  "cmpMapAuthenticate_t = Union
     [(''cmpCmdAuthenticate'', cmpCmdAuthenticate_t),
      (''cmpRspAuthenticate'', cmpRspAuthenticate_t)]"

definition cmpAuthenticateTerminateCmdSdata_t :: "ctype" where [clayout]:
  "cmpAuthenticateTerminateCmdSdata_t = Struct
     [(''cmdHeader'', cmpCommandHeaderMap_t)]"

definition cmpAuthenticateTerminateCmd_t :: "ctype" where [clayout]:
  "cmpAuthenticateTerminateCmd_t = Struct
     [(''sdata'', cmpAuthenticateTerminateCmdSdata_t),
      (''mac'', cmpMac_t)]"

definition cmpCmdAuthenticateTerminate_t :: "ctype" where [clayout]:
  "cmpCmdAuthenticateTerminate_t = Struct
     [(''cmd'', cmpAuthenticateTerminateCmd_t)]"

definition cmpAuthenticateTerminateRspSdata_t :: "ctype" where [clayout]:
  "cmpAuthenticateTerminateRspSdata_t = Struct
     [(''rspHeader'', cmpResponseHeaderMap_t)]"

definition cmpAutenticateTerminateRsp_t :: "ctype" where [clayout]:
  "cmpAutenticateTerminateRsp_t = Struct
     [(''sdata'', cmpAuthenticateTerminateRspSdata_t),
      (''mac'', cmpMac_t)]"

definition cmpRspAuthenticateTerminate_t :: "ctype" where [clayout]:
  "cmpRspAuthenticateTerminate_t = Struct
     [(''rsp'', cmpAutenticateTerminateRsp_t)]"

definition cmpMapAuthenticateTerminate_t :: "ctype" where [clayout]:
  "cmpMapAuthenticateTerminate_t = Union
     [(''cmpCmdAuthenticateTerminate'', cmpCmdAuthenticateTerminate_t),
      (''cmpRspAuthenticateTerminate'', cmpRspAuthenticateTerminate_t)]"

definition cmpRootRegActMsgEdata_t :: "ctype" where [clayout]:
  "cmpRootRegActMsgEdata_t = Struct
     [(''kRootAuth'', mcSymmetricKey_t)]"

definition cmpRootRegActCmdEd_t :: "ctype" where [clayout]:
  "cmpRootRegActCmdEd_t = Struct
     [(''edata'', cmpRootRegActMsgEdata_t),
      (''padding'', Arr (CMP_ED_PADDING (csize cmpRootRegActMsgEdata_t)) U8)]"

definition cmpRootRegActCmdSdata_t :: "ctype" where [clayout]:
  "cmpRootRegActCmdSdata_t = Struct
     [(''cmdHeader'', cmpCommandHeaderMap_t),
      (''rootid'', U32),
      (''edLen'', U32),
      (''ed'', cmpRootRegActCmdEd_t)]"

definition cmpRootContRegisterActivateCmd_t :: "ctype" where [clayout]:
  "cmpRootContRegisterActivateCmd_t = Struct
     [(''sdata'', cmpRootRegActCmdSdata_t),
      (''mac'', cmpMac_t)]"

definition cmpCmdRootContRegisterActivate_t :: "ctype" where [clayout]:
  "cmpCmdRootContRegisterActivate_t = Struct
     [(''cmd'', cmpRootContRegisterActivateCmd_t)]"

definition cmpRootRegActRspSdata_t :: "ctype" where [clayout]:
  "cmpRootRegActRspSdata_t = Struct
     [(''rspHeader'', cmpResponseHeaderMap_t),
      (''soRootContLen'', U32),
      (''soRootCont'', mcSoRootCont_t)]"

definition cmpRootContRegisterActivateRsp_t :: "ctype" where [clayout]:
  "cmpRootContRegisterActivateRsp_t = Struct
     [(''sdata'', cmpRootRegActRspSdata_t),
      (''mac'', cmpMac_t)]"

definition cmpRspRootContRegisterActivate_t :: "ctype" where [clayout]:
  "cmpRspRootContRegisterActivate_t = Struct
     [(''rsp'', cmpRootContRegisterActivateRsp_t)]"

definition cmpMapRootContRegisterActivate_t :: "ctype" where [clayout]:
  "cmpMapRootContRegisterActivate_t = Union
     [(''cmpCmdRootContRegisterActivate'', cmpCmdRootContRegisterActivate_t),
      (''cmpRspRootContRegisterActivate'', cmpRspRootContRegisterActivate_t)]"

definition cmpRootUnregMsgEdata_t :: "ctype" where [clayout]:
  "cmpRootUnregMsgEdata_t = Struct
     [(''suid'', mcSuid_t)]"

definition cmpRootUnregCmdEd_t :: "ctype" where [clayout]:
  "cmpRootUnregCmdEd_t = Struct
     [(''edata'', cmpRootUnregMsgEdata_t),
      (''padding'', Arr (CMP_ED_PADDING (csize cmpRootUnregMsgEdata_t)) U8)]"

definition cmpRootUnregCmdSdata_t :: "ctype" where [clayout]:
  "cmpRootUnregCmdSdata_t = Struct
     [(''cmdHeader'', cmpCommandHeaderMap_t),
      (''edLen'', U32),
      (''ed'', cmpRootUnregCmdEd_t)]"

definition cmpRootContUnregisterCmd_t :: "ctype" where [clayout]:
  "cmpRootContUnregisterCmd_t = Struct
     [(''sdata'', cmpRootUnregCmdSdata_t),
      (''mac'', cmpMac_t)]"

definition cmpCmdRootContUnregister_t :: "ctype" where [clayout]:
  "cmpCmdRootContUnregister_t = Struct
     [(''cmd'', cmpRootContUnregisterCmd_t)]"

definition cmpRootUnregRspEdata_t :: "ctype" where [clayout]:
  "cmpRootUnregRspEdata_t = Struct
     [(''suid'', mcSuid_t)]"

definition cmpRootUnregRspEd_t :: "ctype" where [clayout]:
  "cmpRootUnregRspEd_t = Struct
     [(''edata'', cmpRootUnregRspEdata_t),
      (''padding'', Arr (CMP_ED_PADDING (csize cmpRootUnregRspEdata_t)) U8)]"

definition cmpRootUnregRspSdata_t :: "ctype" where [clayout]:
  "cmpRootUnregRspSdata_t = Struct
     [(''rspHeader'', cmpResponseHeaderMap_t),
      (''edLen'', U32),
      (''ed'', cmpRootUnregRspEd_t)]"

definition cmpRootContUnregisterRsp_t :: "ctype" where [clayout]:
  "cmpRootContUnregisterRsp_t = Struct
     [(''sdata'', cmpRootUnregRspSdata_t),
      (''mac'', cmpMac_t)]"

definition cmpRspRootContUnregister_t :: "ctype" where [clayout]:
  "cmpRspRootContUnregister_t = Struct
     [(''rsp'', cmpRootContUnregisterRsp_t)]"

definition cmpMapRootContUnregister_t :: "ctype" where [clayout]:
  "cmpMapRootContUnregister_t = Union
     [(''cmpCmdRootContUnregister'', cmpCmdRootContUnregister_t),
      (''cmpRspRootContUnregister'', cmpRspRootContUnregister_t)]"

definition cmpRootLockByRootCmdSdata_t :: "ctype" where [clayout]:
  "cmpRootLockByRootCmdSdata_t = Struct
     [(''cmdHeader'', cmpCommandHeaderMap_t)]"

definition cmpRootContLockByRootCmd_t :: "ctype" where [clayout]:
  "cmpRootContLockByRootCmd_t = Struct
     [(''sdata'', cmpRootLockByRootCmdSdata_t),
      (''mac'', cmpMac_t)]"

definition cmpCmdRootContLockByRoot_t :: "ctype" where [clayout]:
  "cmpCmdRootContLockByRoot_t = Struct
     [(''cmd'', cmpRootContLockByRootCmd_t)]"

definition cmpRootLockByRootRspSdata_t :: "ctype" where [clayout]:
  "cmpRootLockByRootRspSdata_t = Struct
     [(''rspHeader'', cmpResponseHeaderMap_t),
      (''soRootContLen'', U32),
      (''soRootCont'', mcSoRootCont_t)]"

definition cmpRootContLockByRootRsp_t :: "ctype" where [clayout]:
  "cmpRootContLockByRootRsp_t = Struct
     [(''sdata'', cmpRootLockByRootRspSdata_t),
      (''mac'', cmpMac_t)]"

definition cmpRspRootContLockByRoot_t :: "ctype" where [clayout]:
  "cmpRspRootContLockByRoot_t = Struct
     [(''rsp'', cmpRootContLockByRootRsp_t)]"

definition cmpMapRootContLockByRoot_t :: "ctype" where [clayout]:
  "cmpMapRootContLockByRoot_t = Union
     [(''cmpCmdRootContLockByRoot'', cmpCmdRootContLockByRoot_t),
      (''cmpRspRootContLockByRoot'', cmpRspRootContLockByRoot_t)]"

definition cmpRootUnlockByRootCmdSdata_t :: "ctype" where [clayout]:
  "cmpRootUnlockByRootCmdSdata_t = Struct
     [(''cmdHeader'', cmpCommandHeaderMap_t)]"

definition cmpRootContUnlockByRootCmd_t :: "ctype" where [clayout]:
  "cmpRootContUnlockByRootCmd_t = Struct
     [(''sdata'', cmpRootUnlockByRootCmdSdata_t),
      (''mac'', cmpMac_t)]"

definition cmpCmdRootContUnlockByRoot_t :: "ctype" where [clayout]:
  "cmpCmdRootContUnlockByRoot_t = Struct
     [(''cmd'', cmpRootContUnlockByRootCmd_t)]"

definition cmpRootUnlockByRootRspSdata_t :: "ctype" where [clayout]:
  "cmpRootUnlockByRootRspSdata_t = Struct
     [(''rspHeader'', cmpResponseHeaderMap_t),
      (''soRootContLen'', U32),
      (''soRootCont'', mcSoRootCont_t)]"

definition cmpRootContUnlockByRootRsp_t :: "ctype" where [clayout]:
  "cmpRootContUnlockByRootRsp_t = Struct
     [(''sdata'', cmpRootUnlockByRootRspSdata_t),
      (''mac'', cmpMac_t)]"

definition cmpRspRootContUnlockByRoot_t :: "ctype" where [clayout]:
  "cmpRspRootContUnlockByRoot_t = Struct
     [(''rsp'', cmpRootContUnlockByRootRsp_t)]"

definition cmpMapRootContUnlockByRoot_t :: "ctype" where [clayout]:
  "cmpMapRootContUnlockByRoot_t = Union
     [(''cmpCmdRootContUnlockByRoot'', cmpCmdRootContUnlockByRoot_t),
      (''cmpRspRootContUnlockByRoot'', cmpRspRootContUnlockByRoot_t)]"

definition cmpSpRegActMsgEdata_t :: "ctype" where [clayout]:
  "cmpSpRegActMsgEdata_t = Struct
     [(''kSpAuth'', mcSymmetricKey_t)]"

definition cmpSpRegActCmdEd_t :: "ctype" where [clayout]:
  "cmpSpRegActCmdEd_t = Struct
     [(''edata'', cmpSpRegActMsgEdata_t),
      (''padding'', Arr (CMP_ED_PADDING (csize cmpSpRegActMsgEdata_t)) U8)]"

definition cmpSpRegActCmdSdata_t :: "ctype" where [clayout]:
  "cmpSpRegActCmdSdata_t = Struct
     [(''cmdHeader'', cmpCommandHeaderMap_t),
      (''spid'', U32),
      (''edLen'', U32),
      (''ed'', cmpSpRegActCmdEd_t)]"

definition cmpSpContRegisterActivateCmd_t :: "ctype" where [clayout]:
  "cmpSpContRegisterActivateCmd_t = Struct
     [(''sdata'', cmpSpRegActCmdSdata_t),
      (''mac'', cmpMac_t)]"

definition cmpCmdSpContRegisterActivate_t :: "ctype" where [clayout]:
  "cmpCmdSpContRegisterActivate_t = Struct
     [(''cmd'', cmpSpContRegisterActivateCmd_t)]"

definition cmpSpRegActRspSdata_t :: "ctype" where [clayout]:
  "cmpSpRegActRspSdata_t = Struct
     [(''rspHeader'', cmpResponseHeaderMap_t),
      (''soRootContLen'', U32),
      (''soRootCont'', mcSoRootCont_t),
      (''soSpContLen'', U32),
      (''soSpCont'', mcSoSpCont_t)]"

definition cmpSpContRegisterActivateRsp_t :: "ctype" where [clayout]:
  "cmpSpContRegisterActivateRsp_t = Struct
     [(''sdata'', cmpSpRegActRspSdata_t),
      (''mac'', cmpMac_t)]"

definition cmpRspSpContRegisterActivate_t :: "ctype" where [clayout]:
  "cmpRspSpContRegisterActivate_t = Struct
     [(''rsp'', cmpSpContRegisterActivateRsp_t)]"

definition cmpMapSpContRegisterActivate_t :: "ctype" where [clayout]:
  "cmpMapSpContRegisterActivate_t = Union
     [(''cmpCmdSpContRegisterActivate'', cmpCmdSpContRegisterActivate_t),
      (''cmpRspSpContRegisterActivate'', cmpRspSpContRegisterActivate_t)]"

definition cmpSpContUnregCmdSdata_t :: "ctype" where [clayout]:
  "cmpSpContUnregCmdSdata_t = Struct
     [(''cmdHeader'', cmpCommandHeaderMap_t),
      (''spid'', U32)]"

definition cmpSpContUnregisterCmd_t :: "ctype" where [clayout]:
  "cmpSpContUnregisterCmd_t = Struct
     [(''sdata'', cmpSpContUnregCmdSdata_t),
      (''mac'', cmpMac_t)]"

definition cmpCmdSpContUnregister_t :: "ctype" where [clayout]:
  "cmpCmdSpContUnregister_t = Struct
     [(''cmd'', cmpSpContUnregisterCmd_t)]"

definition cmpSpContUnregRspSdata_t :: "ctype" where [clayout]:
  "cmpSpContUnregRspSdata_t = Struct
     [(''rspHeader'', cmpResponseHeaderMap_t),
      (''soRootContLen'', U32),
      (''soRootCont'', mcSoRootCont_t)]"

definition cmpSpContUnregisterRsp_t :: "ctype" where [clayout]:
  "cmpSpContUnregisterRsp_t = Struct
     [(''sdata'', cmpSpContUnregRspSdata_t),
      (''mac'', cmpMac_t)]"

definition cmpRspSpContUnregister_t :: "ctype" where [clayout]:
  "cmpRspSpContUnregister_t = Struct
     [(''rsp'', cmpSpContUnregisterRsp_t)]"

definition cmpMapSpContUnregister_t :: "ctype" where [clayout]:
  "cmpMapSpContUnregister_t = Union
     [(''cmpCmdSpContUnregister'', cmpCmdSpContUnregister_t),
      (''cmpRspSpContUnregister'', cmpRspSpContUnregister_t)]"

definition cmpSpRegisterMsgEdata_t :: "ctype" where [clayout]:
  "cmpSpRegisterMsgEdata_t = Struct
     [(''kSpAuth'', mcSymmetricKey_t)]"

definition cmpSpRegisterCmdEd_t :: "ctype" where [clayout]:
  "cmpSpRegisterCmdEd_t = Struct
     [(''edata'', cmpSpRegisterMsgEdata_t),
      (''padding'', Arr (CMP_ED_PADDING (csize cmpSpRegisterMsgEdata_t)) U8)]"

definition cmpSpRegisterCmdSdata_t :: "ctype" where [clayout]:
  "cmpSpRegisterCmdSdata_t = Struct
     [(''cmdHeader'', cmpCommandHeaderMap_t),
      (''spid'', U32),
      (''edLen'', U32),
      (''ed'', cmpSpRegisterCmdEd_t)]"

definition cmpSpContRegisterCmd_t :: "ctype" where [clayout]:
  "cmpSpContRegisterCmd_t = Struct
     [(''sdata'', cmpSpRegisterCmdSdata_t),
      (''mac'', cmpMac_t)]"

definition cmpCmdSpContRegister_t :: "ctype" where [clayout]:
  "cmpCmdSpContRegister_t = Struct
     [(''cmd'', cmpSpContRegisterCmd_t)]"

definition cmpSpRegisterRspSdata_t :: "ctype" where [clayout]:
  "cmpSpRegisterRspSdata_t = Struct
     [(''rspHeader'', cmpResponseHeaderMap_t),
      (''soRootContLen'', U32),
      (''soRootCont'', mcSoRootCont_t),
      (''soSpContLen'', U32),
      (''soSpCont'', mcSoSpCont_t)]"

definition cmpSpContRegisterRsp_t :: "ctype" where [clayout]:
  "cmpSpContRegisterRsp_t = Struct
     [(''sdata'', cmpSpRegisterRspSdata_t),
      (''mac'', cmpMac_t)]"

definition cmpRspSpContRegister_t :: "ctype" where [clayout]:
  "cmpRspSpContRegister_t = Struct
     [(''rsp'', cmpSpContRegisterRsp_t)]"

definition cmpMapSpContRegister_t :: "ctype" where [clayout]:
  "cmpMapSpContRegister_t = Union
     [(''cmpCmdSpContRegister'', cmpCmdSpContRegister_t),
      (''cmpRspSpContRegister'', cmpRspSpContRegister_t)]"

definition cmpSpLockByRootCmdSdata_t :: "ctype" where [clayout]:
  "cmpSpLockByRootCmdSdata_t = Struct
     [(''cmdHeader'', cmpCommandHeaderMap_t),
      (''spid'', U32)]"

definition cmpSpContLockByRootCmd_t :: "ctype" where [clayout]:
  "cmpSpContLockByRootCmd_t = Struct
     [(''sdata'', cmpSpLockByRootCmdSdata_t),
      (''mac'', cmpMac_t)]"

definition cmpCmdSpContLockByRoot_t :: "ctype" where [clayout]:
  "cmpCmdSpContLockByRoot_t = Struct
     [(''cmd'', cmpSpContLockByRootCmd_t)]"

definition cmpSpLockByRootRspSdata_t :: "ctype" where [clayout]:
  "cmpSpLockByRootRspSdata_t = Struct
     [(''rspHeader'', cmpResponseHeaderMap_t),
      (''soSpContLen'', U32),
      (''soSpCont'', mcSoSpCont_t)]"

definition cmpSpContLockByRootRsp_t :: "ctype" where [clayout]:
  "cmpSpContLockByRootRsp_t = Struct
     [(''sdata'', cmpSpLockByRootRspSdata_t),
      (''mac'', cmpMac_t)]"

definition cmpRspSpContLockByRoot_t :: "ctype" where [clayout]:
  "cmpRspSpContLockByRoot_t = Struct
     [(''rsp'', cmpSpContLockByRootRsp_t)]"

definition cmpMapSpContLockByRoot_t :: "ctype" where [clayout]:
  "cmpMapSpContLockByRoot_t = Union
     [(''cmpCmdSpContLockByRoot'', cmpCmdSpContLockByRoot_t),
      (''cmpRspSpContLockByRoot'', cmpRspSpContLockByRoot_t)]"

definition cmpSpUnlockByRootCmdSdata_t :: "ctype" where [clayout]:
  "cmpSpUnlockByRootCmdSdata_t = Struct
     [(''cmdHeader'', cmpCommandHeaderMap_t),
      (''spid'', U32)]"

definition cmpSpContUnlockByRootCmd_t :: "ctype" where [clayout]:
  "cmpSpContUnlockByRootCmd_t = Struct
     [(''sdata'', cmpSpUnlockByRootCmdSdata_t),
      (''mac'', cmpMac_t)]"

definition cmpCmdSpContUnlockByRoot_t :: "ctype" where [clayout]:
  "cmpCmdSpContUnlockByRoot_t = Struct
     [(''cmd'', cmpSpContUnlockByRootCmd_t)]"

definition cmpSpUnlockByRootRspSdata_t :: "ctype" where [clayout]:
  "cmpSpUnlockByRootRspSdata_t = Struct
     [(''rspHeader'', cmpResponseHeaderMap_t),
      (''soSpContLen'', U32),
      (''soSpCont'', mcSoSpCont_t)]"

definition cmpSpContUnlockByRootRsp_t :: "ctype" where [clayout]:
  "cmpSpContUnlockByRootRsp_t = Struct
     [(''sdata'', cmpSpUnlockByRootRspSdata_t),
      (''mac'', cmpMac_t)]"

definition cmpRspSpContUnlockByRoot_t :: "ctype" where [clayout]:
  "cmpRspSpContUnlockByRoot_t = Struct
     [(''rsp'', cmpSpContUnlockByRootRsp_t)]"

definition cmpMapSpContUnlockByRoot_t :: "ctype" where [clayout]:
  "cmpMapSpContUnlockByRoot_t = Union
     [(''cmpCmdSpContUnlockByRoot'', cmpCmdSpContUnlockByRoot_t),
      (''cmpRspSpContUnlockByRoot'', cmpRspSpContUnlockByRoot_t)]"

definition cmpSpActivateMsgEdata_t :: "ctype" where [clayout]:
  "cmpSpActivateMsgEdata_t = Struct
     [(''kSpAuth'', mcSymmetricKey_t)]"

definition cmpSpActivateCmdEd_t :: "ctype" where [clayout]:
  "cmpSpActivateCmdEd_t = Struct
     [(''edata'', cmpSpActivateMsgEdata_t),
      (''padding'', Arr (CMP_ED_PADDING (csize cmpSpActivateMsgEdata_t)) U8)]"

definition cmpSpActivateCmdSdata_t :: "ctype" where [clayout]:
  "cmpSpActivateCmdSdata_t = Struct
     [(''cmdHeader'', cmpCommandHeaderMap_t),
      (''spid'', U32),
      (''edLen'', U32),
      (''ed'', cmpSpActivateCmdEd_t)]"

definition cmpSpContActivateCmd_t :: "ctype" where [clayout]:
  "cmpSpContActivateCmd_t = Struct
     [(''sdata'', cmpSpActivateCmdSdata_t),
      (''mac'', cmpMac_t)]"

definition cmpCmdSpContActivate_t :: "ctype" where [clayout]:
  "cmpCmdSpContActivate_t = Struct
     [(''cmd'', cmpSpContActivateCmd_t)]"

definition cmpSpActivateRspSdata_t :: "ctype" where [clayout]:
  "cmpSpActivateRspSdata_t = Struct
     [(''rspHeader'', cmpResponseHeaderMap_t),
      (''soSpContLen'', U32),
      (''soSpCont'', mcSoSpCont_t)]"

definition cmpSpContActivateRsp_t :: "ctype" where [clayout]:
  "cmpSpContActivateRsp_t = Struct
     [(''sdata'', cmpSpActivateRspSdata_t),
      (''mac'', cmpMac_t)]"

definition cmpRspSpContActivate_t :: "ctype" where [clayout]:
  "cmpRspSpContActivate_t = Struct
     [(''rsp'', cmpSpContActivateRsp_t)]"

definition cmpMapSpContActivate_t :: "ctype" where [clayout]:
  "cmpMapSpContActivate_t = Union
     [(''cmpCmdSpContActivate'', cmpCmdSpContActivate_t),
      (''cmpRspSpContActivate'', cmpRspSpContActivate_t)]"

definition cmpSpLockBySpCmdSdata_t :: "ctype" where [clayout]:
  "cmpSpLockBySpCmdSdata_t = Struct
     [(''cmdHeader'', cmpCommandHeaderMap_t),
      (''spid'', U32)]"

definition cmpSpContLockBySpCmd_t :: "ctype" where [clayout]:
  "cmpSpContLockBySpCmd_t = Struct
     [(''sdata'', cmpSpLockBySpCmdSdata_t),
      (''mac'', cmpMac_t)]"

definition cmpCmdSpContLockBySp_t :: "ctype" where [clayout]:
  "cmpCmdSpContLockBySp_t = Struct
     [(''cmd'', cmpSpContLockBySpCmd_t)]"

definition cmpSpLockBySpRspSdata_t :: "ctype" where [clayout]:
  "cmpSpLockBySpRspSdata_t = Struct
     [(''rspHeader'', cmpResponseHeaderMap_t),
      (''soSpContLen'', U32),
      (''soSpCont'', mcSoSpCont_t)]"

definition cmpSpContLockBySpRsp_t :: "ctype" where [clayout]:
  "cmpSpContLockBySpRsp_t = Struct
     [(''sdata'', cmpSpLockBySpRspSdata_t),
      (''mac'', cmpMac_t)]"

definition cmpRspSpContLockBySp_t :: "ctype" where [clayout]:
  "cmpRspSpContLockBySp_t = Struct
     [(''rsp'', cmpSpContLockBySpRsp_t)]"

definition cmpMapSpContLockBySp_t :: "ctype" where [clayout]:
  "cmpMapSpContLockBySp_t = Union
     [(''cmpCmdSpContLockBySp'', cmpCmdSpContLockBySp_t),
      (''cmpRspSpContLockBySp'', cmpRspSpContLockBySp_t)]"

definition cmpSpUnlockBySpCmdSdata_t :: "ctype" where [clayout]:
  "cmpSpUnlockBySpCmdSdata_t = Struct
     [(''cmdHeader'', cmpCommandHeaderMap_t),
      (''spid'', U32)]"

definition cmpSpContUnlockBySpCmd_t :: "ctype" where [clayout]:
  "cmpSpContUnlockBySpCmd_t = Struct
     [(''sdata'', cmpSpUnlockBySpCmdSdata_t),
      (''mac'', cmpMac_t)]"

definition cmpCmdSpContUnlockBySp_t :: "ctype" where [clayout]:
  "cmpCmdSpContUnlockBySp_t = Struct
     [(''cmd'', cmpSpContUnlockBySpCmd_t)]"

definition cmpSpUnlockBySpRspSdata_t :: "ctype" where [clayout]:
  "cmpSpUnlockBySpRspSdata_t = Struct
     [(''rspHeader'', cmpResponseHeaderMap_t),
      (''soSpContLen'', U32),
      (''soSpCont'', mcSoSpCont_t)]"

definition cmpSpContUnlockBySpRsp_t :: "ctype" where [clayout]:
  "cmpSpContUnlockBySpRsp_t = Struct
     [(''sdata'', cmpSpUnlockBySpRspSdata_t),
      (''mac'', cmpMac_t)]"

definition cmpRspSpContUnlockBySp_t :: "ctype" where [clayout]:
  "cmpRspSpContUnlockBySp_t = Struct
     [(''rsp'', cmpSpContUnlockBySpRsp_t)]"

definition cmpMapSpContUnlockBySp_t :: "ctype" where [clayout]:
  "cmpMapSpContUnlockBySp_t = Union
     [(''cmpCmdSpContUnlockBySp'', cmpCmdSpContUnlockBySp_t),
      (''cmpRspSpContUnlockBySp'', cmpRspSpContUnlockBySp_t)]"

definition cmpTltRegActMsgEdata_t :: "ctype" where [clayout]:
  "cmpTltRegActMsgEdata_t = Struct
     [(''kSpTltEnc'', mcSymmetricKey_t)]"

definition cmpTltRegActCmdEd_t :: "ctype" where [clayout]:
  "cmpTltRegActCmdEd_t = Struct
     [(''edata'', cmpTltRegActMsgEdata_t),
      (''padding'', Arr (CMP_ED_PADDING (csize cmpTltRegActMsgEdata_t)) U8)]"

definition cmpTltRegActCmdSdata_t :: "ctype" where [clayout]:
  "cmpTltRegActCmdSdata_t = Struct
     [(''cmdHeader'', cmpCommandHeaderMap_t),
      (''spid'', U32),
      (''uuid'', mcUuid_t),
      (''skSpTltEnc'', mcSha256_t),
      (''tltVersion'', U32),
      (''edLen'', U32),
      (''ed'', cmpTltRegActCmdEd_t)]"

definition cmpTltContRegisterActivateCmd_t :: "ctype" where [clayout]:
  "cmpTltContRegisterActivateCmd_t = Struct
     [(''sdata'', cmpTltRegActCmdSdata_t),
      (''mac'', cmpMac_t)]"

definition cmpCmdTltContRegisterActivate_t :: "ctype" where [clayout]:
  "cmpCmdTltContRegisterActivate_t = Struct
     [(''cmd'', cmpTltContRegisterActivateCmd_t)]"

definition cmpTltRegActRspSdata_t :: "ctype" where [clayout]:
  "cmpTltRegActRspSdata_t = Struct
     [(''rspHeader'', cmpResponseHeaderMap_t),
      (''soSpContLen'', U32),
      (''soSpCont'', mcSoSpCont_t),
      (''soTltContLen'', U32),
      (''soTltCont'', mcSoTltCont_2_1_t)]"

definition cmpTltContRegisterActivateRsp_t :: "ctype" where [clayout]:
  "cmpTltContRegisterActivateRsp_t = Struct
     [(''sdata'', cmpTltRegActRspSdata_t),
      (''mac'', cmpMac_t)]"

definition cmpRspTltContRegisterActivate_t :: "ctype" where [clayout]:
  "cmpRspTltContRegisterActivate_t = Struct
     [(''rsp'', cmpTltContRegisterActivateRsp_t)]"

definition cmpMapTltContRegisterActivate_t :: "ctype" where [clayout]:
  "cmpMapTltContRegisterActivate_t = Union
     [(''cmpCmdTltContRegisterActivate'', cmpCmdTltContRegisterActivate_t),
      (''cmpRspTltContRegisterActivate'', cmpRspTltContRegisterActivate_t)]"

definition cmpTltUnregCmdSdata_t :: "ctype" where [clayout]:
  "cmpTltUnregCmdSdata_t = Struct
     [(''cmdHeader'', cmpCommandHeaderMap_t),
      (''spid'', U32),
      (''uuid'', mcUuid_t)]"

definition cmpTltContUnregisterCmd_t :: "ctype" where [clayout]:
  "cmpTltContUnregisterCmd_t = Struct
     [(''sdata'', cmpTltUnregCmdSdata_t),
      (''mac'', cmpMac_t)]"

definition cmpCmdTltContUnregister_t :: "ctype" where [clayout]:
  "cmpCmdTltContUnregister_t = Struct
     [(''cmd'', cmpTltContUnregisterCmd_t)]"

definition cmpTltUnregRspSdata_t :: "ctype" where [clayout]:
  "cmpTltUnregRspSdata_t = Struct
     [(''rspHeader'', cmpResponseHeaderMap_t),
      (''soSpContLen'', U32),
      (''soSpCont'', mcSoSpCont_t)]"

definition cmpTltContUnregisterRsp_t :: "ctype" where [clayout]:
  "cmpTltContUnregisterRsp_t = Struct
     [(''sdata'', cmpTltUnregRspSdata_t),
      (''mac'', cmpMac_t)]"

definition cmpRspTltContUnregister_t :: "ctype" where [clayout]:
  "cmpRspTltContUnregister_t = Struct
     [(''rsp'', cmpTltContUnregisterRsp_t)]"

definition cmpMapTltContUnregister_t :: "ctype" where [clayout]:
  "cmpMapTltContUnregister_t = Union
     [(''cmpCmdTltContUnregister'', cmpCmdTltContUnregister_t),
      (''cmpRspTltContUnregister'', cmpRspTltContUnregister_t)]"

definition cmpTltRegMsgEdata_t :: "ctype" where [clayout]:
  "cmpTltRegMsgEdata_t = Struct
     [(''kSpTltEnc'', mcSymmetricKey_t)]"

definition cmpTltRegCmdEd_t :: "ctype" where [clayout]:
  "cmpTltRegCmdEd_t = Struct
     [(''edata'', cmpTltRegMsgEdata_t),
      (''padding'', Arr (CMP_ED_PADDING (csize cmpTltRegMsgEdata_t)) U8)]"

definition cmpTltRegCmdSdata_t :: "ctype" where [clayout]:
  "cmpTltRegCmdSdata_t = Struct
     [(''cmdHeader'', cmpCommandHeaderMap_t),
      (''spid'', U32),
      (''uuid'', mcUuid_t),
      (''skSpTltEnc'', mcSha256_t),
      (''tltVersion'', U32),
      (''edLen'', U32),
      (''ed'', cmpTltRegCmdEd_t)]"

definition cmpTltContRegisterCmd_t :: "ctype" where [clayout]:
  "cmpTltContRegisterCmd_t = Struct
     [(''sdata'', cmpTltRegCmdSdata_t),
      (''mac'', cmpMac_t)]"

definition cmpCmdTltContRegister_t :: "ctype" where [clayout]:
  "cmpCmdTltContRegister_t = Struct
     [(''cmd'', cmpTltContRegisterCmd_t)]"

definition cmpTltRegRspSdata_t :: "ctype" where [clayout]:
  "cmpTltRegRspSdata_t = Struct
     [(''rspHeader'', cmpResponseHeaderMap_t),
      (''soSpContLen'', U32),
      (''soSpCont'', mcSoSpCont_t),
      (''soTltContLen'', U32),
      (''soTltCont'', mcSoTltCont_2_1_t)]"

definition cmpTltContRegisterRsp_t :: "ctype" where [clayout]:
  "cmpTltContRegisterRsp_t = Struct
     [(''sdata'', cmpTltRegRspSdata_t),
      (''mac'', cmpMac_t)]"

definition cmpRspTltContRegister_t :: "ctype" where [clayout]:
  "cmpRspTltContRegister_t = Struct
     [(''rsp'', cmpTltContRegisterRsp_t)]"

definition cmpMapTltContRegister_t :: "ctype" where [clayout]:
  "cmpMapTltContRegister_t = Union
     [(''cmpCmdTltContRegister'', cmpCmdTltContRegister_t),
      (''cmpRspTltContRegister'', cmpRspTltContRegister_t)]"

definition cmpTltActCmdSdata_t :: "ctype" where [clayout]:
  "cmpTltActCmdSdata_t = Struct
     [(''cmdHeader'', cmpCommandHeaderMap_t),
      (''spid'', U32),
      (''uuid'', mcUuid_t)]"

definition cmpTltContActivateCmd_t :: "ctype" where [clayout]:
  "cmpTltContActivateCmd_t = Struct
     [(''sdata'', cmpTltActCmdSdata_t),
      (''mac'', cmpMac_t)]"

definition cmpCmdTltContActivate_t :: "ctype" where [clayout]:
  "cmpCmdTltContActivate_t = Struct
     [(''cmd'', cmpTltContActivateCmd_t)]"

definition cmpTltActRspSdata_t :: "ctype" where [clayout]:
  "cmpTltActRspSdata_t = Struct
     [(''rspHeader'', cmpResponseHeaderMap_t),
      (''soTltContLen'', U32),
      (''soTltCont'', mcSoTltCont_2_1_t)]"

definition cmpTltContActivateRsp_t :: "ctype" where [clayout]:
  "cmpTltContActivateRsp_t = Struct
     [(''sdata'', cmpTltActRspSdata_t),
      (''mac'', cmpMac_t)]"

definition cmpRspTltContActivate_t :: "ctype" where [clayout]:
  "cmpRspTltContActivate_t = Struct
     [(''rsp'', cmpTltContActivateRsp_t)]"

definition cmpMapTltContActivate_t :: "ctype" where [clayout]:
  "cmpMapTltContActivate_t = Union
     [(''cmpCmdTltContActivate'', cmpCmdTltContActivate_t),
      (''cmpRspTltContActivate'', cmpRspTltContActivate_t)]"

definition cmpTltLockBySpCmdSdata_t :: "ctype" where [clayout]:
  "cmpTltLockBySpCmdSdata_t = Struct
     [(''cmdHeader'', cmpCommandHeaderMap_t),
      (''spid'', U32),
      (''uuid'', mcUuid_t)]"

definition cmpTltContLockBySpCmd_t :: "ctype" where [clayout]:
  "cmpTltContLockBySpCmd_t = Struct
     [(''sdata'', cmpTltLockBySpCmdSdata_t),
      (''mac'', cmpMac_t)]"

definition cmpCmdTltContLockBySp_t :: "ctype" where [clayout]:
  "cmpCmdTltContLockBySp_t = Struct
     [(''cmd'', cmpTltContLockBySpCmd_t)]"

definition cmpTltLockBySpRspSdata_t :: "ctype" where [clayout]:
  "cmpTltLockBySpRspSdata_t = Struct
     [(''rspHeader'', cmpResponseHeaderMap_t),
      (''soTltContLen'', U32),
      (''soTltCont'', mcSoTltCont_2_1_t)]"

definition cmpTltContLockBySpRsp_t :: "ctype" where [clayout]:
  "cmpTltContLockBySpRsp_t = Struct
     [(''sdata'', cmpTltLockBySpRspSdata_t),
      (''mac'', cmpMac_t)]"

definition cmpRspTltContLockBySp_t :: "ctype" where [clayout]:
  "cmpRspTltContLockBySp_t = Struct
     [(''rsp'', cmpTltContLockBySpRsp_t)]"

definition cmpMapTltContLockBySp_t :: "ctype" where [clayout]:
  "cmpMapTltContLockBySp_t = Union
     [(''cmpCmdTltContLockBySp'', cmpCmdTltContLockBySp_t),
      (''cmpRspTltContLockBySp'', cmpRspTltContLockBySp_t)]"

definition cmpTltUnlockBySpCmdSdata_t :: "ctype" where [clayout]:
  "cmpTltUnlockBySpCmdSdata_t = Struct
     [(''cmdHeader'', cmpCommandHeaderMap_t),
      (''spid'', U32),
      (''uuid'', mcUuid_t)]"

definition cmpTltContUnlockBySpCmd_t :: "ctype" where [clayout]:
  "cmpTltContUnlockBySpCmd_t = Struct
     [(''sdata'', cmpTltUnlockBySpCmdSdata_t),
      (''mac'', cmpMac_t)]"

definition cmpCmdTltContUnlockBySp_t :: "ctype" where [clayout]:
  "cmpCmdTltContUnlockBySp_t = Struct
     [(''cmd'', cmpTltContUnlockBySpCmd_t)]"

definition cmpTltUnlockBySpRspSdata_t :: "ctype" where [clayout]:
  "cmpTltUnlockBySpRspSdata_t = Struct
     [(''rspHeader'', cmpResponseHeaderMap_t),
      (''soTltContLen'', U32),
      (''soTltCont'', mcSoTltCont_2_1_t)]"

definition cmpTltContUnlockBySpRsp_t :: "ctype" where [clayout]:
  "cmpTltContUnlockBySpRsp_t = Struct
     [(''sdata'', cmpTltUnlockBySpRspSdata_t),
      (''mac'', cmpMac_t)]"

definition cmpRspTltContUnlockBySp_t :: "ctype" where [clayout]:
  "cmpRspTltContUnlockBySp_t = Struct
     [(''rsp'', cmpTltContUnlockBySpRsp_t)]"

definition cmpMapTltContUnlockBySp_t :: "ctype" where [clayout]:
  "cmpMapTltContUnlockBySp_t = Union
     [(''cmpCmdTltContUnlockBySp'', cmpCmdTltContUnlockBySp_t),
      (''cmpRspTltContUnlockBySp'', cmpRspTltContUnlockBySp_t)]"

definition cmpTltContPersonalizeCmdEdata_t :: "ctype" where [clayout]:
  "cmpTltContPersonalizeCmdEdata_t = Struct
     [(''dataCont'', mcCoDataCont_t)]"

definition cmpTltContPersonalizeCmdEd_t :: "ctype" where [clayout]:
  "cmpTltContPersonalizeCmdEd_t = Struct
     [(''edata'', cmpTltContPersonalizeCmdEdata_t),
      (''padding'', Arr (CMP_ED_PADDING (csize cmpTltContPersonalizeCmdEdata_t)) U8)]"

definition cmpTltContPersonalizeCmdSdata_t :: "ctype" where [clayout]:
  "cmpTltContPersonalizeCmdSdata_t = Struct
     [(''cmdHeader'', cmpCommandHeaderMap_t),
      (''spid'', U32),
      (''uuid'', mcUuid_t),
      (''pid'', mcPid_t),
      (''edLen'', U32),
      (''ed'', cmpTltContPersonalizeCmdEd_t)]"

definition cmpTltContPersonalizeCmd_t :: "ctype" where [clayout]:
  "cmpTltContPersonalizeCmd_t = Struct
     [(''sdata'', cmpTltContPersonalizeCmdSdata_t),
      (''mac'', cmpMac_t)]"

definition cmpCmdTltContPersonalize_t :: "ctype" where [clayout]:
  "cmpCmdTltContPersonalize_t = Struct
     [(''cmd'', cmpTltContPersonalizeCmd_t)]"

definition cmpTltContPersonalizeRspSdata_t :: "ctype" where [clayout]:
  "cmpTltContPersonalizeRspSdata_t = Struct
     [(''rspHeader'', cmpResponseHeaderMap_t),
      (''soDataContLen'', U32),
      (''soDataCont'', mcSoDataCont_t)]"

definition cmpTltContPersonalizeRsp_t :: "ctype" where [clayout]:
  "cmpTltContPersonalizeRsp_t = Struct
     [(''sdata'', cmpTltContPersonalizeRspSdata_t),
      (''mac'', cmpMac_t)]"

definition cmpRspTltContPersonalize_t :: "ctype" where [clayout]:
  "cmpRspTltContPersonalize_t = Struct
     [(''rsp'', cmpTltContPersonalizeRsp_t)]"

definition cmpMapTltContPersonalize_t :: "ctype" where [clayout]:
  "cmpMapTltContPersonalize_t = Union
     [(''cmpCmdTltContPersonalize'', cmpCmdTltContPersonalize_t),
      (''cmpRspTltContPersonalize'', cmpRspTltContPersonalize_t)]"

section \<open>The TCI buffer (tlCmApi.h)\<close>

definition cmpMessage_t :: "nat \<Rightarrow> ctype" where [clayout]:
  "cmpMessage_t ps = Union
     [(''commandHeader'', cmpCommandHeaderTci_t ps),
      (''responseHeader'', cmpResponseHeaderTci_t),
      (''cmpCmdGetVersionTci'', cmpCmdGetVersionTci_t ps),
      (''cmpRspGetVersionTci'', cmpRspGetVersionTci_t),
      (''cmpCmdGetSuidTci'', cmpCmdGetSuidTci_t ps),
      (''cmpRspGetSuidTci'', cmpRspGetSuidTci_t),
      (''cmpCmdGenAuthTokenTci'', cmpCmdGenAuthTokenTci_t ps),
      (''cmpRspGenAuthTokenTci'', cmpRspGenAuthTokenTci_t),
      (''cmpCmdBeginSocAuthenticationTci'', cmpCmdBeginSocAuthenticationTci_t ps),
      (''cmpRspBeginSocAuthenticationTci'', cmpRspBeginSocAuthenticationTci_t),
      (''cmpCmdBeginRootAuthenticationTci'', cmpCmdBeginRootAuthenticationTci_t ps),
      (''cmpRspBeginRootAuthenticationTci'', cmpRspBeginRootAuthenticationTci_t),
      (''cmpCmdBeginSpAuthenticationTci'', cmpCmdBeginSpAuthenticationTci_t ps),
      (''cmpRspBeginSpAuthenticationTci'', cmpRspBeginSpAuthenticationTci_t),
      (''cmpCmdAuthenticateTci'', cmpCmdAuthenticateTci_t ps),
      (''cmpRspAuthenticateTci'', cmpRspAuthenticateTci_t),
      (''cmpCmdAuthenticateTerminateTci'', cmpCmdAuthenticateTerminateTci_t ps),
      (''cmpRspAuthenticateTerminateTci'', cmpRspAuthenticateTerminateTci_t),
      (''cmpCmdRootContRegisterActivateTci'', cmpCmdRootContRegisterActivateTci_t ps),
      (''cmpRspRootContRegisterActivateTci'', cmpRspRootContRegisterActivateTci_t),
      (''cmpCmdRootContUnregisterTci'', cmpCmdRootContUnregisterTci_t ps),
      (''cmpRspRootContUnregisterTci'', cmpRspRootContUnregisterTci_t),
      (''cmpCmdRootContLockByRootTci'', cmpCmdRootContLockByRootTci_t ps),
      (''cmpRspRootContLockByRootTci'', cmpRspRootContLockByRootTci_t),
      (''cmpCmdRootContUnlockByRootTci'', cmpCmdRootContUnlockByRootTci_t ps),
      (''cmpRspRootContUnlockByRootTci'', cmpRspRootContUnlockByRootTci_t),
      (''cmpCmdSpContRegisterActivateTci'', cmpCmdSpContRegisterActivateTci_t ps),
      (''cmpRspSpContRegisterActivateTci'', cmpRspSpContRegisterActivateTci_t),
      (''cmpCmdSpContUnregisterTci'', cmpCmdSpContUnregisterTci_t ps),
      (''cmpRspSpContUnregisterTci'', cmpRspSpContUnregisterTci_t),
      (''cmpCmdSpContRegisterTci'', cmpCmdSpContRegisterTci_t ps),
      (''cmpRspSpContRegisterTci'', cmpRspSpContRegisterTci_t),
      (''cmpCmdSpContLockByRootTci'', cmpCmdSpContLockByRootTci_t ps),
      (''cmpRspSpContLockByRootTci'', cmpRspSpContLockByRootTci_t),
      (''cmpCmdSpContUnlockByRootTci'', cmpCmdSpContUnlockByRootTci_t ps),
      (''cmpRspSpContUnlockByRootTci'', cmpRspSpContUnlockByRootTci_t),
      (''cmpCmdSpContActivateTci'', cmpCmdSpContActivateTci_t ps),
      (''cmpRspSpContActivateTci'', cmpRspSpContActivateTci_t),
      (''cmpCmdSpContLockBySpTci'', cmpCmdSpContLockBySpTci_t ps),
      (''cmpRspSpContLockBySpTci'', cmpRspSpContLockBySpTci_t),
      (''cmpCmdSpContUnlockBySpTci'', cmpCmdSpContUnlockBySpTci_t ps),
      (''cmpRspSpContUnlockBySpTci'', cmpRspSpContUnlockBySpTci_t),
      (''cmpCmdTltContRegisterActivateTci'', cmpCmdTltContRegisterActivateTci_t ps),
      (''cmpRspTltContRegisterActivateTci'', cmpRspTltContRegisterActivateTci_t),
      (''cmpCmdTltContUnregisterTci'', cmpCmdTltContUnregisterTci_t ps),
      (''cmpRspTltContUnregisterTci'', cmpRspTltContUnregisterTci_t),
      (''cmpCmdTltContRegisterTci'', cmpCmdTltContRegisterTci_t ps),
      (''cmpRspTltContRegisterTci'', cmpRspTltContRegisterTci_t),
      (''cmpCmdTltContActivateTci'', cmpCmdTltContActivateTci_t ps),
      (''cmpRspTltContActivateTci'', cmpRspTltContActivateTci_t),
      (''cmpCmdTltContLockBySpTci'', cmpCmdTltContLockBySpTci_t ps),
      (''cmpRspTltContLockBySpTci'', cmpRspTltContLockBySpTci_t),
      (''cmpCmdTltContUnlockBySpTci'', cmpCmdTltContUnlockBySpTci_t ps),
      (''cmpRspTltContUnlockBySpTci'', cmpRspTltContUnlockBySpTci_t),
      (''cmpCmdTltContPersonalizeTci'', cmpCmdTltContPersonalizeTci_t ps),
      (''cmpRspTltContPersonalizeTci'', cmpRspTltContPersonalizeTci_t)]"

definition cmp_t :: "nat \<Rightarrow> ctype" where [clayout]:
  "cmp_t ps = Struct
     [(''msg'', cmpMessage_t ps)]"

end
