(* ===== verification/RootpaEnv.thy ===== *)
theory RootpaEnv
  imports CmpTypes
begin

text \<open>
  The state and the environment of \<^verbatim>\<open>rootpa\<close>, and its registry wrappers (\<^verbatim>\<open>registry.c\<close>). The heap
  is explicit: a pointer is the number of a live block, 0 is NULL, and every access through a
  pointer is checked against the live blocks, an access outside them being recorded as a fault
  (where C has undefined behaviour). World shared memory is a block like any other. The driver
  library, the daemon's registry and the secure world are functions of the events so far, so
  that every behaviour of theirs is some \<open>rworld\<close>; the secure world writes the shared buffers
  while the code waits for its notification.
\<close>

section \<open>Calls, events, world and state\<close>

datatype drvcall =
    McOpenDevice
  | McMallocWsm u32
  | McFreeWsm nat
  | McOpenSession nat u32
  | McCloseSession
  | McCloseDevice
  | McNotify
  | McWaitNotification u32
  | McMap nat u32
  | McUnmap nat

datatype contref = AuthToken | RootCont | SpCont u32 | TltCont "u8 list" u32

datatype regcall = RegRead contref | RegStore contref "u8 list" | RegCleanup contref

text \<open>
  What \<^verbatim>\<open>libcurl\<close> does with a client during one transfer: it hands over a header line (followed in
  memory by the bytes up to the next zero byte), hands over a piece of the body, or asks for at most
  a number of bytes to send.
\<close>

datatype transfer = HeaderLine "u8 list" "u8 list" | BodyChunk "u8 list" | ReadRequest nat

datatype curlopt =
    CURLOPT_URL "u8 list"
  | CURLOPT_WRITEFUNCTION
  | CURLOPT_HEADERFUNCTION
  | CURLOPT_WRITEDATA
  | CURLOPT_WRITEHEADER
  | CURLOPT_HTTPHEADER
  | CURLOPT_USERAGENT
  | CURLOPT_NOPROGRESS
  | CURLOPT_CAINFO "u8 list"
  | CURLOPT_CAPATH "u8 list"
  | CURLOPT_TIMEOUT
  | CURLOPT_READFUNCTION
  | CURLOPT_UPLOAD
  | CURLOPT_PUT
  | CURLOPT_READDATA
  | CURLOPT_INFILESIZE nat
  | CURLOPT_POST
  | CURLOPT_POSTFIELDSIZE
  | CURLOPT_POSTFIELDS nat
  | CURLOPT_CUSTOMREQUEST

datatype netcall =
    CurlInit bool bool
  | CurlSetopt curlopt bool
  | CurlPerform u32
  | CurlSent "u8 list"
  | CurlReset
  | CurlCleanup

datatype revent =
    Alloc nat nat
  | AllocFailed nat
  | Freed nat
  | Drv drvcall u32
  | Reg regcall u32
  | Callback u32 u32
  | Net netcall

record mcBulkMap_t =
  sVirtualAddr :: u64
  sVirtualLen :: u32

record CMTSTRUCT =
  wsmP :: nat
  mappedP :: nat
  mappedSize :: u32
  mapInfo :: mcBulkMap_t
  cmt_session :: u32
  lasterror :: u32

record rworld =
  rw_ps :: nat
  rw_malloc :: "revent list \<Rightarrow> nat \<Rightarrow> u8 list option"
  rw_realloc :: "revent list \<Rightarrow> nat \<Rightarrow> nat \<Rightarrow> (bool \<times> u8 list) option"
  rw_drv :: "revent list \<Rightarrow> drvcall \<Rightarrow> u32"
  rw_session :: "revent list \<Rightarrow> u32"
  rw_map :: "revent list \<Rightarrow> mcBulkMap_t"
  rw_reg :: "revent list \<Rightarrow> regcall \<Rightarrow> u32"
  rw_regdata :: "revent list \<Rightarrow> contref \<Rightarrow> u8 list \<times> u32"
  rw_swd :: "revent list \<Rightarrow> u8 list \<Rightarrow> u8 list \<Rightarrow> u8 list \<times> u8 list"
  rw_curl_init :: "revent list \<Rightarrow> bool \<times> bool"
  rw_setopt :: "revent list \<Rightarrow> curlopt \<Rightarrow> bool"
  rw_perform :: "revent list \<Rightarrow> transfer list \<times> u32"
  rw_http_code :: "revent list \<Rightarrow> int"
  rw_timediff :: "revent list \<Rightarrow> int"

record rstate =
  r_ev :: "revent list"
  r_heap :: "(nat \<times> u8 list) list"
  r_next :: nat
  r_faults :: "(nat \<times> nat \<times> nat) list"
  r_cmt :: CMTSTRUCT
  r_mapped :: nat
  g_handle :: nat
  g_spid :: u32
  g_tltUuid :: "u8 list"
  g_callbackP :: bool
  g_curl_handle :: bool
  g_certificatePath :: "u8 list"
  g_certificateFilePath :: "u8 list"
  g_initialUrl :: "u8 list"
  g_engineCallbackP :: bool

abbreviation (input) r_note :: "revent \<Rightarrow> rstate \<Rightarrow> rstate" where
  "r_note e s \<equiv> s\<lparr>r_ev := e # r_ev s\<rparr>"

section \<open>The heap\<close>

definition fit :: "nat \<Rightarrow> u8 list \<Rightarrow> u8 list" where
  "fit n bs = take n (bs @ replicate n 0)"

definition splice_at :: "nat \<Rightarrow> u8 list \<Rightarrow> u8 list \<Rightarrow> u8 list" where
  "splice_at off bs b = take off b @ take (length b - off) bs @ drop (off + length bs) b"

definition hblock :: "rstate \<Rightarrow> nat \<Rightarrow> u8 list" where
  "hblock s p = (case map_of (r_heap s) p of Some b \<Rightarrow> b | None \<Rightarrow> [])"

definition live :: "rstate \<Rightarrow> nat \<Rightarrow> bool" where
  "live s p = (p \<in> fst ` set (r_heap s))"

definition in_block :: "rstate \<Rightarrow> nat \<Rightarrow> nat \<Rightarrow> nat \<Rightarrow> bool" where
  "in_block s p off n = (n = 0 \<or> live s p \<and> off + n \<le> length (hblock s p))"

definition touch :: "nat \<Rightarrow> nat \<Rightarrow> nat \<Rightarrow> rstate \<Rightarrow> rstate" where
  "touch p off n s = (if in_block s p off n then s else s\<lparr>r_faults := (p, off, n) # r_faults s\<rparr>)"

definition peek :: "rstate \<Rightarrow> nat \<Rightarrow> nat \<Rightarrow> nat \<Rightarrow> u8 list" where
  "peek s p off n = map (\<lambda>i. byte_at (hblock s p) (off + i)) [0..<n]"

definition peek32 :: "rstate \<Rightarrow> nat \<Rightarrow> nat \<Rightarrow> u32" where
  "peek32 s p off = le32 (hblock s p) off"

definition set_block :: "nat \<Rightarrow> (u8 list \<Rightarrow> u8 list) \<Rightarrow> rstate \<Rightarrow> rstate" where
  "set_block p f s = s\<lparr>r_heap := update_at fst p (\<lambda>(q, b). (q, f b)) (r_heap s)\<rparr>"

definition poke :: "nat \<Rightarrow> nat \<Rightarrow> u8 list \<Rightarrow> rstate \<Rightarrow> rstate" where
  "poke p off bs s = set_block p (splice_at off bs) (touch p off (length bs) s)"

definition new_block :: "u8 list \<Rightarrow> rstate \<Rightarrow> rstate" where
  "new_block b s = s\<lparr>r_heap := (r_next s, b) # r_heap s, r_next := r_next s + 1\<rparr>"

definition drop_block :: "nat \<Rightarrow> rstate \<Rightarrow> rstate" where
  "drop_block p s = s\<lparr>r_heap := erase_at fst p (r_heap s)\<rparr>"

definition malloc :: "rworld \<Rightarrow> nat \<Rightarrow> rstate \<Rightarrow> nat \<times> rstate" where
  "malloc W n s =
     (case rw_malloc W (r_ev s) n of
        None \<Rightarrow> (0, r_note (AllocFailed n) s)
      | Some bs \<Rightarrow> (r_next s, new_block (fit n bs) (r_note (Alloc (r_next s) n) s)))"

definition free_ptr :: "nat \<Rightarrow> rstate \<Rightarrow> rstate" where
  "free_ptr p s =
     (if p = 0 then s
      else if live s p then drop_block p (r_note (Freed p) s)
      else s\<lparr>r_faults := (p, 0, 0) # r_faults s\<rparr>)"

definition realloc :: "rworld \<Rightarrow> nat \<Rightarrow> nat \<Rightarrow> rstate \<Rightarrow> nat \<times> rstate" where
  "realloc W p n s =
     (case rw_realloc W (r_ev s) p n of
        None \<Rightarrow> (0, r_note (AllocFailed n) s)
      | Some (moved, bs) \<Rightarrow>
          if moved \<or> \<not> live s p then
            (r_next s, free_ptr p (new_block (fit n (hblock s p @ bs)) (r_note (Alloc (r_next s) n) s)))
          else (p, set_block p (\<lambda>b. fit n (b @ bs)) s))"

section \<open>Driver calls\<close>

definition drv :: "rworld \<Rightarrow> drvcall \<Rightarrow> rstate \<Rightarrow> u32 \<times> rstate" where
  "drv W c s = (let r = rw_drv W (r_ev s) c in (r, r_note (Drv c r) s))"

section \<open>The registry wrappers (registry.c)\<close>

abbreviation (input) CONTAINER_BUFFER_SIZE :: nat where "CONTAINER_BUFFER_SIZE \<equiv> 4096"

text \<open>
  Reading a container: the buffer comes from \<open>malloc\<close> and stays with the caller, also when the
  registry reports an error; the size is the one the registry leaves.
\<close>

definition regRead :: "rworld \<Rightarrow> contref \<Rightarrow> rstate \<Rightarrow> u32 \<times> nat \<times> u32 \<times> rstate" where
  "regRead W c s =
     (let (p, s) = malloc W CONTAINER_BUFFER_SIZE s in
      if p = 0 then (MC_DRV_ERR_NO_FREE_MEMORY, 0, of_nat CONTAINER_BUFFER_SIZE, s)
      else let r = rw_reg W (r_ev s) (RegRead c);
               (bs, size) = rw_regdata W (r_ev s) c;
               s = r_note (Reg (RegRead c) r) s;
               s = set_block p (splice_at 0 (take CONTAINER_BUFFER_SIZE bs)) s
           in (r, p, size, s))"

definition regWrite :: "rworld \<Rightarrow> contref \<Rightarrow> nat \<Rightarrow> nat \<Rightarrow> u32 \<Rightarrow> rstate \<Rightarrow> u32 \<times> rstate" where
  "regWrite W c p off n s =
     (let s = touch p off (unat n) s;
          call = RegStore c (peek s p off (unat n));
          r = rw_reg W (r_ev s) call
      in (r, r_note (Reg call r) s))"

definition regCleanup :: "rworld \<Rightarrow> contref \<Rightarrow> rstate \<Rightarrow> u32 \<times> rstate" where
  "regCleanup W c s = (let r = rw_reg W (r_ev s) (RegCleanup c) in (r, r_note (Reg (RegCleanup c) r) s))"

definition regReadAuthToken :: "rworld \<Rightarrow> rstate \<Rightarrow> u32 \<times> nat \<times> u32 \<times> rstate" where
  "regReadAuthToken W s = regRead W AuthToken s"

definition regWriteAuthToken :: "rworld \<Rightarrow> nat \<Rightarrow> nat \<Rightarrow> u32 \<Rightarrow> rstate \<Rightarrow> u32 \<times> rstate" where
  "regWriteAuthToken W p off n s = regWrite W AuthToken p off n s"

definition regDeleteAuthToken :: "rworld \<Rightarrow> rstate \<Rightarrow> u32 \<times> rstate" where
  "regDeleteAuthToken W s = regCleanup W AuthToken s"

definition regReadRoot :: "rworld \<Rightarrow> rstate \<Rightarrow> u32 \<times> nat \<times> u32 \<times> rstate" where
  "regReadRoot W s = regRead W RootCont s"

definition regWriteRoot :: "rworld \<Rightarrow> nat \<Rightarrow> nat \<Rightarrow> u32 \<Rightarrow> rstate \<Rightarrow> u32 \<times> rstate" where
  "regWriteRoot W p off n s = regWrite W RootCont p off n s"

definition regCleanupRoot :: "rworld \<Rightarrow> rstate \<Rightarrow> u32 \<times> rstate" where
  "regCleanupRoot W s = regCleanup W RootCont s"

definition regReadSp :: "rworld \<Rightarrow> u32 \<Rightarrow> rstate \<Rightarrow> u32 \<times> nat \<times> u32 \<times> rstate" where
  "regReadSp W spid s = regRead W (SpCont spid) s"

definition regWriteSp :: "rworld \<Rightarrow> u32 \<Rightarrow> nat \<Rightarrow> nat \<Rightarrow> u32 \<Rightarrow> rstate \<Rightarrow> u32 \<times> rstate" where
  "regWriteSp W spid p off n s = regWrite W (SpCont spid) p off n s"

definition regCleanupSp :: "rworld \<Rightarrow> u32 \<Rightarrow> rstate \<Rightarrow> u32 \<times> rstate" where
  "regCleanupSp W spid s = regCleanup W (SpCont spid) s"

text \<open>\<open>regGetSpState\<close> reads the state word out of the container and frees the buffer.\<close>

definition regGetSpState :: "rworld \<Rightarrow> u32 \<Rightarrow> u32 \<Rightarrow> rstate \<Rightarrow> u32 \<times> u32 \<times> rstate" where
  "regGetSpState W spid st s =
     (let (ret, p, size, s) = regReadSp W spid s;
          off = offsetof mcSoSpCont_t [''cont'', ''attribs'', ''state''];
          (st, s) = (if ret = MC_DRV_OK then (peek32 s p off, touch p off 4 s) else (st, s))
      in (ret, st, free_ptr p s))"

definition regReadTlt :: "rworld \<Rightarrow> u8 list \<Rightarrow> u32 \<Rightarrow> rstate \<Rightarrow> u32 \<times> nat \<times> u32 \<times> rstate" where
  "regReadTlt W uuid spid s = regRead W (TltCont uuid spid) s"

definition regWriteTlt :: "rworld \<Rightarrow> u8 list \<Rightarrow> nat \<Rightarrow> nat \<Rightarrow> u32 \<Rightarrow> u32 \<Rightarrow> rstate \<Rightarrow> u32 \<times> rstate" where
  "regWriteTlt W uuid p off n spid s = regWrite W (TltCont uuid spid) p off n s"

definition regCleanupTlt :: "rworld \<Rightarrow> u8 list \<Rightarrow> u32 \<Rightarrow> rstate \<Rightarrow> u32 \<times> rstate" where
  "regCleanupTlt W uuid spid s = regCleanup W (TltCont uuid spid) s"

lemmas reg_wrappers =
  regReadAuthToken_def regWriteAuthToken_def regDeleteAuthToken_def regReadRoot_def
  regWriteRoot_def regCleanupRoot_def regReadSp_def regWriteSp_def regCleanupSp_def
  regReadTlt_def regWriteTlt_def regCleanupTlt_def

section \<open>Sample environments\<close>

text \<open>
  An environment in which every call succeeds, the registry holds four-byte containers and the
  secure world answers nothing, and the state before any call; the witnesses start from them.
\<close>

definition calm_world :: rworld where
  "calm_world = \<lparr>rw_ps = 4,
     rw_malloc = (\<lambda>ev n. Some []),
     rw_realloc = (\<lambda>ev p n. Some (True, [])),
     rw_drv = (\<lambda>ev c. 0),
     rw_session = (\<lambda>ev. 7),
     rw_map = (\<lambda>ev. \<lparr>sVirtualAddr = 0x100000, sVirtualLen = 4096\<rparr>),
     rw_reg = (\<lambda>ev c. 0),
     rw_regdata = (\<lambda>ev c. ([1, 2, 3, 4], 4)),
     rw_swd = (\<lambda>ev w m. (w, m)),
     rw_curl_init = (\<lambda>ev. (True, True)),
     rw_setopt = (\<lambda>ev opt. True),
     rw_perform = (\<lambda>ev. ([], 0)),
     rw_http_code = (\<lambda>ev. 200),
     rw_timediff = (\<lambda>ev. 0)\<rparr>"

definition no_session_world :: rworld where
  "no_session_world = calm_world\<lparr>rw_drv := (\<lambda>ev c. case c of McOpenSession p n \<Rightarrow> 6 | _ \<Rightarrow> 0)\<rparr>"

definition rstart :: rstate where
  "rstart = \<lparr>r_ev = [], r_heap = [], r_next = 1, r_faults = [],
     r_cmt = \<lparr>wsmP = 0, mappedP = 0, mappedSize = 0, mapInfo = \<lparr>sVirtualAddr = 0, sVirtualLen = 0\<rparr>,
              cmt_session = 0, lasterror = 0\<rparr>,
     r_mapped = 0, g_handle = 0, g_spid = 0, g_tltUuid = [], g_callbackP = False,
     g_curl_handle = False, g_certificatePath = [], g_certificateFilePath = [], g_initialUrl = [], g_engineCallbackP = False\<rparr>"

section \<open>The heap stays well formed\<close>

text \<open>
  \<open>blocks\<close> are the live pointers. In a well-formed heap no block is listed twice, and every live
  pointer is older than the next one \<open>malloc\<close> hands out.
\<close>

definition blocks :: "rstate \<Rightarrow> nat set" where
  "blocks s = fst ` set (r_heap s)"

definition heap_ok :: "rstate \<Rightarrow> bool" where
  "heap_ok s = (distinct (map fst (r_heap s)) \<and> (\<forall>p\<in>blocks s. 0 < p \<and> p < r_next s) \<and> 0 < r_next s)"

lemma live_iff [simp]: "live s p \<longleftrightarrow> p \<in> blocks s"
  by (simp add: live_def blocks_def)

lemma fst_update_block:
  "fst ` set (update_at fst p (\<lambda>(q, b). (q, f b)) h) = fst ` set h"
  "map fst (update_at fst p (\<lambda>(q, b). (q, f b)) h) = map fst h"
  by (induction h) auto

lemma map_of_update_block:
  "map_of (update_at fst p (\<lambda>(q, b). (q, f b)) h) r = (if r = p then map_option f (map_of h r) else map_of h r)"
  by (induction h) auto

lemma map_of_erase_at: "map_of (erase_at fst p h) r = (if r = p then None else map_of h r)"
  by (induction h) auto

lemma map_of_block: "(map_of h p = None) = (p \<notin> fst ` set h)"
  by (rule map_of_eq_None_iff)

lemma length_fit [simp]: "length (fit n bs) = n"
  by (simp add: fit_def)

lemma length_splice_at [simp]: "length (splice_at off bs b) = length b"
  by (simp add: splice_at_def)

text \<open>What an update of a block leaves alone.\<close>

lemma set_block_simps [simp]:
  "blocks (set_block p f s) = blocks s"
  "heap_ok (set_block p f s) = heap_ok s"
  "r_next (set_block p f s) = r_next s"
  "r_ev (set_block p f s) = r_ev s"
  "r_cmt (set_block p f s) = r_cmt s"
  "r_faults (set_block p f s) = r_faults s"
  "r_mapped (set_block p f s) = r_mapped s"
  "g_handle (set_block p f s) = g_handle s"
  "g_spid (set_block p f s) = g_spid s"
  "g_tltUuid (set_block p f s) = g_tltUuid s"
  "g_callbackP (set_block p f s) = g_callbackP s"
  by (simp_all add: set_block_def blocks_def heap_ok_def fst_update_block)

lemma hblock_set_block:
  "hblock (set_block p f s) q = (if q = p \<and> p \<in> blocks s then f (hblock s p) else hblock s q)"
proof (cases "map_of (r_heap s) p")
  case None
  then have "p \<notin> blocks s" by (simp add: blocks_def map_of_block)
  with None show ?thesis by (simp add: hblock_def set_block_def map_of_update_block)
next
  case (Some b)
  then have "p \<in> blocks s" by (metis blocks_def map_of_block option.distinct(1))
  with Some show ?thesis by (simp add: hblock_def set_block_def map_of_update_block)
qed

lemma touch_simps [simp]:
  "blocks (touch p off n s) = blocks s"
  "heap_ok (touch p off n s) = heap_ok s"
  "r_next (touch p off n s) = r_next s"
  "r_ev (touch p off n s) = r_ev s"
  "r_cmt (touch p off n s) = r_cmt s"
  "r_mapped (touch p off n s) = r_mapped s"
  "g_handle (touch p off n s) = g_handle s"
  "g_spid (touch p off n s) = g_spid s"
  "g_tltUuid (touch p off n s) = g_tltUuid s"
  "g_callbackP (touch p off n s) = g_callbackP s"
  "hblock (touch p off n s) q = hblock s q"
  "peek (touch p off n s) q o1 n1 = peek s q o1 n1"
  "peek32 (touch p off n s) q o1 = peek32 s q o1"
  by (simp_all add: touch_def blocks_def heap_ok_def hblock_def peek_def peek32_def)

lemma poke_simps [simp]:
  "blocks (poke p off bs s) = blocks s"
  "heap_ok (poke p off bs s) = heap_ok s"
  "r_next (poke p off bs s) = r_next s"
  "r_ev (poke p off bs s) = r_ev s"
  "r_cmt (poke p off bs s) = r_cmt s"
  "r_mapped (poke p off bs s) = r_mapped s"
  "g_handle (poke p off bs s) = g_handle s"
  "g_spid (poke p off bs s) = g_spid s"
  "g_tltUuid (poke p off bs s) = g_tltUuid s"
  "g_callbackP (poke p off bs s) = g_callbackP s"
  "length (hblock (poke p off bs s) q) = length (hblock s q)"
  by (simp_all add: poke_def hblock_set_block)

lemma heap_ok_cong [simp]:
  "heap_ok (s\<lparr>r_ev := e\<rparr>) = heap_ok s"
  "heap_ok (s\<lparr>r_cmt := c\<rparr>) = heap_ok s"
  "heap_ok (s\<lparr>r_faults := f\<rparr>) = heap_ok s"
  "heap_ok (s\<lparr>r_mapped := m\<rparr>) = heap_ok s"
  "heap_ok (s\<lparr>g_handle := h\<rparr>) = heap_ok s"
  "heap_ok (s\<lparr>g_spid := i\<rparr>) = heap_ok s"
  "heap_ok (s\<lparr>g_tltUuid := u\<rparr>) = heap_ok s"
  "blocks (s\<lparr>r_ev := e\<rparr>) = blocks s"
  "blocks (s\<lparr>r_cmt := c\<rparr>) = blocks s"
  "blocks (s\<lparr>r_faults := f\<rparr>) = blocks s"
  "blocks (s\<lparr>r_mapped := m\<rparr>) = blocks s"
  "blocks (s\<lparr>g_handle := h\<rparr>) = blocks s"
  "blocks (s\<lparr>g_spid := i\<rparr>) = blocks s"
  "blocks (s\<lparr>g_tltUuid := u\<rparr>) = blocks s"
  "hblock (s\<lparr>r_ev := e\<rparr>) p = hblock s p"
  "hblock (s\<lparr>r_cmt := c\<rparr>) p = hblock s p"
  "hblock (s\<lparr>r_faults := f\<rparr>) p = hblock s p"
  "hblock (s\<lparr>r_mapped := m\<rparr>) p = hblock s p"
  "hblock (s\<lparr>g_handle := h\<rparr>) p = hblock s p"
  "hblock (s\<lparr>g_spid := i\<rparr>) p = hblock s p"
  "hblock (s\<lparr>g_tltUuid := u\<rparr>) p = hblock s p"
  by (simp_all add: heap_ok_def blocks_def hblock_def)

lemma heap_ok_fresh:
  assumes "heap_ok s"
  shows "r_next s \<notin> blocks s" "0 \<notin> blocks s" "0 < r_next s"
  using assms by (auto simp: heap_ok_def)

lemma new_block_simps [simp]:
  "blocks (new_block b s) = insert (r_next s) (blocks s)"
  "hblock (new_block b s) q = (if q = r_next s then b else hblock s q)"
  "r_next (new_block b s) = r_next s + 1"
  "r_ev (new_block b s) = r_ev s"
  "r_cmt (new_block b s) = r_cmt s"
  "r_faults (new_block b s) = r_faults s"
  "r_mapped (new_block b s) = r_mapped s"
  "g_handle (new_block b s) = g_handle s"
  "g_spid (new_block b s) = g_spid s"
  "g_tltUuid (new_block b s) = g_tltUuid s"
  "heap_ok s \<Longrightarrow> heap_ok (new_block b s)"
  by (auto simp: new_block_def blocks_def hblock_def heap_ok_def)

lemma drop_block_simps [simp]:
  "blocks (drop_block p s) = blocks s - {p}"
  "hblock (drop_block p s) q = (if q = p then [] else hblock s q)"
  "r_next (drop_block p s) = r_next s"
  "r_ev (drop_block p s) = r_ev s"
  "r_cmt (drop_block p s) = r_cmt s"
  "r_faults (drop_block p s) = r_faults s"
  "r_mapped (drop_block p s) = r_mapped s"
  "g_handle (drop_block p s) = g_handle s"
  "g_spid (drop_block p s) = g_spid s"
  "g_tltUuid (drop_block p s) = g_tltUuid s"
  "heap_ok s \<Longrightarrow> heap_ok (drop_block p s)"
  by (auto simp: drop_block_def blocks_def hblock_def heap_ok_def map_of_erase_at distinct_map_erase_at)

lemma free_ptr_simps [simp]:
  "hblock (free_ptr p s) q = (if q = p \<and> p \<noteq> 0 \<and> p \<in> blocks s then [] else hblock s q)"
  "r_next (free_ptr p s) = r_next s"
  "r_cmt (free_ptr p s) = r_cmt s"
  "r_mapped (free_ptr p s) = r_mapped s"
  "g_handle (free_ptr p s) = g_handle s"
  "g_spid (free_ptr p s) = g_spid s"
  "g_tltUuid (free_ptr p s) = g_tltUuid s"
  "heap_ok s \<Longrightarrow> heap_ok (free_ptr p s)"
  "heap_ok s \<Longrightarrow> blocks (free_ptr p s) = blocks s - {p}"
  "p = 0 \<or> p \<in> blocks s \<Longrightarrow> r_faults (free_ptr p s) = r_faults s"
  using heap_ok_fresh(2) [of s] by (auto simp: free_ptr_def)

text \<open>The outcomes of \<open>malloc\<close> and \<open>realloc\<close>.\<close>

lemma malloc_cases:
  assumes "malloc W n s = (p, s')"
  obtains "p = 0" "s' = r_note (AllocFailed n) s"
  | bs where "p = r_next s" "s' = new_block (fit n bs) (r_note (Alloc (r_next s) n) s)"
  using assms by (auto simp: malloc_def split: option.splits)

lemma realloc_cases:
  assumes "realloc W p n s = (q, s')"
  obtains "q = 0" "s' = r_note (AllocFailed n) s"
  | bs where "q = r_next s"
      "s' = free_ptr p (new_block (fit n (hblock s p @ bs)) (r_note (Alloc (r_next s) n) s))"
  | bs where "q = p" "s' = set_block p (\<lambda>b. fit n (b @ bs)) s"
  using assms by (auto simp: realloc_def split: option.splits if_splits)

lemma realloc_frame:
  assumes "realloc W p n s = (q, s')"
  shows "r_cmt s' = r_cmt s" "g_handle s' = g_handle s" "r_mapped s' = r_mapped s"
    "g_spid s' = g_spid s" "g_tltUuid s' = g_tltUuid s" "r_next s \<le> r_next s'"
  by (cases rule: realloc_cases [OF assms]; simp)+

lemma realloc_failed:
  assumes "realloc W p n s = (0, s')" "heap_ok s" "p \<in> blocks s"
  shows "s' = r_note (AllocFailed n) s"
  using assms heap_ok_fresh [OF assms(2)] by (cases rule: realloc_cases [OF assms(1)]; simp)

lemma realloc_ok:
  assumes "realloc W p n s = (q, s')" "q \<noteq> 0" "heap_ok s" "p \<in> blocks s"
  shows "heap_ok s'" "q \<in> blocks s'" "blocks s' - {q} = blocks s - {p}" "length (hblock s' q) = n"
    "r_faults s' = r_faults s"
proof -
  note fresh = heap_ok_fresh [OF assms(3)]
  show "heap_ok s'" "q \<in> blocks s'" "length (hblock s' q) = n" "r_faults s' = r_faults s"
    using assms(2-4) fresh by (cases rule: realloc_cases [OF assms(1)]; simp add: hblock_set_block; blast?)+
  show "blocks s' - {q} = blocks s - {p}"
    using assms(2-4) fresh by (cases rule: realloc_cases [OF assms(1)]; simp; blast)
qed

lemma realloc_other:
  assumes "realloc W p n s = (q, s')" "heap_ok s" "p \<in> blocks s" "r \<in> blocks s" "r \<noteq> p"
  shows "hblock s' r = hblock s r"
  using assms(2-) heap_ok_fresh [OF assms(2)]
  by (cases rule: realloc_cases [OF assms(1)]; auto simp: hblock_set_block)

lemma drv_eq [simp]: "drv W c s = (rw_drv W (r_ev s) c, r_note (Drv c (rw_drv W (r_ev s) c)) s)"
  by (simp add: drv_def Let_def)

end
