(* ===== verification/Pacmtl.thy ===== *)
theory Pacmtl
  imports RootpaEnv
begin

text \<open>
  The message headers of the content management protocol (\<^verbatim>\<open>pacmtl.c\<close>): writing the command
  header into the TCI buffer, reading the elements of a response out of it, and the table of
  message sizes that dimensions the buffer shared with the secure world. A function that updates
  its arguments through pointers returns the updated values; a field of a message is read and
  written at the offset its structure type gives it.
\<close>

section \<open>Constants\<close>

abbreviation (input) CMP_VERSION :: u32 where "CMP_VERSION \<equiv> 0x00030000"
abbreviation (input) RSP_ID_MASK :: u32 where "RSP_ID_MASK \<equiv> 0x80000000"

definition RSP_ID :: "u32 \<Rightarrow> u32" where
  "RSP_ID cmdId = cmdId OR RSP_ID_MASK"

definition IS_RSP :: "u32 \<Rightarrow> bool" where
  "IS_RSP cmdId = (cmdId AND RSP_ID_MASK = RSP_ID_MASK)"

abbreviation (input) ILLEGAL_ELEMENT :: u32 where "ILLEGAL_ELEMENT \<equiv> 0"
abbreviation (input) FIRST_ELEMENT :: u32 where "FIRST_ELEMENT \<equiv> 1"
abbreviation (input) FIRST_ELEMENT_OFFSET :: u32 where "FIRST_ELEMENT_OFFSET \<equiv> 0"

abbreviation (input) MC_CMP_CMD_AUTHENTICATE :: u32 where "MC_CMP_CMD_AUTHENTICATE \<equiv> 0"
abbreviation (input) MC_CMP_CMD_BEGIN_ROOT_AUTHENTICATION :: u32 where "MC_CMP_CMD_BEGIN_ROOT_AUTHENTICATION \<equiv> 1"
abbreviation (input) MC_CMP_CMD_BEGIN_SOC_AUTHENTICATION :: u32 where "MC_CMP_CMD_BEGIN_SOC_AUTHENTICATION \<equiv> 2"
abbreviation (input) MC_CMP_CMD_BEGIN_SP_AUTHENTICATION :: u32 where "MC_CMP_CMD_BEGIN_SP_AUTHENTICATION \<equiv> 3"
abbreviation (input) MC_CMP_CMD_GENERATE_AUTH_TOKEN :: u32 where "MC_CMP_CMD_GENERATE_AUTH_TOKEN \<equiv> 4"
abbreviation (input) MC_CMP_CMD_GET_VERSION :: u32 where "MC_CMP_CMD_GET_VERSION \<equiv> 5"
abbreviation (input) MC_CMP_CMD_ROOT_CONT_LOCK_BY_ROOT :: u32 where "MC_CMP_CMD_ROOT_CONT_LOCK_BY_ROOT \<equiv> 7"
abbreviation (input) MC_CMP_CMD_ROOT_CONT_REGISTER_ACTIVATE :: u32 where "MC_CMP_CMD_ROOT_CONT_REGISTER_ACTIVATE \<equiv> 9"
abbreviation (input) MC_CMP_CMD_ROOT_CONT_UNLOCK_BY_ROOT :: u32 where "MC_CMP_CMD_ROOT_CONT_UNLOCK_BY_ROOT \<equiv> 10"
abbreviation (input) MC_CMP_CMD_ROOT_CONT_UNREGISTER :: u32 where "MC_CMP_CMD_ROOT_CONT_UNREGISTER \<equiv> 11"
abbreviation (input) MC_CMP_CMD_SP_CONT_ACTIVATE :: u32 where "MC_CMP_CMD_SP_CONT_ACTIVATE \<equiv> 12"
abbreviation (input) MC_CMP_CMD_SP_CONT_LOCK_BY_ROOT :: u32 where "MC_CMP_CMD_SP_CONT_LOCK_BY_ROOT \<equiv> 13"
abbreviation (input) MC_CMP_CMD_SP_CONT_LOCK_BY_SP :: u32 where "MC_CMP_CMD_SP_CONT_LOCK_BY_SP \<equiv> 14"
abbreviation (input) MC_CMP_CMD_SP_CONT_REGISTER :: u32 where "MC_CMP_CMD_SP_CONT_REGISTER \<equiv> 15"
abbreviation (input) MC_CMP_CMD_SP_CONT_REGISTER_ACTIVATE :: u32 where "MC_CMP_CMD_SP_CONT_REGISTER_ACTIVATE \<equiv> 16"
abbreviation (input) MC_CMP_CMD_SP_CONT_UNLOCK_BY_ROOT :: u32 where "MC_CMP_CMD_SP_CONT_UNLOCK_BY_ROOT \<equiv> 17"
abbreviation (input) MC_CMP_CMD_SP_CONT_UNLOCK_BY_SP :: u32 where "MC_CMP_CMD_SP_CONT_UNLOCK_BY_SP \<equiv> 18"
abbreviation (input) MC_CMP_CMD_SP_CONT_UNREGISTER :: u32 where "MC_CMP_CMD_SP_CONT_UNREGISTER \<equiv> 19"
abbreviation (input) MC_CMP_CMD_TLT_CONT_ACTIVATE :: u32 where "MC_CMP_CMD_TLT_CONT_ACTIVATE \<equiv> 20"
abbreviation (input) MC_CMP_CMD_TLT_CONT_LOCK_BY_SP :: u32 where "MC_CMP_CMD_TLT_CONT_LOCK_BY_SP \<equiv> 21"
abbreviation (input) MC_CMP_CMD_TLT_CONT_PERSONALIZE :: u32 where "MC_CMP_CMD_TLT_CONT_PERSONALIZE \<equiv> 22"
abbreviation (input) MC_CMP_CMD_TLT_CONT_REGISTER :: u32 where "MC_CMP_CMD_TLT_CONT_REGISTER \<equiv> 23"
abbreviation (input) MC_CMP_CMD_TLT_CONT_REGISTER_ACTIVATE :: u32 where "MC_CMP_CMD_TLT_CONT_REGISTER_ACTIVATE \<equiv> 24"
abbreviation (input) MC_CMP_CMD_TLT_CONT_UNLOCK_BY_SP :: u32 where "MC_CMP_CMD_TLT_CONT_UNLOCK_BY_SP \<equiv> 25"
abbreviation (input) MC_CMP_CMD_TLT_CONT_UNREGISTER :: u32 where "MC_CMP_CMD_TLT_CONT_UNREGISTER \<equiv> 26"
abbreviation (input) MC_CMP_CMD_GET_SUID :: u32 where "MC_CMP_CMD_GET_SUID \<equiv> 27"
abbreviation (input) MC_CMP_CMD_AUTHENTICATE_TERMINATE :: u32 where "MC_CMP_CMD_AUTHENTICATE_TERMINATE \<equiv> 28"

section \<open>Messages\<close>

record CmpMessage =
  cm_length :: u32
  contentP :: nat
  ignoreError :: bool
  hdr_ret :: u32
  intRet :: u32
  hdr_id :: u32

definition getCmpCommandId :: "rstate \<Rightarrow> nat \<Rightarrow> u32" where
  "getCmpCommandId s commandP =
     (if commandP = 0 then 0xFFFFFFFF
      else peek32 s commandP (offsetof cmpCommandHeaderMap_t [''commandId'']))"

section \<open>Writing the command header\<close>

definition setCmdElementInfo ::
    "rworld \<Rightarrow> u32 \<Rightarrow> nat \<Rightarrow> u32 \<Rightarrow> u32 \<Rightarrow> rstate \<Rightarrow> u32 \<times> u32 \<times> rstate" where
  "setCmdElementInfo W elementNbr wsm elementOffset elementLength s =
     (if wsm = 0 then (elementNbr, elementOffset, s)
      else if elementNbr = ILLEGAL_ELEMENT \<or> (elementNbr = FIRST_ELEMENT \<and> elementOffset \<noteq> FIRST_ELEMENT_OFFSET)
      then (elementNbr, elementOffset, s)
      else
        let elementP = offsetof (cmpCommandHeaderTci_t (rw_ps W)) [''cmpCmdMapOffsetInfo'']
              + unat (elementNbr - 1) * csize cmpMapOffsetInfo_t;
            s = poke wsm (elementP + offsetof cmpMapOffsetInfo_t [''offset'']) (le_bytes 4 (ucast elementOffset)) s;
            s = poke wsm (elementP + offsetof cmpMapOffsetInfo_t [''len'']) (le_bytes 4 (ucast elementLength)) s
        in (elementNbr + 1, elementOffset + elementLength, s))"

definition setCmdMapInfo :: "rworld \<Rightarrow> nat \<Rightarrow> mcBulkMap_t \<Rightarrow> rstate \<Rightarrow> rstate" where
  "setCmdMapInfo W wsm m s =
     (let T = cmpCommandHeaderTci_t (rw_ps W);
          s = poke wsm (offsetof T [''mapInfo'', ''addr'']) (le_bytes (rw_ps W) (sVirtualAddr m)) s
      in poke wsm (offsetof T [''mapInfo'', ''len'']) (le_bytes 4 (ucast (sVirtualLen m))) s)"

definition setCmdCmpVersionAndCmdId :: "rworld \<Rightarrow> nat \<Rightarrow> u32 \<Rightarrow> rstate \<Rightarrow> rstate" where
  "setCmdCmpVersionAndCmdId W wsm commandId s =
     (let T = cmpCommandHeaderTci_t (rw_ps W);
          s = poke wsm (offsetof T [''version'']) (le_bytes 4 (ucast CMP_VERSION)) s
      in poke wsm (offsetof T [''commandId'']) (le_bytes 4 (ucast commandId)) s)"

section \<open>Reading the response\<close>

text \<open>
  \<open>getRspElementInfo\<close> returns success, the next element's number, the offset and the length. The
  bound it checks is computed in 32 bits. The callers ask for at most three elements, which all
  lie in the TCI buffer (\<open>rsp_elements_in_tci\<close> below).
\<close>

definition getRspElementInfo :: "u32 \<Rightarrow> nat \<Rightarrow> u32 \<Rightarrow> u32 \<Rightarrow> rstate \<Rightarrow> bool \<times> u32 \<times> u32 \<times> u32" where
  "getRspElementInfo elementNbr handle elementOffset elementLength s =
     (if handle = 0 then (False, elementNbr, elementOffset, 0)
      else let wsm = wsmP (r_cmt s) in
        if wsm = 0 then (False, elementNbr, elementOffset, elementLength)
        else if elementNbr = ILLEGAL_ELEMENT then (False, elementNbr, elementOffset, 0)
        else
          let elementP = csize cmpResponseHeaderTci_t + unat (elementNbr - 1) * csize cmpMapOffsetInfo_t;
              offset = peek32 s wsm (elementP + offsetof cmpMapOffsetInfo_t [''offset'']);
              len = peek32 s wsm (elementP + offsetof cmpMapOffsetInfo_t [''len''])
          in if mappedSize (r_cmt s) < offset + len then (False, elementNbr, elementOffset, 0)
             else (True, elementNbr + 1, offset, len))"

definition getRspCmpVersion :: "rstate \<Rightarrow> nat \<Rightarrow> u32" where
  "getRspCmpVersion s wsm = peek32 s wsm (offsetof cmpResponseHeaderTci_t [''version''])"

definition getRspCmpId :: "rstate \<Rightarrow> nat \<Rightarrow> u32" where
  "getRspCmpId s wsm = peek32 s wsm (offsetof cmpResponseHeaderTci_t [''responseId''])"

definition isValidResponse :: "rstate \<Rightarrow> nat \<Rightarrow> bool" where
  "isValidResponse s wsm =
     (if wsm = 0 then False
      else if getRspCmpVersion s wsm \<noteq> CMP_VERSION then False
      else IS_RSP (getRspCmpId s wsm))"

definition isValidResponseTo :: "u32 \<Rightarrow> rstate \<Rightarrow> nat \<Rightarrow> bool" where
  "isValidResponseTo commandId s wsm = (isValidResponse s wsm \<and> getRspCmpId s wsm = RSP_ID commandId)"

definition getNeededBytesFromResponse :: "rstate \<Rightarrow> nat \<Rightarrow> u32" where
  "getNeededBytesFromResponse s wsm =
     (if \<not> isValidResponse s wsm then - 1
      else peek32 s wsm (offsetof cmpResponseHeaderTci_t [''len'']))"

section \<open>The table of message sizes\<close>

record cmpSizes_t =
  cmdId :: u32
  cmdRspSize :: u32
  cmdContainerSize :: u32
  rspContainerSize :: u32

abbreviation (input) sz :: "u32 \<Rightarrow> ctype \<Rightarrow> nat \<Rightarrow> nat \<Rightarrow> cmpSizes_t" where
  "sz i t c r \<equiv> \<lparr>cmdId = i, cmdRspSize = of_nat (csize t), cmdContainerSize = of_nat c, rspContainerSize = of_nat r\<rparr>"

definition SIZEOFAUTHTOKENCONTAINER :: nat where "SIZEOFAUTHTOKENCONTAINER = csize mcSoAuthTokenCont_t"
definition SIZEOFROOTCONTAINER :: nat where "SIZEOFROOTCONTAINER = csize mcSoRootCont_t"
definition SIZEOFSPCONTAINER :: nat where "SIZEOFSPCONTAINER = csize mcSoSpCont_t"
definition SIZEOFTLTCONTAINER :: nat where "SIZEOFTLTCONTAINER = csize mcSoTltCont_2_1_t"

definition sizeTable :: "cmpSizes_t list" where
  "sizeTable =
    [sz MC_CMP_CMD_AUTHENTICATE cmpMapAuthenticate_t 0 0,
     sz MC_CMP_CMD_BEGIN_ROOT_AUTHENTICATION cmpMapBeginRootAuthentication_t SIZEOFROOTCONTAINER 0,
     sz MC_CMP_CMD_BEGIN_SOC_AUTHENTICATION cmpMapBeginSocAuthentication_t SIZEOFAUTHTOKENCONTAINER 0,
     sz MC_CMP_CMD_BEGIN_SP_AUTHENTICATION cmpMapBeginSpAuthentication_t (SIZEOFROOTCONTAINER + SIZEOFSPCONTAINER) 0,
     sz MC_CMP_CMD_GENERATE_AUTH_TOKEN cmpMapGenAuthToken_t 0 0,
     sz MC_CMP_CMD_GET_VERSION cmpMapGetVersion_t 0 0,
     sz MC_CMP_CMD_ROOT_CONT_LOCK_BY_ROOT cmpMapRootContLockByRoot_t 0 SIZEOFROOTCONTAINER,
     sz MC_CMP_CMD_ROOT_CONT_REGISTER_ACTIVATE cmpMapRootContRegisterActivate_t 0 SIZEOFROOTCONTAINER,
     sz MC_CMP_CMD_ROOT_CONT_UNLOCK_BY_ROOT cmpMapRootContUnlockByRoot_t 0 SIZEOFROOTCONTAINER,
     sz MC_CMP_CMD_ROOT_CONT_UNREGISTER cmpMapRootContUnregister_t 0 0,
     sz MC_CMP_CMD_SP_CONT_ACTIVATE cmpMapSpContActivate_t 0 SIZEOFSPCONTAINER,
     sz MC_CMP_CMD_SP_CONT_LOCK_BY_ROOT cmpMapSpContLockByRoot_t SIZEOFSPCONTAINER SIZEOFSPCONTAINER,
     sz MC_CMP_CMD_SP_CONT_LOCK_BY_SP cmpMapSpContLockBySp_t 0 SIZEOFSPCONTAINER,
     sz MC_CMP_CMD_SP_CONT_REGISTER cmpMapSpContRegister_t 0 (SIZEOFROOTCONTAINER + SIZEOFSPCONTAINER),
     sz MC_CMP_CMD_SP_CONT_REGISTER_ACTIVATE cmpMapSpContRegisterActivate_t 0 (SIZEOFROOTCONTAINER + SIZEOFSPCONTAINER),
     sz MC_CMP_CMD_SP_CONT_UNLOCK_BY_ROOT cmpMapSpContUnlockByRoot_t SIZEOFSPCONTAINER SIZEOFSPCONTAINER,
     sz MC_CMP_CMD_SP_CONT_UNLOCK_BY_SP cmpMapSpContUnlockBySp_t 0 SIZEOFSPCONTAINER,
     sz MC_CMP_CMD_SP_CONT_UNREGISTER cmpMapSpContUnregister_t 0 SIZEOFROOTCONTAINER,
     sz MC_CMP_CMD_TLT_CONT_ACTIVATE cmpMapTltContActivate_t SIZEOFTLTCONTAINER SIZEOFTLTCONTAINER,
     sz MC_CMP_CMD_TLT_CONT_LOCK_BY_SP cmpMapTltContLockBySp_t SIZEOFTLTCONTAINER SIZEOFTLTCONTAINER,
     sz MC_CMP_CMD_TLT_CONT_PERSONALIZE cmpMapTltContPersonalize_t SIZEOFTLTCONTAINER 0,
     sz MC_CMP_CMD_TLT_CONT_REGISTER cmpMapTltContRegister_t 0 (SIZEOFSPCONTAINER + SIZEOFTLTCONTAINER),
     sz MC_CMP_CMD_TLT_CONT_REGISTER_ACTIVATE cmpMapTltContRegisterActivate_t 0 (SIZEOFSPCONTAINER + SIZEOFTLTCONTAINER),
     sz MC_CMP_CMD_TLT_CONT_UNLOCK_BY_SP cmpMapTltContUnlockBySp_t SIZEOFTLTCONTAINER SIZEOFTLTCONTAINER,
     sz MC_CMP_CMD_TLT_CONT_UNREGISTER cmpMapTltContUnregister_t 0 SIZEOFSPCONTAINER,
     sz MC_CMP_CMD_GET_SUID cmpMapGetSuid_t 0 0,
     sz MC_CMP_CMD_AUTHENTICATE_TERMINATE cmpMapAuthenticateTerminate_t 0 0]"

definition getCmpSizeInfo :: "u32 \<Rightarrow> cmpSizes_t option" where
  "getCmpSizeInfo i = find (\<lambda>e. i = cmdId e) sizeTable"

definition bigger :: "u32 \<Rightarrow> u32 \<Rightarrow> u32" where
  "bigger first second = (if second < first then first else second)"

definition getTotalMappedBufferSize :: "rstate \<Rightarrow> CmpMessage \<Rightarrow> u32" where
  "getTotalMappedBufferSize s commandP =
     (case getCmpSizeInfo (getCmpCommandId s (contentP commandP)) of
        None \<Rightarrow> 0
      | Some sizes \<Rightarrow>
          let commandSize = bigger (cmdRspSize sizes) (cm_length commandP);
              containerSize = bigger (cmdContainerSize sizes) (rspContainerSize sizes)
          in commandSize + containerSize)"

section \<open>Layout facts\<close>

lemma rsp_header_offsets [simp]:
  "offsetof cmpResponseHeaderTci_t [''version''] = 0"
  "offsetof cmpResponseHeaderTci_t [''responseId''] = 4"
  "offsetof cmpResponseHeaderTci_t [''len''] = 8"
  "csize cmpResponseHeaderTci_t = 12"
  "offsetof cmpMapOffsetInfo_t [''offset''] = 0"
  "offsetof cmpMapOffsetInfo_t [''len''] = 4"
  "csize cmpMapOffsetInfo_t = 8"
  "csize mcUuid_t = 16"
  "offsetof cmpCommandHeaderMap_t [''commandId''] = 0"
  "offsetof cmpResponseHeader_t [''returnCode''] = 4"
  by (simp_all add: offsetof_def member_def clayout round_up_def)

lemma cmd_header_offsets:
  "offsetof (cmpCommandHeaderTci_t 4) [''cmpCmdMapOffsetInfo''] = 16"
  "offsetof (cmpCommandHeaderTci_t 8) [''cmpCmdMapOffsetInfo''] = 24"
  "offsetof (cmpCommandHeaderTci_t ps) [''version''] = 0"
  "offsetof (cmpCommandHeaderTci_t ps) [''commandId''] = 4"
  "offsetof (cmpCommandHeaderTci_t 4) [''mapInfo'', ''addr''] = 8"
  "offsetof (cmpCommandHeaderTci_t 8) [''mapInfo'', ''addr''] = 8"
  "offsetof (cmpCommandHeaderTci_t 4) [''mapInfo'', ''len''] = 12"
  "offsetof (cmpCommandHeaderTci_t 8) [''mapInfo'', ''len''] = 16"
  "csize (cmp_t 4) = 40" "csize (cmp_t 8) = 48"
  by (simp_all add: offsetof_def member_def clayout round_up_def)

lemma container_sizes:
  "SIZEOFAUTHTOKENCONTAINER = 152" "SIZEOFROOTCONTAINER = 220"
  "SIZEOFSPCONTAINER = 396" "SIZEOFTLTCONTAINER = 192"
  by (simp_all add: SIZEOFAUTHTOKENCONTAINER_def SIZEOFROOTCONTAINER_def SIZEOFSPCONTAINER_def
      SIZEOFTLTCONTAINER_def clayout round_up_def)

text \<open>The three elements the code asks for lie inside the TCI buffer, for both pointer widths.\<close>

lemma rsp_elements_in_tci:
  "csize cmpResponseHeaderTci_t + (3 - 1) * csize cmpMapOffsetInfo_t + csize cmpMapOffsetInfo_t \<le> csize (cmp_t 4)"
  "csize cmpResponseHeaderTci_t + (3 - 1) * csize cmpMapOffsetInfo_t + csize cmpMapOffsetInfo_t \<le> csize (cmp_t 8)"
  by (simp_all add: cmd_header_offsets)

lemma sizeTable_bounds:
  "list_all (\<lambda>e. 24 \<le> unat (cmdRspSize e) \<and> unat (cmdRspSize e) \<le> 4096
     \<and> unat (cmdContainerSize e) \<le> 616 \<and> unat (rspContainerSize e) \<le> 616
     \<and> (cmdId e = 3 \<or> 12 \<le> cmdId e \<and> cmdId e \<le> 26 \<longrightarrow> 32 \<le> unat (cmdRspSize e))) sizeTable"
  by (simp add: sizeTable_def container_sizes clayout round_up_def)

lemma getCmpSizeInfo_mem:
  assumes "getCmpSizeInfo i = Some e"
  shows "e \<in> set sizeTable" "cmdId e = i"
  using assms by (auto simp: getCmpSizeInfo_def find_Some_iff)

section \<open>Message fields and buffer sizes\<close>


lemma sdata_offsets [simp]:
  "offsetof cmpCmdSpContActivate_t [''cmd'', ''sdata'', ''spid''] = 12"
  "offsetof cmpCmdSpContLockByRoot_t [''cmd'', ''sdata'', ''spid''] = 12"
  "offsetof cmpCmdSpContLockBySp_t [''cmd'', ''sdata'', ''spid''] = 12"
  "offsetof cmpCmdSpContRegister_t [''cmd'', ''sdata'', ''spid''] = 12"
  "offsetof cmpCmdSpContUnlockByRoot_t [''cmd'', ''sdata'', ''spid''] = 12"
  "offsetof cmpCmdSpContUnlockBySp_t [''cmd'', ''sdata'', ''spid''] = 12"
  "offsetof cmpCmdSpContUnregister_t [''cmd'', ''sdata'', ''spid''] = 12"
  "offsetof cmpCmdTltContActivate_t [''cmd'', ''sdata'', ''spid''] = 12"
  "offsetof cmpCmdTltContLockBySp_t [''cmd'', ''sdata'', ''spid''] = 12"
  "offsetof cmpCmdTltContPersonalize_t [''cmd'', ''sdata'', ''spid''] = 12"
  "offsetof cmpCmdTltContRegister_t [''cmd'', ''sdata'', ''spid''] = 12"
  "offsetof cmpCmdTltContRegisterActivate_t [''cmd'', ''sdata'', ''spid''] = 12"
  "offsetof cmpCmdTltContUnlockBySp_t [''cmd'', ''sdata'', ''spid''] = 12"
  "offsetof cmpCmdTltContActivate_t [''cmd'', ''sdata'', ''uuid''] = 16"
  "offsetof cmpCmdTltContLockBySp_t [''cmd'', ''sdata'', ''uuid''] = 16"
  "offsetof cmpCmdTltContPersonalize_t [''cmd'', ''sdata'', ''uuid''] = 16"
  "offsetof cmpCmdTltContRegister_t [''cmd'', ''sdata'', ''uuid''] = 16"
  "offsetof cmpCmdTltContRegisterActivate_t [''cmd'', ''sdata'', ''uuid''] = 16"
  "offsetof cmpCmdTltContUnlockBySp_t [''cmd'', ''sdata'', ''uuid''] = 16"
  "offsetof cmpCmdBeginSpAuthentication_t [''cmd'', ''spid''] = 12"
  by (simp_all add: offsetof_def member_def clayout round_up_def)

lemma bigger_max: "unat (bigger a b) = max (unat a) (unat b)"
  by (auto simp: bigger_def word_less_nat_alt)

lemma mapped_size_unat:
  assumes "getCmpSizeInfo (getCmpCommandId s (contentP c)) = Some e" "unat (cm_length c) < 2 ^ 31"
  shows "unat (getTotalMappedBufferSize s c) = max (unat (cmdRspSize e)) (unat (cm_length c))
           + max (unat (cmdContainerSize e)) (unat (rspContainerSize e))"
proof -
  have "e \<in> set sizeTable" using assms(1) by (rule getCmpSizeInfo_mem)
  then have b: "unat (cmdRspSize e) \<le> 4096" "unat (cmdContainerSize e) \<le> 616" "unat (rspContainerSize e) \<le> 616"
    using sizeTable_bounds by (auto simp: list_all_iff)
  have "unat (bigger (cmdRspSize e) (cm_length c)) + unat (bigger (cmdContainerSize e) (rspContainerSize e)) < 2 ^ 32"
    using b assms(2) by (simp add: bigger_max)
  then show ?thesis
    using assms(1) by (simp add: getTotalMappedBufferSize_def unat_plus_no_wrap bigger_max)
qed

lemma mapped_buffer_bounds:
  assumes "unat (cm_length c) < 2 ^ 31"
  shows "case getCmpSizeInfo (getCmpCommandId s (contentP c)) of
           None \<Rightarrow> getTotalMappedBufferSize s c = 0
         | Some e \<Rightarrow> 24 \<le> unat (getTotalMappedBufferSize s c)
             \<and> (cmdId e = 3 \<or> 12 \<le> cmdId e \<and> cmdId e \<le> 26 \<longrightarrow> 32 \<le> unat (getTotalMappedBufferSize s c))
             \<and> unat (cm_length c) + unat (cmdContainerSize e) \<le> unat (getTotalMappedBufferSize s c)
             \<and> unat (cmdRspSize e) + unat (rspContainerSize e) \<le> unat (getTotalMappedBufferSize s c)"
proof (cases "getCmpSizeInfo (getCmpCommandId s (contentP c))")
  case None
  then show ?thesis by (simp add: getTotalMappedBufferSize_def)
next
  case (Some e)
  note e = getCmpSizeInfo_mem [OF Some]
  have "24 \<le> unat (cmdRspSize e)" "cmdId e = 3 \<or> 12 \<le> cmdId e \<and> cmdId e \<le> 26 \<Longrightarrow> 32 \<le> unat (cmdRspSize e)"
    using e(1) sizeTable_bounds by (auto simp: list_all_iff)
  then show ?thesis
    using Some mapped_size_unat [OF Some assms] by (simp add: le_max_iff_disj) linarith
qed

text \<open>
  The buffer shared with the secure world is large enough. For a command the table knows,
  of less than 2 GiB, the buffer holds the command itself, the fixed part of its messages (at
  least 24 bytes, and 32 where the command carries identifiers), and behind whichever of the two
  is longer still all the containers that the command appends and all that its response brings.
  For any other command identifier the size is 0, which the caller takes for an unsupported
  command; no supported command has size 0.
\<close>

theorem mapped_buffer_fits:
  assumes "unat (cm_length c) < 2 ^ 31"
  shows "case getCmpSizeInfo (getCmpCommandId s (contentP c)) of
           None \<Rightarrow> getTotalMappedBufferSize s c = 0
         | Some e \<Rightarrow> 24 \<le> unat (getTotalMappedBufferSize s c)
             \<and> (cmdId e = 3 \<or> 12 \<le> cmdId e \<and> cmdId e \<le> 26 \<longrightarrow> 32 \<le> unat (getTotalMappedBufferSize s c))
             \<and> unat (cm_length c) + unat (cmdContainerSize e) \<le> unat (getTotalMappedBufferSize s c)
             \<and> unat (cmdRspSize e) + unat (rspContainerSize e) \<le> unat (getTotalMappedBufferSize s c)"
  using assms by (rule mapped_buffer_bounds)

theorem mapped_buffer_fits_witness:
  "let c = \<lparr>cm_length = 100, contentP = 5, ignoreError = False, hdr_ret = 0, intRet = 0, hdr_id = 0\<rparr>;
       s = rstart\<lparr>r_heap := [(5, [16, 0, 0, 0])]\<rparr>
   in unat (getTotalMappedBufferSize s c) = 1288 \<and> 24 \<le> unat (getTotalMappedBufferSize s c)"
proof -
  define c where "c = \<lparr>cm_length = 100, contentP = 5, ignoreError = False, hdr_ret = 0, intRet = 0, hdr_id = 0\<rparr>"
  define s where "s = rstart\<lparr>r_heap := [(5, [16, 0, 0, 0])]\<rparr>"
  have i: "getCmpCommandId s (contentP c) = 16"
    by (simp add: getCmpCommandId_def c_def s_def rstart_def peek32_def hblock_def le32_def byte_at_def)
  obtain e where e: "getCmpSizeInfo 16 = Some e" "cmdRspSize e = 672" "cmdContainerSize e = 0" "rspContainerSize e = 616"
    by (simp add: getCmpSizeInfo_def sizeTable_def container_sizes clayout round_up_def)
  have len: "unat (cm_length c) < 2 ^ 31" by (simp add: c_def)
  have "unat (getTotalMappedBufferSize s c) = 1288"
    using mapped_size_unat [of s c e] e i len by (simp add: c_def)
  moreover have "24 \<le> unat (getTotalMappedBufferSize s c)"
    using mapped_buffer_fits [OF len, of s] e i by simp
  ultimately show ?thesis by (simp only: Let_def c_def [symmetric] s_def [symmetric])
qed

text \<open>
  Which response elements the code accepts. An element is accepted exactly when its number is
  not 0 and its offset plus its length, added modulo 2 to the 32, is at most the size of the mapped
  buffer; then its offset and length are returned and the element number advances. So an accepted
  element lies inside the mapped buffer unless the addition wraps around, and a secure world that
  names an element whose end wraps gets it accepted although it lies far outside.
\<close>

theorem rsp_element_accepted:
  assumes "h \<noteq> 0" and "wsmP (r_cmt s) \<noteq> 0" and "n \<noteq> 0"
    and "off = peek32 s (wsmP (r_cmt s)) (12 + unat (n - 1) * 8)"
    and "len = peek32 s (wsmP (r_cmt s)) (16 + unat (n - 1) * 8)"
  shows "getRspElementInfo n h o0 l0 s =
           (if (unat off + unat len) mod 2 ^ 32 \<le> unat (mappedSize (r_cmt s))
            then (True, n + 1, off, len) else (False, n, o0, 0))
         \<and> (fst (getRspElementInfo n h o0 l0 s) \<longrightarrow> unat off + unat len < 2 ^ 32
              \<longrightarrow> unat off + unat len \<le> unat (mappedSize (r_cmt s)))"
proof -
  have "(mappedSize (r_cmt s) < off + len) = (\<not> (unat off + unat len) mod 2 ^ 32 \<le> unat (mappedSize (r_cmt s)))"
    by (simp add: word_less_nat_alt unat_word_ariths not_le)
  then have "getRspElementInfo n h o0 l0 s =
      (if (unat off + unat len) mod 2 ^ 32 \<le> unat (mappedSize (r_cmt s))
       then (True, n + 1, off, len) else (False, n, o0, 0))"
    using assms by (simp add: getRspElementInfo_def Let_def algebra_simps del: word_not_simps)
  moreover have "(unat off + unat len) mod 2 ^ 32 = unat off + unat len" if "unat off + unat len < 2 ^ 32"
    using that by (rule mod_less)
  ultimately show ?thesis by auto
qed

definition wrap_state :: rstate where
  "wrap_state = rstart\<lparr>r_heap := [(5, [0, 0, 3, 0,  9, 0, 0, 0x80,  0, 0, 0, 0,  0xF0, 0xFF, 0xFF, 0xFF,  0x20, 0, 0, 0])],
     r_cmt := (r_cmt rstart)\<lparr>wsmP := 5, mappedSize := 0x100\<rparr>\<rparr>"

theorem rsp_element_accepted_witness:
  "getRspElementInfo 1 5 0 0 wrap_state = (True, 2, 0xFFFFFFF0, 0x20)
   \<and> unat (mappedSize (r_cmt wrap_state)) < unat (0xFFFFFFF0 :: u32)"
proof -
  have h: "hblock wrap_state 5 = [0, 0, 3, 0,  9, 0, 0, 0x80,  0, 0, 0, 0,  0xF0, 0xFF, 0xFF, 0xFF,  0x20, 0, 0, 0]"
    "wsmP (r_cmt wrap_state) = 5" "mappedSize (r_cmt wrap_state) = 0x100"
    by (simp_all add: wrap_state_def hblock_def rstart_def)
  have "peek32 wrap_state 5 12 = 0xFFFFFFF0" "peek32 wrap_state 5 16 = 0x20"
    by (simp_all add: peek32_def h le32_def byte_at_def)
  then show ?thesis
    using rsp_element_accepted [of 5 wrap_state 1 "0xFFFFFFF0" "0x20" 0 0] h by simp
qed

text \<open>A message is a valid response to at most one of the commands.\<close>

lemma isValidResponseTo_unique:
  assumes "isValidResponseTo c s w" "isValidResponseTo d s w" "c < RSP_ID_MASK" "d < RSP_ID_MASK"
  shows "c = d"
proof -
  have mask: "x AND 0x7FFFFFFF = (x :: u32)" if "x < 0x80000000" for x
  proof -
    have "x AND mask 31 = take_bit 31 x" by (simp add: take_bit_eq_mask)
    moreover have "take_bit 31 x = x" using that
      by (intro word_unat_eq_iff [THEN iffD2]) (simp add: unsigned_take_bit_eq take_bit_nat_eq_self word_less_nat_alt)
    ultimately show ?thesis by (simp add: mask_eq_exp_minus_1)
  qed
  have "c OR 0x80000000 = d OR 0x80000000"
    using assms(1,2) by (auto simp: isValidResponseTo_def RSP_ID_def)
  then have "(c OR 0x80000000) AND 0x7FFFFFFF = (d OR 0x80000000) AND 0x7FFFFFFF" by simp
  then show ?thesis using assms(3,4) by (simp add: bit.conj_disj_distrib2 mask)
qed

end
