(* ===== verification/TltChannel.thy ===== *)
theory TltChannel
  imports RootpaEnv
begin

text \<open>
  The channel to the content management trustlet (\<^verbatim>\<open>trustletchannel.c\<close>): a handle from \<open>malloc\<close>,
  the device, a TCI buffer in world shared memory and a session, acquired in this order and
  released in the opposite one. There is one handle at a time; \<open>r_cmt\<close> is the structure it
  points to. The build is the Android one, which opens and closes the device itself.
\<close>

section \<open>Types\<close>

definition mcBulkMap_type :: "nat \<Rightarrow> ctype" where [clayout]:
  "mcBulkMap_type ps = Struct [(''sVirtualAddr'', Ptr ps), (''sVirtualLen'', U32)]"

definition mcSessionHandle_type :: ctype where [clayout]:
  "mcSessionHandle_type = Struct [(''sessionId'', U32), (''deviceId'', U32)]"

definition CMTSTRUCT_type :: "nat \<Rightarrow> ctype" where [clayout]:
  "CMTSTRUCT_type ps = Struct
     [(''wsmP'', Ptr ps),
      (''mappedP'', Ptr ps),
      (''mappedSize'', U32),
      (''mapInfo'', mcBulkMap_type ps),
      (''session'', mcSessionHandle_type),
      (''lasterror'', U32)]"

definition zero_cmt :: CMTSTRUCT where
  "zero_cmt = \<lparr>wsmP = 0, mappedP = 0, mappedSize = 0, mapInfo = \<lparr>sVirtualAddr = 0, sVirtualLen = 0\<rparr>,
     cmt_session = 0, lasterror = 0\<rparr>"

section \<open>The driver calls of the channel\<close>

text \<open>World shared memory is a block of the process, taken and given back by the driver.\<close>

definition mcMallocWsm :: "rworld \<Rightarrow> u32 \<Rightarrow> rstate \<Rightarrow> u32 \<times> nat \<times> rstate" where
  "mcMallocWsm W len s =
     (let (r, s) = drv W (McMallocWsm len) s in
      if r = MC_DRV_OK then
        (r, r_next s, new_block (replicate (unat len) 0) s)
      else (r, 0, s))"

definition mcFreeWsm :: "rworld \<Rightarrow> nat \<Rightarrow> rstate \<Rightarrow> rstate" where
  "mcFreeWsm W p s =
     (let (r, s) = drv W (McFreeWsm p) s in
      if r = MC_DRV_OK then drop_block p s else s)"

text \<open>
  The secure world handles the message while the client waits: it rewrites the TCI buffer and
  the block it has mapped.
\<close>

definition mcWaitNotification :: "rworld \<Rightarrow> u32 \<Rightarrow> rstate \<Rightarrow> u32 \<times> rstate" where
  "mcWaitNotification W timeout s =
     (let wsm = wsmP (r_cmt s);
          (w', m') = rw_swd W (r_ev s) (hblock s wsm) (hblock s (r_mapped s));
          s = set_block (r_mapped s) (\<lambda>b. fit (length b) m') s;
          s = set_block wsm (\<lambda>b. fit (length b) w') s
      in drv W (McWaitNotification timeout) s)"

section \<open>Operations\<close>

definition tltChannelOpen :: "rworld \<Rightarrow> u32 \<Rightarrow> rstate \<Rightarrow> nat \<times> u32 \<times> rstate" where
  "tltChannelOpen W sizeOfWsmBuffer s =
     (let (handle, s) = malloc W (csize (CMTSTRUCT_type (rw_ps W))) s in
      if handle = 0 then (0, MC_DRV_ERR_NO_FREE_MEMORY, s)
      else
        let s = s\<lparr>r_cmt := zero_cmt\<rparr>;
            (result, s) = drv W McOpenDevice s in
        if result \<noteq> MC_DRV_OK then (0, result, free_ptr handle s)
        else
          let (result, wsm, s) = mcMallocWsm W sizeOfWsmBuffer s in
          if result \<noteq> MC_DRV_OK then
            let (_, s) = drv W McCloseDevice s in (0, result, free_ptr handle s)
          else
            let s = s\<lparr>r_cmt := (r_cmt s)\<lparr>wsmP := wsm\<rparr>\<rparr>;
                (result, s) = drv W (McOpenSession wsm sizeOfWsmBuffer) s in
            if result \<noteq> MC_DRV_OK then
              let s = mcFreeWsm W (wsmP (r_cmt s)) s;
                  (_, s) = drv W McCloseDevice s
              in (0, result, free_ptr handle s)
            else (handle, result, s\<lparr>r_cmt := (r_cmt s)\<lparr>cmt_session := rw_session W (r_ev s)\<rparr>\<rparr>))"

definition tltChannelClose :: "rworld \<Rightarrow> nat \<Rightarrow> rstate \<Rightarrow> rstate" where
  "tltChannelClose W handle s =
     (if handle = 0 then s
      else
        let (_, s) = drv W McCloseSession s;
            s = (if wsmP (r_cmt s) \<noteq> 0 then mcFreeWsm W (wsmP (r_cmt s)) s else s);
            (_, s) = drv W McCloseDevice s
        in free_ptr handle s)"

definition tltChannelTransmit :: "rworld \<Rightarrow> nat \<Rightarrow> u32 \<Rightarrow> rstate \<Rightarrow> bool \<times> rstate" where
  "tltChannelTransmit W handle timeout s =
     (if handle = 0 then (False, s)
      else
        let (r, s) = drv W McNotify s;
            s = s\<lparr>r_cmt := (r_cmt s)\<lparr>lasterror := r\<rparr>\<rparr> in
        if r \<noteq> MC_DRV_OK then (False, s)
        else
          let (r, s) = mcWaitNotification W timeout s;
              s = s\<lparr>r_cmt := (r_cmt s)\<lparr>lasterror := r\<rparr>\<rparr>
          in (r = MC_DRV_OK, s))"

section \<open>What the process holds\<close>

text \<open>
  The device references and sessions held after a sequence of events: acquired by a successful
  call, given up by a close.
\<close>

fun device_refs :: "revent list \<Rightarrow> int" where
  "device_refs [] = 0"
| "device_refs (Drv McOpenDevice r # es) = device_refs es + (if r = MC_DRV_OK then 1 else 0)"
| "device_refs (Drv McCloseDevice r # es) = device_refs es - 1"
| "device_refs (e # es) = device_refs es"

fun session_refs :: "revent list \<Rightarrow> int" where
  "session_refs [] = 0"
| "session_refs (Drv (McOpenSession p n) r # es) = session_refs es + (if r = MC_DRV_OK then 1 else 0)"
| "session_refs (Drv McCloseSession r # es) = session_refs es - 1"
| "session_refs (e # es) = session_refs es"

text \<open>The calls that open, close and map, in the order they were made; the balances depend on them alone.\<close>

fun chan_call :: "revent \<Rightarrow> bool" where
  "chan_call (Drv McOpenDevice r) = True"
| "chan_call (Drv McCloseDevice r) = True"
| "chan_call (Drv (McOpenSession p n) r) = True"
| "chan_call (Drv McCloseSession r) = True"
| "chan_call (Drv (McMap p n) r) = True"
| "chan_call (Drv (McUnmap p) r) = True"
| "chan_call e = False"

definition chan_events :: "revent list \<Rightarrow> revent list" where
  "chan_events es = filter chan_call es"

lemma chan_events_simps [simp]:
  "chan_events [] = []"
  "chan_events (e # es) = (if chan_call e then e # chan_events es else chan_events es)"
  by (simp_all add: chan_events_def)

lemma refs_chan_events:
  "device_refs (chan_events es) = device_refs es"
  "session_refs (chan_events es) = session_refs es"
  by (induction es rule: device_refs.induct) (auto split: revent.splits drvcall.splits)

lemma chan_events_free [simp]: "chan_events (r_ev (free_ptr p s)) = chan_events (r_ev s)"
  by (simp add: free_ptr_def)

definition wsm_freed :: "rworld \<Rightarrow> bool" where
  "wsm_freed W = (\<forall>ev p. rw_drv W ev (McFreeWsm p) = MC_DRV_OK)"

lemma free_ptr_refs [simp]:
  "device_refs (r_ev (free_ptr p s)) = device_refs (r_ev s)"
  "session_refs (r_ev (free_ptr p s)) = session_refs (r_ev s)"
  by (simp_all add: free_ptr_def)

lemma mcFreeWsm_eq:
  "wsm_freed W \<Longrightarrow> mcFreeWsm W p s = drop_block p (r_note (Drv (McFreeWsm p) MC_DRV_OK) s)"
  by (simp add: mcFreeWsm_def wsm_freed_def)

section \<open>Opening and closing are balanced\<close>

lemma channel_close:
  assumes "heap_ok s" "wsm_freed W" "h \<in> blocks s" "wsmP (r_cmt s) \<in> blocks s" "wsmP (r_cmt s) \<noteq> h"
  shows "heap_ok (tltChannelClose W h s)"
    "blocks (tltChannelClose W h s) = blocks s - {h, wsmP (r_cmt s)}"
    "r_faults (tltChannelClose W h s) = r_faults s"
    "device_refs (r_ev (tltChannelClose W h s)) = device_refs (r_ev s) - 1"
    "session_refs (r_ev (tltChannelClose W h s)) = session_refs (r_ev s) - 1"
proof -
  have "h \<noteq> 0" "wsmP (r_cmt s) \<noteq> 0" using assms heap_ok_fresh by metis+
  then show "heap_ok (tltChannelClose W h s)"
    "blocks (tltChannelClose W h s) = blocks s - {h, wsmP (r_cmt s)}"
    "r_faults (tltChannelClose W h s) = r_faults s"
    "device_refs (r_ev (tltChannelClose W h s)) = device_refs (r_ev s) - 1"
    "session_refs (r_ev (tltChannelClose W h s)) = session_refs (r_ev s) - 1"
    using assms by (auto simp: tltChannelClose_def mcFreeWsm_eq Let_def)
qed

lemma tltChannelClose_null [simp]: "tltChannelClose W 0 s = s"
  by (simp add: tltChannelClose_def)



end
