(* ===== verification/Pacmp3.thy ===== *)
theory Pacmp3
  imports Pacmtl TltChannel
begin

text \<open>
  Preparing commands for the content management trustlet and handling its responses
  (\<^verbatim>\<open>pacmp3.c\<close>). A command is copied into the buffer shared with the secure world, the containers
  it needs are read from the registry and appended behind it; of a response, the message goes to
  the caller and the containers go to the registry, in an order that keeps the stored containers
  consistent when a write fails.
\<close>

section \<open>Error codes (rootpaErrors.h)\<close>

abbreviation (input) ROOTPA_OK :: u32 where "ROOTPA_OK \<equiv> 0"
abbreviation (input) ROOTPA_COMMAND_NOT_SUPPORTED :: u32 where "ROOTPA_COMMAND_NOT_SUPPORTED \<equiv> 1"
abbreviation (input) ROOTPA_ERROR_COMMAND_EXECUTION :: u32 where "ROOTPA_ERROR_COMMAND_EXECUTION \<equiv> 3"
abbreviation (input) ROOTPA_ERROR_REGISTRY :: u32 where "ROOTPA_ERROR_REGISTRY \<equiv> 4"
abbreviation (input) ROOTPA_ERROR_MOBICORE_CONNECTION :: u32 where "ROOTPA_ERROR_MOBICORE_CONNECTION \<equiv> 5"
abbreviation (input) ROOTPA_ERROR_OUT_OF_MEMORY :: u32 where "ROOTPA_ERROR_OUT_OF_MEMORY \<equiv> 6"
abbreviation (input) ROOTPA_ERROR_INTERNAL :: u32 where "ROOTPA_ERROR_INTERNAL \<equiv> 7"
abbreviation (input) ROOTPA_ERROR_REGISTRY_OBJECT_NOT_AVAILABLE :: u32 where
  "ROOTPA_ERROR_REGISTRY_OBJECT_NOT_AVAILABLE \<equiv> 0xB"

abbreviation (input) SUCCESSFUL :: u32 where "SUCCESSFUL \<equiv> 0"

text \<open>Stages of the provisioning reported to the callback (rootpa.h).\<close>

abbreviation (input) AUTHENTICATING_SOC :: u32 where "AUTHENTICATING_SOC \<equiv> 2"
abbreviation (input) CREATING_ROOT_CONTAINER :: u32 where "CREATING_ROOT_CONTAINER \<equiv> 3"
abbreviation (input) AUTHENTICATING_ROOT :: u32 where "AUTHENTICATING_ROOT \<equiv> 4"
abbreviation (input) CREATING_SP_CONTAINER :: u32 where "CREATING_SP_CONTAINER \<equiv> 5"
abbreviation (input) UNREGISTERING_ROOT_CONTAINER :: u32 where "UNREGISTERING_ROOT_CONTAINER \<equiv> 8"

section \<open>Helpers\<close>

definition factoryResetAssumed :: "rworld \<Rightarrow> rstate \<Rightarrow> bool \<times> rstate" where
  "factoryResetAssumed W s =
     (let (result1, containerP, _, s) = regReadAuthToken W s in
      if result1 = MC_DRV_OK then (False, free_ptr containerP s)
      else
        let (result2, containerP, _, s) = regReadRoot W s in
        if result2 = MC_DRV_OK then (False, free_ptr containerP s)
        else (MC_DRV_ERR_INVALID_DEVICE_FILE = result1 \<and> MC_DRV_ERR_INVALID_DEVICE_FILE = result2, s))"

definition sizeOfCmp :: "rworld \<Rightarrow> u32" where
  "sizeOfCmp W = of_nat (csize (cmp_t (rw_ps W)))"

definition getCmpReturnCode :: "rstate \<Rightarrow> nat \<Rightarrow> u32" where
  "getCmpReturnCode s cmpMsgP = peek32 s cmpMsgP (offsetof cmpResponseHeader_t [''returnCode''])"

definition allocateResponseBuffer :: "rworld \<Rightarrow> CmpMessage \<Rightarrow> nat \<Rightarrow> rstate \<Rightarrow> u32 \<times> CmpMessage \<times> rstate" where
  "allocateResponseBuffer W responseP handle s =
     (let (ok, _, _, len) = getRspElementInfo 1 handle 0 (cm_length responseP) s;
          responseP = responseP\<lparr>cm_length := len\<rparr> in
      if \<not> ok then (ROOTPA_ERROR_INTERNAL, responseP, s)
      else
        let (p, s) = malloc W (unat len) s;
            responseP = responseP\<lparr>contentP := p\<rparr>
        in (if p = 0 then ROOTPA_ERROR_OUT_OF_MEMORY else ROOTPA_OK, responseP, s))"

definition ensureMappedBufferSize :: "rworld \<Rightarrow> u32 \<Rightarrow> rstate \<Rightarrow> bool \<times> rstate" where
  "ensureMappedBufferSize W neededSize s =
     (if mappedSize (r_cmt s) < neededSize then
        let (newMappedP, s) = realloc W (mappedP (r_cmt s)) (unat neededSize) s in
        if newMappedP = 0 then (False, s)
        else (True, s\<lparr>r_cmt := (r_cmt s)\<lparr>mappedP := newMappedP\<rparr>\<rparr>)
      else (True, s))"

definition setCallbackP :: "bool \<Rightarrow> rstate \<Rightarrow> rstate" where
  "setCallbackP present s = s\<lparr>g_callbackP := present\<rparr>"

definition callback :: "u32 \<Rightarrow> rstate \<Rightarrow> rstate" where
  "callback st s = (if g_callbackP s then r_note (Callback st ROOTPA_OK) s else s)"

section \<open>Appending containers to a command\<close>

text \<open>
  The four functions of the source differ in the container they read. A container goes behind
  the elements already in the mapped buffer, and its place into the command header.
\<close>

definition addContainer ::
    "rworld \<Rightarrow> contref \<Rightarrow> u32 \<times> u32 \<times> rstate \<Rightarrow> u32 \<times> u32 \<times> u32 \<times> u32 \<times> rstate" where
  "addContainer W c st =
     (let (index, offset, s) = st;
          (mcRet, contP, contSize, s) = regRead W c s;
          (ret, index, offset, s) =
            (if mcRet = MC_DRV_OK then
               let (ok, s) = ensureMappedBufferSize W (offset + contSize) s in
               if ok then
                 let s = touch contP 0 (unat contSize) s;
                     s = poke (mappedP (r_cmt s)) (unat offset) (peek s contP 0 (unat contSize)) s;
                     (index, offset, s) = setCmdElementInfo W index (wsmP (r_cmt s)) offset contSize s
                 in (ROOTPA_OK, index, offset, s)
               else (ROOTPA_ERROR_OUT_OF_MEMORY, index, offset, s)
             else if MC_DRV_ERR_INVALID_DEVICE_FILE = mcRet then
               (ROOTPA_ERROR_REGISTRY_OBJECT_NOT_AVAILABLE, index, offset, s)
             else (ROOTPA_ERROR_REGISTRY, index, offset, s))
      in (ret, mcRet, index, offset, free_ptr contP s))"

definition addAuthTokenContainer :: "rworld \<Rightarrow> u32 \<times> u32 \<times> rstate \<Rightarrow> u32 \<times> u32 \<times> u32 \<times> u32 \<times> rstate" where
  "addAuthTokenContainer W st = addContainer W AuthToken st"

definition addRootContainer :: "rworld \<Rightarrow> u32 \<times> u32 \<times> rstate \<Rightarrow> u32 \<times> u32 \<times> u32 \<times> u32 \<times> rstate" where
  "addRootContainer W st = addContainer W RootCont st"

definition addSpContainer :: "rworld \<Rightarrow> u32 \<Rightarrow> u32 \<times> u32 \<times> rstate \<Rightarrow> u32 \<times> u32 \<times> u32 \<times> u32 \<times> rstate" where
  "addSpContainer W spid st = addContainer W (SpCont spid) st"

definition addTltContainer ::
    "rworld \<Rightarrow> u8 list \<Rightarrow> u32 \<Rightarrow> u32 \<times> u32 \<times> rstate \<Rightarrow> u32 \<times> u32 \<times> u32 \<times> u32 \<times> rstate" where
  "addTltContainer W uuid spid st = addContainer W (TltCont uuid spid) st"

section \<open>Preparing a command\<close>

text \<open>The identifiers a command carries, read through the command structure \<open>T\<close> the case casts to.\<close>

definition sdata_spid :: "ctype \<Rightarrow> nat \<Rightarrow> rstate \<Rightarrow> u32 \<times> rstate" where
  "sdata_spid T p s =
     (let off = offsetof T [''cmd'', ''sdata'', ''spid''] in (peek32 s p off, touch p off 4 s))"

definition sdata_uuid :: "ctype \<Rightarrow> nat \<Rightarrow> rstate \<Rightarrow> u8 list \<times> rstate" where
  "sdata_uuid T p s =
     (let off = offsetof T [''cmd'', ''sdata'', ''uuid''] in (peek s p off (csize mcUuid_t), touch p off (csize mcUuid_t) s))"

definition keep_spid :: "ctype \<Rightarrow> nat \<Rightarrow> rstate \<Rightarrow> rstate" where
  "keep_spid T p s = (let (v, s) = sdata_spid T p s in s\<lparr>g_spid := v\<rparr>)"

definition keep_uuid :: "ctype \<Rightarrow> nat \<Rightarrow> rstate \<Rightarrow> rstate" where
  "keep_uuid T p s = (let (v, s) = sdata_uuid T p s in s\<lparr>g_tltUuid := v\<rparr>)"

text \<open>The switch of \<open>prepareCommand\<close>; the tuple is the return code, the registry's code and the state.\<close>

definition prepare_switch ::
    "rworld \<Rightarrow> u32 \<Rightarrow> nat \<Rightarrow> u32 \<times> u32 \<times> rstate \<Rightarrow> u32 \<times> u32 \<times> rstate" where
  "prepare_switch W commandId outCommandP st =
     (let (index, offset, s) = st;
          nothing = (\<lambda>s. (ROOTPA_OK, MC_DRV_OK, s));
          result = (\<lambda>(ret, mcRet, _, _, s). (ret, mcRet, s)) in
      if commandId = MC_CMP_CMD_BEGIN_SOC_AUTHENTICATION then
        result (addAuthTokenContainer W (index, offset, callback AUTHENTICATING_SOC s))
      else if commandId = MC_CMP_CMD_BEGIN_ROOT_AUTHENTICATION then
        result (addRootContainer W (index, offset, callback AUTHENTICATING_ROOT s))
      else if commandId = MC_CMP_CMD_BEGIN_SP_AUTHENTICATION then
        (let (ret, mcRet, index, offset, s) = addRootContainer W (index, offset, s) in
         if ROOTPA_OK = ret then
           let off = offsetof cmpCmdBeginSpAuthentication_t [''cmd'', ''spid''];
               spid = peek32 s outCommandP off;
               s = touch outCommandP off 4 s
           in result (addSpContainer W spid (index, offset, s))
         else (ret, mcRet, s))
      else if commandId = MC_CMP_CMD_ROOT_CONT_REGISTER_ACTIVATE then nothing (callback CREATING_ROOT_CONTAINER s)
      else if commandId = MC_CMP_CMD_ROOT_CONT_UNREGISTER then nothing (callback UNREGISTERING_ROOT_CONTAINER s)
      else if commandId = MC_CMP_CMD_SP_CONT_ACTIVATE then nothing (keep_spid cmpCmdSpContActivate_t outCommandP s)
      else if commandId = MC_CMP_CMD_SP_CONT_LOCK_BY_ROOT then
        (let s = keep_spid cmpCmdSpContLockByRoot_t outCommandP s in result (addSpContainer W (g_spid s) (index, offset, s)))
      else if commandId = MC_CMP_CMD_SP_CONT_LOCK_BY_SP then nothing (keep_spid cmpCmdSpContLockBySp_t outCommandP s)
      else if commandId = MC_CMP_CMD_SP_CONT_REGISTER \<or> commandId = MC_CMP_CMD_SP_CONT_REGISTER_ACTIVATE then
        nothing (keep_spid cmpCmdSpContRegister_t outCommandP (callback CREATING_SP_CONTAINER s))
      else if commandId = MC_CMP_CMD_SP_CONT_UNLOCK_BY_ROOT then
        (let s = keep_spid cmpCmdSpContUnlockByRoot_t outCommandP s in result (addSpContainer W (g_spid s) (index, offset, s)))
      else if commandId = MC_CMP_CMD_SP_CONT_UNLOCK_BY_SP then nothing (keep_spid cmpCmdSpContUnlockBySp_t outCommandP s)
      else if commandId = MC_CMP_CMD_SP_CONT_UNREGISTER then nothing (keep_spid cmpCmdSpContUnregister_t outCommandP s)
      else if commandId = MC_CMP_CMD_TLT_CONT_ACTIVATE then
        (let s = keep_uuid cmpCmdTltContActivate_t outCommandP (keep_spid cmpCmdTltContActivate_t outCommandP s)
         in result (addTltContainer W (g_tltUuid s) (g_spid s) (index, offset, s)))
      else if commandId = MC_CMP_CMD_TLT_CONT_LOCK_BY_SP then
        (let s = keep_uuid cmpCmdTltContLockBySp_t outCommandP (keep_spid cmpCmdTltContLockBySp_t outCommandP s)
         in result (addTltContainer W (g_tltUuid s) (g_spid s) (index, offset, s)))
      else if commandId = MC_CMP_CMD_TLT_CONT_PERSONALIZE then
        (let (uuid, s) = sdata_uuid cmpCmdTltContPersonalize_t outCommandP s;
             (spid, s) = sdata_spid cmpCmdTltContPersonalize_t outCommandP s
         in result (addTltContainer W uuid spid (index, offset, s)))
      else if commandId = MC_CMP_CMD_TLT_CONT_REGISTER then
        nothing (keep_uuid cmpCmdTltContRegister_t outCommandP (keep_spid cmpCmdTltContRegister_t outCommandP s))
      else if commandId = MC_CMP_CMD_TLT_CONT_REGISTER_ACTIVATE then
        nothing (keep_uuid cmpCmdTltContRegisterActivate_t outCommandP
                  (keep_spid cmpCmdTltContRegisterActivate_t outCommandP s))
      else if commandId = MC_CMP_CMD_TLT_CONT_UNLOCK_BY_SP then
        (let s = keep_uuid cmpCmdTltContUnlockBySp_t outCommandP (keep_spid cmpCmdTltContUnlockBySp_t outCommandP s)
         in result (addTltContainer W (g_tltUuid s) (g_spid s) (index, offset, s)))
      else if commandId = MC_CMP_CMD_TLT_CONT_UNREGISTER then
        nothing (keep_uuid cmpCmdTltContUnlockBySp_t outCommandP (keep_spid cmpCmdTltContUnlockBySp_t outCommandP s))
      else nothing s)"

definition prepareCommand ::
    "rworld \<Rightarrow> u32 \<Rightarrow> CmpMessage \<Rightarrow> CmpMessage \<Rightarrow> rstate \<Rightarrow> u32 \<times> CmpMessage \<times> rstate" where
  "prepareCommand W commandId inCommandP responseP s =
     (let outCommandP = mappedP (r_cmt s);
          wsm = wsmP (r_cmt s);
          s = poke wsm 0 (replicate (unat (sizeOfCmp W)) 0) s;
          s = setCmdMapInfo W wsm (mapInfo (r_cmt s)) s;
          s = setCmdCmpVersionAndCmdId W wsm commandId s;
          (index, offset, s) = setCmdElementInfo W 1 wsm 0 (cm_length inCommandP) s;
          (ok, s) = ensureMappedBufferSize W (cm_length inCommandP) s in
      if \<not> ok then (ROOTPA_ERROR_OUT_OF_MEMORY, responseP\<lparr>hdr_ret := ROOTPA_ERROR_OUT_OF_MEMORY\<rparr>, s)
      else
        let n = unat (cm_length inCommandP);
            s = touch (contentP inCommandP) 0 n s;
            s = poke (mappedP (r_cmt s)) 0 (peek s (contentP inCommandP) 0 n) s;
            (ret, mcRet, s) = prepare_switch W commandId outCommandP (index, offset, s)
        in (ret, responseP\<lparr>hdr_ret := ret, intRet := mcRet\<rparr>, s))"

section \<open>Storing the containers of a response\<close>

text \<open>
  Most cases write the next element of the response to one container; \<open>store_element\<close> is that
  step, with the write it performs as an argument and the code's \<^verbatim>\<open>-1\<close> for a missing element.
\<close>

definition store_element ::
    "(nat \<Rightarrow> nat \<Rightarrow> u32 \<Rightarrow> rstate \<Rightarrow> u32 \<times> rstate) \<Rightarrow> nat \<Rightarrow> u32 \<Rightarrow> u32 \<Rightarrow> rstate \<Rightarrow> u32 \<times> rstate" where
  "store_element write handle elementIndex offset s =
     (let (ok, _, off, len) = getRspElementInfo elementIndex handle offset 0 s in
      if ok then write (mappedP (r_cmt s)) (unat off) len s else (- 1, s))"

text \<open>The recovery of \<^verbatim>\<open>MC_CMP_CMD_ROOT_CONT_REGISTER_ACTIVATE\<close>, after the root container is stored.\<close>

definition retire_auth_token :: "rworld \<Rightarrow> rstate \<Rightarrow> u32 \<times> rstate" where
  "retire_auth_token W s =
     (let (_, authTokenP, authTokenSize, s) = regReadAuthToken W s;
          (mcRet, s) = regDeleteAuthToken W s;
          (mcRet, s) =
            (if mcRet \<noteq> MC_DRV_OK \<and> authTokenP \<noteq> 0 then
               let (mcRet, s) = regWriteAuthToken W authTokenP 0 authTokenSize s in
               if mcRet = MC_DRV_OK then let (_, s) = regCleanupRoot W s in (mcRet, s)
               else (mcRet, s)
             else (mcRet, s))
      in (mcRet, free_ptr authTokenP s))"

text \<open>
  Registering a child container: the parent is the first element and the child the second; the
  child is written first.
\<close>

definition store_sp_registration :: "rworld \<Rightarrow> nat \<Rightarrow> u32 \<Rightarrow> u32 \<Rightarrow> rstate \<Rightarrow> u32 \<times> rstate" where
  "store_sp_registration W handle elementIndex offset s =
     (let mp = mappedP (r_cmt s);
          (ok1, i2, rootOff, rootLength) = getRspElementInfo elementIndex handle offset 0 s;
          (ok2, _, spOff, spLength) = getRspElementInfo i2 handle rootOff 0 s;
          (mcRet, s) = (if ok1 \<and> ok2 then regWriteSp W (g_spid s) mp (unat spOff) spLength s else (- 1, s))
      in if mcRet = MC_DRV_OK then regWriteRoot W mp (unat rootOff) rootLength s else (mcRet, s))"

definition store_tlt_registration :: "rworld \<Rightarrow> nat \<Rightarrow> u32 \<Rightarrow> u32 \<Rightarrow> rstate \<Rightarrow> u32 \<times> rstate" where
  "store_tlt_registration W handle elementIndex offset s =
     (let mp = mappedP (r_cmt s);
          (ok1, i2, spOff, spLength) = getRspElementInfo elementIndex handle offset 0 s;
          (ok2, _, tltOff, tltLength) = getRspElementInfo i2 handle spOff 0 s;
          (mcRet, s) = (if ok1 \<and> ok2 then regWriteTlt W (g_tltUuid s) mp (unat tltOff) tltLength (g_spid s) s
                        else (- 1, s))
      in if mcRet = MC_DRV_OK then
           let (mcRet, s) = regWriteSp W (g_spid s) mp (unat spOff) spLength s in
           if mcRet \<noteq> MC_DRV_OK then let (_, s) = regCleanupTlt W (g_tltUuid s) (g_spid s) s in (mcRet, s)
           else (mcRet, s)
         else (mcRet, s))"

definition storeContainers :: "rworld \<Rightarrow> u32 \<Rightarrow> nat \<Rightarrow> u32 \<Rightarrow> u32 \<Rightarrow> rstate \<Rightarrow> u32 \<times> rstate" where
  "storeContainers W commandId handle elementIndex offset s =
     (let store = (\<lambda>write s. store_element write handle elementIndex offset s) in
      if commandId = MC_CMP_CMD_GENERATE_AUTH_TOKEN then store (regWriteAuthToken W) s
      else if commandId = MC_CMP_CMD_ROOT_CONT_REGISTER_ACTIVATE then
        (let (mcRet, s) = store (regWriteRoot W) s in
         if mcRet = MC_DRV_OK then retire_auth_token W s else (mcRet, s))
      else if commandId = MC_CMP_CMD_ROOT_CONT_LOCK_BY_ROOT \<or> commandId = MC_CMP_CMD_ROOT_CONT_UNLOCK_BY_ROOT then
        store (regWriteRoot W) s
      else if commandId = MC_CMP_CMD_ROOT_CONT_UNREGISTER then regCleanupRoot W s
      else if commandId \<in> {MC_CMP_CMD_SP_CONT_UNLOCK_BY_ROOT, MC_CMP_CMD_SP_CONT_UNLOCK_BY_SP,
          MC_CMP_CMD_SP_CONT_ACTIVATE, MC_CMP_CMD_SP_CONT_LOCK_BY_ROOT, MC_CMP_CMD_SP_CONT_LOCK_BY_SP} then
        store (regWriteSp W (g_spid s)) s
      else if commandId = MC_CMP_CMD_SP_CONT_REGISTER \<or> commandId = MC_CMP_CMD_SP_CONT_REGISTER_ACTIVATE then
        store_sp_registration W handle elementIndex offset s
      else if commandId = MC_CMP_CMD_SP_CONT_UNREGISTER then
        (let (_, s) = regCleanupSp W (g_spid s) s in store (regWriteRoot W) s)
      else if commandId = MC_CMP_CMD_TLT_CONT_REGISTER \<or> commandId = MC_CMP_CMD_TLT_CONT_REGISTER_ACTIVATE then
        store_tlt_registration W handle elementIndex offset s
      else if commandId \<in> {MC_CMP_CMD_TLT_CONT_ACTIVATE, MC_CMP_CMD_TLT_CONT_LOCK_BY_SP,
          MC_CMP_CMD_TLT_CONT_UNLOCK_BY_SP} then
        store (\<lambda>p off n. regWriteTlt W (g_tltUuid s) p off n (g_spid s)) s
      else if commandId = MC_CMP_CMD_TLT_CONT_UNREGISTER then
        (let (_, s) = regCleanupTlt W (g_tltUuid s) (g_spid s) s in store (regWriteSp W (g_spid s)) s)
      else (MC_DRV_OK, s))"

section \<open>Handling a response\<close>

definition handleResponse :: "rworld \<Rightarrow> u32 \<Rightarrow> CmpMessage \<Rightarrow> nat \<Rightarrow> rstate \<Rightarrow> u32 \<times> CmpMessage \<times> rstate" where
  "handleResponse W commandId outResponseP handle s =
     (if \<not> isValidResponseTo commandId s (wsmP (r_cmt s)) then
        (ROOTPA_ERROR_COMMAND_EXECUTION, outResponseP\<lparr>hdr_ret := ROOTPA_ERROR_COMMAND_EXECUTION\<rparr>, s)
      else
        let (ret, outResponseP, s) = allocateResponseBuffer W outResponseP handle s in
        if ret \<noteq> ROOTPA_OK then (ret, outResponseP\<lparr>hdr_ret := ret\<rparr>, s)
        else
          let (ok, elementIndex, offset, len) = getRspElementInfo 1 handle 0 0 s in
          if \<not> ok then (ROOTPA_ERROR_INTERNAL, outResponseP, s)
          else
            let mp = mappedP (r_cmt s);
                s = touch mp (unat offset) (unat len) s;
                s = poke (contentP outResponseP) 0 (peek s mp (unat offset) (unat len)) s;
                code = getCmpReturnCode s mp;
                s = touch mp (offsetof cmpResponseHeader_t [''returnCode'']) 4 s in
            if code \<noteq> SUCCESSFUL then
              (ROOTPA_ERROR_COMMAND_EXECUTION, outResponseP\<lparr>intRet := code\<rparr>, s)
            else
              let (mcRet, s) = storeContainers W commandId handle elementIndex offset s in
              if mcRet \<noteq> MC_DRV_OK then
                let ret = (if mcRet = - 1 then ROOTPA_ERROR_INTERNAL else ROOTPA_ERROR_REGISTRY);
                    outResponseP = (if intRet outResponseP = 0 then outResponseP\<lparr>intRet := mcRet\<rparr> else outResponseP)
                in (ret, outResponseP\<lparr>hdr_ret := ret\<rparr>, s)
              else (ROOTPA_OK, outResponseP, s))"

end
