(* ===== verification/Pacmp3Prepare.thy ===== *)
theory Pacmp3Prepare
  imports Pacmp3
begin

text \<open>
  Preparing a command (\<^verbatim>\<open>prepareCommand\<close> and the functions that append containers): what the
  operations on an open channel keep of the heap and of the channel, and that they touch only
  live memory. The relation \<open>keeps\<close> and the invariant \<open>chan_ok\<close> are used again for the response.
\<close>

section \<open>What the operations keep\<close>

text \<open>
  The relation between the state before and after an operation on an open channel: the heap stays
  well formed, no block appears or disappears except that the mapped buffer may be another one,
  every other block keeps its length, the mapped buffer holds at least \<open>mappedSize\<close> bytes if it
  did before, and the channel is otherwise the same.
\<close>

definition mbuf :: "rstate \<Rightarrow> nat" where
  "mbuf s = mappedP (r_cmt s)"

definition keeps :: "rstate \<Rightarrow> rstate \<Rightarrow> bool" where
  "keeps s s' = (heap_ok s \<longrightarrow> mbuf s \<in> blocks s \<longrightarrow>
     heap_ok s' \<and> mbuf s' \<in> blocks s' \<and> blocks s' - {mbuf s'} = blocks s - {mbuf s}
     \<and> wsmP (r_cmt s') = wsmP (r_cmt s) \<and> mappedSize (r_cmt s') = mappedSize (r_cmt s)
     \<and> g_handle s' = g_handle s
     \<and> (\<forall>q\<in>blocks s - {mbuf s}. length (hblock s' q) = length (hblock s q))
     \<and> (unat (mappedSize (r_cmt s)) \<le> length (hblock s (mbuf s)) \<longrightarrow>
        unat (mappedSize (r_cmt s)) \<le> length (hblock s' (mbuf s'))))"

lemma keeps_refl [simp]: "keeps s s"
  by (simp add: keeps_def)

lemma keeps_trans:
  assumes "keeps s t" "keeps t u"
  shows "keeps s u"
  using assms unfolding keeps_def by auto

text \<open>Operations that leave the block structure and the channel alone.\<close>

definition same_shape :: "rstate \<Rightarrow> rstate \<Rightarrow> bool" where
  "same_shape s s' = (blocks s' = blocks s \<and> heap_ok s' = heap_ok s \<and> r_cmt s' = r_cmt s
     \<and> g_handle s' = g_handle s \<and> chan_events (r_ev s') = chan_events (r_ev s)
     \<and> (\<forall>q. length (hblock s' q) = length (hblock s q)))"

lemma same_shape_keeps: "same_shape s s' \<Longrightarrow> keeps s s'"
  by (simp add: same_shape_def keeps_def mbuf_def)

lemma same_shape_refl [simp]: "same_shape s s"
  by (simp add: same_shape_def)

lemma same_shape_trans: "same_shape s t \<Longrightarrow> same_shape t u \<Longrightarrow> same_shape s u"
  by (simp add: same_shape_def)

lemma same_shape_basic [simp]:
  "same_shape s (touch p off n s)"
  "same_shape s (poke p off bs s)"
  "\<not> chan_call e \<Longrightarrow> same_shape s (r_note e s)"
  "same_shape s (s\<lparr>g_spid := i\<rparr>)"
  "same_shape s (s\<lparr>g_tltUuid := u\<rparr>)"
  "same_shape s (callback st s)"
  by (simp_all add: same_shape_def callback_def)

lemma same_shape_setCmd:
  "setCmdElementInfo W i wsm off len s = (i', off', s') \<Longrightarrow> same_shape s s'"
  "same_shape s (setCmdMapInfo W wsm m s)"
  "same_shape s (setCmdCmpVersionAndCmdId W wsm c s)"
  by (auto simp: same_shape_def setCmdElementInfo_def setCmdMapInfo_def setCmdCmpVersionAndCmdId_def Let_def
      split: if_splits)

lemma same_shape_keep_ids [simp]:
  "same_shape s (keep_spid T p s)"
  "same_shape s (keep_uuid T p s)"
  by (simp_all add: same_shape_def keep_spid_def keep_uuid_def sdata_spid_def sdata_uuid_def Let_def)

lemma same_shape_reg:
  "regWrite W c p off n s = (r, s') \<Longrightarrow> same_shape s s'"
  "regCleanup W c s = (r, s') \<Longrightarrow> same_shape s s'"
  by (auto simp: same_shape_def regWrite_def regCleanup_def Let_def)

text \<open>Reading a container allocates at most the buffer it returns.\<close>

lemma regRead_spec:
  assumes "regRead W c s = (r, p, n, s')" "heap_ok s"
  shows "heap_ok s'" "r_cmt s' = r_cmt s" "g_handle s' = g_handle s" "r_faults s' = r_faults s"
    "g_spid s' = g_spid s" "g_tltUuid s' = g_tltUuid s"
    "if p = 0 then blocks s' = blocks s else p \<notin> blocks s \<and> blocks s' = insert p (blocks s) \<and> length (hblock s' p) = 4096"
    "p = 0 \<Longrightarrow> r = MC_DRV_ERR_NO_FREE_MEMORY"
    "q \<in> blocks s \<Longrightarrow> hblock s' q = hblock s q"
proof -
  obtain p1 s1 where m: "malloc W 4096 s = (p1, s1)" by force
  note fresh = heap_ok_fresh [OF assms(2)]
  have q: "q \<in> blocks s \<Longrightarrow> q \<noteq> r_next s" using fresh(1) by auto
  show "heap_ok s'" "r_cmt s' = r_cmt s" "g_handle s' = g_handle s" "r_faults s' = r_faults s"
    "g_spid s' = g_spid s" "g_tltUuid s' = g_tltUuid s"
    "if p = 0 then blocks s' = blocks s else p \<notin> blocks s \<and> blocks s' = insert p (blocks s) \<and> length (hblock s' p) = 4096"
    "p = 0 \<Longrightarrow> r = MC_DRV_ERR_NO_FREE_MEMORY"
    "q \<in> blocks s \<Longrightarrow> hblock s' q = hblock s q"
    using assms m fresh q
    by (cases rule: malloc_cases [OF m];
        auto simp: regRead_def Let_def hblock_set_block split: prod.splits if_splits)+
qed

lemma regRead_size:
  "regRead W c s = (r, p, n, s') \<Longrightarrow> (\<forall>ev c. unat (snd (rw_regdata W ev c)) \<le> 4096) \<Longrightarrow> unat n \<le> 4096"
  by (auto simp: regRead_def Let_def split: prod.splits if_splits) (metis snd_conv)

lemma ensure_spec:
  assumes "ensureMappedBufferSize W n s = (ok, s')" "heap_ok s" "mbuf s \<in> blocks s"
  shows "keeps s s'" "r_faults s' = r_faults s"
    "ok \<Longrightarrow> unat (mappedSize (r_cmt s)) \<le> length (hblock s (mbuf s)) \<Longrightarrow> unat n \<le> length (hblock s' (mbuf s'))"
    "g_spid s' = g_spid s" "g_tltUuid s' = g_tltUuid s"
proof -
  obtain q s1 where r: "realloc W (mappedP (r_cmt s)) (unat n) s = (q, s1)" by force
  have m: "mappedP (r_cmt s) \<in> blocks s" using assms(3) by (simp add: mbuf_def)
  note frame = realloc_frame [OF r]
  have all: "keeps s s' \<and> r_faults s' = r_faults s \<and> g_spid s' = g_spid s \<and> g_tltUuid s' = g_tltUuid s
     \<and> (ok \<longrightarrow> unat (mappedSize (r_cmt s)) \<le> length (hblock s (mbuf s)) \<longrightarrow> unat n \<le> length (hblock s' (mbuf s')))"
  proof (cases "mappedSize (r_cmt s) < n")
    case False
    with assms(1) show ?thesis by (auto simp: ensureMappedBufferSize_def word_less_nat_alt)
  next
    case bigger: True
    show ?thesis
    proof (cases "q = 0")
      case True
      then have "s' = r_note (AllocFailed (unat n)) s" "\<not> ok"
        using realloc_failed [OF _ assms(2) m, of W "unat n" s1] r assms(1) bigger
        by (auto simp: ensureMappedBufferSize_def Let_def)
      then show ?thesis by (simp add: same_shape_keeps)
    next
      case False
      note ok = realloc_ok [OF r False assms(2) m]
      have s': "s' = s1\<lparr>r_cmt := (r_cmt s1)\<lparr>mappedP := q\<rparr>\<rparr>" "ok"
        using assms(1) r bigger False by (auto simp: ensureMappedBufferSize_def)
      have "length (hblock s1 p) = length (hblock s p)" if "p \<in> blocks s" "p \<noteq> mappedP (r_cmt s)" for p
        using realloc_other [OF r assms(2) m that] by simp
      then have "keeps s s'"
        using ok frame s' bigger unfolding keeps_def mbuf_def by (auto simp: word_less_nat_alt)
      then show ?thesis using ok frame s' by (auto simp: mbuf_def)
    qed
  qed
  from all show "keeps s s'" "r_faults s' = r_faults s" "g_spid s' = g_spid s" "g_tltUuid s' = g_tltUuid s"
    "ok \<Longrightarrow> unat (mappedSize (r_cmt s)) \<le> length (hblock s (mbuf s)) \<Longrightarrow> unat n \<le> length (hblock s' (mbuf s'))"
    by blast+
qed

text \<open>
  \<open>chan_ok\<close> is the state between the operations on one command: the TCI buffer and the mapped
  buffer are live and distinct and as large as the code takes them to be.
\<close>

definition chan_ok :: "rworld \<Rightarrow> rstate \<Rightarrow> bool" where
  "chan_ok W s = (heap_ok s \<and> mbuf s \<in> blocks s \<and> wsmP (r_cmt s) \<in> blocks s - {mbuf s}
     \<and> length (hblock s (wsmP (r_cmt s))) = csize (cmp_t (rw_ps W))
     \<and> unat (mappedSize (r_cmt s)) \<le> length (hblock s (mbuf s)))"

definition pointer_width :: "rworld \<Rightarrow> bool" where
  "pointer_width W = (rw_ps W = 4 \<or> rw_ps W = 8)"

definition registry_sound :: "rworld \<Rightarrow> bool" where
  "registry_sound W = (\<forall>ev c. unat (snd (rw_regdata W ev c)) \<le> 4096)"

lemma chan_ok_keeps: "chan_ok W s \<Longrightarrow> keeps s s' \<Longrightarrow> chan_ok W s'"
  unfolding chan_ok_def keeps_def by (elim conjE) (auto dest!: bspec)

lemma same_shape_chan_ok: "chan_ok W s \<Longrightarrow> same_shape s s' \<Longrightarrow> chan_ok W s'"
  by (rule chan_ok_keeps [OF _ same_shape_keeps])

lemma in_block_poke: "in_block s p off (length bs) \<Longrightarrow> r_faults (poke p off bs s) = r_faults s"
  by (simp add: poke_def touch_def)

lemma touch_faults: "in_block s p off n \<Longrightarrow> r_faults (touch p off n s) = r_faults s"
  by (simp add: touch_def)

lemma in_block_cong [simp]:
  "in_block (poke p off bs s) q o1 n1 = in_block s q o1 n1"
  "in_block (touch p off n s) q o1 n1 = in_block s q o1 n1"
  by (simp_all add: in_block_def)

lemma length_peek [simp]: "length (peek s p off n) = n"
  by (simp add: peek_def)

lemma setCmdElementInfo_faults:
  assumes "setCmdElementInfo W i wsm off len s = (i', off', s')" "pointer_width W" "unat i \<le> 3"
    "wsm \<in> blocks s" "length (hblock s wsm) = csize (cmp_t (rw_ps W))"
  shows "r_faults s' = r_faults s" "unat i' \<le> unat i + 1"
proof -
  have i: "i \<noteq> 0 \<Longrightarrow> unat (i - 1) \<le> 2" using assms(3) by (simp add: unat_minus_one)
  have i1: "unat (i + 1) \<le> unat i + 1" by (simp add: unat_word_ariths)
  show "r_faults s' = r_faults s" "unat i' \<le> unat i + 1"
    using assms i i1 unfolding pointer_width_def
    by (auto simp: setCmdElementInfo_def Let_def in_block_poke in_block_def cmd_header_offsets split: if_splits)
qed

section \<open>Appending a container\<close>

text \<open>Work done between reading a container and freeing its buffer.\<close>

lemma keeps_temp:
  assumes "regRead W c s = (r, p, n, s1)" "heap_ok s" "mbuf s \<in> blocks s" "keeps s1 t"
  shows "keeps s (free_ptr p t)" "r_faults (free_ptr p t) = r_faults t"
    "p \<noteq> 0 \<Longrightarrow> p \<in> blocks t - {mbuf t}" "p \<noteq> 0 \<Longrightarrow> length (hblock t p) = 4096"
    "heap_ok s1" "mbuf s1 = mbuf s" "mbuf s1 \<in> blocks s1"
proof -
  note rr = regRead_spec [OF assms(1,2)]
  show h1: "heap_ok s1" "mbuf s1 = mbuf s" "mbuf s1 \<in> blocks s1"
    using rr(1,2,7) assms(3) by (auto simp: mbuf_def split: if_splits)
  have k: "heap_ok t" "mbuf t \<in> blocks t" "blocks t - {mbuf t} = blocks s1 - {mbuf s}"
      "wsmP (r_cmt t) = wsmP (r_cmt s)" "mappedSize (r_cmt t) = mappedSize (r_cmt s)" "g_handle t = g_handle s"
    using assms(4) h1 rr(2,3) unfolding keeps_def by auto
  have len: "length (hblock t q) = length (hblock s1 q)" if "q \<in> blocks s1" "q \<noteq> mbuf s" for q
    using assms(4) h1 that unfolding keeps_def by auto
  have p0: "0 \<notin> blocks t" using heap_ok_fresh [OF k(1)] by simp
  show pt: "p \<in> blocks t - {mbuf t}" if "p \<noteq> 0"
    using k(3) rr(7) assms(3) that by auto
  show "length (hblock t p) = 4096" if "p \<noteq> 0"
    using len [of p] rr(7) assms(3) that by auto
  show "r_faults (free_ptr p t) = r_faults t"
    using pt by (cases "p = 0") simp_all
  have size: "unat (mappedSize (r_cmt s)) \<le> length (hblock t (mbuf t))"
    if "unat (mappedSize (r_cmt s)) \<le> length (hblock s (mbuf s))"
    using assms(4) h1 that rr(2,9) assms(3) unfolding keeps_def by auto
  have others: "length (hblock t q) = length (hblock s q)" if "q \<in> blocks s" "q \<noteq> mbuf s" for q
  proof -
    have "q \<in> blocks s1" using rr(7) that(1) by (auto split: if_splits)
    then show ?thesis using len that rr(9) by simp
  qed
  have diff: "blocks t - {p} - {mbuf t} = blocks s - {mbuf s}"
    using k(3) rr(7) p0 heap_ok_fresh(2) [OF assms(2)] by (cases "p = 0") auto
  show "keeps s (free_ptr p t)"
    unfolding keeps_def
  proof (intro impI conjI)
    show "heap_ok (free_ptr p t)" using k by simp
    show "mbuf (free_ptr p t) \<in> blocks (free_ptr p t)"
      using k pt p0 by (cases "p = 0") (auto simp: mbuf_def)
    show "blocks (free_ptr p t) - {mbuf (free_ptr p t)} = blocks s - {mbuf s}"
      using k(1) diff by (simp add: mbuf_def)
    show "\<forall>q\<in>blocks s - {mbuf s}. length (hblock (free_ptr p t) q) = length (hblock s q)"
      using others rr(7) by (auto split: if_splits)
    show "unat (mappedSize (r_cmt s)) \<le> length (hblock (free_ptr p t) (mbuf (free_ptr p t)))"
      if "unat (mappedSize (r_cmt s)) \<le> length (hblock s (mbuf s))"
      using size [OF that] pt by (auto simp: mbuf_def)
  qed (use k in simp_all)
qed

lemma chan_ok_regRead:
  assumes "regRead W c s = (r, p, n, s1)" "chan_ok W s"
  shows "chan_ok W s1"
proof -
  have h: "heap_ok s" using assms(2) by (simp add: chan_ok_def)
  note rr = regRead_spec [OF assms(1) h]
  show ?thesis
    using assms(2) rr(1,2,7,9) unfolding chan_ok_def mbuf_def by (auto split: if_splits)
qed

text \<open>The copy of a container into the mapped buffer and its entry in the command header.\<close>

lemma append_container_faults:
  assumes "ensureMappedBufferSize W (off + n) s1 = (True, s2)" "chan_ok W s1"
    and "setCmdElementInfo W i (wsmP (r_cmt s2)) off n
           (poke (mbuf s2) (unat off) (peek s2 p 0 (unat n)) (touch p 0 (unat n) s2)) = (i', off', t)"
    and "p \<in> blocks s1 - {mbuf s1}" "length (hblock s1 p) = 4096" "unat n \<le> 4096"
    and "pointer_width W" "unat i \<le> 3" "unat off + 4096 < 2 ^ 32"
  shows "r_faults t = r_faults s1 \<and> unat i' \<le> unat i + 1 \<and> unat off' \<le> unat off + 4096"
proof -
  have h: "heap_ok s1" "mbuf s1 \<in> blocks s1" "unat (mappedSize (r_cmt s1)) \<le> length (hblock s1 (mbuf s1))"
    using assms(2) by (auto simp: chan_ok_def)
  note e = ensure_spec [OF assms(1) h(1,2)]
  have k: "blocks s2 - {mbuf s2} = blocks s1 - {mbuf s1}" "mbuf s2 \<in> blocks s2" "chan_ok W s2"
      "length (hblock s2 p) = length (hblock s1 p)"
    using e(1) h assms(2,4) chan_ok_keeps [OF assms(2) e(1)] unfolding keeps_def by auto
  have sum: "unat (off + n) = unat off + unat n"
    using assms(6,9) by (intro unat_plus_no_wrap) simp
  have p2: "p \<in> blocks s2" using k(1) assms(4) by auto
  have f1: "r_faults (touch p 0 (unat n) s2) = r_faults s1"
    using p2 k(4) assms(5,6) e(2) by (simp add: touch_faults in_block_def)
  have room: "unat off + unat n \<le> length (hblock s2 (mbuf s2))"
    using e(3) h(3) sum by simp
  define u where "u = poke (mbuf s2) (unat off) (peek s2 p 0 (unat n)) (touch p 0 (unat n) s2)"
  have f2: "r_faults u = r_faults s1"
    unfolding u_def using f1 room k(2) by (subst in_block_poke) (auto simp: in_block_def)
  have "wsmP (r_cmt s2) \<in> blocks u" "length (hblock u (wsmP (r_cmt s2))) = csize (cmp_t (rw_ps W))"
    using k(3) by (auto simp: chan_ok_def u_def)
  then have "r_faults t = r_faults u" "unat i' \<le> unat i + 1"
    using setCmdElementInfo_faults [OF assms(3) [folded u_def] assms(7,8)] by auto
  moreover have "unat off' \<le> unat off + 4096"
    using assms(3,6) sum by (auto simp: setCmdElementInfo_def Let_def split: if_splits)
  ultimately show ?thesis using f2 by simp
qed

lemma addContainer_cases:
  assumes "addContainer W c (i, off, s) = (ret, mcRet, i', off', s')" "heap_ok s" "mbuf s \<in> blocks s"
  obtains p n s1 t where "regRead W c s = (mcRet, p, n, s1)" "keeps s1 t" "s' = free_ptr p t"
    "registry_sound W \<Longrightarrow> chan_ok W s \<Longrightarrow> pointer_width W \<Longrightarrow> unat i \<le> 3 \<Longrightarrow> unat off + 4096 < 2 ^ 32
       \<Longrightarrow> r_faults t = r_faults s1 \<and> unat i' \<le> unat i + 1 \<and> unat off' \<le> unat off + 4096"
proof -
  obtain r p n s1 where r: "regRead W c s = (r, p, n, s1)" by (metis prod_cases4)
  note rr = regRead_spec [OF r assms(2)]
  show ?thesis
  proof (cases "r = MC_DRV_OK")
    case False
    with assms(1) r have "s' = free_ptr p s1" "mcRet = r" "i' = i" "off' = off"
      by (auto simp: addContainer_def split: if_splits)
    then show ?thesis using r by (intro that [of p n s1 s1]) auto
  next
    case True
    obtain ok s2 where e: "ensureMappedBufferSize W (off + n) s1 = (ok, s2)" by force
    have h1: "heap_ok s1" "mbuf s1 \<in> blocks s1"
      using rr(1,2,7) assms(3) by (auto simp: mbuf_def split: if_splits)
    note es = ensure_spec [OF e h1]
    show ?thesis
    proof (cases ok)
      case False
      with assms(1) r True e have "s' = free_ptr p s2" "mcRet = r" "i' = i" "off' = off"
        by (auto simp: addContainer_def split: if_splits)
      then show ?thesis using r es by (intro that [of p n s1 s2]) auto
    next
      case ok: True
      define u where "u = poke (mbuf s2) (unat off) (peek s2 p 0 (unat n)) (touch p 0 (unat n) s2)"
      obtain i2 off2 t where c: "setCmdElementInfo W i (wsmP (r_cmt s2)) off n u = (i2, off2, t)"
        by (metis prod_cases3)
      have s': "s' = free_ptr p t" "mcRet = r" "i' = i2" "off' = off2"
        using assms(1) r True e ok c by (auto simp: addContainer_def u_def mbuf_def Let_def split: if_splits)
      have "same_shape s2 u" unfolding u_def by (rule same_shape_trans [OF same_shape_basic(1) same_shape_basic(2)])
      then have "keeps s1 t"
        using es(1) same_shape_setCmd(1) [OF c] by (blast intro: keeps_trans same_shape_keeps)
      moreover have "r_faults t = r_faults s1 \<and> unat i' \<le> unat i + 1 \<and> unat off' \<le> unat off + 4096"
        if "registry_sound W" "chan_ok W s" "pointer_width W" "unat i \<le> 3" "unat off + 4096 < 2 ^ 32"
      proof -
        have "p \<noteq> 0" using rr(8) True by auto
        then have "p \<in> blocks s1 - {mbuf s1}" "length (hblock s1 p) = 4096"
          using rr(2,7) assms(3) by (auto simp: mbuf_def)
        moreover have "unat n \<le> 4096"
          using regRead_size [OF r] that(1) by (simp add: registry_sound_def)
        ultimately show ?thesis
          using append_container_faults [OF _ chan_ok_regRead [OF r that(2)] c [unfolded u_def]] e ok that s'
          by auto
      qed
      ultimately show ?thesis using r s' by (intro that [of p n s1 t]) auto
    qed
  qed
qed

lemma addContainer_keeps:
  assumes "addContainer W c (i, off, s) = (ret, mcRet, i', off', s')"
  shows "keeps s s'"
proof -
  have "keeps s s'" if h: "heap_ok s" "mbuf s \<in> blocks s"
    using addContainer_cases [OF assms h] keeps_temp(1) [OF _ h] by metis
  then show ?thesis unfolding keeps_def by blast
qed

lemma addContainer_faults:
  assumes "addContainer W c (i, off, s) = (ret, mcRet, i', off', s')"
    and "registry_sound W" "chan_ok W s" "pointer_width W" "unat i \<le> 3" "unat off + 4096 < 2 ^ 32"
  shows "r_faults s' = r_faults s" "unat i' \<le> unat i + 1" "unat off' \<le> unat off + 4096"
proof -
  have h: "heap_ok s" "mbuf s \<in> blocks s" using assms(3) by (auto simp: chan_ok_def)
  obtain p n s1 t where o: "regRead W c s = (mcRet, p, n, s1)" "keeps s1 t" "s' = free_ptr p t"
      "r_faults t = r_faults s1 \<and> unat i' \<le> unat i + 1 \<and> unat off' \<le> unat off + 4096"
    using addContainer_cases [OF assms(1) h] assms(2-6) by metis
  then show "r_faults s' = r_faults s" "unat i' \<le> unat i + 1" "unat off' \<le> unat off + 4096"
    using keeps_temp(2) [OF o(1) h o(2)] regRead_spec(4) [OF o(1) h(1)] by auto
qed
section \<open>Preparing a command keeps the channel\<close>

lemmas add_wrappers = addAuthTokenContainer_def addRootContainer_def addSpContainer_def addTltContainer_def

abbreviation (input) drop_place :: "u32 \<times> u32 \<times> u32 \<times> u32 \<times> rstate \<Rightarrow> u32 \<times> u32 \<times> rstate" where
  "drop_place \<equiv> \<lambda>(ret, mcRet, _, _, s). (ret, mcRet, s)"

lemma add_result_keeps:
  assumes "drop_place (addContainer W c (i, off, s1)) = (ret, mcRet, s')" "same_shape s s1"
  shows "keeps s s'"
proof -
  obtain a b i' o' t where a: "addContainer W c (i, off, s1) = (a, b, i', o', t)" by (metis prod_cases5)
  then have "keeps s1 t" by (rule addContainer_keeps)
  then have "keeps s t" by (rule keeps_trans [OF same_shape_keeps [OF assms(2)]])
  then show ?thesis using assms(1) a by auto
qed

lemma same_shape_ids:
  "same_shape s t \<Longrightarrow> same_shape s (keep_spid T p t)"
  "same_shape s t \<Longrightarrow> same_shape s (keep_uuid T p t)"
  "same_shape s t \<Longrightarrow> same_shape s (touch p off n t)"
  "same_shape s t \<Longrightarrow> same_shape s (callback st t)"
  by (simp_all add: same_shape_trans [of s t])

lemma prepare_begin_sp_keeps:
  assumes "(let (ret, mcRet, index, offset, s) = addRootContainer W (i, off, s) in
         if ROOTPA_OK = ret then
           let o1 = offsetof cmpCmdBeginSpAuthentication_t [''cmd'', ''spid''];
               spid = peek32 s outP o1;
               s = touch outP o1 4 s
           in drop_place (addSpContainer W spid (index, offset, s))
         else (ret, mcRet, s)) = (ret, mcRet, s')"
  shows "keeps s s'"
proof -
  obtain a b i1 o1 t where a: "addContainer W RootCont (i, off, s) = (a, b, i1, o1, t)" by (metis prod_cases5)
  note k = addContainer_keeps [OF a]
  show ?thesis
  proof (cases "a = ROOTPA_OK")
    case False
    then show ?thesis using assms a k by (auto simp: add_wrappers)
  next
    case True
    with assms a have "drop_place (addContainer W (SpCont (peek32 t outP 12)) (i1, o1, touch outP 12 4 t)) = (ret, mcRet, s')"
      by (auto simp: add_wrappers Let_def)
    then have "keeps t s'" by (rule add_result_keeps) simp
    with k show ?thesis by (rule keeps_trans)
  qed
qed

lemma prepare_switch_keeps:
  assumes "prepare_switch W c outP (i, off, s) = (ret, mcRet, s')"
  shows "keeps s s'"
proof (cases "c = MC_CMP_CMD_BEGIN_SP_AUTHENTICATION")
  case True
  with assms show ?thesis
    by (intro prepare_begin_sp_keeps [of W i off s outP ret mcRet s']) (simp add: prepare_switch_def)
next
  case False
  with assms show ?thesis
    unfolding prepare_switch_def Let_def add_wrappers sdata_uuid_def sdata_spid_def prod.case
    by (auto intro!: same_shape_keeps same_shape_ids elim!: add_result_keeps simp del: split_paired_All split: if_splits)
qed

section \<open>Preparing a command touches only live memory\<close>

text \<open>
  The command structures are read through the pointer the mapped buffer had when \<open>prepareCommand\<close>
  was entered. \<open>no_move\<close> says that \<^verbatim>\<open>realloc\<close> grows buffers in place.
\<close>

definition no_move :: "rworld \<Rightarrow> bool" where
  "no_move W = (\<forall>ev p n bs. rw_realloc W ev p n \<noteq> Some (True, bs))"

definition carries_ids :: "u32 \<Rightarrow> bool" where
  "carries_ids c = (c = 3 \<or> 12 \<le> c \<and> c \<le> 26)"

lemma ensure_no_move:
  assumes "ensureMappedBufferSize W n s = (ok, s')" "no_move W" "mbuf s \<in> blocks s"
  shows "mbuf s' = mbuf s"
proof (cases "mappedSize (r_cmt s) < n")
  case True
  obtain q s1 where r: "realloc W (mappedP (r_cmt s)) (unat n) s = (q, s1)" by force
  have "q = 0 \<or> q = mappedP (r_cmt s)"
    using r assms(2,3) by (auto simp: realloc_def no_move_def mbuf_def split: option.splits if_splits)
  then show ?thesis
    using assms(1) True r realloc_frame(1) [OF r] by (auto simp: ensureMappedBufferSize_def mbuf_def split: if_splits)
qed (use assms(1) in \<open>simp add: ensureMappedBufferSize_def\<close>)

lemma addContainer_no_move:
  assumes "addContainer W c (i, off, s) = (ret, mcRet, i', off', s')" "no_move W" "heap_ok s" "mbuf s \<in> blocks s"
  shows "mbuf s' = mbuf s"
proof -
  obtain r p n s1 where r: "regRead W c s = (r, p, n, s1)" by (metis prod_cases4)
  obtain ok s2 where e: "ensureMappedBufferSize W (off + n) s1 = (ok, s2)" by force
  have m1: "mbuf s1 = mbuf s" using regRead_spec(2) [OF r assms(3)] by (simp add: mbuf_def)
  have "mbuf s1 \<in> blocks s1" using regRead_spec(7) [OF r assms(3)] assms(4) m1 by (auto split: if_splits)
  then have "mbuf s2 = mbuf s" "mbuf s1 = mbuf s" using ensure_no_move [OF e assms(2)] m1 by simp_all
  then show ?thesis
    using assms(1) r e same_shape_setCmd(1)
    by (auto simp: addContainer_def mbuf_def same_shape_def Let_def split: if_splits prod.splits)
qed

lemma add_result_faults:
  assumes "drop_place (addContainer W c (i, off, s1)) = (ret, mcRet, s')"
    and "registry_sound W" "chan_ok W s1" "pointer_width W" "unat i \<le> 3" "unat off + 4096 < 2 ^ 32"
  shows "r_faults s' = r_faults s1"
proof -
  obtain a b i' o' t where "addContainer W c (i, off, s1) = (a, b, i', o', t)" by (metis prod_cases5)
  with addContainer_faults(1) [OF this assms(2-6)] assms(1) show ?thesis by simp
qed

lemma ids_faults:
  assumes "chan_ok W s" "32 \<le> unat (mappedSize (r_cmt s))"
  shows "in_block s (mbuf s) 12 4" "in_block s (mbuf s) 16 16"
  using assms by (auto simp: in_block_def chan_ok_def)

lemma prepare_begin_sp_faults:
  assumes "prepare_switch W MC_CMP_CMD_BEGIN_SP_AUTHENTICATION (mbuf s) (i, off, s) = (ret, mcRet, s')"
    and "registry_sound W" "chan_ok W s" "pointer_width W" "unat i \<le> 2" "unat off + 8192 < 2 ^ 32"
    and "32 \<le> unat (mappedSize (r_cmt s))" "no_move W"
  shows "r_faults s' = r_faults s"
proof -
  obtain a b i1 o1 t where a: "addContainer W RootCont (i, off, s) = (a, b, i1, o1, t)" by (metis prod_cases5)
  have h: "heap_ok s" "mbuf s \<in> blocks s" using assms(3) by (auto simp: chan_ok_def)
  have "unat i \<le> 3" "unat off + 4096 < 2 ^ 32" using assms(5,6) by auto
  note f = addContainer_faults [OF a assms(2,3,4) this]
  note k = addContainer_keeps [OF a]
  have t: "chan_ok W t" "mbuf t = mbuf s" "mappedSize (r_cmt t) = mappedSize (r_cmt s)"
    using chan_ok_keeps [OF assms(3) k] addContainer_no_move [OF a assms(8) h] k assms(3)
    by (auto simp: keeps_def chan_ok_def)
  show ?thesis
  proof (cases "a = ROOTPA_OK")
    case False
    then show ?thesis using assms(1) a f by (auto simp: prepare_switch_def add_wrappers)
  next
    case True
    with assms(1) a have g: "drop_place (addContainer W (SpCont (peek32 t (mbuf s) 12)) (i1, o1, touch (mbuf s) 12 4 t)) = (ret, mcRet, s')"
      by (auto simp: prepare_switch_def add_wrappers Let_def)
    have "chan_ok W (touch (mbuf s) 12 4 t)" by (rule same_shape_chan_ok [OF t(1)]) simp
    then have "r_faults s' = r_faults (touch (mbuf s) 12 4 t)"
      using f(2,3) assms(5,6) by (intro add_result_faults [OF g assms(2) _ assms(4)]) auto
    also have "\<dots> = r_faults t"
      using ids_faults(1) [OF t(1)] t assms(7) by (simp add: touch_faults)
    finally show ?thesis using f(1) by simp
  qed
qed

text \<open>Steps that neither change the shape nor misuse a pointer.\<close>

definition quiet :: "rstate \<Rightarrow> rstate \<Rightarrow> bool" where
  "quiet s t = (same_shape s t \<and> r_faults t = r_faults s)"

lemma same_shape_in_block: "same_shape s t \<Longrightarrow> in_block t p off n = in_block s p off n"
  by (simp add: same_shape_def in_block_def)

lemma quiet_refl [simp]: "quiet s s"
  by (simp add: quiet_def)

lemma quiet_steps:
  assumes "quiet s t"
  shows "quiet s (callback st t)"
    "in_block s p off n \<Longrightarrow> quiet s (touch p off n t)"
    "in_block s p (offsetof T [''cmd'', ''sdata'', ''spid'']) 4 \<Longrightarrow> quiet s (keep_spid T p t)"
    "in_block s p (offsetof T [''cmd'', ''sdata'', ''uuid'']) 16 \<Longrightarrow> quiet s (keep_uuid T p t)"
proof -
  have q: "same_shape s t" "r_faults t = r_faults s" using assms by (auto simp: quiet_def)
  note [simp] = same_shape_in_block [OF q(1)] q(2)
  show "quiet s (callback st t)"
    using q by (simp add: quiet_def same_shape_ids) (simp add: callback_def)
  show "quiet s (touch p off n t)" if "in_block s p off n"
    using q that by (simp add: quiet_def same_shape_ids touch_faults)
  show "quiet s (keep_spid T p t)" if "in_block s p (offsetof T [''cmd'', ''sdata'', ''spid'']) 4"
    using q that by (simp add: quiet_def same_shape_ids) (simp add: keep_spid_def sdata_spid_def Let_def touch_faults)
  show "quiet s (keep_uuid T p t)" if "in_block s p (offsetof T [''cmd'', ''sdata'', ''uuid'']) 16"
    using q that by (simp add: quiet_def same_shape_ids) (simp add: keep_uuid_def sdata_uuid_def Let_def touch_faults)
qed

lemma add_result_quiet:
  assumes "drop_place (addContainer W c (i, off, t)) = (ret, mcRet, s')" "quiet s t"
    and "registry_sound W" "chan_ok W s" "pointer_width W" "unat i \<le> 2" "unat off + 8192 < 2 ^ 32"
  shows "r_faults s' = r_faults s"
proof -
  have "chan_ok W t" using assms(2,4) same_shape_chan_ok by (auto simp: quiet_def)
  then have "r_faults s' = r_faults t"
    using assms(6,7) by (intro add_result_faults [OF assms(1,3) _ assms(5)]) auto
  then show ?thesis using assms(2) by (simp add: quiet_def)
qed

lemma quiet_faults: "quiet s t \<Longrightarrow> r_faults t = r_faults s"
  by (simp add: quiet_def)

lemma prepare_switch_faults:
  assumes "prepare_switch W c (mbuf s) (i, off, s) = (ret, mcRet, s')"
    and "registry_sound W" "chan_ok W s" "pointer_width W" "unat i \<le> 2" "unat off + 8192 < 2 ^ 32"
    and "carries_ids c \<Longrightarrow> 32 \<le> unat (mappedSize (r_cmt s))" "c = 3 \<Longrightarrow> no_move W"
  shows "r_faults s' = r_faults s"
proof (cases "c = 3")
  case True
  with assms show ?thesis by (intro prepare_begin_sp_faults) (auto simp: carries_ids_def)
next
  case not3: False
  note add = add_result_quiet [OF _ _ assms(2-6)]
  show ?thesis
  proof (cases "carries_ids c")
    case True
    note ib = ids_faults [OF assms(3) assms(7) [OF True]]
    show ?thesis
      using assms(1) not3 ib
      unfolding prepare_switch_def Let_def add_wrappers sdata_uuid_def sdata_spid_def prod.case
      by (auto intro!: quiet_faults quiet_steps elim!: add simp del: split_paired_All split: if_splits)
  next
    case False
    then show ?thesis
      using assms(1) not3
      unfolding prepare_switch_def Let_def add_wrappers sdata_uuid_def sdata_spid_def prod.case carries_ids_def
      by (auto intro!: quiet_faults quiet_steps elim!: add simp del: split_paired_All split: if_splits)
  qed
qed

text \<open>Writing the command header stays inside the TCI buffer.\<close>

lemma header_quiet:
  fixes c :: u32
  assumes "chan_ok W s" "pointer_width W"
  defines "wsm \<equiv> wsmP (r_cmt s)"
  defines "s1 \<equiv> setCmdCmpVersionAndCmdId W wsm c (setCmdMapInfo W wsm (mapInfo (r_cmt s))
                   (poke wsm 0 (replicate (unat (sizeOfCmp W)) 0) s))"
  shows "quiet s s1"
proof -
  have wsm: "wsm \<in> blocks s" "length (hblock s wsm) = csize (cmp_t (rw_ps W))"
    using assms(1) by (auto simp: chan_ok_def wsm_def)
  have "same_shape s s1"
    unfolding s1_def by (blast intro: same_shape_trans same_shape_setCmd same_shape_basic)
  moreover have "r_faults s1 = r_faults s"
    using assms(2) wsm unfolding s1_def pointer_width_def
    by (auto simp: setCmdCmpVersionAndCmdId_def setCmdMapInfo_def sizeOfCmp_def Let_def in_block_poke
        in_block_def cmd_header_offsets)
  ultimately show ?thesis by (simp add: quiet_def)
qed

lemma ensure_small:
  "unat n \<le> unat (mappedSize (r_cmt s)) \<Longrightarrow> ensureMappedBufferSize W n s = (True, s)"
  by (simp add: ensureMappedBufferSize_def word_less_nat_alt)

lemma prepareCommand_keeps:
  assumes "prepareCommand W c inC rsp s = (ret, rsp', s')"
  shows "keeps s s'"
proof -
  let ?wsm = "wsmP (r_cmt s)"
  define s1 where "s1 = setCmdCmpVersionAndCmdId W ?wsm c (setCmdMapInfo W ?wsm (mapInfo (r_cmt s))
                   (poke ?wsm 0 (replicate (unat (sizeOfCmp W)) 0) s))"
  obtain i o1 s2 where e1: "setCmdElementInfo W 1 ?wsm 0 (cm_length inC) s1 = (i, o1, s2)" by (metis prod_cases3)
  obtain ok s3 where e2: "ensureMappedBufferSize W (cm_length inC) s2 = (ok, s3)" by force
  have "same_shape s s2"
    unfolding s1_def using same_shape_setCmd(1) [OF e1] unfolding s1_def
    by (blast intro: same_shape_trans same_shape_setCmd same_shape_basic)
  then have k2: "keeps s s2" by (rule same_shape_keeps)
  have k3: "keeps s2 s3" using ensure_spec(1) [OF e2] unfolding keeps_def by blast
  show ?thesis
  proof (cases ok)
    case False
    with assms e1 e2 k2 k3 show ?thesis
      by (auto simp: prepareCommand_def s1_def Let_def intro: keeps_trans)
  next
    case True
    define u where "u = poke (mbuf s3) 0 (peek s3 (contentP inC) 0 (unat (cm_length inC)))
        (touch (contentP inC) 0 (unat (cm_length inC)) s3)"
    obtain r m where sw: "prepare_switch W c (mbuf s) (i, o1, u) = (r, m, s')"
      using assms e1 e2 True
      by (auto simp: prepareCommand_def s1_def u_def mbuf_def Let_def split: prod.splits)
    have "same_shape s3 u" unfolding u_def by (rule same_shape_trans [OF same_shape_basic(1,2)])
    then show ?thesis
      using k2 k3 prepare_switch_keeps [OF sw] by (blast intro: keeps_trans same_shape_keeps)
  qed
qed

lemma prepareCommand_memory:
  assumes "prepareCommand W c inC rsp s = (ret, rsp', s')"
    and "chan_ok W s" "pointer_width W" "registry_sound W"
    and "in_block s (contentP inC) 0 (unat (cm_length inC))" "unat (cm_length inC) < 2 ^ 31"
    and "unat (cm_length inC) \<le> unat (mappedSize (r_cmt s))"
    and "carries_ids c \<longrightarrow> 32 \<le> unat (mappedSize (r_cmt s))"
    and "c = MC_CMP_CMD_BEGIN_SP_AUTHENTICATION \<longrightarrow> no_move W"
  shows "r_faults s' = r_faults s \<and> chan_ok W s' \<and> blocks s' - {mappedP (r_cmt s')} = blocks s - {mappedP (r_cmt s)}"
proof -
  let ?wsm = "wsmP (r_cmt s)" and ?n = "unat (cm_length inC)"
  define s1 where "s1 = setCmdCmpVersionAndCmdId W ?wsm c (setCmdMapInfo W ?wsm (mapInfo (r_cmt s))
                   (poke ?wsm 0 (replicate (unat (sizeOfCmp W)) 0) s))"
  have q1: "quiet s s1" unfolding s1_def by (rule header_quiet [OF assms(2,3)])
  obtain i o1 s2 where e1: "setCmdElementInfo W 1 ?wsm 0 (cm_length inC) s1 = (i, o1, s2)" by (metis prod_cases3)
  have ws1: "?wsm \<in> blocks s1" "length (hblock s1 ?wsm) = csize (cmp_t (rw_ps W))"
    using q1 assms(2) by (auto simp: quiet_def same_shape_def chan_ok_def)
  have "r_faults s2 = r_faults s1" "unat i \<le> 2"
    using setCmdElementInfo_faults [OF e1 assms(3) _ ws1] by auto
  moreover have o1: "unat o1 + 8192 < 2 ^ 32"
    using e1 assms(6) by (auto simp: setCmdElementInfo_def Let_def split: if_splits)
  ultimately have q2: "quiet s s2" and i: "unat i \<le> 2"
    using q1 same_shape_setCmd(1) [OF e1] by (auto simp: quiet_def intro: same_shape_trans)
  have cmt2: "r_cmt s2 = r_cmt s" using q2 by (simp add: quiet_def same_shape_def)
  have e2: "ensureMappedBufferSize W (cm_length inC) s2 = (True, s2)"
    using assms(7) cmt2 by (intro ensure_small) simp
  define u where "u = poke (mbuf s2) 0 (peek s2 (contentP inC) 0 ?n) (touch (contentP inC) 0 ?n s2)"
  have ss: "same_shape s u"
    unfolding u_def using q2 unfolding quiet_def by (blast intro: same_shape_trans same_shape_basic)
  have ib: "in_block s2 (contentP inC) 0 ?n" "in_block s2 (mbuf s2) 0 ?n"
    using q2 assms(2,5,7) cmt2 unfolding quiet_def
    by (auto simp: same_shape_in_block mbuf_def) (auto simp: in_block_def chan_ok_def mbuf_def)
  have fu: "r_faults u = r_faults s"
    using q2 ib unfolding u_def by (subst in_block_poke) (auto simp: quiet_def touch_faults)
  obtain r m where sw: "prepare_switch W c (mbuf s) (i, o1, u) = (r, m, s')"
    using assms(1) e1 e2 cmt2
    by (auto simp: prepareCommand_def s1_def u_def mbuf_def Let_def split: prod.splits)
  have mu: "mbuf u = mbuf s" "r_cmt u = r_cmt s" using ss by (auto simp: same_shape_def mbuf_def)
  have "r_faults s' = r_faults u"
    using assms(3,4,8,9) i o1 mu
    by (intro prepare_switch_faults [OF sw [folded mu(1)] _ same_shape_chan_ok [OF assms(2) ss]]) auto
  moreover have k: "keeps s s'" by (rule prepareCommand_keeps [OF assms(1)])
  ultimately show ?thesis
    using fu chan_ok_keeps [OF assms(2) k] assms(2) unfolding keeps_def chan_ok_def mbuf_def by auto
qed

definition sample_cmd :: CmpMessage where
  "sample_cmd = \<lparr>cm_length = 24, contentP = 5, ignoreError = False, hdr_ret = 0, intRet = 0, hdr_id = 9\<rparr>"

definition sample_chan :: rstate where
  "sample_chan = rstart\<lparr>r_heap := [(5, replicate 24 13), (6, replicate 40 0), (7, replicate 64 0)], r_next := 8,
     r_cmt := (r_cmt rstart)\<lparr>wsmP := 6, mappedP := 7, mappedSize := 64\<rparr>, g_handle := 4\<rparr>"

lemma sample_chan_facts:
  "r_faults sample_chan = []" "heap_ok sample_chan" "blocks sample_chan = {5, 6, 7}"
  "r_cmt sample_chan = (r_cmt rstart)\<lparr>wsmP := 6, mappedP := 7, mappedSize := 64\<rparr>"
  "hblock sample_chan 5 = replicate 24 13" "hblock sample_chan 6 = replicate 40 0" "hblock sample_chan 7 = replicate 64 0"
  by (auto simp: sample_chan_def rstart_def heap_ok_def blocks_def hblock_def)

lemma calm_world_facts:
  "pointer_width calm_world" "registry_sound calm_world" "rw_ps calm_world = 4"
  by (simp_all add: pointer_width_def registry_sound_def calm_world_def)

lemma sample_chan_ok: "chan_ok calm_world sample_chan"
  by (simp add: chan_ok_def sample_chan_facts mbuf_def calm_world_facts cmd_header_offsets)


text \<open>
  What \<open>no_move\<close> is needed for: when the root container makes the mapped buffer grow and \<^verbatim>\<open>realloc\<close>
  moves it, BEGIN_SP_AUTHENTICATION reads the service provider identifier out of the freed block.
\<close>

theorem begin_sp_use_after_free:
  assumes "prepare_switch W MC_CMP_CMD_BEGIN_SP_AUTHENTICATION (mbuf s) (i, off, s) = (ret, mcRet, s')"
    and "chan_ok W s" "pointer_width W" "registry_sound W" "unat i \<le> 2" "unat off + 8192 < 2 ^ 32"
    and "\<And>ev n. rw_malloc W ev n \<noteq> None" "\<And>ev p n. \<exists>bs. rw_realloc W ev p n = Some (True, bs)"
    and "\<And>ev. rw_reg W ev (RegRead RootCont) = MC_DRV_OK"
    and "\<And>ev. mappedSize (r_cmt s) < off + snd (rw_regdata W ev RootCont)"
  shows "(mbuf s, 12, 4) \<in> set (r_faults s')"
proof -
  have h: "heap_ok s" "mbuf s \<in> blocks s" using assms(2) by (auto simp: chan_ok_def)
  obtain r p n s1 where r: "regRead W RootCont s = (r, p, n, s1)" by (metis prod_cases4)
  note rr = regRead_spec [OF r h(1)]
  obtain b where b: "rw_malloc W (r_ev s) 4096 = Some b" using assms(7) by blast
  have rv: "r = MC_DRV_OK" "p \<noteq> 0"
    using r b assms(9) heap_ok_fresh [OF h(1)]
    by (auto simp: regRead_def malloc_def Let_def split: prod.splits)
  then have n: "mappedSize (r_cmt s1) < off + n"
    using r assms(10) rr(2) by (auto simp: regRead_def Let_def split: prod.splits if_splits) (metis snd_conv)
  obtain bs where mv: "rw_realloc W (r_ev s1) (mappedP (r_cmt s1)) (unat (off + n)) = Some (True, bs)"
    using assms(8) by blast
  have h1: "heap_ok s1" "mbuf s \<in> blocks s1" "mappedP (r_cmt s1) = mbuf s"
    using rr(1,2,7) h rv(2) by (auto simp: mbuf_def)
  obtain s2 where e: "ensureMappedBufferSize W (off + n) s1 = (True, s2)" "mbuf s \<notin> blocks s2"
    using n mv h1 heap_ok_fresh [OF h1(1)]
    by (auto simp: ensureMappedBufferSize_def realloc_def)
  obtain i2 o2 t where c: "setCmdElementInfo W i (wsmP (r_cmt s2)) off n
      (poke (mbuf s2) (unat off) (peek s2 p 0 (unat n)) (touch p 0 (unat n) s2)) = (i2, o2, t)"
    by (metis prod_cases3)
  have a: "addContainer W RootCont (i, off, s) = (ROOTPA_OK, MC_DRV_OK, i2, o2, free_ptr p t)"
    using r rv e c by (simp add: addContainer_def mbuf_def)
  have "unat i \<le> 3" "unat off + 4096 < 2 ^ 32" using assms(5,6) by auto
  note f = addContainer_faults [OF a assms(4,2,3) this]
  have ct: "chan_ok W (free_ptr p t)" by (rule chan_ok_keeps [OF assms(2) addContainer_keeps [OF a]])
  define u where "u = touch (mbuf s) 12 4 (free_ptr p t)"
  have gone: "mbuf s \<notin> blocks (free_ptr p t)"
  proof -
    have "blocks t = blocks s2" using same_shape_setCmd(1) [OF c] by (simp add: same_shape_def)
    then show ?thesis using e(2) by (auto simp: free_ptr_def)
  qed
  have "(mbuf s, 12, 4) \<in> set (r_faults u)" using gone by (simp add: u_def touch_def in_block_def)
  moreover have g: "drop_place (addContainer W (SpCont (peek32 (free_ptr p t) (mbuf s) 12)) (i2, o2, u)) = (ret, mcRet, s')"
    using assms(1) a by (simp add: prepare_switch_def add_wrappers u_def Let_def)
  have "chan_ok W u" unfolding u_def by (rule same_shape_chan_ok [OF ct]) simp
  then have "r_faults s' = r_faults u"
    using f assms(5,6) by (intro add_result_faults [OF g assms(4) _ assms(3)]) auto
  ultimately show ?thesis by simp
qed

end
