(* ===== verification/Pacmp3Store.thy ===== *)
theory Pacmp3Store
  imports Pacmp3Prepare
begin

text \<open>
  Handling a response (\<^verbatim>\<open>handleResponse\<close> and \<^verbatim>\<open>storeContainers\<close>): the order in which containers
  reach the registry, the recovery when a step fails, and that a response whose elements do not
  wrap around 32 bits is copied and stored out of live memory only.
\<close>

section \<open>Storing containers: order and recovery\<close>

lemma regWrite_eq:
  "regWrite W c p off n s =
     (let r = rw_reg W (r_ev s) (RegStore c (peek s p off (unat n)))
      in (r, r_note (Reg (RegStore c (peek s p off (unat n))) r) (touch p off (unat n) s)))"
  by (simp add: regWrite_def Let_def)

text \<open>
  The parent container is written last. When a service provider container is registered, the
  two elements of the response are the root container and the new container. If either element is
  not acceptable nothing is written and the result is -1. Otherwise the new container is stored,
  from exactly the bytes of the second element; if the registry refuses it the root container is
  not touched and the refusal is returned; only after success is the root container stored from
  the bytes of the first element, and that result returned. Registering a trustlet container is
  the same one level down, and if storing the service provider container fails there, the
  trustlet container just stored is removed again.
\<close>

theorem registration_order:
  "list_all (\<lambda>c.
     let mp = mappedP (r_cmt s);
         (ok1, i2, o1, n1) = getRspElementInfo i h off 0 s;
         (ok2, _, o2, n2) = getRspElementInfo i2 h o1 0 s;
         child = RegStore (SpCont (g_spid s)) (peek s mp (unat o2) (unat n2));
         parent = RegStore RootCont (peek s mp (unat o1) (unat n1));
         (mcRet, s') = storeContainers W c h i off s
     in if \<not> (ok1 \<and> ok2) then mcRet = - 1 \<and> s' = s
        else (mcRet \<noteq> MC_DRV_OK \<and> r_ev s' = Reg child mcRet # r_ev s)
           \<or> r_ev s' = Reg parent mcRet # Reg child MC_DRV_OK # r_ev s)
     [MC_CMP_CMD_SP_CONT_REGISTER, MC_CMP_CMD_SP_CONT_REGISTER_ACTIVATE]
   \<and> list_all (\<lambda>c.
     let mp = mappedP (r_cmt s); tlt = TltCont (g_tltUuid s) (g_spid s);
         (ok1, i2, o1, n1) = getRspElementInfo i h off 0 s;
         (ok2, _, o2, n2) = getRspElementInfo i2 h o1 0 s;
         child = RegStore tlt (peek s mp (unat o2) (unat n2));
         parent = RegStore (SpCont (g_spid s)) (peek s mp (unat o1) (unat n1));
         (mcRet, s') = storeContainers W c h i off s
     in if \<not> (ok1 \<and> ok2) then mcRet = - 1 \<and> s' = s
        else (mcRet \<noteq> MC_DRV_OK \<and> r_ev s' = Reg child mcRet # r_ev s)
           \<or> (mcRet = MC_DRV_OK \<and> r_ev s' = Reg parent MC_DRV_OK # Reg child MC_DRV_OK # r_ev s)
           \<or> (mcRet \<noteq> MC_DRV_OK \<and> (\<exists>r. r_ev s' = Reg (RegCleanup tlt) r # Reg parent mcRet
                                          # Reg child MC_DRV_OK # r_ev s)))
     [MC_CMP_CMD_TLT_CONT_REGISTER, MC_CMP_CMD_TLT_CONT_REGISTER_ACTIVATE]"
proof -
  obtain ok1 i2 o1 n1 where e1: "getRspElementInfo i h off 0 s = (ok1, i2, o1, n1)" by (metis prod_cases4)
  obtain ok2 i3 o2 n2 where e2: "getRspElementInfo i2 h o1 0 s = (ok2, i3, o2, n2)" by (metis prod_cases4)
  note d = storeContainers_def reg_wrappers regWrite_eq regCleanup_def Let_def
  have pk: "peek (s'\<lparr>r_ev := ev\<rparr>) p a b = peek s' p a b" for s' ev p a b
    by (simp add: peek_def)
  show ?thesis
    using e1 e2 by (simp add: d store_sp_registration_def store_tlt_registration_def pk)
qed

fun reg_events :: "revent list \<Rightarrow> revent list" where
  "reg_events [] = []"
| "reg_events (Reg c r # es) = Reg c r # reg_events es"
| "reg_events (e # es) = reg_events es"

lemma reg_events_free [simp]: "reg_events (r_ev (free_ptr p s)) = reg_events (r_ev s)"
  by (simp add: free_ptr_def)

lemma regRead_events:
  assumes "regRead W c s = (r, p, n, s')"
  shows "if p = 0 then reg_events (r_ev s') = reg_events (r_ev s)
         else reg_events (r_ev s') = Reg (RegRead c) r # reg_events (r_ev s)"
proof -
  obtain p1 s1 where m: "malloc W 4096 s = (p1, s1)" by force
  show ?thesis
    using assms m
    by (cases rule: malloc_cases [OF m]) (auto simp: regRead_def Let_def split: prod.splits if_splits)
qed

lemma retire_auth_token_events:
  assumes "retire_auth_token W s = (mcRet, s')"
  shows "(mcRet = MC_DRV_OK \<and> (\<exists>rd. reg_events (r_ev s') = Reg (RegCleanup AuthToken) MC_DRV_OK # rd
            @ reg_events (r_ev s) \<and> length rd \<le> 1))
     \<or> (mcRet \<noteq> MC_DRV_OK \<and> reg_events (r_ev s') = Reg (RegCleanup AuthToken) mcRet # reg_events (r_ev s))
     \<or> (\<exists>buf rd del. del \<noteq> MC_DRV_OK \<and> mcRet \<noteq> MC_DRV_OK
           \<and> reg_events (r_ev s') = Reg (RegStore AuthToken buf) mcRet # Reg (RegCleanup AuthToken) del
               # Reg (RegRead AuthToken) rd # reg_events (r_ev s))
     \<or> (\<exists>buf rd del cl. del \<noteq> MC_DRV_OK \<and> mcRet = MC_DRV_OK
           \<and> reg_events (r_ev s') = Reg (RegCleanup RootCont) cl # Reg (RegStore AuthToken buf) MC_DRV_OK
               # Reg (RegCleanup AuthToken) del # Reg (RegRead AuthToken) rd # reg_events (r_ev s))"
proof -
  obtain r p n s1 where r: "regRead W AuthToken s = (r, p, n, s1)" by (metis prod_cases4)
  note ev = regRead_events [OF r]
  show ?thesis
  proof (cases "p = 0")
    case True
    with assms r ev show ?thesis
      by (auto simp: retire_auth_token_def reg_wrappers regCleanup_def Let_def)
  next
    case False
    with assms r ev show ?thesis
      by (auto simp: retire_auth_token_def reg_wrappers regCleanup_def regWrite_eq Let_def split: if_splits)
  qed
qed

text \<open>
  What ROOT_CONT_REGISTER_ACTIVATE leaves behind. The root container of the response is stored
  first. If that succeeds the authentication token is read (as a precaution) and deleted. If the
  deletion succeeds the command has succeeded and the root container stays. If it fails while
  there was memory for the read, the token is stored again from the buffer of the read, whether or
  not the read had succeeded, and if that store is accepted the root container is removed and
  success is returned. If it fails and there was no memory, its error is returned and the root
  container stays.
\<close>

theorem root_registration_recovery:
  "let (ok, _, o1, n1) = getRspElementInfo i h off 0 s;
       root = RegStore RootCont (peek s (mappedP (r_cmt s)) (unat o1) (unat n1));
       (mcRet, s') = storeContainers W MC_CMP_CMD_ROOT_CONT_REGISTER_ACTIVATE h i off s;
       regs = reg_events
   in if \<not> ok then mcRet = - 1 \<and> s' = s
      else (mcRet \<noteq> MC_DRV_OK \<and> r_ev s' = Reg root mcRet # r_ev s)
         \<or> (mcRet = MC_DRV_OK \<and> (\<exists>rd. regs (r_ev s') = Reg (RegCleanup AuthToken) MC_DRV_OK # rd
               @ Reg root MC_DRV_OK # regs (r_ev s) \<and> length rd \<le> 1))
         \<or> (mcRet \<noteq> MC_DRV_OK \<and> regs (r_ev s') = Reg (RegCleanup AuthToken) mcRet
               # Reg root MC_DRV_OK # regs (r_ev s))
         \<or> (\<exists>buf rd del. del \<noteq> MC_DRV_OK \<and> mcRet \<noteq> MC_DRV_OK
               \<and> regs (r_ev s') = Reg (RegStore AuthToken buf) mcRet # Reg (RegCleanup AuthToken) del
                   # Reg (RegRead AuthToken) rd # Reg root MC_DRV_OK # regs (r_ev s))
         \<or> (\<exists>buf rd del cl. del \<noteq> MC_DRV_OK \<and> mcRet = MC_DRV_OK
               \<and> regs (r_ev s') = Reg (RegCleanup RootCont) cl # Reg (RegStore AuthToken buf) MC_DRV_OK
                   # Reg (RegCleanup AuthToken) del # Reg (RegRead AuthToken) rd
                   # Reg root MC_DRV_OK # regs (r_ev s))"
proof -
  obtain ok i2 o1 n1 where e1: "getRspElementInfo i h off 0 s = (ok, i2, o1, n1)" by (metis prod_cases4)
  define root where "root = RegStore RootCont (peek s (mappedP (r_cmt s)) (unat o1) (unat n1))"
  define s1 where "s1 = r_note (Reg root (rw_reg W (r_ev s) root)) (touch (mappedP (r_cmt s)) (unat o1) (unat n1) s)"
  have st: "storeContainers W MC_CMP_CMD_ROOT_CONT_REGISTER_ACTIVATE h i off s =
      (if \<not> ok then (- 1, s)
       else if rw_reg W (r_ev s) root = MC_DRV_OK then retire_auth_token W s1 else (rw_reg W (r_ev s) root, s1))"
    using e1 by (simp add: storeContainers_def store_element_def reg_wrappers regWrite_eq root_def s1_def Let_def)
  obtain a t where ret: "retire_auth_token W s1 = (a, t)" by force
  have ev1: "r_ev s1 = Reg root (rw_reg W (r_ev s) root) # r_ev s" by (simp add: s1_def)
  show ?thesis
  proof (cases "rw_reg W (r_ev s) root = MC_DRV_OK")
    case True
    then show ?thesis
      using retire_auth_token_events [OF ret] e1 ev1
      by (simp add: st ret root_def [symmetric])
  next
    case False
    then show ?thesis using e1 ev1 by (simp add: st root_def [symmetric])
  qed
qed
text \<open>The case behind the recovery: no token is stored, so reading and deleting it both fail.\<close>

theorem root_registration_undone:
  assumes "rw_reg W (r_ev s) (RegStore RootCont (peek s (mappedP (r_cmt s)) (unat o1) (unat n1))) = MC_DRV_OK"
    and "getRspElementInfo i h off 0 s = (True, i2, o1, n1)"
    and "\<And>ev n. rw_malloc W ev n \<noteq> None" "heap_ok s"
    and "\<And>ev. rw_reg W ev (RegRead AuthToken) = MC_DRV_ERR_INVALID_DEVICE_FILE"
    and "\<And>ev. rw_reg W ev (RegCleanup AuthToken) = MC_DRV_ERR_UNKNOWN"
    and "\<And>ev bs. rw_reg W ev (RegStore AuthToken bs) = MC_DRV_OK"
  shows "let (mcRet, s') = storeContainers W MC_CMP_CMD_ROOT_CONT_REGISTER_ACTIVATE h i off s
         in mcRet = MC_DRV_OK \<and> (\<exists>cl buf. take 2 (reg_events (r_ev s')) =
              [Reg (RegCleanup RootCont) cl, Reg (RegStore AuthToken buf) MC_DRV_OK])"
proof -
  define root where "root = RegStore RootCont (peek s (mappedP (r_cmt s)) (unat o1) (unat n1))"
  define s1 where "s1 = r_note (Reg root MC_DRV_OK) (touch (mappedP (r_cmt s)) (unat o1) (unat n1) s)"
  have st: "storeContainers W MC_CMP_CMD_ROOT_CONT_REGISTER_ACTIVATE h i off s = retire_auth_token W s1"
    using assms(1,2) by (simp add: storeContainers_def store_element_def reg_wrappers regWrite_eq root_def s1_def Let_def)
  obtain r p n s2 where r: "regRead W AuthToken s1 = (r, p, n, s2)" by (metis prod_cases4)
  have "heap_ok s1" using assms(4) by (simp add: s1_def)
  moreover obtain b where "rw_malloc W (r_ev s1) 4096 = Some b" using assms(3) by blast
  ultimately have "p \<noteq> 0"
    using r heap_ok_fresh [of s1] by (auto simp: regRead_def malloc_def Let_def split: prod.splits)
  then show ?thesis
    using r assms(6,7)
    by (simp add: st retire_auth_token_def reg_wrappers regCleanup_def regWrite_eq Let_def)
qed

section \<open>Handling a response touches only live memory\<close>

text \<open>
  The elements of a response that do not wrap around 32 bits; the code reads at most three.
\<close>

definition elements_ok :: "rstate \<Rightarrow> bool" where
  "elements_ok s = list_all (\<lambda>k. unat (peek32 s (wsmP (r_cmt s)) (12 + k * 8))
      + unat (peek32 s (wsmP (r_cmt s)) (16 + k * 8)) < 2 ^ 32) [0, 1, 2]"

lemma element_in_buffer:
  assumes "getRspElementInfo n h o0 l0 s = (True, n', off, len)" "chan_ok W s" "elements_ok s" "unat n \<le> 3"
  shows "in_block s (mbuf s) (unat off) (unat len)" "n' = n + 1" "n \<noteq> 0"
    "unat off + unat len \<le> unat (mappedSize (r_cmt s))"
proof -
  have nz: "h \<noteq> 0" "wsmP (r_cmt s) \<noteq> 0" "n \<noteq> 0"
    using assms(1) by (auto simp: getRspElementInfo_def Let_def split: if_splits)
  then have k: "unat (n - 1) \<in> {0, 1, 2}" using assms(4) by (auto simp: unat_minus_one)
  then have wrap: "unat (peek32 s (wsmP (r_cmt s)) (12 + unat (n - 1) * 8))
      + unat (peek32 s (wsmP (r_cmt s)) (16 + unat (n - 1) * 8)) < 2 ^ 32"
    using assms(3) unfolding elements_ok_def list_all_iff by (metis list.set_intros insert_iff empty_iff list.set(1) list.set(2))
  have acc: "getRspElementInfo n h o0 l0 s = (True, n', off, len) \<Longrightarrow>
      off = peek32 s (wsmP (r_cmt s)) (12 + unat (n - 1) * 8) \<and> len = peek32 s (wsmP (r_cmt s)) (16 + unat (n - 1) * 8)
      \<and> n' = n + 1 \<and> off + len \<le> mappedSize (r_cmt s)"
    by (auto simp: getRspElementInfo_def Let_def algebra_simps not_less split: if_splits)
  then have "unat off + unat len \<le> unat (mappedSize (r_cmt s))" "n' = n + 1"
    using assms(1) wrap by (auto simp: word_le_nat_alt unat_plus_no_wrap)
  moreover from this have "in_block s (mbuf s) (unat off) (unat len)"
    using assms(2) by (auto simp: in_block_def chan_ok_def)
  ultimately show "in_block s (mbuf s) (unat off) (unat len)" "n' = n + 1" "n \<noteq> 0"
    "unat off + unat len \<le> unat (mappedSize (r_cmt s))" using nz by auto
qed

text \<open>A registry write leaves the heap alone and faults only when its bytes are not in a block.\<close>

lemma regWrite_quiet:
  assumes "regWrite W c p off n s = (r, t)"
  shows "same_shape s t" "in_block s p off (unat n) \<Longrightarrow> quiet s t" "r_heap t = r_heap s" "g_spid t = g_spid s"
  using assms same_shape_reg(1) [OF assms]
  by (auto simp: regWrite_eq quiet_def touch_faults Let_def) (simp_all add: touch_def)

lemma regCleanup_quiet:
  assumes "regCleanup W c s = (r, t)"
  shows "quiet s t" "r_heap t = r_heap s"
  using assms same_shape_reg(2) [OF assms] by (auto simp: regCleanup_def quiet_def Let_def)

lemma quiet_trans: "quiet s t \<Longrightarrow> quiet t u \<Longrightarrow> quiet s u"
  by (auto simp: quiet_def intro: same_shape_trans)

lemma same_heap_reads:
  assumes "r_heap t = r_heap s" "r_cmt t = r_cmt s"
  shows "getRspElementInfo n h o0 l0 t = getRspElementInfo n h o0 l0 s" "elements_ok t = elements_ok s"
  using assms by (simp_all add: getRspElementInfo_def elements_ok_def peek32_def hblock_def Let_def)

lemma store_element_quiet:
  assumes "store_element write h n off s = (r, t)" "\<And>p o1 l u. write p o1 l u = regWrite W c p o1 l u"
  shows "same_shape s t" "chan_ok W s \<Longrightarrow> elements_ok s \<Longrightarrow> unat n \<le> 3 \<Longrightarrow> quiet s t"
proof -
  obtain ok n' o1 l1 where e: "getRspElementInfo n h off 0 s = (ok, n', o1, l1)" by (metis prod_cases4)
  have st: "if ok then regWrite W c (mbuf s) (unat o1) l1 s = (r, t) else t = s"
    using assms e by (auto simp: store_element_def mbuf_def split: if_splits)
  then show "same_shape s t" using regWrite_quiet(1) by (auto split: if_splits)
  show "quiet s t" if "chan_ok W s" "elements_ok s" "unat n \<le> 3"
    using st regWrite_quiet(2) element_in_buffer(1) [of n h off 0 s n' o1 l1 W] e that by (auto split: if_splits)
qed

lemma retire_auth_token_keeps:
  assumes "retire_auth_token W s = (r, s')" "heap_ok s" "mbuf s \<in> blocks s"
  shows "keeps s s'" "registry_sound W \<Longrightarrow> r_faults s' = r_faults s"
proof -
  obtain a p n s1 where rd: "regRead W AuthToken s = (a, p, n, s1)" by (metis prod_cases4)
  obtain d s2 where del: "regCleanup W AuthToken s1 = (d, s2)" by force
  obtain w s3 where wr: "regWrite W AuthToken p 0 n s2 = (w, s3)" by force
  obtain c s4 where cl: "regCleanup W RootCont s3 = (c, s4)" by force
  define t where "t = (if d \<noteq> MC_DRV_OK \<and> p \<noteq> 0 then if w = MC_DRV_OK then s4 else s3 else s2)"
  have s': "s' = free_ptr p t"
    using assms(1) rd del wr cl by (auto simp: retire_auth_token_def reg_wrappers t_def split: if_splits)
  note qd = regCleanup_quiet(1) [OF del] and qw = regWrite_quiet [OF wr] and qc = regCleanup_quiet(1) [OF cl]
  have "same_shape s1 t"
    unfolding t_def using qd qw(1) qc unfolding quiet_def by (auto intro: same_shape_trans)
  then have k: "keeps s1 t" by (rule same_shape_keeps)
  note kt = keeps_temp [OF rd assms(2,3) k]
  show "keeps s s'" using kt(1) s' by simp
  show "r_faults s' = r_faults s" if "registry_sound W"
  proof -
    have "in_block s2 p 0 (unat n)" if "p \<noteq> 0"
    proof -
      have "p \<in> blocks s1" "length (hblock s1 p) = 4096"
        using regRead_spec(7) [OF rd assms(2)] that by auto
      moreover have "unat n \<le> 4096" using regRead_size [OF rd] \<open>registry_sound W\<close> by (simp add: registry_sound_def)
      ultimately have "in_block s1 p 0 (unat n)" by (simp add: in_block_def)
      then show ?thesis using qd same_shape_in_block unfolding quiet_def by blast
    qed
    then have "r_faults t = r_faults s1"
      using qd qw(2) qc unfolding t_def quiet_def by auto
    then show ?thesis using kt(2) s' regRead_spec(4) [OF rd assms(2)] by simp
  qed
qed

lemma in_block_note [simp]: "in_block (s\<lparr>r_ev := e\<rparr>) p off n = in_block s p off n"
  by (simp add: in_block_def)

lemma registration_steps:
  assumes "store_sp_registration W h n off s = (r, t) \<or> store_tlt_registration W h n off s = (r, t)"
    and "getRspElementInfo n h off 0 s = (ok1, i2, o1, n1)" "getRspElementInfo i2 h o1 0 s = (ok2, i3, o2, n2)"
  shows "if ok1 \<and> ok2 then same_shape s t
           \<and> (in_block s (mbuf s) (unat o1) (unat n1) \<longrightarrow> in_block s (mbuf s) (unat o2) (unat n2) \<longrightarrow> quiet s t)
         else t = s"
proof -
  note d = reg_wrappers regWrite_eq regCleanup_def mbuf_def quiet_def same_shape_def touch_faults Let_def
  show ?thesis
    using assms(1)
  proof
    assume "store_sp_registration W h n off s = (r, t)"
    then show ?thesis using assms(2,3) by (auto simp: store_sp_registration_def d split: if_splits)
  next
    assume "store_tlt_registration W h n off s = (r, t)"
    then show ?thesis using assms(2,3) by (auto simp: store_tlt_registration_def d split: if_splits)
  qed
qed

lemma store_registration_quiet:
  assumes "store_sp_registration W h n off s = (r, t) \<or> store_tlt_registration W h n off s = (r, t)"
  shows "same_shape s t" "chan_ok W s \<Longrightarrow> elements_ok s \<Longrightarrow> unat n \<le> 2 \<Longrightarrow> quiet s t"
proof -
  obtain ok1 i2 o1 n1 where e1: "getRspElementInfo n h off 0 s = (ok1, i2, o1, n1)" by (metis prod_cases4)
  obtain ok2 i3 o2 n2 where e2: "getRspElementInfo i2 h o1 0 s = (ok2, i3, o2, n2)" by (metis prod_cases4)
  note steps = registration_steps [OF assms e1 e2]
  show "same_shape s t" using steps by (auto split: if_splits)
  show "quiet s t" if c: "chan_ok W s" "elements_ok s" "unat n \<le> 2"
  proof (cases "ok1 \<and> ok2")
    case True
    have n3: "unat n \<le> 3" using c(3) by simp
    have b1: "in_block s (mbuf s) (unat o1) (unat n1)" "i2 = n + 1"
      using element_in_buffer [of n h off 0 s i2 o1 n1 W] e1 True c n3 by auto
    have "unat i2 \<le> 3" using c(3) unfolding b1(2) by (simp add: unat_word_ariths)
    then have "in_block s (mbuf s) (unat o2) (unat n2)"
      using element_in_buffer(1) [of i2 h o1 0 s i3 o2 n2 W] e2 True c by auto
    then show ?thesis using steps b1(1) True by auto
  next
    case False
    then show ?thesis using steps by auto
  qed
qed

definition stores :: "rworld \<Rightarrow> u32 \<Rightarrow> rstate \<Rightarrow> rstate \<Rightarrow> bool" where
  "stores W n s t = (keeps s t \<and>
     (chan_ok W s \<longrightarrow> elements_ok s \<longrightarrow> registry_sound W \<longrightarrow> unat n \<le> 2 \<longrightarrow> r_faults t = r_faults s))"

lemma stores_quiet:
  "same_shape s t \<Longrightarrow> (chan_ok W s \<Longrightarrow> elements_ok s \<Longrightarrow> unat n \<le> 2 \<Longrightarrow> quiet s t) \<Longrightarrow> stores W n s t"
  by (auto simp: stores_def same_shape_keeps quiet_def)

lemma stores_element: "store_element (regWrite W c) h n off s = (r, t) \<Longrightarrow> stores W n s t"
  using store_element_quiet [of "regWrite W c" h n off s r t W c] by (intro stores_quiet) auto

lemma stores_cleanup: "regCleanup W c s = (r, t) \<Longrightarrow> stores W n s t"
  using regCleanup_quiet(1) [of W c s r t] by (intro stores_quiet) (auto simp: quiet_def)

lemma stores_cleanup_element:
  assumes "regCleanup W c s = (r1, s1)" "store_element (regWrite W d) h n off s1 = (r, t)"
  shows "stores W n s t"
proof (rule stores_quiet)
  note q = regCleanup_quiet [OF assms(1)]
  have cmt: "r_cmt s1 = r_cmt s" using q(1) by (simp add: quiet_def same_shape_def)
  note e = store_element_quiet [OF assms(2) refl]
  show "same_shape s t" using q(1) e(1) unfolding quiet_def by (blast intro: same_shape_trans)
  show "quiet s t" if "chan_ok W s" "elements_ok s" "unat n \<le> 2"
  proof -
    have "chan_ok W s1" using q(1) that(1) same_shape_chan_ok unfolding quiet_def by blast
    moreover have "elements_ok s1" using same_heap_reads(2) [OF q(2) cmt] that(2) by simp
    ultimately have "quiet s1 t" using e(2) that(3) by simp
    with q(1) show ?thesis by (rule quiet_trans)
  qed
qed

lemma stores_root_activate:
  assumes "store_element (regWrite W RootCont) h n off s = (r1, s1)" "retire_auth_token W s1 = (r, t)"
    "heap_ok s" "mbuf s \<in> blocks s"
  shows "stores W n s t"
proof -
  note e = store_element_quiet [OF assms(1) refl]
  have h: "heap_ok s1" "mbuf s1 \<in> blocks s1" using e(1) assms(3,4) by (auto simp: same_shape_def mbuf_def)
  note ra = retire_auth_token_keeps [OF assms(2) h]
  have "keeps s t" using same_shape_keeps [OF e(1)] ra(1) by (rule keeps_trans)
  moreover have "r_faults t = r_faults s" if "chan_ok W s" "elements_ok s" "registry_sound W" "unat n \<le> 2"
    using ra(2) [OF that(3)] e(2) [OF that(1,2)] that(4) by (simp add: quiet_def)
  ultimately show ?thesis by (simp add: stores_def)
qed

lemma storeContainers_stores:
  assumes "storeContainers W c h n off s = (r, s')" "heap_ok s" "mbuf s \<in> blocks s"
  shows "stores W n s s'"
proof -
  have refl: "stores W n s s" by (simp add: stores_def)
  have eta: "regWriteAuthToken W = regWrite W AuthToken" "regWriteRoot W = regWrite W RootCont"
    "regWriteSp W sp = regWrite W (SpCont sp)"
    "(\<lambda>p off n. regWriteTlt W u p off n sp) = regWrite W (TltCont u sp)" for sp u
    by (auto simp: reg_wrappers fun_eq_iff)
  show ?thesis
    using assms unfolding storeContainers_def Let_def eta regCleanupRoot_def regCleanupSp_def regCleanupTlt_def
    by (auto split: prod.splits if_splits intro: refl stores_element stores_cleanup stores_cleanup_element
        stores_root_activate stores_quiet store_registration_quiet)
qed
lemma chan_ok_malloc:
  assumes "malloc W n s = (p, s1)" "chan_ok W s"
  shows "chan_ok W s1" "elements_ok s1 = elements_ok s" "r_faults s1 = r_faults s" "r_cmt s1 = r_cmt s"
    "g_handle s1 = g_handle s"
    "p = 0 \<Longrightarrow> blocks s1 = blocks s"
    "p \<noteq> 0 \<Longrightarrow> p \<notin> blocks s \<and> blocks s1 = insert p (blocks s) \<and> length (hblock s1 p) = n"
    "q \<in> blocks s \<Longrightarrow> hblock s1 q = hblock s q"
proof -
  have h: "heap_ok s" using assms(2) by (simp add: chan_ok_def)
  note fresh = heap_ok_fresh [OF h]
  have w: "wsmP (r_cmt s) \<noteq> r_next s" "mbuf s \<noteq> r_next s" using assms(2) fresh by (auto simp: chan_ok_def)
  have q: "q \<in> blocks s \<Longrightarrow> q \<noteq> r_next s" using fresh by auto
  show "chan_ok W s1" "elements_ok s1 = elements_ok s" "r_faults s1 = r_faults s" "r_cmt s1 = r_cmt s"
    "g_handle s1 = g_handle s" "p = 0 \<Longrightarrow> blocks s1 = blocks s"
    "p \<noteq> 0 \<Longrightarrow> p \<notin> blocks s \<and> blocks s1 = insert p (blocks s) \<and> length (hblock s1 p) = n"
    "q \<in> blocks s \<Longrightarrow> hblock s1 q = hblock s q"
    using assms(2) w q fresh
    by (cases rule: malloc_cases [OF assms(1)];
        simp add: chan_ok_def mbuf_def elements_ok_def peek32_def)+
qed

lemma elements_ok_poke:
  "p \<noteq> wsmP (r_cmt s) \<Longrightarrow> elements_ok (poke p off bs s) = elements_ok s"
  "elements_ok (touch p off n s) = elements_ok s"
  by (simp_all add: elements_ok_def poke_def peek32_def hblock_set_block)

lemma getRsp_cong:
  assumes "r_cmt t = r_cmt s" "hblock t (wsmP (r_cmt s)) = hblock s (wsmP (r_cmt s))"
  shows "getRspElementInfo n h o0 l0 t = getRspElementInfo n h o0 l0 s"
  using assms by (simp add: getRspElementInfo_def peek32_def Let_def)

lemma getRsp_len:
  "getRspElementInfo n h o0 l0 s = (True, n', o1, l1) \<Longrightarrow> getRspElementInfo n h o0 l s = (True, n', o1, l1)"
  by (auto simp: getRspElementInfo_def Let_def split: if_splits)

lemma allocateResponseBuffer_eq:
  assumes "getRspElementInfo 1 h 0 (cm_length out) s = (ok, n', o1, l1)" "malloc W (unat l1) s = (p, s1)"
  shows "allocateResponseBuffer W out h s =
           (if ok then (if p = 0 then ROOTPA_ERROR_OUT_OF_MEMORY else ROOTPA_OK, out\<lparr>cm_length := l1, contentP := p\<rparr>, s1)
            else (ROOTPA_ERROR_INTERNAL, out\<lparr>cm_length := l1\<rparr>, s))"
  using assms by (simp add: allocateResponseBuffer_def Let_def)

text \<open>The end of \<open>handleResponse\<close>, once the content of the response is allocated.\<close>

lemma response_copied:
  assumes "chan_ok W s1" "elements_ok s1" "8 \<le> unat (mappedSize (r_cmt s1))"
    and "getRspElementInfo 1 h 0 0 s1 = (True, n', o1, l1)" "p \<in> blocks s1 - {wsmP (r_cmt s1)}"
    and "length (hblock s1 p) = unat l1"
  defines "s2 \<equiv> poke p 0 (peek s1 (mbuf s1) (unat o1) (unat l1)) (touch (mbuf s1) (unat o1) (unat l1) s1)"
  defines "s3 \<equiv> touch (mbuf s1) 4 4 s2"
  shows "quiet s1 s3" "elements_ok s3" "chan_ok W s3" "unat n' \<le> 2"
proof -
  have el: "in_block s1 (mbuf s1) (unat o1) (unat l1)" "n' = 2"
    using element_in_buffer [OF assms(4,1,2)] by auto
  have hd: "in_block s1 (mbuf s1) 4 4" using assms(1,3) by (auto simp: in_block_def chan_ok_def)
  have ss: "same_shape s1 s3"
    unfolding s3_def s2_def by (blast intro: same_shape_trans same_shape_basic)
  have "r_faults s2 = r_faults s1"
    unfolding s2_def using el(1) assms(5,6) by (subst in_block_poke) (auto simp: touch_faults in_block_def)
  then have "r_faults s3 = r_faults s1"
    unfolding s3_def using hd by (subst touch_faults) (auto simp: s2_def)
  with ss show "quiet s1 s3" by (simp add: quiet_def)
  show "elements_ok s3" using assms(2,5) by (simp add: s3_def s2_def elements_ok_poke)
  show "chan_ok W s3" by (rule same_shape_chan_ok [OF assms(1) ss])
  show "unat n' \<le> 2" using el(2) by simp
qed

lemma handleResponse_memory:
  assumes "handleResponse W c out h s = (ret, out', s')"
    and "chan_ok W s" "registry_sound W" "elements_ok s" "8 \<le> unat (mappedSize (r_cmt s))"
  shows "r_faults s' = r_faults s \<and> chan_ok W s' \<and> wsmP (r_cmt s') = wsmP (r_cmt s)
    \<and> (\<exists>new. blocks s' - {mappedP (r_cmt s')} = (blocks s - {mappedP (r_cmt s)}) \<union> new
         \<and> (new = {} \<and> ret \<noteq> ROOTPA_OK \<and> contentP out' \<in> {contentP out, 0}
              \<or> new = {contentP out'} \<and> contentP out' \<notin> blocks s
                \<and> length (hblock s' (contentP out')) = unat (cm_length out')))"
proof -
  obtain ok n' o1 l1 where e: "getRspElementInfo 1 h 0 (cm_length out) s = (ok, n', o1, l1)" by (metis prod_cases4)
  obtain p s1 where m: "malloc W (unat l1) s = (p, s1)" by force
  note ms = chan_ok_malloc [OF m assms(2)]
  show ?thesis
  proof (cases "isValidResponseTo c s (wsmP (r_cmt s)) \<and> ok \<and> p \<noteq> 0")
    case False
    then have "(s' = s \<or> s' = s1 \<and> p = 0) \<and> ret \<noteq> ROOTPA_OK \<and> contentP out' \<in> {contentP out, 0}"
      using assms(1) e m by (auto simp: handleResponse_def allocateResponseBuffer_eq [OF e m] split: if_splits)
    then show ?thesis using assms(2) ms by auto
  next
    case True
    have wb: "wsmP (r_cmt s) \<in> blocks s" "wsmP (r_cmt s1) \<noteq> p"
      using assms(2) ms(4,7) True by (auto simp: chan_ok_def)
    have e1: "getRspElementInfo 1 h 0 0 s1 = (True, n', o1, l1)"
      using getRsp_len [of 1 h 0 "cm_length out" s n' o1 l1 0] getRsp_cong [OF ms(4) ms(8) [OF wb(1)]] e True by simp
    define s2 where "s2 = poke p 0 (peek s1 (mbuf s1) (unat o1) (unat l1)) (touch (mbuf s1) (unat o1) (unat l1) s1)"
    define s3 where "s3 = touch (mbuf s1) 4 4 s2"
    have sz: "8 \<le> unat (mappedSize (r_cmt s1))" "p \<in> blocks s1 - {wsmP (r_cmt s1)}" "length (hblock s1 p) = unat l1"
      using assms(5) ms(4,7) True wb by auto
    have el1: "elements_ok s1" using ms(2) assms(4) by simp
    note rc = response_copied [OF ms(1) el1 sz(1) e1 sz(2,3), folded s2_def, folded s3_def]
    obtain r5 s5 where st: "storeContainers W c h n' o1 s3 = (r5, s5)" by force
    have h3: "heap_ok s3" "mbuf s3 \<in> blocks s3" using rc(3) by (auto simp: chan_ok_def)
    have sc: "stores W n' s3 s5" by (rule storeContainers_stores [OF st h3])
    have "(s' = s3 \<or> s' = s5) \<and> contentP out' = p \<and> cm_length out' = l1"
      using assms(1) e m e1 True st ms(4)
      by (auto simp: handleResponse_def allocateResponseBuffer_eq [OF e m] s2_def s3_def mbuf_def Let_def split: if_splits)
    then have "keeps s3 s'" "r_faults s' = r_faults s3" "contentP out' = p" "cm_length out' = l1"
      using sc rc assms(3) by (auto simp: stores_def)
    moreover have "r_faults s3 = r_faults s" "blocks s3 = insert p (blocks s)" "mbuf s3 = mbuf s" "wsmP (r_cmt s3) = wsmP (r_cmt s)" "p \<notin> blocks s"
      using rc(1) ms True by (auto simp: quiet_def same_shape_def mbuf_def)
    moreover have "p \<noteq> mbuf s" using \<open>p \<notin> blocks s\<close> assms(2) by (auto simp: chan_ok_def)
    moreover have "length (hblock s3 p) = unat l1" using rc(1) sz(3) by (simp add: quiet_def same_shape_def)
    ultimately show ?thesis
      using chan_ok_keeps [OF rc(3)] h3 unfolding keeps_def mbuf_def by auto
  qed
qed


definition answered_chan :: rstate where
  "answered_chan = sample_chan\<lparr>r_heap := [(5, replicate 24 13),
     (6, [0, 0, 3, 0, 13, 0, 0, 0x80, 0, 0, 0, 0, 0, 0, 0, 0, 16, 0, 0, 0, 16, 0, 0, 0, 8, 0, 0, 0] @ replicate 12 0),
     (7, replicate 64 0)]\<rparr>"

lemma answered_chan_facts:
  "r_faults answered_chan = []" "heap_ok answered_chan" "blocks answered_chan = {5, 6, 7}"
  "r_cmt answered_chan = (r_cmt rstart)\<lparr>wsmP := 6, mappedP := 7, mappedSize := 64\<rparr>"
  "hblock answered_chan 6 = [0, 0, 3, 0, 13, 0, 0, 0x80, 0, 0, 0, 0, 0, 0, 0, 0, 16, 0, 0, 0, 16, 0, 0, 0, 8, 0, 0, 0] @ replicate 12 0"
  "hblock answered_chan 7 = replicate 64 0"
  by (auto simp: answered_chan_def sample_chan_def rstart_def heap_ok_def blocks_def hblock_def)

lemma answered_elements:
  "peek32 answered_chan 6 12 = 0" "peek32 answered_chan 6 16 = 16" "peek32 answered_chan 6 20 = 16"
  "peek32 answered_chan 6 24 = 8" "peek32 answered_chan 6 28 = 0" "peek32 answered_chan 6 32 = 0"
  by code_simp+


end
