(* ===== verification/ContentManager.thy ===== *)
theory ContentManager
  imports Pacmp3Store
begin

text \<open>
  Executing commands of the content management protocol (\<^verbatim>\<open>contentmanager.c\<close>): the session with
  the content management trustlet, the loop that repeats a command with a larger shared buffer
  when the trustlet asks for one, and the sequence of commands of a request. The loop is total:
  each repetition takes a buffer strictly larger than the last, in 32 bits.
\<close>

section \<open>The session\<close>

definition closeCmtlSession :: "rworld \<Rightarrow> rstate \<Rightarrow> rstate" where
  "closeCmtlSession W s = (tltChannelClose W (g_handle s) s)\<lparr>g_handle := 0\<rparr>"

definition openCmtlSession :: "rworld \<Rightarrow> rstate \<Rightarrow> u32 \<times> rstate" where
  "openCmtlSession W s =
     (let s = (if g_handle s \<noteq> 0 then closeCmtlSession W s else s);
          (handle, error, s) = tltChannelOpen W (sizeOfCmp W) s;
          s = s\<lparr>g_handle := handle\<rparr>
      in if handle = 0 then
           ((if MC_DRV_ERR_NO_FREE_MEMORY = error then ROOTPA_ERROR_OUT_OF_MEMORY
             else ROOTPA_ERROR_MOBICORE_CONNECTION), s)
         else (ROOTPA_OK, s))"

section \<open>One command\<close>

definition mcMap :: "rworld \<Rightarrow> nat \<Rightarrow> u32 \<Rightarrow> rstate \<Rightarrow> u32 \<times> rstate" where
  "mcMap W p n s =
     (let (r, s) = drv W (McMap p n) s in
      if r = MC_DRV_OK then (r, s\<lparr>r_cmt := (r_cmt s)\<lparr>mapInfo := rw_map W (r_ev s)\<rparr>, r_mapped := p\<rparr>) else (r, s))"

definition mcUnmap :: "rworld \<Rightarrow> nat \<Rightarrow> rstate \<Rightarrow> u32 \<times> rstate" where
  "mcUnmap W p s =
     (let (r, s) = drv W (McUnmap p) s in
      if r = MC_DRV_OK then (r, s\<lparr>r_mapped := 0\<rparr>) else (r, s))"

text \<open>
  One round of the loop of \<open>executeOneCmpCommand\<close>: either the loop is left with a return code, or
  it goes on with the buffer released and the size the trustlet asked for.
\<close>

datatype round = Leave u32 CmpMessage CmpMessage rstate | Again CmpMessage CmpMessage rstate

abbreviation (input) NOTIFICATION_WAIT_TIMEOUT_MS :: u32 where "NOTIFICATION_WAIT_TIMEOUT_MS \<equiv> 3000"

definition cmp_round :: "rworld \<Rightarrow> u32 \<Rightarrow> nat \<Rightarrow> CmpMessage \<Rightarrow> CmpMessage \<Rightarrow> rstate \<Rightarrow> round" where
  "cmp_round W commandId handle commandP responseP s =
     (let size = mappedSize (r_cmt s);
          (p, s) = malloc W (unat size) s;
          s = s\<lparr>r_cmt := (r_cmt s)\<lparr>mappedP := p\<rparr>\<rparr> in
      if p = 0 then Leave ROOTPA_ERROR_OUT_OF_MEMORY commandP responseP s
      else
        let s = poke p 0 (replicate (unat size) 0) s;
            (mcRet, s) = mcMap W p size s in
        if mcRet \<noteq> MC_DRV_OK then
          Leave ROOTPA_ERROR_MOBICORE_CONNECTION (commandP\<lparr>intRet := mcRet\<rparr>) (responseP\<lparr>intRet := mcRet\<rparr>) s
        else
          let (ret, responseP, s) = prepareCommand W commandId commandP responseP s in
          if ret \<noteq> ROOTPA_OK then Leave ret commandP responseP s
          else
            let (ok, s) = tltChannelTransmit W handle NOTIFICATION_WAIT_TIMEOUT_MS s in
            if \<not> ok then
              let e = lasterror (r_cmt s) in
              Leave ROOTPA_ERROR_MOBICORE_CONNECTION (commandP\<lparr>intRet := e\<rparr>) (responseP\<lparr>intRet := e\<rparr>) s
            else
              let neededBytes = getNeededBytesFromResponse s (wsmP (r_cmt s)) in
              if neededBytes = 0 then Leave ROOTPA_OK commandP responseP s
              else if neededBytes = - 1 then Leave ROOTPA_ERROR_MOBICORE_CONNECTION commandP responseP s
              else if neededBytes \<le> mappedSize (r_cmt s) then
                Leave ROOTPA_ERROR_MOBICORE_CONNECTION commandP responseP s
              else
                let (mcRet, s) = mcUnmap W (mappedP (r_cmt s)) s in
                if mcRet \<noteq> MC_DRV_OK then
                  Leave ROOTPA_ERROR_MOBICORE_CONNECTION (commandP\<lparr>intRet := mcRet\<rparr>) (responseP\<lparr>intRet := mcRet\<rparr>) s
                else
                  let s = free_ptr (mappedP (r_cmt s)) s in
                  Again commandP responseP
                    (s\<lparr>r_cmt := (r_cmt s)\<lparr>mapInfo := \<lparr>sVirtualAddr = 0, sVirtualLen = 0\<rparr>,
                                           mappedSize := neededBytes\<rparr>\<rparr>))"

section \<open>What every step of a round leaves alone\<close>

text \<open>
  Whatever the environment does, preparing a command and sending it change neither the size of the
  mapped buffer nor the handle, and make no call that opens, closes or maps.
\<close>

definition steady :: "rstate \<Rightarrow> rstate \<Rightarrow> bool" where
  "steady s t = (mappedSize (r_cmt t) = mappedSize (r_cmt s) \<and> g_handle t = g_handle s
     \<and> chan_events (r_ev t) = chan_events (r_ev s))"

lemma steady_trans: "steady s t \<Longrightarrow> steady t u \<Longrightarrow> steady s u"
  by (simp add: steady_def)

lemma same_shape_steady: "same_shape s t \<Longrightarrow> steady s t"
  by (simp add: same_shape_def steady_def)

lemma steady_malloc: "malloc W n s = (p, t) \<Longrightarrow> steady s t"
  by (auto elim!: malloc_cases simp: steady_def)

lemma steady_regRead: "regRead W c s = (r, p, n, t) \<Longrightarrow> steady s t"
  by (auto simp: regRead_def steady_def Let_def dest: steady_malloc [unfolded steady_def]
      split: prod.splits if_splits)

lemma steady_realloc: "realloc W p n s = (q, t) \<Longrightarrow> steady s t"
  by (auto elim!: realloc_cases simp: steady_def)

lemma steady_ensure: "ensureMappedBufferSize W n s = (ok, t) \<Longrightarrow> steady s t"
  by (auto simp: ensureMappedBufferSize_def steady_def Let_def dest: steady_realloc [unfolded steady_def] split: prod.splits if_splits)

lemma steady_addContainer:
  assumes "addContainer W c (i, off, s) = (ret, mcRet, i', off', s')"
  shows "steady s s'"
proof -
  obtain r p n s1 where r: "regRead W c s = (r, p, n, s1)" by (metis prod_cases4)
  obtain ok s2 where e: "ensureMappedBufferSize W (off + n) s1 = (ok, s2)" by force
  have "steady s s2" using steady_regRead [OF r] steady_ensure [OF e] by (rule steady_trans)
  moreover have "steady s s1" by (rule steady_regRead [OF r])
  moreover have "steady u t" if "setCmdElementInfo W a b x y u = (v, w, t)" for a b x y u v w t
    using same_shape_setCmd(1) [OF that] by (rule same_shape_steady)
  ultimately show ?thesis
    using assms r e by (auto simp: addContainer_def steady_def Let_def split: prod.splits if_splits)
qed

lemma add_result_steady:
  assumes "drop_place (addContainer W c (i, off, s1)) = (ret, mcRet, s')" "same_shape s s1"
  shows "steady s s'"
proof -
  obtain a b i' o' t where "addContainer W c (i, off, s1) = (a, b, i', o', t)" by (metis prod_cases5)
  with steady_addContainer [OF this] assms(1) same_shape_steady [OF assms(2)] show ?thesis
    by (auto intro: steady_trans)
qed

lemma prepare_switch_steady:
  assumes "prepare_switch W c outP (i, off, s) = (ret, mcRet, s')"
  shows "steady s s'"
proof (cases "c = MC_CMP_CMD_BEGIN_SP_AUTHENTICATION")
  case True
  obtain a b i1 o1 t where a: "addContainer W RootCont (i, off, s) = (a, b, i1, o1, t)" by (metis prod_cases5)
  note k = steady_addContainer [OF a]
  have "steady t s'"
    using assms a True
    by (cases "a = ROOTPA_OK")
      (auto simp: prepare_switch_def add_wrappers Let_def steady_def
        dest!: add_result_steady [OF _ same_shape_basic(1), unfolded steady_def])
  with k show ?thesis by (rule steady_trans)
next
  case False
  with assms show ?thesis
    unfolding prepare_switch_def Let_def add_wrappers sdata_uuid_def sdata_spid_def prod.case
    by (auto intro!: same_shape_steady same_shape_ids elim!: add_result_steady simp del: split_paired_All split: if_splits)
qed

lemma prepareCommand_steady:
  assumes "prepareCommand W c inC rsp s = (ret, rsp', s')"
  shows "steady s s'"
proof -
  let ?wsm = "wsmP (r_cmt s)"
  define s1 where "s1 = setCmdCmpVersionAndCmdId W ?wsm c (setCmdMapInfo W ?wsm (mapInfo (r_cmt s))
                   (poke ?wsm 0 (replicate (unat (sizeOfCmp W)) 0) s))"
  obtain i o1 s2 where e1: "setCmdElementInfo W 1 ?wsm 0 (cm_length inC) s1 = (i, o1, s2)" by (metis prod_cases3)
  obtain ok s3 where e2: "ensureMappedBufferSize W (cm_length inC) s2 = (ok, s3)" by force
  have "same_shape s s2"
    unfolding s1_def using same_shape_setCmd(1) [OF e1] unfolding s1_def
    by (blast intro: same_shape_trans same_shape_setCmd same_shape_basic)
  then have k3: "steady s s3" using same_shape_steady steady_ensure [OF e2] steady_trans by blast
  show ?thesis
  proof (cases ok)
    case False
    with assms e1 e2 k3 show ?thesis by (auto simp: prepareCommand_def s1_def Let_def)
  next
    case True
    define u where "u = poke (mbuf s3) 0 (peek s3 (contentP inC) 0 (unat (cm_length inC)))
        (touch (contentP inC) 0 (unat (cm_length inC)) s3)"
    obtain r m where "prepare_switch W c (mbuf s) (i, o1, u) = (r, m, s')"
      using assms e1 e2 True
      by (auto simp: prepareCommand_def s1_def u_def mbuf_def Let_def split: prod.splits)
    then have "steady u s'" by (rule prepare_switch_steady)
    with k3 show ?thesis by (simp add: steady_def u_def)
  qed
qed

lemma transmit_steady: "tltChannelTransmit W h n s = (ok, s') \<Longrightarrow> steady s s'"
  by (auto simp: tltChannelTransmit_def mcWaitNotification_def steady_def Let_def split: prod.splits if_splits)

lemma mcMap_frame:
  assumes "mcMap W p n s = (r, t)"
  shows "mappedSize (r_cmt t) = mappedSize (r_cmt s)" "g_handle t = g_handle s"
    "chan_events (r_ev t) = Drv (McMap p n) r # chan_events (r_ev s)"
    "blocks t = blocks s" "heap_ok t = heap_ok s" "hblock t q = hblock s q" "r_faults t = r_faults s"
    "wsmP (r_cmt t) = wsmP (r_cmt s)" "mbuf t = mbuf s"
  using assms by (auto simp: mcMap_def mbuf_def split: if_splits)

lemma mcUnmap_frame:
  assumes "mcUnmap W p s = (r, t)"
  shows "r_cmt t = r_cmt s" "g_handle t = g_handle s" "chan_events (r_ev t) = Drv (McUnmap p) r # chan_events (r_ev s)"
    "blocks t = blocks s" "heap_ok t = heap_ok s" "hblock t q = hblock s q" "r_faults t = r_faults s" "mbuf t = mbuf s"
  using assms by (auto simp: mcUnmap_def mbuf_def split: if_splits)

text \<open>The states a round goes through, named once for the proofs about it.\<close>

lemma cmp_round_cases:
  obtains (oom) s1 where "malloc W (unat (mappedSize (r_cmt s))) s = (0, s1)"
      "cmp_round W c h cmd rsp s = Leave ROOTPA_ERROR_OUT_OF_MEMORY cmd rsp (s1\<lparr>r_cmt := (r_cmt s1)\<lparr>mappedP := 0\<rparr>\<rparr>)"
  | (unmapped) p s1 s2 s3 e where "malloc W (unat (mappedSize (r_cmt s))) s = (p, s1)" "p \<noteq> 0"
      "s2 = poke p 0 (replicate (unat (mappedSize (r_cmt s))) 0) (s1\<lparr>r_cmt := (r_cmt s1)\<lparr>mappedP := p\<rparr>\<rparr>)"
      "mcMap W p (mappedSize (r_cmt s)) s2 = (e, s3)" "e \<noteq> MC_DRV_OK"
      "cmp_round W c h cmd rsp s = Leave ROOTPA_ERROR_MOBICORE_CONNECTION (cmd\<lparr>intRet := e\<rparr>) (rsp\<lparr>intRet := e\<rparr>) s3"
  | (unprepared) p s1 s2 s3 s4 ret rsp' where "malloc W (unat (mappedSize (r_cmt s))) s = (p, s1)" "p \<noteq> 0"
      "s2 = poke p 0 (replicate (unat (mappedSize (r_cmt s))) 0) (s1\<lparr>r_cmt := (r_cmt s1)\<lparr>mappedP := p\<rparr>\<rparr>)"
      "mcMap W p (mappedSize (r_cmt s)) s2 = (MC_DRV_OK, s3)"
      "prepareCommand W c cmd rsp s3 = (ret, rsp', s4)" "ret \<noteq> ROOTPA_OK"
      "cmp_round W c h cmd rsp s = Leave ret cmd rsp' s4"
  | (answered) p s1 s2 s3 s4 s5 ok rsp' where "malloc W (unat (mappedSize (r_cmt s))) s = (p, s1)" "p \<noteq> 0"
      "s2 = poke p 0 (replicate (unat (mappedSize (r_cmt s))) 0) (s1\<lparr>r_cmt := (r_cmt s1)\<lparr>mappedP := p\<rparr>\<rparr>)"
      "mcMap W p (mappedSize (r_cmt s)) s2 = (MC_DRV_OK, s3)"
      "prepareCommand W c cmd rsp s3 = (ROOTPA_OK, rsp', s4)"
      "tltChannelTransmit W h NOTIFICATION_WAIT_TIMEOUT_MS s4 = (ok, s5)"
      "(\<exists>ret cmd'' rsp''. cmp_round W c h cmd rsp s = Leave ret cmd'' rsp'' s5 \<and> contentP rsp'' = contentP rsp' \<and> ignoreError cmd'' = ignoreError cmd
          \<and> (ret = ROOTPA_OK \<longrightarrow> ok))
       \<or> (\<exists>e s6. mcUnmap W (mbuf s5) s5 = (e, s6)
          \<and> mappedSize (r_cmt s5) < getNeededBytesFromResponse s5 (wsmP (r_cmt s5))
          \<and> (if e = MC_DRV_OK
             then cmp_round W c h cmd rsp s = Again cmd rsp'
               ((free_ptr (mbuf s6) s6)\<lparr>r_cmt := (r_cmt s6)\<lparr>mapInfo := \<lparr>sVirtualAddr = 0, sVirtualLen = 0\<rparr>,
                  mappedSize := getNeededBytesFromResponse s5 (wsmP (r_cmt s5))\<rparr>\<rparr>)
             else cmp_round W c h cmd rsp s
               = Leave ROOTPA_ERROR_MOBICORE_CONNECTION (cmd\<lparr>intRet := e\<rparr>) (rsp'\<lparr>intRet := e\<rparr>) s6))"
proof -
  obtain p s1 where m: "malloc W (unat (mappedSize (r_cmt s))) s = (p, s1)" by force
  define s2 where "s2 = poke p 0 (replicate (unat (mappedSize (r_cmt s))) 0) (s1\<lparr>r_cmt := (r_cmt s1)\<lparr>mappedP := p\<rparr>\<rparr>)"
  obtain e3 s3 where mp: "mcMap W p (mappedSize (r_cmt s)) s2 = (e3, s3)" by force
  obtain ret rsp' s4 where pr: "prepareCommand W c cmd rsp s3 = (ret, rsp', s4)" by (metis prod_cases3)
  obtain ok s5 where tx: "tltChannelTransmit W h NOTIFICATION_WAIT_TIMEOUT_MS s4 = (ok, s5)" by force
  obtain e6 s6 where um: "mcUnmap W (mbuf s5) s5 = (e6, s6)" by force
  note d = cmp_round_def m s2_def [symmetric] mp pr tx um mbuf_def [symmetric] Let_def prod.case
  consider "p = 0" | "p \<noteq> 0" "e3 \<noteq> MC_DRV_OK" | "p \<noteq> 0" "e3 = MC_DRV_OK" "ret \<noteq> ROOTPA_OK"
    | "p \<noteq> 0" "e3 = MC_DRV_OK" "ret = ROOTPA_OK" by blast
  then show ?thesis
  proof cases
    case 1
    then show ?thesis using m by (intro oom [of s1]) (auto simp: d)
  next
    case 2
    then show ?thesis by (intro unmapped [OF m _ s2_def mp]) (simp_all add: d)
  next
    case 3
    then show ?thesis using mp by (intro unprepared [OF m _ s2_def _ pr]) (simp_all add: d)
  next
    case 4
    then show ?thesis using mp pr by (intro answered [OF m _ s2_def _ _ tx]) (auto simp: d)
  qed
qed

text \<open>The state when a message has been sent and answered.\<close>

lemma answered_steady:
  assumes "malloc W (unat (mappedSize (r_cmt s))) s = (p, s1)"
    "s2 = poke p 0 (replicate (unat (mappedSize (r_cmt s))) 0) (s1\<lparr>r_cmt := (r_cmt s1)\<lparr>mappedP := p\<rparr>\<rparr>)"
    "mcMap W p (mappedSize (r_cmt s)) s2 = (e, s3)"
    "prepareCommand W c cmd rsp s3 = (ret, rsp', s4)" "tltChannelTransmit W h n s4 = (ok, s5)"
  shows "mappedSize (r_cmt s4) = mappedSize (r_cmt s)" "mappedSize (r_cmt s5) = mappedSize (r_cmt s)"
    "g_handle s3 = g_handle s" "g_handle s4 = g_handle s" "g_handle s5 = g_handle s"
    "chan_events (r_ev s3) = Drv (McMap p (mappedSize (r_cmt s))) e # chan_events (r_ev s)"
    "chan_events (r_ev s4) = Drv (McMap p (mappedSize (r_cmt s))) e # chan_events (r_ev s)"
    "chan_events (r_ev s5) = Drv (McMap p (mappedSize (r_cmt s))) e # chan_events (r_ev s)"
proof -
  have "steady s s2" using steady_malloc [OF assms(1)] by (simp add: assms(2) steady_def)
  then show "mappedSize (r_cmt s4) = mappedSize (r_cmt s)" "mappedSize (r_cmt s5) = mappedSize (r_cmt s)"
    "g_handle s3 = g_handle s" "g_handle s4 = g_handle s" "g_handle s5 = g_handle s"
    "chan_events (r_ev s3) = Drv (McMap p (mappedSize (r_cmt s))) e # chan_events (r_ev s)"
    "chan_events (r_ev s4) = Drv (McMap p (mappedSize (r_cmt s))) e # chan_events (r_ev s)"
    "chan_events (r_ev s5) = Drv (McMap p (mappedSize (r_cmt s))) e # chan_events (r_ev s)"
    using mcMap_frame [OF assms(3)] prepareCommand_steady [OF assms(4)] transmit_steady [OF assms(5)]
    by (simp_all add: steady_def)
qed

lemma cmp_round_grows:
  assumes "cmp_round W c h cmd rsp s = Again cmd' rsp' s'"
  shows "mappedSize (r_cmt s) < mappedSize (r_cmt s')"
proof (cases rule: cmp_round_cases [of W s c h cmd rsp])
  case (answered p s1 s2 s3 s4 s5 ok rsp')
  have "mappedSize (r_cmt s5) = mappedSize (r_cmt s)" by (rule answered_steady(2) [OF answered(1,3-6)])
  then show ?thesis using answered(7) assms by (auto split: if_splits)
qed (use assms in auto)

section \<open>The loop and the command\<close>

function cmp_loop ::
    "rworld \<Rightarrow> u32 \<Rightarrow> nat \<Rightarrow> CmpMessage \<Rightarrow> CmpMessage \<Rightarrow> rstate \<Rightarrow> u32 \<times> CmpMessage \<times> CmpMessage \<times> rstate" where
  "cmp_loop W commandId handle commandP responseP s =
     (case cmp_round W commandId handle commandP responseP s of
        Leave ret c r s \<Rightarrow> (ret, c, r, s)
      | Again c r s \<Rightarrow> cmp_loop W commandId handle c r s)"
  by pat_completeness auto

termination
proof (relation "measure (\<lambda>(W, c, h, cmd, rsp, s). 2 ^ 32 - unat (mappedSize (r_cmt s)))")
  fix W c h cmd rsp s cmd' rsp' s'
  assume "cmp_round W c h cmd rsp s = Again cmd' rsp' s'"
  then have "unat (mappedSize (r_cmt s)) < unat (mappedSize (r_cmt s'))"
    by (intro cmp_round_grows [unfolded word_less_nat_alt])
  moreover have "unat (mappedSize (r_cmt s')) < 2 ^ 32"
    using unsigned_less [of "mappedSize (r_cmt s')"] by simp
  ultimately show "((W, c, h, cmd', rsp', s'), W, c, h, cmd, rsp, s)
      \<in> measure (\<lambda>(W, c, h, cmd, rsp, s). 2 ^ 32 - unat (mappedSize (r_cmt s)))" by simp
qed simp

declare cmp_loop.simps [simp del]

definition executeOneCmpCommand ::
    "rworld \<Rightarrow> nat \<Rightarrow> CmpMessage \<Rightarrow> CmpMessage \<Rightarrow> rstate \<Rightarrow> u32 \<times> CmpMessage \<times> CmpMessage \<times> rstate" where
  "executeOneCmpCommand W handle commandP responseP s =
     (if handle = 0 then (ROOTPA_ERROR_INTERNAL, commandP, responseP, s)
      else if contentP commandP = 0 \<or> unat (cm_length commandP) < csize U32
      then (ROOTPA_ERROR_INTERNAL, commandP, responseP, s)
      else
        let commandId = getCmpCommandId s (contentP commandP);
            s = touch (contentP commandP) 0 4 s;
            s = s\<lparr>r_cmt := (r_cmt s)\<lparr>mappedSize := getTotalMappedBufferSize s commandP\<rparr>\<rparr> in
        if mappedSize (r_cmt s) = 0 then (ROOTPA_COMMAND_NOT_SUPPORTED, commandP, responseP, s)
        else
          let (ret, commandP, responseP, s) = cmp_loop W commandId handle commandP responseP s;
              (ret, responseP, s) =
                (if ROOTPA_OK = ret then handleResponse W commandId responseP handle s
                 else (ret, responseP\<lparr>hdr_ret := ret\<rparr>, s));
              (mcRet, s) = mcUnmap W (mappedP (r_cmt s)) s;
              ret = (if mcRet \<noteq> MC_DRV_OK then ROOTPA_ERROR_MOBICORE_CONNECTION else ret);
              s = free_ptr (mappedP (r_cmt s)) s;
              commandP = (if hdr_ret commandP = ROOTPA_OK then commandP\<lparr>hdr_ret := ret\<rparr> else commandP);
              responseP = (if hdr_ret responseP = ROOTPA_OK then responseP\<lparr>hdr_ret := ret\<rparr> else responseP)
          in (ret, commandP, responseP, s))"

section \<open>A request\<close>

text \<open>
  The commands of a request in order; the first component tells whether the code returned out of
  the loop, because a command failed whose errors are not to be ignored.
\<close>

fun commands_loop ::
    "rworld \<Rightarrow> nat \<Rightarrow> (CmpMessage \<times> CmpMessage) list \<Rightarrow> u32 \<Rightarrow> rstate
      \<Rightarrow> bool \<times> u32 \<times> (CmpMessage \<times> CmpMessage) list \<times> rstate" where
  "commands_loop W handle [] ret s = (False, ret, [], s)"
| "commands_loop W handle ((c, r) # rest) ret s =
     (let r = r\<lparr>hdr_id := hdr_id c, ignoreError := ignoreError c\<rparr> in
      if 0 < cm_length c then
        let (iRet, c, r, s) = executeOneCmpCommand W handle c r s in
        if iRet \<noteq> ROOTPA_OK then
          let ret = iRet;
              r = (if ROOTPA_OK = hdr_ret r then r\<lparr>hdr_ret := ret\<rparr> else r) in
          if \<not> ignoreError c then (True, ret, (c, r) # rest, s)
          else let (early, ret, done, s) = commands_loop W handle rest ret s in (early, ret, (c, r) # done, s)
        else let (early, ret, done, s) = commands_loop W handle rest ret s in (early, ret, (c, r) # done, s)
      else let (early, ret, done, s) = commands_loop W handle rest ret s in (early, ret, (c, r) # done, s))"

definition executeContentManagementCommands ::
    "rworld \<Rightarrow> (CmpMessage \<times> CmpMessage) list \<Rightarrow> rstate \<Rightarrow> u32 \<times> u32 \<times> (CmpMessage \<times> CmpMessage) list \<times> rstate" where
  "executeContentManagementCommands W msgs s =
     (let internalError = 0;
          selfOpened = (g_handle s = 0);
          (ret, s) = (if g_handle s = 0 then openCmtlSession W s else (ROOTPA_OK, s));
          handle = g_handle s in
      if handle \<noteq> 0 then
        let (early, ret, msgs, s) = commands_loop W handle msgs ret s in
        if early then (ret, internalError, msgs, s)
        else
          let internalError = (if ret \<noteq> ROOTPA_OK then lasterror (r_cmt s) else internalError);
              s = (if selfOpened then closeCmtlSession W s else s)
          in (ret, internalError, msgs, s)
      else
        let ret = (if MC_DRV_ERR_NO_FREE_MEMORY = internalError then ROOTPA_ERROR_OUT_OF_MEMORY
                   else ROOTPA_ERROR_MOBICORE_CONNECTION);
            s = (if selfOpened then closeCmtlSession W s else s)
        in (ret, internalError, msgs, s))"

definition uploadSo :: "rworld \<Rightarrow> nat \<Rightarrow> u32 \<Rightarrow> rstate \<Rightarrow> u32 \<times> u32 \<times> rstate" where
  "uploadSo W containerDataP containerLength s =
     (let (regRet, s) = regWriteAuthToken W containerDataP 0 containerLength s
      in ((if regRet \<noteq> MC_DRV_OK then ROOTPA_ERROR_REGISTRY else ROOTPA_OK), regRet, s))"

end
