(* ===== verification/ContentManagerLaws.thy ===== *)
theory ContentManagerLaws
  imports ContentManager
begin

text \<open>
  What the execution of a command guarantees: it touches only live memory and leaks nothing, as
  long as the secure world keeps its part of the contract; its retry loop asks for ever larger
  buffers and ends.
\<close>

section \<open>A command touches only live memory and leaks nothing\<close>

text \<open>
  An open channel between commands; the contract of the secure world that no response element
  wraps around 32 bits; and what a round may assume of the command.
\<close>

definition open_chan :: "rworld \<Rightarrow> rstate \<Rightarrow> bool" where
  "open_chan W s = (heap_ok s \<and> wsmP (r_cmt s) \<in> blocks s
     \<and> length (hblock s (wsmP (r_cmt s))) = csize (cmp_t (rw_ps W)))"

definition elements_fit :: "u8 list \<Rightarrow> bool" where
  "elements_fit wsm = list_all (\<lambda>k. unat (le32 wsm (12 + k * 8)) + unat (le32 wsm (16 + k * 8)) < 2 ^ 32) [0, 1, 2]"

definition swd_sound :: "rworld \<Rightarrow> bool" where
  "swd_sound W = (\<forall>ev w m. elements_fit (fit (csize (cmp_t (rw_ps W))) (fst (rw_swd W ev w m))))"

definition round_ok :: "rworld \<Rightarrow> u32 \<Rightarrow> CmpMessage \<Rightarrow> rstate \<Rightarrow> bool" where
  "round_ok W c cmd s = (open_chan W s \<and> in_block s (contentP cmd) 0 (unat (cm_length cmd))
     \<and> unat (cm_length cmd) < 2 ^ 31 \<and> unat (cm_length cmd) \<le> unat (mappedSize (r_cmt s))
     \<and> 8 \<le> unat (mappedSize (r_cmt s)) \<and> (carries_ids c \<longrightarrow> 32 \<le> unat (mappedSize (r_cmt s)))
     \<and> (c = 3 \<longrightarrow> no_move W) \<and> pointer_width W \<and> registry_sound W)"

text \<open>After a round: the blocks of before, and the mapped buffer if there is one.\<close>

definition round_done :: "rstate \<Rightarrow> rstate \<Rightarrow> bool" where
  "round_done s t = (heap_ok t \<and> r_faults t = r_faults s \<and> wsmP (r_cmt t) = wsmP (r_cmt s)
     \<and> (\<forall>q\<in>blocks s. length (hblock t q) = length (hblock s q))
     \<and> (mbuf t = 0 \<and> blocks t = blocks s
        \<or> mbuf t \<notin> blocks s \<and> blocks t = insert (mbuf t) (blocks s)
          \<and> unat (mappedSize (r_cmt t)) \<le> length (hblock t (mbuf t))))"

lemma open_chan_malloc:
  assumes "malloc W n s = (p, t)" "open_chan W s"
  shows "heap_ok t" "r_cmt t = r_cmt s" "r_faults t = r_faults s"
    "if p = 0 then blocks t = blocks s else p \<notin> blocks s \<and> blocks t = insert p (blocks s) \<and> length (hblock t p) = n"
    "q \<in> blocks s \<Longrightarrow> hblock t q = hblock s q"
proof -
  have h: "heap_ok s" using assms(2) by (simp add: open_chan_def)
  note fresh = heap_ok_fresh [OF h]
  have q: "q \<in> blocks s \<Longrightarrow> q \<noteq> r_next s" using fresh by auto
  show "heap_ok t" "r_cmt t = r_cmt s" "r_faults t = r_faults s"
    "if p = 0 then blocks t = blocks s else p \<notin> blocks s \<and> blocks t = insert p (blocks s) \<and> length (hblock t p) = n"
    "q \<in> blocks s \<Longrightarrow> hblock t q = hblock s q"
    using q fresh h by (cases rule: malloc_cases [OF assms(1)]; simp)+
qed

lemma round_start:
  assumes "round_ok W c cmd s" "malloc W (unat (mappedSize (r_cmt s))) s = (p, s1)" "p \<noteq> 0"
    "s2 = poke p 0 (replicate (unat (mappedSize (r_cmt s))) 0) (s1\<lparr>r_cmt := (r_cmt s1)\<lparr>mappedP := p\<rparr>\<rparr>)"
    "mcMap W p (mappedSize (r_cmt s)) s2 = (e, s3)"
  shows "chan_ok W s3" "mbuf s3 = p" "p \<notin> blocks s" "blocks s3 = insert p (blocks s)" "r_faults s3 = r_faults s"
    "mappedSize (r_cmt s3) = mappedSize (r_cmt s)" "wsmP (r_cmt s3) = wsmP (r_cmt s)"
    "q \<in> blocks s \<Longrightarrow> length (hblock s3 q) = length (hblock s q)"
    "in_block s3 (contentP cmd) 0 (unat (cm_length cmd))"
proof -
  have oc: "open_chan W s" using assms(1) by (simp add: round_ok_def)
  note m = open_chan_malloc [OF assms(2) oc]
  note f = mcMap_frame [OF assms(5)]
  have p: "p \<notin> blocks s" "blocks s1 = insert p (blocks s)" "length (hblock s1 p) = unat (mappedSize (r_cmt s))"
    using m(4) assms(3) by auto
  show b: "blocks s3 = insert p (blocks s)" using f(4) p(2) by (simp add: assms(4))
  show "mbuf s3 = p" using f(9) by (simp add: assms(4) mbuf_def)
  show "r_faults s3 = r_faults s"
    unfolding f(7) assms(4) using p m(3) by (subst in_block_poke) (auto simp: in_block_def)
  show "mappedSize (r_cmt s3) = mappedSize (r_cmt s)" using f(1) m(2) by (simp add: assms(4))
  show w: "wsmP (r_cmt s3) = wsmP (r_cmt s)" using f(8) m(2) by (simp add: assms(4))
  show len: "length (hblock s3 q) = length (hblock s q)" if "q \<in> blocks s" for q
    using f(6) m(5) [OF that] by (simp add: assms(4))
  show "p \<notin> blocks s" by (rule p)
  have "wsmP (r_cmt s) \<noteq> p" using oc p(1) by (auto simp: open_chan_def)
  then show "chan_ok W s3"
    using oc b w len [of "wsmP (r_cmt s)"] f m(1,2) p(3)
    by (auto simp: chan_ok_def open_chan_def assms(4) mbuf_def)
  show "in_block s3 (contentP cmd) 0 (unat (cm_length cmd))"
    using assms(1) b len [of "contentP cmd"] by (auto simp: round_ok_def in_block_def)
qed

lemma wait_answer:
  assumes "mcWaitNotification W n s = (r, t)" "wsmP (r_cmt s) \<in> blocks s"
  shows "\<exists>ev u m. hblock t (wsmP (r_cmt s)) = fit (length (hblock s (wsmP (r_cmt s)))) (fst (rw_swd W ev u m))"
    "r_cmt t = r_cmt s"
proof -
  obtain w' m' where sw: "rw_swd W (r_ev s) (hblock s (wsmP (r_cmt s))) (hblock s (r_mapped s)) = (w', m')" by force
  have "length (hblock (set_block (r_mapped s) (\<lambda>b. fit (length b) m') s) (wsmP (r_cmt s))) = length (hblock s (wsmP (r_cmt s)))"
    by (simp add: hblock_set_block)
  then have "hblock t (wsmP (r_cmt s)) = fit (length (hblock s (wsmP (r_cmt s)))) w'"
    using assms sw by (auto simp: mcWaitNotification_def hblock_set_block Let_def)
  then show "\<exists>ev u m. hblock t (wsmP (r_cmt s)) = fit (length (hblock s (wsmP (r_cmt s)))) (fst (rw_swd W ev u m))"
    using sw by (metis fst_conv)
  show "r_cmt t = r_cmt s" using assms(1) sw by (auto simp: mcWaitNotification_def Let_def)
qed

lemma transmit_ok:
  assumes "tltChannelTransmit W h n s = (ok, t)" "chan_ok W s"
  shows "keeps s t" "r_faults t = r_faults s" "chan_ok W t" "ok \<Longrightarrow> swd_sound W \<Longrightarrow> elements_ok t"
proof -
  show k: "keeps s t"
    using assms by (auto simp: tltChannelTransmit_def mcWaitNotification_def keeps_def mbuf_def hblock_set_block
        Let_def split: prod.splits if_splits)
  show "r_faults t = r_faults s"
    using assms(1) by (auto simp: tltChannelTransmit_def mcWaitNotification_def Let_def split: prod.splits if_splits)
  show "chan_ok W t" by (rule chan_ok_keeps [OF assms(2) k])
  show "elements_ok t" if "ok" "swd_sound W"
  proof -
    have w: "wsmP (r_cmt s) \<in> blocks s" using assms(2) by (simp add: chan_ok_def)
    define s1 where "s1 = (r_note (Drv McNotify MC_DRV_OK) s)\<lparr>r_cmt := (r_cmt s)\<lparr>lasterror := MC_DRV_OK\<rparr>\<rparr>"
    obtain r s2 where wt: "mcWaitNotification W n s1 = (r, s2)" by force
    have t: "t = s2\<lparr>r_cmt := (r_cmt s2)\<lparr>lasterror := r\<rparr>\<rparr>"
      using assms(1) that(1) wt by (auto simp: tltChannelTransmit_def s1_def Let_def split: if_splits)
    have "wsmP (r_cmt s1) \<in> blocks s1" using w by (simp add: s1_def)
    then obtain ev u m where e: "hblock t (wsmP (r_cmt s)) = fit (csize (cmp_t (rw_ps W))) (fst (rw_swd W ev u m))"
        "wsmP (r_cmt t) = wsmP (r_cmt s)"
      using wait_answer [OF wt] t assms(2) by (auto simp: s1_def chan_ok_def)
    then show ?thesis using that(2) by (simp add: elements_ok_def peek32_def swd_sound_def elements_fit_def)
  qed
qed

text \<open>From the start of a round, whatever keeps the channel leaves the round done.\<close>

lemma keeps_round_done:
  assumes "chan_ok W s3" "mbuf s3 \<notin> blocks s" "blocks s3 = insert (mbuf s3) (blocks s)" "r_faults t = r_faults s"
    "wsmP (r_cmt s3) = wsmP (r_cmt s)" "\<And>q. q \<in> blocks s \<Longrightarrow> length (hblock s3 q) = length (hblock s q)" "keeps s3 t"
  shows "round_done s t"
proof -
  have k: "heap_ok t" "mbuf t \<in> blocks t" "blocks t - {mbuf t} = blocks s" "wsmP (r_cmt t) = wsmP (r_cmt s)"
      "mappedSize (r_cmt t) = mappedSize (r_cmt s3)" "unat (mappedSize (r_cmt s3)) \<le> length (hblock t (mbuf t))"
      "\<And>q. q \<in> blocks s \<Longrightarrow> length (hblock t q) = length (hblock s3 q)"
    using assms unfolding keeps_def chan_ok_def by auto
  then have "mbuf t \<notin> blocks s" "blocks t = insert (mbuf t) (blocks s)" by auto
  then show ?thesis using k assms(4,6) by (auto simp: round_done_def)
qed

lemma prepareCommand_content: "prepareCommand W c cmd rsp s = (ret, rsp', s') \<Longrightarrow> contentP rsp' = contentP rsp"
  by (auto simp: prepareCommand_def Let_def split: prod.splits if_splits)

lemma cmp_round_safe:
  assumes "round_ok W c cmd s" "swd_sound W"
  shows "case cmp_round W c h cmd rsp s of
      Leave ret cmd' rsp' t \<Rightarrow> round_done s t \<and> contentP rsp' = contentP rsp
        \<and> (ret = ROOTPA_OK \<longrightarrow> mbuf t \<noteq> 0 \<and> elements_ok t \<and> mappedSize (r_cmt t) = mappedSize (r_cmt s))
    | Again cmd' rsp' t \<Rightarrow> cmd' = cmd \<and> contentP rsp' = contentP rsp \<and> round_ok W c cmd t
        \<and> blocks t = blocks s \<and> r_faults t = r_faults s \<and> wsmP (r_cmt t) = wsmP (r_cmt s)
        \<and> (\<forall>q\<in>blocks s. length (hblock t q) = length (hblock s q))"
proof (cases rule: cmp_round_cases [of W s c h cmd rsp])
  case (oom s1)
  have oc: "open_chan W s" using assms(1) by (simp add: round_ok_def)
  show ?thesis
    using open_chan_malloc [OF oom(1) oc] oom(2) by (simp add: round_done_def mbuf_def)
next
  case (unmapped p s1 s2 s3 e)
  note st = round_start [OF assms(1) unmapped(1-4)]
  have "round_done s s3" using st by (intro keeps_round_done [of W s3 s s3]) auto
  then show ?thesis using unmapped(6) by simp
next
  case (unprepared p s1 s2 s3 s4 ret rsp')
  note st = round_start [OF assms(1) unprepared(1-4)]
  have "r_faults s4 = r_faults s3"
    using assms(1) st prepareCommand_memory [OF unprepared(5) st(1)] by (auto simp: round_ok_def)
  then have "round_done s s4"
    using st prepareCommand_keeps [OF unprepared(5)] by (intro keeps_round_done [of W s3 s s4]) auto
  then show ?thesis using unprepared(6,7) prepareCommand_content [OF unprepared(5)] by simp
next
  case (answered p s1 s2 s3 s4 s5 ok rsp')
  note st = round_start [OF assms(1) answered(1-4)]
  have s4: "r_faults s4 = r_faults s3" "chan_ok W s4"
    using assms(1) st prepareCommand_memory [OF answered(5) st(1)] by (auto simp: round_ok_def)
  note tx = transmit_ok [OF answered(6) s4(2)]
  have k: "keeps s3 s5" using prepareCommand_keeps [OF answered(5)] tx(1) by (rule keeps_trans)
  have rd: "round_done s s5"
    using st s4(1) tx(2) by (intro keeps_round_done [OF st(1) _ _ _ _ _ k]) auto
  have "heap_ok s5" "mbuf s5 \<in> blocks s5" using tx(3) by (auto simp: chan_ok_def)
  then have live: "mbuf s5 \<noteq> 0" by (metis heap_ok_fresh(2))
  have size: "mappedSize (r_cmt s5) = mappedSize (r_cmt s)" using answered_steady(2) [OF answered(1,3-6)] .
  have cont: "contentP rsp' = contentP rsp" by (rule prepareCommand_content [OF answered(5)])
  from answered(7) show ?thesis
  proof
    assume "\<exists>ret cmd'' rsp''. cmp_round W c h cmd rsp s = Leave ret cmd'' rsp'' s5 \<and> contentP rsp'' = contentP rsp' \<and> ignoreError cmd'' = ignoreError cmd
        \<and> (ret = ROOTPA_OK \<longrightarrow> ok)"
    then show ?thesis using rd live size cont tx(4) assms(2) by auto
  next
    assume "\<exists>e s6. mcUnmap W (mbuf s5) s5 = (e, s6)
          \<and> mappedSize (r_cmt s5) < getNeededBytesFromResponse s5 (wsmP (r_cmt s5))
          \<and> (if e = MC_DRV_OK
             then cmp_round W c h cmd rsp s = Again cmd rsp'
               ((free_ptr (mbuf s6) s6)\<lparr>r_cmt := (r_cmt s6)\<lparr>mapInfo := \<lparr>sVirtualAddr = 0, sVirtualLen = 0\<rparr>,
                  mappedSize := getNeededBytesFromResponse s5 (wsmP (r_cmt s5))\<rparr>\<rparr>)
             else cmp_round W c h cmd rsp s
               = Leave ROOTPA_ERROR_MOBICORE_CONNECTION (cmd\<lparr>intRet := e\<rparr>) (rsp'\<lparr>intRet := e\<rparr>) s6)"
    then obtain e s6 where um: "mcUnmap W (mbuf s5) s5 = (e, s6)"
        "mappedSize (r_cmt s5) < getNeededBytesFromResponse s5 (wsmP (r_cmt s5))"
        "if e = MC_DRV_OK
             then cmp_round W c h cmd rsp s = Again cmd rsp'
               ((free_ptr (mbuf s6) s6)\<lparr>r_cmt := (r_cmt s6)\<lparr>mapInfo := \<lparr>sVirtualAddr = 0, sVirtualLen = 0\<rparr>,
                  mappedSize := getNeededBytesFromResponse s5 (wsmP (r_cmt s5))\<rparr>\<rparr>)
             else cmp_round W c h cmd rsp s
               = Leave ROOTPA_ERROR_MOBICORE_CONNECTION (cmd\<lparr>intRet := e\<rparr>) (rsp'\<lparr>intRet := e\<rparr>) s6"
      by blast
    note f = mcUnmap_frame [OF um(1)]
    have rd6: "round_done s s6" using rd f by (simp add: round_done_def mbuf_def)
    show ?thesis
    proof (cases "e = MC_DRV_OK")
      case False
      then show ?thesis using um(3) rd6 cont by simp
    next
      case True
      define t where "t = (free_ptr (mbuf s6) s6)\<lparr>r_cmt := (r_cmt s6)\<lparr>mapInfo := \<lparr>sVirtualAddr = 0, sVirtualLen = 0\<rparr>,
          mappedSize := getNeededBytesFromResponse s5 (wsmP (r_cmt s5))\<rparr>\<rparr>"
      have m6: "mbuf s6 \<notin> blocks s" "blocks s6 = insert (mbuf s6) (blocks s)" "heap_ok s6" "mbuf s6 \<noteq> 0"
        using rd6 live f(8) by (auto simp: round_done_def)
      have t: "blocks t = blocks s" "r_faults t = r_faults s" "heap_ok t" "wsmP (r_cmt t) = wsmP (r_cmt s)"
          "unat (mappedSize (r_cmt s)) < unat (mappedSize (r_cmt t))"
          "\<forall>q\<in>blocks s. length (hblock t q) = length (hblock s q)"
        using m6 rd6 um(2) size by (auto simp: t_def round_done_def word_less_nat_alt)
      have "round_ok W c cmd t"
        using assms(1) t unfolding round_ok_def open_chan_def in_block_def by auto
      then show ?thesis using um(3) True t cont by (simp add: t_def [symmetric])
    qed
  qed
qed

lemma cmp_loop_safe:
  assumes "cmp_loop W c h cmd rsp s = (ret, cmd', rsp', t)" "round_ok W c cmd s" "swd_sound W"
  shows "round_done s t \<and> contentP rsp' = contentP rsp
    \<and> (ret = ROOTPA_OK \<longrightarrow> mbuf t \<noteq> 0 \<and> elements_ok t \<and> 8 \<le> unat (mappedSize (r_cmt t)))"
  using assms
proof (induction W c h cmd rsp s rule: cmp_loop.induct)
  case (1 W c h cmd rsp s)
  note safe = cmp_round_safe [where h = h and rsp = rsp, OF "1.prems"(2,3)]
  have size: "8 \<le> unat (mappedSize (r_cmt s))" using "1.prems"(2) by (simp add: round_ok_def)
  show ?case
  proof (cases "cmp_round W c h cmd rsp s")
    case (Leave r c1 r1 u)
    then show ?thesis using "1.prems"(1) safe size by (simp add: cmp_loop.simps [of W c h cmd rsp s])
  next
    case (Again c1 r1 u)
    then have a: "c1 = cmd" "contentP r1 = contentP rsp" "round_ok W c cmd u" "blocks u = blocks s"
        "r_faults u = r_faults s" "wsmP (r_cmt u) = wsmP (r_cmt s)" "\<forall>q\<in>blocks s. length (hblock u q) = length (hblock s q)"
      using safe by auto
    have "cmp_loop W c h c1 r1 u = (ret, cmd', rsp', t)"
      using "1.prems"(1) Again by (simp add: cmp_loop.simps [of W c h cmd rsp s])
    then have "round_done u t \<and> contentP rsp' = contentP r1
        \<and> (ret = ROOTPA_OK \<longrightarrow> mbuf t \<noteq> 0 \<and> elements_ok t \<and> 8 \<le> unat (mappedSize (r_cmt t)))"
      using "1.IH" [OF Again] a(1,3) "1.prems"(3) by simp
    then show ?thesis using a by (auto simp: round_done_def)
  qed
qed

lemma round_done_chan:
  assumes "round_done s t" "open_chan W s" "mbuf t \<noteq> 0"
  shows "chan_ok W t" "blocks t - {mbuf t} = blocks s" "mbuf t \<in> blocks t" "mbuf t \<notin> blocks s"
  using assms by (auto simp: round_done_def open_chan_def chan_ok_def)

text \<open>The end of a command: the mapped buffer is unmapped and freed.\<close>

lemma unmapped_done:
  assumes "mcUnmap W (mbuf s3) s3 = (r3, s4)" "t = free_ptr (mbuf s4) s4"
    and "r_faults s3 = r_faults s \<and> wsmP (r_cmt s3) = wsmP (r_cmt s) \<and> (mbuf s3 = 0 \<and> open_chan W s3 \<and> blocks s3 = blocks s \<and> r2 \<noteq> ROOTPA_OK \<and> q \<in> {p0, 0}
         \<or> chan_ok W s3 \<and> (\<exists>new. blocks s3 - {mbuf s3} = blocks s \<union> new
              \<and> (new = {} \<and> r2 \<noteq> ROOTPA_OK \<and> q \<in> {p0, 0} \<or> new = {q} \<and> q \<notin> blocks s \<and> length (hblock s3 q) = n)))"
    and "ret = ROOTPA_OK \<longrightarrow> r2 = ROOTPA_OK"
  shows "r_faults t = r_faults s \<and> open_chan W t \<and> wsmP (r_cmt t) = wsmP (r_cmt s)
    \<and> (blocks t = blocks s \<and> ret \<noteq> ROOTPA_OK \<and> q \<in> {p0, 0}
       \<or> q \<notin> blocks s \<and> blocks t = insert q (blocks s) \<and> length (hblock t q) = n)"
proof (cases "mbuf s3 = 0")
  case True
  have "\<not> chan_ok W s3" using True heap_ok_fresh(2) [of s3] by (auto simp: chan_ok_def)
  then show ?thesis
    using assms True mcUnmap_frame [OF assms(1)] by (fastforce simp: free_ptr_def open_chan_def)
next
  case False
  note f = mcUnmap_frame [OF assms(1)]
  have ch: "chan_ok W s3" "\<exists>new. blocks s3 - {mbuf s3} = blocks s \<union> new
      \<and> (new = {} \<and> r2 \<noteq> ROOTPA_OK \<and> q \<in> {p0, 0} \<or> new = {q} \<and> q \<notin> blocks s \<and> length (hblock s3 q) = n)"
    using assms(3) False by blast+
  have "heap_ok s4" "mbuf s4 \<in> blocks s4" using ch(1) f by (auto simp: chan_ok_def)
  then have t: "blocks t = blocks s3 - {mbuf s3}" "r_faults t = r_faults s3" "heap_ok t" "wsmP (r_cmt t) = wsmP (r_cmt s3)"
    using f assms(2) by auto
  have "open_chan W t" using ch(1) t f assms(2) by (auto simp: chan_ok_def open_chan_def)
  moreover from ch(2) obtain new where new: "blocks s3 - {mbuf s3} = blocks s \<union> new"
    "new = {} \<and> r2 \<noteq> ROOTPA_OK \<and> q \<in> {p0, 0} \<or> new = {q} \<and> q \<notin> blocks s \<and> length (hblock s3 q) = n" by blast
  moreover have "hblock t q = hblock s3 q" if "q \<in> blocks s3 - {mbuf s3}"
    using that f assms(2) \<open>heap_ok s4\<close> \<open>mbuf s4 \<in> blocks s4\<close> by simp
  moreover have "r_faults t = r_faults s" "wsmP (r_cmt t) = wsmP (r_cmt s)" using t(2,4) assms(3) by simp_all
  ultimately show ?thesis using t(1) assms(4) by (elim disjE) auto
qed

lemma execute_refused:
  "h = 0 \<or> contentP cmd = 0 \<or> unat (cm_length cmd) < csize U32
     \<Longrightarrow> executeOneCmpCommand W h cmd rsp s = (ROOTPA_ERROR_INTERNAL, cmd, rsp, s)"
  unfolding executeOneCmpCommand_def by presburger

lemma execute_unsupported:
  assumes "\<not> (h = 0 \<or> contentP cmd = 0 \<or> unat (cm_length cmd) < csize U32)"
    "s1 = (touch (contentP cmd) 0 4 s)\<lparr>r_cmt := (r_cmt s)\<lparr>mappedSize := getTotalMappedBufferSize (touch (contentP cmd) 0 4 s) cmd\<rparr>\<rparr>"
    "mappedSize (r_cmt s1) = 0"
  shows "executeOneCmpCommand W h cmd rsp s = (ROOTPA_COMMAND_NOT_SUPPORTED, cmd, rsp, s1)"
  using assms by (simp add: executeOneCmpCommand_def Let_def)

lemma execute_one_memory:
  assumes "executeOneCmpCommand W h cmd rsp s = (ret, cmd', rsp', t)"
    and "open_chan W s" "pointer_width W" "registry_sound W" "swd_sound W"
    and "in_block s (contentP cmd) 0 (unat (cm_length cmd))" "unat (cm_length cmd) < 2 ^ 31"
    and "getCmpCommandId s (contentP cmd) = MC_CMP_CMD_BEGIN_SP_AUTHENTICATION \<longrightarrow> no_move W"
  shows "r_faults t = r_faults s \<and> open_chan W t \<and> wsmP (r_cmt t) = wsmP (r_cmt s)
    \<and> (blocks t = blocks s \<and> ret \<noteq> ROOTPA_OK \<and> contentP rsp' \<in> {contentP rsp, 0}
       \<or> contentP rsp' \<notin> blocks s \<and> blocks t = insert (contentP rsp') (blocks s)
         \<and> length (hblock t (contentP rsp')) = unat (cm_length rsp'))"
proof -
  define c where "c = getCmpCommandId s (contentP cmd)"
  define s0 where "s0 = touch (contentP cmd) 0 4 s"
  define s1 where "s1 = s0\<lparr>r_cmt := (r_cmt s0)\<lparr>mappedSize := getTotalMappedBufferSize s0 cmd\<rparr>\<rparr>"
  show ?thesis
  proof (cases "h = 0 \<or> contentP cmd = 0 \<or> unat (cm_length cmd) < csize U32")
    case True
    then show ?thesis using assms(1,2) by (auto simp: execute_refused)
  next
    case False
    then have len4: "4 \<le> unat (cm_length cmd)" by simp
    then have f0: "r_faults s1 = r_faults s"
      using assms(6) by (simp add: s1_def s0_def touch_faults in_block_def)
    have b0: "blocks s1 = blocks s" "wsmP (r_cmt s1) = wsmP (r_cmt s)" "heap_ok s1 = heap_ok s"
        "hblock s1 q = hblock s q" for q
      by (simp_all add: s1_def s0_def)
    have size0: "getTotalMappedBufferSize s0 cmd = getTotalMappedBufferSize s cmd"
      by (simp add: getTotalMappedBufferSize_def getCmpCommandId_def s0_def)
    have oc: "open_chan W s1" using assms(2) b0 by (simp add: open_chan_def)
    show ?thesis
    proof (cases "mappedSize (r_cmt s1) = 0")
      case True
      then show ?thesis
        using assms(1) execute_unsupported [OF False _ True, of s W rsp] oc f0 b0(1)
        by (auto simp: s1_def s0_def)
    next
      case nz: False
      then obtain e where e: "getCmpSizeInfo c = Some e" "cmdId e = c"
        using mapped_buffer_bounds [OF assms(7), of s] size0 getCmpSizeInfo_mem(2)
        by (auto simp: c_def s1_def split: option.splits)
      have ro: "round_ok W c cmd s1"
        using mapped_buffer_bounds [OF assms(7), of s] e size0 oc assms b0
        by (auto simp: c_def round_ok_def carries_ids_def s1_def in_block_def)
      obtain r1 c1 p1 s2 where lp: "cmp_loop W c h cmd rsp s1 = (r1, c1, p1, s2)" by (metis prod_cases4)
      note ls = cmp_loop_safe [OF lp ro assms(5)]
      obtain r2 p2 s3 where hr: "(if ROOTPA_OK = r1 then handleResponse W c p1 h s2 else (r1, p1\<lparr>hdr_ret := r1\<rparr>, s2)) = (r2, p2, s3)"
        by (metis prod_cases3)
      obtain r3 s4 where um: "mcUnmap W (mbuf s3) s3 = (r3, s4)" by force
      have fin: "t = free_ptr (mbuf s4) s4" "contentP rsp' = contentP p2" "cm_length rsp' = cm_length p2" "ret = ROOTPA_OK \<longrightarrow> r2 = ROOTPA_OK"
        using assms(1) False nz lp hr um
        by (auto simp: executeOneCmpCommand_def c_def s1_def s0_def mbuf_def Let_def split: if_splits)
      have step: "r_faults s3 = r_faults s \<and> wsmP (r_cmt s3) = wsmP (r_cmt s) \<and> (mbuf s3 = 0 \<and> open_chan W s3 \<and> blocks s3 = blocks s \<and> r2 \<noteq> ROOTPA_OK
           \<and> contentP p2 \<in> {contentP rsp, 0}
         \<or> chan_ok W s3 \<and> (\<exists>new. blocks s3 - {mbuf s3} = blocks s \<union> new
              \<and> (new = {} \<and> r2 \<noteq> ROOTPA_OK \<and> contentP p2 \<in> {contentP rsp, 0}
                \<or> new = {contentP p2} \<and> contentP p2 \<notin> blocks s \<and> length (hblock s3 (contentP p2)) = unat (cm_length p2))))"
      proof (cases "mbuf s2 = 0")
        case True
        then have "s3 = s2" "r2 \<noteq> ROOTPA_OK" "contentP p2 = contentP rsp" using ls hr by auto
        then show ?thesis using ls True f0 b0 oc heap_ok_fresh(2) [of s2]
          by (auto simp: round_done_def open_chan_def)
      next
        case False
        have rd: "round_done s1 s2" using ls by blast
        note ch = round_done_chan [OF rd oc False]
        have f2: "r_faults s2 = r_faults s" "wsmP (r_cmt s2) = wsmP (r_cmt s)" using rd f0 b0(2) by (simp_all add: round_done_def)
        show ?thesis
        proof (cases "r1 = ROOTPA_OK")
          case True
          then have "handleResponse W c p1 h s2 = (r2, p2, s3)" using hr by simp
          note safe = handleResponse_memory [OF this ch(1) assms(4)]
          have p1: "contentP p1 = contentP rsp" "elements_ok s2" "8 \<le> unat (mappedSize (r_cmt s2))" using ls True by auto
          then show ?thesis using safe f2 ch(2) b0(1) unfolding mbuf_def by auto
        next
          case False
          then have "s3 = s2" "r2 \<noteq> ROOTPA_OK" "contentP p2 = contentP rsp" using hr ls by auto
          then show ?thesis using ch f2 b0(1) by auto
        qed
      qed
      from step show ?thesis
        unfolding fin(2,3) by (intro unmapped_done [OF um fin(1) _ fin(4)])
    qed
  qed
qed

definition answering_world :: rworld where
  "answering_world = calm_world\<lparr>rw_swd := (\<lambda>ev w m. ([0, 0, 3, 0, 5, 0, 0, 0x80, 0, 0, 0, 0, 0, 0, 0, 0, 16, 0, 0, 0],
     [5, 0, 0, 0x80, 0, 0, 0, 0, 1]))\<rparr>"


definition version_cmd :: CmpMessage where
  "version_cmd = \<lparr>cm_length = 4, contentP = 5, ignoreError = False, hdr_ret = 0, intRet = 0, hdr_id = 1\<rparr>"

definition version_chan :: rstate where
  "version_chan = rstart\<lparr>r_heap := [(5, [5, 0, 0, 0]), (6, replicate 40 0)], r_next := 7,
     r_cmt := (r_cmt rstart)\<lparr>wsmP := 6\<rparr>, g_handle := 4\<rparr>"

lemma answering_elements:
  "elements_fit (fit 40 [0, 0, 3, 0, 5, 0, 0, 0x80, 0, 0, 0, 0, 0, 0, 0, 0, 16, 0, 0, 0])"
proof -
  let ?w = "fit 40 [0, 0, 3, 0, 5, 0, 0, 0x80, 0, 0, 0, 0, 0, 0, 0, 0, 16, 0, 0, 0 :: u8]"
  have "le32 ?w 12 = 0" "le32 ?w 16 = 16" "le32 ?w 20 = 0" "le32 ?w 24 = 0" "le32 ?w 28 = 0" "le32 ?w 32 = 0"
    by code_simp+
  then show ?thesis by (simp add: elements_fit_def)
qed


section \<open>Repetitions take ever larger buffers\<close>

fun map_sizes :: "revent list \<Rightarrow> u32 list" where
  "map_sizes [] = []"
| "map_sizes (Drv (McMap p n) r # es) = n # map_sizes es"
| "map_sizes (e # es) = map_sizes es"

lemma map_sizes_chan_events: "map_sizes (chan_events es) = map_sizes es"
  by (induction es rule: map_sizes.induct) auto

lemma cmp_round_maps:
  "case cmp_round W c h cmd rsp s of
      Leave r c1 r1 t \<Rightarrow> map_sizes (r_ev t) = map_sizes (r_ev s)
        \<or> map_sizes (r_ev t) = mappedSize (r_cmt s) # map_sizes (r_ev s)
    | Again c1 r1 t \<Rightarrow> map_sizes (r_ev t) = mappedSize (r_cmt s) # map_sizes (r_ev s)"
proof -
  have ms: "map_sizes es = map_sizes fs" if "chan_events es = chan_events fs" for es fs
    using that map_sizes_chan_events by metis
  have m1: "map_sizes (r_ev u) = n # map_sizes (r_ev s)" if "chan_events (r_ev u) = Drv (McMap p n) e # chan_events (r_ev s)"
    for u p n e
    using that map_sizes_chan_events [of "r_ev u"] map_sizes_chan_events [of "r_ev s"] by simp
  have m2: "map_sizes (r_ev v) = map_sizes (r_ev u)" if "chan_events (r_ev v) = Drv (McUnmap p) e # chan_events (r_ev u)"
    for u v p e
    using that map_sizes_chan_events [of "r_ev v"] map_sizes_chan_events [of "r_ev u"] by simp
  show ?thesis
  proof (cases rule: cmp_round_cases [of W s c h cmd rsp])
    case (oom s1)
    have "map_sizes (r_ev s1) = map_sizes (r_ev s)"
      using steady_malloc [OF oom(1)] by (intro ms) (simp add: steady_def)
    then show ?thesis using oom(2) by simp
  next
    case (unmapped p s1 s2 s3 e)
    have "steady s s2" using steady_malloc [OF unmapped(1)] by (simp add: unmapped(3) steady_def)
    then have "chan_events (r_ev s3) = Drv (McMap p (mappedSize (r_cmt s))) e # chan_events (r_ev s)"
      using mcMap_frame(3) [OF unmapped(4)] by (simp add: steady_def)
    then have "map_sizes (r_ev s3) = mappedSize (r_cmt s) # map_sizes (r_ev s)" by (rule m1)
    then show ?thesis using unmapped(6) by simp
  next
    case (unprepared p s1 s2 s3 s4 ret rsp')
    have "steady s s2" using steady_malloc [OF unprepared(1)] by (simp add: unprepared(3) steady_def)
    then have "chan_events (r_ev s4) = Drv (McMap p (mappedSize (r_cmt s))) MC_DRV_OK # chan_events (r_ev s)"
      using mcMap_frame(3) [OF unprepared(4)] prepareCommand_steady [OF unprepared(5)] by (simp add: steady_def)
    then have "map_sizes (r_ev s4) = mappedSize (r_cmt s) # map_sizes (r_ev s)" by (rule m1)
    then show ?thesis using unprepared(7) by simp
  next
    case (answered p s1 s2 s3 s4 s5 ok rsp')
    have "map_sizes (r_ev s5) = mappedSize (r_cmt s) # map_sizes (r_ev s)"
      using answered_steady(8) [OF answered(1,3-6)] m1 by blast
    moreover have "map_sizes (r_ev s6) = map_sizes (r_ev s5)" "map_sizes (r_ev (free_ptr q s6)) = map_sizes (r_ev s5)"
      if "mcUnmap W (mbuf s5) s5 = (e, s6)" for e s6 q
      using m2 [OF mcUnmap_frame(3) [OF that]] ms [of "r_ev (free_ptr q s6)" "r_ev s6"] by auto
    ultimately show ?thesis using answered(7) by (auto split: if_splits)
  qed
qed

lemma last_least:
  "sorted_wrt (\<lambda>a b. b < a) ns \<Longrightarrow> n \<in> set ns \<Longrightarrow> last ns \<le> (n :: 'a :: order)"
  by (induction ns rule: rev_induct) (auto simp: sorted_wrt_append intro: less_imp_le)

text \<open>
  C35: The retry loop of a command terminates, and quickly for what it does. The sizes handed to
  \<^verbatim>\<open>mcMap\<close> (the latest first) are strictly decreasing read backwards in time, the first being the size
  the loop starts with: each repetition happens only because the secure world asked for strictly
  more bytes than the buffer had, in 32-bit arithmetic, so the loop ends for every behaviour of the
  secure world, the driver and the allocator.
\<close>

theorem retries_grow:
  "let (ret, cmd', rsp', t) = cmp_loop W c h cmd rsp s
   in \<exists>ns. map_sizes (r_ev t) = ns @ map_sizes (r_ev s) \<and> sorted_wrt (\<lambda>a b. b < a) ns
        \<and> (ns = [] \<or> last ns = mappedSize (r_cmt s))"
proof (induction W c h cmd rsp s rule: cmp_loop.induct)
  case (1 W c h cmd rsp s)
  note maps = cmp_round_maps [where W = W and c = c and h = h and cmd = cmd and rsp = rsp and s = s]
  show ?case
  proof (cases "cmp_round W c h cmd rsp s")
    case (Leave r c1 r1 u)
    have "\<exists>ns. map_sizes (r_ev u) = ns @ map_sizes (r_ev s) \<and> sorted_wrt (\<lambda>a b. b < a) ns
        \<and> (ns = [] \<or> last ns = mappedSize (r_cmt s))"
      using maps Leave by (auto intro: exI [of _ "[]"] exI [of _ "[mappedSize (r_cmt s)]"])
    then show ?thesis using Leave by (simp add: cmp_loop.simps [of W c h cmd rsp s])
  next
    case (Again c1 r1 u)
    obtain r2 c2 p2 t where lp: "cmp_loop W c h c1 r1 u = (r2, c2, p2, t)" by (metis prod_cases4)
    then obtain ns where ns: "map_sizes (r_ev t) = ns @ map_sizes (r_ev u)" "sorted_wrt (\<lambda>a b. b < a) ns"
        "ns = [] \<or> last ns = mappedSize (r_cmt u)"
      using "1.IH" [OF Again] by (auto simp: Let_def)
    have grow: "mappedSize (r_cmt s) < mappedSize (r_cmt u)" by (rule cmp_round_grows [OF Again])
    have "mappedSize (r_cmt s) < n" if "n \<in> set ns" for n
    proof -
      have "last ns \<le> n" using ns(2) that by (rule last_least)
      then show ?thesis using ns(3) that grow by auto
    qed
    then have "sorted_wrt (\<lambda>a b. b < a) (ns @ [mappedSize (r_cmt s)])"
      using ns(2) by (simp add: sorted_wrt_append)
    moreover have "map_sizes (r_ev t) = (ns @ [mappedSize (r_cmt s)]) @ map_sizes (r_ev s)"
      using ns(1) maps Again by simp
    moreover have "cmp_loop W c h cmd rsp s = (r2, c2, p2, t)"
      using Again lp by (simp add: cmp_loop.simps [of W c h cmd rsp s])
    ultimately show ?thesis by (simp only: Let_def prod.case) (metis last_snoc)
  qed
qed
end
