(* ===== verification/SessionDiscipline.thy ===== *)
theory SessionDiscipline
  imports ContentManagerLaws
begin

text \<open>
  The session with the content management trustlet over a whole request
  (\<^verbatim>\<open>executeContentManagementCommands\<close>): a command neither opens nor closes anything, so the request
  holds the session exactly from where it opens it to where it closes it, except when it is left
  early. Nothing is assumed here of the environment or of the heap.
\<close>

section \<open>The session is held for exactly as long as the request\<close>

text \<open>What a command leaves alone: the handle and the references to the device and to the session.\<close>

definition held :: "rstate \<Rightarrow> rstate \<Rightarrow> bool" where
  "held s t = (g_handle t = g_handle s \<and> device_refs (r_ev t) = device_refs (r_ev s)
     \<and> session_refs (r_ev t) = session_refs (r_ev s))"

lemma held_refl [simp]: "held s s"
  by (simp add: held_def)

lemma held_trans: "held s t \<Longrightarrow> held t u \<Longrightarrow> held s u"
  by (simp add: held_def)

lemma steady_held: "steady s t \<Longrightarrow> held s t"
  unfolding steady_def held_def by (metis refs_chan_events)

lemma held_updates [simp]:
  "held s (t\<lparr>r_cmt := c\<rparr>) = held s t"
  "held s (t\<lparr>r_faults := f\<rparr>) = held s t"
  "held s (set_block p g t) = held s t"
  "held s (poke p off bs t) = held s t"
  "held s (touch p off n t) = held s t"
  "held s (free_ptr p t) = held s t"
  by (simp_all add: held_def)

lemma mcMap_held: "mcMap W p n s = (r, t) \<Longrightarrow> held s t"
  by (auto simp: mcMap_def held_def split: if_splits)

lemma mcUnmap_held: "mcUnmap W p s = (r, t) \<Longrightarrow> held s t"
  by (auto simp: mcUnmap_def held_def split: if_splits)

lemma regRead_held: "regRead W c s = (r, p, n, t) \<Longrightarrow> held s t"
  by (rule steady_held [OF steady_regRead])

lemma regWrite_held: "regWrite W c p off n s = (r, t) \<Longrightarrow> held s t"
  by (auto simp: regWrite_def held_def Let_def)

lemma regCleanup_held: "regCleanup W c s = (r, t) \<Longrightarrow> held s t"
  by (auto simp: regCleanup_def held_def Let_def)

lemmas held_steps = regRead_held [unfolded held_def] regWrite_held [unfolded held_def] regCleanup_held [unfolded held_def]

lemma store_element_held:
  assumes "store_element write h i off s = (r, t)" "\<And>p o1 n u. write p o1 n s = (r, u) \<Longrightarrow> held s u"
  shows "held s t"
  using assms by (auto simp: store_element_def Let_def split: prod.splits if_splits)

lemma retire_held: "retire_auth_token W s = (r, t) \<Longrightarrow> held s t"
  by (auto simp: retire_auth_token_def reg_wrappers Let_def held_def split: prod.splits if_splits dest!: held_steps)

lemma registration_held:
  "store_sp_registration W h i off s = (r, t) \<Longrightarrow> held s t"
  "store_tlt_registration W h i off s = (r, t) \<Longrightarrow> held s t"
  by (auto simp: store_sp_registration_def store_tlt_registration_def reg_wrappers Let_def held_def
      split: prod.splits if_splits dest!: held_steps)

lemma store_writes_held:
  "store_element (regWrite W c) h i off s = (r, t) \<Longrightarrow> held s t"
  by (erule store_element_held) (rule regWrite_held)

lemma write_eta:
  "regWriteAuthToken W = regWrite W AuthToken" "regWriteRoot W = regWrite W RootCont"
  "regWriteSp W n = regWrite W (SpCont n)" "(\<lambda>p off len. regWriteTlt W u p off len n) = regWrite W (TltCont u n)"
  by (simp_all add: fun_eq_iff reg_wrappers)

lemma storeContainers_held:
  assumes "storeContainers W c h i off s = (r, t)"
  shows "held s t"
  using assms unfolding storeContainers_def Let_def write_eta held_def
  by (auto simp: regCleanupRoot_def regCleanupSp_def regCleanupTlt_def split: prod.splits if_splits
      dest!: store_writes_held [unfolded held_def] retire_held [unfolded held_def]
        registration_held [unfolded held_def] held_steps)

lemma handleResponse_held:
  assumes "handleResponse W c r h s = (ret, r', t)"
  shows "held s t"
  using assms unfolding handleResponse_def allocateResponseBuffer_def Let_def held_def
  by (auto split: prod.splits if_splits dest!: storeContainers_held [unfolded held_def]
      steady_held [OF steady_malloc, unfolded held_def])

section \<open>A command keeps the session\<close>

lemma answered_held:
  assumes "malloc W (unat (mappedSize (r_cmt s))) s = (p, s1)"
    "s2 = poke p 0 (replicate (unat (mappedSize (r_cmt s))) 0) (s1\<lparr>r_cmt := (r_cmt s1)\<lparr>mappedP := p\<rparr>\<rparr>)"
    "mcMap W p (mappedSize (r_cmt s)) s2 = (e, s3)"
  shows "held s s2" "held s s3"
    "prepareCommand W c cmd rsp s3 = (ret, rsp', s4) \<Longrightarrow> held s s4"
    "prepareCommand W c cmd rsp s3 = (ret, rsp', s4) \<Longrightarrow> tltChannelTransmit W h n s4 = (ok, s5) \<Longrightarrow> held s s5"
proof -
  show 2: "held s s2" using steady_held [OF steady_malloc [OF assms(1)]] by (simp add: assms(2))
  then show 3: "held s s3" using mcMap_held [OF assms(3)] by (rule held_trans)
  show 4: "held s s4" if "prepareCommand W c cmd rsp s3 = (ret, rsp', s4)"
    using 3 steady_held [OF prepareCommand_steady [OF that]] by (rule held_trans)
  show "held s s5" if "prepareCommand W c cmd rsp s3 = (ret, rsp', s4)" "tltChannelTransmit W h n s4 = (ok, s5)"
    using 4 [OF that(1)] steady_held [OF transmit_steady [OF that(2)]] by (rule held_trans)
qed

lemma cmp_round_held:
  "cmp_round W c h cmd rsp s = Leave ret cmd' rsp' t \<Longrightarrow> held s t \<and> ignoreError cmd' = ignoreError cmd"
  "cmp_round W c h cmd rsp s = Again cmd' rsp' t \<Longrightarrow> held s t \<and> ignoreError cmd' = ignoreError cmd"
proof -
  have "case cmp_round W c h cmd rsp s of Leave ret cmd' rsp' t \<Rightarrow> held s t \<and> ignoreError cmd' = ignoreError cmd
      | Again cmd' rsp' t \<Rightarrow> held s t \<and> ignoreError cmd' = ignoreError cmd"
  proof (cases rule: cmp_round_cases [of W s c h cmd rsp])
    case (oom s1)
    then show ?thesis using steady_held [OF steady_malloc [OF oom(1)]] by simp
  next
    case (unmapped p s1 s2 s3 e)
    then show ?thesis using answered_held(2) [OF unmapped(1,3,4)] by simp
  next
    case (unprepared p s1 s2 s3 s4 ret rsp')
    then show ?thesis using answered_held(3) [OF unprepared(1,3,4,5)] by simp
  next
    case (answered p s1 s2 s3 s4 s5 ok rsp')
    have 5: "held s s5" by (rule answered_held(4) [OF answered(1,3,4,5,6)])
    then have "held s s6" if "mcUnmap W (mbuf s5) s5 = (e, s6)" for e s6
      using mcUnmap_held [OF that] by (rule held_trans)
    with 5 answered(7) show ?thesis by (auto split: if_splits)
  qed
  then show "cmp_round W c h cmd rsp s = Leave ret cmd' rsp' t \<Longrightarrow> held s t \<and> ignoreError cmd' = ignoreError cmd"
    "cmp_round W c h cmd rsp s = Again cmd' rsp' t \<Longrightarrow> held s t \<and> ignoreError cmd' = ignoreError cmd"
    by simp_all
qed

lemma cmp_loop_held:
  "cmp_loop W c h cmd rsp s = (ret, cmd', rsp', t) \<Longrightarrow> held s t \<and> ignoreError cmd' = ignoreError cmd"
proof (induction W c h cmd rsp s rule: cmp_loop.induct)
  case (1 W c h cmd rsp s)
  show ?case
  proof (cases "cmp_round W c h cmd rsp s")
    case (Leave r c1 r1 u)
    then show ?thesis using "1.prems" cmp_round_held(1) [OF Leave] by (simp add: cmp_loop.simps [of W c h cmd rsp s])
  next
    case (Again c1 r1 u)
    then have "cmp_loop W c h c1 r1 u = (ret, cmd', rsp', t)"
      using "1.prems" by (simp add: cmp_loop.simps [of W c h cmd rsp s])
    from "1.IH" [OF Again this] cmp_round_held(2) [OF Again] show ?thesis by (auto intro: held_trans)
  qed
qed

lemma executeOneCmpCommand_held:
  assumes "executeOneCmpCommand W h cmd rsp s = (ret, cmd', rsp', t)"
  shows "held s t \<and> ignoreError cmd' = ignoreError cmd"
  using assms unfolding executeOneCmpCommand_def Let_def held_def
  by (auto split: prod.splits if_splits
      dest!: cmp_loop_held [unfolded held_def] handleResponse_held [unfolded held_def] mcUnmap_held [unfolded held_def])

lemma commands_loop_held:
  "commands_loop W h msgs r0 s = (early, ret, out, t) \<Longrightarrow>
     held s t \<and> (early \<longrightarrow> ret \<noteq> ROOTPA_OK \<and> (\<exists>(c, r)\<in>set msgs. \<not> ignoreError c))"
proof (induction W h msgs r0 s arbitrary: early ret out t rule: commands_loop.induct)
  case (2 W h c r rest r0 s)
  define r1 where "r1 = r\<lparr>hdr_id := hdr_id c, ignoreError := ignoreError c\<rparr>"
  obtain e c2 r2 u where x: "executeOneCmpCommand W h c r1 s = (e, c2, r2, u)" by (metis prod_cases4)
  note k = executeOneCmpCommand_held [OF x]
  show ?case
  proof (cases "0 < cm_length c")
    case False
    obtain a b d v where l: "commands_loop W h rest r0 s = (a, b, d, v)" by (metis prod_cases4)
    from "2.IH"(3) [OF refl False l] show ?thesis using "2.prems" False l by (auto simp: Let_def)
  next
    case True
    show ?thesis
    proof (cases "e \<noteq> ROOTPA_OK \<and> \<not> ignoreError c2")
      case True
      then show ?thesis using "2.prems" \<open>0 < cm_length c\<close> x k by (auto simp: Let_def r1_def)
    next
      case go: False
      obtain a b d v where l: "commands_loop W h rest (if e \<noteq> ROOTPA_OK then e else r0) u = (a, b, d, v)" by (metis prod_cases4)
      have "held u v \<and> (a \<longrightarrow> b \<noteq> ROOTPA_OK \<and> (\<exists>(c, r)\<in>set rest. \<not> ignoreError c))"
      proof (cases "e = ROOTPA_OK")
        case True
        with "2.IH"(2) [OF refl \<open>0 < cm_length c\<close> x [unfolded r1_def, symmetric] refl refl refl _ ] l show ?thesis by auto
      next
        case False
        with "2.IH"(1) [OF refl \<open>0 < cm_length c\<close> x [unfolded r1_def, symmetric] refl refl refl _ refl refl] l go show ?thesis by auto
      qed
      then show ?thesis using "2.prems" \<open>0 < cm_length c\<close> x k l go
        by (auto simp: Let_def r1_def intro: held_trans split: if_splits)
    qed
  qed
qed simp

section \<open>Opening and closing the session\<close>

lemma close_refs:
  "device_refs (r_ev (tltChannelClose W h s)) = device_refs (r_ev s) - (if h = 0 then 0 else 1)"
  "session_refs (r_ev (tltChannelClose W h s)) = session_refs (r_ev s) - (if h = 0 then 0 else 1)"
  by (simp_all add: tltChannelClose_def mcFreeWsm_def drop_block_def Let_def)

lemma closeCmtlSession_refs:
  "device_refs (r_ev (closeCmtlSession W s)) = device_refs (r_ev s) - (if g_handle s = 0 then 0 else 1)"
  "session_refs (r_ev (closeCmtlSession W s)) = session_refs (r_ev s) - (if g_handle s = 0 then 0 else 1)"
  "g_handle (closeCmtlSession W s) = 0"
  by (simp_all add: closeCmtlSession_def close_refs)

lemma open_refs:
  assumes "tltChannelOpen W n s = (h, r, t)"
  shows "device_refs (r_ev t) = device_refs (r_ev s) + (if h = 0 then 0 else 1)"
    "session_refs (r_ev t) = session_refs (r_ev s) + (if h = 0 then 0 else 1)"
proof -
  obtain p s1 where m: "malloc W (csize (CMTSTRUCT_type (rw_ps W))) s = (p, s1)" by force
  have e: "device_refs (r_ev s1) = device_refs (r_ev s)" "session_refs (r_ev s1) = session_refs (r_ev s)"
    using steady_held [OF steady_malloc [OF m]] by (simp_all add: held_def)
  show "device_refs (r_ev t) = device_refs (r_ev s) + (if h = 0 then 0 else 1)"
    "session_refs (r_ev t) = session_refs (r_ev s) + (if h = 0 then 0 else 1)"
    using assms e m
    by (auto simp: tltChannelOpen_def mcMallocWsm_def mcFreeWsm_def Let_def split: if_splits)
qed

lemma openCmtlSession_refs:
  assumes "openCmtlSession W s = (ret, t)" "g_handle s = 0"
  shows "device_refs (r_ev t) = device_refs (r_ev s) + (if g_handle t = 0 then 0 else 1)"
    "session_refs (r_ev t) = session_refs (r_ev s) + (if g_handle t = 0 then 0 else 1)"
    "ret = ROOTPA_OK \<longleftrightarrow> g_handle t \<noteq> 0"
proof -
  obtain h e u where o: "tltChannelOpen W (sizeOfCmp W) s = (h, e, u)" by (metis prod_cases3)
  from assms o open_refs [OF o] show
    "device_refs (r_ev t) = device_refs (r_ev s) + (if g_handle t = 0 then 0 else 1)"
    "session_refs (r_ev t) = session_refs (r_ev s) + (if g_handle t = 0 then 0 else 1)"
    "ret = ROOTPA_OK \<longleftrightarrow> g_handle t \<noteq> 0"
    by (auto simp: openCmtlSession_def Let_def split: if_splits)
qed

text \<open>
  C7: Who holds the session with the content management trustlet after a request. If it was open
  before (a caller holds the lock), it is the same session afterwards. If the request opened it,
  it is closed again, with every device reference and session given back, unless the request was
  left early: then, and only if some command's errors were not to be ignored and the result is an
  error, the session stays open, one device reference and one session are held, and no internal
  error is reported. If the session could not be opened nothing is held, the internal error is 0,
  and the result is always the connection error, also when memory was what was missing.
\<close>

theorem session_discipline:
  "let (ret, internalError, out, t) = executeContentManagementCommands W msgs s;
       opened = device_refs (r_ev t) - device_refs (r_ev s)
   in session_refs (r_ev t) - session_refs (r_ev s) = opened
    \<and> (if g_handle s \<noteq> 0 then g_handle t = g_handle s \<and> opened = 0
       else if fst (openCmtlSession W s) \<noteq> ROOTPA_OK
       then g_handle t = 0 \<and> opened = 0 \<and> ret = ROOTPA_ERROR_MOBICORE_CONNECTION \<and> internalError = 0
       else if g_handle t = 0 then opened = 0
       else opened = 1 \<and> ret \<noteq> ROOTPA_OK \<and> internalError = 0 \<and> (\<exists>(c, r)\<in>set msgs. \<not> ignoreError c))"
proof -
  obtain r0 s1 where o: "(if g_handle s = 0 then openCmtlSession W s else (ROOTPA_OK, s)) = (r0, s1)" by force
  obtain early ret out t where l: "commands_loop W (g_handle s1) msgs r0 s1 = (early, ret, out, t)" by (metis prod_cases4)
  note h = commands_loop_held [OF l]
  have d: "executeContentManagementCommands W msgs s =
      (if g_handle s1 \<noteq> 0 then
         if early then (ret, 0, out, t)
         else (ret, if ret \<noteq> ROOTPA_OK then lasterror (r_cmt t) else 0, out,
               if g_handle s = 0 then closeCmtlSession W t else t)
       else (ROOTPA_ERROR_MOBICORE_CONNECTION, 0, msgs, if g_handle s = 0 then closeCmtlSession W s1 else s1))"
    unfolding executeContentManagementCommands_def o using l by (simp add: Let_def)
  show ?thesis
  proof (cases "g_handle s = 0")
    case False
    with o have "s1 = s" by simp
    with False h show ?thesis by (auto simp: d held_def closeCmtlSession_refs)
  next
    case True
    then have "openCmtlSession W s = (r0, s1)" using o by simp
    note refs = openCmtlSession_refs [OF this True] and f = this
    show ?thesis
    proof (cases "g_handle s1 = 0")
      case True
      with \<open>g_handle s = 0\<close> refs f show ?thesis by (auto simp: d closeCmtlSession_refs)
    next
      case opened: False
      have "g_handle t \<noteq> 0" using h opened by (simp add: held_def)
      with \<open>g_handle s = 0\<close> opened refs f h show ?thesis
        by (cases early) (auto simp: d closeCmtlSession_refs held_def)
    qed
  qed
qed

text \<open>
  A request left early: one command with no content whose errors count. Its session stays open.
\<close>

definition empty_content :: CmpMessage where
  "empty_content = \<lparr>cm_length = 4, contentP = 0, ignoreError = False, hdr_ret = 0, intRet = 0, hdr_id = 1\<rparr>"

theorem session_left_open:
  "let (ret, internalError, out, t) = executeContentManagementCommands calm_world [(empty_content, empty_content)] rstart
   in ret = ROOTPA_ERROR_INTERNAL \<and> internalError = 0 \<and> g_handle t \<noteq> 0 \<and> session_refs (r_ev t) = 1"
  by code_simp

end
