(* ===== verification/SeClient.thy ===== *)
theory SeClient
  imports Pacmp3
begin

text \<open>
  The HTTP client of \<^verbatim>\<open>rootpa\<close> (\<^verbatim>\<open>seclient.c\<close>): one exchange with the service enabler, the callbacks
  through which \<^verbatim>\<open>libcurl\<close> delivers headers and body and fetches the data to send, and the parser
  of the \<^verbatim>\<open>Link\<close> header that tells the client what to do next. \<^verbatim>\<open>libcurl\<close> is a parameter: which options
  it accepts, what it transfers in an attempt, and how the attempt ends.
\<close>

section \<open>Codes\<close>

abbreviation (input) ROOTPA_ERROR_ILLEGAL_ARGUMENT :: u32 where "ROOTPA_ERROR_ILLEGAL_ARGUMENT \<equiv> 8"
abbreviation (input) ROOTPA_ERROR_NETWORK :: u32 where "ROOTPA_ERROR_NETWORK \<equiv> 9"
abbreviation (input) ROOTPA_ERROR_XML :: u32 where "ROOTPA_ERROR_XML \<equiv> 0xA"
abbreviation (input) ROOTPA_ERROR_SE_CMP_VERSION :: u32 where "ROOTPA_ERROR_SE_CMP_VERSION \<equiv> 0xC"
abbreviation (input) ROOTPA_ERROR_SE_PRECONDITION_NOT_MET :: u32 where "ROOTPA_ERROR_SE_PRECONDITION_NOT_MET \<equiv> 0xD"

abbreviation (input) CURLE_OK :: u32 where "CURLE_OK \<equiv> 0"
abbreviation (input) CURLE_COULDNT_CONNECT :: u32 where "CURLE_COULDNT_CONNECT \<equiv> 7"
abbreviation (input) CURLE_WRITE_ERROR :: u32 where "CURLE_WRITE_ERROR \<equiv> 23"

abbreviation (input) SE_CONNECTION_DEFAULT_TIMEOUT :: int where "SE_CONNECTION_DEFAULT_TIMEOUT \<equiv> 58"
abbreviation (input) MAX_ATTEMPTS :: nat where "MAX_ATTEMPTS \<equiv> 30"
abbreviation (input) CERT_PATH_MAX_LEN :: nat where "CERT_PATH_MAX_LEN \<equiv> 256"

section \<open>C strings\<close>

definition cs :: "string \<Rightarrow> u8 list" where
  "cs t = map of_char t"

text \<open>
  The string at a pointer, and the memory access of a function that reads it to its zero byte; a
  block without a zero byte is read past its end, which is a fault.
\<close>

definition cstring :: "rstate \<Rightarrow> nat \<Rightarrow> u8 list" where
  "cstring s p = takeWhile (\<lambda>b. b \<noteq> 0) (hblock s p)"

definition touch_cstring :: "nat \<Rightarrow> rstate \<Rightarrow> rstate" where
  "touch_cstring p s = touch p 0 (length (cstring s p) + 1) s"

text \<open>A read outside every object the model has a block for.\<close>

definition wild_read :: "rstate \<Rightarrow> rstate" where
  "wild_read s = s\<lparr>r_faults := (0, 0, 1) # r_faults s\<rparr>"

definition ascii_lower :: "u8 \<Rightarrow> u8" where
  "ascii_lower b = (if 65 \<le> b \<and> b \<le> 90 then b + 32 else b)"

text \<open>The part of a string from the first occurrence of a pattern on.\<close>

fun find_sub :: "(u8 \<Rightarrow> u8) \<Rightarrow> u8 list \<Rightarrow> u8 list \<Rightarrow> u8 list option" where
  "find_sub f pat [] = (if pat = [] then Some [] else None)"
| "find_sub f pat (x # xs) =
     (if take (length pat) (map f (x # xs)) = map f pat then Some (x # xs) else find_sub f pat xs)"

definition strstr :: "u8 list \<Rightarrow> u8 list \<Rightarrow> u8 list option" where
  "strstr z pat = find_sub id pat z"

definition strcasestr :: "u8 list \<Rightarrow> u8 list \<Rightarrow> u8 list option" where
  "strcasestr z pat = find_sub ascii_lower pat z"

section \<open>The callbacks\<close>

record MemoryStruct =
  memoryP :: nat
  mem_size :: nat

record HeaderStruct =
  h_linkP :: nat
  linkSize :: nat
  h_relP :: nat
  relSize :: nat

record ResponseStruct =
  rsp_responseP :: nat
  rsp_size :: nat
  rsp_offset :: u32

definition readResponseCallback :: "nat \<Rightarrow> ResponseStruct \<Rightarrow> rstate \<Rightarrow> u8 list \<times> ResponseStruct \<times> rstate" where
  "readResponseCallback totalSize rspP s =
     (let off = unat (rsp_offset rspP) in
      if rsp_size rspP \<le> off then ([], rspP, s)
      else
        let readSize = (if totalSize < rsp_size rspP then totalSize else rsp_size rspP);
            s = touch (rsp_responseP rspP) off readSize s
        in (peek s (rsp_responseP rspP) off readSize, rspP\<lparr>rsp_offset := rsp_offset rspP + of_nat readSize\<rparr>, s))"

definition writeMemoryCallback :: "rworld \<Rightarrow> u8 list \<Rightarrow> MemoryStruct \<Rightarrow> rstate \<Rightarrow> nat \<times> MemoryStruct \<times> rstate" where
  "writeMemoryCallback W contents mem s =
     (let realsize = length contents;
          (p, s) = realloc W (memoryP mem) (mem_size mem + realsize + 1) s;
          mem = mem\<lparr>memoryP := p\<rparr> in
      if p = 0 then (0, mem, s)
      else
        let s = poke p (mem_size mem) contents s;
            mem = mem\<lparr>mem_size := mem_size mem + realsize\<rparr>;
            s = poke p (mem_size mem) [0] s
        in (realsize, mem, s))"

definition copyHeader :: "rworld \<Rightarrow> u8 list \<Rightarrow> rstate \<Rightarrow> bool \<times> nat \<times> rstate" where
  "copyHeader W contents s =
     (let (p, s) = malloc W (length contents + 1) s in
      if p = 0 then (False, 0, s)
      else (True, p, poke p (length contents) [0] (poke p 0 contents s)))"

text \<open>
  \<open>z\<close> is what the string functions see from the start of the header line to the next zero byte,
  which need not be in the line itself. The five characters skipped at the relation are \<^verbatim>\<open>rel="\<close>.
\<close>

definition updateLinkAndRel :: "rworld \<Rightarrow> HeaderStruct \<Rightarrow> u8 list \<Rightarrow> rstate \<Rightarrow> bool \<times> HeaderStruct \<times> rstate" where
  "updateLinkAndRel W memP z s =
     (case strcasestr z (cs ''Link'') of None \<Rightarrow> (False, memP, s)
      | Some startP \<Rightarrow>
      (case strstr startP (cs ''<'') of None \<Rightarrow> (False, memP, s)
      | Some startP \<Rightarrow>
        let startP = tl startP in
      (case strstr startP (cs ''>'') of None \<Rightarrow> (False, memP, s)
      | Some endP \<Rightarrow>
        let memP = memP\<lparr>linkSize := length startP - length endP\<rparr>;
            (ok, p, s) = copyHeader W (take (linkSize memP) startP) s;
            memP = memP\<lparr>h_linkP := p\<rparr> in
        if \<not> ok then (False, memP, s)
        else
          (case strcasestr endP (cs ''rel='') of None \<Rightarrow> (True, memP, s)
           | Some startP \<Rightarrow>
             let s = (if length startP < 5 then wild_read s else s);
                 startP = drop 5 startP in
             (case strstr startP [34] of None \<Rightarrow> (True, memP, s)
              | Some endP \<Rightarrow>
                let memP = memP\<lparr>relSize := length startP - length endP\<rparr>;
                    (_, p, s) = copyHeader W (take (relSize memP) startP) s
                in (True, memP\<lparr>h_relP := p\<rparr>, s))))))"

definition writeHeaderCallback :: "rworld \<Rightarrow> u8 list \<Rightarrow> u8 list \<Rightarrow> HeaderStruct \<Rightarrow> rstate \<Rightarrow> HeaderStruct \<times> rstate" where
  "writeHeaderCallback W line after memP s =
     (if 6 \<le> length line \<and> take 5 line = cs ''Link:'' then
        let (_, memP, s) = updateLinkAndRel W memP (takeWhile (\<lambda>b. b \<noteq> 0) (line @ after)) s in (memP, s)
      else (memP, s))"

section \<open>The options of a transfer\<close>

fun setopts :: "rworld \<Rightarrow> curlopt list \<Rightarrow> rstate \<Rightarrow> bool \<times> rstate" where
  "setopts W [] s = (True, s)"
| "setopts W (opt # opts) s =
     (let ok = rw_setopt W (r_ev s) opt;
          s = r_note (Net (CurlSetopt opt ok)) s
      in if ok then setopts W opts s else (False, s))"

definition setBasicOpt :: "rworld \<Rightarrow> nat \<Rightarrow> rstate \<Rightarrow> bool \<times> rstate" where
  "setBasicOpt W linkP s =
     setopts W
       [CURLOPT_URL (cstring s linkP), CURLOPT_WRITEFUNCTION, CURLOPT_HEADERFUNCTION, CURLOPT_WRITEDATA,
        CURLOPT_WRITEHEADER, CURLOPT_HTTPHEADER, CURLOPT_USERAGENT, CURLOPT_NOPROGRESS,
        CURLOPT_CAINFO (g_certificateFilePath s), CURLOPT_CAPATH (g_certificatePath s), CURLOPT_TIMEOUT]
       (touch_cstring linkP s)"

definition setPutOpt :: "rworld \<Rightarrow> ResponseStruct \<Rightarrow> rstate \<Rightarrow> bool \<times> rstate" where
  "setPutOpt W responseChunk s =
     setopts W [CURLOPT_READFUNCTION, CURLOPT_UPLOAD, CURLOPT_PUT, CURLOPT_READDATA, CURLOPT_INFILESIZE (rsp_size responseChunk)] s"

definition setPostOpt :: "rworld \<Rightarrow> nat \<Rightarrow> rstate \<Rightarrow> bool \<times> rstate" where
  "setPostOpt W inputP s =
     setopts W (CURLOPT_POST # (if inputP = 0 then [CURLOPT_POSTFIELDSIZE] else []) @ [CURLOPT_POSTFIELDS inputP]) s"

definition setDeleteOpt :: "rworld \<Rightarrow> nat \<Rightarrow> rstate \<Rightarrow> bool \<times> rstate" where
  "setDeleteOpt W inputP s = setopts W [CURLOPT_CUSTOMREQUEST] s"

definition openSeClientAndInit :: "rworld \<Rightarrow> rstate \<Rightarrow> u32 \<times> rstate" where
  "openSeClientAndInit W s =
     (let (global, easy) = rw_curl_init W (r_ev s);
          s = r_note (Net (CurlInit global easy)) s in
      if \<not> global then (ROOTPA_ERROR_NETWORK, s)
      else
        let s = s\<lparr>g_curl_handle := easy\<rparr>
        in (if \<not> easy then ROOTPA_ERROR_NETWORK else ROOTPA_OK, s))"

definition closeSeClientAndCleanup :: "rstate \<Rightarrow> rstate" where
  "closeSeClientAndCleanup s =
     (let s = (if g_curl_handle s then s\<lparr>g_curl_handle := False\<rparr> else s) in r_note (Net CurlCleanup) s)"

definition setCertPath :: "u8 list option \<Rightarrow> u8 list option \<Rightarrow> rstate \<Rightarrow> rstate" where
  "setCertPath localPathP certPathP s =
     (let s = s\<lparr>g_certificatePath := [], g_certificateFilePath := []\<rparr>;
          s = (case certPathP of
                 Some c \<Rightarrow> if length c + 1 < CERT_PATH_MAX_LEN then s\<lparr>g_certificatePath := c\<rparr> else s
               | None \<Rightarrow> s);
          s = (case localPathP of
                 Some l \<Rightarrow> if length l + 1 + 11 < CERT_PATH_MAX_LEN then s\<lparr>g_certificateFilePath := l @ cs ''/''\<rparr> else s
               | None \<Rightarrow> s)
      in s\<lparr>g_certificateFilePath := g_certificateFilePath s @ cs ''cacert.pem''\<rparr>)"

section \<open>One exchange\<close>

datatype httpMethod = MethodGET | MethodPOST | MethodPUT | MethodDELETE

text \<open>What an attempt works on: the two chunks it fills and the data it sends, by PUT or by POST.\<close>

record xfer =
  x_chunk :: MemoryStruct
  x_header :: HeaderStruct
  x_put :: "ResponseStruct option"
  x_post :: nat

fun run_transfers :: "rworld \<Rightarrow> transfer list \<Rightarrow> xfer \<Rightarrow> rstate \<Rightarrow> bool \<times> xfer \<times> rstate" where
  "run_transfers W [] x s = (True, x, s)"
| "run_transfers W (HeaderLine line after # ts) x s =
     (let (h, s) = writeHeaderCallback W line after (x_header x) s in run_transfers W ts (x\<lparr>x_header := h\<rparr>) s)"
| "run_transfers W (BodyChunk contents # ts) x s =
     (let (n, m, s) = writeMemoryCallback W contents (x_chunk x) s in
      if n = length contents then run_transfers W ts (x\<lparr>x_chunk := m\<rparr>) s
      else (False, x\<lparr>x_chunk := m\<rparr>, s))"
| "run_transfers W (ReadRequest n # ts) x s =
     (case x_put x of
        None \<Rightarrow> run_transfers W ts x s
      | Some rspP \<Rightarrow>
          let (bs, rspP, s) = readResponseCallback n rspP s
          in run_transfers W ts (x\<lparr>x_put := Some rspP\<rparr>) (r_note (Net (CurlSent bs)) s))"

definition curl_easy_perform :: "rworld \<Rightarrow> xfer \<Rightarrow> rstate \<Rightarrow> u32 \<times> xfer \<times> rstate" where
  "curl_easy_perform W x s =
     (let (ts, r) = rw_perform W (r_ev s);
          s = (if x_post x = 0 then s else touch_cstring (x_post x) s);
          (complete, x, s) = run_transfers W ts x s;
          r = (if complete then r else CURLE_WRITE_ERROR)
      in (r, x, r_note (Net (CurlPerform r)) s))"

fun attempts_loop :: "rworld \<Rightarrow> nat \<Rightarrow> u32 \<Rightarrow> xfer \<Rightarrow> rstate \<Rightarrow> u32 \<times> xfer \<times> rstate" where
  "attempts_loop W 0 curlRet x s = (curlRet, x, s)"
| "attempts_loop W (Suc left) curlRet x s =
     (let (curlRet, x, s) = curl_easy_perform W x s in
      if CURLE_OK = curlRet then (curlRet, x, s)
      else if SE_CONNECTION_DEFAULT_TIMEOUT div 2 < rw_timediff W (r_ev s) then (curlRet, x, s)
      else attempts_loop W left curlRet x s)"

definition http_result :: "int \<Rightarrow> u32" where
  "http_result code =
     (if 200 \<le> code \<and> code < 300 then ROOTPA_OK
      else if code \<in> {400, 405, 406, 409, 411, 414, 415, 422, 500, 505} then ROOTPA_ERROR_INTERNAL
      else if code \<in> {301, 408, 503} then ROOTPA_ERROR_NETWORK
      else if code = 501 then ROOTPA_ERROR_SE_CMP_VERSION
      else if code = 424 then ROOTPA_ERROR_SE_PRECONDITION_NOT_MET
      else if code = 404 then ROOTPA_ERROR_ILLEGAL_ARGUMENT
      else ROOTPA_ERROR_NETWORK)"

text \<open>
  The relation the client follows: one of its two constant strings, or a string it received (0 is
  NULL). The three pointers the code updates through \<^verbatim>\<open>linkP\<close>, \<^verbatim>\<open>relP\<close> and \<^verbatim>\<open>commandP\<close> are a triple.
\<close>

datatype relref = RelInitialPost | RelInitialDelete | RelPtr nat

definition httpCommunicate :: "rworld \<Rightarrow> nat \<Rightarrow> nat \<times> relref \<times> nat \<Rightarrow> httpMethod \<Rightarrow> rstate
    \<Rightarrow> u32 \<times> (nat \<times> relref \<times> nat) \<times> rstate" where
  "httpCommunicate W inputP refs method s =
     (let (linkP, relP, commandP) = refs;
          failed = (linkP, RelPtr 0, 0) in
      if linkP = 0 then (ROOTPA_ERROR_ILLEGAL_ARGUMENT, refs, s)
      else
        let (mem, s) = malloc W 1 s in
        if mem = 0 then (ROOTPA_ERROR_OUT_OF_MEMORY, failed, s)
        else
          let s = poke mem 0 [0] s;
              s = (if method = MethodPUT then touch_cstring inputP s else s);
              put = (if method = MethodPUT
                     then Some \<lparr>rsp_responseP = inputP, rsp_size = length (cstring s inputP), rsp_offset = 0\<rparr> else None);
              (ok, s) =
                (case method of
                   MethodPUT \<Rightarrow> setPutOpt W (the put) s
                 | MethodPOST \<Rightarrow> setPostOpt W inputP s
                 | MethodDELETE \<Rightarrow> setDeleteOpt W inputP s
                 | MethodGET \<Rightarrow> (True, s)) in
          if \<not> ok then (ROOTPA_ERROR_NETWORK, failed, free_ptr mem s)
          else
            let (ok, s) = setBasicOpt W linkP s in
            if \<not> ok then (ROOTPA_ERROR_NETWORK, failed, free_ptr mem s)
            else
              let x = \<lparr>x_chunk = \<lparr>memoryP = mem, mem_size = 0\<rparr>,
                       x_header = \<lparr>h_linkP = 0, linkSize = 0, h_relP = 0, relSize = 0\<rparr>,
                       x_put = put, x_post = (if method = MethodPOST then inputP else 0)\<rparr>;
                  (curlRet, x, s) = attempts_loop W MAX_ATTEMPTS CURLE_COULDNT_CONNECT x s;
                  http_code = rw_http_code W (r_ev s);
                  h = x_header x in
              if curlRet \<noteq> CURLE_OK then
                let s = free_ptr (memoryP (x_chunk x)) s;
                    s = free_ptr (h_linkP h) s;
                    s = free_ptr (h_relP h) s
                in (ROOTPA_ERROR_NETWORK, failed, r_note (Net CurlReset) s)
              else
                (http_result http_code, (h_linkP h, RelPtr (h_relP h), memoryP (x_chunk x)), r_note (Net CurlReset) s))"

definition httpPostAndReceiveCommand where
  "httpPostAndReceiveCommand W inputP refs s = httpCommunicate W inputP refs MethodPOST s"

definition httpPutAndReceiveCommand where
  "httpPutAndReceiveCommand W inputP refs s =
     (if inputP = 0 then (ROOTPA_ERROR_ILLEGAL_ARGUMENT, refs, s) else httpCommunicate W inputP refs MethodPUT s)"

definition httpGetAndReceiveCommand where
  "httpGetAndReceiveCommand W refs s = httpCommunicate W 0 refs MethodGET s"

definition httpDeleteAndReceiveCommand where
  "httpDeleteAndReceiveCommand W refs s = httpCommunicate W 0 refs MethodDELETE s"

definition shorter :: "u32 \<Rightarrow> u32 \<Rightarrow> u32" where
  "shorter first second = (if second < first then second else first)"

end
