(* ===== verification/ProvisioningEngine.thy ===== *)
theory ProvisioningEngine
  imports SeClient "HOL-Library.While_Combinator"
begin

text \<open>
  The provisioning engine (\<^verbatim>\<open>provisioningengine.c\<close>): building the address of the device at the
  service enabler, and the dialogue with it. In each round the engine follows the relation the
  server sent last, with the link and the command that came with it. The dialogue ends when the
  server gives no relation, or on an error; the server decides how long it lasts, so the loop is a
  while loop that may not end. The XML layer, the version query and the system information are
  parameters of the engine, as they are in the code.
\<close>

section \<open>Constants\<close>

abbreviation (input) CONNECTING_SERVICE_ENABLER :: u32 where "CONNECTING_SERVICE_ENABLER \<equiv> 1"
abbreviation (input) FINISHED_PROVISIONING :: u32 where "FINISHED_PROVISIONING \<equiv> 6"
abbreviation (input) ERROR :: u32 where "ERROR \<equiv> 7"
abbreviation (input) PROVISIONING_STATE_INSTALL_TRUSTLET :: u32 where "PROVISIONING_STATE_INSTALL_TRUSTLET \<equiv> 0xFEED"
abbreviation (input) PROVISIONING_STATE_THREAD_EXITING :: u32 where "PROVISIONING_STATE_THREAD_EXITING \<equiv> 0xDEAD"

definition SE_URL :: "u8 list" where
  "SE_URL = cs ''https://se.cgbe.trustonic.com:8443/service-enabler/enrollment/''"

definition RELATION_SELF :: "u8 list" where "RELATION_SELF = cs ''relation/self''"
definition RELATION_SYSTEMINFO :: "u8 list" where "RELATION_SYSTEMINFO = cs ''relation/system_info''"
definition RELATION_RESULT :: "u8 list" where "RELATION_RESULT = cs ''relation/command_result''"
definition RELATION_NEXT :: "u8 list" where "RELATION_NEXT = cs ''relation/next''"
definition RELATION_INITIAL_POST :: "u8 list" where "RELATION_INITIAL_POST = cs ''initial_post''"
definition RELATION_INITIAL_DELETE :: "u8 list" where "RELATION_INITIAL_DELETE = cs ''initial_delete''"

abbreviation (input) INT_STRING_LENGTH :: nat where "INT_STRING_LENGTH \<equiv> 12"
abbreviation (input) INITIAL_URL_BUFFER_LENGTH :: nat where "INITIAL_URL_BUFFER_LENGTH \<equiv> 255"

section \<open>The address\<close>

definition hex_digit :: "u8 \<Rightarrow> u8" where
  "hex_digit n = (if n < 0xA then n + 0x30 else n + 0x57)"

text \<open>The characters \<open>addBytesToUri\<close> writes for the bytes from index \<open>i\<close> on.\<close>

fun uri_bytes :: "bool \<Rightarrow> nat \<Rightarrow> u8 list \<Rightarrow> u8 list" where
  "uri_bytes uuid i [] = []"
| "uri_bytes uuid i (b # bs) =
     hex_digit (drop_bit 4 b) # hex_digit (b AND 0x0F)
       # (if uuid \<and> (i = 3 \<or> i = 5 \<or> i = 7 \<or> i = 9) then [45] else []) @ uri_bytes uuid (i + 1) bs"

definition addSlashToUri :: "nat \<Rightarrow> rstate \<Rightarrow> rstate" where
  "addSlashToUri uriP s = poke uriP (length (cstring s uriP)) [47] (touch_cstring uriP s)"

definition addBytesToUri :: "nat \<Rightarrow> u8 list \<Rightarrow> bool \<Rightarrow> rstate \<Rightarrow> rstate" where
  "addBytesToUri uriP bytes uuid s =
     poke uriP (length (cstring s uriP)) (uri_bytes uuid 0 bytes) (touch_cstring uriP s)"

function dec_digits :: "nat \<Rightarrow> u8 list" where
  "dec_digits n = (if n < 10 then [of_nat (48 + n)] else dec_digits (n div 10) @ [of_nat (48 + n mod 10)])"
  by pat_completeness auto
termination by (relation "measure id") auto

declare dec_digits.simps [simp del]

text \<open>\<^verbatim>\<open>%d\<close> of a 32-bit value.\<close>

definition dec_int :: "u32 \<Rightarrow> u8 list" where
  "dec_int w = (if sint w < 0 then 45 # dec_digits (nat (- sint w)) else dec_digits (nat (sint w)))"

text \<open>\<^verbatim>\<open>snprintf\<close> keeps eleven characters and \<^verbatim>\<open>strncpy\<close> fills up with zeros to twelve bytes.\<close>

definition addIntToUri :: "nat \<Rightarrow> u32 \<Rightarrow> rstate \<Rightarrow> rstate" where
  "addIntToUri uriP addThis s =
     (let intInString = take (INT_STRING_LENGTH - 1) (47 # dec_int addThis)
      in poke uriP (length (cstring s uriP)) (fit INT_STRING_LENGTH intInString) (touch_cstring uriP s))"

text \<open>
  The length is checked in 32 bits; a copy larger than the buffer, which the check lets through when
  the sum wraps around, is recorded as a fault.
\<close>

definition setInitialAddress :: "u8 list option \<Rightarrow> u32 \<Rightarrow> rstate \<Rightarrow> u32 \<times> rstate" where
  "setInitialAddress addrP len s =
     (case addrP of
        None \<Rightarrow> (ROOTPA_ERROR_INTERNAL, s)
      | Some addr \<Rightarrow>
          if len = 0 then (ROOTPA_ERROR_INTERNAL, s)
          else if of_nat INITIAL_URL_BUFFER_LENGTH < len + 1 then (ROOTPA_ERROR_ILLEGAL_ARGUMENT, s)
          else
            let s = (if INITIAL_URL_BUFFER_LENGTH < unat len then wild_read s else s)
            in (ROOTPA_OK, s\<lparr>g_initialUrl := takeWhile (\<lambda>b. b \<noteq> 0) (take (unat len) addr)\<rparr>))"

definition createBasicLink :: "rworld \<Rightarrow> u8 list \<Rightarrow> rstate \<Rightarrow> nat \<times> rstate" where
  "createBasicLink W suid s =
     (let urlLength = length (g_initialUrl s) + csize mcSuid_t * 2 + 4 * 2 + csize mcUuid_t * 2 + 6;
          (tmpLinkP, s) = malloc W urlLength s;
          s = poke tmpLinkP 0 (replicate urlLength 0) s;
          s = poke tmpLinkP 0 (fit urlLength (g_initialUrl s)) s
      in (tmpLinkP, addBytesToUri tmpLinkP suid False s))"

section \<open>The dialogue\<close>

record trustletInstallationData_t =
  td_dataP :: nat
  td_dataLength :: u32
  td_dataType :: u32
  td_uuid :: "u8 list"
  td_minTltVersion :: u32
  td_tltPukHashP :: nat
  td_tltPukHashLength :: u32
  td_memoryType :: u32
  td_numberOfInstances :: u32
  td_flags :: u32

text \<open>
  What the engine is given besides its environment: the callback for the system information, which
  leaves seven pointers, the version query (tag and version), and the XML layer.
\<close>

record pworld =
  pw_world :: rworld
  pw_sysInfo :: "rstate \<Rightarrow> u32 \<times> nat list \<times> rstate"
  pw_getVersion :: "rstate \<Rightarrow> u32 \<times> u32 \<times> u8 list \<times> rstate"
  pw_buildTltRequest :: "trustletInstallationData_t \<Rightarrow> rstate \<Rightarrow> u32 \<times> nat \<times> rstate"
  pw_buildSystemInfo :: "u32 \<Rightarrow> u8 list \<Rightarrow> nat list \<Rightarrow> rstate \<Rightarrow> u32 \<times> nat \<times> rstate"
  pw_handleXml :: "nat \<Rightarrow> rstate \<Rightarrow> u32 \<times> nat \<times> rstate"

text \<open>The local variables of \<open>doProvisioningWithSe\<close> and the state of the process.\<close>

record prov =
  p_s :: rstate
  p_ret :: u32
  workToDo :: bool
  linkP :: nat
  relP :: relref
  commandP :: nat
  responseP :: nat
  pendingLinkP :: nat
  pendingRelP :: relref
  usedLinkP :: nat
  usedRelP :: relref
  usedCommandP :: nat

abbreviation (input) NoRel :: relref where "NoRel \<equiv> RelPtr 0"

definition rel_text :: "rstate \<Rightarrow> relref \<Rightarrow> u8 list" where
  "rel_text s r = (case r of RelInitialPost \<Rightarrow> RELATION_INITIAL_POST | RelInitialDelete \<Rightarrow> RELATION_INITIAL_DELETE
     | RelPtr p \<Rightarrow> cstring s p)"

definition read_rel :: "relref \<Rightarrow> rstate \<Rightarrow> rstate" where
  "read_rel r s = (case r of RelPtr p \<Rightarrow> touch_cstring p s | _ \<Rightarrow> s)"

definition has_rel :: "rstate \<Rightarrow> relref \<Rightarrow> u8 list \<Rightarrow> bool" where
  "has_rel s r rel = (strstr (rel_text s r) rel \<noteq> None)"

definition free_rel :: "relref \<Rightarrow> rstate \<Rightarrow> rstate" where
  "free_rel r s = (case r of RelPtr p \<Rightarrow> free_ptr p s | _ \<Rightarrow> s)"

definition cleanup :: "nat \<Rightarrow> relref \<Rightarrow> nat \<Rightarrow> rstate \<Rightarrow> rstate" where
  "cleanup link rel command s = free_ptr link (free_rel rel (free_ptr command s))"

definition callbackE :: "u32 \<Rightarrow> u32 \<Rightarrow> rstate \<Rightarrow> rstate" where
  "callbackE st ret s = r_note (Callback st ret) s"

text \<open>What happens in a round with the answer of the server and an error.\<close>

definition fail :: "u32 \<Rightarrow> prov \<Rightarrow> prov" where
  "fail ret p = p\<lparr>p_s := callbackE ERROR ret (p_s p), p_ret := ret\<rparr>"

definition take_answer :: "(u32 \<times> (nat \<times> relref \<times> nat) \<times> rstate) \<Rightarrow> prov \<Rightarrow> u32 \<times> prov" where
  "take_answer answer p =
     (let (ret, (l, r, c), s) = answer in (ret, p\<lparr>p_s := s, linkP := l, relP := r, commandP := c\<rparr>))"

abbreviation (input) refs :: "prov \<Rightarrow> nat \<times> relref \<times> nat" where
  "refs p \<equiv> (linkP p, relP p, commandP p)"

definition round_systeminfo :: "pworld \<Rightarrow> prov \<Rightarrow> prov" where
  "round_systeminfo P p =
     (let ret = p_ret p;
          (tmpRet, os, s) = pw_sysInfo P (p_s p);
          ret = (if tmpRet \<noteq> ROOTPA_OK then tmpRet else ret);
          (tmpRet, tag, version, s) = pw_getVersion P s;
          ret = (if tmpRet \<noteq> ROOTPA_OK then tmpRet else ret);
          (tmpRet, responseP, s) = pw_buildSystemInfo P tag version os s;
          ret = (if tmpRet \<noteq> ROOTPA_OK then tmpRet else ret);
          s = foldl (\<lambda>s q. free_ptr q s) s os;
          p = p\<lparr>p_s := s, responseP := responseP\<rparr>;
          (tmpRet, p) = take_answer (httpPutAndReceiveCommand (pw_world P) responseP (refs p) s) p;
          ret = (if tmpRet \<noteq> ROOTPA_OK then tmpRet else ret);
          p = p\<lparr>p_ret := ret\<rparr>
      in if ret \<noteq> ROOTPA_OK
         then (fail ret p)\<lparr>workToDo := (if tmpRet \<noteq> ROOTPA_OK then False else workToDo p)\<rparr> else p)"

definition round_http :: "(u32 \<times> (nat \<times> relref \<times> nat) \<times> rstate) \<Rightarrow> prov \<Rightarrow> prov" where
  "round_http answer p =
     (let (ret, p) = take_answer answer p;
          p = p\<lparr>p_ret := ret\<rparr>
      in if ret \<noteq> ROOTPA_OK then (fail ret p)\<lparr>workToDo := False\<rparr> else p)"

text \<open>
  \<^verbatim>\<open>tmpRet\<close> keeps its value from the round before when there is no response; it is the result of the
  last exchange, which was good, or else the dialogue would have ended.
\<close>

definition round_result :: "pworld \<Rightarrow> prov \<Rightarrow> prov" where
  "round_result P p =
     (let s = setCallbackP True (p_s p);
          (ret, responseP, s) = pw_handleXml P (commandP p) s;
          s = setCallbackP False s;
          p = p\<lparr>p_s := s, responseP := responseP\<rparr>;
          (ret, tmpRet, p) =
            (if responseP = 0 then
               ((if ROOTPA_OK = ret then ROOTPA_ERROR_XML else ret), ROOTPA_OK,
                p\<lparr>linkP := 0, relP := NoRel, commandP := 0\<rparr>)
             else
               let (tmpRet, p) = take_answer (httpPostAndReceiveCommand (pw_world P) responseP (refs p) s) p
               in ((if tmpRet \<noteq> ROOTPA_OK then tmpRet else ret), tmpRet, p));
          p = p\<lparr>p_ret := ret\<rparr>
      in if ret \<noteq> ROOTPA_OK \<and> ret \<noteq> ROOTPA_ERROR_REGISTRY_OBJECT_NOT_AVAILABLE
         then (fail ret p)\<lparr>workToDo := (if tmpRet \<noteq> ROOTPA_OK then False else workToDo p)\<rparr> else p)"

definition round_other :: "pworld \<Rightarrow> prov \<Rightarrow> prov" where
  "round_other P p =
     (let p = p\<lparr>usedLinkP := linkP p, usedRelP := relP p, usedCommandP := commandP p\<rparr>;
          s = p_s p; r = relP p in
      if has_rel s r RELATION_SYSTEMINFO then round_systeminfo P p
      else if has_rel s r RELATION_INITIAL_DELETE then
        round_http (httpDeleteAndReceiveCommand (pw_world P) (refs p) s) p
      else if has_rel s r RELATION_INITIAL_POST then
        round_http (httpPostAndReceiveCommand (pw_world P) (responseP p) (refs p) s) p
      else if has_rel s r RELATION_RESULT then round_result P p
      else if has_rel s r RELATION_NEXT then
        round_http (httpGetAndReceiveCommand (pw_world P) (refs p) s) p
      else (fail ROOTPA_ERROR_ILLEGAL_ARGUMENT p)\<lparr>workToDo := False\<rparr>)"

definition round_self :: "prov \<Rightarrow> prov" where
  "round_self p =
     (if relP p \<noteq> usedRelP p \<and> linkP p \<noteq> usedLinkP p \<and> commandP p \<noteq> usedCommandP p then
        p\<lparr>p_s := cleanup (linkP p) (relP p) (commandP p) (p_s p),
          relP := usedRelP p, linkP := usedLinkP p, commandP := usedCommandP p\<rparr>
      else p)"

text \<open>The end of a round: what is no longer needed is freed.\<close>

definition round_end :: "prov \<Rightarrow> prov" where
  "round_end p =
     (let p = (if \<not> workToDo p then
                 let p = p\<lparr>usedLinkP := (if linkP p = usedLinkP p then 0 else usedLinkP p),
                           usedRelP := (if relP p = usedRelP p then NoRel else usedRelP p),
                           usedCommandP := (if commandP p = usedCommandP p then 0 else usedCommandP p)\<rparr>
                 in p\<lparr>p_s := cleanup (linkP p) (relP p) (commandP p) (p_s p), linkP := 0, relP := NoRel, commandP := 0\<rparr>
               else p);
          p = (if relP p \<noteq> NoRel then p\<lparr>p_s := read_rel (relP p) (p_s p)\<rparr> else p);
          p = (if relP p = NoRel \<or> \<not> has_rel (p_s p) (relP p) RELATION_SELF then
                 p\<lparr>p_s := cleanup (usedLinkP p) (usedRelP p) (usedCommandP p) (p_s p),
                   usedLinkP := 0, usedRelP := NoRel, usedCommandP := 0\<rparr>
               else p)
      in p\<lparr>p_s := free_ptr (responseP p) (p_s p), responseP := 0\<rparr>)"

definition prov_round :: "pworld \<Rightarrow> prov \<Rightarrow> prov" where
  "prov_round P p =
     (if relP p = NoRel then
        if pendingLinkP p \<noteq> 0 \<and> pendingRelP p \<noteq> NoRel then
          p\<lparr>p_s := free_ptr (linkP p) (p_s p), linkP := pendingLinkP p, relP := pendingRelP p,
            pendingLinkP := 0, pendingRelP := NoRel, workToDo := True\<rparr>
        else round_end (p\<lparr>p_s := callbackE FINISHED_PROVISIONING ROOTPA_OK (p_s p), workToDo := False\<rparr>)
      else
        let p = p\<lparr>p_s := read_rel (relP p) (p_s p)\<rparr> in
        if has_rel (p_s p) (relP p) RELATION_SELF then round_end (round_self p)
        else round_end (round_other P p))"

section \<open>From the first callback to the last free\<close>

datatype initialRel_t = InitialRel_POST | InitialRel_DELETE

definition prov_start :: "pworld \<Rightarrow> u32 \<Rightarrow> u8 list \<Rightarrow> initialRel_t \<Rightarrow> trustletInstallationData_t option \<Rightarrow> rstate \<Rightarrow> prov" where
  "prov_start P spid suid initialRel tltDataP s =
     (let W = pw_world P;
          s = s\<lparr>g_engineCallbackP := True\<rparr>;
          s = (if g_initialUrl s = [] then s\<lparr>g_initialUrl := SE_URL\<rparr> else s);
          (link, s) = createBasicLink W suid s;
          rel = (if initialRel = InitialRel_DELETE then RelInitialDelete else RelInitialPost);
          s = (if initialRel \<noteq> InitialRel_DELETE \<and> spid \<noteq> 0 then addIntToUri link spid s else s);
          s = callbackE CONNECTING_SERVICE_ENABLER ROOTPA_OK s;
          (ret, s) = openSeClientAndInit W s;
          work = (ret = ROOTPA_OK);
          s = (if ret \<noteq> ROOTPA_OK then callbackE ERROR ret s else s);
          (ret, response, work, s) =
            (case tltDataP of
               None \<Rightarrow> (ret, 0, work, s)
             | Some tlt \<Rightarrow>
                 let (ret, response, s) = pw_buildTltRequest P tlt s in
                 if ret \<noteq> ROOTPA_OK \<or> response = 0 then
                   let ret = (if ROOTPA_OK = ret then ROOTPA_ERROR_XML else ret)
                   in (ret, response, False, callbackE ERROR ret s)
                 else (ret, response, work, addBytesToUri link (td_uuid tlt) True (addSlashToUri link s)));
          (assumed, s) = factoryResetAssumed W s;
          p = \<lparr>p_s = s, p_ret = ret, workToDo = work, linkP = link, relP = rel, commandP = 0, responseP = response,
               pendingLinkP = 0, pendingRelP = NoRel, usedLinkP = 0, usedRelP = NoRel, usedCommandP = 0\<rparr>
      in if assumed \<and> rel \<noteq> RelInitialDelete \<and> work then
           let (link2, s) = createBasicLink W suid s
           in p\<lparr>p_s := s, pendingLinkP := link, pendingRelP := rel, relP := RelInitialDelete, linkP := link2\<rparr>
         else p)"

definition prov_finish :: "prov \<Rightarrow> rstate" where
  "prov_finish p = free_ptr (linkP p) (free_ptr (responseP p) (closeSeClientAndCleanup (p_s p)))"

definition doProvisioningWithSe ::
    "pworld \<Rightarrow> u32 \<Rightarrow> u8 list \<Rightarrow> initialRel_t \<Rightarrow> trustletInstallationData_t option \<Rightarrow> rstate \<Rightarrow> rstate option" where
  "doProvisioningWithSe P spid suid initialRel tltDataP s =
     map_option prov_finish (while_option workToDo (prov_round P) (prov_start P spid suid initialRel tltDataP s))"

definition uploadTrustlet :: "nat \<Rightarrow> u32 \<Rightarrow> rstate \<Rightarrow> u32 \<times> rstate" where
  "uploadTrustlet containerDataP containerLength s =
     (if g_engineCallbackP s then (ROOTPA_OK, callbackE PROVISIONING_STATE_INSTALL_TRUSTLET ROOTPA_OK s)
      else (ROOTPA_COMMAND_NOT_SUPPORTED, s))"

end
