(* ===== verification/SeClientLaws.thy ===== *)
theory SeClientLaws
  imports SeClient Pacmp3Prepare
begin

text \<open>
  What an exchange guarantees: it leaves the caller's memory alone and hands over fresh, separate
  strings, the parser finds the link and the relation of a well-formed header, and what the PUT
  callback sends.
\<close>

section \<open>Searching strings\<close>

lemma find_sub_Some:
  "find_sub f pat z = Some r \<Longrightarrow> \<exists>pre. z = pre @ r \<and> take (length pat) (map f r) = map f pat"
proof (induction f pat z rule: find_sub.induct)
  case (2 f pat x xs)
  then show ?case by (auto split: if_splits simp del: take_map intro: exI [of _ "[]"]) (metis append_Cons)?
qed (auto split: if_splits)

lemma find_sub_single: "find_sub id [c] z = (if c \<in> set z then Some (dropWhile (\<lambda>b. b \<noteq> c) z) else None)"
  by (induction z) auto

lemma strstr_single: "strstr z [c] = (if c \<in> set z then Some (dropWhile (\<lambda>b. b \<noteq> c) z) else None)"
  by (simp add: strstr_def find_sub_single)

section \<open>Strings and fresh blocks\<close>

definition is_cstr :: "rstate \<Rightarrow> nat \<Rightarrow> bool" where
  "is_cstr s p = (p \<in> blocks s \<and> 0 \<in> set (hblock s p))"

lemma takeWhile_shorter: "x \<in> set xs \<Longrightarrow> \<not> P x \<Longrightarrow> length (takeWhile P xs) < length xs"
  by (induction xs) auto

lemma takeWhile_upto: "x \<notin> set xs \<Longrightarrow> takeWhile (\<lambda>b. b \<noteq> x) (xs @ x # ys) = xs"
  by (induction xs) auto

lemma touch_is_cstr: "is_cstr s p \<Longrightarrow> touch_cstring p s = s"
  unfolding is_cstr_def touch_cstring_def touch_def cstring_def in_block_def
  by (auto simp: Suc_le_eq takeWhile_shorter)

lemma touch_cstring_simps [simp]:
  "blocks (touch_cstring p s) = blocks s" "heap_ok (touch_cstring p s) = heap_ok s"
  "hblock (touch_cstring p s) q = hblock s q" "r_ev (touch_cstring p s) = r_ev s"
  "cstring (touch_cstring p s) q = cstring s q"
  by (simp_all add: touch_cstring_def cstring_def)

text \<open>The memory of an earlier state is untouched.\<close>

definition extends :: "rstate \<Rightarrow> rstate \<Rightarrow> bool" where
  "extends s t = (heap_ok t \<and> r_faults t = r_faults s
     \<and> (\<forall>q\<in>blocks s. q \<in> blocks t \<and> hblock t q = hblock s q))"

lemma extends_refl: "heap_ok s \<Longrightarrow> extends s s"
  by (simp add: extends_def)

lemma extends_trans: "extends s t \<Longrightarrow> extends t u \<Longrightarrow> extends s u"
  by (auto simp: extends_def)

lemma extends_note [simp]: "extends s (t\<lparr>r_ev := e\<rparr>) = extends s t"
  by (simp add: extends_def)

lemma extends_cstr: "extends s t \<Longrightarrow> is_cstr s p \<Longrightarrow> is_cstr t p \<and> cstring t p = cstring s p"
  by (auto simp: extends_def is_cstr_def cstring_def)

lemma malloc_extends:
  assumes "malloc W n s = (p, t)" "heap_ok s"
  shows "extends s t" "p = 0 \<or> p \<in> blocks t \<and> p \<notin> blocks s \<and> length (hblock t p) = n"
    "p \<noteq> 0 \<Longrightarrow> blocks t = insert p (blocks s)" "p = 0 \<Longrightarrow> blocks t = blocks s"
  using heap_ok_fresh [OF assms(2)] assms(2)
  by (cases rule: malloc_cases [OF assms(1)]; auto simp: extends_def)+

lemma poke_extends:
  assumes "extends s t" "p \<in> blocks t" "p \<notin> blocks s" "off + length bs \<le> length (hblock t p)"
  shows "extends s (poke p off bs t)"
proof -
  have "in_block t p off (length bs)" using assms by (simp add: in_block_def)
  then show ?thesis using assms
    by (auto simp: extends_def in_block_poke) (auto simp: poke_def hblock_set_block)
qed

lemma free_extends:
  assumes "extends s t" "p = 0 \<or> p \<in> blocks t \<and> p \<notin> blocks s"
  shows "extends s (free_ptr p t)"
  using assms heap_ok_fresh(2) [of t] by (auto simp: extends_def) (metis gr0I)+

lemma hblock_poke:
  "p \<in> blocks s \<Longrightarrow> hblock (poke p off bs s) p = splice_at off bs (hblock s p)"
  by (simp add: poke_def hblock_set_block)

lemma splice_at_mem: "off < length b \<Longrightarrow> x \<in> set (splice_at off [x] b)"
  by (simp add: splice_at_def)

lemma copyHeader_extends:
  assumes "copyHeader W c s = (ok, p, t)" "heap_ok s"
  shows "extends s t" "ok = (p \<noteq> 0)" "p = 0 \<or> is_cstr t p \<and> p \<notin> blocks s"
    "p \<noteq> 0 \<Longrightarrow> blocks t = insert p (blocks s)"
    "p \<noteq> 0 \<Longrightarrow> 0 \<notin> set c \<Longrightarrow> cstring t p = c"
proof -
  obtain q s1 where m: "malloc W (length c + 1) s = (q, s1)" by force
  note e = malloc_extends [OF m assms(2)]
  define s2 where "s2 = poke q 0 c s1"
  have t: "p = q" "ok = (q \<noteq> 0)" "t = (if q = 0 then s1 else poke q (length c) [0] s2)"
    using assms(1) m by (auto simp: copyHeader_def s2_def split: if_splits)
  show "ok = (p \<noteq> 0)" using t by simp
  show "extends s t" "p = 0 \<or> is_cstr t p \<and> p \<notin> blocks s" "p \<noteq> 0 \<Longrightarrow> blocks t = insert p (blocks s)"
    "p \<noteq> 0 \<Longrightarrow> 0 \<notin> set c \<Longrightarrow> cstring t p = c"
  proof -
    consider "q = 0" | "q \<noteq> 0" by blast
    then have "extends s t \<and> (p = 0 \<or> is_cstr t p \<and> p \<notin> blocks s) \<and> (p \<noteq> 0 \<longrightarrow> blocks t = insert p (blocks s))
        \<and> (p \<noteq> 0 \<longrightarrow> 0 \<notin> set c \<longrightarrow> cstring t p = c)"
    proof cases
      case 1
      then show ?thesis using e t by simp
    next
      case 2
      have l: "q \<in> blocks s1" "q \<notin> blocks s" "length (hblock s1 q) = length c + 1" using e 2 by auto
      have s2: "extends s s2" "q \<in> blocks s2" "length (hblock s2 q) = length c + 1"
        using poke_extends [OF e(1) l(1,2), of 0 c] l by (auto simp: s2_def)
      have b: "hblock t q = c @ [0]"
        using t 2 l s2(2) by (simp add: s2_def hblock_poke) (auto simp: splice_at_def)
      have "extends s t" using t 2 poke_extends [OF s2(1,2) l(2), of "length c" "[0]"] s2(3) by simp
      moreover have "q \<in> blocks t" "blocks t = insert q (blocks s)" using t 2 l e(3) by (auto simp: s2_def)
      ultimately show ?thesis using 2 t(1) b l by (auto simp: is_cstr_def cstring_def takeWhile_upto)
    qed
    then show "extends s t" "p = 0 \<or> is_cstr t p \<and> p \<notin> blocks s" "p \<noteq> 0 \<Longrightarrow> blocks t = insert p (blocks s)"
      "p \<noteq> 0 \<Longrightarrow> 0 \<notin> set c \<Longrightarrow> cstring t p = c" by blast+
  qed
qed


lemma realloc_extends:
  assumes "realloc W p n t = (q, u)" "extends s t" "p = 0 \<or> p \<in> blocks t \<and> p \<notin> blocks s"
  shows "extends s u" "q = 0 \<or> q \<in> blocks u \<and> q \<notin> blocks s \<and> length (hblock u q) = n"
    "r \<in> blocks t \<Longrightarrow> r \<noteq> p \<Longrightarrow> r \<in> blocks u \<and> hblock u r = hblock t r \<and> r \<noteq> q"
proof -
  have h: "heap_ok t" using assms(2) by (simp add: extends_def)
  note fresh = heap_ok_fresh [OF h]
  have p: "p \<noteq> r_next t" using assms(3) fresh by auto
  have n: "r_next t \<notin> blocks s" using assms(2) fresh(1) by (auto simp: extends_def)
  from assms(1) consider (no) "q = 0" "u = r_note (AllocFailed n) t"
    | (moved) bs where "q = r_next t" "u = free_ptr p (new_block (fit n (hblock t p @ bs)) (r_note (Alloc (r_next t) n) t))"
    | (kept) bs where "q = p" "p \<in> blocks t" "u = set_block p (\<lambda>b. fit n (b @ bs)) t"
    by (auto simp: realloc_def split: option.splits if_splits)
  then have "extends s u \<and> (q = 0 \<or> q \<in> blocks u \<and> q \<notin> blocks s \<and> length (hblock u q) = n)
      \<and> (\<forall>r. r \<in> blocks t \<longrightarrow> r \<noteq> p \<longrightarrow> r \<in> blocks u \<and> hblock u r = hblock t r \<and> r \<noteq> q)"
  proof cases
    case no
    then show ?thesis using assms(2) fresh by (auto simp: extends_def) (metis gr0I)
  next
    case moved
    have "extends s (new_block (fit n (hblock t p @ bs)) (r_note (Alloc (r_next t) n) t))"
      using assms(2) n h by (auto simp: extends_def)
    then have "extends s u" unfolding moved(2) by (rule free_extends) (use assms(3) p in auto)
    then show ?thesis using moved n p h fresh by (auto simp: free_ptr_def)
  next
    case kept
    then show ?thesis using assms(2,3) fresh by (auto simp: extends_def hblock_set_block)
  qed
  then show "extends s u" "q = 0 \<or> q \<in> blocks u \<and> q \<notin> blocks s \<and> length (hblock u q) = n"
    "r \<in> blocks t \<Longrightarrow> r \<noteq> p \<Longrightarrow> r \<in> blocks u \<and> hblock u r = hblock t r \<and> r \<noteq> q" by blast+
qed

section \<open>The state of a transfer\<close>

text \<open>
  What holds between the callbacks, relative to the state \<open>s\<close> in which the exchange started: the
  chunk and the two header strings are NULL or blocks of their own, zero-terminated, and the data
  to send is a string of the caller; the relation satisfies a predicate \<open>Q\<close> the caller is interested in.
\<close>

definition fresh_str :: "rstate \<Rightarrow> rstate \<Rightarrow> nat \<Rightarrow> bool" where
  "fresh_str s t p = (p = 0 \<or> is_cstr t p \<and> p \<notin> blocks s)"

definition apart :: "nat list \<Rightarrow> bool" where
  "apart ps = distinct (filter (\<lambda>p. p \<noteq> 0) ps)"

definition chunk_ok :: "rstate \<Rightarrow> MemoryStruct \<Rightarrow> bool" where
  "chunk_ok t m = (memoryP m = 0 \<or> mem_size m < length (hblock t (memoryP m)))"

definition put_ok :: "rstate \<Rightarrow> ResponseStruct option \<Rightarrow> bool" where
  "put_ok s put = (case put of None \<Rightarrow> True
     | Some r \<Rightarrow> is_cstr s (rsp_responseP r) \<and> rsp_size r = length (cstring s (rsp_responseP r))
         \<and> (rsp_offset r = 0 \<or> rsp_size r \<le> unat (rsp_offset r)))"

definition xfer_ok :: "(u8 list \<Rightarrow> bool) \<Rightarrow> rstate \<Rightarrow> xfer \<Rightarrow> rstate \<Rightarrow> bool" where
  "xfer_ok Q s x t = (extends s t \<and> put_ok s (x_put x) \<and> (x_post x = 0 \<or> is_cstr s (x_post x))
     \<and> fresh_str s t (memoryP (x_chunk x)) \<and> chunk_ok t (x_chunk x)
     \<and> fresh_str s t (h_linkP (x_header x)) \<and> fresh_str s t (h_relP (x_header x))
     \<and> apart [memoryP (x_chunk x), h_linkP (x_header x), h_relP (x_header x)]
     \<and> (h_relP (x_header x) = 0 \<or> Q (cstring t (h_relP (x_header x)))))"

lemma xfer_ok_note [simp]: "xfer_ok Q s x (t\<lparr>r_ev := e\<rparr>) = xfer_ok Q s x t"
  by (simp add: xfer_ok_def chunk_ok_def fresh_str_def is_cstr_def cstring_def)

lemma fresh_str_keep:
  "fresh_str s t p \<Longrightarrow> (p \<in> blocks t \<Longrightarrow> p \<in> blocks u \<and> hblock u p = hblock t p) \<Longrightarrow> fresh_str s u p"
  by (auto simp: fresh_str_def is_cstr_def)

lemma fresh_str_extends: "fresh_str s t p \<Longrightarrow> extends t u \<Longrightarrow> fresh_str s u p"
  by (auto simp: fresh_str_def is_cstr_def extends_def)

lemma fresh_str_new: "extends s t \<Longrightarrow> fresh_str t u p \<Longrightarrow> fresh_str s u p"
  by (auto simp: fresh_str_def extends_def)

lemma fresh_str_neq: "fresh_str s t p \<Longrightarrow> fresh_str t u q \<Longrightarrow> p = 0 \<or> q = 0 \<or> p \<noteq> q"
  by (auto simp: fresh_str_def is_cstr_def)

lemma copyHeader_fresh:
  assumes "copyHeader W c t = (ok, p, u)" "heap_ok t"
  shows "extends t u" "fresh_str t u p"
  using copyHeader_extends [OF assms] by (auto simp: fresh_str_def)

text \<open>
  The end of the header as the string functions see it is not an equals sign (see
  \<open>updateLinkAndRel\<close>), and every part of it satisfies \<open>Q\<close>.
\<close>

definition text_line :: "(u8 list \<Rightarrow> bool) \<Rightarrow> u8 list \<Rightarrow> u8 list \<Rightarrow> bool" where
  "text_line Q line after = (\<forall>z. z = takeWhile (\<lambda>b. b \<noteq> 0) (line @ after) \<longrightarrow>
     (z = [] \<or> last z \<noteq> 61) \<and> (\<forall>pre mid post. z = pre @ mid @ post \<longrightarrow> Q mid))"

lemma rel_found:
  assumes "strcasestr z (cs ''rel='') = Some r" "z = [] \<or> last z \<noteq> 61"
  shows "5 \<le> length r"
proof -
  have length4: "length (cs ''rel='') = 4" by (simp add: cs_def)
  obtain pre where p: "z = pre @ r" "take 4 (map ascii_lower r) = map ascii_lower (cs ''rel='')"
    using find_sub_Some [OF assms(1) [unfolded strcasestr_def]] length4 by auto
  have m: "map ascii_lower (cs ''rel='') = [114, 101, 108, 61]" by code_simp
  have l: "4 \<le> length r" using arg_cong [OF p(2) [unfolded m], of length] by simp
  show ?thesis
  proof (rule ccontr)
    assume "\<not> 5 \<le> length r"
    with l have "length r = 4" by simp
    then obtain a b c d where r: "r = [a, b, c, d]" by (auto simp: numeral_eq_Suc length_Suc_conv)
    with p(2) m have "ascii_lower d = 61" by simp
    then have "d = 61" by (auto simp: ascii_lower_def split: if_splits) (metis add_diff_cancel_right' eq_diff_eq)?
    with r p(1) assms(2) show False by simp
  qed
qed


section \<open>The callbacks keep it\<close>

lemma xfer_ok_step:
  assumes "xfer_ok Q s x t" "extends t u" "chunk_ok u (x_chunk x)" "x_put y = x_put x" "x_post y = x_post x" "x_chunk y = x_chunk x"
    and "fresh_str s u (h_linkP (x_header y))" "fresh_str s u (h_relP (x_header y))"
    and "apart [memoryP (x_chunk x), h_linkP (x_header y), h_relP (x_header y)]"
    and "h_relP (x_header y) = 0 \<or> Q (cstring u (h_relP (x_header y)))"
  shows "xfer_ok Q s y u"
  using assms fresh_str_extends [OF _ assms(2)] extends_trans [OF _ assms(2)]
  by (simp add: xfer_ok_def)

lemma chunk_ok_extends:
  "xfer_ok Q s x t \<Longrightarrow> extends t u \<Longrightarrow> chunk_ok u (x_chunk x)"
  by (auto simp: xfer_ok_def chunk_ok_def fresh_str_def is_cstr_def extends_def)

lemma copyHeader_apart:
  assumes "xfer_ok Q s x t" "copyHeader W c t = (ok, p, u)"
  shows "extends t u" "fresh_str s u p" "q = 0 \<or> p = 0 \<or> fresh_str s t q \<longrightarrow> q = 0 \<or> p = 0 \<or> q \<noteq> p"
proof -
  have e: "extends s t" "heap_ok t" using assms(1) by (auto simp: xfer_ok_def extends_def)
  note c = copyHeader_fresh [OF assms(2) e(2)]
  show "extends t u" by (rule c)
  show "fresh_str s u p" by (rule fresh_str_new [OF e(1) c(2)])
  show "q = 0 \<or> p = 0 \<or> fresh_str s t q \<longrightarrow> q = 0 \<or> p = 0 \<or> q \<noteq> p"
    using fresh_str_neq [OF _ c(2)] by blast
qed

lemma rel_kept:
  assumes "xfer_ok Q s x t" "extends t u"
  shows "h_relP (x_header x) = 0 \<or> Q (cstring u (h_relP (x_header x)))"
  using assms extends_cstr [OF assms(2)] by (auto simp: xfer_ok_def fresh_str_def)

lemma xfer_link:
  assumes "xfer_ok Q s x t" "copyHeader W c t = (ok, p, u)" "h_relP h = h_relP (x_header x)"
  shows "xfer_ok Q s (x\<lparr>x_header := h\<lparr>h_linkP := p\<rparr>\<rparr>) u"
proof -
  note c = copyHeader_apart [OF assms(1,2)]
  show ?thesis
    using assms(1,3) c(2) fresh_str_extends [OF _ c(1)] c(3) [of "memoryP (x_chunk x)"] c(3) [of "h_relP (x_header x)"]
      rel_kept [OF assms(1) c(1)]
    by (intro xfer_ok_step [OF assms(1) c(1) chunk_ok_extends [OF assms(1) c(1)]])
      (auto simp: xfer_ok_def apart_def split: if_splits)
qed

lemma xfer_rel:
  assumes "xfer_ok Q s x t" "copyHeader W c t = (ok, p, u)" "h_linkP h = h_linkP (x_header x)" "0 \<notin> set c" "Q c"
  shows "xfer_ok Q s (x\<lparr>x_header := h\<lparr>h_relP := p\<rparr>\<rparr>) u"
proof -
  note c = copyHeader_apart [OF assms(1,2)]
  have "heap_ok t" using assms(1) by (simp add: xfer_ok_def extends_def)
  from copyHeader_extends(5) [OF assms(2) this _ assms(4)] assms(5) have "p = 0 \<or> Q (cstring u p)" by auto
  then show ?thesis
    using assms(1,3) c(2) fresh_str_extends [OF _ c(1)] c(3) [of "memoryP (x_chunk x)"] c(3) [of "h_linkP (x_header x)"]
    by (intro xfer_ok_step [OF assms(1) c(1) chunk_ok_extends [OF assms(1) c(1)]])
      (auto simp: xfer_ok_def apart_def split: if_splits)
qed

lemma xfer_sizes:
  "xfer_ok Q s (x\<lparr>x_header := h\<lparr>linkSize := n\<rparr>\<rparr>) t = xfer_ok Q s (x\<lparr>x_header := h\<rparr>) t"
  "xfer_ok Q s (x\<lparr>x_header := h\<lparr>relSize := n\<rparr>\<rparr>) t = xfer_ok Q s (x\<lparr>x_header := h\<rparr>) t"
  by (simp_all add: xfer_ok_def)

definition suffix_of :: "u8 list \<Rightarrow> u8 list \<Rightarrow> bool" where
  "suffix_of r z = (\<exists>pre. z = pre @ r)"

lemma suffix_of_trans: "suffix_of a b \<Longrightarrow> suffix_of b c \<Longrightarrow> suffix_of a c"
  unfolding suffix_of_def by (metis append_assoc)

lemma suffix_of_found:
  "strstr z pat = Some r \<Longrightarrow> suffix_of r z" "strcasestr z pat = Some r \<Longrightarrow> suffix_of r z"
  using find_sub_Some unfolding strstr_def strcasestr_def suffix_of_def by blast+

lemma suffix_of_tl: "suffix_of (tl z) z"
  unfolding suffix_of_def by (cases z) (auto intro: exI [of _ "[hd z]"])

lemma suffix_of_last: "suffix_of r z \<Longrightarrow> z = [] \<or> last z \<noteq> c \<Longrightarrow> r = [] \<or> last r \<noteq> c"
  by (auto simp: suffix_of_def)

lemma updateLinkAndRel_ok:
  assumes "xfer_ok Q s x t" "updateLinkAndRel W (x_header x) z t = (ok, h', u)" "z = [] \<or> last z \<noteq> 61"
    and "\<And>pre mid post. z = pre @ mid @ post \<Longrightarrow> Q mid" "0 \<notin> set z"
  shows "xfer_ok Q s (x\<lparr>x_header := h'\<rparr>) u"
proof (cases "strcasestr z (cs ''Link'')")
  case None
  then show ?thesis using assms(1,2) by (auto simp: updateLinkAndRel_def)
next
  case a: (Some a)
  show ?thesis
  proof (cases "strstr a (cs ''<'')")
    case None
    then show ?thesis using assms(1,2) a by (auto simp: updateLinkAndRel_def)
  next
    case b: (Some b)
    show ?thesis
    proof (cases "strstr (tl b) (cs ''>'')")
      case None
      then show ?thesis using assms(1,2) a b by (auto simp: updateLinkAndRel_def)
    next
      case en: (Some en)
      have suf: "suffix_of en z"
        using suffix_of_found(2) [OF a] suffix_of_found(1) [OF b] suffix_of_tl [of b] suffix_of_found(1) [OF en]
        by (blast intro: suffix_of_trans)
      define h1 where "h1 = (x_header x)\<lparr>linkSize := length (tl b) - length en\<rparr>"
      obtain ok1 p t1 where c1: "copyHeader W (take (linkSize h1) (tl b)) t = (ok1, p, t1)" by (metis prod_cases3)
      have x1: "xfer_ok Q s (x\<lparr>x_header := h1\<lparr>h_linkP := p\<rparr>\<rparr>) t1"
        by (rule xfer_link [OF assms(1) c1]) (simp add: h1_def)
      note d = updateLinkAndRel_def a b en c1 h1_def [symmetric]
      show ?thesis
      proof (cases "ok1 \<and> strcasestr en (cs ''rel='') \<noteq> None")
        case False
        then show ?thesis using assms(2) c1 x1 a b en by (cases ok1) (auto simp: updateLinkAndRel_def h1_def Let_def)
      next
        case True
        then obtain r where r: "strcasestr en (cs ''rel='') = Some r" by blast
        have l: "5 \<le> length r" by (rule rel_found [OF r suffix_of_last [OF suf assms(3)]])
        show ?thesis
        proof (cases "strstr (drop 5 r) [34]")
          case None
          then show ?thesis using assms(2) c1 x1 a b en r l True by (auto simp: updateLinkAndRel_def h1_def Let_def)
        next
          case (Some e2)
          define n where "n = length (drop 5 r) - length e2"
          obtain ok2 q t2 where c2: "copyHeader W (take n (drop 5 r)) t1 = (ok2, q, t2)" by (metis prod_cases3)
          obtain pre where "z = pre @ r"
            using suffix_of_trans [OF suffix_of_found(2) [OF r] suf] by (auto simp: suffix_of_def)
          then have "z = (pre @ take 5 r) @ take n (drop 5 r) @ drop n (drop 5 r)"
            by (metis append_assoc append_take_drop_id)
          then have "Q (take n (drop 5 r))" "0 \<notin> set (take n (drop 5 r))"
            using assms(4,5) by blast (use \<open>z = _ @ _ @ _\<close> assms(5) in \<open>metis Un_iff set_append\<close>)
          then have "xfer_ok Q s (x\<lparr>x_header := h1\<lparr>h_linkP := p, h_relP := q\<rparr>\<rparr>) t2"
            using xfer_rel [OF x1 c2, of "h1\<lparr>h_linkP := p\<rparr>"] by simp
          moreover have "h' = h1\<lparr>h_linkP := p, relSize := n, h_relP := q\<rparr> \<and> u = t2"
            using assms(2) c1 a b en r l True Some c2 by (auto simp: updateLinkAndRel_def h1_def n_def Let_def)
          ultimately show ?thesis by (simp add: xfer_ok_def)
        qed
      qed
    qed
  qed
qed

lemma writeHeader_ok:
  assumes "xfer_ok Q s x t" "writeHeaderCallback W line after (x_header x) t = (h', u)" "text_line Q line after"
  shows "xfer_ok Q s (x\<lparr>x_header := h'\<rparr>) u"
proof (cases "6 \<le> length line \<and> take 5 line = cs ''Link:''")
  case True
  obtain ok h2 v where e: "updateLinkAndRel W (x_header x) (takeWhile (\<lambda>b. b \<noteq> 0) (line @ after)) t = (ok, h2, v)"
    by (metis prod_cases3)
  with True assms(2) have "h' = h2" "u = v" by (auto simp: writeHeaderCallback_def)
  then show ?thesis using updateLinkAndRel_ok [OF assms(1) e] assms(3) by (auto simp: text_line_def dest: set_takeWhileD)
qed (use assms(1,2) in \<open>auto simp: writeHeaderCallback_def\<close>)

lemma writeMemory_ok:
  assumes "xfer_ok Q s x t" "writeMemoryCallback W contents (x_chunk x) t = (n, m, u)"
  shows "xfer_ok Q s (x\<lparr>x_chunk := m\<rparr>) u" "n = length contents \<longrightarrow> contents \<noteq> [] \<longrightarrow> memoryP m \<noteq> 0"
proof -
  let ?p = "memoryP (x_chunk x)" and ?n = "mem_size (x_chunk x)"
  obtain q t1 where r: "realloc W ?p (?n + length contents + 1) t = (q, t1)" by force
  have e: "extends s t" "?p = 0 \<or> ?p \<in> blocks t \<and> ?p \<notin> blocks s"
    using assms(1) by (auto simp: xfer_ok_def fresh_str_def is_cstr_def)
  note re = realloc_extends [OF r e]
  have other: "fresh_str s t1 p" "p = 0 \<or> q = 0 \<or> p \<noteq> q" if "fresh_str s t p" "p = 0 \<or> p \<noteq> ?p" for p
    using that re(3) [of p] by (auto simp: fresh_str_def is_cstr_def)
  have same: "cstring t1 p = cstring t p" if "fresh_str s t p" "p \<noteq> 0" "p \<noteq> ?p" for p
    using that re(3) [of p] by (auto simp: fresh_str_def is_cstr_def cstring_def)
  have hs: "fresh_str s t (h_linkP (x_header x))" "fresh_str s t (h_relP (x_header x))"
    "h_linkP (x_header x) = 0 \<or> h_linkP (x_header x) \<noteq> ?p" "h_relP (x_header x) = 0 \<or> h_relP (x_header x) \<noteq> ?p"
    "apart [h_linkP (x_header x), h_relP (x_header x)]"
    using assms(1) by (auto simp: xfer_ok_def apart_def e split: if_splits)
  define t2 where "t2 = poke q ?n contents t1"
  define t3 where "t3 = poke q (?n + length contents) [0] t2"
  have v: "(n, m, u) = (if q = 0 then (0, (x_chunk x)\<lparr>memoryP := 0\<rparr>, t1)
      else (length contents, (x_chunk x)\<lparr>memoryP := q, mem_size := ?n + length contents\<rparr>, t3))"
    using assms(2) r by (auto simp: writeMemoryCallback_def t2_def t3_def Let_def split: if_splits)
  show "n = length contents \<longrightarrow> contents \<noteq> [] \<longrightarrow> memoryP m \<noteq> 0" using v by (auto split: if_splits)
  show "xfer_ok Q s (x\<lparr>x_chunk := m\<rparr>) u"
  proof (cases "q = 0")
    case True
    then show ?thesis using v assms(1) re(1) other hs same [OF hs(2)]
      by (auto simp: xfer_ok_def chunk_ok_def apart_def fresh_str_def split: if_splits)
  next
    case False
    then have q: "q \<in> blocks t1" "q \<notin> blocks s" "length (hblock t1 q) = ?n + length contents + 1" using re(2) by auto
    have e2: "extends s t2" "q \<in> blocks t2" "length (hblock t2 q) = ?n + length contents + 1"
      using poke_extends [OF re(1) q(1,2), of ?n contents] q by (auto simp: t2_def)
    have e3: "extends s t3"
      using poke_extends [OF e2(1,2) q(2), of "?n + length contents" "[0]"] e2(3) by (simp add: t3_def)
    have b: "q \<in> blocks t3" "length (hblock t3 q) = ?n + length contents + 1" "0 \<in> set (hblock t3 q)"
      using e2 by (auto simp: t3_def hblock_poke splice_at_mem)
    have keep: "fresh_str s t3 p" if "fresh_str s t1 p" "p = 0 \<or> q \<noteq> p" for p
      using that by (auto simp: fresh_str_def is_cstr_def t3_def t2_def poke_def hblock_set_block)
    from False v have w: "m = (x_chunk x)\<lparr>memoryP := q, mem_size := ?n + length contents\<rparr>" "u = t3" by auto
    have l: "fresh_str s t3 (h_linkP (x_header x))" "fresh_str s t3 (h_relP (x_header x))"
      using other [OF hs(1,3)] other [OF hs(2,4)] False by (auto intro: keep)
    have "apart [q, h_linkP (x_header x), h_relP (x_header x)]"
      using other(2) [OF hs(1,3)] other(2) [OF hs(2,4)] hs(5) False by (auto simp: apart_def)
    moreover have "h_relP (x_header x) = 0 \<or> Q (cstring t3 (h_relP (x_header x)))"
    proof (cases "h_relP (x_header x) = 0")
      case r: False
      have "cstring t3 (h_relP (x_header x)) = cstring t1 (h_relP (x_header x))"
        using other(2) [OF hs(2,4)] False r by (auto simp: t3_def t2_def poke_def hblock_set_block cstring_def)
      then show ?thesis using same [OF hs(2) r] hs(4) r assms(1) by (auto simp: xfer_ok_def)
    qed simp
    ultimately show ?thesis using w assms(1) e3 b q(2) l
      by (simp add: xfer_ok_def chunk_ok_def fresh_str_def is_cstr_def)
  qed
qed


text \<open>
  \<open>orderly\<close>: every header line is followed by what \<open>text_line\<close> says, and \<^verbatim>\<open>libcurl\<close> asks for data in
  pieces of at least \<open>n\<close> bytes. What happens with smaller pieces is the subject of \<open>put_reads\<close> below.
\<close>

definition orderly_transfer :: "(u8 list \<Rightarrow> bool) \<Rightarrow> nat \<Rightarrow> transfer \<Rightarrow> bool" where
  "orderly_transfer Q n t = (case t of HeaderLine line after \<Rightarrow> text_line Q line after | ReadRequest k \<Rightarrow> n \<le> k | BodyChunk c \<Rightarrow> True)"

definition orderly :: "(u8 list \<Rightarrow> bool) \<Rightarrow> rworld \<Rightarrow> nat \<Rightarrow> bool" where
  "orderly Q W n = (\<forall>ev. list_all (orderly_transfer Q n) (fst (rw_perform W ev)))"

definition put_size :: "ResponseStruct option \<Rightarrow> nat" where
  "put_size put = (case put of None \<Rightarrow> 0 | Some r \<Rightarrow> rsp_size r)"

lemma readResponse_ok:
  assumes "readResponseCallback n r t = (bs, r', u)" "put_ok s (Some r)" "extends s t" "rsp_size r \<le> n" "rsp_size r < 2 ^ 32"
  shows "u = t" "put_ok s (Some r')" "rsp_size r' = rsp_size r"
proof -
  have l: "rsp_size r < length (hblock t (rsp_responseP r))" "rsp_responseP r \<in> blocks t"
    using assms(2,3) takeWhile_shorter [of 0 "hblock s (rsp_responseP r)" "\<lambda>b. b \<noteq> 0"]
    by (auto simp: put_ok_def is_cstr_def cstring_def extends_def)
  have n: "(if n < rsp_size r then n else rsp_size r) = rsp_size r" using assms(4) by simp
  show "u = t" "put_ok s (Some r')" "rsp_size r' = rsp_size r"
    using assms(1,2,5) l n
    by (auto simp: readResponseCallback_def Let_def touch_def in_block_def put_ok_def unat_of_nat split: if_splits)
qed

lemma run_transfers_ok:
  assumes "run_transfers W ts x t = (ok, y, u)" "xfer_ok Q s x t" "list_all (orderly_transfer Q (put_size (x_put x))) ts"
    "put_size (x_put x) < 2 ^ 32"
  shows "xfer_ok Q s y u \<and> put_size (x_put y) = put_size (x_put x) \<and> x_post y = x_post x"
  using assms
proof (induction W ts x t rule: run_transfers.induct)
  case (2 W line after ts x t)
  obtain h v where c: "writeHeaderCallback W line after (x_header x) t = (h, v)" by force
  have "text_line Q line after" using "2.prems"(3) by (simp add: orderly_transfer_def)
  from "2.IH" [OF c [symmetric] refl _ writeHeader_ok [OF "2.prems"(2) c this]] "2.prems" c
  show ?case by simp
next
  case (3 W contents ts x t)
  obtain n m v where c: "writeMemoryCallback W contents (x_chunk x) t = (n, m, v)" by (metis prod_cases3)
  note k = writeMemory_ok(1) [OF "3.prems"(2) c]
  show ?case
  proof (cases "n = length contents")
    case True
    with "3.IH" [OF c [symmetric] refl refl True _ k] "3.prems" c show ?thesis by simp
  next
    case False
    with "3.prems"(1) c k show ?thesis by auto
  qed
next
  case (4 W n ts x t)
  show ?case
  proof (cases "x_put x")
    case None
    with 4 show ?thesis by simp
  next
    case (Some r)
    obtain bs r' v where c: "readResponseCallback n r t = (bs, r', v)" by (metis prod_cases3)
    have p: "put_ok s (Some r)" "extends s t" "rsp_size r \<le> n" "rsp_size r < 2 ^ 32"
      using "4.prems" Some by (auto simp: xfer_ok_def orderly_transfer_def put_size_def)
    note k = readResponse_ok [OF c p]
    have "xfer_ok Q s (x\<lparr>x_put := Some r'\<rparr>) v"
      using "4.prems"(2) k(1,2) by (simp add: xfer_ok_def)
    then have x: "xfer_ok Q s (x\<lparr>x_put := Some r'\<rparr>) (r_note (Net (CurlSent bs)) v)" by simp
    from "4.IH"(2) [OF Some c [symmetric] refl refl _ x] "4.prems" Some c k(3) show ?thesis by (simp add: put_size_def)
  qed
qed simp

lemma perform_ok:
  assumes "curl_easy_perform W x t = (r, y, u)" "xfer_ok Q s x t" "orderly Q W (put_size (x_put x))" "put_size (x_put x) < 2 ^ 32"
  shows "xfer_ok Q s y u \<and> put_size (x_put y) = put_size (x_put x)"
proof -
  obtain ts r0 where p: "rw_perform W (r_ev t) = (ts, r0)" by force
  have "is_cstr t (x_post x) \<or> x_post x = 0" using assms(2) extends_cstr by (auto simp: xfer_ok_def)
  then have tc: "(if x_post x = 0 then t else touch_cstring (x_post x) t) = t" by (auto simp: touch_is_cstr)
  obtain ok z v where rt: "run_transfers W ts x t = (ok, z, v)" by (metis prod_cases3)
  have "list_all (orderly_transfer Q (put_size (x_put x))) ts"
    using assms(3) p unfolding orderly_def by (metis fst_conv)
  from run_transfers_ok [OF rt assms(2) this assms(4)] show ?thesis
    using assms(1) p tc rt by (auto simp: curl_easy_perform_def Let_def)
qed

lemma attempts_ok:
  assumes "attempts_loop W n c x t = (r, y, u)" "xfer_ok Q s x t" "orderly Q W (put_size (x_put x))" "put_size (x_put x) < 2 ^ 32"
  shows "xfer_ok Q s y u"
  using assms
proof (induction W n c x t rule: attempts_loop.induct)
  case (2 W left c x t)
  obtain r1 y1 u1 where p: "curl_easy_perform W x t = (r1, y1, u1)" by (metis prod_cases3)
  note k = perform_ok [OF p "2.prems"(2-4)]
  show ?case
  proof (cases "r1 = CURLE_OK \<or> SE_CONNECTION_DEFAULT_TIMEOUT div 2 < rw_timediff W (r_ev u1)")
    case True
    then show ?thesis using "2.prems"(1) p k by (auto split: if_splits)
  next
    case False
    then have "attempts_loop W left r1 y1 u1 = (r, y, u)" using "2.prems"(1) p by auto
    from "2.IH" [OF p [symmetric] refl refl _ _ this] False k "2.prems"(3,4) show ?thesis by auto
  qed
qed simp


section \<open>An exchange\<close>

lemma setopts_extends: "setopts W opts t = (ok, u) \<Longrightarrow> \<exists>ev. u = t\<lparr>r_ev := ev\<rparr>"
proof (induction W opts t rule: setopts.induct)
  case (1 W s)
  then show ?case by (auto intro: exI [of _ "r_ev s"])
qed (fastforce simp: Let_def split: if_splits)

lemma fresh_str_note [simp]:
  "fresh_str s (t\<lparr>r_ev := e\<rparr>) p = fresh_str s t p" "is_cstr (t\<lparr>r_ev := e\<rparr>) p = is_cstr t p"
  by (simp_all add: fresh_str_def is_cstr_def)

lemma free_cleanup:
  assumes "extends s t" "fresh_str s t p" "fresh_str s t q" "fresh_str s t r" "apart [p, q, r]"
  shows "extends s (free_ptr r (free_ptr q (free_ptr p t)))"
proof -
  have ok: "heap_ok t" using assms(1) by (simp add: extends_def)
  have "heap_ok (free_ptr p t)" "heap_ok (free_ptr q (free_ptr p t))" using ok by auto
  then show ?thesis
    using assms ok by (intro free_extends) (auto simp: fresh_str_def is_cstr_def apart_def split: if_splits)
qed

lemma httpCommunicate_frame:
  assumes "httpCommunicate W inp (l, r, c) m s = (ret, (l', r', c'), t)" "heap_ok s"
    and "l = 0 \<or> is_cstr s l" "inp = 0 \<or> is_cstr s inp" "m = MethodPUT \<longrightarrow> inp \<noteq> 0"
    and "orderly Q W (if m = MethodPUT then length (cstring s inp) else 0)" "length (cstring s inp) < 2 ^ 32"
  shows "extends s t
    \<and> (l = 0 \<and> ret \<noteq> ROOTPA_OK \<and> (l', r', c') = (l, r, c)
       \<or> ret \<noteq> ROOTPA_OK \<and> (l', r', c') = (l, RelPtr 0, 0)
       \<or> (\<exists>p. r' = RelPtr p \<and> fresh_str s t l' \<and> fresh_str s t p \<and> fresh_str s t c' \<and> apart [l', p, c']
            \<and> (p = 0 \<or> Q (cstring t p))))"
proof -
  obtain mem s1 where m1: "malloc W 1 s = (mem, s1)" by force
  note me = malloc_extends [OF m1 assms(2)]
  show ?thesis
  proof (cases "l = 0 \<or> mem = 0")
    case True
    then show ?thesis using assms(1,2) m1 me(1) by (auto simp: httpCommunicate_def extends_refl Let_def split: if_splits)
  next
    case False
    then have mem: "mem \<in> blocks s1" "mem \<notin> blocks s" "length (hblock s1 mem) = 1" using me(2) by auto
    define s2 where "s2 = poke mem 0 [0] s1"
    have e2: "extends s s2" using poke_extends [OF me(1) mem(1,2), of 0 "[0]"] mem(3) by (simp add: s2_def)
    have f2: "fresh_str s s2 mem" "length (hblock s2 mem) = 1"
      using mem by (auto simp: fresh_str_def is_cstr_def s2_def hblock_poke splice_at_mem)
    have inp2: "cstring s2 inp = cstring s inp \<and> is_cstr s2 inp" if "inp \<noteq> 0"
      using extends_cstr [OF e2] assms(4) that by blast
    have ts: "(if m = MethodPUT then touch_cstring inp s2 else s2) = s2"
      using inp2 assms(5) by (auto simp: touch_is_cstr)
    define put where "put = (if m = MethodPUT
        then Some \<lparr>rsp_responseP = inp, rsp_size = length (cstring s2 inp), rsp_offset = 0\<rparr> else None)"
    obtain ok3 s3 where o3: "(case m of MethodPUT \<Rightarrow> setPutOpt W (the put) s2 | MethodPOST \<Rightarrow> setPostOpt W inp s2
        | MethodDELETE \<Rightarrow> setDeleteOpt W inp s2 | MethodGET \<Rightarrow> (True, s2)) = (ok3, s3)" by force
    then have "\<exists>ev3. s3 = s2\<lparr>r_ev := ev3\<rparr>"
      by (cases m) (auto simp: setPutOpt_def setPostOpt_def setDeleteOpt_def simp del: setopts.simps
          dest: setopts_extends intro: exI [of _ "r_ev s2"] exI [of _ "r_ev s3"])
    then obtain ev3 where s3: "s3 = s2\<lparr>r_ev := ev3\<rparr>" by blast
    obtain ok4 s4 where o4: "setBasicOpt W l s3 = (ok4, s4)" by force
    have "is_cstr s3 l" using extends_cstr [OF e2] assms(3) False by (auto simp: s3)
    then obtain ev4 where s4: "s4 = s2\<lparr>r_ev := ev4\<rparr>"
      using o4 s3 setopts_extends by (auto simp: setBasicOpt_def touch_is_cstr simp del: setopts.simps) fastforce
    define x where "x = \<lparr>x_chunk = \<lparr>memoryP = mem, mem_size = 0\<rparr>,
       x_header = \<lparr>h_linkP = 0, linkSize = 0, h_relP = 0, relSize = 0\<rparr>,
       x_put = put, x_post = (if m = MethodPOST then inp else 0)\<rparr>"
    obtain cr y s5 where a: "attempts_loop W 30 7 x s4 = (cr, y, s5)" by (metis prod_cases3)
    have x: "xfer_ok Q s x s4"
      using e2 f2 assms(4,5) inp2
      by (auto simp: xfer_ok_def x_def s4 chunk_ok_def apart_def put_ok_def put_def fresh_str_def)
    have sz: "put_size (x_put x) = (if m = MethodPUT then length (cstring s inp) else 0)"
      using inp2 assms(5) by (auto simp: x_def put_def put_size_def)
    have y: "xfer_ok Q s y s5"
      using attempts_ok [OF a x] assms(6,7) sz by (auto split: if_splits)
    have d: "httpCommunicate W inp (l, r, c) m s =
        (if \<not> ok3 then (ROOTPA_ERROR_NETWORK, (l, RelPtr 0, 0), free_ptr mem s3)
         else if \<not> ok4 then (ROOTPA_ERROR_NETWORK, (l, RelPtr 0, 0), free_ptr mem s4)
         else if cr \<noteq> CURLE_OK then (ROOTPA_ERROR_NETWORK, (l, RelPtr 0, 0), r_note (Net CurlReset)
           (free_ptr (h_relP (x_header y)) (free_ptr (h_linkP (x_header y)) (free_ptr (memoryP (x_chunk y)) s5))))
         else (http_result (rw_http_code W (r_ev s5)), (h_linkP (x_header y), RelPtr (h_relP (x_header y)), memoryP (x_chunk y)),
               r_note (Net CurlReset) s5))"
      unfolding httpCommunicate_def Let_def prod.case m1 s2_def [symmetric] ts put_def [symmetric] o3 o4 x_def [symmetric] a
      using False by simp
    have early: ?thesis if "(ret, (l', r', c'), t) = (ROOTPA_ERROR_NETWORK, (l, RelPtr 0, 0), u)" "extends s u" for u
      using that by auto
    show ?thesis
    proof (cases "ok3 \<and> ok4")
      case False
      have "extends s (free_ptr mem s3)" "extends s (free_ptr mem s4)"
        using e2 mem by (auto simp: s3 s4 s2_def intro!: free_extends)
      then show ?thesis
        using False assms(1) \<open>\<not> (l = 0 \<or> mem = 0)\<close> by (cases ok3) (auto simp: d intro!: early)
    next
      case True
      show ?thesis
      proof (cases "cr = CURLE_OK")
        case False
        have "extends s (free_ptr (h_relP (x_header y)) (free_ptr (h_linkP (x_header y)) (free_ptr (memoryP (x_chunk y)) s5)))"
          using y by (intro free_cleanup) (auto simp: xfer_ok_def)
        then show ?thesis
          using False True assms(1) \<open>\<not> (l = 0 \<or> mem = 0)\<close> by (auto simp: d)
      next
        case good: True
        have "apart [h_linkP (x_header y), h_relP (x_header y), memoryP (x_chunk y)]"
          using y by (auto simp: xfer_ok_def apart_def split: if_splits)
        then show ?thesis
          using good True assms(1) y \<open>\<not> (l = 0 \<or> mem = 0)\<close> by (auto simp: d xfer_ok_def cstring_def)
      qed
    qed
  qed
qed


section \<open>What a PUT sends\<close>

fun read_all :: "nat list \<Rightarrow> ResponseStruct \<Rightarrow> rstate \<Rightarrow> u8 list \<times> ResponseStruct \<times> rstate" where
  "read_all [] r s = ([], r, s)"
| "read_all (n # ns) r s =
     (let (bs, r, s) = readResponseCallback n r s; (rest, r, s) = read_all ns r s in (bs @ rest, r, s))"

lemma peek_append: "peek s p off (a + b) = peek s p off a @ peek s p (off + a) b"
  by (rule nth_equalityI) (auto simp: peek_def nth_append ac_simps)

lemma read_step:
  assumes "0 < n" "n \<le> m" "off < m" "m + n < 2 ^ 32" "r = \<lparr>rsp_responseP = p, rsp_size = m, rsp_offset = of_nat off\<rparr>"
  shows "readResponseCallback n r s = (peek s p off n, r\<lparr>rsp_offset := of_nat (off + n)\<rparr>, touch p off n s)"
proof -
  have "unat (of_nat off :: u32) = off" using assms(3,4) by (simp add: unat_of_nat)
  then show ?thesis using assms by (auto simp: readResponseCallback_def Let_def)
qed

lemma in_block_touch [simp]: "in_block (touch p off n s) q a b = in_block s q a b"
  by (simp add: in_block_def)

lemma touch_grows: "r_faults (touch p off n s) = (if in_block s p off n then [] else [(p, off, n)]) @ r_faults s"
  by (simp add: touch_def)

lemma read_steps:
  assumes "0 < n" "n \<le> m" "m + n < 2 ^ 32" "off + k * n < m + n"
  shows "\<exists>s' fs. read_all (replicate k n) \<lparr>rsp_responseP = p, rsp_size = m, rsp_offset = of_nat off\<rparr> s
      = (peek s p off (k * n), \<lparr>rsp_responseP = p, rsp_size = m, rsp_offset = of_nat (off + k * n)\<rparr>, s')
    \<and> r_faults s' = fs @ r_faults s \<and> (fs = [] \<longleftrightarrow> k = 0 \<or> in_block s p 0 (off + k * n))"
  using assms(4)
proof (induction k arbitrary: off s)
  case 0
  then show ?case by (simp add: peek_def)
next
  case (Suc k)
  then have o: "off < m" "off + n + k * n < m + n" by simp_all
  let ?t = "touch p off n s"
  from Suc.IH [OF o(2), of ?t] obtain s' fs where
    ih: "read_all (replicate k n) \<lparr>rsp_responseP = p, rsp_size = m, rsp_offset = of_nat (off + n)\<rparr> ?t
      = (peek ?t p (off + n) (k * n), \<lparr>rsp_responseP = p, rsp_size = m, rsp_offset = of_nat (off + n + k * n)\<rparr>, s')"
    "r_faults s' = fs @ r_faults ?t" "fs = [] \<longleftrightarrow> k = 0 \<or> in_block s p 0 (off + n + k * n)" by auto
  have st: "readResponseCallback n \<lparr>rsp_responseP = p, rsp_size = m, rsp_offset = of_nat off\<rparr> s
      = (peek s p off n, \<lparr>rsp_responseP = p, rsp_size = m, rsp_offset = of_nat (off + n)\<rparr>, ?t)"
    using read_step [OF assms(1,2) o(1) assms(3) refl] by simp
  have "read_all (replicate (Suc k) n) \<lparr>rsp_responseP = p, rsp_size = m, rsp_offset = of_nat off\<rparr> s
      = (peek s p off (Suc k * n), \<lparr>rsp_responseP = p, rsp_size = m, rsp_offset = of_nat (off + Suc k * n)\<rparr>, s')"
    using st ih(1) by (simp add: peek_append add.assoc)
  moreover have "r_faults s' = (fs @ (if in_block s p off n then [] else [(p, off, n)])) @ r_faults s"
    using ih(2) by (simp add: touch_grows)
  moreover have "(fs @ (if in_block s p off n then [] else [(p, off, n)]) = [])
      \<longleftrightarrow> Suc k = 0 \<or> in_block s p 0 (off + Suc k * n)"
    using ih(3) assms(1) by (auto simp: in_block_def add.assoc)
  ultimately show ?case by blast
qed

text \<open>
  What a PUT hands to \<^verbatim>\<open>libcurl\<close>, which asks for it in pieces of \<open>n\<close> bytes, for a string of \<open>m\<close>
  bytes. If a piece takes the whole string, the first read returns exactly the string and the next
  one nothing. Otherwise the callback copies \<open>n\<close> bytes in every read until the offset has passed the
  end, since it compares the piece with the size of the string and not with what is left: the \<open>k\<close>
  reads return \<open>k * n\<close> bytes, of which the string is only the first \<open>m\<close>, and memory outside the block
  is read exactly when the block does not happen to reach that far.
\<close>

theorem put_reads:
  assumes "0 < n" "0 < m" "m + n < 2 ^ 32" "in_block s p 0 m"
    and "(k - 1) * n < m" "m \<le> k * n"
    and "read_all (replicate k n @ [n]) \<lparr>rsp_responseP = p, rsp_size = m, rsp_offset = 0\<rparr> s = (sent, r, s')"
  shows "take m sent = peek s p 0 m
    \<and> (if m \<le> n then sent = peek s p 0 m \<and> r_faults s' = r_faults s
       else length sent = k * n \<and> (r_faults s' = r_faults s) = in_block s p 0 (k * n))"
proof -
  have k: "k \<noteq> 0" using assms(2,6) by (cases k) auto
  have app: "read_all (xs @ ys) q t = (let (a, q, t) = read_all xs q t; (b, q, t) = read_all ys q t in (a @ b, q, t))"
    for xs ys q t
    by (induction xs arbitrary: q t) (simp_all add: Let_def split: prod.split)
  have stop: "read_all [n] \<lparr>rsp_responseP = p, rsp_size = m, rsp_offset = of_nat j\<rparr> t
      = ([], \<lparr>rsp_responseP = p, rsp_size = m, rsp_offset = of_nat j\<rparr>, t)" if "m \<le> j" "j < 2 ^ 32" for j t
    using that by (simp add: readResponseCallback_def unat_of_nat Let_def)
  show ?thesis
  proof (cases "m \<le> n")
    case True
    then have "k = 1" using assms(1,5) k by (cases k; cases "k - 1") auto
    moreover have "readResponseCallback n \<lparr>rsp_responseP = p, rsp_size = m, rsp_offset = 0\<rparr> s
        = (peek s p 0 m, \<lparr>rsp_responseP = p, rsp_size = m, rsp_offset = of_nat m\<rparr>, s)"
      using True assms(2,4) by (auto simp: readResponseCallback_def Let_def touch_def)
    moreover have "m < 2 ^ 32" using assms(3) by simp
    ultimately have "sent = peek s p 0 m" "s' = s"
      using assms(7) stop [of m s] by (auto simp: Let_def)
    then show ?thesis using True by (simp add: peek_def)
  next
    case False
    have kn: "k * n < m + n" using assms(5) k by (cases k) auto
    from read_steps [of n m 0 k p s] False assms(1,3) kn obtain t fs where
      "read_all (replicate k n) \<lparr>rsp_responseP = p, rsp_size = m, rsp_offset = 0\<rparr> s
        = (peek s p 0 (k * n), \<lparr>rsp_responseP = p, rsp_size = m, rsp_offset = of_nat (k * n)\<rparr>, t)"
      "r_faults t = fs @ r_faults s" "fs = [] \<longleftrightarrow> in_block s p 0 (k * n)" using k by auto
    moreover have "k * n < 2 ^ 32" using kn assms(3) by simp
    ultimately have st: "sent = peek s p 0 (k * n)" "s' = t"
      using assms(6,7) stop [of "k * n" t] by (auto simp: app Let_def)
    have "take m sent = peek s p 0 m"
      using st(1) peek_append [of s p 0 m "k * n - m"] assms(6) by (simp add: peek_def)
    then show ?thesis using False st \<open>r_faults t = _\<close> \<open>fs = [] \<longleftrightarrow> _\<close> by (simp add: peek_def)
  qed
qed


section \<open>The Link header\<close>

lemma cs_lits:
  "cs ''Link'' = [76, 105, 110, 107]" "cs ''<'' = [60]" "cs ''>'' = [62]" "cs ''rel='' = [114, 101, 108, 61]"
  "cs ''Link:'' = [76, 105, 110, 107, 58]" "cs ''Link: <'' = [76, 105, 110, 107, 58, 32, 60]"
  "cs ''>;rel='' = [62, 59, 114, 101, 108, 61]"
  by code_simp+

lemma dropWhile_upto: "x \<notin> set xs \<Longrightarrow> dropWhile (\<lambda>b. b \<noteq> x) (xs @ x # ys) = x # ys"
  by (induction xs) auto

lemma takeWhile_skip: "x \<notin> set xs \<Longrightarrow> takeWhile (\<lambda>b. b \<noteq> x) (xs @ ys) = xs @ takeWhile (\<lambda>b. b \<noteq> x) ys"
  by (induction xs) auto

lemma copyHeader_succeeds:
  assumes "copyHeader W c s = (ok, p, t)" "heap_ok s" "\<And>ev n. rw_malloc W ev n \<noteq> None"
  shows "ok" "p \<noteq> 0"
proof -
  obtain q s1 where m: "malloc W (length c + 1) s = (q, s1)" by force
  have "q \<noteq> 0" using m assms(3) [of "r_ev s" "length c + 1"] heap_ok_fresh(3) [OF assms(2)]
    by (auto simp: malloc_def split: option.splits)
  then show "ok" "p \<noteq> 0" using assms(1) m by (auto simp: copyHeader_def)
qed

text \<open>
  The client follows what the header says. From a header \<^verbatim>\<open>Link: <u>;rel="r"\<close>, where \<open>u\<close> contains no
  \<^verbatim>\<open>>\<close> and \<open>r\<close> no quote, the callback makes two fresh strings, exactly \<open>u\<close> and \<open>r\<close>, whatever follows
  the line in memory, provided memory can be allocated; nothing else is touched.
\<close>

theorem link_header_parsed:
  assumes "heap_ok s" "\<And>ev n. rw_malloc W ev n \<noteq> None"
    and "62 \<notin> set u" "34 \<notin> set r" "0 \<notin> set u" "0 \<notin> set r"
    and "writeHeaderCallback W (cs ''Link: <'' @ u @ cs ''>;rel='' @ [34] @ r @ [34, 13, 10]) after h s = (h', s')"
  shows "cstring s' (h_linkP h') = u \<and> cstring s' (h_relP h') = r
    \<and> linkSize h' = length u \<and> relSize h' = length r
    \<and> h_linkP h' \<notin> blocks s \<and> h_relP h' \<notin> blocks s \<and> h_linkP h' \<noteq> h_relP h'
    \<and> blocks s' = insert (h_relP h') (insert (h_linkP h') (blocks s)) \<and> extends s s'"
proof -
  let ?rest = "[34, 13, 10] @ takeWhile (\<lambda>b. b \<noteq> 0) after"
  let ?line = "cs ''Link: <'' @ u @ cs ''>;rel='' @ [34] @ r @ [34, 13, 10]"
  have z: "takeWhile (\<lambda>b. b \<noteq> 0) (?line @ after) = [76, 105, 110, 107, 58, 32, 60] @ u @ [62, 59, 114, 101, 108, 61, 34] @ r @ ?rest"
    using assms(5,6) by (simp add: cs_lits takeWhile_skip)
  obtain ok1 p s1 where c1: "copyHeader W u s = (ok1, p, s1)" by (metis prod_cases3)
  obtain ok2 q s2 where c2: "copyHeader W r s1 = (ok2, q, s2)" by (metis prod_cases3)
  note e1 = copyHeader_extends [OF c1 assms(1)]
  have h1: "heap_ok s1" using e1(1) by (simp add: extends_def)
  note e2 = copyHeader_extends [OF c2 h1]
  note got = copyHeader_succeeds [OF c1 assms(1,2)] copyHeader_succeeds [OF c2 h1 assms(2)]
  have f1: "strcasestr ([76, 105, 110, 107, 58, 32, 60] @ u @ [62, 59, 114, 101, 108, 61, 34] @ r @ ?rest) (cs ''Link'')
      = Some ([76, 105, 110, 107, 58, 32, 60] @ u @ [62, 59, 114, 101, 108, 61, 34] @ r @ ?rest)"
    by (simp add: strcasestr_def cs_lits)
  have f2: "strstr ([76, 105, 110, 107, 58, 32, 60] @ u @ [62, 59, 114, 101, 108, 61, 34] @ r @ ?rest) (cs ''<'')
      = Some (60 # u @ [62, 59, 114, 101, 108, 61, 34] @ r @ ?rest)"
    by (simp add: strstr_single cs_lits)
  have f3: "strstr (u @ [62, 59, 114, 101, 108, 61, 34] @ r @ ?rest) (cs ''>'')
      = Some ([62, 59, 114, 101, 108, 61, 34] @ r @ ?rest)"
    using dropWhile_upto [OF assms(3)] by (simp add: strstr_single cs_lits)
  have f4: "strcasestr ([62, 59, 114, 101, 108, 61, 34] @ r @ ?rest) (cs ''rel='')
      = Some ([114, 101, 108, 61, 34] @ r @ ?rest)"
    by (simp add: strcasestr_def cs_lits ascii_lower_def)
  have f5: "strstr (r @ ?rest) [34] = Some ?rest"
    using dropWhile_upto [OF assms(4)] by (simp add: strstr_single)
  have "h' = h\<lparr>linkSize := length u, h_linkP := p, relSize := length r, h_relP := q\<rparr> \<and> s' = s2"
    using assms(7) c1 c2 got unfolding writeHeaderCallback_def z updateLinkAndRel_def f1 option.case f2
    by (simp add: f3 [unfolded cs_lits append_Cons append_Nil] f4 [unfolded cs_lits append_Cons append_Nil]
        f5 [unfolded append_Cons append_Nil] cs_lits Let_def)
  then show ?thesis
    using e1 e2 got assms(5,6) extends_cstr [OF e2(1), of p] extends_trans [OF e1(1) e2(1)] by auto
qed

section \<open>Properties and witnesses\<close>

text \<open>A server that answers every request with a link and a body, and a state with one string.\<close>

definition se_world :: rworld where
  "se_world = calm_world\<lparr>rw_perform := (\<lambda>ev.
     ([HeaderLine (cs ''Link: <'' @ [117] @ cs ''>;rel='' @ [34] @ [114] @ [34, 13, 10]) [], BodyChunk [60, 62]], 0))\<rparr>"

definition se_state :: rstate where
  "se_state = rstart\<lparr>r_heap := [(5, [104, 116, 0]), (6, [49, 50, 51, 52, 0])], r_next := 8\<rparr>"

lemma se_state_facts:
  "heap_ok se_state" "blocks se_state = {5, 6}" "is_cstr se_state 5" "is_cstr se_state 6" "r_faults se_state = []"
  "cstring se_state 6 = [49, 50, 51, 52]"
  by (auto simp: se_state_def rstart_def heap_ok_def blocks_def is_cstr_def hblock_def cstring_def)

lemma se_world_orderly: "orderly (\<lambda>r. True) se_world n"
  by (simp add: orderly_def se_world_def orderly_transfer_def text_line_def cs_lits)

lemma se_world_malloc: "rw_malloc se_world ev n \<noteq> None"
  by (simp add: se_world_def calm_world_def)

theorem link_header_parsed_witness:
  "let (h, s) = writeHeaderCallback se_world (cs ''Link: <'' @ [117] @ cs ''>;rel='' @ [34] @ [114] @ [34, 13, 10]) [7]
      \<lparr>h_linkP = 0, linkSize = 0, h_relP = 0, relSize = 0\<rparr> se_state
   in cstring s (h_linkP h) = [117] \<and> cstring s (h_relP h) = [114] \<and> r_faults s = []"
proof -
  obtain h s where w: "writeHeaderCallback se_world (cs ''Link: <'' @ [117] @ cs ''>;rel='' @ [34] @ [114] @ [34, 13, 10]) [7]
      \<lparr>h_linkP = 0, linkSize = 0, h_relP = 0, relSize = 0\<rparr> se_state = (h, s)" by force
  from link_header_parsed [OF se_state_facts(1) se_world_malloc _ _ _ _ w] se_state_facts(5)
  show ?thesis unfolding w by (simp add: extends_def)
qed

theorem put_reads_witness:
  "let (sent, r, s) = read_all (replicate 2 3 @ [3]) \<lparr>rsp_responseP = 6, rsp_size = 4, rsp_offset = 0\<rparr> se_state
   in length sent = 6 \<and> take 4 sent = [49, 50, 51, 52] \<and> r_faults s \<noteq> []"
proof -
  obtain sent r s where e: "read_all (replicate 2 3 @ [3]) \<lparr>rsp_responseP = 6, rsp_size = 4, rsp_offset = 0\<rparr> se_state = (sent, r, s)"
    by (metis prod_cases3)
  have h: "hblock se_state 6 = [49, 50, 51, 52, 0]" by (simp add: se_state_def hblock_def)
  have b: "in_block se_state 6 0 4" "\<not> in_block se_state 6 0 (2 * 3)" "peek se_state 6 0 4 = [49, 50, 51, 52]"
    using h se_state_facts(2) by (simp_all add: in_block_def peek_def byte_at_def upt_rec numeral_eq_Suc)
  from put_reads [of 3 4 se_state 6 2 sent r s] b e se_state_facts(5) show ?thesis by simp
qed



end
