(* ===== verification/AddressLaws.thy ===== *)
theory AddressLaws
  imports ProvisioningEngine SeClientLaws
begin

text \<open>
  The address the provisioning engine builds: when it is right, and for which service providers it
  does not fit the buffer.
\<close>

section \<open>Writing behind a string\<close>

lemma length_uri_bytes: "length (uri_bytes False i bs) = 2 * length bs"
  by (induction bs arbitrary: i) auto

lemma length_uri_uuid: "length bs = 16 \<Longrightarrow> length (uri_bytes True 0 bs) = 36"
  by (auto simp: numeral_eq_Suc length_Suc_conv)

lemma hex_digit_nonzero: "hex_digit (drop_bit 4 b) \<noteq> 0" "hex_digit (b AND 0x0F) \<noteq> 0"
proof -
  have small: "hex_digit n \<noteq> 0" if "n < 16" for n
  proof -
    have "unat n < 16" using that by (simp add: word_less_nat_alt)
    then have "unat (n + 0x30) = unat n + 48" "unat (n + 0x57) = unat n + 87" by (simp_all add: unat_word_ariths)
    then show ?thesis unfolding hex_digit_def by (metis add_is_0 unsigned_0 zero_neq_numeral)
  qed
  have "unat (drop_bit 4 b) = unat b div 16" by (simp add: drop_bit_eq_div unat_div)
  moreover have "unat b < 256" using unsigned_less [of b] by simp
  ultimately have "drop_bit 4 b < 16" by (simp add: word_less_nat_alt div_less_iff_less_mult)
  moreover have "b AND 0x0F < 16"
  proof -
    have "b AND 0x0F = take_bit 4 b" by (simp add: take_bit_eq_mask mask_eq_exp_minus_1)
    then have "unat (b AND 0x0F) = unat b mod 16" by (simp add: take_bit_eq_mod unat_mod)
    then show ?thesis by (simp add: word_less_nat_alt)
  qed
  ultimately show "hex_digit (drop_bit 4 b) \<noteq> 0" "hex_digit (b AND 0x0F) \<noteq> 0" using small by blast+
qed


lemma uri_bytes_nonzero: "0 \<notin> set (uri_bytes u i bs)"
  by (induction u i bs rule: uri_bytes.induct) (auto simp: hex_digit_nonzero hex_digit_nonzero [symmetric] dest: sym)

lemma dec_digits_nonzero: "0 \<notin> set (dec_digits n)"
proof (induction n rule: dec_digits.induct)
  case (1 n)
  have "(of_nat (48 + k) :: u8) \<noteq> 0" if "k < 10" for k
  proof
    assume "(of_nat (48 + k) :: u8) = 0"
    then have "unat (of_nat (48 + k) :: u8) = 0" by simp
    then show False using that by (simp only: unat_of_nat) simp
  qed
  then show ?case using 1 by (subst dec_digits.simps) (auto simp del: of_nat_add dest: sym)
qed

lemma dec_digits_nonempty: "dec_digits n \<noteq> []"
  by (subst dec_digits.simps) simp

lemma dec_int_nonzero: "0 \<notin> set (dec_int w)"
  by (auto simp: dec_int_def dec_digits_nonzero)

text \<open>
  A block that is a string followed by zeros, and what a write behind the string does: it stays
  inside when what is written fits, and lengthens the string.
\<close>

definition padded :: "rstate \<Rightarrow> nat \<Rightarrow> u8 list \<Rightarrow> nat \<Rightarrow> bool" where
  "padded s p str n = (p \<in> blocks s \<and> 0 \<notin> set str \<and> length str \<le> n \<and> hblock s p = str @ replicate (n - length str) 0)"

lemma takeWhile_padded: "0 \<notin> set str \<Longrightarrow> takeWhile (\<lambda>b. b \<noteq> 0) (str @ replicate k (0 :: u8)) = str"
  by (induction str) (cases k, auto)

lemma padded_cstring:
  assumes "padded s p str n"
  shows "cstring s p = str" "is_cstr s p \<longleftrightarrow> length str < n" "length str < n \<Longrightarrow> r_faults (touch_cstring p s) = r_faults s"
proof -
  show c: "cstring s p = str" using assms by (simp add: padded_def cstring_def takeWhile_padded)
  show i: "is_cstr s p \<longleftrightarrow> length str < n" using assms by (auto simp: padded_def is_cstr_def)
  show "length str < n \<Longrightarrow> r_faults (touch_cstring p s) = r_faults s" using touch_is_cstr i by simp
qed

lemma splice_padded:
  assumes "length str + (length v + z) \<le> n"
  shows "splice_at (length str) (v @ replicate z 0) (str @ replicate (n - length str) 0)
      = str @ v @ replicate (n - (length str + length v)) (0 :: u8)"
proof -
  obtain k where n: "n = length str + (length v + z) + k" using assms le_Suc_ex by blast
  show ?thesis by (simp add: splice_at_def n replicate_add)
qed

lemma poke_padded:
  assumes "padded s p str n" "length str + (length v + z) \<le> n" "length str < n" "0 \<notin> set v"
  shows "padded (poke p (length (cstring s p)) (v @ replicate z 0) (touch_cstring p s)) p (str @ v) n"
    "r_faults (poke p (length (cstring s p)) (v @ replicate z 0) (touch_cstring p s)) = r_faults s"
proof -
  note c = padded_cstring [OF assms(1)]
  have b: "p \<in> blocks s" "hblock s p = str @ replicate (n - length str) 0" "0 \<notin> set str"
    using assms(1) by (auto simp: padded_def)
  show "padded (poke p (length (cstring s p)) (v @ replicate z 0) (touch_cstring p s)) p (str @ v) n"
    using b c(1) assms(2-4) splice_padded [OF assms(2)] by (simp add: padded_def hblock_poke)
  have "in_block (touch_cstring p s) p (length str) (length (v @ replicate z 0))"
    using b assms(2) by (simp add: in_block_def)
  from in_block_poke [OF this] show
    "r_faults (poke p (length (cstring s p)) (v @ replicate z 0) (touch_cstring p s)) = r_faults s"
    using c(1) c(3) assms(3) by simp
qed


lemma poke_overflow:
  assumes "padded s p str n" "length str < n" "n < length str + length v"
  shows "r_faults (poke p (length (cstring s p)) v (touch_cstring p s)) \<noteq> r_faults s"
proof -
  note c = padded_cstring [OF assms(1)]
  have "\<not> in_block s p (length str) (length v)"
    using assms by (auto simp: in_block_def padded_def)
  moreover have "touch_cstring p s = s" using c(2) assms(2) by (simp add: touch_is_cstr)
  ultimately show ?thesis using c(1) by (simp add: poke_def touch_def)
qed

section \<open>The address of a trusted application\<close>

text \<open>
  The link for installing a trusted application, as \<open>prov_start\<close> builds it for a service provider:
  the device, the provider in decimal, the identifier of the application.
\<close>

definition installation_link :: "rworld \<Rightarrow> u8 list \<Rightarrow> u32 \<Rightarrow> u8 list \<Rightarrow> rstate \<Rightarrow> nat \<times> rstate" where
  "installation_link W suid spid uuid s =
     (let (p, s) = createBasicLink W suid s in (p, addBytesToUri p uuid True (addSlashToUri p (addIntToUri p spid s))))"

lemma length_dec_digits: "0 < k \<Longrightarrow> length (dec_digits n) \<le> k \<longleftrightarrow> n < 10 ^ k"
proof (induction n arbitrary: k rule: dec_digits.induct)
  case (1 n)
  show ?case
  proof (cases "n < 10")
    case True
    then have "n < 10 ^ k" using "1.prems" power_increasing [of 1 k "10 :: nat"] by simp
    then show ?thesis using True "1.prems" by (subst dec_digits.simps) simp
  next
    case False
    obtain j where j: "k = Suc j" using "1.prems" by (cases k) auto
    show ?thesis
    proof (cases "j = 0")
      case True
      then show ?thesis using False j dec_digits_nonempty [of "n div 10"] by (subst dec_digits.simps) simp
    next
      case pos: False
      have "length (dec_digits (n div 10)) \<le> j \<longleftrightarrow> n div 10 < 10 ^ j" using "1.IH" [OF False] pos by simp
      also have "\<dots> \<longleftrightarrow> n < 10 ^ k" using j by (simp add: div_less_iff_less_mult mult.commute)
      finally show ?thesis using False j by (subst dec_digits.simps) simp
    qed
  qed
qed

lemma sint_small:
  assumes "unat (w :: u32) < 2 ^ 31"
  shows "sint w = int (unat w)"
proof -
  have "uint w < 2 ^ 31" using assms by (simp only: unat_eq_nat_uint nat_less_iff [OF uint_ge_0]) simp
  then have "signed_take_bit 31 (uint w) = uint w"
    by (rule signed_take_bit_int_eq_self [rotated]) (rule order_trans [OF _ uint_ge_0], simp)
  then show ?thesis by (simp only: sint_uint) simp
qed

lemma createBasicLink_padded:
  assumes "createBasicLink W suid s = (p, t)" "heap_ok s" "\<And>ev n. rw_malloc W ev n \<noteq> None"
    and "0 \<notin> set (g_initialUrl s)" "length suid = 16"
  shows "padded t p (g_initialUrl s @ uri_bytes False 0 suid) (length (g_initialUrl s) + 78)"
    "r_faults t = r_faults s" "p \<notin> blocks s" "extends s t"
proof -
  let ?url = "g_initialUrl s" and ?n = "length (g_initialUrl s) + 78"
  obtain q s1 where m: "malloc W ?n s = (q, s1)" by force
  have q: "q \<noteq> 0" using m assms(3) [of "r_ev s" ?n] heap_ok_fresh(3) [OF assms(2)]
    by (auto simp: malloc_def split: option.splits)
  note e = malloc_extends [OF m assms(2)]
  have g: "g_initialUrl s1 = ?url" using m by (auto simp: malloc_def new_block_def split: option.splits)
  define s2 where "s2 = poke q 0 (replicate ?n 0) s1"
  have g2: "g_initialUrl s2 = ?url" using g by (simp add: s2_def poke_def set_block_def touch_def)
  define s3 where "s3 = poke q 0 (fit ?n ?url) s2"
  have l: "q \<in> blocks s1" "length (hblock s1 q) = ?n" "q \<notin> blocks s" using e(2) q by auto
  have e2: "extends s s2" using poke_extends [OF e(1) l(1,3), of 0 "replicate ?n 0"] l(2) by (simp add: s2_def)
  have l2: "q \<in> blocks s2" "length (hblock s2 q) = ?n" using l by (simp_all add: s2_def)
  have e3: "extends s s3" using poke_extends [OF e2 l2(1) l(3), of 0 "fit ?n ?url"] l2(2) by (simp add: s3_def)
  have "hblock s3 q = fit ?n ?url" using l2 by (simp add: s3_def hblock_poke splice_at_def)
  then have pd: "padded s3 q ?url ?n" using l assms(4) by (simp add: padded_def fit_def s3_def s2_def)
  have sz: "csize mcSuid_t * 2 + 4 * 2 + csize mcUuid_t * 2 + 6 = 78" by code_simp
  have t: "(p, t) = (q, addBytesToUri q suid False s3)"
    using assms(1) m g2 sz unfolding createBasicLink_def by (auto simp: Let_def s2_def s3_def add.assoc)
  have fitl: "length ?url + (length (uri_bytes False 0 suid) + 0) \<le> ?n" "length ?url < ?n"
    using assms(5) by (simp_all add: length_uri_bytes)
  note pk = poke_padded [OF pd fitl uri_bytes_nonzero]
  show "padded t p (?url @ uri_bytes False 0 suid) ?n" using pk(1) t by (simp add: addBytesToUri_def)
  show "r_faults t = r_faults s" using pk(2) t e3 by (simp add: addBytesToUri_def extends_def)
  show "p \<notin> blocks s" using l t by simp
  have c: "touch_cstring q s3 = s3" using padded_cstring(2) [OF pd] fitl(2) by (simp add: touch_is_cstr)
  show "extends s t"
    using t poke_extends [OF e3, of q "length ?url" "uri_bytes False 0 suid"] l l2 assms(5) padded_cstring(1) [OF pd] c
    by (simp add: addBytesToUri_def s3_def length_uri_bytes)
qed




end
