(* ===== verification/DialogueLaws.thy ===== *)
theory DialogueLaws
  imports AddressLaws "HOL-Library.Multiset"
begin

text \<open>
  The memory of the dialogue with the service enabler. The engine owns at most eight strings at a
  time: the link, the relation and the command it follows, the three it followed the round before,
  the response it is about to send, and the link put aside while the device is wiped. As long as the
  server does not ask to repeat a step, no round misuses any of them, and the dialogue frees each
  once. A server that asks to repeat a step makes the engine use strings it has freed.
\<close>

section \<open>Owning strings\<close>

text \<open>The pointers of \<open>ps\<close> are NULL or different live strings.\<close>

definition holds :: "rstate \<Rightarrow> nat list \<Rightarrow> bool" where
  "holds s ps = (heap_ok s \<and> apart ps \<and> (\<forall>p\<in>set ps. p = 0 \<or> is_cstr s p))"

lemma holds_member: "holds s ps \<Longrightarrow> p \<in> set ps \<Longrightarrow> p = 0 \<or> is_cstr s p"
  by (auto simp: holds_def)

lemma distinct_submset:
  assumes "mset xs \<subseteq># mset ys" "distinct ys"
  shows "distinct xs"
proof -
  have "count (mset xs) a = (if a \<in> set xs then 1 else 0)" for a
  proof (cases "a \<in> set xs")
    case True
    have "count (mset xs) a \<le> count (mset ys) a" using assms(1) by (rule mset_subset_eq_count)
    also have "\<dots> \<le> 1" using assms(2) by (simp add: distinct_count_atmost_1)
    finally have "count (mset xs) a \<le> 1" .
    moreover have "0 < count (mset xs) a" using True by simp
    ultimately have "count (mset xs) a = 1" by linarith
    then show ?thesis using True by simp
  qed (simp add: count_list_0_iff)
  then show ?thesis by (simp add: distinct_count_atmost_1)
qed

lemma holds_sub:
  assumes "holds s ps" "filter_mset (\<lambda>p. p \<noteq> 0) (mset qs) \<subseteq># filter_mset (\<lambda>p. p \<noteq> 0) (mset ps)"
  shows "holds s qs"
proof -
  have sub: "mset (filter (\<lambda>p. p \<noteq> 0) qs) \<subseteq># mset (filter (\<lambda>p. p \<noteq> 0) ps)" using assms(2) by simp
  then have "set (filter (\<lambda>p. p \<noteq> 0) qs) \<subseteq> set (filter (\<lambda>p. p \<noteq> 0) ps)" by (metis set_mset_mono set_mset_mset)
  moreover have "distinct (filter (\<lambda>p. p \<noteq> 0) qs)" if "distinct (filter (\<lambda>p. p \<noteq> 0) ps)"
    by (rule distinct_submset [OF sub that])
  ultimately show ?thesis using assms(1) by (auto simp: holds_def apart_def)
qed

lemma holds_cong_state:
  assumes "holds s ps" "heap_ok t" "\<And>p. p \<in> set ps \<Longrightarrow> p \<noteq> 0 \<Longrightarrow> p \<in> blocks t \<and> hblock t p = hblock s p"
  shows "holds t ps"
  using assms by (auto simp: holds_def is_cstr_def)

lemma holds_update [simp]:
  "holds (s\<lparr>r_ev := e\<rparr>) ps = holds s ps" "holds (s\<lparr>g_callbackP := b\<rparr>) ps = holds s ps"
  "holds (s\<lparr>g_engineCallbackP := b\<rparr>) ps = holds s ps" "holds (s\<lparr>g_curl_handle := b\<rparr>) ps = holds s ps"
  by (simp_all add: holds_def is_cstr_def heap_ok_def blocks_def hblock_def)

text \<open>Fresh strings join what is held.\<close>

lemma holds_fresh:
  assumes "holds s ps" "extends s t" "\<And>q. q \<in> set qs \<Longrightarrow> fresh_str s t q" "apart qs"
  shows "holds t (qs @ ps)"
proof -
  have "q \<noteq> p" if "q \<in> set qs" "p \<in> set ps" "q \<noteq> 0" "p \<noteq> 0" for p q
    using holds_member [OF assms(1) that(2)] assms(3) [OF that(1)] that(3,4) by (auto simp: fresh_str_def is_cstr_def)
  then have "apart (qs @ ps)" using assms(1,4) by (auto simp: apart_def holds_def)
  moreover have "\<forall>p\<in>set (qs @ ps). p = 0 \<or> is_cstr t p"
    using assms extends_cstr [OF assms(2)] by (auto simp: fresh_str_def holds_def)
  ultimately show ?thesis using assms(2) by (simp add: holds_def extends_def)
qed

lemma holds_extends: "holds s ps \<Longrightarrow> extends s t \<Longrightarrow> holds t ps"
  using holds_fresh [of s ps t "[]"] by (simp add: apart_def)

text \<open>Freeing some of what is held leaves the rest as it was.\<close>

definition free_all :: "nat list \<Rightarrow> rstate \<Rightarrow> rstate" where
  "free_all ps s = foldl (\<lambda>s p. free_ptr p s) s ps"

lemma free_all_simps [simp]:
  "free_all [] s = s" "free_all (p # ps) s = free_all ps (free_ptr p s)"
  by (simp_all add: free_all_def)

lemma free_one:
  assumes "holds s (p # ps)"
  shows "holds (free_ptr p s) ps" "r_faults (free_ptr p s) = r_faults s"
    "q \<in> set ps \<Longrightarrow> q \<noteq> 0 \<Longrightarrow> hblock (free_ptr p s) q = hblock s q"
proof -
  have h: "heap_ok s" "p = 0 \<or> p \<in> blocks s" "p = 0 \<or> p \<notin> set ps" "apart ps" "\<forall>p\<in>set ps. p = 0 \<or> is_cstr s p"
    using assms by (auto simp: holds_def apart_def is_cstr_def split: if_splits)
  show "r_faults (free_ptr p s) = r_faults s" using h by simp
  show "q \<in> set ps \<Longrightarrow> q \<noteq> 0 \<Longrightarrow> hblock (free_ptr p s) q = hblock s q" using h by auto
  have "p = 0 \<Longrightarrow> free_ptr p s = s" by (simp add: free_ptr_def)
  then show "holds (free_ptr p s) ps" using h by (cases "p = 0") (auto simp: holds_def is_cstr_def)
qed

lemma free_several:
  assumes "holds s (ps @ qs)"
  shows "holds (free_all ps s) qs \<and> r_faults (free_all ps s) = r_faults s
    \<and> (\<forall>q\<in>set qs. q \<noteq> 0 \<longrightarrow> hblock (free_all ps s) q = hblock s q)"
  using assms
proof (induction ps arbitrary: s)
  case (Cons p ps)
  note one = free_one [OF Cons.prems [unfolded append_Cons]]
  show ?case using Cons.IH [OF one(1)] one(2,3) by simp
qed simp

lemma holds_filter:
  "filter (\<lambda>p. p \<noteq> 0) qs = filter (\<lambda>p. p \<noteq> 0) ps \<Longrightarrow> holds s ps \<Longrightarrow> holds s qs"
  by (erule holds_sub) (simp add: mset_filter [symmetric] subseteq_mset_def del: mset_filter)

section \<open>Relations and the environment of the engine\<close>

definition relptr :: "relref \<Rightarrow> nat" where
  "relptr r = (case r of RelPtr p \<Rightarrow> p | _ \<Rightarrow> 0)"

lemma relptr_simps [simp]: "relptr (RelPtr p) = p" "relptr RelInitialPost = 0" "relptr RelInitialDelete = 0"
  by (simp_all add: relptr_def)

lemma free_rel_eq: "free_rel r s = free_ptr (relptr r) s"
  by (cases r) (simp_all add: free_rel_def free_ptr_def)

lemma cleanup_eq: "cleanup l r c s = free_all [c, relptr r, l] s"
  by (simp add: cleanup_def free_rel_eq)

definition no_self :: "u8 list \<Rightarrow> bool" where
  "no_self z = (strstr z RELATION_SELF = None)"

text \<open>A relation that is not the request to repeat the step.\<close>

definition quiet :: "rstate \<Rightarrow> relref \<Rightarrow> bool" where
  "quiet s r = (r = NoRel \<or> no_self (rel_text s r))"

lemma quiet_initial: "quiet s RelInitialPost" "quiet s RelInitialDelete" "quiet s NoRel"
proof -
  have "no_self RELATION_INITIAL_POST" "no_self RELATION_INITIAL_DELETE" by code_simp+
  then show "quiet s RelInitialPost" "quiet s RelInitialDelete" "quiet s NoRel" by (simp_all add: quiet_def rel_text_def)
qed

lemma quiet_cong: "relptr r \<noteq> 0 \<Longrightarrow> hblock t (relptr r) = hblock s (relptr r) \<Longrightarrow> quiet t r = quiet s r"
  by (cases r) (simp_all add: quiet_def rel_text_def cstring_def)

lemma quiet_keep: "quiet s r \<Longrightarrow> (relptr r \<noteq> 0 \<Longrightarrow> hblock t (relptr r) = hblock s (relptr r)) \<Longrightarrow> quiet t r"
  using quiet_cong [of r t s] by (cases "relptr r = 0"; cases r) (simp_all add: quiet_initial)

lemma quiet_update [simp]: "quiet (s\<lparr>r_ev := e\<rparr>) r = quiet s r"
  by (cases r) (simp_all add: quiet_def rel_text_def cstring_def hblock_def)

text \<open>
  What the engine needs of the code around it: the server never asks to repeat a step, the callbacks
  and the XML layer leave the engine's strings alone and hand out fresh ones, and no response is
  longer than \<open>N\<close>, which \<^verbatim>\<open>libcurl\<close> takes at once.
\<close>

definition answers :: "nat \<Rightarrow> rstate \<Rightarrow> u32 \<times> nat \<times> rstate \<Rightarrow> bool" where
  "answers N s a = (case a of (_, p, t) \<Rightarrow> extends s t \<and> fresh_str s t p \<and> length (cstring t p) \<le> N \<and> g_initialUrl t = g_initialUrl s)"

definition engine_contract :: "pworld \<Rightarrow> nat \<Rightarrow> bool" where
  "engine_contract P N =
     (orderly no_self (pw_world P) N \<and> N < 2 ^ 32
      \<and> (\<forall>s. heap_ok s \<longrightarrow>
           (case pw_sysInfo P s of (_, os, t) \<Rightarrow> extends s t \<and> apart os \<and> (\<forall>q\<in>set os. fresh_str s t q))
         \<and> (case pw_getVersion P s of (_, _, _, t) \<Rightarrow> extends s t)
         \<and> (\<forall>tag v os. answers N s (pw_buildSystemInfo P tag v os s))
         \<and> (\<forall>c. answers N s (pw_handleXml P c s))
         \<and> (\<forall>tlt. answers N s (pw_buildTltRequest P tlt s))))"

lemma contract_net: "engine_contract P N \<Longrightarrow> orderly no_self (pw_world P) N" "engine_contract P N \<Longrightarrow> N < 2 ^ 32"
  by (simp_all add: engine_contract_def)

section \<open>One exchange\<close>

text \<open>The code for a container that is not available comes from the XML layer only, never from an exchange.\<close>

lemma http_result_codes: "http_result code \<noteq> ROOTPA_ERROR_REGISTRY_OBJECT_NOT_AVAILABLE"
  by (simp add: http_result_def)

lemma httpCommunicate_codes:
  "httpCommunicate W inp old m s = (ret, new, t) \<Longrightarrow> ret \<noteq> ROOTPA_ERROR_REGISTRY_OBJECT_NOT_AVAILABLE"
  using http_result_codes
  by (auto simp: httpCommunicate_def Let_def split: prod.splits if_splits)

lemma exchange:
  assumes "httpCommunicate W inp (l, r, c) m s = (ret, (l', r', c'), t)" "orderly no_self W N" "N < 2 ^ 32"
    and "holds s ([l, relptr r, c] @ rest)" "inp = 0 \<or> inp \<in> set rest" "length (cstring s inp) \<le> N" "m = MethodPUT \<longrightarrow> inp \<noteq> 0"
  shows "r_faults t = r_faults s"
    "ret \<noteq> ROOTPA_OK \<and> l' = l \<and> (r' = r \<and> c' = c \<or> r' = NoRel \<and> c' = 0) \<and> holds t ([l, relptr r, c] @ rest)
     \<or> quiet t r' \<and> holds t ([l', relptr r', c'] @ [l, relptr r, c] @ rest)"
proof -
  have o: "orderly no_self W (if m = MethodPUT then length (cstring s inp) else 0)"
    using assms(2,6) unfolding orderly_def
    by (fastforce elim!: list.pred_mono_strong simp: orderly_transfer_def split: transfer.splits)
  have h: "heap_ok s" "l = 0 \<or> is_cstr s l" "inp = 0 \<or> is_cstr s inp"
    using assms(4,5) by (auto simp: holds_def)
  have len: "length (cstring s inp) < 2 ^ 32" using assms(3,6) by linarith
  note f = httpCommunicate_frame [OF assms(1) h assms(7) o len]
  then show "r_faults t = r_faults s" by (simp add: extends_def)
  from f have e: "extends s t" by simp
  have keep: "holds t ([l, relptr r, c] @ rest)" using holds_extends [OF assms(4) e] .
  from f consider "ret \<noteq> ROOTPA_OK" "l' = l" "r' = r \<and> c' = c \<or> r' = NoRel \<and> c' = 0"
    | p where "r' = RelPtr p" "\<forall>x\<in>set [l', p, c']. fresh_str s t x" "apart [l', p, c']" "p = 0 \<or> no_self (cstring t p)"
    by auto
  then show "ret \<noteq> ROOTPA_OK \<and> l' = l \<and> (r' = r \<and> c' = c \<or> r' = NoRel \<and> c' = 0) \<and> holds t ([l, relptr r, c] @ rest)
     \<or> quiet t r' \<and> holds t ([l', relptr r', c'] @ [l, relptr r, c] @ rest)"
  proof cases
    case 1
    then show ?thesis using keep by blast
  next
    case 2
    have "holds t ([l', p, c'] @ [l, relptr r, c] @ rest)"
      by (rule holds_fresh [OF assms(4) e]) (use 2 in auto)
    then show ?thesis using 2 by (auto simp: quiet_def rel_text_def)
  qed
qed

section \<open>One round\<close>

text \<open>
  \<open>ready\<close>: the state at the head of the loop. \<open>tidy\<close>: the state before the end of a round, when the
  engine also owns the strings of the round before, as far as they are not still the current ones.
\<close>

definition ready :: "nat \<Rightarrow> prov \<Rightarrow> bool" where
  "ready N p =
     (holds (p_s p) [linkP p, relptr (relP p), commandP p, responseP p, pendingLinkP p]
      \<and> quiet (p_s p) (relP p) \<and> length (cstring (p_s p) (responseP p)) \<le> N \<and> relptr (pendingRelP p) = 0
      \<and> usedLinkP p = 0 \<and> usedRelP p = NoRel \<and> usedCommandP p = 0)"

definition spent :: "prov \<Rightarrow> nat list" where
  "spent p = (if workToDo p then [usedLinkP p, relptr (usedRelP p), usedCommandP p]
     else [if linkP p = usedLinkP p then 0 else usedLinkP p, if relP p = usedRelP p then 0 else relptr (usedRelP p),
           if commandP p = usedCommandP p then 0 else usedCommandP p])"

definition tidy :: "prov \<Rightarrow> bool" where
  "tidy p =
     (holds (p_s p) ([linkP p, relptr (relP p), commandP p] @ spent p @ [responseP p, pendingLinkP p])
      \<and> (workToDo p \<longrightarrow> quiet (p_s p) (relP p)) \<and> relptr (pendingRelP p) = 0)"

lemma cstring_null: "heap_ok s \<Longrightarrow> cstring s 0 = []"
  using heap_ok_fresh(2) [of s] by (simp add: cstring_def hblock_def blocks_def map_of_eq_None_iff [symmetric])

lemma read_rel_held: "relptr r = 0 \<or> is_cstr s (relptr r) \<Longrightarrow> r \<noteq> NoRel \<Longrightarrow> read_rel r s = s"
  by (cases r) (auto simp: read_rel_def touch_is_cstr)

lemma no_self_end: "(r = NoRel \<or> \<not> has_rel s r RELATION_SELF) = quiet s r"
  by (simp add: quiet_def has_rel_def no_self_def)

lemma round_end_ready:
  assumes "tidy p"
  shows "ready N (round_end p)" "r_faults (p_s (round_end p)) = r_faults (p_s p)"
    "workToDo (round_end p) = workToDo p" "\<not> workToDo p \<Longrightarrow> linkP (round_end p) = 0 \<and> relP (round_end p) = NoRel"
proof -
  let ?s = "p_s p"
  let ?u = "[usedCommandP p, relptr (usedRelP p), usedLinkP p, responseP p]"
  let ?cur = "[linkP p, relptr (relP p), commandP p]"
  have pend: "relptr (pendingRelP p) = 0" using assms by (simp add: tidy_def)
  have "ready N (round_end p) \<and> r_faults (p_s (round_end p)) = r_faults (p_s p) \<and> workToDo (round_end p) = workToDo p
      \<and> (\<not> workToDo p \<longrightarrow> linkP (round_end p) = 0 \<and> relP (round_end p) = NoRel)"
  proof (cases "workToDo p")
    case True
    have h: "holds ?s (?u @ ?cur @ [pendingLinkP p])"
      using assms True by (auto simp: tidy_def spent_def elim!: holds_sub)
    note f = free_several [OF h]
    define t where "t = free_all ?u ?s"
    have q: "quiet ?s (relP p)" using assms True by (simp add: tidy_def)
    have ht: "holds t (?cur @ [pendingLinkP p])" using f by (simp add: t_def)
    have "read_rel (relP p) ?s = ?s" if "relP p \<noteq> NoRel"
      using holds_member [OF h, of "relptr (relP p)"] by (intro read_rel_held that) auto
    then have e: "round_end p = p\<lparr>p_s := t, usedLinkP := 0, usedRelP := NoRel, usedCommandP := 0, responseP := 0\<rparr>"
      using q True no_self_end [of "relP p" ?s]
      by (cases "relP p = NoRel") (auto simp: round_end_def Let_def cleanup_eq t_def)
    have "quiet t (relP p)" using f q by (auto simp: t_def elim!: quiet_keep)
    moreover have "holds t [linkP p, relptr (relP p), commandP p, 0, pendingLinkP p]"
      by (rule holds_filter [OF _ ht]) simp
    moreover have "cstring t 0 = []" using ht by (simp add: cstring_null holds_def)
    ultimately show ?thesis using f pend True by (simp add: e ready_def t_def)
  next
    case False
    obtain ul ur uc where sp: "spent p = [ul, relptr ur, uc]"
      "ul = (if linkP p = usedLinkP p then 0 else usedLinkP p)" "ur = (if relP p = usedRelP p then NoRel else usedRelP p)"
      "uc = (if commandP p = usedCommandP p then 0 else usedCommandP p)"
      using False by (simp add: spent_def)
    let ?all = "[commandP p, relptr (relP p), linkP p, uc, relptr ur, ul, responseP p]"
    have h: "holds ?s (?all @ [pendingLinkP p])"
      using assms by (auto simp: tidy_def sp(1) elim!: holds_sub)
    note f = free_several [OF h]
    define t where "t = free_all ?all ?s"
    have e: "round_end p = p\<lparr>p_s := t, linkP := 0, relP := NoRel, commandP := 0,
        usedLinkP := 0, usedRelP := NoRel, usedCommandP := 0, responseP := 0\<rparr>"
      using False by (simp add: round_end_def Let_def cleanup_eq t_def sp(2-4))
    have ht: "holds t [pendingLinkP p]" using f by (simp add: t_def)
    have "holds t [0, 0, 0, 0, pendingLinkP p]" by (rule holds_filter [OF _ ht]) simp
    moreover have "cstring t 0 = []" using ht by (simp add: cstring_null holds_def)
    ultimately show ?thesis using f pend False by (simp add: e ready_def t_def quiet_initial)
  qed
  then show "ready N (round_end p)" "r_faults (p_s (round_end p)) = r_faults (p_s p)"
    "workToDo (round_end p) = workToDo p" "\<not> workToDo p \<Longrightarrow> linkP (round_end p) = 0 \<and> relP (round_end p) = NoRel" by auto
qed

text \<open>What an exchange may answer, and what the round makes of it.\<close>

definition good_answer :: "rstate \<Rightarrow> nat \<times> relref \<times> nat \<Rightarrow> nat list \<Rightarrow> u32 \<times> (nat \<times> relref \<times> nat) \<times> rstate \<Rightarrow> bool" where
  "good_answer s old rest a =
     (let (l, r, c) = old; (ret, (l', r', c'), t) = a
      in r_faults t = r_faults s \<and> ret \<noteq> ROOTPA_ERROR_REGISTRY_OBJECT_NOT_AVAILABLE \<and>
        (ret \<noteq> ROOTPA_OK \<and> l' = l \<and> (r' = r \<and> c' = c \<or> r' = NoRel \<and> c' = 0) \<and> holds t ([l, relptr r, c] @ rest)
         \<or> quiet t r' \<and> holds t ([l', relptr r', c'] @ [l, relptr r, c] @ rest)))"

lemma good_answers:
  assumes "orderly no_self W N" "N < 2 ^ 32" "holds s ([l, relptr r, c] @ rest)" "length (cstring s inp) \<le> N" "inp = 0 \<or> inp \<in> set rest"
  shows "good_answer s (l, r, c) rest (httpPutAndReceiveCommand W inp (l, r, c) s)"
    "good_answer s (l, r, c) rest (httpPostAndReceiveCommand W inp (l, r, c) s)"
    "good_answer s (l, r, c) rest (httpGetAndReceiveCommand W (l, r, c) s)"
    "good_answer s (l, r, c) rest (httpDeleteAndReceiveCommand W (l, r, c) s)"
proof -
  have null: "length (cstring s 0) \<le> N" using assms(3) by (simp add: cstring_null holds_def)
  have all: "good_answer s (l, r, c) rest (httpCommunicate W i (l, r, c) m s)"
    if "i = 0 \<or> i \<in> set rest" "length (cstring s i) \<le> N" "m = MethodPUT \<longrightarrow> i \<noteq> 0" for i m
  proof -
    obtain ret l' r' c' t where a: "httpCommunicate W i (l, r, c) m s = (ret, (l', r', c'), t)" by (metis prod.collapse)
    from exchange [OF a assms(1-3) that] httpCommunicate_codes [OF a] show ?thesis by (simp add: good_answer_def a)
  qed
  show "good_answer s (l, r, c) rest (httpPutAndReceiveCommand W inp (l, r, c) s)"
    using all [OF assms(5,4)] assms(3) by (cases "inp = 0") (auto simp: httpPutAndReceiveCommand_def good_answer_def)
  show "good_answer s (l, r, c) rest (httpPostAndReceiveCommand W inp (l, r, c) s)"
    "good_answer s (l, r, c) rest (httpGetAndReceiveCommand W (l, r, c) s)"
    "good_answer s (l, r, c) rest (httpDeleteAndReceiveCommand W (l, r, c) s)"
    using all [OF assms(5,4)] all [of 0] null
    by (simp_all add: httpPostAndReceiveCommand_def httpGetAndReceiveCommand_def httpDeleteAndReceiveCommand_def)
qed

lemma answered:
  assumes "good_answer s (l0, r0, c0) [responseP q, pendingLinkP q] (ret, (l, r, c), t)"
    and "linkP q = l" "relP q = r" "commandP q = c" "usedLinkP q = l0" "usedRelP q = r0" "usedCommandP q = c0"
    and "\<exists>e. p_s q = t\<lparr>r_ev := e\<rparr>" "workToDo q \<longrightarrow> ret = ROOTPA_OK" "relptr (pendingRelP q) = 0"
  shows "tidy q" "r_faults (p_s q) = r_faults s"
proof -
  obtain e where e: "p_s q = t\<lparr>r_ev := e\<rparr>" using assms(8) by blast
  show "r_faults (p_s q) = r_faults s" using assms(1) e by (simp add: good_answer_def)
  from assms(1) consider
    "ret \<noteq> ROOTPA_OK" "l = l0" "r = r0 \<and> c = c0 \<or> r = NoRel \<and> c = 0"
      "holds t ([l0, relptr r0, c0] @ [responseP q, pendingLinkP q])"
  | "quiet t r" "holds t ([l, relptr r, c] @ [l0, relptr r0, c0] @ [responseP q, pendingLinkP q])"
    by (auto simp: good_answer_def)
  then show "tidy q"
  proof cases
    case 1
    have "holds t ([l, relptr r, c] @ spent q @ [responseP q, pendingLinkP q])"
      by (rule holds_filter [OF _ 1(4)]) (use 1 assms(2-7,9) in \<open>auto simp: spent_def\<close>)
    then show ?thesis using 1 assms(2-4,9,10) e by (simp add: tidy_def)
  next
    case 2
    have "holds t ([l, relptr r, c] @ spent q @ [responseP q, pendingLinkP q])"
      by (rule holds_sub [OF 2(2)]) (simp add: spent_def assms(2-7))
    then show ?thesis using 2 assms(2-4,10) e by (simp add: tidy_def)
  qed
qed

lemma own_ev: "\<exists>e. (t :: rstate) = t\<lparr>r_ev := e\<rparr>"
  by (rule exI [of _ "r_ev t"]) simp

abbreviation same_refs :: "prov \<Rightarrow> bool" where
  "same_refs p \<equiv> usedLinkP p = linkP p \<and> usedRelP p = relP p \<and> usedCommandP p = commandP p"

lemma round_http_tidy:
  assumes "good_answer (p_s p) (linkP p, relP p, commandP p) [responseP p, pendingLinkP p] a" "same_refs p" "relptr (pendingRelP p) = 0"
  shows "tidy (round_http a p)" "r_faults (p_s (round_http a p)) = r_faults (p_s p)"
proof -
  obtain ret l r c t where a: "a = (ret, (l, r, c), t)" by (metis prod.collapse)
  define q where "q = round_http a p"
  have q: "linkP q = l" "relP q = r" "commandP q = c" "usedLinkP q = linkP p" "usedRelP q = relP p" "usedCommandP q = commandP p"
    "responseP q = responseP p" "pendingLinkP q = pendingLinkP p" "pendingRelP q = pendingRelP p" "workToDo q \<longrightarrow> ret = ROOTPA_OK"
    "p_s q = (if ret \<noteq> ROOTPA_OK then t\<lparr>r_ev := Callback ERROR ret # r_ev t\<rparr> else t)"
    using assms(2) by (simp_all add: q_def a round_http_def take_answer_def fail_def callbackE_def Let_def)
  have "\<exists>e. p_s q = t\<lparr>r_ev := e\<rparr>" using own_ev [of t] by (auto simp: q(11))
  from answered [OF _ q(1-6) this q(10)] assms(1,3) have "tidy q" "r_faults (p_s q) = r_faults (p_s p)"
    by (simp_all add: a q(7-9))
  then show "tidy (round_http a p)" "r_faults (p_s (round_http a p)) = r_faults (p_s p)" by (simp_all add: q_def)
qed

lemma extends_flags [simp]:
  "extends s (t\<lparr>g_callbackP := b\<rparr>) = extends s t" "extends (s\<lparr>g_callbackP := b\<rparr>) t = extends s t"
  "fresh_str s (t\<lparr>g_callbackP := b\<rparr>) p = fresh_str s t p" "fresh_str (s\<lparr>g_callbackP := b\<rparr>) t p = fresh_str s t p"
  "cstring (t\<lparr>g_callbackP := b\<rparr>) p = cstring t p"
  by (simp_all add: extends_def heap_ok_def blocks_def hblock_def fresh_str_def is_cstr_def cstring_def)

lemma round_result_tidy:
  assumes "engine_contract P N" "holds (p_s p) [linkP p, relptr (relP p), commandP p, responseP p, pendingLinkP p]"
    and "same_refs p" "relptr (pendingRelP p) = 0"
  shows "tidy (round_result P p)" "r_faults (p_s (round_result P p)) = r_faults (p_s p)"
proof -
  let ?s = "setCallbackP True (p_s p)"
  obtain ret resp t where x: "pw_handleXml P (commandP p) ?s = (ret, resp, t)" by (metis prod_cases3)
  define u where "u = setCallbackP False t"
  have "heap_ok ?s" using assms(2) by (simp add: holds_def setCallbackP_def heap_ok_def blocks_def)
  then have "answers N ?s (pw_handleXml P (commandP p) ?s)" using assms(1) by (simp add: engine_contract_def)
  then have e: "extends (p_s p) u" "fresh_str (p_s p) u resp" "length (cstring u resp) \<le> N"
    unfolding answers_def x prod.case by (simp_all add: u_def setCallbackP_def)
  have h: "holds u ([resp] @ [linkP p, relptr (relP p), commandP p, responseP p, pendingLinkP p])"
    by (rule holds_fresh [OF assms(2) e(1)]) (use e(2) in \<open>auto simp: apart_def\<close>)
  have h1: "holds u ([linkP p, relptr (relP p), commandP p] @ [resp, pendingLinkP p])" by (rule holds_sub [OF h]) simp
  have "tidy (round_result P p) \<and> r_faults (p_s (round_result P p)) = r_faults (p_s p)"
  proof (cases "resp = 0")
    case True
    define q where "q = round_result P p"
    have q: "linkP q = 0" "relP q = NoRel" "commandP q = 0" "responseP q = 0" "usedLinkP q = linkP p" "usedRelP q = relP p"
      "usedCommandP q = commandP p" "pendingLinkP q = pendingLinkP p" "pendingRelP q = pendingRelP p"
      "p_s q = u \<or> p_s q = u\<lparr>r_ev := r_ev (p_s q)\<rparr>"
      using x assms(3) True
      by (simp_all add: q_def round_result_def u_def [symmetric] fail_def callbackE_def Let_def)
    have "holds u ([0, 0, 0] @ spent q @ [0, pendingLinkP p])"
      by (rule holds_sub [OF h1]) (simp add: spent_def q)
    moreover obtain e where "p_s q = u\<lparr>r_ev := e\<rparr>" using own_ev [of u] q(10) by metis
    ultimately have "tidy q" "r_faults (p_s q) = r_faults u" using q(1-9) assms(4) by (simp_all add: tidy_def quiet_initial)
    moreover have "r_faults u = r_faults (p_s p)" using e(1) by (simp add: extends_def)
    ultimately show ?thesis by (simp add: q_def)
  next
    case False
    obtain ret2 l r c v where a: "httpPostAndReceiveCommand (pw_world P) resp (linkP p, relP p, commandP p) u = (ret2, (l, r, c), v)"
      by (metis prod.collapse)
    have "good_answer u (linkP p, relP p, commandP p) [resp, pendingLinkP p] (ret2, (l, r, c), v)"
      using good_answers(2) [OF contract_net [OF assms(1)] h1 e(3)] a by simp
    moreover from this have code: "ret2 \<noteq> ROOTPA_ERROR_REGISTRY_OBJECT_NOT_AVAILABLE" by (simp add: good_answer_def)
    moreover define q where "q = round_result P p"
    have q: "linkP q = l" "relP q = r" "commandP q = c" "usedLinkP q = linkP p" "usedRelP q = relP p" "usedCommandP q = commandP p"
      "responseP q = resp" "pendingLinkP q = pendingLinkP p" "pendingRelP q = pendingRelP p"
      "p_s q = v \<or> p_s q = v\<lparr>r_ev := r_ev (p_s q)\<rparr>" "workToDo q \<longrightarrow> ret2 = ROOTPA_OK"
      using x a assms(3) False code
      by (simp_all add: q_def round_result_def u_def [symmetric] fail_def callbackE_def Let_def take_answer_def)
    have "\<exists>e. p_s q = v\<lparr>r_ev := e\<rparr>" using own_ev [of v] q(10) by metis
    from answered [OF _ q(1-6) this q(11)] calculation assms(4) e(1)
    show ?thesis by (simp add: q(7-9) q_def [symmetric] extends_def)
  qed
  then show "tidy (round_result P p)" "r_faults (p_s (round_result P p)) = r_faults (p_s p)" by auto
qed

lemma round_systeminfo_tidy:
  assumes "engine_contract P N" "holds (p_s p) [linkP p, relptr (relP p), commandP p, responseP p, pendingLinkP p]"
    and "same_refs p" "relptr (pendingRelP p) = 0"
  shows "tidy (round_systeminfo P p)" "r_faults (p_s (round_systeminfo P p)) = r_faults (p_s p)"
proof -
  let ?held = "[linkP p, relptr (relP p), commandP p, responseP p, pendingLinkP p]"
  obtain r1 os s1 where x1: "pw_sysInfo P (p_s p) = (r1, os, s1)" by (metis prod_cases3)
  obtain r2 tag ver s2 where x2: "pw_getVersion P s1 = (r2, tag, ver, s2)" by (metis prod_cases4)
  obtain r3 resp s3 where x3: "pw_buildSystemInfo P tag ver os s2 = (r3, resp, s3)" by (metis prod_cases3)
  define u where "u = free_all os s3"
  note con = assms(1) [unfolded engine_contract_def, THEN conjunct2, THEN conjunct2, rule_format]
  have h0: "heap_ok (p_s p)" using assms(2) by (simp add: holds_def)
  have e1: "extends (p_s p) s1" "apart os" "\<forall>q\<in>set os. fresh_str (p_s p) s1 q" using con [OF h0] x1 by simp_all
  have e2: "extends s1 s2" using con [of s1] e1(1) x2 by (simp add: extends_def)
  have "answers N s2 (pw_buildSystemInfo P tag ver os s2)" using con [of s2] e2 by (simp add: extends_def)
  then have e3: "extends s2 s3" "fresh_str s2 s3 resp" "length (cstring s3 resp) \<le> N"
    unfolding answers_def x3 prod.case by simp_all
  have "holds s2 (os @ ?held)"
    by (rule holds_extends [OF holds_fresh [OF assms(2) e1(1) _ e1(2)] e2]) (use e1(3) in blast)
  then have "holds s3 ([resp] @ os @ ?held)"
    by (rule holds_fresh [OF _ e3(1)]) (use e3(2) in \<open>auto simp: apart_def\<close>)
  then have "holds s3 (os @ [linkP p, relptr (relP p), commandP p, resp, pendingLinkP p])"
    by (rule holds_sub) simp
  note f = free_several [OF this, folded u_def]
  have h1: "holds u ([linkP p, relptr (relP p), commandP p] @ [resp, pendingLinkP p])" using f by simp
  have len: "length (cstring u resp) \<le> N"
    using f e3(3) h1 by (cases "resp = 0") (simp_all add: cstring_null holds_def, simp add: cstring_def)
  have faults: "r_faults u = r_faults (p_s p)" using f e1(1) e2 e3(1) by (simp add: extends_def)
  obtain ret l r c v where a: "httpPutAndReceiveCommand (pw_world P) resp (linkP p, relP p, commandP p) u = (ret, (l, r, c), v)"
    by (metis prod.collapse)
  have g: "good_answer u (linkP p, relP p, commandP p) [resp, pendingLinkP p] (ret, (l, r, c), v)"
    using good_answers(1) [OF contract_net [OF assms(1)] h1 len] a by simp
  define q where "q = round_systeminfo P p"
  have q: "linkP q = l" "relP q = r" "commandP q = c" "usedLinkP q = linkP p" "usedRelP q = relP p" "usedCommandP q = commandP p"
    "responseP q = resp" "pendingLinkP q = pendingLinkP p" "pendingRelP q = pendingRelP p"
    "p_s q = v \<or> p_s q = v\<lparr>r_ev := r_ev (p_s q)\<rparr>" "workToDo q \<longrightarrow> ret = ROOTPA_OK"
    using x1 x2 x3 a assms(3)
    by (simp_all add: q_def round_systeminfo_def u_def [unfolded free_all_def, symmetric] fail_def callbackE_def Let_def take_answer_def)
  have "\<exists>e. p_s q = v\<lparr>r_ev := e\<rparr>" using own_ev [of v] q(10) by metis
  from answered [OF _ q(1-6) this q(11)] g assms(4) faults have "tidy q" "r_faults (p_s q) = r_faults (p_s p)"
    by (simp_all add: q(7-9))
  then show "tidy (round_systeminfo P p)" "r_faults (p_s (round_systeminfo P p)) = r_faults (p_s p)" by (simp_all add: q_def)
qed

lemma quiet_null: "relptr r = 0 \<Longrightarrow> quiet s r"
  by (cases r) (simp_all add: quiet_initial)

lemma round_other_tidy:
  assumes "engine_contract P N" "ready N p"
  shows "tidy (round_other P p)" "r_faults (p_s (round_other P p)) = r_faults (p_s p)"
proof -
  define u where "u = p\<lparr>usedLinkP := linkP p, usedRelP := relP p, usedCommandP := commandP p\<rparr>"
  have u: "p_s u = p_s p" "linkP u = linkP p" "relP u = relP p" "commandP u = commandP p" "responseP u = responseP p"
    "same_refs u" "relptr (pendingRelP u) = 0" "pendingLinkP u = pendingLinkP p"
    using assms(2) by (simp_all add: u_def ready_def)
  have h: "holds (p_s u) [linkP u, relptr (relP u), commandP u, responseP u, pendingLinkP u]"
    and len: "length (cstring (p_s u) (responseP u)) \<le> N" using assms(2) by (simp_all add: u ready_def)
  note g = good_answers [OF contract_net [OF assms(1)], of "p_s u" "linkP u" "relP u" "commandP u" "[responseP u, pendingLinkP u]" "responseP u"]
  have good: "good_answer (p_s u) (linkP u, relP u, commandP u) [responseP u, pendingLinkP u]
      (httpPostAndReceiveCommand (pw_world P) (responseP u) (linkP u, relP u, commandP u) (p_s u))"
    "good_answer (p_s u) (linkP u, relP u, commandP u) [responseP u, pendingLinkP u]
      (httpGetAndReceiveCommand (pw_world P) (linkP u, relP u, commandP u) (p_s u))"
    "good_answer (p_s u) (linkP u, relP u, commandP u) [responseP u, pendingLinkP u]
      (httpDeleteAndReceiveCommand (pw_world P) (linkP u, relP u, commandP u) (p_s u))"
    using g h len by simp_all
  define q where "q = (fail ROOTPA_ERROR_ILLEGAL_ARGUMENT u)\<lparr>workToDo := False\<rparr>"
  have "holds (p_s u) ([linkP u, relptr (relP u), commandP u] @ [0, 0, 0] @ [responseP u, pendingLinkP u])"
    by (rule holds_filter [OF _ h]) simp
  then have lost: "tidy q" "r_faults (p_s q) = r_faults (p_s u)"
    using u(6,7) by (simp_all add: tidy_def q_def fail_def callbackE_def spent_def)
  have "round_other P p \<in> {round_systeminfo P u, round_result P u, q,
      round_http (httpDeleteAndReceiveCommand (pw_world P) (linkP u, relP u, commandP u) (p_s u)) u,
      round_http (httpPostAndReceiveCommand (pw_world P) (responseP u) (linkP u, relP u, commandP u) (p_s u)) u,
      round_http (httpGetAndReceiveCommand (pw_world P) (linkP u, relP u, commandP u) (p_s u)) u}"
    unfolding round_other_def Let_def u_def [symmetric] q_def by simp
  moreover note round_systeminfo_tidy [OF assms(1) h u(6,7)] round_result_tidy [OF assms(1) h u(6,7)]
    round_http_tidy [OF good(1) u(6,7)] round_http_tidy [OF good(2) u(6,7)] round_http_tidy [OF good(3) u(6,7)] lost
  ultimately show "tidy (round_other P p)" "r_faults (p_s (round_other P p)) = r_faults (p_s p)"
    unfolding u(1) [symmetric] by auto
qed

lemma prov_round_ready:
  assumes "engine_contract P N" "ready N p"
  shows "ready N (prov_round P p)" "r_faults (p_s (prov_round P p)) = r_faults (p_s p)"
proof -
  note r = assms(2) [unfolded ready_def]
  have "ready N (prov_round P p) \<and> r_faults (p_s (prov_round P p)) = r_faults (p_s p)"
  proof (cases "relP p = NoRel")
    case none: True
    show ?thesis
    proof (cases "pendingLinkP p \<noteq> 0 \<and> pendingRelP p \<noteq> NoRel")
      case True
      have h: "holds (p_s p) ([linkP p] @ [pendingLinkP p, commandP p, responseP p])"
        by (rule holds_sub [OF r [THEN conjunct1]]) simp
      note f = free_several [OF h]
      define t where "t = free_ptr (linkP p) (p_s p)"
      have ht: "holds t [pendingLinkP p, commandP p, responseP p]" using f by (simp add: t_def)
      have "holds t [pendingLinkP p, 0, commandP p, responseP p, 0]" by (rule holds_filter [OF _ ht]) simp
      moreover have "length (cstring t (responseP p)) \<le> N"
        using f r ht by (cases "responseP p = 0") (simp_all add: cstring_null holds_def t_def, simp add: cstring_def)
      ultimately show ?thesis
        using f r True none by (simp add: prov_round_def ready_def t_def [symmetric] quiet_null)
    next
      case False
      define q where "q = p\<lparr>p_s := callbackE FINISHED_PROVISIONING ROOTPA_OK (p_s p), workToDo := False\<rparr>"
      have "holds (p_s p) ([linkP p, relptr (relP p), commandP p] @ [0, 0, 0] @ [responseP p, pendingLinkP p])"
        by (rule holds_filter [OF _ r [THEN conjunct1]]) simp
      moreover have "spent q = [0, 0, 0]" using r by (simp add: q_def spent_def)
      ultimately have "tidy q" "r_faults (p_s q) = r_faults (p_s p)"
        using r by (simp_all add: tidy_def) (simp_all add: q_def callbackE_def)
      then show ?thesis using round_end_ready(1) [of q N] round_end_ready(2) [of q] none False by (auto simp: prov_round_def q_def)
    qed
  next
    case False
    have "read_rel (relP p) (p_s p) = p_s p"
      using r False holds_member [of "p_s p" _ "relptr (relP p)"] by (intro read_rel_held) auto
    moreover have "\<not> has_rel (p_s p) (relP p) RELATION_SELF" using r no_self_end [of "relP p" "p_s p"] False by auto
    ultimately have "prov_round P p = round_end (round_other P p)" using False by (simp add: prov_round_def Let_def)
    then show ?thesis
      using round_end_ready(1,2) [OF round_other_tidy(1) [OF assms]] round_other_tidy(2) [OF assms] by simp
  qed
  then show "ready N (prov_round P p)" "r_faults (p_s (prov_round P p)) = r_faults (p_s p)" by auto
qed

lemma prov_finish_ready: "ready N p \<Longrightarrow> r_faults (prov_finish p) = r_faults (p_s p)"
proof -
  assume "ready N p"
  then have "holds (p_s p) [linkP p, relptr (relP p), commandP p, responseP p, pendingLinkP p]" by (simp add: ready_def)
  then have h: "holds (p_s p) ([responseP p, linkP p] @ [])" by (rule holds_sub) simp
  define c where "c = closeSeClientAndCleanup (p_s p)"
  have "holds c ([responseP p, linkP p] @ [])" "r_faults c = r_faults (p_s p)"
    using h unfolding c_def closeSeClientAndCleanup_def Let_def by (cases "g_curl_handle (p_s p)"; simp)+
  with free_several [OF this(1)] show "r_faults (prov_finish p) = r_faults (p_s p)"
    by (simp add: prov_finish_def c_def)
qed

lemma rounds_ready:
  assumes "engine_contract P N" "ready N p"
  shows "ready N ((prov_round P ^^ k) p) \<and> r_faults (p_s ((prov_round P ^^ k) p)) = r_faults (p_s p)"
  by (induction k) (simp_all add: assms prov_round_ready [OF assms(1)])

section \<open>The start of the dialogue\<close>

text \<open>The link under construction is a string in a block the caller did not have.\<close>

definition linked :: "rstate \<Rightarrow> rstate \<Rightarrow> nat \<Rightarrow> u8 list \<Rightarrow> nat \<Rightarrow> bool" where
  "linked s t p str n = (extends s t \<and> p \<notin> blocks s \<and> padded t p str n \<and> length str < n)"

lemma linked_extends: "linked s t p str n \<Longrightarrow> extends t u \<Longrightarrow> linked s u p str n"
  using extends_trans [of s t u] by (auto simp: linked_def padded_def extends_def)

lemma linked_poke:
  assumes "linked s t p str n" "length str + (length v + z) \<le> n" "length str + length v < n" "0 \<notin> set v"
  shows "linked s (poke p (length (cstring t p)) (v @ replicate z 0) (touch_cstring p t)) p (str @ v) n"
proof -
  note l = assms(1) [unfolded linked_def]
  have p: "padded t p str n" "length str < n" using l by auto
  have c: "touch_cstring p t = t" "cstring t p = str" using padded_cstring [OF p(1)] p(2) by (simp_all add: touch_is_cstr)
  have "length (hblock t p) = n" "p \<in> blocks t" using p by (auto simp: padded_def)
  then have "extends s (poke p (length str) (v @ replicate z 0) t)" using l assms(2) by (intro poke_extends) auto
  then show ?thesis using poke_padded(1) [OF p(1) assms(2) p(2) assms(4)] l assms(3) c by (simp add: linked_def)
qed

lemma linked_int:
  assumes "linked s t p str n" "unat spid < 10000000" "length str + 12 \<le> n"
  shows "\<exists>v. length v \<le> 8 \<and> linked s (addIntToUri p spid t) p (str @ v) n"
proof -
  let ?d = "dec_digits (unat spid)"
  have d: "length ?d \<le> 7" using assms(2) length_dec_digits [of 7 "unat spid"] by simp
  have "sint spid = int (unat spid)" by (rule sint_small [OF less_trans [OF assms(2)]]) simp
  then have "dec_int spid = ?d" by (simp add: dec_int_def)
  moreover have "take 11 (47 # ?d) = 47 # ?d" using d by simp
  ultimately have e: "addIntToUri p spid t
      = poke p (length (cstring t p)) ((47 # ?d) @ replicate (11 - length ?d) 0) (touch_cstring p t)"
    using d by (simp add: addIntToUri_def Let_def fit_def)
  have "linked s (addIntToUri p spid t) p (str @ 47 # ?d) n"
    unfolding e by (rule linked_poke [OF assms(1)]) (use d assms(3) dec_digits_nonzero [of "unat spid"] in auto)
  then show ?thesis using d by (intro exI [of _ "47 # ?d"]) simp
qed

lemma linked_uuid:
  assumes "linked s t p str n" "length uuid = 16" "length str + 37 < n"
  shows "\<exists>str'. linked s (addBytesToUri p uuid True (addSlashToUri p t)) p str' n"
proof -
  have "linked s (poke p (length (cstring t p)) ([47] @ replicate 0 0) (touch_cstring p t)) p (str @ [47]) n"
    by (rule linked_poke [OF assms(1)]) (use assms(3) in auto)
  then have l: "linked s (addSlashToUri p t) p (str @ [47]) n" by (simp add: addSlashToUri_def)
  have "linked s (poke p (length (cstring (addSlashToUri p t) p)) (uri_bytes True 0 uuid @ replicate 0 0)
      (touch_cstring p (addSlashToUri p t))) p ((str @ [47]) @ uri_bytes True 0 uuid) n"
    by (rule linked_poke [OF l]) (use assms(2,3) length_uri_uuid [OF assms(2)] uri_bytes_nonzero [of True 0 uuid] in auto)
  then show ?thesis unfolding addBytesToUri_def append_Nil2 replicate_0 by blast
qed

lemma hblock_poke_other: "q \<noteq> p \<Longrightarrow> hblock (poke p off bs s) q = hblock s q"
  by (simp add: poke_def hblock_set_block)

lemma url_frame [simp]:
  "g_initialUrl (touch p off n s) = g_initialUrl s" "g_initialUrl (poke p off bs s) = g_initialUrl s"
  "g_initialUrl (touch_cstring p s) = g_initialUrl s" "g_initialUrl (free_ptr p s) = g_initialUrl s"
  "g_initialUrl (new_block b s) = g_initialUrl s" "g_initialUrl (set_block p f s) = g_initialUrl s"
  by (simp_all add: touch_def poke_def set_block_def touch_cstring_def free_ptr_def drop_block_def new_block_def)

lemma url_frames:
  "createBasicLink W suid s = (p, t) \<Longrightarrow> g_initialUrl t = g_initialUrl s"
  "g_initialUrl (addIntToUri p spid s) = g_initialUrl s"
  "openSeClientAndInit W s = (ret, t) \<Longrightarrow> g_initialUrl t = g_initialUrl s"
  "regRead W c s = (r, p, n, t) \<Longrightarrow> g_initialUrl t = g_initialUrl s"
  "factoryResetAssumed W s = (b, t) \<Longrightarrow> g_initialUrl t = g_initialUrl s"
proof -
  show "createBasicLink W suid s = (p, t) \<Longrightarrow> g_initialUrl t = g_initialUrl s"
    by (auto simp: createBasicLink_def addBytesToUri_def malloc_def Let_def split: option.splits)
  show "g_initialUrl (addIntToUri p spid s) = g_initialUrl s" by (simp add: addIntToUri_def Let_def)
  show "openSeClientAndInit W s = (ret, t) \<Longrightarrow> g_initialUrl t = g_initialUrl s"
    by (auto simp: openSeClientAndInit_def Let_def split: prod.splits if_splits)
  have r: "regRead W c s = (r, p, n, t) \<Longrightarrow> g_initialUrl t = g_initialUrl s" for c s r p n t
    by (auto simp: regRead_def malloc_def Let_def split: prod.splits option.splits if_splits)
  then show "regRead W c s = (r, p, n, t) \<Longrightarrow> g_initialUrl t = g_initialUrl s" .
  show "factoryResetAssumed W s = (b, t) \<Longrightarrow> g_initialUrl t = g_initialUrl s"
    by (auto simp: factoryResetAssumed_def reg_wrappers dest!: r split: prod.splits if_splits)
qed

lemma uuid_frame:
  "blocks (addBytesToUri p uuid True (addSlashToUri p t)) = blocks t"
  "q \<noteq> p \<Longrightarrow> hblock (addBytesToUri p uuid True (addSlashToUri p t)) q = hblock t q"
  "g_initialUrl (addBytesToUri p uuid True (addSlashToUri p t)) = g_initialUrl t"
  by (simp_all add: addBytesToUri_def addSlashToUri_def touch_cstring_def hblock_poke_other)

lemma regRead_extends:
  assumes "regRead W c s = (r, p, n, t)" "heap_ok s"
  shows "extends s t" "p = 0 \<or> p \<in> blocks t \<and> p \<notin> blocks s"
  using regRead_spec [OF assms] by (auto simp: extends_def split: if_splits)

lemma factoryResetAssumed_extends:
  assumes "factoryResetAssumed W s = (b, t)" "heap_ok s"
  shows "extends s t"
proof -
  obtain r1 p1 n1 s1 where a: "regRead W AuthToken s = (r1, p1, n1, s1)" by (metis prod_cases4)
  obtain r2 p2 n2 s2 where b: "regRead W RootCont s1 = (r2, p2, n2, s2)" by (metis prod_cases4)
  note e1 = regRead_extends [OF a assms(2)]
  have h: "heap_ok s1" using e1(1) by (simp add: extends_def)
  note e2 = regRead_extends [OF b h]
  have e: "extends s s2" by (rule extends_trans [OF e1(1) e2(1)])
  have "extends s (free_ptr p1 s1)" by (rule free_extends [OF e1])
  moreover have "extends s (free_ptr p2 s2)" by (rule free_extends [OF e]) (use e1(1) e2(2) in \<open>auto simp: extends_def\<close>)
  ultimately show ?thesis
    using assms(1) a b e by (auto simp: factoryResetAssumed_def reg_wrappers split: if_splits)
qed

text \<open>The part of \<open>prov_start\<close> that asks for a trusted application.\<close>

definition request_step :: "pworld \<Rightarrow> nat \<Rightarrow> bool \<Rightarrow> u32 \<Rightarrow> trustletInstallationData_t option \<Rightarrow> rstate \<Rightarrow> u32 \<times> nat \<times> bool \<times> rstate" where
  "request_step P link work ret tltDataP s =
     (case tltDataP of
        None \<Rightarrow> (ret, 0, work, s)
      | Some tlt \<Rightarrow>
          let (ret, response, s) = pw_buildTltRequest P tlt s in
          if ret \<noteq> ROOTPA_OK \<or> response = 0 then
            let ret = (if ROOTPA_OK = ret then ROOTPA_ERROR_XML else ret)
            in (ret, response, False, callbackE ERROR ret s)
          else (ret, response, work, addBytesToUri link (td_uuid tlt) True (addSlashToUri link s)))"

lemma linked_note [simp]:
  "linked s (t\<lparr>r_ev := e\<rparr>) p str n = linked s t p str n" "linked s (t\<lparr>g_curl_handle := b\<rparr>) p str n = linked s t p str n"
  by (simp_all add: linked_def extends_def padded_def heap_ok_def blocks_def hblock_def)

lemma request_step_linked:
  assumes "request_step P link work ret tlt s = (ret', resp, work', t)" "engine_contract P N" "linked s0 s link str n"
    and "length str + 37 < n" "\<And>d. tlt = Some d \<Longrightarrow> length (td_uuid d) = 16"
  shows "\<exists>str'. linked s0 t link str' n" "fresh_str s t resp" "length (cstring t resp) \<le> N" "g_initialUrl t = g_initialUrl s"
proof -
  have h: "heap_ok s" "link \<in> blocks s" using assms(3) by (simp_all add: linked_def extends_def padded_def)
  have "(\<exists>str'. linked s0 t link str' n) \<and> fresh_str s t resp \<and> length (cstring t resp) \<le> N \<and> g_initialUrl t = g_initialUrl s"
  proof (cases tlt)
    case None
    then show ?thesis using assms(1,3) h by (auto simp: request_step_def fresh_str_def cstring_null)
  next
    case (Some d)
    obtain r p u where b: "pw_buildTltRequest P d s = (r, p, u)" by (metis prod_cases3)
    have "answers N s (pw_buildTltRequest P d s)" using assms(2) h(1) by (simp add: engine_contract_def)
    then have e: "extends s u" "fresh_str s u p" "length (cstring u p) \<le> N" "g_initialUrl u = g_initialUrl s"
      unfolding answers_def b prod.case by simp_all
    have l: "linked s0 u link str n" by (rule linked_extends [OF assms(3) e(1)])
    show ?thesis
    proof (cases "r \<noteq> ROOTPA_OK \<or> p = 0")
      case True
      then have "resp = p" "\<exists>e. t = u\<lparr>r_ev := e\<rparr>" using assms(1) Some b
        by (auto simp: request_step_def callbackE_def Let_def)
      then show ?thesis using e l by (auto simp: cstring_def hblock_def)
    next
      case False
      then have t: "resp = p" "t = addBytesToUri link (td_uuid d) True (addSlashToUri link u)"
        using assms(1) Some b by (auto simp: request_step_def)
      have "p \<noteq> link" using e(2) h(2) False by (auto simp: fresh_str_def)
      then have "hblock t p = hblock u p" "blocks t = blocks u" by (simp_all add: t uuid_frame)
      then show ?thesis
        using linked_uuid [OF l assms(5) assms(4)] Some e(2-4) uuid_frame(3) [of link "td_uuid d" u]
        by (auto simp: t(1) t(2) [symmetric] fresh_str_def is_cstr_def cstring_def)
    qed
  qed
  then show "\<exists>str'. linked s0 t link str' n" "fresh_str s t resp" "length (cstring t resp) \<le> N"
    "g_initialUrl t = g_initialUrl s" by auto
qed

lemma SE_URL_nonzero: "0 \<notin> set SE_URL"
  by code_simp

lemma createBasicLink_linked:
  assumes "createBasicLink W suid s = (p, t)" "heap_ok s" "\<And>ev n. rw_malloc W ev n \<noteq> None"
    and "0 \<notin> set (g_initialUrl s)" "length suid = 16"
  shows "linked s t p (g_initialUrl s @ uri_bytes False 0 suid) (length (g_initialUrl s) + 78)"
  using createBasicLink_padded [OF assms] assms(5) by (simp add: linked_def length_uri_bytes)

lemma linked_fresh: "linked s t p str n \<Longrightarrow> fresh_str s t p"
  using padded_cstring(2) by (auto simp: linked_def fresh_str_def)

lemma prov_start_ready:
  assumes "engine_contract P N" "heap_ok s" "\<And>ev n. rw_malloc (pw_world P) ev n \<noteq> None" "0 \<notin> set (g_initialUrl s)"
    and "length suid = 16" "unat spid < 10000000" "\<And>d. tlt = Some d \<Longrightarrow> length (td_uuid d) = 16"
  shows "ready N (prov_start P spid suid rel tlt s)" "r_faults (p_s (prov_start P spid suid rel tlt s)) = r_faults s"
proof -
  let ?W = "pw_world P"
  define s0 where "s0 = s\<lparr>g_engineCallbackP := True, g_initialUrl := (if g_initialUrl s = [] then SE_URL else g_initialUrl s)\<rparr>"
  let ?n = "length (g_initialUrl s0) + 78"
  have s0: "heap_ok s0" "0 \<notin> set (g_initialUrl s0)" "r_faults s0 = r_faults s"
    using assms(2,4) SE_URL_nonzero by (simp_all add: s0_def heap_ok_def blocks_def)
  obtain link s2 where b: "createBasicLink ?W suid s0 = (link, s2)" by force
  have l2: "linked s0 s2 link (g_initialUrl s0 @ uri_bytes False 0 suid) ?n"
    by (rule createBasicLink_linked [OF b s0(1) assms(3) s0(2) assms(5)])
  have len: "length (g_initialUrl s0 @ uri_bytes False 0 suid) = length (g_initialUrl s0) + 32"
    using assms(5) by (simp add: length_uri_bytes)
  define s3 where "s3 = (if rel \<noteq> InitialRel_DELETE \<and> spid \<noteq> 0 then addIntToUri link spid s2 else s2)"
  obtain v where l3: "linked s0 s3 link v ?n" and v: "length v + 37 < ?n"
  proof (cases "rel \<noteq> InitialRel_DELETE \<and> spid \<noteq> 0")
    case True
    obtain w where "length w \<le> 8" "linked s0 s3 link ((g_initialUrl s0 @ uri_bytes False 0 suid) @ w) ?n"
      using linked_int [OF l2 assms(6)] len True by (auto simp: s3_def)
    then show ?thesis using len by (intro that) auto
  next
    case False
    then show ?thesis using l2 len by (intro that [of "g_initialUrl s0 @ uri_bytes False 0 suid"]) (auto simp: s3_def)
  qed
  obtain ret0 s5 where o: "openSeClientAndInit ?W (callbackE CONNECTING_SERVICE_ENABLER ROOTPA_OK s3) = (ret0, s5)" by force
  have l5: "linked s0 s5 link v ?n"
    using o l3 by (auto simp: openSeClientAndInit_def callbackE_def Let_def split: prod.splits if_splits)
  define s6 where "s6 = (if ret0 \<noteq> ROOTPA_OK then callbackE ERROR ret0 s5 else s5)"
  have l6: "linked s0 s6 link v ?n" using l5 by (simp add: s6_def callbackE_def)
  obtain ret1 resp work s7 where t: "request_step P link (ret0 = ROOTPA_OK) ret0 tlt s6 = (ret1, resp, work, s7)" by (metis prod_cases4)
  note step = request_step_linked [OF t assms(1) l6 v assms(7)]
  obtain v7 where l7: "linked s0 s7 link v7 ?n" using step(1) by blast
  obtain assumed s8 where f: "factoryResetAssumed ?W s7 = (assumed, s8)" by force
  have e8: "extends s7 s8" using factoryResetAssumed_extends [OF f] l7 by (simp add: linked_def extends_def)
  have ok6: "heap_ok s6" "link \<in> blocks s6" using l6 by (simp_all add: linked_def extends_def padded_def)
  have "is_cstr s7 link" using l7 padded_cstring(2) by (auto simp: linked_def)
  moreover have "heap_ok s7" using l7 by (simp add: linked_def extends_def)
  ultimately have "holds s7 [link, 0, 0, resp, 0]"
    using step(2) ok6(2) by (auto simp: holds_def apart_def fresh_str_def)
  then have h8: "holds s8 [link, 0, 0, resp, 0]" using e8 by (rule holds_extends)
  have len8: "length (cstring s8 resp) \<le> N"
  proof (cases "resp = 0")
    case True
    then show ?thesis using h8 by (simp add: cstring_null holds_def)
  next
    case False
    then show ?thesis using step(2,3) e8 by (auto simp: fresh_str_def is_cstr_def extends_def cstring_def)
  qed
  obtain link2 s9 where b2: "createBasicLink ?W suid s8 = (link2, s9)" by force
  have c8: "heap_ok s8" using h8 by (simp add: holds_def)
  let ?rel = "if rel = InitialRel_DELETE then RelInitialDelete else RelInitialPost"
  let ?p = "\<lparr>p_s = s8, p_ret = ret1, workToDo = work, linkP = link, relP = ?rel, commandP = 0, responseP = resp,
      pendingLinkP = 0, pendingRelP = NoRel, usedLinkP = 0, usedRelP = NoRel, usedCommandP = 0\<rparr>"
  have first: "(if g_initialUrl (s\<lparr>g_engineCallbackP := True\<rparr>) = [] then s\<lparr>g_engineCallbackP := True, g_initialUrl := SE_URL\<rparr>
      else s\<lparr>g_engineCallbackP := True\<rparr>) = s0" by (simp add: s0_def)
  have start: "prov_start P spid suid rel tlt s = (if assumed \<and> ?rel \<noteq> RelInitialDelete \<and> work
     then ?p\<lparr>p_s := s9, pendingLinkP := link, pendingRelP := ?rel, relP := RelInitialDelete, linkP := link2\<rparr> else ?p)"
    unfolding prov_start_def Let_def first b prod.case s3_def [symmetric] o s6_def [symmetric]
      request_step_def [unfolded Let_def, symmetric] t f b2
    by simp
  have url: "g_initialUrl s8 = g_initialUrl s0"
    using url_frames(1) [OF b] url_frames(2) [of link spid s2] url_frames(3) [OF o] step(4) url_frames(5) [OF f]
    by (auto simp: s3_def s6_def callbackE_def split: if_splits)
  have l9: "linked s8 s9 link2 (g_initialUrl s8 @ uri_bytes False 0 suid) (length (g_initialUrl s8) + 78)"
    by (rule createBasicLink_linked [OF b2 c8 assms(3) _ assms(5)]) (simp add: url s0(2))
  have e9: "extends s8 s9" using l9 by (simp add: linked_def)
  have "holds s9 ([link2] @ [link, 0, 0, resp, 0])"
    by (rule holds_fresh [OF h8 e9]) (use linked_fresh [OF l9] in \<open>auto simp: apart_def\<close>)
  then have h9: "holds s9 [link2, 0, 0, resp, link]" by (rule holds_sub) simp
  have len9: "length (cstring s9 resp) \<le> N"
  proof (cases "resp = 0")
    case True
    then show ?thesis using h9 by (simp add: cstring_null holds_def)
  next
    case False
    then show ?thesis using h8 len8 extends_cstr [OF e9, of resp] by (simp add: holds_def)
  qed
  have "r_faults s8 = r_faults s" "r_faults s9 = r_faults s"
    using e8 e9 l7 s0(3) by (simp_all add: linked_def extends_def)
  then show "ready N (prov_start P spid suid rel tlt s)" "r_faults (p_s (prov_start P spid suid rel tlt s)) = r_faults s"
    unfolding start ready_def using h8 h9 len8 len9 by (auto simp: quiet_initial)
qed

section \<open>The last report\<close>

lemma events_kept:
  "e \<in> set (r_ev s) \<Longrightarrow> e \<in> set (r_ev (free_ptr p s))"
  "e \<in> set (r_ev s) \<Longrightarrow> e \<in> set (r_ev (free_all ps s))"
  "r_ev (read_rel r s) = r_ev s"
proof -
  have one: "e \<in> set (r_ev s) \<Longrightarrow> e \<in> set (r_ev (free_ptr p s))" for p s by (simp add: free_ptr_def)
  then show "e \<in> set (r_ev s) \<Longrightarrow> e \<in> set (r_ev (free_ptr p s))" .
  show "e \<in> set (r_ev s) \<Longrightarrow> e \<in> set (r_ev (free_all ps s))" by (induction ps arbitrary: s) (simp_all add: one)
  show "r_ev (read_rel r s) = r_ev s" by (cases r) (simp_all add: read_rel_def touch_cstring_def)
qed

lemma round_end_events: "e \<in> set (r_ev (p_s p)) \<Longrightarrow> e \<in> set (r_ev (p_s (round_end p)))"
  unfolding round_end_def Let_def cleanup_eq by (simp add: events_kept del: free_all_simps)

lemma round_end_work: "workToDo (round_end p) = workToDo p"
  by (simp add: round_end_def Let_def)

definition reported :: "prov \<Rightarrow> bool" where
  "reported p = (\<exists>e\<in>set (r_ev (p_s p)). e = Callback FINISHED_PROVISIONING ROOTPA_OK \<or> (\<exists>ret. e = Callback ERROR ret \<and> ret \<noteq> ROOTPA_OK))"

lemma reported_fail: "ret \<noteq> ROOTPA_OK \<Longrightarrow> reported (fail ret p)" "reported (p\<lparr>workToDo := w\<rparr>) = reported p"
  by (auto simp: reported_def fail_def callbackE_def)

lemma fail_work: "workToDo (fail ret p) = workToDo p"
  by (simp add: fail_def)

lemma take_answer_work: "take_answer a p = (ret, q) \<Longrightarrow> workToDo q = workToDo p"
  by (auto simp: take_answer_def split: prod.splits)

lemma round_http_reports:
  assumes "workToDo p" "\<not> workToDo (round_http a p)"
  shows "reported (round_http a p)"
proof -
  obtain ret q where a: "take_answer a p = (ret, q)" by force
  show ?thesis using assms take_answer_work [OF a] by (simp add: round_http_def a reported_fail Let_def split: if_splits)
qed

lemma round_systeminfo_reports:
  assumes "workToDo p" "\<not> workToDo (round_systeminfo P p)"
  shows "reported (round_systeminfo P p)"
proof -
  obtain r1 os s1 where x1: "pw_sysInfo P (p_s p) = (r1, os, s1)" by (metis prod_cases3)
  obtain r2 tag ver s2 where x2: "pw_getVersion P s1 = (r2, tag, ver, s2)" by (metis prod_cases4)
  obtain r3 resp s3 where x3: "pw_buildSystemInfo P tag ver os s2 = (r3, resp, s3)" by (metis prod_cases3)
  define u where "u = p\<lparr>p_s := foldl (\<lambda>s q. free_ptr q s) s3 os, responseP := resp\<rparr>"
  obtain ret q where a: "take_answer (httpPutAndReceiveCommand (pw_world P) resp (refs u) (foldl (\<lambda>s q. free_ptr q s) s3 os)) u = (ret, q)"
    by force
  have "workToDo q" using take_answer_work [OF a] assms(1) by (simp add: u_def)
  then show ?thesis
    using assms unfolding round_systeminfo_def x1 x2 x3 Let_def prod.case u_def [symmetric] a
    by (simp add: reported_fail fail_work split: if_splits)
qed

lemma round_result_reports:
  assumes "workToDo p" "\<not> workToDo (round_result P p)"
  shows "reported (round_result P p)"
proof -
  obtain ret resp t where x: "pw_handleXml P (commandP p) (setCallbackP True (p_s p)) = (ret, resp, t)" by (metis prod_cases3)
  define u where "u = p\<lparr>p_s := setCallbackP False t, responseP := resp\<rparr>"
  obtain ret2 q where a: "take_answer (httpPostAndReceiveCommand (pw_world P) resp (refs u) (setCallbackP False t)) u = (ret2, q)"
    by force
  have "workToDo q" "workToDo u" using take_answer_work [OF a] assms(1) by (simp_all add: u_def)
  then show ?thesis
    using assms unfolding round_result_def x Let_def prod.case u_def [symmetric] a
    by (cases "resp = 0") (simp_all add: reported_fail fail_work split: if_splits)
qed

lemma prov_round_reports:
  assumes "workToDo p" "\<not> workToDo (prov_round P p)"
  shows "reported (prov_round P p)"
proof -
  have ends: "reported (round_end q)" if "reported q" for q
    using that round_end_events unfolding reported_def by blast
  define u where "u = p\<lparr>p_s := read_rel (relP p) (p_s p)\<rparr>"
  define v where "v = u\<lparr>usedLinkP := linkP u, usedRelP := relP u, usedCommandP := commandP u\<rparr>"
  have work: "workToDo u" "workToDo v" using assms(1) by (simp_all add: u_def v_def)
  have other: "reported (round_other P u)" if "\<not> workToDo (round_other P u)"
    using that work(2) round_http_reports [of v] round_systeminfo_reports [of v P] round_result_reports [of v P]
      reported_fail(1) [of ROOTPA_ERROR_ILLEGAL_ARGUMENT v]
    unfolding round_other_def Let_def v_def [symmetric] by (auto simp: reported_fail(2) split: if_splits)
  have self: "workToDo (round_self u)" using work(1) by (simp add: round_self_def)
  show ?thesis
    using assms other self unfolding prov_round_def Let_def u_def [symmetric]
    by (auto simp: round_end_work reported_def callbackE_def split: if_splits intro!: ends [unfolded reported_def])
qed

lemma loop_reports:
  assumes "while_option workToDo (prov_round P) p = Some q" "workToDo p"
  shows "reported q"
proof -
  have "workToDo q \<or> reported q"
    by (rule while_option_rule [where P = "\<lambda>q. workToDo q \<or> reported q", OF _ assms(1)]) (use assms(2) prov_round_reports in auto)
  then show ?thesis using while_option_stop [OF assms(1)] by simp
qed

lemma finish_reports: "reported p \<Longrightarrow> \<exists>e\<in>set (r_ev (prov_finish p)). e = Callback FINISHED_PROVISIONING ROOTPA_OK \<or> (\<exists>ret. e = Callback ERROR ret \<and> ret \<noteq> ROOTPA_OK)"
proof -
  assume "reported p"
  moreover have "e \<in> set (r_ev (prov_finish p))" if "e \<in> set (r_ev (p_s p))" for e
    using that by (simp add: prov_finish_def closeSeClientAndCleanup_def Let_def events_kept(1))
  ultimately show ?thesis unfolding reported_def by blast
qed

section \<open>A request to repeat a step\<close>

lemma free_ptr_length: "length (r_faults s) \<le> length (r_faults (free_ptr p s))"
  by (simp add: free_ptr_def drop_block_def)

lemma free_all_length: "length (r_faults s) \<le> length (r_faults (free_all ps s))"
  by (induction ps arbitrary: s) (auto intro: order_trans [OF free_ptr_length])

lemma read_rel_length: "length (r_faults s) \<le> length (r_faults (read_rel r s))"
  by (cases r) (simp_all add: read_rel_def touch_cstring_def touch_def)

lemma round_end_length: "length (r_faults (p_s p)) \<le> length (r_faults (p_s (round_end p)))"
proof -
  have "length (r_faults (p_s p)) \<le> length (r_faults (free_ptr r (free_all us (read_rel rel (free_all cs (p_s p))))))" for r us rel cs
    using free_all_length read_rel_length free_ptr_length by (meson order_trans)
  then have a: "length (r_faults (p_s p)) \<le> length (r_faults (free_ptr r (free_all us (read_rel rel (free_all cs (p_s p))))))"
    "length (r_faults (p_s p)) \<le> length (r_faults (free_ptr r (free_all us (free_all cs (p_s p)))))"
    "length (r_faults (p_s p)) \<le> length (r_faults (free_ptr r (read_rel rel (free_all cs (p_s p)))))"
    "length (r_faults (p_s p)) \<le> length (r_faults (free_ptr r (free_all cs (p_s p))))" for r us rel cs
    using free_all_length read_rel_length free_ptr_length by (meson order_trans)+
  have n: "free_all [] (p_s p) = p_s p" by simp
  show ?thesis
    unfolding round_end_def Let_def cleanup_eq
    using a n a [where cs = "[]", unfolded n] by (simp del: free_all_simps)
qed

lemma rel_gone:
  assumes "q \<noteq> 0" "q \<notin> blocks s"
  shows "\<not> has_rel s (RelPtr q) (a # pat)" "length (r_faults s) < length (r_faults (read_rel (RelPtr q) s))"
proof -
  have "hblock s q = []" using assms(2) by (simp add: hblock_def blocks_def map_of_eq_None_iff [symmetric])
  then have c: "cstring s q = []" by (simp add: cstring_def)
  show "\<not> has_rel s (RelPtr q) (a # pat)" by (simp add: has_rel_def rel_text_def c strstr_def)
  show "length (r_faults s) < length (r_faults (read_rel (RelPtr q) s))"
    using assms by (simp add: read_rel_def touch_cstring_def c touch_def in_block_def)
qed

lemma relations_nonempty:
  "\<exists>a pat. RELATION_SELF = a # pat" "\<exists>a pat. RELATION_SYSTEMINFO = a # pat" "\<exists>a pat. RELATION_RESULT = a # pat"
  "\<exists>a pat. RELATION_NEXT = a # pat" "\<exists>a pat. RELATION_INITIAL_POST = a # pat" "\<exists>a pat. RELATION_INITIAL_DELETE = a # pat"
proof -
  have "RELATION_SELF \<noteq> []" "RELATION_SYSTEMINFO \<noteq> []" "RELATION_RESULT \<noteq> []" "RELATION_NEXT \<noteq> []"
    "RELATION_INITIAL_POST \<noteq> []" "RELATION_INITIAL_DELETE \<noteq> []" by code_simp+
  then show "\<exists>a pat. RELATION_SELF = a # pat" "\<exists>a pat. RELATION_SYSTEMINFO = a # pat" "\<exists>a pat. RELATION_RESULT = a # pat"
    "\<exists>a pat. RELATION_NEXT = a # pat" "\<exists>a pat. RELATION_INITIAL_POST = a # pat" "\<exists>a pat. RELATION_INITIAL_DELETE = a # pat"
    by (metis list.exhaust)+
qed

lemma freed_relation_faults:
  assumes "relP p = RelPtr q" "q \<noteq> 0" "q \<notin> blocks (p_s p)"
  shows "length (r_faults (p_s p)) < length (r_faults (p_s (prov_round P p)))"
proof -
  define s where "s = read_rel (RelPtr q) (p_s p)"
  have "blocks s = blocks (p_s p)" by (simp add: s_def read_rel_def touch_cstring_def)
  then have no: "\<not> has_rel s (RelPtr q) RELATION_SELF" "\<not> has_rel s (RelPtr q) RELATION_SYSTEMINFO" "\<not> has_rel s (RelPtr q) RELATION_RESULT"
    "\<not> has_rel s (RelPtr q) RELATION_NEXT" "\<not> has_rel s (RelPtr q) RELATION_INITIAL_POST" "\<not> has_rel s (RelPtr q) RELATION_INITIAL_DELETE"
    using rel_gone(1) [OF assms(2), of s] relations_nonempty assms(3) by metis+
  define u where "u = round_other P (p\<lparr>p_s := s\<rparr>)"
  have "prov_round P p = round_end u"
    using assms(1,2) no(1) by (simp add: prov_round_def Let_def s_def [symmetric] u_def)
  moreover have "r_faults (p_s u) = r_faults s"
    using no assms(1) by (simp add: u_def round_other_def fail_def callbackE_def)
  ultimately show ?thesis using rel_gone(2) [OF assms(2,3)] round_end_length [of u] by (simp add: s_def)
qed

lemma free_all_blocks: "heap_ok s \<Longrightarrow> blocks (free_all ps s) = blocks s - set ps \<and> heap_ok (free_all ps s)"
  by (induction ps arbitrary: s) auto

lemma repeat_step:
  assumes "relP p = RelPtr q" "\<not> no_self (cstring (p_s p) q)" "usedRelP p = RelPtr u" "u \<noteq> 0" "no_self (cstring (p_s p) u)"
    and "holds (p_s p) [linkP p, q, commandP p, usedLinkP p, u, usedCommandP p, responseP p]"
    and "linkP p \<noteq> usedLinkP p" "commandP p \<noteq> usedCommandP p" "workToDo p"
  shows "prov_round P p = p\<lparr>p_s := free_all [commandP p, q, linkP p, usedCommandP p, u, usedLinkP p, responseP p] (p_s p),
      relP := RelPtr u, linkP := usedLinkP p, commandP := usedCommandP p, usedLinkP := 0, usedRelP := NoRel,
      usedCommandP := 0, responseP := 0\<rparr>"
    "r_faults (p_s (prov_round P p)) = r_faults (p_s p)"
proof -
  let ?s = "p_s p" and ?cur = "[commandP p, q, linkP p]" and ?rest = "[usedCommandP p, u, usedLinkP p, responseP p]"
  have ok: "heap_ok ?s" using assms(6) by (simp add: holds_def)
  have "cstring ?s 0 = []" by (rule cstring_null [OF ok])
  moreover have "no_self []" by (simp add: no_self_def strstr_def) (code_simp)
  ultimately have q: "q \<noteq> 0" using assms(2) by metis
  have qu: "q \<noteq> u" using assms(2,5) by auto
  have h: "holds ?s (?cur @ ?rest)" by (rule holds_sub [OF assms(6)]) simp
  note f = free_several [OF h]
  define t where "t = free_all ?cur ?s"
  have ht: "holds t ?rest" "hblock t u = hblock ?s u" using f assms(4) by (simp_all add: t_def)
  have u: "is_cstr t u" "no_self (cstring t u)" using holds_member [OF ht(1), of u] ht(2) assms(4,5) by (auto simp: cstring_def)
  have rq: "read_rel (RelPtr q) ?s = ?s" using holds_member [OF h, of q] q by (simp add: read_rel_held)
  have ru: "read_rel (RelPtr u) t = t" using u assms(4) by (simp add: read_rel_held)
  have self: "has_rel ?s (RelPtr q) RELATION_SELF" "\<not> has_rel t (RelPtr u) RELATION_SELF"
    using assms(2) u by (auto simp: has_rel_def rel_text_def no_self_def)
  have "round_self p = p\<lparr>p_s := t, relP := RelPtr u, linkP := usedLinkP p, commandP := usedCommandP p\<rparr>"
    using assms(1,3,7,8) qu by (simp add: round_self_def cleanup_eq t_def)
  moreover have "prov_round P p = round_end (round_self p)"
    using assms(1) q rq self(1) by (simp add: prov_round_def Let_def)
  ultimately show eq: "prov_round P p = p\<lparr>p_s := free_all [commandP p, q, linkP p, usedCommandP p, u, usedLinkP p, responseP p] (p_s p),
      relP := RelPtr u, linkP := usedLinkP p, commandP := usedCommandP p, usedLinkP := 0, usedRelP := NoRel,
      usedCommandP := 0, responseP := 0\<rparr>"
    using assms(3,4,9) ru self(2) by (simp add: round_end_def Let_def cleanup_eq t_def)
  have "holds ?s ((?cur @ ?rest) @ [])" using h by simp
  from free_several [OF this] show "r_faults (p_s (prov_round P p)) = r_faults ?s" by (simp add: eq)
qed

section \<open>Properties\<close>


text \<open>
  C38: The application that asked for provisioning is told how it ended: when the dialogue returns
  after at least one round, it has been called back with the end of the provisioning or with an
  error that says which.
\<close>

theorem dialogue_reports:
  assumes "doProvisioningWithSe P spid suid rel tlt s = Some t" "workToDo (prov_start P spid suid rel tlt s)"
  shows "\<exists>e\<in>set (r_ev t). e = Callback FINISHED_PROVISIONING ROOTPA_OK \<or> (\<exists>ret. e = Callback ERROR ret \<and> ret \<noteq> ROOTPA_OK)"
proof -
  obtain q where "while_option workToDo (prov_round P) (prov_start P spid suid rel tlt s) = Some q" "t = prov_finish q"
    using assms(1) by (auto simp: doProvisioningWithSe_def)
  then show ?thesis using finish_reports loop_reports assms(2) by simp
qed

text \<open>
  C12: A server that asks to repeat a step makes the engine use memory it has freed. In the round
  that receives the request the engine takes back the link, relation and command of the round
  before, and the end of the same round frees them, because the relation taken back is not the
  request any more. The next round reads the relation it follows from a block that is gone.
\<close>

theorem repeat_uses_freed_strings:
  assumes "relP p = RelPtr q" "\<not> no_self (cstring (p_s p) q)" "usedRelP p = RelPtr u" "u \<noteq> 0" "no_self (cstring (p_s p) u)"
    and "holds (p_s p) [linkP p, q, commandP p, usedLinkP p, u, usedCommandP p, responseP p]"
    and "linkP p \<noteq> usedLinkP p" "commandP p \<noteq> usedCommandP p" "workToDo p"
  shows "let p1 = prov_round P p; p2 = prov_round P p1
    in workToDo p1 \<and> relP p1 = RelPtr u \<and> linkP p1 = usedLinkP p \<and> commandP p1 = usedCommandP p
      \<and> {u, usedLinkP p, usedCommandP p} \<inter> blocks (p_s p1) = {}
      \<and> r_faults (p_s p1) = r_faults (p_s p) \<and> length (r_faults (p_s p1)) < length (r_faults (p_s p2))"
proof -
  note r = repeat_step [OF assms]
  define p1 where "p1 = prov_round P p"
  have "heap_ok (p_s p)" using assms(6) by (simp add: holds_def)
  from free_all_blocks [OF this] have "{u, usedLinkP p, usedCommandP p} \<inter> blocks (p_s p1) = {}"
    unfolding p1_def r(1) by (simp del: free_all_simps)
  moreover have "relP p1 = RelPtr u" "linkP p1 = usedLinkP p" "commandP p1 = usedCommandP p" "workToDo p1"
    using assms(9) by (simp_all add: p1_def r(1) del: free_all_simps)
  moreover have "length (r_faults (p_s p1)) < length (r_faults (p_s (prov_round P p1)))"
    by (rule freed_relation_faults) (use calculation assms(4) in auto)
  ultimately show ?thesis using r(2) [of P] by (simp add: p1_def [symmetric] Let_def)
qed

section \<open>Witnesses\<close>

text \<open>An engine that gets nothing but empty answers, and a dialogue asked to repeat its last step.\<close>

definition calm_engine :: pworld where
  "calm_engine = \<lparr>pw_world = calm_world,
     pw_sysInfo = (\<lambda>s. (0, [], s)),
     pw_getVersion = (\<lambda>s. (0, 0, [], s)),
     pw_buildTltRequest = (\<lambda>tlt s. (0, 0, s)),
     pw_buildSystemInfo = (\<lambda>tag v os s. (0, 0, s)),
     pw_handleXml = (\<lambda>c s. (0, 0, s))\<rparr>"

lemma calm_engine_contract: "engine_contract calm_engine 100"
  by (simp add: engine_contract_def calm_engine_def calm_world_def orderly_def answers_def extends_refl fresh_str_def
      cstring_null apart_def)


text \<open>An engine on a device without memory: the link is NULL, so the first exchange fails.\<close>

definition starved_engine :: pworld where
  "starved_engine = calm_engine\<lparr>pw_world := calm_world\<lparr>rw_malloc := (\<lambda>ev n. None)\<rparr>\<rparr>"

lemma null_link_ends:
  assumes "linkP p = 0" "relP p = RelInitialPost"
  shows "\<not> workToDo (prov_round P p)"
proof -
  have "strstr RELATION_INITIAL_POST RELATION_SELF = None" "strstr RELATION_INITIAL_POST RELATION_SYSTEMINFO = None"
    "strstr RELATION_INITIAL_POST RELATION_INITIAL_DELETE = None" "strstr RELATION_INITIAL_POST RELATION_INITIAL_POST \<noteq> None"
    by code_simp+
  then have "has_rel s RelInitialPost RELATION_SELF = False" "has_rel s RelInitialPost RELATION_SYSTEMINFO = False"
    "has_rel s RelInitialPost RELATION_INITIAL_DELETE = False" "has_rel s RelInitialPost RELATION_INITIAL_POST = True" for s
    by (simp_all add: has_rel_def rel_text_def)
  then show ?thesis
    using assms
    by (simp add: prov_round_def round_other_def read_rel_def httpPostAndReceiveCommand_def httpCommunicate_def
        round_http_def take_answer_def fail_def Let_def round_end_work)
qed

theorem dialogue_reports_witness:
  "case doProvisioningWithSe starved_engine 0 [] InitialRel_POST None rstart of
     None \<Rightarrow> False
   | Some t \<Rightarrow> \<exists>e\<in>set (r_ev t). e = Callback FINISHED_PROVISIONING ROOTPA_OK \<or> (\<exists>ret. e = Callback ERROR ret \<and> ret \<noteq> ROOTPA_OK)"
proof -
  let ?p = "prov_start starved_engine 0 [] InitialRel_POST None rstart"
  have "linkP ?p = 0 \<and> relP ?p = RelInitialPost \<and> workToDo ?p"
    by (simp add: prov_start_def starved_engine_def calm_world_def calm_engine_def createBasicLink_def malloc_def Let_def
        openSeClientAndInit_def factoryResetAssumed_def reg_wrappers regRead_def)
  moreover from this have "\<not> workToDo (prov_round starved_engine ?p)" by (intro null_link_ends) simp_all
  ultimately have "workToDo ?p" "doProvisioningWithSe starved_engine 0 [] InitialRel_POST None rstart
      = Some (prov_finish (prov_round starved_engine ?p))"
    by (simp_all add: doProvisioningWithSe_def while_option_unfold [of workToDo "prov_round starved_engine"])
  then show ?thesis using dialogue_reports [of starved_engine 0 "[]" InitialRel_POST None rstart] by simp
qed

definition repeat_state :: prov where
  "repeat_state = \<lparr>p_s = rstart\<lparr>r_heap := [(1, [104, 0]), (2, RELATION_SELF @ [0]), (3, [0]), (4, [104, 0]), (5, RELATION_NEXT @ [0]), (6, [0])],
       r_next := 7\<rparr>,
     p_ret = 0, workToDo = True, linkP = 1, relP = RelPtr 2, commandP = 3, responseP = 0,
     pendingLinkP = 0, pendingRelP = NoRel, usedLinkP = 4, usedRelP = RelPtr 5, usedCommandP = 6\<rparr>"

theorem repeat_uses_freed_strings_witness:
  "let p1 = prov_round calm_engine repeat_state; p2 = prov_round calm_engine p1
   in relP p1 = RelPtr 5 \<and> 5 \<notin> blocks (p_s p1) \<and> r_faults (p_s p1) = [] \<and> r_faults (p_s p2) \<noteq> []"
proof -
  have "\<not> no_self (cstring (p_s repeat_state) 2)" "no_self (cstring (p_s repeat_state) 5)" by code_simp+
  moreover have "holds (p_s repeat_state) [1, 2, 3, 4, 5, 6, 0]"
    by (auto simp: holds_def repeat_state_def rstart_def heap_ok_def blocks_def apart_def is_cstr_def hblock_def)
  moreover have "linkP repeat_state = 1" "relP repeat_state = RelPtr 2" "commandP repeat_state = 3" "responseP repeat_state = 0"
    "usedLinkP repeat_state = 4" "usedRelP repeat_state = RelPtr 5" "usedCommandP repeat_state = 6" "workToDo repeat_state"
    "r_faults (p_s repeat_state) = []"
    by (simp_all add: repeat_state_def rstart_def)
  ultimately show ?thesis using repeat_uses_freed_strings [of repeat_state 2 5 calm_engine] by (auto simp: Let_def)
qed

end
