(* ===== verification/FileSystem.thy ===== *)
theory FileSystem
  imports TrustletSession RootpaEnv
begin

text \<open>
  The file system as the registry of the daemon sees it: files and directories by their path. The
  calls are those of the C library and of POSIX the registry makes. Whether the system refuses a
  call, and how much of a write reaches the file, is up to the environment; a state counts its calls
  so that an environment may answer the same call differently at different times.
\<close>

section \<open>State and environment\<close>

datatype node = File "u8 list" | Dir

datatype fop =
    OpenRead string
  | OpenWrite string
  | OpenNew string
  | Remove string
  | Rename string string
  | Rmdir string
  | Mkdir string
  | Opendir string
  | Malloc nat
  | Mmap string

text \<open>
  \<open>rg_deny\<close>: the call fails although its conditions hold. \<open>rg_lost\<close>: how many bytes at the end of a
  write are lost (the code does not look at the result of \<^verbatim>\<open>fwrite\<close>). \<open>rg_stale\<close>: what is in memory
  behind a buffer. \<open>rg_env\<close>: the environment variable \<^verbatim>\<open>MC_AUTH_TOKEN_PATH\<close>.
\<close>

record rgworld =
  rg_ps :: nat
  rg_env :: "string option"
  rg_deny :: "nat \<Rightarrow> fop \<Rightarrow> bool"
  rg_lost :: "nat \<Rightarrow> nat"
  rg_stale :: "nat \<Rightarrow> u8"

text \<open>\<open>rg_faults\<close> are the accesses outside a buffer: the end of the access and the size of the buffer.\<close>

record rgstate =
  rg_files :: "(string \<times> node) list"
  rg_time :: nat
  rg_faults :: "(nat \<times> nat) list"

section \<open>Paths to nodes\<close>

definition fs_get :: "rgstate \<Rightarrow> string \<Rightarrow> node option" where
  "fs_get s p = map_of (rg_files s) p"

definition tree_put :: "string \<Rightarrow> node \<Rightarrow> (string \<times> node) list \<Rightarrow> (string \<times> node) list" where
  "tree_put p n t = (p, n) # erase_at fst p t"

lemma map_of_tree_erase: "map_of (erase_at fst p t) q = (if q = p then None else map_of t q)"
  by (induction t) auto

interpretation tree: keyed_store map_of tree_put "\<lambda>p t. erase_at fst p t" "\<lambda>t. True"
  by unfold_locales (auto simp: tree_put_def map_of_tree_erase)

definition fs_put :: "string \<Rightarrow> node \<Rightarrow> rgstate \<Rightarrow> rgstate" where
  "fs_put p n s = s\<lparr>rg_files := tree_put p n (rg_files s)\<rparr>"

definition fs_erase :: "string \<Rightarrow> rgstate \<Rightarrow> rgstate" where
  "fs_erase p s = s\<lparr>rg_files := erase_at fst p (rg_files s)\<rparr>"

lemma fs_get_put [simp]: "fs_get (fs_put p n s) q = (if q = p then Some n else fs_get s q)"
  by (simp add: fs_get_def fs_put_def tree.find_put)

lemma fs_get_erase [simp]: "fs_get (fs_erase p s) q = (if q = p then None else fs_get s q)"
  by (simp add: fs_get_def fs_erase_def tree.find_erase)

lemma fs_get_fields [simp]:
  "fs_get (s\<lparr>rg_time := t\<rparr>) q = fs_get s q" "fs_get (s\<lparr>rg_faults := f\<rparr>) q = fs_get s q"
  by (simp_all add: fs_get_def)

definition is_dir :: "rgstate \<Rightarrow> string \<Rightarrow> bool" where
  "is_dir s p = (fs_get s p = Some Dir)"

definition slash :: char where "slash = CHR 0x2F"

definition parent :: "string \<Rightarrow> string" where
  "parent p = rev (tl (dropWhile (\<lambda>c. c \<noteq> slash) (rev p)))"

text \<open>The names in a directory, in the order in which the environment lists them.\<close>

definition entry_of :: "string \<Rightarrow> string \<Rightarrow> string option" where
  "entry_of d p =
     (let n = drop (length d + 1) p
      in if take (length d + 1) p = d @ [slash] \<and> n \<noteq> [] \<and> slash \<notin> set n then Some n else None)"

definition names_in :: "rgstate \<Rightarrow> string \<Rightarrow> string list" where
  "names_in s d = List.map_filter (\<lambda>e. entry_of d (fst e)) (rg_files s)"

section \<open>Calls\<close>

definition call :: "rgworld \<Rightarrow> fop \<Rightarrow> rgstate \<Rightarrow> bool \<times> rgstate" where
  "call W op s = (\<not> rg_deny W (rg_time s) op, s\<lparr>rg_time := rg_time s + 1\<rparr>)"

text \<open>Opening a file to read it; the result is its content.\<close>

definition open_rb :: "rgworld \<Rightarrow> string \<Rightarrow> rgstate \<Rightarrow> u8 list option \<times> rgstate" where
  "open_rb W p s =
     (let (ok, s) = call W (OpenRead p) s
      in (if ok then case fs_get s p of Some (File c) \<Rightarrow> Some c | _ \<Rightarrow> None else None, s))"

text \<open>Opening a file with \<^verbatim>\<open>"wb"\<close>, writing the bytes, flushing and closing it.\<close>

definition write_file :: "rgworld \<Rightarrow> string \<Rightarrow> u8 list \<Rightarrow> rgstate \<Rightarrow> bool \<times> rgstate" where
  "write_file W p bs s =
     (let (ok, s) = call W (OpenWrite p) s in
      if ok \<and> is_dir s (parent p) \<and> \<not> is_dir s p
      then (True, fs_put p (File (take (length bs - rg_lost W (rg_time s)) bs)) s)
      else (False, s))"

text \<open>Removing a file or an empty directory (\<^verbatim>\<open>remove\<close>), and an empty directory only (\<^verbatim>\<open>rmdir\<close>).\<close>

definition remove_path :: "rgworld \<Rightarrow> string \<Rightarrow> rgstate \<Rightarrow> bool \<times> rgstate" where
  "remove_path W p s =
     (let (ok, s) = call W (Remove p) s in
      if ok \<and> (case fs_get s p of Some (File c) \<Rightarrow> True | Some Dir \<Rightarrow> names_in s p = [] | None \<Rightarrow> False)
      then (True, fs_erase p s) else (False, s))"

definition rmdir_path :: "rgworld \<Rightarrow> string \<Rightarrow> rgstate \<Rightarrow> bool \<times> rgstate" where
  "rmdir_path W p s =
     (let (ok, s) = call W (Rmdir p) s in
      if ok \<and> is_dir s p \<and> names_in s p = [] then (True, fs_erase p s) else (False, s))"

definition mkdir_path :: "rgworld \<Rightarrow> string \<Rightarrow> rgstate \<Rightarrow> bool \<times> rgstate" where
  "mkdir_path W p s =
     (let (ok, s) = call W (Mkdir p) s in
      if ok \<and> is_dir s (parent p) \<and> fs_get s p = None then (True, fs_put p Dir s) else (False, s))"

definition opendir_path :: "rgworld \<Rightarrow> string \<Rightarrow> rgstate \<Rightarrow> string list option \<times> rgstate" where
  "opendir_path W p s =
     (let (ok, s) = call W (Opendir p) s in (if ok \<and> is_dir s p then Some (names_in s p) else None, s))"

text \<open>Reading and writing a buffer in memory: what lies outside it is a fault.\<close>

definition rd :: "rgworld \<Rightarrow> u8 list \<Rightarrow> nat \<Rightarrow> nat \<Rightarrow> rgstate \<Rightarrow> u8 list \<times> rgstate" where
  "rd W buf off n s =
     (map (\<lambda>i. if off + i < length buf then buf ! (off + i) else rg_stale W (off + i)) [0..<n],
      if off + n \<le> length buf then s else s\<lparr>rg_faults := (off + n, length buf) # rg_faults s\<rparr>)"

definition wr :: "nat \<Rightarrow> u8 list \<Rightarrow> u8 list \<Rightarrow> rgstate \<Rightarrow> u8 list \<times> rgstate" where
  "wr off bs buf s =
     (splice_at off bs buf,
      if off + length bs \<le> length buf then s else s\<lparr>rg_faults := (off + length bs, length buf) # rg_faults s\<rparr>)"

section \<open>What the calls change\<close>

text \<open>No call but the one on a path changes what is there.\<close>

lemma call_simps [simp]:
  "fs_get (snd (call W op s)) = fs_get s" "rg_faults (snd (call W op s)) = rg_faults s"
  "names_in (snd (call W op s)) d = names_in s d" "rg_files (snd (call W op s)) = rg_files s"
  by (simp_all add: call_def fun_eq_iff names_in_def)

lemma open_rb_spec:
  assumes "open_rb W p s = (c, t)"
  shows "fs_get t = fs_get s" "rg_faults t = rg_faults s" "rg_files t = rg_files s"
    "c = Some b \<Longrightarrow> fs_get s p = Some (File b)"
  using assms by (auto simp: open_rb_def call_def fun_eq_iff Let_def split: option.splits node.splits if_splits)

lemma write_file_spec:
  assumes "write_file W p bs s = (ok, t)"
  shows "fs_get t = (if ok then (fs_get s)(p \<mapsto> File (take (length bs - rg_lost W (rg_time s + 1)) bs)) else fs_get s)"
    "rg_faults t = rg_faults s"
  using assms by (auto simp: write_file_def call_def fun_eq_iff Let_def fs_put_def fs_get_def tree.find_put split: if_splits)

lemma remove_path_spec:
  assumes "remove_path W p s = (ok, t)"
  shows "fs_get t = (if ok then (fs_get s)(p := None) else fs_get s)" "rg_faults t = rg_faults s"
    "ok \<Longrightarrow> fs_get s p \<noteq> None"
  using assms
  by (auto simp: remove_path_def call_def fun_eq_iff Let_def fs_erase_def fs_get_def tree.find_erase
      split: if_splits option.splits)

lemma rmdir_path_spec:
  assumes "rmdir_path W p s = (ok, t)"
  shows "fs_get t = (if ok then (fs_get s)(p := None) else fs_get s)" "rg_faults t = rg_faults s"
  using assms
  by (auto simp: rmdir_path_def call_def fun_eq_iff Let_def fs_erase_def fs_get_def tree.find_erase split: if_splits)

lemma mkdir_path_spec:
  assumes "mkdir_path W p s = (ok, t)"
  shows "fs_get t = (if ok then (fs_get s)(p \<mapsto> Dir) else fs_get s)" "rg_faults t = rg_faults s"
    "ok \<Longrightarrow> fs_get s p = None"
  using assms
  by (auto simp: mkdir_path_def call_def fun_eq_iff Let_def fs_put_def fs_get_def tree.find_put split: if_splits)

lemma opendir_path_spec:
  assumes "opendir_path W p s = (ns, t)"
  shows "fs_get t = fs_get s" "rg_faults t = rg_faults s" "rg_files t = rg_files s"
    "ns = Some xs \<Longrightarrow> xs = names_in s p"
  using assms by (auto simp: opendir_path_def call_def fun_eq_iff Let_def names_in_def split: if_splits)

lemma entry_of_path:
  "entry_of d p = Some n \<Longrightarrow> p = d @ [slash] @ n \<and> n \<noteq> [] \<and> slash \<notin> set n"
  by (auto simp: entry_of_def Let_def split: if_splits) (metis append_Cons append_assoc append_eq_conv_conj append_Nil append_take_drop_id)

lemma set_map_filter: "set (List.map_filter f xs) = {y. \<exists>x\<in>set xs. f x = Some y}"
  by (induction xs) (auto simp: List.map_filter_simps split: option.splits)

lemma entry_of_iff: "entry_of d p = Some n \<longleftrightarrow> p = d @ [slash] @ n \<and> n \<noteq> [] \<and> slash \<notin> set n"
  using entry_of_path [of d p n] by (auto simp: entry_of_def)

lemma names_in_member: "n \<in> set (names_in s d) \<longleftrightarrow> n \<noteq> [] \<and> slash \<notin> set n \<and> fs_get s (d @ [slash] @ n) \<noteq> None"
proof -
  have "n \<in> set (names_in s d) \<longleftrightarrow> (\<exists>e\<in>set (rg_files s). fst e = d @ [slash] @ n \<and> n \<noteq> [] \<and> slash \<notin> set n)"
    by (simp add: names_in_def set_map_filter entry_of_iff)
  also have "\<dots> \<longleftrightarrow> n \<noteq> [] \<and> slash \<notin> set n \<and> d @ [slash] @ n \<in> fst ` set (rg_files s)" by force
  also have "\<dots> \<longleftrightarrow> n \<noteq> [] \<and> slash \<notin> set n \<and> fs_get s (d @ [slash] @ n) \<noteq> None"
    by (simp add: fs_get_def map_of_eq_None_iff)
  finally show ?thesis .
qed

end
