(* ===== verification/Registry.thy ===== *)
theory Registry
  imports FileSystem
begin

text \<open>
  The registry of the daemon (\<^verbatim>\<open>Registry/PrivateRegistry.cpp\<close>): containers of the root, of service
  providers and of trusted applications, secure data and binaries, each in a file of its own. The
  name of the file is made from the identifiers of the container. Deleting a container deletes the
  containers below it, whose identifiers the container lists.
\<close>

section \<open>Codes and limits\<close>

abbreviation (input) MC_DRV_ERR_OUT_OF_RESOURCES :: u32 where "MC_DRV_ERR_OUT_OF_RESOURCES \<equiv> 4"
abbreviation (input) MC_DRV_ERR_TA_HEADER_ERROR :: u32 where "MC_DRV_ERR_TA_HEADER_ERROR \<equiv> 0x21"
abbreviation (input) MC_DRV_ERR_TA_ATTESTATION_ERROR :: u32 where "MC_DRV_ERR_TA_ATTESTATION_ERROR \<equiv> 0x22"
abbreviation (input) MAX_TL_SIZE :: nat where "MAX_TL_SIZE \<equiv> 1048576"
abbreviation (input) MAX_SO_CONT_SIZE :: nat where "MAX_SO_CONT_SIZE \<equiv> 512"
abbreviation (input) MC_SPID_FREE :: u32 where "MC_SPID_FREE \<equiv> 0xFFFFFFFF"
abbreviation (input) MC_SPID_SYSTEM :: u32 where "MC_SPID_SYSTEM \<equiv> 0xFFFFFFFE"
abbreviation (input) CONT_TYPE_SPDATA :: u32 where "CONT_TYPE_SPDATA \<equiv> 4"
abbreviation (input) CONT_TYPE_TLDATA :: u32 where "CONT_TYPE_TLDATA \<equiv> 5"
abbreviation (input) SERVICE_TYPE_DRIVER :: u32 where "SERVICE_TYPE_DRIVER \<equiv> 1"
abbreviation (input) SERVICE_TYPE_SP_TRUSTLET :: u32 where "SERVICE_TYPE_SP_TRUSTLET \<equiv> 2"
abbreviation (input) SERVICE_TYPE_SYSTEM_TRUSTLET :: u32 where "SERVICE_TYPE_SYSTEM_TRUSTLET \<equiv> 3"
abbreviation (input) MC_SERVICE_HEADER_MAGIC_BE :: u32 where "MC_SERVICE_HEADER_MAGIC_BE \<equiv> 0x464C434D"
abbreviation (input) MC_TLBLOBLEN_MAGIC :: u32 where "MC_TLBLOBLEN_MAGIC \<equiv> 0x7672746C"
abbreviation (input) AT_VERSION :: u32 where "AT_VERSION \<equiv> 1"

definition MC_MAKE_VERSION :: "u32 \<Rightarrow> u32 \<Rightarrow> u32" where
  "MC_MAKE_VERSION major minor = push_bit 16 (major AND 0xffff) OR (minor AND 0xffff)"

definition MC_UUID_FREE :: "u8 list" where "MC_UUID_FREE = replicate 16 0xFF"

text \<open>The eight bytes \<^verbatim>\<open>"TAUUID\0"\<close> of the array \<^verbatim>\<open>MAGIC\<close>.\<close>

definition MAGIC :: "u8 list" where "MAGIC = [0x54, 0x41, 0x55, 0x55, 0x49, 0x44, 0, 0]"

section \<open>Structures (mcLoadFormat.h, mcContainer.h, uuid\_attestation.h)\<close>

definition segmentDescriptor_t :: "nat \<Rightarrow> ctype" where
  "segmentDescriptor_t w = Struct [(''start'', Ptr w), (''len'', U32)]"

definition mclfIntro_t :: ctype where
  "mclfIntro_t = Struct [(''magic'', U32), (''version'', U32)]"

definition mclfHeaderV2_t :: "nat \<Rightarrow> ctype" where
  "mclfHeaderV2_t w = Struct
     [(''intro'', mclfIntro_t), (''flags'', U32), (''memType'', U32), (''serviceType'', U32),
      (''numInstances'', U32), (''uuid'', mcUuid_t), (''driverId'', U32), (''numThreads'', U32),
      (''text'', segmentDescriptor_t w), (''data'', segmentDescriptor_t w), (''bssLen'', U32),
      (''entry'', Ptr w), (''serviceVersion'', U32)]"

definition mclfHeaderV23_t :: "nat \<Rightarrow> ctype" where
  "mclfHeaderV23_t w = Struct
     [(''mclfHeaderV2'', mclfHeaderV2_t w), (''permittedSuid'', mcSuid_t), (''permittedHwCfg'', U32)]"

definition mclfHeaderV24_t :: "nat \<Rightarrow> ctype" where
  "mclfHeaderV24_t w = Struct
     [(''mclfHeaderV2'', mclfHeaderV23_t w), (''gp_level'', U32), (''attestationOffset'', U32)]"

definition mcBlobLenInfo_t :: ctype where
  "mcBlobLenInfo_t = Struct
     [(''magic'', U32), (''rootContBlobSize'', U32), (''spContBlobSize'', U32), (''tlContBlobSize'', U32),
      (''reserved'', Arr 4 U32)]"

text \<open>The two 16-bit fields of the public key are given as byte arrays; the key material has no size.\<close>

definition uuid_public_key :: ctype where
  "uuid_public_key = Struct [(''type'', U32), (''modulus_bytes'', Arr 2 U8), (''exponent_bytes'', Arr 2 U8)]"

definition uuid_attestation :: ctype where
  "uuid_attestation = Struct
     [(''magic'', Arr 8 U8), (''size'', U32), (''version'', U32), (''uuid'', Arr 16 U8), (''key'', uuid_public_key)]"

text \<open>The size of a secure object, its lengths being 32-bit numbers whose sum may wrap around.\<close>

definition SO_SIZE :: "u32 \<Rightarrow> u32 \<Rightarrow> nat" where
  "SO_SIZE plainLen encryptedLen =
     (if plainLen + encryptedLen < encryptedLen \<or> 1000000 < plainLen + encryptedLen then 0
      else csize mcSoHeader_t + unat plainLen + unat encryptedLen + 32 + 16)"

definition getAsUint32BE :: "u8 list \<Rightarrow> u32" where
  "getAsUint32BE p = le32 (rev (take 4 p)) 0"

section \<open>File names\<close>

definition byteArrayToString :: "u8 list \<Rightarrow> string" where
  "byteArrayToString bytes =
     concat (map (\<lambda>b. [''0123456789abcdef'' ! (unat b div 16), ''0123456789abcdef'' ! (unat b mod 16)]) bytes)"

text \<open>\<^verbatim>\<open>%08X\<close>, in reverse.\<close>

definition uint32ToString :: "u32 \<Rightarrow> string" where
  "uint32ToString value = map (\<lambda>i. ''0123456789ABCDEF'' ! (unat value div 16 ^ i mod 16)) [0..<8]"

definition MC_REGISTRY_CONTAINER_PATH :: string where "MC_REGISTRY_CONTAINER_PATH = ''/data/app/mcRegistry''"
definition MC_REGISTRY_DEFAULT_PATH :: string where "MC_REGISTRY_DEFAULT_PATH = ''/system/app/mcRegistry''"
definition MC_REGISTRY_FALLBACK_PATH :: string where "MC_REGISTRY_FALLBACK_PATH = ''/data/app/mcRegistry''"
definition AUTH_TOKEN_FILE_NAME :: string where "AUTH_TOKEN_FILE_NAME = ''00000000.authtokcont''"
definition ROOT_FILE_NAME :: string where "ROOT_FILE_NAME = ''00000000.rootcont''"

definition getRegistryPath :: string where "getRegistryPath = MC_REGISTRY_CONTAINER_PATH"

definition getTlRegistryPath :: "rgstate \<Rightarrow> string" where
  "getTlRegistryPath s =
     (if is_dir s MC_REGISTRY_DEFAULT_PATH then MC_REGISTRY_DEFAULT_PATH
      else if is_dir s MC_REGISTRY_FALLBACK_PATH then MC_REGISTRY_FALLBACK_PATH
      else MC_REGISTRY_CONTAINER_PATH)"

definition getAuthTokenFilePath :: "rgworld \<Rightarrow> rgstate \<Rightarrow> string" where
  "getAuthTokenFilePath W s =
     (case rg_env W of
        Some path \<Rightarrow> if is_dir s path then path else getRegistryPath
      | None \<Rightarrow> getRegistryPath) @ ''/'' @ AUTH_TOKEN_FILE_NAME"

definition getRootContFilePath :: string where
  "getRootContFilePath = getRegistryPath @ ''/'' @ ROOT_FILE_NAME"

definition getSpDataPath :: "u32 \<Rightarrow> string" where
  "getSpDataPath spid = getRegistryPath @ ''/'' @ uint32ToString spid"

definition getSpContFilePath :: "u32 \<Rightarrow> string" where
  "getSpContFilePath spid = getRegistryPath @ ''/'' @ uint32ToString spid @ ''.spcont''"

definition getTlContFilePath :: "u8 list \<Rightarrow> u32 \<Rightarrow> string" where
  "getTlContFilePath uuid spid =
     getRegistryPath @ ''/'' @ byteArrayToString uuid @ ''.'' @ uint32ToString spid @ ''.tlcont''"

definition getTlDataPath :: "u8 list \<Rightarrow> string" where
  "getTlDataPath uuid = getRegistryPath @ ''/'' @ byteArrayToString uuid"

definition getTlDataFilePath :: "u8 list \<Rightarrow> u32 \<Rightarrow> string" where
  "getTlDataFilePath uuid pid = getTlDataPath uuid @ ''/'' @ uint32ToString pid @ ''.datacont''"

definition getTlBinFilePath :: "rgstate \<Rightarrow> u8 list \<Rightarrow> string" where
  "getTlBinFilePath s uuid = getTlRegistryPath s @ ''/'' @ byteArrayToString uuid @ ''.tlbin''"

definition getTABinFilePath :: "rgstate \<Rightarrow> u8 list \<Rightarrow> string" where
  "getTABinFilePath s uuid = getTlRegistryPath s @ ''/'' @ byteArrayToString uuid @ ''.tabin''"

definition getTASpidFilePath :: "rgstate \<Rightarrow> u8 list \<Rightarrow> string" where
  "getTASpidFilePath s uuid = getTlRegistryPath s @ ''/'' @ byteArrayToString uuid @ ''.spid''"

section \<open>Storing and reading containers\<close>

text \<open>
  The object is given with its size; \<open>None\<close> is NULL. The four functions that store a container
  share their last part, and so do the three that read one into a buffer of \<open>sz\<close> bytes.
\<close>

definition store_so :: "rgworld \<Rightarrow> string \<Rightarrow> u8 list \<Rightarrow> rgstate \<Rightarrow> u32 \<times> rgstate" where
  "store_so W path so s =
     (let (ok, s) = write_file W path so s in (if ok then MC_DRV_OK else MC_DRV_ERR_INVALID_DEVICE_FILE, s))"

definition read_so :: "rgworld \<Rightarrow> string \<Rightarrow> nat \<Rightarrow> rgstate \<Rightarrow> u32 \<times> u8 list \<times> rgstate" where
  "read_so W path sz s =
     (let (c, s) = open_rb W path s in
      case c of
        None \<Rightarrow> (MC_DRV_ERR_INVALID_DEVICE_FILE, [], s)
      | Some bytes \<Rightarrow>
          let so = take sz bytes
          in (if so \<noteq> [] then MC_DRV_OK else MC_DRV_ERR_INVALID_DEVICE_FILE, so, s))"

definition mcRegistryStoreAuthToken :: "rgworld \<Rightarrow> u8 list option \<Rightarrow> rgstate \<Rightarrow> u32 \<times> rgstate" where
  "mcRegistryStoreAuthToken W so s =
     (case so of
        None \<Rightarrow> (MC_DRV_ERR_INVALID_PARAMETER, s)
      | Some so \<Rightarrow>
          if 3 * MAX_SO_CONT_SIZE < length so then (MC_DRV_ERR_INVALID_PARAMETER, s)
          else store_so W (getAuthTokenFilePath W s) so s)"

definition mcRegistryReadAuthToken :: "rgworld \<Rightarrow> rgstate \<Rightarrow> u32 \<times> u8 list \<times> rgstate" where
  "mcRegistryReadAuthToken W s =
     (let (c, s) = open_rb W (getAuthTokenFilePath W s) s in
      case c of
        None \<Rightarrow> (MC_DRV_ERR_INVALID_DEVICE_FILE, [], s)
      | Some so \<Rightarrow>
          if csize mcSoAuthTokenCont_t \<noteq> length so then (MC_DRV_ERR_OUT_OF_RESOURCES, [], s)
          else (MC_DRV_OK, so, s))"

definition mcRegistryDeleteAuthToken :: "rgworld \<Rightarrow> rgstate \<Rightarrow> u32 \<times> rgstate" where
  "mcRegistryDeleteAuthToken W s =
     (let (ok, s) = remove_path W (getAuthTokenFilePath W s) s in (if ok then MC_DRV_OK else MC_DRV_ERR_UNKNOWN, s))"

definition mcRegistryStoreRoot :: "rgworld \<Rightarrow> u8 list option \<Rightarrow> rgstate \<Rightarrow> u32 \<times> rgstate" where
  "mcRegistryStoreRoot W so s =
     (case so of
        None \<Rightarrow> (MC_DRV_ERR_INVALID_PARAMETER, s)
      | Some so \<Rightarrow>
          if 3 * MAX_SO_CONT_SIZE < length so then (MC_DRV_ERR_INVALID_PARAMETER, s)
          else store_so W getRootContFilePath so s)"

definition mcRegistryReadRoot :: "rgworld \<Rightarrow> nat \<Rightarrow> rgstate \<Rightarrow> u32 \<times> u8 list \<times> rgstate" where
  "mcRegistryReadRoot W sz s = read_so W getRootContFilePath sz s"

definition mcRegistryStoreSp :: "rgworld \<Rightarrow> u32 \<Rightarrow> u8 list option \<Rightarrow> rgstate \<Rightarrow> u32 \<times> rgstate" where
  "mcRegistryStoreSp W spid so s =
     (case so of
        None \<Rightarrow> (MC_DRV_ERR_INVALID_PARAMETER, s)
      | Some so \<Rightarrow>
          if spid = 0 \<or> 3 * MAX_SO_CONT_SIZE < length so then (MC_DRV_ERR_INVALID_PARAMETER, s)
          else store_so W (getSpContFilePath spid) so s)"

definition mcRegistryReadSp :: "rgworld \<Rightarrow> u32 \<Rightarrow> nat \<Rightarrow> rgstate \<Rightarrow> u32 \<times> u8 list \<times> rgstate" where
  "mcRegistryReadSp W spid sz s =
     (if spid = 0 then (MC_DRV_ERR_INVALID_PARAMETER, [], s) else read_so W (getSpContFilePath spid) sz s)"

definition mcRegistryStoreTrustletCon :: "rgworld \<Rightarrow> u8 list \<Rightarrow> u32 \<Rightarrow> u8 list option \<Rightarrow> rgstate \<Rightarrow> u32 \<times> rgstate" where
  "mcRegistryStoreTrustletCon W uuid spid so s =
     (case so of
        None \<Rightarrow> (MC_DRV_ERR_INVALID_PARAMETER, s)
      | Some so \<Rightarrow>
          if 3 * MAX_SO_CONT_SIZE < length so then (MC_DRV_ERR_INVALID_PARAMETER, s)
          else store_so W (getTlContFilePath uuid spid) so s)"

definition mcRegistryReadTrustletCon :: "rgworld \<Rightarrow> u8 list \<Rightarrow> u32 \<Rightarrow> nat \<Rightarrow> rgstate \<Rightarrow> u32 \<times> u8 list \<times> rgstate" where
  "mcRegistryReadTrustletCon W uuid spid sz s = read_so W (getTlContFilePath uuid spid) sz s"

section \<open>Binaries\<close>

abbreviation (input) hdr_off :: "rgworld \<Rightarrow> string \<Rightarrow> nat" where
  "hdr_off W f \<equiv> offsetof (mclfHeaderV2_t (rg_ps W)) [f]"

definition mclf_word :: "u8 list \<Rightarrow> nat \<Rightarrow> u32" where "mclf_word blob off = le32 blob off"

text \<open>
  Which identifier a TA blob is stored under: the one in the header for a system application, the
  attested one for an application of a service provider; or an error.
\<close>

definition ta_blob_uuid :: "rgworld \<Rightarrow> u32 \<Rightarrow> u8 list \<Rightarrow> rgstate \<Rightarrow> (u32 + u8 list) \<times> rgstate" where
  "ta_blob_uuid W spid blob s =
     (let service = mclf_word blob (hdr_off W ''serviceType'') in
      if service = SERVICE_TYPE_SYSTEM_TRUSTLET then
        if spid \<noteq> MC_SPID_SYSTEM then (Inl MC_DRV_ERR_INVALID_PARAMETER, s)
        else let (uuid, s) = rd W blob (hdr_off W ''uuid'') 16 s in (Inr uuid, s)
      else if service = SERVICE_TYPE_SP_TRUSTLET then
        if MC_SPID_SYSTEM \<le> spid then (Inl MC_DRV_ERR_INVALID_PARAMETER, s)
        else
          let att = mclf_word blob (offsetof (mclfHeaderV24_t (rg_ps W)) [''attestationOffset'']);
              field = (\<lambda>f n s. rd W blob (unat att + offsetof uuid_attestation [f]) n s);
              (early, s) = (if of_nat (length blob) < att
                            then let (b, s) = field ''size'' 4 s in (of_nat (length blob) < att + getAsUint32BE b, s)
                            else (False, s)) in
          if early then (Inl MC_DRV_ERR_TA_HEADER_ERROR, s)
          else
            let (sz, s) = field ''size'' 4 s in
            if getAsUint32BE sz < of_nat (csize uuid_attestation) then (Inl MC_DRV_ERR_TA_ATTESTATION_ERROR, s)
            else
              let (magic, s) = field ''magic'' 8 s in
              if magic \<noteq> MAGIC then (Inl MC_DRV_ERR_TA_ATTESTATION_ERROR, s)
              else
                let (version, s) = field ''version'' 4 s in
                if getAsUint32BE version \<noteq> AT_VERSION then (Inl MC_DRV_ERR_TA_ATTESTATION_ERROR, s)
                else let (uuid, s) = field ''uuid'' 16 s in (Inr uuid, s)
      else (Inl MC_DRV_ERR_INVALID_PARAMETER, s))"

definition mcRegistryStoreTABlob :: "rgworld \<Rightarrow> u32 \<Rightarrow> u8 list \<Rightarrow> rgstate \<Rightarrow> u32 \<times> rgstate" where
  "mcRegistryStoreTABlob W spid blob s =
     (if length blob < csize (mclfHeaderV24_t (rg_ps W)) then (MC_DRV_ERR_INVALID_PARAMETER, s)
      else if mclf_word blob (offsetof (mclfHeaderV2_t (rg_ps W)) [''intro'', ''version'']) < MC_MAKE_VERSION 2 4
      then (MC_DRV_ERR_TA_HEADER_ERROR, s)
      else if mclf_word blob (offsetof (mclfHeaderV24_t (rg_ps W)) [''gp_level'']) \<noteq> 1
      then (MC_DRV_ERR_TA_HEADER_ERROR, s)
      else
        let (r, s) = ta_blob_uuid W spid blob s in
        case r of
          Inl err \<Rightarrow> (err, s)
        | Inr uuid \<Rightarrow>
            let (ret, s) = store_so W (getTABinFilePath s uuid) blob s in
            if ret \<noteq> MC_DRV_OK then (ret, s)
            else if mclf_word blob (hdr_off W ''serviceType'') = SERVICE_TYPE_SP_TRUSTLET
            then store_so W (getTASpidFilePath s uuid) (le_bytes 4 (ucast spid)) s
            else (MC_DRV_OK, s))"

section \<open>Secure data\<close>

definition so_lens :: "u8 list \<Rightarrow> u32 \<times> u32" where
  "so_lens so = (le32 so (offsetof mcSoDataCont_t [''soHeader'', ''plainLen'']),
                 le32 so (offsetof mcSoDataCont_t [''soHeader'', ''encryptedLen'']))"

definition data_path :: "u8 list \<Rightarrow> string \<times> string" where
  "data_path so =
     (let uuid = take 16 (drop (offsetof mcSoDataCont_t [''cont'', ''uuid'']) so);
          pid = le32 so (offsetof mcSoDataCont_t [''cont'', ''pid'', ''data''])
      in (getTlDataPath uuid, getTlDataFilePath uuid pid))"

definition mcRegistryStoreData :: "rgworld \<Rightarrow> u8 list option \<Rightarrow> rgstate \<Rightarrow> u32 \<times> rgstate" where
  "mcRegistryStoreData W so s =
     (case so of
        None \<Rightarrow> (MC_DRV_ERR_INVALID_PARAMETER, s)
      | Some dataCont \<Rightarrow>
          if length dataCont \<noteq> csize mcSoDataCont_t then (MC_DRV_ERR_INVALID_PARAMETER, s)
          else if le32 dataCont (offsetof mcSoDataCont_t [''cont'', ''type'']) \<noteq> CONT_TYPE_TLDATA
          then (MC_DRV_ERR_INVALID_PARAMETER, s)
          else
            let (pathname, filename) = data_path dataCont;
                (ok, s) = mkdir_path W pathname s in
            if \<not> ok then (MC_DRV_ERR_INVALID_PARAMETER, s)
            else
              let (plainLen, encryptedLen) = so_lens dataCont;
                  (bytes, s) = rd W dataCont 0 (SO_SIZE plainLen encryptedLen) s
              in store_so W filename bytes s)"

text \<open>
  The buffer \<open>so\<close> of \<open>maxLen\<close> bytes names the object to read; it is overwritten with what was read.
  A size of 0 for an object with illegal lengths makes the count of the second \<^verbatim>\<open>fread\<close> wrap around,
  so that it hits the end of the file.
\<close>

definition mcRegistryReadData :: "rgworld \<Rightarrow> u32 \<Rightarrow> u8 list \<Rightarrow> u32 \<Rightarrow> rgstate \<Rightarrow> u32 \<times> u8 list \<times> rgstate" where
  "mcRegistryReadData W context so maxLen s =
     (if context \<noteq> 1 then (MC_DRV_ERR_INVALID_PARAMETER, [], s)
      else
        let (c, s) = open_rb W (snd (data_path so)) s in
        case c of
          None \<Rightarrow> (MC_DRV_ERR_INVALID_DEVICE_FILE, [], s)
        | Some bytes \<Rightarrow>
            if maxLen < of_nat (length bytes) then (MC_DRV_ERR_OUT_OF_RESOURCES, [], s)
            else if length bytes < csize mcSoHeader_t then (MC_DRV_ERR_INVALID_PARAMETER, bytes, s)
            else
              let (plainLen, encryptedLen) = so_lens bytes; n = SO_SIZE plainLen encryptedLen in
              if n < csize mcSoHeader_t \<or> length bytes < n then (MC_DRV_ERR_INVALID_PARAMETER, bytes, s)
              else (MC_DRV_OK, take n bytes, s))"

section \<open>Deleting\<close>

definition getFileContent :: "rgworld \<Rightarrow> string \<Rightarrow> rgstate \<Rightarrow> u8 list \<times> rgstate" where
  "getFileContent W path s =
     (let (c, s) = open_rb W path s in
      case c of
        None \<Rightarrow> ([], s)
      | Some bytes \<Rightarrow>
          if bytes = [] then ([], s)
          else let (ok, s) = call W (Malloc (length bytes)) s in (if ok then bytes else [], s))"

definition mcCheckUuid :: "rgworld \<Rightarrow> u8 list \<Rightarrow> string \<Rightarrow> rgstate \<Rightarrow> bool \<times> rgstate" where
  "mcCheckUuid W uuid filename s =
     (let (ta, s) = getFileContent W filename s
      in (csize (mclfHeaderV24_t (rg_ps W)) \<le> length ta
          \<and> MC_MAKE_VERSION 2 4 \<le> mclf_word ta (offsetof (mclfHeaderV2_t (rg_ps W)) [''intro'', ''version''])
          \<and> take 16 (drop (hdr_off W ''uuid'') ta) = uuid, s))"

fun remove_all :: "rgworld \<Rightarrow> string list \<Rightarrow> rgstate \<Rightarrow> rgstate" where
  "remove_all W [] s = s"
| "remove_all W (p # ps) s = remove_all W ps (snd (remove_path W p s))"

text \<open>
  Removing a directory with what is in it, except hidden files; the result says whether the
  directory was there and could not be removed.
\<close>

definition clean_dir :: "rgworld \<Rightarrow> string \<Rightarrow> rgstate \<Rightarrow> bool \<times> rgstate" where
  "clean_dir W path s =
     (let (names, s) = opendir_path W path s in
      case names of
        None \<Rightarrow> (True, s)
      | Some names \<Rightarrow>
          rmdir_path W path
            (remove_all W (map (\<lambda>n. path @ ''/'' @ n) (filter (\<lambda>n. hd n \<noteq> CHR 0x2E) names)) s))"

definition CleanupGPTAStorage :: "rgworld \<Rightarrow> string \<Rightarrow> rgstate \<Rightarrow> bool \<times> rgstate" where
  "CleanupGPTAStorage W basename s = clean_dir W (getTlRegistryPath s @ ''/TbStorage/'' @ basename) s"

text \<open>The name of a file before and behind its last dot.\<close>

definition split_ext :: "string \<Rightarrow> (string \<times> string) option" where
  "split_ext name =
     (if CHR 0x2E \<in> set name then
        let ext = rev (takeWhile (\<lambda>c. c \<noteq> CHR 0x2E) (rev name))
        in Some (take (length name - length ext - 1) name, ext)
      else None)"

fun deleteSPTA_loop :: "rgworld \<Rightarrow> u8 list \<Rightarrow> u32 \<Rightarrow> bool \<Rightarrow> string list \<Rightarrow> rgstate \<Rightarrow> rgstate" where
  "deleteSPTA_loop W uuid spid checkUuid [] s = s"
| "deleteSPTA_loop W uuid spid checkUuid (n # ns) s =
     (case split_ext n of
        None \<Rightarrow> deleteSPTA_loop W uuid spid checkUuid ns s
      | Some (stem, ext) \<Rightarrow>
          if ext \<noteq> ''spid'' then deleteSPTA_loop W uuid spid checkUuid ns s
          else
            let spidFile = getRegistryPath @ ''/'' @ n;
                (c, s) = open_rb W spidFile s;
                curSpid = (case c of Some b \<Rightarrow> if 4 \<le> length b then le32 b 0 else 0 | None \<Rightarrow> 0) in
            if spid \<noteq> curSpid then deleteSPTA_loop W uuid spid checkUuid ns s
            else
              let tabinUuid = getRegistryPath @ ''/'' @ stem;
                  tabinFile = tabinUuid @ ''.tabin'';
                  (match, s) = (if checkUuid then mcCheckUuid W uuid tabinFile s else (True, s)) in
              if match then
                let (_, s) = CleanupGPTAStorage W tabinUuid s;
                    (_, s) = remove_path W tabinFile s;
                    (_, s) = remove_path W spidFile s
                in if checkUuid then s else deleteSPTA_loop W uuid spid checkUuid ns s
              else deleteSPTA_loop W uuid spid checkUuid ns s)"

definition deleteSPTA :: "rgworld \<Rightarrow> u8 list \<Rightarrow> u32 \<Rightarrow> bool \<Rightarrow> rgstate \<Rightarrow> rgstate" where
  "deleteSPTA W uuid spid checkUuid s =
     (let (names, s) = opendir_path W getRegistryPath s
      in case names of None \<Rightarrow> s | Some ns \<Rightarrow> deleteSPTA_loop W uuid spid checkUuid ns s)"

definition mcRegistryCleanupTrustlet :: "rgworld \<Rightarrow> u8 list option \<Rightarrow> u32 \<Rightarrow> rgstate \<Rightarrow> u32 \<times> rgstate" where
  "mcRegistryCleanupTrustlet W uuid spid s =
     (case uuid of
        None \<Rightarrow> (MC_DRV_ERR_INVALID_PARAMETER, s)
      | Some uuid \<Rightarrow>
          let (ok, s) = clean_dir W (getTlDataPath uuid) s in
          if \<not> ok then (MC_DRV_ERR_UNKNOWN, s)
          else
            let (_, s) = remove_path W (getTlBinFilePath s uuid) s;
                s = deleteSPTA W uuid spid True s;
                (ok, s) = remove_path W (getTlContFilePath uuid spid) s
            in (if ok then MC_DRV_OK else MC_DRV_ERR_UNKNOWN, s))"

text \<open>
  The children of a container. The test for a free entry is a \<^verbatim>\<open>strncmp\<close> with sixteen bytes \<^verbatim>\<open>0xFF\<close>,
  none of which is the terminator, so it compares them all.
\<close>

definition sp_children :: "u8 list \<Rightarrow> u8 list list" where
  "sp_children so =
     map (\<lambda>i. take 16 (drop (offsetof mcSoSpCont_t [''cont'', ''children''] + 16 * i) so)) [0..<MC_CONT_CHILDREN_COUNT]"

definition root_children :: "u8 list \<Rightarrow> u32 list" where
  "root_children so =
     map (\<lambda>i. le32 so (offsetof mcSoRootCont_t [''cont'', ''children''] + 4 * i)) [0..<MC_CONT_CHILDREN_COUNT]"

fun cleanup_tls :: "rgworld \<Rightarrow> u32 \<Rightarrow> u8 list list \<Rightarrow> rgstate \<Rightarrow> u32 \<times> rgstate" where
  "cleanup_tls W spid [] s = (MC_DRV_OK, s)"
| "cleanup_tls W spid (u # us) s =
     (if u = MC_UUID_FREE then cleanup_tls W spid us s
      else
        let (ret, s) = mcRegistryCleanupTrustlet W (Some u) spid s
        in if ret = MC_DRV_OK then cleanup_tls W spid us s else (ret, s))"

definition mcRegistryCleanupSp :: "rgworld \<Rightarrow> u32 \<Rightarrow> rgstate \<Rightarrow> u32 \<times> rgstate" where
  "mcRegistryCleanupSp W spid s =
     (if spid = 0 then (MC_DRV_ERR_INVALID_PARAMETER, s)
      else
        let (ret, so, s) = mcRegistryReadSp W spid (csize mcSoSpCont_t) s in
        if ret \<noteq> MC_DRV_OK \<or> length so \<noteq> csize mcSoSpCont_t then (ret, s)
        else
          let (ret, s) = cleanup_tls W spid (sp_children so) s in
          if ret \<noteq> MC_DRV_OK then (ret, s)
          else
            let s = deleteSPTA W [] spid False s;
                (ok, s) = clean_dir W (getSpDataPath spid) s in
            if \<not> ok then (MC_DRV_ERR_UNKNOWN, s)
            else
              let (ok, s) = remove_path W (getSpContFilePath spid) s
              in (if ok then MC_DRV_OK else MC_DRV_ERR_UNKNOWN, s))"

fun cleanup_sps :: "rgworld \<Rightarrow> u32 list \<Rightarrow> rgstate \<Rightarrow> u32 \<times> rgstate" where
  "cleanup_sps W [] s = (MC_DRV_OK, s)"
| "cleanup_sps W (spid # spids) s =
     (if spid = MC_SPID_FREE then cleanup_sps W spids s
      else
        let (ret, s) = mcRegistryCleanupSp W spid s
        in if ret = MC_DRV_OK then cleanup_sps W spids s else (ret, s))"

definition mcRegistryCleanupRoot :: "rgworld \<Rightarrow> rgstate \<Rightarrow> u32 \<times> rgstate" where
  "mcRegistryCleanupRoot W s =
     (let (ret, so, s) = mcRegistryReadRoot W (csize mcSoRootCont_t) s in
      if ret \<noteq> MC_DRV_OK \<or> length so \<noteq> csize mcSoRootCont_t then (ret, s)
      else
        let (ret, s) = cleanup_sps W (root_children so) s in
        if ret \<noteq> MC_DRV_OK then (ret, s)
        else
          let (ok, s) = remove_path W getRootContFilePath s
          in (if ok then MC_DRV_OK else MC_DRV_ERR_UNKNOWN, s))"

section \<open>Service blobs\<close>

record regObject_t =
  ro_len :: nat
  ro_tlStartOffset :: nat
  ro_value :: "u8 list"

text \<open>
  The containers behind the binary of a service provider's application: each is read into the
  buffer where the one before ended. The room left for the last one is computed from the sizes.
\<close>

definition append_containers :: "rgworld \<Rightarrow> u32 \<Rightarrow> u8 list \<Rightarrow> nat \<Rightarrow> u8 list \<Rightarrow> rgstate
    \<Rightarrow> u32 \<times> u8 list \<times> nat \<times> rgstate" where
  "append_containers W spid uuid tlSize buf s =
     (let info = csize mcBlobLenInfo_t; p = info + tlSize; regObjValueSize = tlSize + info + 3 * MAX_SO_CONT_SIZE;
          size_field = (\<lambda>f n (buf, s). wr (offsetof mcBlobLenInfo_t [f]) (le_bytes 4 (of_nat n)) buf s);
          (ret, root, s) = mcRegistryReadRoot W (csize mcSoRootCont_t) s;
          (buf, s) = wr p root buf s in
      if ret \<noteq> MC_DRV_OK then (ret, buf, 0, s)
      else
        let (buf, s) = size_field ''rootContBlobSize'' (length root) (buf, s);
            p = p + length root;
            (ret, sp, s) = mcRegistryReadSp W spid (csize mcSoSpCont_t) s;
            (buf, s) = wr p sp buf s in
        if ret \<noteq> MC_DRV_OK then (ret, buf, 0, s)
        else
          let (buf, s) = size_field ''spContBlobSize'' (length sp) (buf, s);
              p = p + length sp;
              room = regObjValueSize - tlSize + info - length sp - length root;
              (ret, tl, s) = mcRegistryReadTrustletCon W uuid spid room s;
              (buf, s) = wr p tl buf s in
          if ret \<noteq> MC_DRV_OK then (ret, buf, 0, s)
          else
            let (buf, s) = size_field ''tlContBlobSize'' (length tl) (buf, s)
            in (MC_DRV_OK, buf, length root + length sp + length tl, s))"

text \<open>
  \<open>buf\<close> is the readable memory at \<^verbatim>\<open>trustlet\<close>, which is at least the \<open>tlSize\<close> bytes of the blob.
\<close>

definition mcRegistryMemGetServiceBlob :: "rgworld \<Rightarrow> u32 \<Rightarrow> u8 list option \<Rightarrow> nat \<Rightarrow> rgstate \<Rightarrow> regObject_t option \<times> rgstate" where
  "mcRegistryMemGetServiceBlob W spid trustlet tlSize s =
     (case trustlet of
        None \<Rightarrow> (None, s)
      | Some blob \<Rightarrow>
          if MAX_TL_SIZE < tlSize then (None, s)
          else
            let (intro, s) = rd W blob 0 4 s in
            if le32 intro 0 \<noteq> MC_SERVICE_HEADER_MAGIC_BE then (None, s)
            else
              let (st, s) = rd W blob (hdr_off W ''serviceType'') 4 s; service = le32 st 0 in
              if service = SERVICE_TYPE_DRIVER \<or> service = SERVICE_TYPE_SYSTEM_TRUSTLET then
                let (ok, s) = call W (Malloc (8 + tlSize)) s in
                if \<not> ok then (None, s)
                else let (v, s) = rd W blob 0 tlSize s in (Some \<lparr>ro_len = tlSize, ro_tlStartOffset = 0, ro_value = v\<rparr>, s)
              else if service = SERVICE_TYPE_SP_TRUSTLET then
                let info = csize mcBlobLenInfo_t; sz = tlSize + info + 3 * MAX_SO_CONT_SIZE;
                    (ok, s) = call W (Malloc (8 + sz)) s in
                if \<not> ok then (None, s)
                else
                  let (v, s) = rd W blob 0 tlSize s;
                      buf = le_bytes 4 (ucast MC_TLBLOBLEN_MAGIC) @ replicate (info - 4) 0 @ v @ replicate (3 * MAX_SO_CONT_SIZE) 0;
                      (uuid, s) = rd W blob (hdr_off W ''uuid'') 16 s;
                      (ret, buf, n, s) = append_containers W spid uuid tlSize buf s
                  in if ret \<noteq> MC_DRV_OK then (None, s)
                     else (Some \<lparr>ro_len = info + tlSize + n, ro_tlStartOffset = info, ro_value = buf\<rparr>, s)
              else (None, s))"

text \<open>A file is mapped in whole pages, the rest of the last one being zero; an empty file cannot be mapped.\<close>

definition mcRegistryFileGetServiceBlob :: "rgworld \<Rightarrow> string option \<Rightarrow> u32 \<Rightarrow> rgstate \<Rightarrow> regObject_t option \<times> rgstate" where
  "mcRegistryFileGetServiceBlob W trustlet spid s =
     (case trustlet of
        None \<Rightarrow> (None, s)
      | Some path \<Rightarrow>
          let (c, s) = open_rb W path s in
          case c of
            None \<Rightarrow> (None, s)
          | Some bytes \<Rightarrow>
              let (ok, s) = call W (Mmap path) s in
              if \<not> ok \<or> bytes = [] then (None, s)
              else
                let pages = bytes @ replicate ((4096 - length bytes mod 4096) mod 4096) 0
                in mcRegistryMemGetServiceBlob W spid (Some pages) (length bytes) s)"

definition mcRegistryGetServiceBlob :: "rgworld \<Rightarrow> u8 list option \<Rightarrow> bool \<Rightarrow> rgstate \<Rightarrow> regObject_t option \<times> rgstate" where
  "mcRegistryGetServiceBlob W uuid isGpUuid s =
     (case uuid of
        None \<Rightarrow> (None, s)
      | Some uuid \<Rightarrow>
          if \<not> isGpUuid then mcRegistryFileGetServiceBlob W (Some (getTlBinFilePath s uuid)) 0 s
          else
            let path = getTABinFilePath s uuid;
                (c, s) = open_rb W (getTASpidFilePath s uuid) s in
            case c of
              None \<Rightarrow> mcRegistryFileGetServiceBlob W (Some path) 0 s
            | Some b \<Rightarrow> if length b < 4 then (None, s) else mcRegistryFileGetServiceBlob W (Some path) (le32 b 0) s)"

definition mcRegistryGetDriverBlob :: "rgworld \<Rightarrow> string option \<Rightarrow> rgstate \<Rightarrow> regObject_t option \<times> rgstate" where
  "mcRegistryGetDriverBlob W filename s =
     (let (r, s) = mcRegistryFileGetServiceBlob W filename 0 s in
      case r of
        None \<Rightarrow> (None, s)
      | Some regobj \<Rightarrow>
          let (st, s) = rd W (ro_value regobj) (hdr_off W ''serviceType'') 4 s
          in (if le32 st 0 \<noteq> SERVICE_TYPE_DRIVER then None else Some regobj, s))"

end
