(* ===== verification/RegistryLaws.thy ===== *)
theory RegistryLaws
  imports Registry
begin

text \<open>
  What the registry promises: every container has a file of its own; what is stored is what is read;
  deleting a container deletes the containers below it and no other. And where it falls short.
\<close>

section \<open>File names\<close>

text \<open>
  The names are told apart by what is behind their last dot and by how deep they are in the file system.
\<close>

definition ext_of :: "string \<Rightarrow> string" where
  "ext_of p = rev (takeWhile (\<lambda>c. c \<noteq> CHR 0x2E) (rev p))"

definition depth :: "string \<Rightarrow> nat" where
  "depth p = length (filter (\<lambda>c. c = slash) p)"

lemma depth_append [simp]: "depth (p @ q) = depth p + depth q" "depth [] = 0"
  by (simp_all add: depth_def)

lemma depth_no_slash: "slash \<notin> set p \<Longrightarrow> depth p = 0"
  by (simp add: depth_def filter_empty_conv) metis

lemma depth_Cons: "depth (c # p) = (if c = slash then 1 else 0) + depth p"
  by (simp add: depth_def)

lemma ext_of_append: "CHR 0x2E \<notin> set e \<Longrightarrow> ext_of (p @ CHR 0x2E # e) = e"
  by (simp add: ext_of_def takeWhile_append)

lemma ext_of_no_dot:
  assumes "CHR 0x2E \<notin> set p"
  shows "ext_of p = p"
proof -
  have "takeWhile (\<lambda>c. c \<noteq> CHR 0x2E) (rev p) = rev p"
    unfolding takeWhile_eq_all_conv using assms by (metis set_rev)
  then show ?thesis by (simp only: ext_of_def rev_rev_ident)
qed

lemma length_uint32ToString [simp]: "length (uint32ToString w) = 8"
  by (simp add: uint32ToString_def)

lemma nth_eq_digit: "i < 16 \<Longrightarrow> j < 16 \<Longrightarrow> ''0123456789ABCDEF'' ! i = ''0123456789ABCDEF'' ! j \<longleftrightarrow> i = (j :: nat)"
  "i < 16 \<Longrightarrow> j < 16 \<Longrightarrow> ''0123456789abcdef'' ! i = ''0123456789abcdef'' ! j \<longleftrightarrow> i = (j :: nat)"
  by (simp_all add: nth_eq_iff_index_eq)

lemma digit_plain:
  "i < 16 \<Longrightarrow> ''0123456789ABCDEF'' ! i \<notin> {CHR 0x2E, slash}" "i < 16 \<Longrightarrow> ''0123456789abcdef'' ! i \<notin> {CHR 0x2E, slash}"
proof -
  have "set ''0123456789ABCDEF'' \<inter> {CHR 0x2E, slash} = {}" "set ''0123456789abcdef'' \<inter> {CHR 0x2E, slash} = {}"
    by (simp_all add: slash_def)
  moreover have "i < 16 \<Longrightarrow> ''0123456789ABCDEF'' ! i \<in> set ''0123456789ABCDEF''"
    "i < 16 \<Longrightarrow> ''0123456789abcdef'' ! i \<in> set ''0123456789abcdef''" by (intro nth_mem; simp)+
  ultimately show "i < 16 \<Longrightarrow> ''0123456789ABCDEF'' ! i \<notin> {CHR 0x2E, slash}"
    "i < 16 \<Longrightarrow> ''0123456789abcdef'' ! i \<notin> {CHR 0x2E, slash}" by blast+
qed

lemma uint32ToString_plain: "CHR 0x2E \<notin> set (uint32ToString w)" "slash \<notin> set (uint32ToString w)"
  using digit_plain(1) by (auto simp: uint32ToString_def) (metis insertCI mod_less_divisor zero_less_numeral)+

lemma byteArrayToString_plain: "CHR 0x2E \<notin> set (byteArrayToString b)" "slash \<notin> set (byteArrayToString b)"
proof -
  have "unat (x :: u8) div 16 < 16" for x using unsigned_less [of x] by (simp add: div_less_iff_less_mult)
  then show "CHR 0x2E \<notin> set (byteArrayToString b)" "slash \<notin> set (byteArrayToString b)"
    using digit_plain(2) by (auto simp: byteArrayToString_def) (metis insertCI mod_less_divisor zero_less_numeral)+
qed

lemma digits_inj:
  fixes a b :: nat
  shows "(\<forall>i<n. a div 16 ^ i mod 16 = b div 16 ^ i mod 16) \<Longrightarrow> a mod 16 ^ n = b mod 16 ^ n"
proof (induction n)
  case (Suc n)
  then have "a mod 16 ^ n = b mod 16 ^ n" "a div 16 ^ n mod 16 = b div 16 ^ n mod 16" by auto
  then show ?case by (simp only: power_Suc2 mod_mult2_eq)
qed simp

lemma uint32ToString_inj: "uint32ToString a = uint32ToString b \<longleftrightarrow> a = b"
proof
  assume "uint32ToString a = uint32ToString b"
  then have "\<forall>i<8. ''0123456789ABCDEF'' ! (unat a div 16 ^ i mod 16) = ''0123456789ABCDEF'' ! (unat b div 16 ^ i mod 16)"
    by (simp add: uint32ToString_def)
  then have "\<forall>i<8. unat a div 16 ^ i mod 16 = unat b div 16 ^ i mod 16" by (simp only: nth_eq_digit(1) mod_less_divisor zero_less_numeral)
  then have "unat a mod 16 ^ 8 = unat b mod 16 ^ 8" by (rule digits_inj)
  then have "unat a = unat b" using unsigned_less [of a, where ?'a = nat] unsigned_less [of b, where ?'a = nat] by simp
  then show "a = b" by (simp add: word_unat_eq_iff)
qed simp

lemma byteArrayToString_inj: "byteArrayToString a = byteArrayToString b \<longleftrightarrow> a = b"
proof
  show "byteArrayToString a = byteArrayToString b \<Longrightarrow> a = b"
  proof (induction a arbitrary: b)
    case Nil
    then show ?case by (cases b) (simp_all add: byteArrayToString_def)
  next
    case (Cons x a)
    obtain y b' where b: "b = y # b'" using Cons.prems by (cases b) (auto simp: byteArrayToString_def)
    have d: "unat (z :: u8) div 16 < 16" for z using unsigned_less [of z] by (simp add: div_less_iff_less_mult)
    have e: "''0123456789abcdef'' ! (unat x div 16) = ''0123456789abcdef'' ! (unat y div 16)"
      "''0123456789abcdef'' ! (unat x mod 16) = ''0123456789abcdef'' ! (unat y mod 16)" "byteArrayToString a = byteArrayToString b'"
      using Cons.prems by (simp_all add: b byteArrayToString_def)
    have "unat x div 16 = unat y div 16" "unat x mod 16 = unat y mod 16"
      using e(1,2) d by (simp_all only: nth_eq_digit(2) mod_less_divisor zero_less_numeral)
    then have "unat x = unat y" by (metis div_mult_mod_eq)
    then show ?case using Cons.IH [OF e(3)] b by (simp add: word_unat_eq_iff)
  qed
qed simp

text \<open>A container file lies directly in the registry and has one of four extensions.\<close>

definition container_ext :: "string \<Rightarrow> bool" where
  "container_ext e = (e \<in> {''spcont'', ''tlcont'', ''rootcont'', ''authtokcont''})"

definition container_path :: "string \<Rightarrow> bool" where
  "container_path q = (container_ext (ext_of q) \<and> depth q = 4)"

lemma registry_plain: "CHR 0x2E \<notin> set getRegistryPath" "depth getRegistryPath = 3"
  by (simp_all add: getRegistryPath_def MC_REGISTRY_CONTAINER_PATH_def depth_def slash_def)

lemma ext_paths:
  "ext_of (getSpContFilePath spid) = ''spcont''" "ext_of (getTlContFilePath uuid spid) = ''tlcont''"
  "ext_of getRootContFilePath = ''rootcont''"
proof -
  have e: "ext_of (d @ ''/'' @ n @ CHR 0x2E # x) = x" if "CHR 0x2E \<notin> set x" for d n x
    using ext_of_append [OF that, of "d @ ''/'' @ n"] by simp
  show "ext_of (getSpContFilePath spid) = ''spcont''" using e [of "''spcont''"] by (simp add: getSpContFilePath_def)
  show "ext_of (getTlContFilePath uuid spid) = ''tlcont''"
    using e [of "''tlcont''" getRegistryPath "byteArrayToString uuid @ ''.'' @ uint32ToString spid"]
    by (simp add: getTlContFilePath_def)
  show "ext_of getRootContFilePath = ''rootcont''"
    using e [of "''rootcont''" getRegistryPath "''00000000''"] by (simp add: getRootContFilePath_def ROOT_FILE_NAME_def)
qed

lemma depth_literals:
  "depth ''/'' = 1" "depth ''.'' = 0" "depth ''.spcont'' = 0" "depth ''.tlcont'' = 0" "depth ROOT_FILE_NAME = 0"
  "depth ''.tabin'' = 0" "depth ''.tlbin'' = 0" "depth ''.spid'' = 0" "depth ''/TbStorage/'' = 2"
  by (simp_all add: depth_def slash_def ROOT_FILE_NAME_def)

lemma depth_paths:
  "depth (uint32ToString w) = 0" "depth (byteArrayToString b) = 0"
  "depth (getSpContFilePath spid) = 4" "depth (getTlContFilePath uuid spid) = 4" "depth getRootContFilePath = 4"
  "depth (getTlDataPath uuid) = 4" "depth (getSpDataPath spid) = 4"
  using uint32ToString_plain(2) byteArrayToString_plain(2)
  by (simp_all add: depth_no_slash getSpContFilePath_def getTlContFilePath_def getRootContFilePath_def getTlDataPath_def
      getSpDataPath_def registry_plain depth_literals del: append_Cons append_assoc)

lemma container_paths: "container_path (getSpContFilePath spid)" "container_path (getTlContFilePath uuid spid)" "container_path getRootContFilePath"
  by (simp_all add: container_path_def container_ext_def ext_paths depth_paths)

lemma data_paths_plain: "\<not> container_path (getTlDataPath uuid)" "\<not> container_path (getSpDataPath spid)"
proof -
  have "CHR 0x2E \<notin> set (getTlDataPath uuid)" "CHR 0x2E \<notin> set (getSpDataPath spid)"
    using registry_plain uint32ToString_plain byteArrayToString_plain
    by (auto simp: getTlDataPath_def getSpDataPath_def)
  then have "ext_of (getTlDataPath uuid) = getTlDataPath uuid" "ext_of (getSpDataPath spid) = getSpDataPath spid"
    by (simp_all add: ext_of_no_dot)
  moreover have "depth e = 0" if "container_ext e" for e
    using that by (auto simp: container_ext_def depth_def slash_def)
  ultimately show "\<not> container_path (getTlDataPath uuid)" "\<not> container_path (getSpDataPath spid)"
    using depth_paths(6) [of uuid] depth_paths(7) [of spid] by (auto simp: container_path_def)
qed

lemma sp_path_inj: "getSpContFilePath a = getSpContFilePath b \<longleftrightarrow> a = b"
  by (simp add: getSpContFilePath_def uint32ToString_inj)

lemma tl_path_inj: "getTlContFilePath u a = getTlContFilePath v b \<longleftrightarrow> u = v \<and> a = b"
proof
  assume "getTlContFilePath u a = getTlContFilePath v b"
  then have "byteArrayToString u @ CHR 0x2E # uint32ToString a = byteArrayToString v @ CHR 0x2E # uint32ToString b"
    by (simp add: getTlContFilePath_def)
  moreover have "length (CHR 0x2E # uint32ToString a) = length (CHR 0x2E # uint32ToString b)" by simp
  ultimately show "u = v \<and> a = b" by (auto simp: append_eq_append_conv byteArrayToString_inj uint32ToString_inj)
qed simp

lemma kinds_differ:
  "getSpContFilePath a \<noteq> getTlContFilePath v b" "getSpContFilePath a \<noteq> getRootContFilePath" "getTlContFilePath v b \<noteq> getRootContFilePath"
  using ext_paths(1) [of a] ext_paths(2) [of v b] ext_paths(3) by auto

section \<open>Containers as a store\<close>

text \<open>
  The interface a container offers to \<^verbatim>\<open>rootpa\<close>: a file of its own, an operation that replaces it,
  and one that reads its beginning. The root container, the container of a service provider and
  that of a trusted application all have it.
\<close>

locale container_file =
  fixes path :: string
    and store :: "rgworld \<Rightarrow> u8 list option \<Rightarrow> rgstate \<Rightarrow> u32 \<times> rgstate"
    and read :: "rgworld \<Rightarrow> nat \<Rightarrow> rgstate \<Rightarrow> u32 \<times> u8 list \<times> rgstate"
  assumes store_ok: "store W so s = (MC_DRV_OK, t) \<Longrightarrow>
      \<exists>b. so = Some b \<and> length b \<le> 1536 \<and> fs_get t = (fs_get s)(path \<mapsto> File (take (length b - rg_lost W (rg_time s + 1)) b))"
    and store_err: "store W so s = (r, t) \<Longrightarrow> r \<noteq> MC_DRV_OK \<Longrightarrow> fs_get t = fs_get s"
    and read_keeps: "read W n s = (r, b, t) \<Longrightarrow> fs_get t = fs_get s"
    and read_ok: "read W n s = (MC_DRV_OK, b, t) \<Longrightarrow> \<exists>c. fs_get s path = Some (File c) \<and> b = take n c \<and> b \<noteq> []"
begin

lemma store_elsewhere: "store W so s = (r, t) \<Longrightarrow> q \<noteq> path \<Longrightarrow> fs_get t q = fs_get s q"
  using store_ok [of W so s t] store_err [of W so s r t] by (cases "r = MC_DRV_OK") auto

lemma read_after_store:
  assumes "store W (Some c) s = (MC_DRV_OK, t)" "rg_lost W (rg_time s + 1) = 0" "fs_get u path = fs_get t path"
    and "read W n u = (MC_DRV_OK, b, v)"
  shows "b = take n c"
proof -
  have "fs_get t path = Some (File (take (length c) c))" using store_ok [OF assms(1)] assms(2) by auto
  then have "fs_get u path = Some (File c)" using assms(3) by simp
  then show ?thesis using read_ok [OF assms(4)] by auto
qed

end

lemma store_so_spec:
  assumes "store_so W p so s = (r, t)"
  shows "r = MC_DRV_OK \<Longrightarrow> fs_get t = (fs_get s)(p \<mapsto> File (take (length so - rg_lost W (rg_time s + 1)) so))"
    "r \<noteq> MC_DRV_OK \<Longrightarrow> fs_get t = fs_get s" "rg_faults t = rg_faults s"
proof -
  obtain ok u where w: "write_file W p so s = (ok, u)" by force
  note f = write_file_spec [OF w]
  have e: "t = u" "r = (if ok then MC_DRV_OK else MC_DRV_ERR_INVALID_DEVICE_FILE)" using assms w by (auto simp: store_so_def)
  show "r = MC_DRV_OK \<Longrightarrow> fs_get t = (fs_get s)(p \<mapsto> File (take (length so - rg_lost W (rg_time s + 1)) so))"
    "r \<noteq> MC_DRV_OK \<Longrightarrow> fs_get t = fs_get s" "rg_faults t = rg_faults s"
    using e f by (auto split: if_splits)
qed

lemma read_so_spec:
  assumes "read_so W p n s = (r, b, t)"
  shows "fs_get t = fs_get s" "rg_faults t = rg_faults s"
    "r = MC_DRV_OK \<Longrightarrow> \<exists>c. fs_get s p = Some (File c) \<and> b = take n c \<and> b \<noteq> []"
    "r \<noteq> MC_DRV_OK \<Longrightarrow> r = MC_DRV_ERR_INVALID_DEVICE_FILE \<and> b = []"
proof -
  obtain c u where o: "open_rb W p s = (c, u)" by force
  note f = open_rb_spec [OF o]
  show "fs_get t = fs_get s" "rg_faults t = rg_faults s"
    "r = MC_DRV_OK \<Longrightarrow> \<exists>c. fs_get s p = Some (File c) \<and> b = take n c \<and> b \<noteq> []"
    "r \<noteq> MC_DRV_OK \<Longrightarrow> r = MC_DRV_ERR_INVALID_DEVICE_FILE \<and> b = []"
    using assms o f by (auto simp: read_so_def Let_def split: option.splits if_splits)
qed

interpretation root: container_file getRootContFilePath mcRegistryStoreRoot mcRegistryReadRoot
  by unfold_locales
    (auto simp: mcRegistryStoreRoot_def mcRegistryReadRoot_def dest: store_so_spec read_so_spec split: option.splits if_splits)

interpretation sp: container_file "getSpContFilePath spid" "\<lambda>W. mcRegistryStoreSp W spid" "\<lambda>W. mcRegistryReadSp W spid" for spid
  by unfold_locales
    (auto simp: mcRegistryStoreSp_def mcRegistryReadSp_def dest: store_so_spec read_so_spec split: option.splits if_splits)

interpretation tl: container_file "getTlContFilePath uuid spid" "\<lambda>W. mcRegistryStoreTrustletCon W uuid spid"
    "\<lambda>W. mcRegistryReadTrustletCon W uuid spid" for uuid spid
  by unfold_locales
    (auto simp: mcRegistryStoreTrustletCon_def mcRegistryReadTrustletCon_def dest: store_so_spec read_so_spec split: option.splits if_splits)

section \<open>What deleting leaves alone\<close>

lemma remove_all_keeps: "q \<notin> set ps \<Longrightarrow> fs_get (remove_all W ps s) q = fs_get s q"
proof (induction ps arbitrary: s)
  case (Cons p ps)
  obtain ok u where r: "remove_path W p s = (ok, u)" by force
  show ?case using Cons remove_path_spec(1) [OF r] by (auto simp: r)
qed simp

lemma clean_dir_keeps:
  assumes "clean_dir W d s = (ok, t)" "q \<noteq> d" "depth q \<le> depth d"
  shows "fs_get t q = fs_get s q"
proof -
  obtain ns u where o: "opendir_path W d s = (ns, u)" by force
  note f = opendir_path_spec [OF o]
  show ?thesis
  proof (cases ns)
    case None
    then show ?thesis using assms(1) o f(1) by (simp add: clean_dir_def)
  next
    case (Some names)
    define ps where "ps = map (\<lambda>n. d @ ''/'' @ n) (filter (\<lambda>n. hd n \<noteq> CHR 0x2E) names)"
    have "q \<notin> set ps" using assms(3) by (auto simp: ps_def depth_Cons slash_def)
    then have "fs_get (remove_all W ps u) q = fs_get s q" using f(1) by (simp add: remove_all_keeps)
    moreover have "rmdir_path W d (remove_all W ps u) = (ok, t)"
      using assms(1) o Some by (simp add: clean_dir_def ps_def)
    ultimately show ?thesis using rmdir_path_spec(1) [of W d "remove_all W ps u" ok t] assms(2) by simp
  qed
qed

lemma split_ext_spec:
  assumes "split_ext n = Some (stem, ext)"
  shows "ext_of (p @ n) = ext"
proof -
  have d: "CHR 0x2E \<in> set n" and e: "ext = rev (takeWhile (\<lambda>c. c \<noteq> CHR 0x2E) (rev n))"
    using assms by (auto simp: split_ext_def Let_def split: if_splits)
  have "takeWhile (\<lambda>c. c \<noteq> CHR 0x2E) (rev n @ rev p) = takeWhile (\<lambda>c. c \<noteq> CHR 0x2E) (rev n)"
    using d by (subst takeWhile_append1 [of "CHR 0x2E"]) auto
  then show ?thesis by (simp add: ext_of_def e)
qed

lemma ext_behind: "CHR 0x2E \<notin> set e \<Longrightarrow> ext_of (p @ [CHR 0x2E] @ e) = e"
  by (simp add: ext_of_append)

lemma not_container_ext: "\<not> container_ext ''tabin''" "\<not> container_ext ''tlbin''" "\<not> container_ext ''spid''"
  by (simp_all add: container_ext_def)

lemma ext_tabin: "ext_of (p @ ''.tabin'') = ''tabin''" and ext_tlbin: "ext_of (p @ ''.tlbin'') = ''tlbin''"
  using ext_behind [of "''tabin''" p] ext_behind [of "''tlbin''" p] by simp_all

lemma depth_tlregistry: "3 \<le> depth (getTlRegistryPath s)"
  by (simp add: getTlRegistryPath_def MC_REGISTRY_DEFAULT_PATH_def MC_REGISTRY_FALLBACK_PATH_def
      MC_REGISTRY_CONTAINER_PATH_def depth_def slash_def)

lemma CleanupGPTAStorage_keeps:
  assumes "CleanupGPTAStorage W b s = (ok, t)" "container_path q"
  shows "fs_get t q = fs_get s q"
proof -
  define d where "d = getTlRegistryPath s @ ''/TbStorage/'' @ b"
  have "depth d = depth (getTlRegistryPath s) + (depth ''/TbStorage/'' + depth b)" by (simp only: d_def depth_append)
  then have "4 < depth d" using depth_tlregistry [of s] by (simp only: depth_literals)
  then have "q \<noteq> d" "depth q \<le> depth d" using assms(2) by (auto simp: container_path_def)
  then show ?thesis using clean_dir_keeps [of W d s ok t q] assms(1) by (simp add: CleanupGPTAStorage_def d_def)
qed

lemma getFileContent_keeps: "getFileContent W p s = (b, t) \<Longrightarrow> fs_get t = fs_get s"
proof -
  assume g: "getFileContent W p s = (b, t)"
  obtain c u where o: "open_rb W p s = (c, u)" by force
  note f = open_rb_spec(1) [OF o]
  obtain ok v where m: "call W (Malloc (length (the c))) u = (ok, v)" by force
  show "fs_get t = fs_get s"
    using g o f call_simps(1) [of W "Malloc (length (the c))" u] m
    by (auto simp: getFileContent_def split: option.splits if_splits)
qed

lemma mcCheckUuid_keeps: "mcCheckUuid W uuid p s = (m, t) \<Longrightarrow> fs_get t = fs_get s"
  using getFileContent_keeps [of W p s] by (auto simp: mcCheckUuid_def Let_def split: prod.splits)

lemma remove_path_keeps: "remove_path W p s = (ok, t) \<Longrightarrow> q \<noteq> p \<Longrightarrow> fs_get t q = fs_get s q"
  using remove_path_spec(1) [of W p s ok t] by simp

lemma deleteSPTA_loop_keeps:
  assumes q: "container_path q"
  shows "fs_get (deleteSPTA_loop W uuid spid chk ns s) q = fs_get s q"
proof (induction ns arbitrary: s)
  case (Cons n ns)
  show ?case
  proof (cases "split_ext n")
    case None
    then show ?thesis using Cons by simp
  next
    case (Some se)
    obtain stem ext where se: "se = (stem, ext)" by (cases se)
    define spidFile tabin where "spidFile = getRegistryPath @ ''/'' @ n" and "tabin = getRegistryPath @ ''/'' @ stem"
    obtain c u where o: "open_rb W spidFile s = (c, u)" by force
    define cur where "cur = (case c of Some b \<Rightarrow> if 4 \<le> length b then le32 b 0 else 0 | None \<Rightarrow> 0)"
    obtain m v where m: "(if chk then mcCheckUuid W uuid (tabin @ ''.tabin'') u else (True, u)) = (m, v)" by force
    obtain x1 w1 where g: "CleanupGPTAStorage W tabin v = (x1, w1)" by force
    obtain x2 w2 where r1: "remove_path W (tabin @ ''.tabin'') w1 = (x2, w2)" by force
    obtain x3 w3 where r2: "remove_path W spidFile w2 = (x3, w3)" by force
    have u: "fs_get u q = fs_get s q" using open_rb_spec(1) [OF o] by simp
    have v: "fs_get v q = fs_get s q"
      using m u mcCheckUuid_keeps [of W uuid "tabin @ ''.tabin''" u m v] by (auto split: if_splits)
    have "q \<noteq> tabin @ ''.tabin''" using q not_container_ext(1) ext_tabin by (auto simp: container_path_def)
    moreover have "q \<noteq> spidFile" if "ext = ''spid''"
      using split_ext_spec [of n stem ext "getRegistryPath @ ''/''"] Some se that q not_container_ext(3)
      by (auto simp: container_path_def spidFile_def)
    ultimately have w: "fs_get w3 q = fs_get s q" if "ext = ''spid''"
      using v CleanupGPTAStorage_keeps [OF g q] remove_path_keeps [OF r1] remove_path_keeps [OF r2] that by simp
    have "deleteSPTA_loop W uuid spid chk (n # ns) s =
        (if ext \<noteq> ''spid'' then deleteSPTA_loop W uuid spid chk ns s
         else if spid \<noteq> cur then deleteSPTA_loop W uuid spid chk ns u
         else if m then if chk then w3 else deleteSPTA_loop W uuid spid chk ns w3
         else deleteSPTA_loop W uuid spid chk ns v)"
      using o m g r1 r2 unfolding spidFile_def tabin_def append_assoc deleteSPTA_loop.simps(2) Some se option.case prod.case Let_def cur_def
      by (simp del: deleteSPTA_loop.simps append_Cons append_assoc add: append_assoc [symmetric])
    then show ?thesis using Cons.IH u v w
      by (cases "ext = ''spid''"; cases "spid = cur"; cases m; cases chk; simp del: deleteSPTA_loop.simps)
  qed
qed simp

lemma deleteSPTA_keeps: "container_path q \<Longrightarrow> fs_get (deleteSPTA W uuid spid chk s) q = fs_get s q"
proof -
  assume q: "container_path q"
  obtain ns u where o: "opendir_path W getRegistryPath s = (ns, u)" by force
  show ?thesis using opendir_path_spec(1) [OF o] deleteSPTA_loop_keeps [OF q]
    by (cases ns) (simp_all add: deleteSPTA_def o)
qed

section \<open>Deleting a trusted application, a service provider, the root\<close>

lemma clean_data_keeps:
  "clean_dir W (getTlDataPath uuid) s = (ok, t) \<Longrightarrow> container_path q \<Longrightarrow> fs_get t q = fs_get s q"
  "clean_dir W (getSpDataPath spid) s = (ok, t) \<Longrightarrow> container_path q \<Longrightarrow> fs_get t q = fs_get s q"
  using clean_dir_keeps data_paths_plain depth_paths(6,7) by (metis container_path_def order_refl)+

lemma cleanup_trustlet:
  assumes "mcRegistryCleanupTrustlet W (Some uuid) spid s = (r, t)" "container_path q"
  shows "fs_get t q = (if r = MC_DRV_OK \<and> q = getTlContFilePath uuid spid then None else fs_get s q)"
    "r = MC_DRV_OK \<Longrightarrow> fs_get s (getTlContFilePath uuid spid) \<noteq> None"
proof -
  obtain ok u where c: "clean_dir W (getTlDataPath uuid) s = (ok, u)" by force
  obtain x v where b: "remove_path W (getTlBinFilePath u uuid) u = (x, v)" by force
  define w where "w = deleteSPTA W uuid spid True v"
  obtain ok' y where l: "remove_path W (getTlContFilePath uuid spid) w = (ok', y)" by force
  have "p \<noteq> getTlBinFilePath u uuid" if "container_path p" for p
  proof -
    have "ext_of (getTlBinFilePath u uuid) = ''tlbin''"
      using ext_tlbin [of "getTlRegistryPath u @ ''/'' @ byteArrayToString uuid"] by (simp add: getTlBinFilePath_def)
    then show ?thesis using that not_container_ext(2) by (auto simp: container_path_def)
  qed
  then have w: "fs_get w p = fs_get s p" if "container_path p" for p
    using clean_data_keeps(1) [OF c that] remove_path_keeps [OF b] deleteSPTA_keeps [OF that] that by (simp add: w_def)
  have e: "(r, t) = (if \<not> ok then (MC_DRV_ERR_UNKNOWN, u) else (if ok' then MC_DRV_OK else MC_DRV_ERR_UNKNOWN, y))"
    using assms(1) c b l by (simp add: mcRegistryCleanupTrustlet_def w_def split: if_splits)
  note lr = remove_path_spec(1,3) [OF l] w [OF container_paths(2)] w [OF assms(2)] clean_data_keeps(1) [OF c assms(2)]
  show "fs_get t q = (if r = MC_DRV_OK \<and> q = getTlContFilePath uuid spid then None else fs_get s q)"
    using e lr by (auto split: if_splits)
  show "r = MC_DRV_OK \<Longrightarrow> fs_get s (getTlContFilePath uuid spid) \<noteq> None" using e lr by (auto split: if_splits)
qed

lemma cleanup_tls_keeps:
  "cleanup_tls W spid us s = (r, t) \<Longrightarrow> container_path q \<Longrightarrow>
     q \<notin> (\<lambda>u. getTlContFilePath u spid) ` (set us - {MC_UUID_FREE}) \<Longrightarrow> fs_get t q = fs_get s q"
proof (induction us arbitrary: s)
  case (Cons u us)
  obtain r1 s1 where c: "mcRegistryCleanupTrustlet W (Some u) spid s = (r1, s1)" by force
  have "fs_get s1 q = fs_get s q" if "u \<noteq> MC_UUID_FREE"
    using that Cons.prems(3) cleanup_trustlet(1) [OF c Cons.prems(2)] by auto
  moreover have "q \<notin> (\<lambda>u. getTlContFilePath u spid) ` (set us - {MC_UUID_FREE})" using Cons.prems(3) by auto
  ultimately show ?case using Cons.IH Cons.prems(1,2) by (auto simp: c split: if_splits)
qed simp

lemma cleanup_tls_gone: "cleanup_tls W spid us s = (r, t) \<Longrightarrow> container_path q \<Longrightarrow> fs_get s q = None \<Longrightarrow> fs_get t q = None"
proof (induction us arbitrary: s)
  case (Cons u us)
  obtain r1 s1 where c: "mcRegistryCleanupTrustlet W (Some u) spid s = (r1, s1)" by force
  show ?case using Cons cleanup_trustlet(1) [OF c] by (auto simp: c split: if_splits)
qed simp

lemma cleanup_tls_done:
  "cleanup_tls W spid us s = (MC_DRV_OK, t) \<Longrightarrow> u \<in> set us \<Longrightarrow> u \<noteq> MC_UUID_FREE \<Longrightarrow> fs_get t (getTlContFilePath u spid) = None"
proof (induction us arbitrary: s)
  case (Cons v us)
  obtain r1 s1 where c: "mcRegistryCleanupTrustlet W (Some v) spid s = (r1, s1)" by force
  show ?case
  proof (cases "u \<in> set us")
    case True
    then show ?thesis using Cons by (auto simp: c split: if_splits)
  next
    case False
    then have "u = v" "r1 = MC_DRV_OK" "cleanup_tls W spid us s1 = (MC_DRV_OK, t)"
      using Cons.prems by (auto simp: c split: if_splits)
    then show ?thesis using cleanup_trustlet(1) [OF c container_paths(2)] cleanup_tls_gone [OF _ container_paths(2)] by simp
  qed
qed simp

text \<open>The paths a service provider's clean-up removes, given its container.\<close>

definition tl_paths :: "u32 \<Rightarrow> u8 list \<Rightarrow> string set" where
  "tl_paths spid so = (\<lambda>u. getTlContFilePath u spid) ` (set (sp_children so) - {MC_UUID_FREE})"

lemma read_sp_spec:
  assumes "mcRegistryReadSp W spid n s = (r, b, t)"
  shows "fs_get t = fs_get s"
    "r = MC_DRV_OK \<Longrightarrow> \<exists>c. fs_get s (getSpContFilePath spid) = Some (File c) \<and> b = take n c"
  using sp.read_keeps [OF assms] sp.read_ok [of W spid n s b t] assms by auto

lemma cleanup_sp:
  assumes "mcRegistryCleanupSp W spid s = (r, t)" "container_path q"
  shows "fs_get s q = None \<Longrightarrow> fs_get t q = None"
    "q \<noteq> getSpContFilePath spid \<Longrightarrow> (\<forall>u. q \<noteq> getTlContFilePath u spid) \<Longrightarrow> fs_get t q = fs_get s q"
    "r = MC_DRV_OK \<Longrightarrow> fs_get s (getSpContFilePath spid) = Some (File c) \<Longrightarrow> csize mcSoSpCont_t \<le> length c \<Longrightarrow>
      fs_get t q = (if q = getSpContFilePath spid \<or> q \<in> tl_paths spid (take (csize mcSoSpCont_t) c) then None else fs_get s q)"
    "r = MC_DRV_OK \<Longrightarrow> \<exists>c. fs_get s (getSpContFilePath spid) = Some (File c) \<and> (length c < csize mcSoSpCont_t \<longrightarrow> fs_get t = fs_get s)"
proof -
  obtain r0 so s0 where rd: "mcRegistryReadSp W spid (csize mcSoSpCont_t) s = (r0, so, s0)" by (metis prod_cases3)
  obtain r1 s1 where tls: "cleanup_tls W spid (sp_children so) s0 = (r1, s1)" by force
  obtain ok s2 where cl: "clean_dir W (getSpDataPath spid) (deleteSPTA W [] spid False s1) = (ok, s2)" by force
  obtain ok' s3 where rm: "remove_path W (getSpContFilePath spid) s2 = (ok', s3)" by force
  have e: "(r, t) = (if spid = 0 then (MC_DRV_ERR_INVALID_PARAMETER, s)
      else if r0 \<noteq> MC_DRV_OK \<or> length so \<noteq> csize mcSoSpCont_t then (r0, s0)
      else if r1 \<noteq> MC_DRV_OK then (r1, s1) else if \<not> ok then (MC_DRV_ERR_UNKNOWN, s2)
      else (if ok' then MC_DRV_OK else MC_DRV_ERR_UNKNOWN, s3))"
    using assms(1) rd tls cl rm by (auto simp: mcRegistryCleanupSp_def split: if_splits)
  have s0: "fs_get s0 = fs_get s" using read_sp_spec [OF rd] by simp
  have s2: "fs_get s2 q = fs_get s1 q"
    using clean_data_keeps(2) [OF cl assms(2)] deleteSPTA_keeps [OF assms(2)] by simp
  have s3: "fs_get s3 q = (if ok' \<and> q = getSpContFilePath spid then None else fs_get s2 q)"
    using remove_path_spec(1) [OF rm] by simp
  show "fs_get s q = None \<Longrightarrow> fs_get t q = None"
    using e s0 s2 s3 cleanup_tls_gone [OF tls assms(2)] by (auto split: if_splits)
  show "fs_get t q = fs_get s q" if "q \<noteq> getSpContFilePath spid" "\<forall>u. q \<noteq> getTlContFilePath u spid"
    using e s0 s2 s3 cleanup_tls_keeps [OF tls assms(2)] that by (auto split: if_splits)
  { assume ok: "r = MC_DRV_OK"
    then have r0: "r0 = MC_DRV_OK" and t: "length so \<noteq> csize mcSoSpCont_t \<Longrightarrow> t = s0" using e by (auto split: if_splits)
    obtain c where c: "fs_get s (getSpContFilePath spid) = Some (File c)" "so = take (csize mcSoSpCont_t) c"
      using read_sp_spec(2) [OF rd r0] by blast
    have "fs_get t = fs_get s" if "length c < csize mcSoSpCont_t" using t s0 c(2) that by simp
    then show "\<exists>c. fs_get s (getSpContFilePath spid) = Some (File c) \<and> (length c < csize mcSoSpCont_t \<longrightarrow> fs_get t = fs_get s)"
      using c(1) by blast }
  assume ok: "r = MC_DRV_OK" "fs_get s (getSpContFilePath spid) = Some (File c)" "csize mcSoSpCont_t \<le> length c"
  have r0: "r0 = MC_DRV_OK" using e ok(1) by (auto split: if_splits)
  have so: "so = take (csize mcSoSpCont_t) c" using read_sp_spec(2) [OF rd r0] ok(2) by simp
  then have len: "length so = csize mcSoSpCont_t" using ok(3) by simp
  have r: "r1 = MC_DRV_OK" "ok'" "t = s3" using e ok(1) r0 len by (auto split: if_splits)
  have "fs_get s1 q = None" if "q \<in> tl_paths spid so"
  proof -
    from that obtain u where u: "q = getTlContFilePath u spid" "u \<in> set (sp_children so)" "u \<noteq> MC_UUID_FREE"
      by (auto simp: tl_paths_def)
    show ?thesis unfolding u(1) by (rule cleanup_tls_done [OF tls [unfolded r(1)] u(2,3)])
  qed
  moreover have "fs_get s1 q = fs_get s q" if "q \<notin> tl_paths spid so"
    using that cleanup_tls_keeps [OF tls assms(2)] s0 by (simp add: tl_paths_def)
  ultimately show "fs_get t q = (if q = getSpContFilePath spid \<or> q \<in> tl_paths spid (take (csize mcSoSpCont_t) c) then None else fs_get s q)"
    using s2 s3 r(2,3) so by auto
qed

section \<open>The registry as a map from containers to bytes\<close>

text \<open>
  What the registry keeps, without files and names: the bytes of each container. The operations on
  files refine operations on this map.
\<close>

datatype container = RootC | SpC u32 | TlC "u8 list" u32

fun file_of :: "container \<Rightarrow> string" where
  "file_of RootC = getRootContFilePath"
| "file_of (SpC spid) = getSpContFilePath spid"
| "file_of (TlC uuid spid) = getTlContFilePath uuid spid"

definition view :: "rgstate \<Rightarrow> container \<Rightarrow> u8 list option" where
  "view s k = (case fs_get s (file_of k) of Some (File c) \<Rightarrow> Some c | _ \<Rightarrow> None)"

fun store_container :: "rgworld \<Rightarrow> container \<Rightarrow> u8 list option \<Rightarrow> rgstate \<Rightarrow> u32 \<times> rgstate" where
  "store_container W RootC so s = mcRegistryStoreRoot W so s"
| "store_container W (SpC spid) so s = mcRegistryStoreSp W spid so s"
| "store_container W (TlC uuid spid) so s = mcRegistryStoreTrustletCon W uuid spid so s"

fun read_container :: "rgworld \<Rightarrow> container \<Rightarrow> nat \<Rightarrow> rgstate \<Rightarrow> u32 \<times> u8 list \<times> rgstate" where
  "read_container W RootC n s = mcRegistryReadRoot W n s"
| "read_container W (SpC spid) n s = mcRegistryReadSp W spid n s"
| "read_container W (TlC uuid spid) n s = mcRegistryReadTrustletCon W uuid spid n s"

definition without :: "container set \<Rightarrow> (container \<Rightarrow> u8 list option) \<Rightarrow> container \<Rightarrow> u8 list option" where
  "without K m = (\<lambda>k. if k \<in> K then None else m k)"

lemma file_of_inj: "file_of k = file_of l \<longleftrightarrow> k = l"
  by (cases k; cases l) (simp_all add: sp_path_inj tl_path_inj kinds_differ kinds_differ [symmetric])

lemma container_path_file_of [simp]: "container_path (file_of k)"
  by (cases k) (simp_all add: container_paths)

lemma store_container_eta:
  "store_container W RootC = mcRegistryStoreRoot W" "store_container W (SpC spid) = mcRegistryStoreSp W spid"
  "store_container W (TlC uuid spid) = mcRegistryStoreTrustletCon W uuid spid"
  by (simp_all add: fun_eq_iff)

lemma read_container_eta:
  "read_container W RootC = mcRegistryReadRoot W" "read_container W (SpC spid) = mcRegistryReadSp W spid"
  "read_container W (TlC uuid spid) = mcRegistryReadTrustletCon W uuid spid"
  by (simp_all add: fun_eq_iff)

interpretation any: container_file "file_of k" "\<lambda>W. store_container W k" "\<lambda>W. read_container W k" for k
proof (cases k)
  case RootC
  show "container_file (file_of k) (\<lambda>W. store_container W k) (\<lambda>W. read_container W k)"
    using root.container_file_axioms by (simp add: RootC store_container_eta read_container_eta)
next
  case (SpC spid)
  show "container_file (file_of k) (\<lambda>W. store_container W k) (\<lambda>W. read_container W k)"
    using sp.container_file_axioms [of spid] by (simp add: SpC store_container_eta read_container_eta)
next
  case (TlC uuid spid)
  show "container_file (file_of k) (\<lambda>W. store_container W k) (\<lambda>W. read_container W k)"
    using tl.container_file_axioms [of uuid spid] by (simp add: TlC store_container_eta read_container_eta)
qed

text \<open>The containers that deleting a provider deletes: none when the provider's own container is cut short.\<close>

definition sp_removes :: "(container \<Rightarrow> u8 list option) \<Rightarrow> u32 \<Rightarrow> container set" where
  "sp_removes m spid =
     (case m (SpC spid) of
        None \<Rightarrow> {}
      | Some c \<Rightarrow> if length c < csize mcSoSpCont_t then {}
                  else insert (SpC spid) ((\<lambda>u. TlC u spid) ` (set (sp_children (take (csize mcSoSpCont_t) c)) - {MC_UUID_FREE})))"

lemma in_tl_paths: "file_of k \<in> tl_paths spid so \<longleftrightarrow> k \<in> (\<lambda>u. TlC u spid) ` (set (sp_children so) - {MC_UUID_FREE})"
proof -
  have "tl_paths spid so = file_of ` (\<lambda>u. TlC u spid) ` (set (sp_children so) - {MC_UUID_FREE})"
    by (simp add: tl_paths_def image_image)
  then show ?thesis using file_of_inj by blast
qed

lemma view_eq: "fs_get t (file_of k) = fs_get s (file_of k) \<Longrightarrow> view t k = view s k"
  by (simp add: view_def)

lemma cleanup_sp_view:
  assumes "mcRegistryCleanupSp W spid s = (MC_DRV_OK, t)"
  shows "view t = without (sp_removes (view s) spid) (view s)" "view s (SpC spid) \<noteq> None"
proof -
  obtain c where c: "fs_get s (getSpContFilePath spid) = Some (File c)" "length c < csize mcSoSpCont_t \<Longrightarrow> fs_get t = fs_get s"
    using cleanup_sp(4) [OF assms container_path_file_of] by blast
  then have v: "view s (SpC spid) = Some c" by (simp add: view_def)
  then show "view s (SpC spid) \<noteq> None" by simp
  show "view t = without (sp_removes (view s) spid) (view s)"
  proof (cases "length c < csize mcSoSpCont_t")
    case True
    then show ?thesis using c(2) v by (simp add: fun_eq_iff view_def sp_removes_def without_def)
  next
    case False
    have "view t k = without (sp_removes (view s) spid) (view s) k" for k
    proof -
      have "file_of k = getSpContFilePath spid \<longleftrightarrow> k = SpC spid" using file_of_inj [of k "SpC spid"] by simp
      then show ?thesis
        using cleanup_sp(3) [OF assms container_path_file_of refl c(1), of k] False v in_tl_paths [of k spid]
        by (auto simp: view_def sp_removes_def without_def)
    qed
    then show ?thesis by (rule ext)
  qed
qed

lemma cleanup_sps_view:
  "cleanup_sps W ids s = (MC_DRV_OK, t) \<Longrightarrow> view t = without (\<Union>i\<in>set ids - {MC_SPID_FREE}. sp_removes (view s) i) (view s)"
proof (induction ids arbitrary: s)
  case (Cons i ids)
  show ?case
  proof (cases "i = MC_SPID_FREE")
    case True
    then show ?thesis using Cons by simp
  next
    case False
    obtain r1 s1 where c: "mcRegistryCleanupSp W i s = (r1, s1)" by force
    have ok: "mcRegistryCleanupSp W i s = (MC_DRV_OK, s1)" "cleanup_sps W ids s1 = (MC_DRV_OK, t)"
      using Cons.prems c False by (auto split: if_splits)
    have v: "view s1 = without (sp_removes (view s) i) (view s)" by (rule cleanup_sp_view [OF ok(1)])
    have same: "sp_removes (view s1) j \<subseteq> sp_removes (view s) j" "j \<noteq> i \<Longrightarrow> sp_removes (view s1) j = sp_removes (view s) j" for j
      by (auto simp: v sp_removes_def without_def split: option.splits if_splits)
    have "(\<Union>j\<in>set ids - {MC_SPID_FREE}. sp_removes (view s1) j) \<union> sp_removes (view s) i =
        (\<Union>j\<in>set (i # ids) - {MC_SPID_FREE}. sp_removes (view s) j)"
      using same False by fastforce
    then show ?thesis using Cons.IH [OF ok(2)] v unfolding without_def fun_eq_iff by (metis (no_types, lifting) Un_iff)
  qed
qed (simp add: without_def)

lemma read_container_view:
  assumes "read_container W k n s = (MC_DRV_OK, b, t)"
  shows "view t = view s" "\<exists>c. view s k = Some c \<and> b = take n c \<and> b \<noteq> []"
  using any.read_keeps [OF assms] any.read_ok [OF assms] by (auto simp: view_def fun_eq_iff)

lemma registry_sizes:
  "csize mcSoRootCont_t = 220" "csize mcSoSpCont_t = 396" "csize mcSoHeader_t = 44"
  "csize mcBlobLenInfo_t = 32" "csize uuid_attestation = 40" "offsetof uuid_attestation [''magic''] = 0"
  "offsetof uuid_attestation [''size''] = 8" "offsetof uuid_attestation [''version''] = 12" "offsetof uuid_attestation [''uuid''] = 16"
  "offsetof mcBlobLenInfo_t [''rootContBlobSize''] = 4" "offsetof mcBlobLenInfo_t [''spContBlobSize''] = 8"
  "offsetof mcBlobLenInfo_t [''tlContBlobSize''] = 12"
  by (simp_all add: clayout round_up_def offsetof_def member_def mcBlobLenInfo_t_def uuid_attestation_def uuid_public_key_def)

lemma data_size: "csize mcSoDataCont_t = 2168"
    "offsetof mcSoDataCont_t [''soHeader'', ''plainLen''] + 4 \<le> 44" "offsetof mcSoDataCont_t [''soHeader'', ''encryptedLen''] + 4 \<le> 44"
  by (simp_all add: clayout round_up_def offsetof_def member_def)

section \<open>What is promised of the containers\<close>

text \<open>
  C17: Storing a container refines an update of the map: on success, when no byte of the write is lost,
  the container has the bytes given and every other container those it had before; on an error nothing
  has changed. Reading gives the first bytes of what the map has and changes nothing.
\<close>

theorem containers_refine_map:
  "(store_container W k (Some c) s = (r, t) \<and> rg_lost W (rg_time s + 1) = 0 \<longrightarrow>
      view t = (if r = MC_DRV_OK then (view s)(k \<mapsto> c) else view s))
   \<and> (store_container W k so s = (r, t) \<and> l \<noteq> k \<longrightarrow> view t l = view s l)
   \<and> (read_container W k n s = (r, b, t) \<longrightarrow>
      view t = view s \<and> (r = MC_DRV_OK \<longrightarrow> (\<exists>d. view s k = Some d \<and> b = take n d \<and> b \<noteq> [])))"
proof (intro conjI impI)
  assume a: "store_container W k (Some c) s = (r, t) \<and> rg_lost W (rg_time s + 1) = 0"
  show "view t = (if r = MC_DRV_OK then (view s)(k \<mapsto> c) else view s)"
  proof (cases "r = MC_DRV_OK")
    case True
    then have "fs_get t = (fs_get s)(file_of k \<mapsto> File c)" using a any.store_ok [of W k "Some c" s t] by auto
    then show ?thesis using True by (auto simp: view_def fun_eq_iff file_of_inj)
  next
    case False
    then show ?thesis using a any.store_err [of W k "Some c" s r t] by (simp add: view_def fun_eq_iff)
  qed
next
  assume "store_container W k so s = (r, t) \<and> l \<noteq> k"
  then show "view t l = view s l" using any.store_elsewhere [of W k so s r t "file_of l"] by (simp add: view_def file_of_inj)
next
  assume "read_container W k n s = (r, b, t)"
  then show "view t = view s" by (simp add: view_def fun_eq_iff any.read_keeps)
next
  assume "read_container W k n s = (r, b, t)" "r = MC_DRV_OK"
  then show "\<exists>d. view s k = Some d \<and> b = take n d \<and> b \<noteq> []" using read_container_view(2) by simp
qed

text \<open>
  C13: Deleting a service provider deletes its container and those of the trusted applications it lists,
  and no container of another provider, whether it succeeds or not. On success exactly these are
  gone; but when the provider's container is cut short, success is reported with nothing deleted.
\<close>

theorem sp_cleanup_refines:
  assumes "mcRegistryCleanupSp W spid s = (r, t)"
  shows "(r = MC_DRV_OK \<longrightarrow> view t = without (sp_removes (view s) spid) (view s))
    \<and> (\<forall>k. k \<noteq> SpC spid \<and> (\<forall>u. k \<noteq> TlC u spid) \<longrightarrow> view t k = view s k)"
proof (intro conjI impI allI)
  assume "r = MC_DRV_OK"
  then show "view t = without (sp_removes (view s) spid) (view s)" using assms cleanup_sp_view(1) by blast
next
  fix k assume k: "k \<noteq> SpC spid \<and> (\<forall>u. k \<noteq> TlC u spid)"
  have "file_of k \<noteq> file_of (SpC spid)" "\<forall>u. file_of k \<noteq> file_of (TlC u spid)" using k unfolding file_of_inj by simp_all
  then show "view t k = view s k" using cleanup_sp(2) [OF assms container_path_file_of, of k] by (simp add: view_def)
qed


text \<open>
  A provider's container that is cut short makes its deletion report success although nothing
  is deleted, neither the container nor the trusted applications.
\<close>

theorem cut_short_provider_survives:
  assumes "spid \<noteq> 0" "view s (SpC spid) = Some c" "c \<noteq> []" "length c < csize mcSoSpCont_t"
    and "\<not> rg_deny W (rg_time s) (OpenRead (getSpContFilePath spid))"
  shows "\<exists>t. mcRegistryCleanupSp W spid s = (MC_DRV_OK, t) \<and> rg_files t = rg_files s"
proof -
  have "fs_get s (getSpContFilePath spid) = Some (File c)" using assms(2) by (auto simp: view_def split: option.splits node.splits)
  then show ?thesis using assms by (simp add: mcRegistryCleanupSp_def mcRegistryReadSp_def read_so_def open_rb_def call_def)
qed

section \<open>Bounds\<close>

lemma rd_spec:
  assumes "rd W buf off n s = (b, t)"
  shows "rg_faults t = rg_faults s \<longleftrightarrow> off + n \<le> length buf" "length b = n" "fs_get t = fs_get s" "rg_time t = rg_time s"
    "off + n \<le> length buf \<Longrightarrow> b = take n (drop off buf) \<and> t = s"
    "length (rg_faults t) = length (rg_faults s) + (if off + n \<le> length buf then 0 else 1)"
proof -
  show "off + n \<le> length buf \<Longrightarrow> b = take n (drop off buf) \<and> t = s"
    using assms by (auto simp: rd_def intro!: nth_equalityI)
qed (use assms in \<open>auto simp: rd_def fun_eq_iff split: if_splits\<close>)

lemma wr_spec:
  assumes "wr off bs buf s = (b, t)"
  shows "off + length bs \<le> length buf \<Longrightarrow> t = s" "\<not> off + length bs \<le> length buf \<Longrightarrow> rg_faults t = (off + length bs, length buf) # rg_faults s"
    "length b = length buf"
  using assms by (auto simp: wr_def)

lemma read_so_length: "read_so W p n s = (r, b, t) \<Longrightarrow> length b \<le> n"
  by (auto simp: read_so_def Let_def split: option.splits prod.splits)

lemma read_lengths:
  "mcRegistryReadRoot W n s = (r, b, t) \<Longrightarrow> length b \<le> n \<and> rg_faults t = rg_faults s"
  "mcRegistryReadSp W spid n s = (r, b, t) \<Longrightarrow> length b \<le> n \<and> rg_faults t = rg_faults s"
  "mcRegistryReadTrustletCon W uuid spid n s = (r, b, t) \<Longrightarrow> length b \<le> n \<and> rg_faults t = rg_faults s"
  using read_so_length read_so_spec(2)
  by (auto simp: mcRegistryReadRoot_def mcRegistryReadSp_def mcRegistryReadTrustletCon_def split: if_splits)

lemma append_containers_bounds:
  assumes ap: "append_containers W spid uuid tlSize buf s = (MC_DRV_OK, out, n, t)"
    and len: "length buf = csize mcBlobLenInfo_t + tlSize + 1536"
  shows "rg_faults t = rg_faults s \<longleftrightarrow> n \<le> 1536" "n \<le> 1536 + 2 * csize mcBlobLenInfo_t" "length out = length buf"
proof -
  obtain r1 root s1 where r1: "mcRegistryReadRoot W (csize mcSoRootCont_t) s = (r1, root, s1)" by (metis prod_cases3)
  obtain b1 s2 where w1: "wr (csize mcBlobLenInfo_t + tlSize) root buf s1 = (b1, s2)" by force
  obtain b2 s3 where w2: "wr 4 (le_bytes 4 (of_nat (length root))) b1 s2 = (b2, s3)" by force
  obtain r2 sp s4 where r2: "mcRegistryReadSp W spid (csize mcSoSpCont_t) s3 = (r2, sp, s4)" by (metis prod_cases3)
  obtain b3 s5 where w3: "wr (csize mcBlobLenInfo_t + tlSize + length root) sp b2 s4 = (b3, s5)" by force
  obtain b4 s6 where w4: "wr 8 (le_bytes 4 (of_nat (length sp))) b3 s5 = (b4, s6)" by force
  define room where "room = tlSize + csize mcBlobLenInfo_t + 3 * MAX_SO_CONT_SIZE - tlSize + csize mcBlobLenInfo_t - length sp - length root"
  obtain r3 tl s7 where r3: "mcRegistryReadTrustletCon W uuid spid room s6 = (r3, tl, s7)" by (metis prod_cases3)
  obtain b5 s8 where w5: "wr (csize mcBlobLenInfo_t + tlSize + length root + length sp) tl b4 s7 = (b5, s8)" by force
  obtain b6 s9 where w6: "wr 12 (le_bytes 4 (of_nat (length tl))) b5 s8 = (b6, s9)" by force
  have e: "out = b6" "n = length root + length sp + length tl" "t = s9"
    using ap r1 w1 w2 r2 w3 w4 r3 w5 w6 by (auto simp: append_containers_def registry_sizes room_def split: if_splits)
  note l = read_lengths(1) [OF r1] read_lengths(2) [OF r2] read_lengths(3) [OF r3]
  have b: "length b1 = length buf" "length b2 = length buf" "length b3 = length buf" "length b4 = length buf"
    "length b5 = length buf" "length b6 = length buf"
    using wr_spec(3) [OF w1] wr_spec(3) [OF w2] wr_spec(3) [OF w3] wr_spec(3) [OF w4] wr_spec(3) [OF w5] wr_spec(3) [OF w6] by simp_all
  show "length out = length buf" using b(6) e(1) by simp
  show "n \<le> 1536 + 2 * csize mcBlobLenInfo_t" using e(2) l by (auto simp: room_def registry_sizes)
  have "s2 = s1" "s3 = s2" "s5 = s4" "s6 = s5" "s9 = s8"
    using wr_spec(1) [OF w1] wr_spec(1) [OF w2] wr_spec(1) [OF w3] wr_spec(1) [OF w4] wr_spec(1) [OF w6] b l len
    by (simp_all add: registry_sizes)
  moreover have "rg_faults s8 = rg_faults s7 \<longleftrightarrow> csize mcBlobLenInfo_t + tlSize + length root + length sp + length tl \<le> length b4"
    using wr_spec(1,2) [OF w5] by (metis not_Cons_self2)
  ultimately show "rg_faults t = rg_faults s \<longleftrightarrow> n \<le> 1536" using l b(4) len e(2,3) by (simp add: add.assoc)
qed

lemma le32_window: "off + 4 \<le> length b \<Longrightarrow> le32 (take 4 (drop off b)) 0 = le32 b off"
  by (simp add: le32_def byte_at_def)

lemma le32_take: "off + 4 \<le> n \<Longrightarrow> le32 (take n b) off = le32 b off"
  by (simp add: le32_def byte_at_def)

lemma header_offsets:
  "hdr_off W ''serviceType'' = 16" "hdr_off W ''uuid'' = 24" "40 \<le> csize (mclfHeaderV24_t (rg_ps W))"
proof -
  show "hdr_off W ''serviceType'' = 16" "hdr_off W ''uuid'' = 24"
    by (simp_all add: mclfHeaderV2_t_def clayout round_up_def offsetof_def member_def mclfIntro_t_def)
  have "coffset (mclfHeaderV24_t (rg_ps W)) [''mclfHeaderV2'', ''mclfHeaderV2'', ''uuid''] = Some (24, mcUuid_t)"
    by (simp add: mclfHeaderV24_t_def mclfHeaderV23_t_def mclfHeaderV2_t_def clayout round_up_def member_def mclfIntro_t_def)
  from coffset_bound [OF this] show "40 \<le> csize (mclfHeaderV24_t (rg_ps W))" by (simp add: clayout round_up_def)
qed

text \<open>
  C18: The service blob of a provider's application: its buffer is written within its bounds exactly when
  the three containers together take no more than the \<^verbatim>\<open>3 * MAX_SO_CONT_SIZE\<close> bytes it has for them. The room
  left for the last container is computed with the size of the length structure added instead of
  subtracted, so up to 64 bytes are written behind the buffer.
\<close>

theorem service_blob_bounds:
  assumes "mcRegistryMemGetServiceBlob W spid (Some blob) tlSize s = (Some ro, t)"
    and "tlSize \<le> length blob" "csize (mclfHeaderV24_t (rg_ps W)) \<le> length blob"
    and "mclf_word blob (hdr_off W ''serviceType'') = SERVICE_TYPE_SP_TRUSTLET"
  shows "(rg_faults t = rg_faults s \<longleftrightarrow> ro_len ro \<le> length (ro_value ro))
    \<and> length (ro_value ro) = csize mcBlobLenInfo_t + tlSize + 3 * MAX_SO_CONT_SIZE
    \<and> ro_len ro \<le> length (ro_value ro) + 64"
proof -
  have len: "40 \<le> length blob" using assms(3) header_offsets(3) [of W] by linarith
  have rd: "rd W blob off n u = (take n (drop off blob), u)" if "off + n \<le> length blob" for off n u
    using that rd_spec(5) [of W blob off n u "fst (rd W blob off n u)" "snd (rd W blob off n u)"] by (simp add: prod_eq_iff)
  have st: "le32 (take 4 (drop 16 blob)) 0 = SERVICE_TYPE_SP_TRUSTLET"
    using assms(4) le32_window [of 16 blob] len by (simp add: mclf_word_def header_offsets)
  define size where "size = tlSize + csize mcBlobLenInfo_t + 3 * MAX_SO_CONT_SIZE"
  define buf :: "u8 list" where "buf = le_bytes 4 (ucast MC_TLBLOBLEN_MAGIC) @ replicate (csize mcBlobLenInfo_t - 4) 0
    @ take tlSize blob @ replicate (3 * MAX_SO_CONT_SIZE) 0"
  obtain ok s1 where m: "call W (Malloc (8 + size)) s = (ok, s1)" by force
  obtain ret out n s2 where ap: "append_containers W spid (take 16 (drop 24 blob)) tlSize buf s1 = (ret, out, n, s2)"
    by (metis prod_cases4)
  have "ret = MC_DRV_OK \<and> ro = \<lparr>ro_len = csize mcBlobLenInfo_t + tlSize + n, ro_tlStartOffset = csize mcBlobLenInfo_t, ro_value = out\<rparr> \<and> t = s2"
    using assms(1) len assms(2) m ap st
    by (auto simp: mcRegistryMemGetServiceBlob_def header_offsets rd size_def buf_def Let_def split: if_splits)
  moreover have "length buf = csize mcBlobLenInfo_t + tlSize + 1536" using assms(2) by (simp add: buf_def registry_sizes)
  moreover have "rg_faults s1 = rg_faults s" using call_simps(2) [of W "Malloc (8 + size)" s] m by simp
  ultimately show ?thesis using append_containers_bounds [of W spid _ tlSize buf s1 out n s2] ap by (auto simp: registry_sizes)
qed

text \<open>
  The attestation of an application of a service provider: what is read of it lies in the blob when
  the blob has room for it behind the offset; but the guard accepts any offset inside the blob, so with
  less than twelve bytes behind it the size is read outside the blob.
\<close>

theorem attestation_bounds:
  assumes "ta_blob_uuid W spid blob s = (r, t)" "mclf_word blob (hdr_off W ''serviceType'') = SERVICE_TYPE_SP_TRUSTLET"
    and "spid < MC_SPID_SYSTEM" "length blob < 2 ^ 32"
    and "att = mclf_word blob (offsetof (mclfHeaderV24_t (rg_ps W)) [''attestationOffset''])" "unat att \<le> length blob"
  shows "(unat att + csize uuid_attestation \<le> length blob \<longrightarrow> rg_faults t = rg_faults s)
    \<and> (length blob < unat att + 12 \<longrightarrow> rg_faults t \<noteq> rg_faults s)"
proof -
  have early: "\<not> (of_nat (length blob) < att)"
    using assms(4,6) by (simp add: word_less_nat_alt unat_of_nat)
  obtain b1 s1 where 1: "rd W blob (unat att + 8) 4 s = (b1, s1)" by force
  obtain b2 s2 where 2: "rd W blob (unat att) 8 s1 = (b2, s2)" by force
  obtain b3 s3 where 3: "rd W blob (unat att + 12) 4 s2 = (b3, s3)" by force
  obtain b4 s4 where 4: "rd W blob (unat att + 16) 16 s3 = (b4, s4)" by force
  have t: "t \<in> {s1, s2, s3, s4}"
    using assms(1-3) early 1 2 3 4
    by (auto simp: ta_blob_uuid_def assms(5) [symmetric] registry_sizes not_le [symmetric] split: if_splits)
  have "rg_faults t = rg_faults s" if "unat att + csize uuid_attestation \<le> length blob"
  proof -
    have "s1 = s" "s2 = s1" "s3 = s2" "s4 = s3"
      using that rd_spec(5) [OF 1] rd_spec(5) [OF 2] rd_spec(5) [OF 3] rd_spec(5) [OF 4] by (simp_all add: registry_sizes)
    then show ?thesis using t by auto
  qed
  moreover have "rg_faults t \<noteq> rg_faults s" if "length blob < unat att + 12"
  proof -
    have "length (rg_faults s) < length (rg_faults u)" if "u \<in> {s1, s2, s3, s4}" for u
      using that \<open>length blob < unat att + 12\<close> rd_spec(6) [OF 1] rd_spec(6) [OF 2] rd_spec(6) [OF 3] rd_spec(6) [OF 4] by auto
    then show ?thesis using t by fastforce
  qed
  ultimately show ?thesis by blast
qed

text \<open>
  The data of an application: what is stored can be read again, and is then what was given, if its
  lengths are those of an object that fits into the structure; with greater lengths more is
  read, and stored, than the structure has. The directory of the data must not exist before, so a
  second object of the same application is refused.
\<close>

theorem data_roundtrip:
  assumes "mcRegistryStoreData W (Some c) s = (MC_DRV_OK, t)" "rg_lost W (rg_time s + 2) = 0"
    and "n = SO_SIZE (fst (so_lens c)) (snd (so_lens c))"
  shows "(rg_faults t = rg_faults s \<longleftrightarrow> n \<le> length c)
    \<and> (n \<le> length c \<and> csize mcSoHeader_t \<le> n \<and> data_path d = data_path c \<and> of_nat n \<le> maxLen
        \<and> \<not> rg_deny W (rg_time t) (OpenRead (snd (data_path c))) \<longrightarrow>
        (\<exists>u. mcRegistryReadData W 1 d maxLen t = (MC_DRV_OK, take n c, u)))
    \<and> (fst (data_path d) = fst (data_path c) \<longrightarrow> fst (mcRegistryStoreData W (Some d) t) = MC_DRV_ERR_INVALID_PARAMETER)"
proof -
  obtain ok s1 where mk: "mkdir_path W (fst (data_path c)) s = (ok, s1)" by force
  obtain bs s2 where rd: "rd W c 0 n s1 = (bs, s2)" by force
  have len: "length c = csize mcSoDataCont_t" and ok: "ok" and st: "store_so W (snd (data_path c)) bs s2 = (MC_DRV_OK, t)"
    using assms(1,3) mk rd by (auto simp: mcRegistryStoreData_def case_prod_beta Let_def split: if_splits)
  note mks = mkdir_path_spec [OF mk]
  have time: "rg_time s1 = rg_time s + 1" using mk by (auto simp: mkdir_path_def call_def fs_put_def split: if_splits)
  have stored: "fs_get t = (fs_get s2)(snd (data_path c) \<mapsto> File bs)"
    using store_so_spec(1) [OF st] assms(2) time rd_spec(4) [OF rd] by (simp add: numeral_2_eq_2)
  have faults: "rg_faults t = rg_faults s \<longleftrightarrow> n \<le> length c"
    using store_so_spec(3) [OF st] rd_spec(1) [OF rd] mks(2) by simp
  have "\<exists>u. mcRegistryReadData W 1 d maxLen t = (MC_DRV_OK, take n c, u)"
    if a: "n \<le> length c" "csize mcSoHeader_t \<le> n" "data_path d = data_path c" "of_nat n \<le> maxLen"
      "\<not> rg_deny W (rg_time t) (OpenRead (snd (data_path c)))"
  proof -
    have bs: "bs = take n c" using rd_spec(5) [OF rd] a(1) by simp
    have n: "44 \<le> n" "length bs = n" "length c = 2168" using a(1,2) bs len by (simp_all add: registry_sizes data_size)
    have "so_lens bs = so_lens c" using n(1) data_size(2,3) unfolding so_lens_def bs by (simp add: le32_take)
    then show ?thesis using a stored n bs
      by (simp add: mcRegistryReadData_def open_rb_def call_def case_prod_beta Let_def assms(3) [symmetric] registry_sizes not_less)
  qed
  moreover have "fst (mcRegistryStoreData W (Some d) t) = MC_DRV_ERR_INVALID_PARAMETER" if a: "fst (data_path d) = fst (data_path c)"
  proof -
    have "fst (data_path c) \<noteq> snd (data_path c)" by (simp add: data_path_def Let_def getTlDataFilePath_def)
    then have "fs_get t (fst (data_path c)) = Some Dir" using stored mks(1) ok rd_spec(3) [OF rd] by simp
    then have "\<not> fst (mkdir_path W (fst (data_path d)) t)" using a by (simp add: mkdir_path_def call_def)
    then show ?thesis by (simp add: mcRegistryStoreData_def case_prod_beta Let_def)
  qed
  ultimately show ?thesis using faults by blast
qed

section \<open>Examples\<close>

text \<open>The properties above, applied to registries with and without containers.\<close>
definition demo_world :: rgworld where
  "demo_world = \<lparr>rg_ps = 4, rg_env = None, rg_deny = (\<lambda>_ _. False), rg_lost = (\<lambda>_. 0), rg_stale = (\<lambda>_. 0)\<rparr>"

definition demo_uuid :: "u8 list" where "demo_uuid = replicate 15 0 @ [1]"

definition demo_root :: "u8 list" where "demo_root = replicate 76 0 @ [7, 0, 0, 0] @ replicate 140 0xFF"

definition demo_sp :: "u8 list" where "demo_sp = replicate 60 0 @ demo_uuid @ replicate 320 0xFF"

text \<open>A registry with a root, its provider 7 with an application, and a provider 9; and an empty one.\<close>

definition demo_registry :: rgstate where
  "demo_registry = \<lparr>rg_files = [(file_of RootC, File demo_root), (file_of (SpC 7), File demo_sp),
     (file_of (TlC demo_uuid 7), File [1]), (file_of (SpC 9), File [2])], rg_time = 0, rg_faults = []\<rparr>"

definition demo_empty :: rgstate where
  "demo_empty = \<lparr>rg_files = [(getRegistryPath, Dir)], rg_time = 0, rg_faults = []\<rparr>"

lemma demo_world_simps [simp]:
  "rg_deny demo_world n op = False" "rg_lost demo_world n = 0" "rg_ps demo_world = 4" "rg_stale demo_world n = 0"
  by (simp_all add: demo_world_def)

lemma demo_call [simp]: "call demo_world op s = (True, s\<lparr>rg_time := rg_time s + 1\<rparr>)"
  by (simp add: call_def)

lemma parent_of: "slash \<notin> set n \<Longrightarrow> parent (d @ ''/'' @ n) = d"
proof -
  assume n: "slash \<notin> set n"
  have "dropWhile (\<lambda>c. c \<noteq> slash) (rev n @ slash # rev d) = slash # rev d"
    using n by (subst dropWhile_append2) auto
  then show ?thesis by (simp add: parent_def slash_def)
qed

definition no_dirs :: "rgstate \<Rightarrow> bool" where "no_dirs s = (Dir \<notin> snd ` set (rg_files s))"

lemma no_dirs_get: "no_dirs s \<Longrightarrow> fs_get s p \<noteq> Some Dir"
  by (auto simp: no_dirs_def fs_get_def dest!: map_of_SomeD) force

lemma no_dirs_remove: "no_dirs s \<Longrightarrow> no_dirs (snd (remove_path demo_world p s))"
  by (auto simp: no_dirs_def remove_path_def fs_erase_def erase_at_def Let_def split: if_splits) 

lemma demo_remove:
  "no_dirs s \<Longrightarrow> fs_get s p = Some (File c) \<Longrightarrow> \<exists>t. remove_path demo_world p s = (True, t) \<and> no_dirs t"
  using no_dirs_remove [of s p] by (simp add: remove_path_def)

lemma demo_clean_dir [simp]: "no_dirs s \<Longrightarrow> clean_dir demo_world d s = (True, s\<lparr>rg_time := rg_time s + 1\<rparr>)"
  using no_dirs_get [of s d] by (simp add: clean_dir_def opendir_path_def is_dir_def)

lemma demo_deleteSPTA [simp]: "no_dirs s \<Longrightarrow> deleteSPTA demo_world u i chk s = s\<lparr>rg_time := rg_time s + 1\<rparr>"
  using no_dirs_get [of s getRegistryPath] by (simp add: deleteSPTA_def opendir_path_def is_dir_def)

lemma no_dirs_time [simp]: "no_dirs (s\<lparr>rg_time := n\<rparr>) = no_dirs s"
  by (simp add: no_dirs_def)

lemma demo_trustlet:
  assumes "no_dirs s" "fs_get s (file_of (TlC u i)) = Some (File c)"
  shows "\<exists>t. mcRegistryCleanupTrustlet demo_world (Some u) i s = (MC_DRV_OK, t) \<and> no_dirs t"
proof -
  define s1 where "s1 = s\<lparr>rg_time := Suc (rg_time s)\<rparr>"
  obtain x s2 where r: "remove_path demo_world (getTlBinFilePath s1 u) s1 = (x, s2)" by force
  have "no_dirs s2" using no_dirs_remove [of s1 "getTlBinFilePath s1 u"] r assms(1) by (simp add: s1_def)
  moreover have "file_of (TlC u i) \<noteq> getTlBinFilePath s1 u"
  proof -
    have "ext_of (getTlBinFilePath s1 u) = ''tlbin''"
      using ext_tlbin [of "getTlRegistryPath s1 @ ''/'' @ byteArrayToString u"] by (simp add: getTlBinFilePath_def)
    then show ?thesis using container_path_file_of [of "TlC u i"] not_container_ext(2) by (auto simp: container_path_def)
  qed
  then have "fs_get s2 (getTlContFilePath u i) = Some (File c)" using remove_path_keeps [OF r] assms(2) by (simp add: s1_def)
  ultimately obtain t where "remove_path demo_world (getTlContFilePath u i) (s2\<lparr>rg_time := rg_time s2 + 1\<rparr>) = (True, t)" "no_dirs t"
    using demo_remove [of "s2\<lparr>rg_time := rg_time s2 + 1\<rparr>" "getTlContFilePath u i" c] by auto
  then show ?thesis using assms(1) r \<open>no_dirs s2\<close> by (simp add: mcRegistryCleanupTrustlet_def s1_def [symmetric])
qed

lemma free_tls: "cleanup_tls W i (replicate n MC_UUID_FREE) s = (MC_DRV_OK, s)"
  by (induction n) simp_all

lemma free_sps: "cleanup_sps W (replicate n MC_SPID_FREE) s = (MC_DRV_OK, s)"
  by (induction n) simp_all

lemma demo_lengths: "length demo_sp = 396" "demo_sp \<noteq> []" "length demo_root = 220" "demo_root \<noteq> []"
  by (simp_all add: demo_sp_def demo_root_def demo_uuid_def)

lemma demo_uuid_used: "demo_uuid \<noteq> MC_UUID_FREE"
  by (simp add: demo_uuid_def MC_UUID_FREE_def list_eq_iff_nth_eq) (rule exI [of _ 0], simp add: nth_append)

lemma demo_children:
  "sp_children demo_sp = demo_uuid # replicate 15 MC_UUID_FREE" "root_children demo_root = 7 # replicate 15 MC_SPID_FREE"
proof -
  have o: "offsetof mcSoSpCont_t [''cont'', ''children''] = 60" "offsetof mcSoRootCont_t [''cont'', ''children''] = 76"
    by (simp_all add: clayout round_up_def offsetof_def member_def)
  show "sp_children demo_sp = demo_uuid # replicate 15 MC_UUID_FREE"
    unfolding sp_children_def o demo_sp_def demo_uuid_def MC_UUID_FREE_def by code_simp
  show "root_children demo_root = 7 # replicate 15 MC_SPID_FREE"
    unfolding root_children_def o demo_root_def by code_simp
qed

lemma demo_cleanup_sp:
  assumes "no_dirs s" "view s (SpC 7) = Some demo_sp" "view s (TlC demo_uuid 7) = Some c"
  shows "\<exists>t. mcRegistryCleanupSp demo_world 7 s = (MC_DRV_OK, t) \<and> no_dirs t"
proof -
  have f: "fs_get s (getSpContFilePath 7) = Some (File demo_sp)" "fs_get s (file_of (TlC demo_uuid 7)) = Some (File c)"
    using assms(2,3) by (auto simp: view_def split: option.splits node.splits)
  define s1 where "s1 = s\<lparr>rg_time := rg_time s + 1\<rparr>"
  have s1: "no_dirs s1" "fs_get s1 (file_of (TlC demo_uuid 7)) = Some (File c)" using assms(1) f(2) by (simp_all add: s1_def)
  obtain s2 where s2: "mcRegistryCleanupTrustlet demo_world (Some demo_uuid) 7 s1 = (MC_DRV_OK, s2)" "no_dirs s2"
    using demo_trustlet [OF s1] by blast
  have "mcRegistryReadSp demo_world 7 (csize mcSoSpCont_t) s = (MC_DRV_OK, demo_sp, s1)"
    using f(1) by (simp add: demo_lengths mcRegistryReadSp_def read_so_def open_rb_def registry_sizes s1_def)
  moreover have tls: "cleanup_tls demo_world 7 (sp_children demo_sp) s1 = (MC_DRV_OK, s2)"
    using s2(1) demo_uuid_used by (simp add: demo_children free_tls)
  moreover have "fs_get s2 (getSpContFilePath 7) = Some (File demo_sp)"
    using cleanup_trustlet(1) [OF s2(1) container_paths(1), of 7] f(1) kinds_differ(1) by (simp add: s1_def)
  then obtain t where "remove_path demo_world (getSpContFilePath 7) (s2\<lparr>rg_time := rg_time s2 + 2\<rparr>) = (True, t)" "no_dirs t"
    using demo_remove [of "s2\<lparr>rg_time := rg_time s2 + 2\<rparr>" "getSpContFilePath 7" demo_sp] s2(2) by auto
  ultimately show ?thesis using s2(2) by (simp add: demo_lengths mcRegistryCleanupSp_def registry_sizes)
qed

lemma demo_views:
  "no_dirs demo_registry" "view demo_registry (SpC 7) = Some demo_sp" "view demo_registry (TlC demo_uuid 7) = Some [1]"
  "view demo_registry RootC = Some demo_root" "view demo_registry (SpC 9) = Some [2]"
  by (simp_all add: no_dirs_def demo_registry_def view_def fs_get_def file_of_inj del: file_of.simps)

theorem sp_cleanup_refines_witness:
  "\<exists>t. mcRegistryCleanupSp demo_world 7 demo_registry = (MC_DRV_OK, t)
     \<and> view t = without {SpC 7, TlC demo_uuid 7} (view demo_registry) \<and> view t (SpC 9) = Some [2]"
proof -
  obtain t where t: "mcRegistryCleanupSp demo_world 7 demo_registry = (MC_DRV_OK, t)"
    using demo_cleanup_sp [of demo_registry] demo_views by blast
  have "sp_removes (view demo_registry) 7 = {SpC 7, TlC demo_uuid 7}"
    using demo_uuid_used by (auto simp: sp_removes_def demo_views registry_sizes demo_children demo_lengths)
  then show ?thesis using sp_cleanup_refines [OF t] t demo_views(5) by (simp add: without_def)
qed


theorem cut_short_provider_survives_witness:
  "\<exists>t. mcRegistryCleanupSp demo_world 9 demo_registry = (MC_DRV_OK, t) \<and> rg_files t = rg_files demo_registry"
  by (rule cut_short_provider_survives [of 9 demo_registry "[2]"]) (simp_all add: demo_views registry_sizes)

theorem containers_refine_map_witness:
  "\<exists>t u. store_container demo_world (SpC 7) (Some [1, 2]) demo_empty = (MC_DRV_OK, t)
     \<and> view t = (view demo_empty)(SpC 7 \<mapsto> [1, 2]) \<and> view t RootC = view demo_empty RootC
     \<and> read_container demo_world (SpC 7) 1 t = (MC_DRV_OK, [1], u) \<and> view u = view t"
proof -
  have "parent (getRegistryPath @ ''/'' @ uint32ToString 7 @ ''.spcont'') = getRegistryPath"
    by (rule parent_of) (use uint32ToString_plain(2) in \<open>auto simp: slash_def\<close>)
  then have p: "parent (getSpContFilePath 7) = getRegistryPath" by (simp add: getSpContFilePath_def)
  have ne: "getRegistryPath \<noteq> getSpContFilePath 7" by (simp add: getSpContFilePath_def)
  obtain r t where t: "store_container demo_world (SpC 7) (Some [1, 2]) demo_empty = (r, t)" by force
  have r: "r = MC_DRV_OK" "fs_get t (getSpContFilePath 7) = Some (File [1, 2])"
    using t ne by (auto simp: mcRegistryStoreSp_def store_so_def write_file_def p is_dir_def demo_empty_def fs_get_def fs_put_def tree_put_def)
  have u: "read_container demo_world (SpC 7) 1 t = (MC_DRV_OK, [1], t\<lparr>rg_time := Suc (rg_time t)\<rparr>)"
    using r(2) by (simp add: mcRegistryReadSp_def read_so_def open_rb_def)
  show ?thesis
    using containers_refine_map [of demo_world "SpC 7" "[1, 2]" demo_empty r t "Some [1, 2]" RootC 1 "[1]"]
      containers_refine_map [of demo_world "SpC 7" "[]" t MC_DRV_OK "t\<lparr>rg_time := Suc (rg_time t)\<rparr>" None RootC 1 "[1]"]
      t u r(1) by auto
qed

text \<open>Three containers of the greatest size fill the buffer of a service blob and 64 bytes behind it.\<close>

definition demo_blob :: "u8 list" where
  "demo_blob = [0x4D, 0x43, 0x4C, 0x46] @ replicate 12 0 @ [2, 0, 0, 0] @ replicate 180 0"

definition demo_full :: rgstate where
  "demo_full = \<lparr>rg_files = [(file_of RootC, File demo_root), (file_of (SpC 7), File demo_sp),
     (file_of (TlC (replicate 16 0) 7), File (replicate 1536 1))], rg_time = 0, rg_faults = []\<rparr>"

lemma demo_blob_words:
  "length demo_blob = 200" "le32 (take 4 demo_blob) 0 = MC_SERVICE_HEADER_MAGIC_BE" "le32 (take 4 (drop 16 demo_blob)) 0 = 2"
  "take 16 (drop 24 demo_blob) = replicate 16 0" "mclf_word demo_blob 16 = 2"
  by (simp_all add: demo_blob_def le32_def byte_at_def mclf_word_def nth_append drop_Cons' take_Cons')

lemma demo_header: "csize (mclfHeaderV24_t 4) = 104" "offsetof (mclfHeaderV24_t 4) [''attestationOffset''] = 100"
  by (simp_all add: mclfHeaderV24_t_def mclfHeaderV23_t_def mclfHeaderV2_t_def segmentDescriptor_t_def mclfIntro_t_def
      clayout round_up_def offsetof_def member_def)

theorem service_blob_bounds_witness:
  "\<exists>ro t. mcRegistryMemGetServiceBlob demo_world 7 (Some demo_blob) 200 demo_full = (Some ro, t)
     \<and> ro_len ro = length (ro_value ro) + 64 \<and> rg_faults t \<noteq> rg_faults demo_full"
proof -
  have f: "fs_get demo_full getRootContFilePath = Some (File demo_root)" "fs_get demo_full (getSpContFilePath 7) = Some (File demo_sp)"
    "fs_get demo_full (getTlContFilePath (replicate 16 0) 7) = Some (File (replicate 1536 1))"
    using file_of_inj [of "SpC 7" RootC] file_of_inj [of "TlC (replicate 16 0) 7" RootC] file_of_inj [of "TlC (replicate 16 0) 7" "SpC 7"]
    by (simp_all add: demo_full_def fs_get_def)
  have rd: "rd W demo_blob off n u = (take n (drop off demo_blob), u)" if "off + n \<le> 200" for W off n u
    using that rd_spec(5) [of W demo_blob off n u "fst (rd W demo_blob off n u)" "snd (rd W demo_blob off n u)"]
    by (simp add: prod_eq_iff demo_blob_words)
  have read: "read_so demo_world p n s = (MC_DRV_OK, take n c, s\<lparr>rg_time := Suc (rg_time s)\<rparr>)"
    if "fs_get s p = Some (File c)" "take n c \<noteq> []" for p n c s using that by (simp add: read_so_def open_rb_def)
  have wr: "fs_get (snd (wr off bs b u)) = fs_get u" for off bs b u by (simp add: wr_def fun_eq_iff)
  have ap: "\<exists>out t. append_containers demo_world 7 (replicate 16 0) 200 buf (demo_full\<lparr>rg_time := k\<rparr>) = (MC_DRV_OK, out, 1600, t)" for buf k
    by (simp add: append_containers_def Let_def case_prod_beta mcRegistryReadRoot_def mcRegistryReadSp_def mcRegistryReadTrustletCon_def
        read wr f registry_sizes demo_lengths)
  have time: "rg_time demo_full = 0" by (simp add: demo_full_def)
  obtain out t where "append_containers demo_world 7 (replicate 16 0) 200
      (le_bytes 4 (ucast MC_TLBLOBLEN_MAGIC) @ replicate (csize mcBlobLenInfo_t - 4) 0 @ take 200 demo_blob @ replicate (3 * MAX_SO_CONT_SIZE) 0)
      (demo_full\<lparr>rg_time := Suc 0\<rparr>) = (MC_DRV_OK, out, 1600, t)" using ap by blast
  then obtain ro where g: "mcRegistryMemGetServiceBlob demo_world 7 (Some demo_blob) 200 demo_full = (Some ro, t)" "ro_len ro = 32 + 200 + 1600"
    by (simp add: mcRegistryMemGetServiceBlob_def rd header_offsets [of demo_world, simplified] demo_blob_words Let_def
        registry_sizes time)
  show ?thesis
    using service_blob_bounds [OF g(1)] g by (simp add: demo_blob_words demo_header header_offsets [of demo_world, simplified] registry_sizes)
qed

definition demo_attested :: "nat \<Rightarrow> u8 list" where
  "demo_attested n = replicate 16 0 @ [2, 0, 0, 0] @ replicate 80 0 @ [104, 0, 0, 0] @ replicate n 0"

theorem attestation_bounds_witness:
  "rg_faults (snd (ta_blob_uuid demo_world 7 (demo_attested 40) demo_empty)) = []
     \<and> rg_faults (snd (ta_blob_uuid demo_world 7 (demo_attested 0) demo_empty)) \<noteq> []"
proof -
  have w: "mclf_word (demo_attested n) 16 = 2" "mclf_word (demo_attested n) 100 = 104" "length (demo_attested n) = 104 + n" for n
    by (simp_all add: demo_attested_def mclf_word_def le32_def byte_at_def nth_append)
  have e: "rg_faults demo_empty = []" by (simp add: demo_empty_def)
  show ?thesis
    using attestation_bounds [of demo_world 7 "demo_attested 40" demo_empty _ _ 104] attestation_bounds [of demo_world 7 "demo_attested 0" demo_empty _ _ 104]
    by (simp add: w e header_offsets [of demo_world, simplified] demo_header registry_sizes prod_eq_iff)
qed

definition demo_data :: "u8 list" where "demo_data = replicate 44 0 @ [5, 0, 0, 0] @ replicate 2120 0"

theorem data_roundtrip_witness:
  "\<exists>t u. mcRegistryStoreData demo_world (Some demo_data) demo_empty = (MC_DRV_OK, t)
     \<and> mcRegistryReadData demo_world 1 demo_data 3000 t = (MC_DRV_OK, take 92 demo_data, u)
     \<and> fst (mcRegistryStoreData demo_world (Some demo_data) t) = MC_DRV_ERR_INVALID_PARAMETER"
proof -
  define dir path where "dir = getTlDataPath (replicate 16 0)" and "path = getTlDataFilePath (replicate 16 0) 0"
  have "offsetof mcSoDataCont_t [''cont'', ''type''] = 44" "offsetof mcSoDataCont_t [''cont'', ''uuid''] = 52"
    "offsetof mcSoDataCont_t [''cont'', ''pid'', ''data''] = 68"
    by (simp_all add: clayout round_up_def offsetof_def member_def)
  moreover have "so_lens demo_data = (0, 0)" using data_size(2,3) by (simp add: so_lens_def demo_data_def le32_def byte_at_def nth_append)
  ultimately have d: "data_path demo_data = (dir, path)" "so_lens demo_data = (0, 0)" "length demo_data = 2168"
    "le32 demo_data (offsetof mcSoDataCont_t [''cont'', ''type'']) = 5"
    by (simp_all add: Let_def data_path_def dir_def path_def demo_data_def le32_def byte_at_def nth_append)
  have par: "parent dir = getRegistryPath" "parent path = dir"
    unfolding dir_def path_def getTlDataPath_def getTlDataFilePath_def
    using uint32ToString_plain(2) byteArrayToString_plain(2) by (intro parent_of; auto simp: slash_def)+
  have ne: "dir \<noteq> getRegistryPath" "path \<noteq> dir" "path \<noteq> getRegistryPath"
    by (simp_all add: dir_def path_def getTlDataPath_def getTlDataFilePath_def)
  have so: "SO_SIZE 0 0 = 92" by (simp add: SO_SIZE_def registry_sizes)
  obtain r t where t: "mcRegistryStoreData demo_world (Some demo_data) demo_empty = (r, t)" by force
  have r: "r = MC_DRV_OK"
    using t ne by (simp add: mcRegistryStoreData_def d data_size mkdir_path_def is_dir_def par so rd_def store_so_def write_file_def
      demo_empty_def fs_get_def fs_put_def tree_put_def erase_at_def)
  show ?thesis
    using data_roundtrip [of demo_world demo_data demo_empty t 92 demo_data 3000] t r
    by (simp add: d so registry_sizes)
qed

end
