(* ===== verification/CommandHandler.thy ===== *)
theory CommandHandler
  imports ContentManager ProvisioningEngine
begin

text \<open>
  The entry points of \<^verbatim>\<open>rootpa\<close> (\<^verbatim>\<open>commandhandler.c\<close>): single commands to the content management
  trustlet, queries on the registry, and the start of a provisioning thread. What a caller's pointer
  is written to is an argument and a result; \<open>None\<close> is NULL.
\<close>

section \<open>Requests to the content management trustlet\<close>

abbreviation (input) ROOTPA_ERROR_INTERNAL_NO_CONTAINER :: u32 where "ROOTPA_ERROR_INTERNAL_NO_CONTAINER \<equiv> 0x30"
abbreviation (input) CMP_VERSION_TAG2 :: u32 where "CMP_VERSION_TAG2 \<equiv> 2"
abbreviation (input) GET_VERSION_COMMAND_LENGTH :: nat where "GET_VERSION_COMMAND_LENGTH \<equiv> 4"
abbreviation (input) GET_SUID_COMMAND_LENGTH :: nat where "GET_SUID_COMMAND_LENGTH \<equiv> 4"
abbreviation (input) MC_CONT_STATE_UNREGISTERED :: u32 where "MC_CONT_STATE_UNREGISTERED \<equiv> 0"
abbreviation (input) REQUEST_DATA_TLT :: u32 where "REQUEST_DATA_TLT \<equiv> 1"
abbreviation (input) REQUEST_DATA_KEY :: u32 where "REQUEST_DATA_KEY \<equiv> 2"

definition executeCmpCommands ::
    "rworld \<Rightarrow> (CmpMessage \<times> CmpMessage) list \<Rightarrow> rstate \<Rightarrow> u32 \<times> u32 \<times> (CmpMessage \<times> CmpMessage) list \<times> rstate" where
  "executeCmpCommands W msgs s = executeContentManagementCommands W msgs s"

definition openSessionToCmtl :: "rworld \<Rightarrow> rstate \<Rightarrow> u32 \<times> rstate" where
  "openSessionToCmtl W s = openCmtlSession W s"

definition closeSessionToCmtl :: "rworld \<Rightarrow> rstate \<Rightarrow> rstate" where
  "closeSessionToCmtl W s = closeCmtlSession W s"

definition zero_message :: CmpMessage where
  "zero_message = \<lparr>cm_length = 0, contentP = 0, ignoreError = False, hdr_ret = 0, intRet = 0, hdr_id = 0\<rparr>"

text \<open>
  The command both queries send: four bytes that hold its identifier. The result is NULL in the
  first component when there is no memory.
\<close>

definition query_command :: "rworld \<Rightarrow> u32 \<Rightarrow> rstate \<Rightarrow> CmpMessage \<times> rstate" where
  "query_command W commandId s =
     (let (p, s) = malloc W 4 s
      in (zero_message\<lparr>cm_length := 4, contentP := p\<rparr>, if p = 0 then s else poke p 0 (le_bytes 4 (ucast commandId)) s))"

definition run_query :: "rworld \<Rightarrow> CmpMessage \<Rightarrow> rstate \<Rightarrow> u32 \<times> u32 \<times> CmpMessage \<times> CmpMessage \<times> rstate" where
  "run_query W command s =
     (let (ret, internalError, out, s) = executeContentManagementCommands W [(command, zero_message)] s
      in (ret, internalError, fst (hd out), snd (hd out), s))"

definition getVersion :: "rworld \<Rightarrow> u32 \<Rightarrow> u8 list \<Rightarrow> rstate \<Rightarrow> u32 \<times> u32 \<times> u8 list \<times> rstate" where
  "getVersion W tag version s =
     (let (command, s) = query_command W MC_CMP_CMD_GET_VERSION s in
      if contentP command = 0 then (ROOTPA_ERROR_OUT_OF_MEMORY, tag, version, s)
      else
        let (ret, internalError, command, response, s) = run_query W command s;
            rsp = contentP response;
            (ret, tag, version, s) =
              (if ROOTPA_OK = ret \<and> 0 = internalError then
                 if cm_length response \<noteq> of_nat (csize cmpRspGetVersion_t) then (ROOTPA_ERROR_INTERNAL, tag, version, s)
                 else
                   let off = offsetof cmpRspGetVersion_t [''tag''];
                       tag = peek32 s rsp off;
                       s = touch rsp off 4 s in
                   if CMP_VERSION_TAG2 = tag then
                     let off = offsetof cmpRspGetVersion_t [''data'', ''versionData2'', ''versionInfo''];
                         n = csize mcVersionInfo_t
                     in (ret, tag, peek s rsp off n, touch rsp off n s)
                   else (ROOTPA_ERROR_INTERNAL, tag, version, s)
               else (ret, tag, version, s))
        in (ret, tag, version, free_ptr (contentP command) (free_ptr rsp s)))"

definition getSuid :: "rworld \<Rightarrow> u8 list \<Rightarrow> rstate \<Rightarrow> u32 \<times> u8 list \<times> rstate" where
  "getSuid W suid s =
     (let (command, s) = query_command W MC_CMP_CMD_GET_SUID s in
      if contentP command = 0 then (ROOTPA_ERROR_OUT_OF_MEMORY, suid, s)
      else
        let (ret, internalError, command, response, s) = run_query W command s;
            rsp = contentP response;
            (ret, suid, s) =
              (if ROOTPA_OK = ret \<and> 0 = internalError then
                 if cm_length response \<noteq> of_nat (csize cmpRspGetSuid_t) then (ROOTPA_ERROR_INTERNAL, suid, s)
                 else
                   let off = offsetof cmpRspGetSuid_t [''suid'']; n = csize mcSuid_t
                   in (ret, peek s rsp off n, touch rsp off n s)
               else (ret, suid, s))
        in (ret, suid, free_ptr (contentP command) (free_ptr rsp s)))"

section \<open>Queries on the registry\<close>

definition isRootContainerRegistered :: "rworld \<Rightarrow> bool option \<Rightarrow> rstate \<Rightarrow> u32 \<times> bool option \<times> rstate" where
  "isRootContainerRegistered W isRegisteredP s =
     (if isRegisteredP = None then (ROOTPA_ERROR_ILLEGAL_ARGUMENT, None, s)
      else
        let (result, rootContP, size, s) = regReadRoot W s;
            off = offsetof mcSoRootCont_t [''cont'', ''attribs'', ''state''];
            (ret, isRegisteredP, s) =
              (if MC_DRV_OK = result
               then (ROOTPA_OK, Some (peek32 s rootContP off \<noteq> MC_CONT_STATE_UNREGISTERED), touch rootContP off 4 s)
               else if MC_DRV_ERR_INVALID_DEVICE_FILE = result then (ROOTPA_OK, Some False, s)
               else (ROOTPA_ERROR_REGISTRY, isRegisteredP, s))
        in (ret, isRegisteredP, free_ptr rootContP s))"

definition getSpContainerState :: "rworld \<Rightarrow> u32 \<Rightarrow> u32 option \<Rightarrow> rstate \<Rightarrow> u32 \<times> u32 option \<times> rstate" where
  "getSpContainerState W spid stateP s =
     (case stateP of
        None \<Rightarrow> (ROOTPA_ERROR_ILLEGAL_ARGUMENT, None, s)
      | Some st \<Rightarrow>
          let (result, st, s) = regGetSpState W spid st s
          in (if MC_DRV_ERR_INVALID_DEVICE_FILE = result then ROOTPA_ERROR_INTERNAL_NO_CONTAINER
              else if result \<noteq> MC_DRV_OK then ROOTPA_ERROR_REGISTRY else ROOTPA_OK, Some st, s))"

text \<open>The local variable \<^verbatim>\<open>state\<close> is not initialised: \<open>st\<close> is what the stack holds.\<close>

definition isSpContainerRegistered :: "rworld \<Rightarrow> u32 \<Rightarrow> u32 \<Rightarrow> bool option \<Rightarrow> rstate \<Rightarrow> u32 \<times> bool option \<times> rstate" where
  "isSpContainerRegistered W spid st isRegisteredP s =
     (if isRegisteredP = None then (ROOTPA_ERROR_ILLEGAL_ARGUMENT, None, s)
      else
        let (ret, st, s) = getSpContainerState W spid (Some st) s in
        if ROOTPA_OK = ret then (ret, Some (st \<noteq> Some MC_CONT_STATE_UNREGISTERED), s)
        else if ROOTPA_ERROR_INTERNAL_NO_CONTAINER = ret then (ROOTPA_OK, Some False, s)
        else (ret, isRegisteredP, s))"

record TltContainerData =
  tc_uuid :: "u8 list"
  tc_state :: u32

record SpContainerStructure =
  sc_state :: u32
  nbrOfTlts :: nat
  tltContainers :: "TltContainerData list"

definition containerExists :: "u8 list \<Rightarrow> bool" where
  "containerExists uuid = (uuid \<noteq> replicate 16 0xFF)"

definition blank_structure :: SpContainerStructure where
  "blank_structure = \<lparr>sc_state = 0xFFFFFFFF, nbrOfTlts = 0,
     tltContainers = replicate MC_CONT_CHILDREN_COUNT \<lparr>tc_uuid = replicate 16 0xFF, tc_state = 0xFFFFFFFF\<rparr>\<rparr>"

definition tlt_state_off :: nat where
  "tlt_state_off = csize mcSoHeader_t + offsetof mcTltContCommon_t [''attribs'', ''state'']"

text \<open>One child of the container: its identifier is stored in the next free entry in any case.\<close>

definition structure_child ::
    "rworld \<Rightarrow> u32 \<Rightarrow> nat \<Rightarrow> nat \<Rightarrow> u32 \<times> SpContainerStructure \<times> rstate \<Rightarrow> u32 \<times> SpContainerStructure \<times> rstate" where
  "structure_child W spid spP i = (\<lambda>(ret, st, s).
     let off = offsetof mcSoSpCont_t [''cont'', ''children''] + i * 16;
         uuid = peek s spP off 16;
         s = touch spP off 16 s in
     if containerExists uuid then
       let k = nbrOfTlts st;
           entry = tltContainers st ! k;
           st = st\<lparr>tltContainers := (tltContainers st)[k := entry\<lparr>tc_uuid := uuid\<rparr>]\<rparr> in
       if ROOTPA_OK = ret then
         let (result, tltP, size, s) = regReadTlt W uuid spid s;
             (ret, st, s) =
               (if MC_DRV_OK = result
                then (ret, st\<lparr>tltContainers := (tltContainers st)[k := \<lparr>tc_uuid = uuid, tc_state = peek32 s tltP tlt_state_off\<rparr>],
                              nbrOfTlts := k + 1\<rparr>, touch tltP tlt_state_off 4 s)
                else (ROOTPA_ERROR_REGISTRY, st, s))
         in (ret, st, free_ptr tltP s)
       else (ret, st, s)
     else (ret, st, s))"

definition getSpContainerStructure ::
    "rworld \<Rightarrow> u32 \<Rightarrow> SpContainerStructure option \<Rightarrow> rstate \<Rightarrow> u32 \<times> SpContainerStructure option \<times> rstate" where
  "getSpContainerStructure W spid spContainerStructure s =
     (if spContainerStructure = None then (ROOTPA_ERROR_ILLEGAL_ARGUMENT, None, s)
      else
        let st = blank_structure;
            (result, spP, size, s) = regReadSp W spid s;
            off = offsetof mcSoSpCont_t [''cont'', ''attribs'', ''state''];
            (ret, st, s) =
              (if MC_DRV_OK = result then
                 fold (structure_child W spid spP) [0..<MC_CONT_CHILDREN_COUNT]
                   (ROOTPA_OK, st\<lparr>sc_state := peek32 s spP off\<rparr>, touch spP off 4 s)
               else if MC_DRV_ERR_INVALID_DEVICE_FILE = result then (ROOTPA_ERROR_INTERNAL_NO_CONTAINER, st, s)
               else (ROOTPA_ERROR_REGISTRY, st, s))
        in (ret, Some st, free_ptr spP s))"

section \<open>Provisioning\<close>

text \<open>
  The parameters of the thread: \<open>pp_block\<close> is the block they are in, \<open>pp_tlt\<close> the copy of the
  installation data and its block. A callback the caller leaves out is replaced by a dummy.
\<close>

datatype callback = Given | Dummy

record provisioningparams_t =
  pp_block :: nat
  pp_spid :: u32
  pp_suid :: "u8 list"
  pp_callbackP :: callback
  pp_sysInfoCallbackP :: callback
  pp_initialRel :: initialRel_t
  pp_tlt :: "(nat \<times> trustletInstallationData_t) option"

definition provisioningparams_layout :: "nat \<Rightarrow> ctype" where
  "provisioningparams_layout w = Struct
     [(''spid'', U32), (''suid'', mcSuid_t), (''callbackP'', Ptr w), (''sysInfoCallbackP'', Ptr w),
      (''initialRel'', U32), (''tltInstallationDataP'', Ptr w)]"

definition trustletInstallationData_layout :: "nat \<Rightarrow> ctype" where
  "trustletInstallationData_layout w = Struct
     [(''dataP'', Ptr w), (''dataLength'', U32), (''dataType'', U32), (''uuid'', mcUuid_t), (''minTltVersion'', U32),
      (''tltPukHashP'', Ptr w), (''tltPukHashLength'', U32), (''memoryType'', U32), (''numberOfInstances'', U32),
      (''flags'', U32)]"

text \<open>What the threads library answers, in the order of the calls.\<close>

record thworld =
  th_prov :: pworld
  th_attr_init :: "revent list \<Rightarrow> u32"
  th_create :: "revent list \<Rightarrow> u32"

abbreviation (input) th_world :: "thworld \<Rightarrow> rworld" where "th_world T \<equiv> pw_world (th_prov T)"

definition dummySysInfoCallback :: "rstate \<Rightarrow> u32 \<times> nat list \<times> rstate" where
  "dummySysInfoCallback s = (ROOTPA_OK, replicate 7 0, s)"

text \<open>The engine as the thread calls it: with its own version query, whose tag starts at 0.\<close>

definition thread_engine :: "thworld \<Rightarrow> callback \<Rightarrow> pworld" where
  "thread_engine T sysInfo = (th_prov T)\<lparr>
     pw_getVersion := getVersion (th_world T) 0 [],
     pw_sysInfo := (case sysInfo of Given \<Rightarrow> pw_sysInfo (th_prov T) | Dummy \<Rightarrow> dummySysInfoCallback)\<rparr>"

definition free_installation :: "(nat \<times> trustletInstallationData_t) option \<Rightarrow> rstate \<Rightarrow> rstate" where
  "free_installation tlt s =
     (case tlt of
        None \<Rightarrow> s
      | Some (p, d) \<Rightarrow> free_ptr p (free_ptr (td_tltPukHashP d) (free_ptr (td_dataP d) s)))"

definition provisioningThreadFunction :: "thworld \<Rightarrow> provisioningparams_t \<Rightarrow> rstate \<Rightarrow> rstate option" where
  "provisioningThreadFunction T params s =
     (let W = th_world T;
          (ret, s) = openCmtlSession W s;
          r = (if ret = ROOTPA_OK then
                 map_option (closeCmtlSession W)
                   (doProvisioningWithSe (thread_engine T (pp_sysInfoCallbackP params)) (pp_spid params) (pp_suid params)
                      (pp_initialRel params) (map_option snd (pp_tlt params)) s)
               else Some (callbackE ERROR ret s))
      in map_option
           (\<lambda>s. free_ptr (pp_block params) (free_installation (pp_tlt params) (callbackE PROVISIONING_STATE_THREAD_EXITING ROOTPA_OK s)))
           r)"

text \<open>
  Copying the installation data: \<open>Inl\<close> is the error, with what was allocated here already freed
  (the parameters are freed by the caller of this part).
\<close>

definition copy_installation ::
    "rworld \<Rightarrow> trustletInstallationData_t \<Rightarrow> rstate \<Rightarrow> (u32 + (nat \<times> trustletInstallationData_t)) \<times> rstate" where
  "copy_installation W tltDataP s =
     (let size = csize (trustletInstallationData_layout (rw_ps W));
          (p, s) = malloc W size s in
      if p = 0 then (Inl ROOTPA_ERROR_OUT_OF_MEMORY, s)
      else
        let s = poke p 0 (replicate size 0) s;
            n = unat (td_dataLength tltDataP);
            (dataP, s) = malloc W n s in
        if dataP = 0 then (Inl ROOTPA_ERROR_OUT_OF_MEMORY, free_ptr p s)
        else
          let s = poke dataP 0 (replicate n 0) s;
              s = poke dataP 0 (peek s (td_dataP tltDataP) 0 n) (touch (td_dataP tltDataP) 0 n s);
              k = unat (td_tltPukHashLength tltDataP);
              (hashP, s) = malloc W k s in
          if hashP = 0 then (Inl ROOTPA_ERROR_OUT_OF_MEMORY, free_ptr p (free_ptr dataP s))
          else
            let s = poke hashP 0 (replicate k 0) s;
                s = poke hashP 0 (peek s (td_tltPukHashP tltDataP) 0 k) (touch (td_tltPukHashP tltDataP) 0 k s)
            in (Inr (p, tltDataP\<lparr>td_dataP := dataP, td_tltPukHashP := hashP\<rparr>), s))"

text \<open>The second component is the thread that has been started, with its parameters.\<close>

definition provision ::
    "thworld \<Rightarrow> u32 \<Rightarrow> callback option \<Rightarrow> callback option \<Rightarrow> trustletInstallationData_t option \<Rightarrow> initialRel_t \<Rightarrow> rstate
      \<Rightarrow> u32 \<times> provisioningparams_t option \<times> rstate" where
  "provision T spid callbackP systemInfoCallbackP tltDataP initialRel s =
     (let W = th_world T;
          cb = (case callbackP of None \<Rightarrow> Dummy | Some c \<Rightarrow> c);
          si = (case systemInfoCallbackP of None \<Rightarrow> Dummy | Some c \<Rightarrow> c);
          size = csize (provisioningparams_layout (rw_ps W));
          (paramsP, s) = malloc W size s in
      if paramsP = 0 then (ROOTPA_ERROR_OUT_OF_MEMORY, None, s)
      else
        let s = poke paramsP 0 (replicate size 0) s;
            (copied, s) = (case tltDataP of
                             None \<Rightarrow> (Inr None, s)
                           | Some d \<Rightarrow> let (c, s) = copy_installation W d s in (map_sum id Some c, s)) in
        case copied of
          Inl ret \<Rightarrow> (ret, None, free_ptr paramsP s)
        | Inr tlt \<Rightarrow>
            let (ret, suid, s) = getSuid W (replicate 16 0) s;
                params = \<lparr>pp_block = paramsP, pp_spid = spid, pp_suid = suid, pp_callbackP = cb, pp_sysInfoCallbackP = si,
                          pp_initialRel = initialRel, pp_tlt = tlt\<rparr> in
            if ROOTPA_OK = ret then
              if th_attr_init T (r_ev s) \<noteq> 0 then (ROOTPA_ERROR_INTERNAL, None, s)
              else if th_create T (r_ev s) \<noteq> 0 then (ROOTPA_ERROR_INTERNAL, None, free_ptr paramsP s)
              else (ret, Some params, s)
            else (ret, None, s))"

definition doProvisioning ::
    "thworld \<Rightarrow> u32 \<Rightarrow> callback option \<Rightarrow> callback option \<Rightarrow> rstate \<Rightarrow> u32 \<times> provisioningparams_t option \<times> rstate" where
  "doProvisioning T spid callbackP systemInfoCallbackP s =
     provision T spid callbackP systemInfoCallbackP None InitialRel_POST s"

definition installTrustlet ::
    "thworld \<Rightarrow> u32 \<Rightarrow> callback option \<Rightarrow> callback option \<Rightarrow> trustletInstallationData_t option \<Rightarrow> rstate
      \<Rightarrow> u32 \<times> provisioningparams_t option \<times> rstate" where
  "installTrustlet T spid callbackP systemInfoCallbackP tltDataP s =
     (case tltDataP of
        None \<Rightarrow> (ROOTPA_ERROR_ILLEGAL_ARGUMENT, None, s)
      | Some d \<Rightarrow>
          if td_dataP d = 0 \<or> td_dataLength d = 0 \<or> REQUEST_DATA_TLT \<noteq> td_dataType d \<and> REQUEST_DATA_KEY \<noteq> td_dataType d
          then (ROOTPA_ERROR_ILLEGAL_ARGUMENT, None, s)
          else provision T spid callbackP systemInfoCallbackP tltDataP InitialRel_POST s)"

definition setSeAddress :: "u8 list option \<Rightarrow> u32 \<Rightarrow> rstate \<Rightarrow> u32 \<times> rstate" where
  "setSeAddress addrP len s = setInitialAddress addrP len s"

text \<open>The paths of the schema files belong to the XML layer: \<open>setXsdPaths\<close> is a parameter.\<close>

definition setPaths :: "(u8 list option \<Rightarrow> rstate \<Rightarrow> rstate) \<Rightarrow> u8 list option \<Rightarrow> u8 list option \<Rightarrow> rstate \<Rightarrow> rstate" where
  "setPaths setXsdPaths storageDirP certDirP s = setCertPath storageDirP certDirP (setXsdPaths storageDirP s)"

definition unregisterRootContainer ::
    "thworld \<Rightarrow> callback option \<Rightarrow> callback option \<Rightarrow> rstate \<Rightarrow> u32 \<times> provisioningparams_t option \<times> rstate" where
  "unregisterRootContainer T callbackP systemInfoCallbackP s =
     provision T 0 callbackP systemInfoCallbackP None InitialRel_DELETE s"

end
