(* ===== verification/CommandHandlerLaws.thy ===== *)
theory CommandHandlerLaws
  imports CommandHandler SessionDiscipline DialogueLaws
begin

text \<open>
  The entry points of \<^verbatim>\<open>rootpa\<close>: the queries to the content management trustlet are memory safe and
  leak nothing, the structure of a container is read as the registry has it, and who owns what
  \<open>provision\<close> allocates.
\<close>

section \<open>Queries to the trustlet\<close>

lemma cmp_round_command:
  "cmp_round W c h cmd rsp s = Leave ret cmd' rsp' t \<Longrightarrow> contentP cmd' = contentP cmd \<and> ignoreError cmd' = ignoreError cmd"
  "cmp_round W c h cmd rsp s = Again cmd' rsp' t \<Longrightarrow> cmd' = cmd"
  by (auto simp: cmp_round_def Let_def split: prod.splits if_splits)

lemma cmp_loop_command: "cmp_loop W c h cmd rsp s = (ret, cmd', rsp', t)
     \<Longrightarrow> contentP cmd' = contentP cmd \<and> ignoreError cmd' = ignoreError cmd"
proof (induction W c h cmd rsp s rule: cmp_loop.induct)
  case (1 W c h cmd rsp s)
  show ?case
  proof (cases "cmp_round W c h cmd rsp s")
    case (Leave r c1 r1 u)
    then show ?thesis using "1.prems" cmp_round_command(1) [OF Leave] by (simp add: cmp_loop.simps [of W c h cmd rsp s])
  next
    case (Again c1 r1 u)
    then show ?thesis
      using "1.IH" [OF Again] "1.prems" cmp_round_command(2) [OF Again] by (simp add: cmp_loop.simps [of W c h cmd rsp s])
  qed
qed

lemma execute_one_command:
  "executeOneCmpCommand W h cmd rsp s = (ret, cmd', rsp', t)
     \<Longrightarrow> contentP cmd' = contentP cmd \<and> ignoreError cmd' = ignoreError cmd"
  using cmp_loop_command by (auto simp: executeOneCmpCommand_def Let_def split: prod.splits if_splits)

lemma malloc_frame:
  assumes "malloc W n s = (p, t)" "heap_ok s"
  shows "heap_ok t" "r_cmt t = r_cmt s" "g_handle t = g_handle s" "r_faults t = r_faults s"
    "if p = 0 then blocks t = blocks s else p \<notin> blocks s \<and> blocks t = insert p (blocks s) \<and> length (hblock t p) = n"
    "q \<in> blocks s \<Longrightarrow> hblock t q = hblock s q"
  using heap_ok_fresh [OF assms(2)] assms(2) by (cases rule: malloc_cases [OF assms(1)]; auto)+

lemma open_chan_frame:
  "open_chan W s \<Longrightarrow> heap_ok t \<Longrightarrow> r_cmt t = r_cmt s \<Longrightarrow> blocks s \<subseteq> blocks t
     \<Longrightarrow> length (hblock t (wsmP (r_cmt s))) = length (hblock s (wsmP (r_cmt s))) \<Longrightarrow> open_chan W t"
  by (auto simp: open_chan_def)

lemma splice_all: "length bs = length b \<Longrightarrow> splice_at 0 bs b = bs"
  by (simp add: splice_at_def)

lemma query_command_spec:
  assumes "query_command W c s = (cmd, t)" "open_chan W s" "contentP cmd \<noteq> 0"
  shows "r_faults t = r_faults s" "open_chan W t" "g_handle t = g_handle s" "contentP cmd \<notin> blocks s"
    "blocks t = insert (contentP cmd) (blocks s)" "wsmP (r_cmt t) = wsmP (r_cmt s)" "hblock t (contentP cmd) = le_bytes 4 (ucast c)"
    "cm_length cmd = 4" "\<not> ignoreError cmd" "hdr_id cmd = 0"
proof -
  obtain p s1 where m: "malloc W 4 s = (p, s1)" by force
  have h: "heap_ok s" using assms(2) by (simp add: open_chan_def)
  note f = malloc_frame [OF m h]
  have e: "cmd = zero_message\<lparr>cm_length := 4, contentP := p\<rparr>" "p \<noteq> 0" "t = poke p 0 (le_bytes 4 (ucast c)) s1"
    using assms(1,3) m by (auto simp: query_command_def)
  then have b: "p \<notin> blocks s" "blocks s1 = insert p (blocks s)" "length (hblock s1 p) = 4" using f(5) by auto
  then have "in_block s1 p 0 (length (le_bytes 4 (ucast c)))" by (simp add: in_block_def)
  from in_block_poke [OF this] show "r_faults t = r_faults s" using f(4) e(3) by simp
  have "wsmP (r_cmt s) \<in> blocks s" using assms(2) by (simp add: open_chan_def)
  then show "open_chan W t" using open_chan_frame [OF assms(2), of t] f b e(3) by auto
  show "g_handle t = g_handle s" "contentP cmd \<notin> blocks s" "blocks t = insert (contentP cmd) (blocks s)"
    "cm_length cmd = 4" "\<not> ignoreError cmd" "hdr_id cmd = 0"
    using e f(3) b by (simp_all add: zero_message_def)
  show "wsmP (r_cmt t) = wsmP (r_cmt s)" using e(3) f(2) by simp
  show "hblock t (contentP cmd) = le_bytes 4 (ucast c)"
    using e b by (simp add: poke_def hblock_set_block splice_all zero_message_def)
qed

lemma run_query_open:
  assumes "g_handle s \<noteq> 0" "0 < cm_length cmd" "\<not> ignoreError cmd" "hdr_id cmd = 0"
    and "executeOneCmpCommand W (g_handle s) cmd zero_message s = (ret, cmd', rsp, t)"
  shows "run_query W cmd s = (ret, 0, cmd', if ret \<noteq> ROOTPA_OK \<and> hdr_ret rsp = ROOTPA_OK then rsp\<lparr>hdr_ret := ret\<rparr> else rsp, t)"
proof -
  have z: "zero_message\<lparr>hdr_id := hdr_id cmd, ignoreError := ignoreError cmd\<rparr> = zero_message"
    using assms(3,4) by (simp add: zero_message_def)
  show ?thesis
    using assms z execute_one_command [OF assms(5)] by (auto simp: run_query_def executeContentManagementCommands_def Let_def)
qed

lemma query_ids:
  "le32 (le_bytes 4 (ucast MC_CMP_CMD_GET_VERSION)) 0 = MC_CMP_CMD_GET_VERSION" "le32 (le_bytes 4 (ucast MC_CMP_CMD_GET_SUID)) 0 = MC_CMP_CMD_GET_SUID"
  by code_simp+

lemma query_memory:
  assumes q: "query_command W c s = (cmd, s1)" and nz: "contentP cmd \<noteq> 0" and c: "c \<in> {MC_CMP_CMD_GET_VERSION, MC_CMP_CMD_GET_SUID}"
    and run: "run_query W cmd s1 = (ret, ie, cmd', rsp, t)"
    and s: "open_chan W s" "g_handle s \<noteq> 0" and w: "pointer_width W" "registry_sound W" "swd_sound W"
  shows "r_faults t = r_faults s" "open_chan W t" "wsmP (r_cmt t) = wsmP (r_cmt s)" "contentP cmd' = contentP cmd" "contentP cmd \<notin> blocks s"
    "ret \<noteq> ROOTPA_OK \<and> contentP rsp = 0 \<and> blocks t = insert (contentP cmd) (blocks s)
     \<or> contentP rsp \<notin> insert (contentP cmd) (blocks s) \<and> blocks t = insert (contentP rsp) (insert (contentP cmd) (blocks s))
       \<and> length (hblock t (contentP rsp)) = unat (cm_length rsp)"
    "ie = 0"
proof -
  note qc = query_command_spec [OF q s(1) nz]
  obtain r c1 p1 t1 where e: "executeOneCmpCommand W (g_handle s1) cmd zero_message s1 = (r, c1, p1, t1)" by (metis prod_cases4)
  have id: "getCmpCommandId s1 (contentP cmd) = c"
    using c nz qc(7) query_ids by (auto simp: getCmpCommandId_def peek32_def cmd_header_offsets)
  have "in_block s1 (contentP cmd) 0 (unat (cm_length cmd))" using qc(5,7,8) by (simp add: in_block_def)
  then have m: "r_faults t1 = r_faults s1 \<and> open_chan W t1 \<and> wsmP (r_cmt t1) = wsmP (r_cmt s1)
    \<and> (blocks t1 = blocks s1 \<and> r \<noteq> ROOTPA_OK \<and> contentP p1 \<in> {contentP zero_message, 0}
       \<or> contentP p1 \<notin> blocks s1 \<and> blocks t1 = insert (contentP p1) (blocks s1)
         \<and> length (hblock t1 (contentP p1)) = unat (cm_length p1))"
    using execute_one_memory [OF e qc(2) w] qc(8) c id by auto
  have "run_query W cmd s1 = (r, 0, c1, if r \<noteq> ROOTPA_OK \<and> hdr_ret p1 = ROOTPA_OK then p1\<lparr>hdr_ret := r\<rparr> else p1, t1)"
    using s(2) qc(3,8-10) by (intro run_query_open [OF _ _ _ _ e]) auto
  then have o: "ret = r" "ie = 0" "cmd' = c1" "t = t1" "contentP rsp = contentP p1" "cm_length rsp = cm_length p1"
    using run by auto
  show "r_faults t = r_faults s" "open_chan W t" "wsmP (r_cmt t) = wsmP (r_cmt s)" "contentP cmd' = contentP cmd" "contentP cmd \<notin> blocks s"
    using m o qc(1,4,6) execute_one_command [OF e] by simp_all
  show "ie = 0" by (rule o)
  show "ret \<noteq> ROOTPA_OK \<and> contentP rsp = 0 \<and> blocks t = insert (contentP cmd) (blocks s)
     \<or> contentP rsp \<notin> insert (contentP cmd) (blocks s) \<and> blocks t = insert (contentP rsp) (insert (contentP cmd) (blocks s))
       \<and> length (hblock t (contentP rsp)) = unat (cm_length rsp)"
    using m o qc(5) by (auto simp: zero_message_def)
qed

text \<open>What both queries read lies in the response, whose length has been checked.\<close>

lemma response_sizes:
  "offsetof cmpRspGetVersion_t [''tag''] + 4 \<le> csize cmpRspGetVersion_t"
  "offsetof cmpRspGetVersion_t [''data'', ''versionData2'', ''versionInfo''] + csize mcVersionInfo_t \<le> csize cmpRspGetVersion_t"
  "offsetof cmpRspGetSuid_t [''suid''] + csize mcSuid_t \<le> csize cmpRspGetSuid_t" "csize cmpRspGetVersion_t < 2 ^ 32"
  "csize cmpRspGetSuid_t < 2 ^ 32" "csize mcSuid_t = 16"
  by (simp_all add: clayout round_up_def offsetof_def member_def find_variant_def)

lemma query_done:
  assumes "open_chan W s" "open_chan W t" "wsmP (r_cmt t) = wsmP (r_cmt s)" "p \<notin> blocks s" "p \<noteq> 0"
    and "q = 0 \<and> blocks t = insert p (blocks s) \<or> q \<notin> insert p (blocks s) \<and> blocks t = insert q (insert p (blocks s))"
  shows "r_faults (free_ptr p (free_ptr q t)) = r_faults t" "blocks (free_ptr p (free_ptr q t)) = blocks s"
    "open_chan W (free_ptr p (free_ptr q t))"
proof -
  have h: "heap_ok t" "heap_ok s" "wsmP (r_cmt s) \<in> blocks s" using assms(1,2) by (simp_all add: open_chan_def)
  have "0 \<notin> blocks s" "0 \<notin> blocks t" using heap_ok_fresh(2) h by blast+
  then show b: "blocks (free_ptr p (free_ptr q t)) = blocks s" using assms(4-6) h(1) by auto
  have "q = 0 \<or> q \<in> blocks t" "p \<in> blocks (free_ptr q t)" using assms(5,6) h(1) by auto
  then show "r_faults (free_ptr p (free_ptr q t)) = r_faults t" by simp
  have "wsmP (r_cmt s) \<noteq> p" "wsmP (r_cmt s) \<noteq> q" using h(3) assms(4,6) \<open>0 \<notin> blocks s\<close> by auto
  then show "open_chan W (free_ptr p (free_ptr q t))" using assms(2,3) b h by (simp add: open_chan_def)
qed

lemma query_failed:
  "query_command W c s = (cmd, t) \<Longrightarrow> contentP cmd = 0 \<Longrightarrow> open_chan W s
     \<Longrightarrow> r_faults t = r_faults s \<and> blocks t = blocks s \<and> open_chan W t"
proof -
  assume a: "query_command W c s = (cmd, t)" "contentP cmd = 0" "open_chan W s"
  obtain p s1 where m: "malloc W 4 s = (p, s1)" by force
  have "heap_ok s" "wsmP (r_cmt s) \<in> blocks s" using a(3) by (simp_all add: open_chan_def)
  then show ?thesis
    using a m malloc_frame [OF m] open_chan_frame [OF a(3), of s1] by (auto simp: query_command_def zero_message_def split: if_splits)
qed

lemma open_chan_touch [simp]: "open_chan W (touch p off n s) = open_chan W s"
  by (simp add: open_chan_def)

lemma getSuid_memory:
  assumes "getSuid W suid s = (ret, suid', t)" "open_chan W s" "g_handle s \<noteq> 0" "pointer_width W" "registry_sound W" "swd_sound W"
  shows "r_faults t = r_faults s \<and> blocks t = blocks s \<and> open_chan W t
    \<and> (ret \<noteq> ROOTPA_OK \<longrightarrow> suid' = suid) \<and> (ret = ROOTPA_OK \<longrightarrow> length suid' = csize mcSuid_t)"
proof -
  obtain cmd s1 where q: "query_command W MC_CMP_CMD_GET_SUID s = (cmd, s1)" by force
  show ?thesis
  proof (cases "contentP cmd = 0")
    case True
    then show ?thesis using assms(1) q query_failed [OF q True assms(2)] by (auto simp: getSuid_def)
  next
    case False
    obtain r ie cmd' rsp u where run: "run_query W cmd s1 = (r, ie, cmd', rsp, u)" by (metis prod_cases5)
    note m = query_memory [OF q False _ run assms(2-6), simplified]
    define off where "off = offsetof cmpRspGetSuid_t [''suid'']"
    define good where "good = (r = ROOTPA_OK \<and> ie = 0 \<and> cm_length rsp = of_nat (csize cmpRspGetSuid_t))"
    define v where "v = (if good then touch (contentP rsp) off (csize mcSuid_t) u else u)"
    have e: "t = free_ptr (contentP cmd) (free_ptr (contentP rsp) v)"
      "ret \<noteq> ROOTPA_OK \<longrightarrow> suid' = suid" "ret = ROOTPA_OK \<longrightarrow> length suid' = csize mcSuid_t"
      using assms(1) q run False m(4)
      by (auto simp: getSuid_def Let_def v_def good_def off_def peek_def m(7) split: if_splits)
    have z: "r_faults v = r_faults u" "blocks v = blocks u" "open_chan W v" "wsmP (r_cmt v) = wsmP (r_cmt u)"
    proof -
      have "in_block u (contentP rsp) off (csize mcSuid_t)" if good
        using that m(6) response_sizes(3,5) by (auto simp: in_block_def good_def off_def unat_of_nat)
      then show "r_faults v = r_faults u" by (simp add: v_def touch_faults)
    qed (use m(2) in \<open>simp_all add: v_def\<close>)
    have "contentP rsp = 0 \<and> blocks v = insert (contentP cmd) (blocks s)
      \<or> contentP rsp \<notin> insert (contentP cmd) (blocks s) \<and> blocks v = insert (contentP rsp) (insert (contentP cmd) (blocks s))"
      using m(6) z(2) by auto
    then have "r_faults t = r_faults v \<and> blocks t = blocks s \<and> open_chan W t"
      using query_done [OF assms(2) z(3) _ m(5) False, of "contentP rsp"] m(3) z(4) e(1) by simp
    then show ?thesis using z(1) m(1) e(2,3) by simp
  qed
qed

lemma getVersion_memory:
  assumes "getVersion W tag version s = (ret, tag', version', t)" "open_chan W s" "g_handle s \<noteq> 0"
    "pointer_width W" "registry_sound W" "swd_sound W"
  shows "r_faults t = r_faults s \<and> blocks t = blocks s \<and> open_chan W t
    \<and> (ret \<noteq> ROOTPA_OK \<longrightarrow> version' = version) \<and> (ret = ROOTPA_OK \<longrightarrow> tag' = CMP_VERSION_TAG2)"
proof -
  obtain cmd s1 where q: "query_command W MC_CMP_CMD_GET_VERSION s = (cmd, s1)" by force
  show ?thesis
  proof (cases "contentP cmd = 0")
    case True
    then show ?thesis using assms(1) q query_failed [OF q True assms(2)] by (auto simp: getVersion_def)
  next
    case False
    obtain r ie cmd' rsp u where run: "run_query W cmd s1 = (r, ie, cmd', rsp, u)" by (metis prod_cases5)
    note m = query_memory [OF q False _ run assms(2-6), simplified]
    define off where "off = offsetof cmpRspGetVersion_t [''tag'']"
    define off2 where "off2 = offsetof cmpRspGetVersion_t [''data'', ''versionData2'', ''versionInfo'']"
    define good where "good = (r = ROOTPA_OK \<and> ie = 0 \<and> cm_length rsp = of_nat (csize cmpRspGetVersion_t))"
    define u1 where "u1 = (if good then touch (contentP rsp) off 4 u else u)"
    define v where "v = (if good \<and> peek32 u (contentP rsp) off = CMP_VERSION_TAG2
                         then touch (contentP rsp) off2 (csize mcVersionInfo_t) u1 else u1)"
    have e: "t = free_ptr (contentP cmd) (free_ptr (contentP rsp) v)"
      "ret \<noteq> ROOTPA_OK \<longrightarrow> version' = version" "ret = ROOTPA_OK \<longrightarrow> tag' = CMP_VERSION_TAG2"
      using assms(1) q run False m(4)
      by (auto simp: getVersion_def Let_def v_def u1_def good_def off_def off2_def m(7) split: if_splits)
    have z: "r_faults v = r_faults u" "blocks v = blocks u" "open_chan W v" "wsmP (r_cmt v) = wsmP (r_cmt u)"
    proof -
      have b: "contentP rsp \<in> blocks u" "length (hblock u (contentP rsp)) = csize cmpRspGetVersion_t" if good
        using that m(6) response_sizes(4) by (auto simp: good_def unat_of_nat)
      have "in_block u (contentP rsp) off 4" "in_block u (contentP rsp) off2 (csize mcVersionInfo_t)" if good
        using b [OF that] response_sizes(1,2) by (simp_all add: in_block_def off_def off2_def)
      then show "r_faults v = r_faults u" by (simp add: v_def u1_def touch_faults in_block_def)
    qed (use m(2) in \<open>simp_all add: v_def u1_def\<close>)
    have "contentP rsp = 0 \<and> blocks v = insert (contentP cmd) (blocks s)
      \<or> contentP rsp \<notin> insert (contentP cmd) (blocks s) \<and> blocks v = insert (contentP rsp) (insert (contentP cmd) (blocks s))"
      using m(6) z(2) by auto
    then have "r_faults t = r_faults v \<and> blocks t = blocks s \<and> open_chan W t"
      using query_done [OF assms(2) z(3) _ m(5) False, of "contentP rsp"] m(3) z(4) e(1) by simp
    then show ?thesis using z(1) m(1) e(2,3) by simp
  qed
qed


section \<open>The structure of a container\<close>

text \<open>The identifiers of the children that exist, in the order of the container \<open>blk\<close>.\<close>

definition child_uuids :: "u8 list \<Rightarrow> u8 list list" where
  "child_uuids blk = filter containerExists
     (map (\<lambda>i. take 16 (drop (offsetof mcSoSpCont_t [''cont'', ''children''] + i * 16) blk)) [0..<MC_CONT_CHILDREN_COUNT])"

text \<open>The state of the loop after some children \<open>us\<close>: those reported so far, and whether it has failed.\<close>

definition structure_inv :: "u32 \<Rightarrow> rstate \<Rightarrow> nat \<Rightarrow> u8 list list \<Rightarrow> u32 \<times> SpContainerStructure \<times> rstate \<Rightarrow> bool" where
  "structure_inv st0 s0 spP us = (\<lambda>(ret, st, s). heap_ok s \<and> sc_state st = st0 \<and> r_faults s = r_faults s0 \<and> blocks s = blocks s0
     \<and> hblock s spP = hblock s0 spP \<and> length (tltContainers st) = 16 \<and> nbrOfTlts st \<le> length us
     \<and> map tc_uuid (take (nbrOfTlts st) (tltContainers st)) = take (nbrOfTlts st) us
     \<and> (ret = ROOTPA_OK \<longrightarrow> nbrOfTlts st = length us) \<and> ret \<in> {ROOTPA_OK, ROOTPA_ERROR_REGISTRY})"

lemma structure_offsets:
  "offsetof mcSoSpCont_t [''cont'', ''children''] + 16 * 16 \<le> 4096" "tlt_state_off + 4 \<le> 4096"
  "offsetof mcSoSpCont_t [''cont'', ''attribs'', ''state''] + 4 \<le> 4096"
  by (simp_all add: tlt_state_off_def clayout round_up_def offsetof_def member_def)

lemma read_tlt_entry:
  assumes "regReadTlt W uuid spid s = (result, tltP, n, s1)" "heap_ok s" "spP \<in> blocks s"
    and "t = free_ptr tltP (if MC_DRV_OK = result then touch tltP tlt_state_off 4 s1 else s1)"
  shows "heap_ok t" "r_faults t = r_faults s" "blocks t = blocks s" "hblock t spP = hblock s spP"
proof -
  note r = regRead_spec [OF assms(1) [unfolded regReadTlt_def] assms(2)]
  have ib: "in_block s1 tltP tlt_state_off 4" if "MC_DRV_OK = result"
    using r(7,8) structure_offsets(2) that by (auto simp: in_block_def split: if_splits)
  define u where "u = (if MC_DRV_OK = result then touch tltP tlt_state_off 4 s1 else s1)"
  have u: "heap_ok u" "r_faults u = r_faults s" "blocks u = blocks s1" "hblock u spP = hblock s spP"
    using r ib assms(3) by (simp_all add: u_def touch_faults)
  have t: "t = free_ptr tltP u" using assms(4) by (simp add: u_def)
  show "heap_ok t" using u(1) t by simp
  show "blocks t = blocks s" "r_faults t = r_faults s" using r(7) t u heap_ok_fresh(2) [OF assms(2)] by (auto split: if_splits)
  have "tltP \<noteq> spP \<or> tltP = 0" using r(7) assms(3) by (auto split: if_splits)
  then show "hblock t spP = hblock s spP" using t u(4) by auto
qed

lemma structure_child_inv:
  assumes inv: "structure_inv st0 s0 spP us (ret, st, s)" and "length us \<le> i" "i < 16"
    and blk: "spP \<in> blocks s0" "length (hblock s0 spP) = 4096"
    and uuid: "uuid = take 16 (drop (offsetof mcSoSpCont_t [''cont'', ''children''] + i * 16) (hblock s0 spP))"
  shows "structure_inv st0 s0 spP (us @ filter containerExists [uuid]) (structure_child W spid spP i (ret, st, s))"
proof -
  define off where "off = offsetof mcSoSpCont_t [''cont'', ''children''] + i * 16"
  have off: "off + 16 \<le> 4096" using assms(3) structure_offsets(1) by (simp add: off_def)
  have i: "heap_ok s" "r_faults s = r_faults s0" "blocks s = blocks s0" "hblock s spP = hblock s0 spP"
    "length (tltContainers st) = 16" "nbrOfTlts st \<le> length us" "sc_state st = st0"
    using inv by (simp_all add: structure_inv_def)
  have pk: "peek s spP off 16 = uuid"
    using blk(2) off i(4) unfolding uuid off_def [symmetric] by (auto simp: peek_def byte_at_def intro: nth_equalityI)
  define s1 where "s1 = touch spP off 16 s"
  have s1: "heap_ok s1" "r_faults s1 = r_faults s0" "blocks s1 = blocks s0" "hblock s1 spP = hblock s0 spP"
    using i off blk by (simp_all add: s1_def touch_faults in_block_def)
  have k: "nbrOfTlts st < 16" using i(6) assms(2,3) by simp
  show ?thesis
  proof (cases "containerExists uuid \<and> ret = ROOTPA_OK")
    case False
    then show ?thesis
      using inv s1 pk by (auto simp: structure_child_def structure_inv_def off_def [symmetric] s1_def [symmetric] Let_def)
  next
    case True
    obtain result tltP n s2 where r: "regReadTlt W uuid spid s1 = (result, tltP, n, s2)" by (metis prod_cases4)
    define t where "t = free_ptr tltP (if MC_DRV_OK = result then touch tltP tlt_state_off 4 s2 else s2)"
    note e = read_tlt_entry [OF r s1(1) _ t_def, of spP]
    have blk1: "spP \<in> blocks s1" using blk(1) s1(3) by simp
    define entry where "entry = \<lparr>tc_uuid = uuid, tc_state = peek32 s2 tltP tlt_state_off\<rparr>"
    have cs: "structure_child W spid spP i (ret, st, s) =
      (if MC_DRV_OK = result
       then (ret, st\<lparr>tltContainers := (tltContainers st)[nbrOfTlts st := entry], nbrOfTlts := nbrOfTlts st + 1\<rparr>, t)
       else (ROOTPA_ERROR_REGISTRY, st\<lparr>tltContainers := (tltContainers st)[nbrOfTlts st := (tltContainers st ! nbrOfTlts st)\<lparr>tc_uuid := uuid\<rparr>]\<rparr>, t))"
      using True pk r by (simp add: structure_child_def off_def [symmetric] s1_def [symmetric] t_def entry_def Let_def)
    have n: "nbrOfTlts st = length us" using inv True by (simp add: structure_inv_def)
    have ent: "take (length us + 1) ((tltContainers st)[length us := entry]) = take (length us) (tltContainers st) @ [entry]"
      using k i(5) n by (simp add: take_Suc_conv_app_nth)
    have "map tc_uuid (take (length us) (tltContainers st)) = us" using inv n by (simp add: structure_inv_def)
    then show ?thesis
      using e(1-4) [OF blk1] True n ent i(5,7) s1 unfolding cs by (simp add: structure_inv_def entry_def)
  qed
qed

lemma structure_loop:
  assumes "spP \<in> blocks s0" "length (hblock s0 spP) = 4096" "structure_inv st0 s0 spP [] x"
  defines "f \<equiv> \<lambda>i. take 16 (drop (offsetof mcSoSpCont_t [''cont'', ''children''] + i * 16) (hblock s0 spP))"
  shows "k \<le> 16 \<Longrightarrow> structure_inv st0 s0 spP (filter containerExists (map f [0..<k])) (fold (structure_child W spid spP) [0..<k] x)"
proof (induction k)
  case (Suc k)
  obtain ret st s where y: "fold (structure_child W spid spP) [0..<k] x = (ret, st, s)" by (metis prod_cases3)
  have "length (filter containerExists (map f [0..<k])) \<le> k"
    using length_filter_le [of containerExists "map f [0..<k]"] by simp
  then have "structure_inv st0 s0 spP (filter containerExists (map f [0..<k]) @ filter containerExists [f k]) (structure_child W spid spP k (ret, st, s))"
    using Suc y by (intro structure_child_inv [OF _ _ _ assms(1,2)]) (simp_all add: f_def)
  then show ?case using y by simp
qed (use assms(3) in simp)


section \<open>The provisioning thread\<close>

text \<open>What the parameters of a thread own.\<close>

definition owned :: "provisioningparams_t \<Rightarrow> nat list" where
  "owned p = pp_block p # (case pp_tlt p of None \<Rightarrow> [] | Some (q, d) \<Rightarrow> [q, td_tltPukHashP d, td_dataP d])"

lemma events_free: "\<exists>es. r_ev (free_ptr p s) = es @ r_ev s \<and> set es \<subseteq> range Freed"
proof -
  have "r_ev (free_ptr p s) = [] @ r_ev s \<or> r_ev (free_ptr p s) = [Freed p] @ r_ev s"
    by (simp add: free_ptr_def drop_block_def)
  moreover have "set [] \<subseteq> range Freed" "set [Freed p] \<subseteq> range Freed" by auto
  ultimately show ?thesis by blast
qed

text \<open>
  When the provisioning thread ends, the last the caller hears of it is the state for an exiting
  thread, after which only memory is freed; and when the session to the trustlet could not be opened,
  that error is what it was told just before.
\<close>

theorem thread_exit_is_last:
  assumes "provisioningThreadFunction T params s = Some t"
  shows "\<exists>es es'. r_ev t = es @ Callback PROVISIONING_STATE_THREAD_EXITING ROOTPA_OK # es' \<and> set es \<subseteq> range Freed
    \<and> (let (ret, s1) = openCmtlSession (th_world T) s
       in ret \<noteq> ROOTPA_OK \<longrightarrow> es' = Callback ERROR ret # r_ev s1)"
proof -
  obtain ret s1 where o: "openCmtlSession (th_world T) s = (ret, s1)" by force
  obtain u where u: "t = free_ptr (pp_block params) (free_installation (pp_tlt params) (callbackE PROVISIONING_STATE_THREAD_EXITING ROOTPA_OK u))"
    "ret \<noteq> ROOTPA_OK \<longrightarrow> u = callbackE ERROR ret s1"
    using assms o by (cases "ret = ROOTPA_OK") (auto simp: provisioningThreadFunction_def)
  have fr: "\<exists>es. r_ev (free_all ps v) = es @ r_ev v \<and> set es \<subseteq> range Freed" for ps v
  proof (induction ps arbitrary: v)
    case (Cons p ps)
    obtain es es' where "r_ev (free_ptr p v) = es @ r_ev v" "set es \<subseteq> range Freed"
      "r_ev (free_all ps (free_ptr p v)) = es' @ r_ev (free_ptr p v)" "set es' \<subseteq> range Freed"
      using events_free [of p v] Cons.IH [of "free_ptr p v"] by blast
    then show ?case by (intro exI [of _ "es' @ es"]) simp
  qed simp
  have "t = free_all (rev (owned params)) (callbackE PROVISIONING_STATE_THREAD_EXITING ROOTPA_OK u)"
    using u(1) by (simp add: owned_def free_installation_def split: option.splits prod.splits) 
  then obtain es where "r_ev t = es @ r_ev (callbackE PROVISIONING_STATE_THREAD_EXITING ROOTPA_OK u)" "set es \<subseteq> range Freed"
    using fr by blast
  then show ?thesis using u(2) o by (intro exI [of _ es] exI [of _ "r_ev u"]) (auto simp: callbackE_def)
qed

text \<open>A step that only adds the blocks \<open>P\<close>.\<close>

definition grown :: "rworld \<Rightarrow> nat set \<Rightarrow> rstate \<Rightarrow> rstate \<Rightarrow> bool" where
  "grown W P s t = (r_faults t = r_faults s \<and> open_chan W t \<and> g_handle t = g_handle s \<and> wsmP (r_cmt t) = wsmP (r_cmt s) \<and> blocks t = blocks s \<union> P
     \<and> P \<inter> blocks s = {} \<and> 0 \<notin> P \<and> (\<forall>q\<in>blocks s. length (hblock t q) = length (hblock s q)))"

lemma grown_refl: "open_chan W s \<Longrightarrow> grown W {} s s"
  by (simp add: grown_def)

lemma grown_trans: "grown W P s t \<Longrightarrow> grown W Q t u \<Longrightarrow> grown W (P \<union> Q) s u"
  by (auto simp: grown_def)

lemma grown_in_block: "grown W P s t \<Longrightarrow> in_block s p off n \<Longrightarrow> in_block t p off n"
  by (auto simp: grown_def in_block_def)

lemma grown_zeroed:
  assumes "malloc W n s = (p, s1)" "open_chan W s"
  shows "p = 0 \<Longrightarrow> grown W {} s s1"
    "p \<noteq> 0 \<Longrightarrow> grown W {p} s (poke p 0 (replicate n 0) s1) \<and> length (hblock (poke p 0 (replicate n 0) s1) p) = n"
proof -
  have h: "heap_ok s" "wsmP (r_cmt s) \<in> blocks s" using assms(2) by (simp_all add: open_chan_def)
  note m = malloc_frame [OF assms(1) h(1)]
  show "p = 0 \<Longrightarrow> grown W {} s s1"
    using m h open_chan_frame [OF assms(2) m(1,2)] by (simp add: grown_def)
  assume p: "p \<noteq> 0"
  then have b: "p \<notin> blocks s" "blocks s1 = insert p (blocks s)" "length (hblock s1 p) = n" using m(5) by auto
  then have "r_faults (poke p 0 (replicate n 0) s1) = r_faults s" using m(4) by (subst in_block_poke) (auto simp: in_block_def)
  moreover have "open_chan W (poke p 0 (replicate n 0) s1)"
    using m h b by (intro open_chan_frame [OF assms(2)]) auto
  ultimately show "grown W {p} s (poke p 0 (replicate n 0) s1) \<and> length (hblock (poke p 0 (replicate n 0) s1) p) = n"
    using m b p by (simp add: grown_def)
qed

lemma grown_copy:
  assumes "open_chan W s" "p \<in> blocks s" "length (hblock s p) = n" "in_block s q 0 n"
  shows "grown W {} s (poke p 0 (peek s q 0 n) (touch q 0 n s))"
proof -
  have "length (peek s q 0 n) = n" by (simp add: peek_def)
  then have "r_faults (poke p 0 (peek s q 0 n) (touch q 0 n s)) = r_faults s"
    using assms by (subst in_block_poke) (auto simp: touch_faults in_block_def)
  then show ?thesis using assms(1) by (simp add: grown_def open_chan_def)
qed

lemma grown_free:
  assumes "grown W P s t" "p \<in> P" "open_chan W s"
  shows "grown W (P - {p}) s (free_ptr p t)"
proof -
  have h: "heap_ok t" "wsmP (r_cmt s) \<in> blocks s" using assms(1,3) by (simp_all add: grown_def open_chan_def)
  have "p \<in> blocks t" "p \<noteq> wsmP (r_cmt s)" "p \<noteq> 0" using assms(1,2) h(2) by (auto simp: grown_def)
  moreover have "blocks t - {p} = blocks s \<union> (P - {p})" "hblock (free_ptr p t) q = hblock t q" if "q \<in> blocks s" for q
    using assms(1,2) that by (auto simp: grown_def)
  ultimately show ?thesis using assms(1) h unfolding grown_def by (auto simp: open_chan_def)
qed

lemma copy_installation_grown:
  assumes "copy_installation W d s = (c, t)" "open_chan W s"
    and "in_block s (td_dataP d) 0 (unat (td_dataLength d))" "in_block s (td_tltPukHashP d) 0 (unat (td_tltPukHashLength d))"
  shows "case c of Inl e \<Rightarrow> e = ROOTPA_ERROR_OUT_OF_MEMORY \<and> grown W {} s t
    | Inr (q, d') \<Rightarrow> grown W {q, td_tltPukHashP d', td_dataP d'} s t \<and> distinct [q, td_tltPukHashP d', td_dataP d']"
proof -
  let ?size = "csize (trustletInstallationData_layout (rw_ps W))"
  define n k where "n = unat (td_dataLength d)" and "k = unat (td_tltPukHashLength d)"
  obtain p s1 where m1: "malloc W ?size s = (p, s1)" by force
  define s2 where "s2 = poke p 0 (replicate ?size 0) s1"
  obtain a s3 where m2: "malloc W n s2 = (a, s3)" by force
  define s4 where "s4 = poke a 0 (replicate n 0) s3"
  define s5 where "s5 = poke a 0 (peek s4 (td_dataP d) 0 n) (touch (td_dataP d) 0 n s4)"
  obtain b s6 where m3: "malloc W k s5 = (b, s6)" by force
  define s7 where "s7 = poke b 0 (replicate k 0) s6"
  define s8 where "s8 = poke b 0 (peek s7 (td_tltPukHashP d) 0 k) (touch (td_tltPukHashP d) 0 k s7)"
  have e: "(c, t) = (if p = 0 then (Inl ROOTPA_ERROR_OUT_OF_MEMORY, s1) else if a = 0 then (Inl ROOTPA_ERROR_OUT_OF_MEMORY, free_ptr p s3)
      else if b = 0 then (Inl ROOTPA_ERROR_OUT_OF_MEMORY, free_ptr p (free_ptr a s6))
      else (Inr (p, d\<lparr>td_dataP := a, td_tltPukHashP := b\<rparr>), s8))"
    using assms(1) unfolding copy_installation_def m1 Let_def prod.case s2_def [symmetric] n_def [symmetric] k_def [symmetric] m2
      s4_def [symmetric] s5_def [symmetric] m3 s7_def [symmetric] s8_def [symmetric] by auto
  note ib = assms(3,4) [folded n_def k_def]
  show ?thesis
  proof (cases "p = 0")
    case True
    then show ?thesis using e grown_zeroed(1) [OF m1 assms(2)] by simp
  next
    case p: False
    have g2: "grown W {p} s s2" using grown_zeroed(2) [OF m1 assms(2) p] by (simp add: s2_def)
    have o2: "open_chan W s2" using g2 by (simp add: grown_def)
    show ?thesis
    proof (cases "a = 0")
      case True
      have "grown W ({p} \<union> {}) s s3" using grown_trans [OF g2 grown_zeroed(1) [OF m2 o2 True]] .
      from grown_free [OF this _ assms(2), of p] show ?thesis using e p True by simp
    next
      case a: False
      have g4: "grown W {a} s2 s4" "length (hblock s4 a) = n" using grown_zeroed(2) [OF m2 o2 a] by (simp_all add: s4_def)
      have "p \<in> blocks s2" "a \<notin> blocks s2" using g2 g4(1) by (simp_all add: grown_def)
      then have pa: "p \<noteq> a" by blast
      have "grown W {} s4 s5"
        unfolding s5_def using g4 grown_in_block [OF g4(1) grown_in_block [OF g2 ib(1)]]
        by (intro grown_copy) (auto simp: grown_def)
      then have g5: "grown W {p, a} s s5" using grown_trans [OF grown_trans [OF g2 g4(1)]] by (simp add: insert_commute)
      have o5: "open_chan W s5" using g5 by (simp add: grown_def)
      show ?thesis
      proof (cases "b = 0")
        case True
        have "grown W ({p, a} \<union> {}) s s6" using grown_trans [OF g5 grown_zeroed(1) [OF m3 o5 True]] .
        from grown_free [OF this _ assms(2), of a] have "grown W {p} s (free_ptr a s6)" using pa by (simp add: insert_Diff_if)
        from grown_free [OF this _ assms(2), of p] have "grown W {} s (free_ptr p (free_ptr a s6))" by simp
        then show ?thesis using e p a True by simp
      next
        case b: False
        have g7: "grown W {b} s5 s7" "length (hblock s7 b) = k" using grown_zeroed(2) [OF m3 o5 b] by (simp_all add: s7_def)
        have "grown W {} s7 s8"
          unfolding s8_def using g7 grown_in_block [OF g7(1) grown_in_block [OF g5 ib(2)]]
          by (intro grown_copy) (auto simp: grown_def)
        then have "grown W {p, b, a} s s8" using grown_trans [OF grown_trans [OF g5 g7(1)]] by (simp add: insert_commute)
        moreover have "p \<in> blocks s5" "a \<in> blocks s5" "b \<notin> blocks s5" using g5 g7(1) by (simp_all add: grown_def)
        then have "distinct [p, b, a]" using pa by auto
        ultimately show ?thesis using e p a b by simp
      qed
    qed
  qed
qed

lemma owned_copy:
  "set (tl (owned (pr\<lparr>pp_tlt := Some (q, d)\<rparr>))) = {q, td_tltPukHashP d, td_dataP d}"
  "tl (owned (pr\<lparr>pp_tlt := Some (q, d)\<rparr>)) = [q, td_tltPukHashP d, td_dataP d]"
  by (auto simp: owned_def)


text \<open>
  When the identifier of the device cannot be read, \<open>provision\<close> returns that error and keeps the block of
  the parameters for ever: no thread will free it.
\<close>

theorem provision_leaks:
  assumes "open_chan (th_world T) s" "g_handle s \<noteq> 0" "pointer_width (th_world T)" "registry_sound (th_world T)" "swd_sound (th_world T)"
    and "malloc (th_world T) n s = (p, s1)" "p \<noteq> 0" "n = csize (provisioningparams_layout (rw_ps (th_world T)))"
    and "getSuid (th_world T) (replicate 16 0) (poke p 0 (replicate n 0) s1) = (r, suid, u)" "r \<noteq> ROOTPA_OK"
  shows "provision T spid cb si None rel s = (r, None, u) \<and> blocks u = insert p (blocks s) \<and> p \<notin> blocks s"
proof -
  have g: "grown (th_world T) {p} s (poke p 0 (replicate n 0) s1)" using grown_zeroed(2) [OF assms(6,1,7)] by simp
  then have "blocks u = insert p (blocks s)" "p \<notin> blocks s"
    using getSuid_memory [OF assms(9) _ _ assms(3-5)] assms(2) by (simp_all add: grown_def)
  moreover have "provision T spid cb si None rel s = (r, None, u)"
    using assms(6,7,9,10) by (simp add: provision_def assms(8) [symmetric])
  ultimately show ?thesis by simp
qed

section \<open>Examples\<close>

lemma answering_ok:
  "open_chan answering_world version_chan" "g_handle version_chan \<noteq> 0" "pointer_width answering_world" "registry_sound answering_world"
  "swd_sound answering_world" "blocks version_chan = {5, 6}" "r_faults version_chan = []" "rw_ps answering_world = 4"
proof -
  have st: "blocks version_chan = {5, 6}" "r_faults version_chan = []" "heap_ok version_chan"
    "wsmP (r_cmt version_chan) = 6" "hblock version_chan 6 = replicate 40 0" "g_handle version_chan \<noteq> 0"
    by (auto simp: version_chan_def rstart_def blocks_def heap_ok_def hblock_def)
  have w: "rw_ps answering_world = 4" "pointer_width answering_world" "registry_sound answering_world"
    by (simp_all add: answering_world_def pointer_width_def registry_sound_def calm_world_def)
  show "open_chan answering_world version_chan" by (simp add: open_chan_def st w cmd_header_offsets)
  show "swd_sound answering_world"
    using answering_elements by (simp add: swd_sound_def w cmd_header_offsets) (simp add: answering_world_def)
  show "g_handle version_chan \<noteq> 0" "pointer_width answering_world" "registry_sound answering_world"
    "blocks version_chan = {5, 6}" "r_faults version_chan = []" "rw_ps answering_world = 4" by (rule st w)+
qed



definition answering_threads :: thworld where
  "answering_threads = \<lparr>th_prov = calm_engine\<lparr>pw_world := answering_world\<rparr>, th_attr_init = (\<lambda>ev. 0), th_create = (\<lambda>ev. 0)\<rparr>"

theorem thread_exit_is_last_witness:
  "\<exists>params t es. provisioningThreadFunction (answering_threads\<lparr>th_prov := calm_engine\<lparr>pw_world := no_session_world\<rparr>\<rparr>) params rstart = Some t
     \<and> (\<exists>es'. r_ev t = es @ Callback PROVISIONING_STATE_THREAD_EXITING ROOTPA_OK # es') \<and> set es \<subseteq> range Freed"
proof -
  let ?T = "answering_threads\<lparr>th_prov := calm_engine\<lparr>pw_world := no_session_world\<rparr>\<rparr>"
  define params where "params = \<lparr>pp_block = 0, pp_spid = 7, pp_suid = [], pp_callbackP = Given, pp_sysInfoCallbackP = Dummy,
    pp_initialRel = InitialRel_POST, pp_tlt = None\<rparr>"
  obtain ret s1 where o: "openCmtlSession no_session_world rstart = (ret, s1)" by force
  have "fst (openCmtlSession no_session_world rstart) \<noteq> ROOTPA_OK" by code_simp
  then obtain t where t: "provisioningThreadFunction ?T params rstart = Some t"
    using o by (simp add: provisioningThreadFunction_def)
  show ?thesis using thread_exit_is_last [OF t] t by blast
qed


definition scarce_world :: rworld where
  "scarce_world = answering_world\<lparr>rw_malloc := (\<lambda>ev n. if n = 4 then None else Some [])\<rparr>"

theorem provision_leaks_witness:
  "\<exists>p t. provision (answering_threads\<lparr>th_prov := calm_engine\<lparr>pw_world := scarce_world\<rparr>\<rparr>) 7 (Some Given) None None InitialRel_POST version_chan
      = (ROOTPA_ERROR_OUT_OF_MEMORY, None, t) \<and> blocks t = {p, 5, 6} \<and> p \<notin> {5, 6}"
proof -
  let ?T = "answering_threads\<lparr>th_prov := calm_engine\<lparr>pw_world := scarce_world\<rparr>\<rparr>"
  have w: "th_world ?T = scarce_world" by simp
  have sc: "open_chan scarce_world version_chan" "pointer_width scarce_world" "registry_sound scarce_world" "swd_sound scarce_world"
    "rw_ps scarce_world = 4"
    using answering_ok by (simp_all add: scarce_world_def open_chan_def pointer_width_def registry_sound_def swd_sound_def)
  have n: "csize (provisioningparams_layout 4) = 36" by (simp add: provisioningparams_layout_def clayout round_up_def)
  obtain p s1 where m: "malloc scarce_world 36 version_chan = (p, s1)" by force
  have p: "p \<noteq> 0" using m by (auto simp: malloc_def scarce_world_def version_chan_def)
  obtain suid u where g: "getSuid scarce_world (replicate 16 0) (poke p 0 (replicate 36 0) s1) = (ROOTPA_ERROR_OUT_OF_MEMORY, suid, u)"
    by (simp add: getSuid_def query_command_def malloc_def zero_message_def scarce_world_def)
  have n2: "36 = csize (provisioningparams_layout (rw_ps (th_world ?T)))" by (simp only: w sc(5) n)
  have "provision ?T 7 (Some Given) None None InitialRel_POST version_chan = (ROOTPA_ERROR_OUT_OF_MEMORY, None, u)
      \<and> blocks u = insert p (blocks version_chan) \<and> p \<notin> blocks version_chan"
    using sc m g by (intro provision_leaks [OF _ answering_ok(2) _ _ _ _ p n2]) (simp_all only: w, simp)
  then show ?thesis unfolding answering_ok(6) by blast
qed

end
