(* ===== verification/ClientEnv.thy ===== *)
theory ClientEnv
  imports World
begin

text \<open>
  What the client library stands on: the requests of \<^verbatim>\<open>Daemon/public/MobiCoreDriverCmd.h\<close> and their
  bytes, the sockets of \<^verbatim>\<open>Common/Connection.cpp\<close>, and the kernel module behind
  \<^verbatim>\<open>Kernel/CKMod.cpp\<close> and \<^verbatim>\<open>Kernel/Platforms/Generic/CMcKMod.cpp\<close>. System calls are parameters
  that answer from the events so far.
\<close>

section \<open>Requests\<close>

datatype request =
    ReqOpenDevice u32
  | ReqCloseDevice
  | ReqNqConnect u32 u32 u32 u32
  | ReqOpenSession u32 mcUuid_t u64 u32 u32
  | ReqCloseSession u32
  | ReqNotify u32
  | ReqMapBulkBuf u32 u32 u32 u64 u32
  | ReqUnmapBulkBuf u32 u32 u64 u32
  | ReqGetVersion
  | ReqGetMobiCoreVersion
  | ReqOpenTrustlet u32 u32 u32 u64 u32 u32
  | ReqOpenTrustedApp u32 mcUuid_t u64 u32 u32

fun request_id :: "request \<Rightarrow> u32" where
  "request_id (ReqOpenDevice _) = 2"
| "request_id ReqCloseDevice = 3"
| "request_id (ReqNqConnect _ _ _ _) = 4"
| "request_id (ReqOpenSession _ _ _ _ _) = 5"
| "request_id (ReqCloseSession _) = 6"
| "request_id (ReqNotify _) = 7"
| "request_id (ReqMapBulkBuf _ _ _ _ _) = 8"
| "request_id (ReqUnmapBulkBuf _ _ _ _) = 9"
| "request_id ReqGetVersion = 10"
| "request_id ReqGetMobiCoreVersion = 11"
| "request_id (ReqOpenTrustlet _ _ _ _ _ _) = 12"
| "request_id (ReqOpenTrustedApp _ _ _ _ _) = 13"

text \<open>
  The members of the command structures after \<^verbatim>\<open>commandId\<close>, in a build whose pointers have \<open>ps\<close>
  bytes: a \<^verbatim>\<open>uintptr_t\<close> is aligned to its size and so is the structure. Padding bytes are not
  initialised; \<open>pad\<close> is what they happen to hold.
\<close>

abbreviation (input) w32 :: "u32 \<Rightarrow> u8 list" where "w32 w \<equiv> le_bytes 4 (ucast w)"

definition padding :: "nat \<Rightarrow> u8 list \<Rightarrow> u8 list" where
  "padding ps pad = (if ps = 8 then take 4 (pad @ [0, 0, 0, 0]) else [])"

fun request_payload :: "nat \<Rightarrow> u8 list \<Rightarrow> request \<Rightarrow> u8 list" where
  "request_payload ps pad (ReqOpenDevice deviceId) = w32 deviceId"
| "request_payload ps pad ReqCloseDevice = []"
| "request_payload ps pad (ReqNqConnect deviceId sessionId deviceSessionId sessionMagic) =
     w32 deviceId @ w32 sessionId @ w32 deviceSessionId @ w32 sessionMagic"
| "request_payload ps pad (ReqOpenSession deviceId uuid tci handle len) =
     w32 deviceId @ uuid @ le_bytes ps tci @ w32 handle @ w32 len"
| "request_payload ps pad (ReqCloseSession sessionId) = w32 sessionId"
| "request_payload ps pad (ReqNotify sessionId) = w32 sessionId"
| "request_payload ps pad (ReqMapBulkBuf sessionId handle rfu offsetPayload lenBulkMem) =
     w32 sessionId @ w32 handle @ w32 rfu @ le_bytes ps offsetPayload @ w32 lenBulkMem @ padding ps pad"
| "request_payload ps pad (ReqUnmapBulkBuf sessionId handle secureVirtualAdr lenBulkMem) =
     w32 sessionId @ w32 handle @ padding ps pad @ le_bytes ps secureVirtualAdr @ w32 lenBulkMem @ padding ps pad"
| "request_payload ps pad ReqGetVersion = []"
| "request_payload ps pad ReqGetMobiCoreVersion = []"
| "request_payload ps pad (ReqOpenTrustlet deviceId spid trustlet_len tci handle len) =
     w32 deviceId @ w32 spid @ w32 trustlet_len @ le_bytes ps tci @ w32 handle @ w32 len"
| "request_payload ps pad (ReqOpenTrustedApp deviceId uuid tci handle len) =
     w32 deviceId @ uuid @ le_bytes ps tci @ w32 handle @ w32 len"

definition request_bytes :: "nat \<Rightarrow> u8 list \<Rightarrow> request \<Rightarrow> u8 list" where
  "request_bytes ps pad r = w32 (request_id r) @ request_payload ps pad r"

section \<open>Events and the environment\<close>

text \<open>Connections are numbered in the order they are created.\<close>

datatype cev =
    CNew nat
  | CConnect nat bool
  | CSend nat "request option" int
  | CRecv nat int
  | CPoll nat int
  | CDelete nat
  | KOpen int
  | KClose int bool
  | KMapWsm int u32 "u32 option"
  | KMmap int u32 "u64 option"
  | KMunmap u64 u32
  | KFree int u32 bool
  | KReg int u64 u32 "u32 option"
  | KUnreg int u32 bool
  | KIoctl int nat int
  | DevLock
  | DevUnlock

text \<open>
  A failing system call answers \<open>-1\<close> or \<open>None\<close> and leaves its reason in \<^verbatim>\<open>errno\<close>. \<open>ce_recv\<close> answers what
  \<^verbatim>\<open>recv\<close> returned and the bytes it stored; \<open>ce_stack\<close> is what an uninitialised variable of so many
  bytes holds.
\<close>

record client_env =
  ce_ps :: nat
  ce_pad :: "cev list \<Rightarrow> u8 list"
  ce_connect :: "cev list \<Rightarrow> nat \<Rightarrow> bool"
  ce_send :: "cev list \<Rightarrow> nat \<Rightarrow> nat \<Rightarrow> int"
  ce_select :: "cev list \<Rightarrow> nat \<Rightarrow> int \<Rightarrow> int \<times> bool"
  ce_recv :: "cev list \<Rightarrow> nat \<Rightarrow> nat \<Rightarrow> int \<times> u8 list"
  ce_poll :: "cev list \<Rightarrow> nat \<Rightarrow> int"
  ce_stack :: "cev list \<Rightarrow> nat \<Rightarrow> u8 list"
  ce_errno :: "cev list \<Rightarrow> u32"
  ce_open :: "cev list \<Rightarrow> int"
  ce_close :: "cev list \<Rightarrow> int \<Rightarrow> bool"
  ce_map_wsm :: "cev list \<Rightarrow> int \<Rightarrow> u32 \<Rightarrow> (u32 \<times> u64) option"
  ce_mmap :: "cev list \<Rightarrow> int \<Rightarrow> u32 \<Rightarrow> u64 option"
  ce_free_wsm :: "cev list \<Rightarrow> int \<Rightarrow> u32 \<Rightarrow> bool"
  ce_reg_wsm :: "cev list \<Rightarrow> int \<Rightarrow> u64 \<Rightarrow> u32 \<Rightarrow> (u32 \<times> u64) option"
  ce_unreg_wsm :: "cev list \<Rightarrow> int \<Rightarrow> u32 \<Rightarrow> bool"

section \<open>Connections\<close>

text \<open>
  \<^verbatim>\<open>Connection::readData\<close> of \<open>n\<close> bytes: the result as the callers see it, an \<^verbatim>\<open>int\<close>, and the bytes stored
  at the start of the buffer. A negative timeout waits for ever.
\<close>

definition conn_read :: "client_env \<Rightarrow> nat \<Rightarrow> nat \<Rightarrow> int \<Rightarrow> cev list \<Rightarrow> int \<times> u8 list \<times> cev list" where
  "conn_read E c n timeout h =
     (let (ret, isset) = ce_select E h c timeout;
          (ret, got) = (if ret = -1 then (-1, []) else if ret = 0 then (-2, []) else if \<not> isset then (ret, [])
                        else ce_recv E h c n)
      in (ret, got, h @ [CRecv c ret]))"

text \<open>
  \<^verbatim>\<open>Connection::writeData\<close>. The callers keep the result, a \<^verbatim>\<open>size_t\<close>, in an \<^verbatim>\<open>int\<close>, so that a buffer of
  two gigabytes or more counts as a failure. \<open>r\<close> says what is sent, when it is a request.
\<close>

definition conn_write :: "client_env \<Rightarrow> nat \<Rightarrow> request option \<Rightarrow> nat \<Rightarrow> cev list \<Rightarrow> int \<times> cev list" where
  "conn_write E c r n h =
     (let sent = ce_send E h c n; ret = (if sent \<noteq> int n then -1 else sent)
      in (sint (word_of_int ret :: u32), h @ [CSend c r ret]))"

definition isConnectionAlive :: "client_env \<Rightarrow> nat \<Rightarrow> cev list \<Rightarrow> bool \<times> cev list" where
  "isConnectionAlive E c h = (let ret = ce_poll E h c in (ret = 0, h @ [CPoll c ret]))"

section \<open>The kernel module\<close>

abbreviation (input) MC_DRV_ERR_KMOD_NOT_OPEN :: u32 where "MC_DRV_ERR_KMOD_NOT_OPEN \<equiv> MC_DRV_ERR_NO_FREE_MEMORY"
abbreviation (input) MC_DRV_ERR_KERNEL_MODULE :: u32 where "MC_DRV_ERR_KERNEL_MODULE \<equiv> 0x12"
abbreviation (input) INVALID_FILE_DESCRIPTOR :: int where "INVALID_FILE_DESCRIPTOR \<equiv> -1"

definition MAKE_MC_DRV_KMOD_WITH_ERRNO :: "u32 \<Rightarrow> u32" where
  "MAKE_MC_DRV_KMOD_WITH_ERRNO theErrno = MC_DRV_ERR_KERNEL_MODULE OR push_bit 16 (theErrno AND 0xFFFF)"

text \<open>The object is its file descriptor \<^verbatim>\<open>fdKMod\<close>.\<close>

definition mckmod_open :: "client_env \<Rightarrow> int \<Rightarrow> cev list \<Rightarrow> u32 \<times> int \<times> cev list" where
  "mckmod_open E fd h =
     (if fd \<noteq> INVALID_FILE_DESCRIPTOR then (MC_DRV_ERR_DEVICE_ALREADY_OPEN, fd, h)
      else
        let openRet = ce_open E h; h = h @ [KOpen openRet]
        in if openRet = -1 then (MAKE_MC_DRV_KMOD_WITH_ERRNO (ce_errno E h), fd, h)
           else (MC_DRV_OK, openRet, h))"

definition mckmod_close :: "client_env \<Rightarrow> int \<Rightarrow> cev list \<Rightarrow> int \<times> cev list" where
  "mckmod_close E fd h =
     (if fd = INVALID_FILE_DESCRIPTOR then (fd, h)
      else let ok = ce_close E h fd in (if ok then INVALID_FILE_DESCRIPTOR else fd, h @ [KClose fd ok]))"

text \<open>The results of \<^verbatim>\<open>mapWsm\<close> are the handle, the virtual and the physical address.\<close>

definition mckmod_mapWsm :: "client_env \<Rightarrow> int \<Rightarrow> u32 \<Rightarrow> cev list \<Rightarrow> (u32 + u32 \<times> u64 \<times> u64) \<times> cev list" where
  "mckmod_mapWsm E fd len h =
     (if fd = INVALID_FILE_DESCRIPTOR then (Inl MC_DRV_ERR_KMOD_NOT_OPEN, h)
      else
        let r = ce_map_wsm E h fd len; h = h @ [KMapWsm fd len (map_option fst r)]
        in case r of
             None \<Rightarrow> (Inl (MAKE_MC_DRV_KMOD_WITH_ERRNO (ce_errno E h)), h)
           | Some (handle, phys) \<Rightarrow>
               let v = ce_mmap E h fd len; h = h @ [KMmap fd len v]
               in case v of
                    None \<Rightarrow> (Inl (MAKE_MC_DRV_KMOD_WITH_ERRNO (ce_errno E h)), h)
                  | Some virtAddr \<Rightarrow> (Inr (handle, virtAddr, phys), h))"

definition mckmod_free :: "client_env \<Rightarrow> int \<Rightarrow> u32 \<Rightarrow> u64 \<Rightarrow> u32 \<Rightarrow> cev list \<Rightarrow> u32 \<times> cev list" where
  "mckmod_free E fd handle buffer len h =
     (if fd = INVALID_FILE_DESCRIPTOR then (MC_DRV_ERR_KMOD_NOT_OPEN, h)
      else
        let h = h @ [KMunmap buffer len]; ok = ce_free_wsm E h fd handle; h = h @ [KFree fd handle ok]
        in (if ok then MC_DRV_OK else MAKE_MC_DRV_KMOD_WITH_ERRNO (ce_errno E h), h))"

definition mckmod_registerWsmL2 :: "client_env \<Rightarrow> int \<Rightarrow> u64 \<Rightarrow> u32 \<Rightarrow> cev list \<Rightarrow> (u32 + u32 \<times> u64) \<times> cev list" where
  "mckmod_registerWsmL2 E fd buffer len h =
     (if fd = INVALID_FILE_DESCRIPTOR then (Inl MC_DRV_ERR_KMOD_NOT_OPEN, h)
      else
        let r = ce_reg_wsm E h fd buffer len; h = h @ [KReg fd buffer len (map_option fst r)]
        in case r of
             None \<Rightarrow> (Inl (MAKE_MC_DRV_KMOD_WITH_ERRNO (ce_errno E h)), h)
           | Some p \<Rightarrow> (Inr p, h))"

definition mckmod_unregisterWsmL2 :: "client_env \<Rightarrow> int \<Rightarrow> u32 \<Rightarrow> cev list \<Rightarrow> u32 \<times> cev list" where
  "mckmod_unregisterWsmL2 E fd handle h =
     (if fd = INVALID_FILE_DESCRIPTOR then (MC_DRV_ERR_KMOD_NOT_OPEN, h)
      else
        let ok = ce_unreg_wsm E h fd handle; h = h @ [KUnreg fd handle ok]
        in (if ok then MC_DRV_OK else MAKE_MC_DRV_KMOD_WITH_ERRNO (ce_errno E h), h))"

lemma MAKE_MC_DRV_KMOD_nonzero [simp]: "MAKE_MC_DRV_KMOD_WITH_ERRNO e \<noteq> 0"
  by (simp add: MAKE_MC_DRV_KMOD_WITH_ERRNO_def or_eq_0_iff)

section \<open>What the kernel module holds\<close>

text \<open>
  From the events: the handles a file descriptor has registered and not given back, and the
  descriptors that are open. Closing the file gives back everything.
\<close>

definition fd_step :: "int set \<Rightarrow> cev \<Rightarrow> int set" where
  "fd_step fds e = (case e of KOpen fd \<Rightarrow> if fd = -1 then fds else insert fd fds
                      | KClose fd ok \<Rightarrow> if ok then fds - {fd} else fds | _ \<Rightarrow> fds)"

definition open_fds :: "cev list \<Rightarrow> int set" where
  "open_fds h = foldl fd_step {} h"

definition reg_step :: "int \<Rightarrow> u32 list \<Rightarrow> cev \<Rightarrow> u32 list" where
  "reg_step fd hs e = (case e of
       KReg fd' _ _ (Some handle) \<Rightarrow> if fd' = fd then handle # hs else hs
     | KUnreg fd' handle True \<Rightarrow> if fd' = fd then remove1 handle hs else hs
     | KOpen fd' \<Rightarrow> if fd' = fd then [] else hs
     | _ \<Rightarrow> hs)"

definition registered :: "int \<Rightarrow> cev list \<Rightarrow> u32 list" where
  "registered fd h = foldl (reg_step fd) [] h"

lemma open_fds_append [simp]: "open_fds (h @ es) = foldl fd_step (open_fds h) es" "open_fds [] = {}"
  by (simp_all add: open_fds_def)

lemma registered_append [simp]: "registered fd (h @ es) = foldl (reg_step fd) (registered fd h) es" "registered fd [] = []"
  by (simp_all add: registered_def)

text \<open>The system gives out descriptors that are not in use.\<close>

definition fd_fresh :: "client_env \<Rightarrow> bool" where
  "fd_fresh E \<longleftrightarrow> (\<forall>h. ce_open E h \<notin> open_fds h)"

end
