(* ===== verification/ClientWire.thy ===== *)
theory ClientWire
  imports ClientEnv McDaemon
begin

text \<open>
  The two ends of the socket together: what the daemon's handlers do with the bytes of the requests that
  the client library sends.
\<close>

section \<open>Reading members back\<close>

lemma le32_first [simp]: "4 \<le> n \<Longrightarrow> le32 (le_bytes n w @ ys) 0 = ucast w" "4 \<le> n \<Longrightarrow> le32 (le_bytes n w) 0 = ucast w"
  using le32_le_bytes [of n 0 "[]" w ys] le32_le_bytes [of n 0 "[]" w "[]"] by simp_all

lemma le32_skip: "length xs \<le> i \<Longrightarrow> le32 (xs @ ys) i = le32 ys (i - length xs)"
  by (simp add: le32_def byte_at_append Suc_diff_le)

lemma le_bytes_Nil [simp]: "le_bytes n w = [] \<longleftrightarrow> n = 0"
  by (metis length_0_conv length_le_bytes)

lemma ucast_32_64_32 [simp]: "ucast (ucast (w :: u32) :: u64) = w"
  by (rule bit_word_eqI) (auto simp: bit_simps)

lemma length_padding [simp]: "length (padding ps pad) = (if ps = 8 then 4 else 0)"
  by (auto simp: padding_def)

section \<open>The requests as the daemon understands them\<close>

text \<open>
  What the daemon does for a request it has read completely, in terms of the members of the request. The
  addresses are 64 bits wide in the request; of a TCI and a payload offset only the low half is used.
\<close>

definition serve_open :: "world \<Rightarrow> conn \<Rightarrow> mcUuid_t \<Rightarrow> bool \<Rightarrow> u32 \<Rightarrow> u32 \<Rightarrow> u64 \<Rightarrow> dev \<Rightarrow> dev" where
  "serve_open W c uuid isGp handle len tci =
     check_device c (\<lambda>d. let ro = getServiceBlob W (hist d) uuid isGp
       in open_blob W c ro handle len (ucast tci) (emit (RegistryBlob (ro \<noteq> None)) d))"

fun serve :: "world \<Rightarrow> conn \<Rightarrow> request \<Rightarrow> dev \<Rightarrow> dev option" where
  "serve W c (ReqOpenDevice deviceId) d = Some
     (if connectionData d c then writeResult c MC_DRV_ERR_DEVICE_ALREADY_OPEN d
      else if deviceId \<noteq> MC_DEVICE_ID_DEFAULT then writeResult c MC_DRV_ERR_UNKNOWN_DEVICE d
      else writeResult c MC_DRV_OK (open_device c d))"
| "serve W c ReqCloseDevice d = Some (processCloseDevice W c d)"
| "serve W c (ReqNqConnect deviceId sessionId deviceSessionId sessionMagic) d = Some
     (if connectionData d c then writeResult c MC_DRV_ERR_NQ_FAILED d
      else let d = emit (ConnDetach c) (emit (ConnDetach c) d) in
        if deviceId \<noteq> MC_DEVICE_ID_DEFAULT then writeResult c MC_DRV_ERR_UNKNOWN_DEVICE d
        else case registerTrustletConnection c \<lparr>nqc_deviceId = deviceId, nqc_sessionId = sessionId,
                    nqc_deviceSessionId = deviceSessionId, nqc_sessionMagic = sessionMagic\<rparr> d of
          (None, d) \<Rightarrow> writeResult c MC_DRV_ERR_UNKNOWN d
        | (Some ts, d) \<Rightarrow> foldl (\<lambda>d n. emit (ConnWrite c (notification_wire n)) d)
             (with_session (ts_self ts) (\<lambda>s. snd (processQueuedNotifications s)) (writeResult c MC_DRV_OK d))
             (fst (processQueuedNotifications ts)))"
| "serve W c (ReqOpenSession deviceId uuid tci handle len) d = Some (serve_open W c uuid False handle len tci d)"
| "serve W c (ReqOpenTrustedApp deviceId uuid tci handle len) d = Some (serve_open W c uuid True handle len tci d)"
| "serve W c (ReqOpenTrustlet deviceId spid trustlet_len tci handle len) d =
     (if \<not> connectionData d c then Some (writeResult c MC_DRV_ERR_DAEMON_DEVICE_NOT_OPEN d)
      else let n = unat trustlet_len; ok = malloc_ok W (hist d) n; d = emit (Malloc n ok) d in
        if \<not> ok then Some (writeResult c MC_DRV_ERR_DAEMON_SOCKET d)
        else case read_trustlet W c n [] d of
          None \<Rightarrow> None
        | Some (None, d) \<Rightarrow> Some d
        | Some (Some blob, d) \<Rightarrow>
            let ro = memGetServiceBlob W (hist d) spid blob
            in Some (open_blob W c ro handle len (ucast tci) (emit (RegistryBlob (ro \<noteq> None)) d)))"
| "serve W c (ReqCloseSession sessionId) d = Some
     (check_device c (\<lambda>d. let (ret, d) = closeSession W c sessionId d in writeResult c ret d) d)"
| "serve W c (ReqNotify sessionId) d = Some (if connectionData d c then snd (notify W c sessionId d) else d)"
| "serve W c (ReqMapBulkBuf sessionId handle rfu offsetPayload lenBulkMem) d = Some
     (check_device c (\<lambda>d. let (locked, d) = lockWsmL2 W handle d in
        if \<not> locked then writeResult c MC_DRV_ERR_DAEMON_WSM_HANDLE_NOT_FOUND d
        else let (pAddrL2, d) = findWsmL2 W handle (socketDescriptor W c) d in
          if pAddrL2 = 0 then writeResult c MC_DRV_ERR_DAEMON_WSM_HANDLE_NOT_FOUND d
          else case mapBulk W c sessionId handle pAddrL2 (ucast offsetPayload) lenBulkMem d of
            (Inl e, d) \<Rightarrow> writeResult c e d
          | (Inr secureVirtualAdr, d) \<Rightarrow>
              emit (ConnWrite c [W32 MC_DRV_OK, W32 sessionId, W32 secureVirtualAdr]) d) d)"
| "serve W c (ReqUnmapBulkBuf sessionId handle secureVirtualAdr lenBulkMem) d = Some
     (check_device c (\<lambda>d. let (r, d) = unmapBulk W c sessionId handle (ucast secureVirtualAdr) lenBulkMem d in
        if r \<noteq> MC_DRV_OK then writeResult c r d
        else writeResult c MC_DRV_OK (snd (unlockWsmL2 W handle d))) d)"
| "serve W c ReqGetVersion d = Some (processGetVersion c d)"
| "serve W c ReqGetMobiCoreVersion d = Some (processGetMobiCoreVersion W c d)"

fun uuid_ok :: "request \<Rightarrow> bool" where
  "uuid_ok (ReqOpenSession _ uuid _ _ _) \<longleftrightarrow> length uuid = 16"
| "uuid_ok (ReqOpenTrustedApp _ uuid _ _ _) \<longleftrightarrow> length uuid = 16"
| "uuid_ok _ \<longleftrightarrow> True"

text \<open>The socket has these bytes, and no more, for a reader who asks for at least as many.\<close>

definition delivers :: "world \<Rightarrow> conn \<Rightarrow> u8 list \<Rightarrow> dev \<Rightarrow> bool" where
  "delivers W c bs d \<longleftrightarrow> (\<forall>n. bs \<noteq> [] \<and> length bs \<le> n \<longrightarrow> sock_readData W (hist d) c n = (int (length bs), bs))"

definition after_read :: "conn \<Rightarrow> u8 list \<Rightarrow> dev \<Rightarrow> dev" where
  "after_read c bs d = (if bs = [] then d else emit (ConnRead c (int (length bs))) d)"

lemma requests_understood_any:
  assumes "uuid_ok r" "delivers W c (request_payload 8 pad r) d"
  shows "dispatch W (request_id r) c d = map_option (Pair True) (serve W c r (after_read c (request_payload 8 pad r) d))"
  using assms
  by (cases r) (simp_all add: dispatch_def after_read_def delivers_def processOpenDevice_def processNqConnect_def
      processOpenSession_def processOpenTrustlet_def processCloseSession_def processNotify_def processMapBulkBuf_def
      processUnmapBulkBuf_def recv_payload_def McDaemon.readData_def serve_open_def le32_skip split_beta Let_def
      cong: if_cong option.case_cong sum.case_cong)


text \<open>
  C6: A request of the client library is served as it was meant: the daemon's handler for its identifier
  reads exactly the bytes the client library wrote after the identifier, in a build for 64 bits, and
  acts on the members the client put into the request, whatever the padding bytes hold.
\<close>

theorem requests_understood:
  assumes "uuid_ok r" "delivers W c (request_payload 8 pad r) d"
  shows "dispatch W (request_id r) c d = map_option (Pair True) (serve W c r (after_read c (request_payload 8 pad r) d))"
  by (rule requests_understood_any [OF assms])

theorem requests_understood_witness:
  "dispatch (quiet_world\<lparr>sock_readData := (\<lambda>_ _ _. (4, w32 7))\<rparr>) 6 3 sample_dev
   = Some (True, writeResult 3 MC_DRV_ERR_DAEMON_DEVICE_NOT_OPEN (emit (ConnRead 3 4) sample_dev))"
  using requests_understood [of "ReqCloseSession 7" "quiet_world\<lparr>sock_readData := (\<lambda>_ _ _. (4, w32 7))\<rparr>" 3 "[]" sample_dev]
  by (simp add: delivers_def after_read_def check_device_def emit_def sample_dev_def newDevice_def)

text \<open>The requests that carry an address.\<close>

fun has_address :: "request \<Rightarrow> bool" where
  "has_address (ReqOpenSession _ _ _ _ _) \<longleftrightarrow> True"
| "has_address (ReqOpenTrustedApp _ _ _ _ _) \<longleftrightarrow> True"
| "has_address (ReqOpenTrustlet _ _ _ _ _ _) \<longleftrightarrow> True"
| "has_address (ReqMapBulkBuf _ _ _ _ _) \<longleftrightarrow> True"
| "has_address (ReqUnmapBulkBuf _ _ _ _) \<longleftrightarrow> True"
| "has_address _ \<longleftrightarrow> False"



end
