(* ===== verification/ClientLib.thy ===== *)
theory ClientLib
  imports ClientEnv
begin

text \<open>
  The client library: \<^verbatim>\<open>ClientLib/Session.cpp\<close>, \<^verbatim>\<open>Device.cpp\<close> and \<^verbatim>\<open>ClientLib.cpp\<close>. The list of
  devices is the global variable \<^verbatim>\<open>devices\<close>; a pointer to a device or session is the first object
  of that identifier, as the code looks it up. Connections are objects that are created and
  deleted; using or deleting one that is not alive is a fault.
\<close>

section \<open>Lists searched from the front\<close>

fun update_first :: "('a \<Rightarrow> bool) \<Rightarrow> ('a \<Rightarrow> 'a) \<Rightarrow> 'a list \<Rightarrow> 'a list" where
  "update_first P f [] = []"
| "update_first P f (x # xs) = (if P x then f x # xs else x # update_first P f xs)"

fun remove_first :: "('a \<Rightarrow> bool) \<Rightarrow> 'a list \<Rightarrow> 'a list" where
  "remove_first P [] = []"
| "remove_first P (x # xs) = (if P x then xs else x # remove_first P xs)"

section \<open>State\<close>

record BulkBufferDescriptor =
  bb_virtAddr :: u64
  bb_sVirtualAddr :: u64
  bb_len :: u32
  bb_handle :: u32

record Session =
  cs_sessionId :: u32
  cs_connection :: nat
  cs_lastErr :: u32
  cs_bulk :: "BulkBufferDescriptor list"

record Device =
  cd_deviceId :: u32
  cd_connection :: nat
  cd_fd :: int
  cd_sessions :: "Session list"
  cd_wsms :: "CWsm list"

record client =
  cl_devices :: "Device list"
  cl_live :: "nat list"
  cl_next :: nat
  cl_locked :: bool
  cl_fault :: bool
  cl_hist :: "cev list"

record mcSessionHandle_t =
  sh_sessionId :: u32
  sh_deviceId :: u32

definition new_client :: client where
  "new_client = \<lparr>cl_devices = [], cl_live = [], cl_next = 0, cl_locked = False, cl_fault = False, cl_hist = []\<rparr>"

text \<open>A step of the library ends with an error, which leaves the \<^verbatim>\<open>do\<close> block, or with a value.\<close>

type_synonym 'a act = "client \<Rightarrow> (u32 + 'a) \<times> client"

definition and_then :: "'a act \<Rightarrow> ('a \<Rightarrow> 'b act) \<Rightarrow> 'b act" where
  "and_then m k s = (case m s of (Inl e, s) \<Rightarrow> (Inl e, s) | (Inr x, s) \<Rightarrow> k x s)"

definition fail :: "u32 \<Rightarrow> 'a act" where "fail e s = (Inl e, s)"
definition give :: "'a \<Rightarrow> 'a act" where "give x s = (Inr x, s)"

text \<open>The mutex \<^verbatim>\<open>devMutex\<close>; taking it twice never returns.\<close>

definition dev_lock :: "client \<Rightarrow> client" where
  "dev_lock s = s\<lparr>cl_locked := True, cl_fault := (cl_fault s \<or> cl_locked s), cl_hist := cl_hist s @ [DevLock]\<rparr>"

definition dev_unlock :: "client \<Rightarrow> client" where
  "dev_unlock s = s\<lparr>cl_locked := False, cl_fault := (cl_fault s \<or> \<not> cl_locked s), cl_hist := cl_hist s @ [DevUnlock]\<rparr>"

definition on_hist :: "(cev list \<Rightarrow> 'a \<times> cev list) \<Rightarrow> client \<Rightarrow> 'a \<times> client" where
  "on_hist f s = (let (a, h) = f (cl_hist s) in (a, s\<lparr>cl_hist := h\<rparr>))"

section \<open>Connections\<close>

definition conn_new :: "client \<Rightarrow> nat \<times> client" where
  "conn_new s = (cl_next s, s\<lparr>cl_next := Suc (cl_next s), cl_live := cl_next s # cl_live s,
     cl_hist := cl_hist s @ [CNew (cl_next s)]\<rparr>)"

definition conn_use :: "nat \<Rightarrow> client \<Rightarrow> client" where
  "conn_use c s = s\<lparr>cl_fault := (cl_fault s \<or> c \<notin> set (cl_live s))\<rparr>"

definition conn_delete :: "nat \<Rightarrow> client \<Rightarrow> client" where
  "conn_delete c s = (conn_use c s)\<lparr>cl_live := remove1 c (cl_live s), cl_hist := cl_hist s @ [CDelete c]\<rparr>"

definition conn_connect :: "client_env \<Rightarrow> nat \<Rightarrow> client \<Rightarrow> bool \<times> client" where
  "conn_connect E c s = (let ok = ce_connect E (cl_hist s) c
     in (ok, (conn_use c s)\<lparr>cl_hist := cl_hist s @ [CConnect c ok]\<rparr>))"

definition writeData :: "client_env \<Rightarrow> nat \<Rightarrow> request option \<Rightarrow> nat \<Rightarrow> client \<Rightarrow> int \<times> client" where
  "writeData E c r n s = on_hist (conn_write E c r n) (conn_use c s)"

definition readData :: "client_env \<Rightarrow> nat \<Rightarrow> nat \<Rightarrow> int \<Rightarrow> client \<Rightarrow> int \<times> u8 list \<times> client" where
  "readData E c n timeout s =
     (let (rlen, got, h) = conn_read E c n timeout (cl_hist s) in (rlen, got, (conn_use c s)\<lparr>cl_hist := h\<rparr>))"

definition conn_alive :: "client_env \<Rightarrow> nat \<Rightarrow> client \<Rightarrow> bool \<times> client" where
  "conn_alive E c s = on_hist (isConnectionAlive E c) (conn_use c s)"

abbreviation (input) MC_DRV_ERR_SOCKET_CONNECT :: u32 where "MC_DRV_ERR_SOCKET_CONNECT \<equiv> MC_DRV_ERR_DAEMON_UNREACHABLE"
abbreviation (input) MC_DRV_ERR_SOCKET_WRITE :: u32 where "MC_DRV_ERR_SOCKET_WRITE \<equiv> MC_DRV_ERR_DAEMON_UNREACHABLE"
abbreviation (input) MC_DRV_ERR_SOCKET_READ :: u32 where "MC_DRV_ERR_SOCKET_READ \<equiv> MC_DRV_ERR_DAEMON_UNREACHABLE"
abbreviation (input) MC_DRV_ERR_SOCKET_LENGTH :: u32 where "MC_DRV_ERR_SOCKET_LENGTH \<equiv> MC_DRV_ERR_DAEMON_UNREACHABLE"

text \<open>\<open>SEND_TO_DAEMON\<close>.\<close>

definition send_to_daemon :: "client_env \<Rightarrow> nat \<Rightarrow> request \<Rightarrow> unit act" where
  "send_to_daemon E c r s =
     (let n = length (request_bytes (ce_ps E) (ce_pad E (cl_hist s)) r);
          (ret, s) = writeData E c (Some r) n s
      in if ret < 0 then fail MC_DRV_ERR_SOCKET_WRITE s else give () s)"

text \<open>
  \<open>RECV_FROM_DAEMON\<close> into a variable of \<open>n\<close> bytes that holds \<open>old\<close>: an answer of only the header's four
  bytes is accepted for every structure, whose other members then keep what they held.
\<close>

definition recv_from_daemon :: "client_env \<Rightarrow> nat \<Rightarrow> nat \<Rightarrow> u8 list \<Rightarrow> u8 list act" where
  "recv_from_daemon E c n old s =
     (let (rlen, got, s) = readData E c n (-1) s
      in if rlen \<le> 0 then fail MC_DRV_ERR_SOCKET_READ s
         else if rlen \<noteq> int n \<and> rlen \<noteq> 4 then fail MC_DRV_ERR_SOCKET_LENGTH s
         else give (take n (got @ drop (length got) old)) s)"

definition recv_variable :: "client_env \<Rightarrow> nat \<Rightarrow> nat \<Rightarrow> u8 list act" where
  "recv_variable E c n s = recv_from_daemon E c n (ce_stack E (cl_hist s) n) s"

text \<open>The result code of an answer, read over the previous value of \<^verbatim>\<open>mcResult\<close>.\<close>

definition recv_result :: "client_env \<Rightarrow> nat \<Rightarrow> u32 \<Rightarrow> u32 act" where
  "recv_result E c mcResult = and_then (recv_from_daemon E c 4 (le_bytes 4 (ucast mcResult))) (\<lambda>b. give (le32 b 0))"

definition recv_status :: "client_env \<Rightarrow> nat \<Rightarrow> unit act" where
  "recv_status E c = and_then (recv_result E c MC_DRV_OK) (\<lambda>r. if r \<noteq> MC_DRV_OK then fail r else give ())"

section \<open>Devices\<close>

definition resolveDeviceId :: "client \<Rightarrow> u32 \<Rightarrow> Device option" where
  "resolveDeviceId s deviceId = find (\<lambda>d. cd_deviceId d = deviceId) (cl_devices s)"

definition with_device :: "u32 \<Rightarrow> (Device \<Rightarrow> Device) \<Rightarrow> client \<Rightarrow> client" where
  "with_device deviceId f s = s\<lparr>cl_devices := update_first (\<lambda>d. cd_deviceId d = deviceId) f (cl_devices s)\<rparr>"

definition addDevice :: "Device \<Rightarrow> client \<Rightarrow> client" where
  "addDevice d s = s\<lparr>cl_devices := cl_devices s @ [d]\<rparr>"

definition resolveSessionId :: "Device \<Rightarrow> u32 \<Rightarrow> Session option" where
  "resolveSessionId d sessionId = find (\<lambda>x. cs_sessionId x = sessionId) (cd_sessions d)"

definition with_session :: "u32 \<Rightarrow> u32 \<Rightarrow> (Session \<Rightarrow> Session) \<Rightarrow> client \<Rightarrow> client" where
  "with_session deviceId sessionId f =
     with_device deviceId (\<lambda>d. d\<lparr>cd_sessions := update_first (\<lambda>x. cs_sessionId x = sessionId) f (cd_sessions d)\<rparr>)"

text \<open>The destructor of a session; what the kernel module answers is ignored.\<close>

definition delete_session :: "client_env \<Rightarrow> int \<Rightarrow> Session \<Rightarrow> client \<Rightarrow> client" where
  "delete_session E fd x s =
     conn_delete (cs_connection x)
       (foldl (\<lambda>s b. snd (on_hist (mckmod_unregisterWsmL2 E fd (bb_handle b)) s)) s (cs_bulk x))"

definition delete_device :: "client_env \<Rightarrow> Device \<Rightarrow> client \<Rightarrow> client" where
  "delete_device E d s =
     (let s = foldl (\<lambda>s x. delete_session E (cd_fd d) x s) s (cd_sessions d);
          s = foldl (\<lambda>s w. snd (on_hist (mckmod_free E (cd_fd d) (wsm_handle w) (wsm_virtAddr w) (wsm_len w)) s)) s (cd_wsms d);
          s = conn_delete (cd_connection d) s
      in snd (on_hist (mckmod_close E (cd_fd d)) s))"

definition removeDevice :: "client_env \<Rightarrow> u32 \<Rightarrow> client \<Rightarrow> bool \<times> client" where
  "removeDevice E deviceId s =
     (case resolveDeviceId s deviceId of
        None \<Rightarrow> (False, s)
      | Some d \<Rightarrow> (True, delete_device E d
          (s\<lparr>cl_devices := remove_first (\<lambda>d. cd_deviceId d = deviceId) (cl_devices s)\<rparr>)))"

definition createNewSession :: "u32 \<Rightarrow> u32 \<Rightarrow> nat \<Rightarrow> BulkBufferDescriptor option \<Rightarrow> client \<Rightarrow> client" where
  "createNewSession deviceId sessionId c bulkBuf =
     with_device deviceId (\<lambda>d. d\<lparr>cd_sessions := cd_sessions d @
       [\<lparr>cs_sessionId = sessionId, cs_connection = c, cs_lastErr = 0,
         cs_bulk = (case bulkBuf of None \<Rightarrow> [] | Some b \<Rightarrow> [b])\<rparr>]\<rparr>)"

definition removeSession :: "client_env \<Rightarrow> u32 \<Rightarrow> u32 \<Rightarrow> client \<Rightarrow> client" where
  "removeSession E deviceId sessionId s =
     (case resolveDeviceId s deviceId of
        None \<Rightarrow> s
      | Some d \<Rightarrow>
          (case resolveSessionId d sessionId of
             None \<Rightarrow> s
           | Some x \<Rightarrow>
               with_device deviceId (\<lambda>d. d\<lparr>cd_sessions := remove_first (\<lambda>x. cs_sessionId x = sessionId) (cd_sessions d)\<rparr>)
                 (delete_session E (cd_fd d) x s)))"

definition findContiguousWsm :: "Device \<Rightarrow> u64 \<Rightarrow> CWsm option" where
  "findContiguousWsm d virtAddr =
     (if virtAddr = 0 then None else find (\<lambda>w. virtAddr = wsm_virtAddr w) (cd_wsms d))"

abbreviation (input) MC_DRV_ERR_INVALID_LENGTH :: u32 where "MC_DRV_ERR_INVALID_LENGTH \<equiv> MC_DRV_ERR_NO_FREE_MEMORY"

definition allocateContiguousWsm :: "client_env \<Rightarrow> Device \<Rightarrow> u32 \<Rightarrow> CWsm act" where
  "allocateContiguousWsm E d len s =
     (if len = 0 then fail MC_DRV_ERR_INVALID_LENGTH s
      else case on_hist (mckmod_mapWsm E (cd_fd d) len) s of
        (Inl e, s) \<Rightarrow> fail e s
      | (Inr (handle, virtAddr, physAddr), s) \<Rightarrow>
          let w = \<lparr>wsm_virtAddr = virtAddr, wsm_len = len, wsm_handle = handle, wsm_physAddr = physAddr\<rparr>
          in give w (with_device (cd_deviceId d) (\<lambda>d. d\<lparr>cd_wsms := cd_wsms d @ [w]\<rparr>) s))"

text \<open>The buffer to free is one that \<open>findContiguousWsm\<close> has found: the first of its address.\<close>

definition freeContiguousWsm :: "client_env \<Rightarrow> Device \<Rightarrow> CWsm \<Rightarrow> client \<Rightarrow> u32 \<times> client" where
  "freeContiguousWsm E d w s =
     (let (ret, s) = on_hist (mckmod_free E (cd_fd d) (wsm_handle w) (wsm_virtAddr w) (wsm_len w)) s
      in if ret \<noteq> MC_DRV_OK then (ret, s)
         else (ret, with_device (cd_deviceId d)
                 (\<lambda>d. d\<lparr>cd_wsms := remove_first (\<lambda>v. wsm_virtAddr v = wsm_virtAddr w) (cd_wsms d)\<rparr>) s))"

definition mapBulkBuf :: "client_env \<Rightarrow> Device \<Rightarrow> u64 \<Rightarrow> u32 \<Rightarrow> BulkBufferDescriptor act" where
  "mapBulkBuf E d buf len s =
     (case on_hist (mckmod_registerWsmL2 E (cd_fd d) buf len) s of
        (Inl e, s) \<Rightarrow> fail e s
      | (Inr (handle, physWsmL2), s) \<Rightarrow>
          give \<lparr>bb_virtAddr = buf, bb_sVirtualAddr = 0, bb_len = len, bb_handle = handle\<rparr> s)"

section \<open>Bulk buffers of a session\<close>

abbreviation (input) MC_DRV_ERR_BUFFER_ALREADY_MAPPED :: u32 where "MC_DRV_ERR_BUFFER_ALREADY_MAPPED \<equiv> 0x13"
abbreviation (input) MC_DRV_ERR_BLK_BUFF_NOT_FOUND :: u32 where "MC_DRV_ERR_BLK_BUFF_NOT_FOUND \<equiv> 0x14"

definition addBulkBuf :: "client_env \<Rightarrow> Device \<Rightarrow> Session \<Rightarrow> u64 \<Rightarrow> u32 \<Rightarrow> BulkBufferDescriptor act" where
  "addBulkBuf E d x buf len =
     (if \<exists>b \<in> set (cs_bulk x). bb_virtAddr b = buf then fail MC_DRV_ERR_BUFFER_ALREADY_MAPPED
      else and_then (mapBulkBuf E d buf len) (\<lambda>b s.
        give b (with_session (cd_deviceId d) (cs_sessionId x) (\<lambda>x. x\<lparr>cs_bulk := cs_bulk x @ [b]\<rparr>) s)))"

definition getBufHandle :: "Session \<Rightarrow> u64 \<Rightarrow> u32 \<Rightarrow> u32" where
  "getBufHandle x sVirtAddr sVirtualLen =
     (case find (\<lambda>b. bb_sVirtualAddr b = sVirtAddr \<and> bb_len b = sVirtualLen) (cs_bulk x) of
        None \<Rightarrow> 0 | Some b \<Rightarrow> bb_handle b)"

definition removeBulkBuf :: "client_env \<Rightarrow> Device \<Rightarrow> Session \<Rightarrow> u64 \<Rightarrow> client \<Rightarrow> u32 \<times> client" where
  "removeBulkBuf E d x virtAddr s =
     (case find (\<lambda>b. bb_virtAddr b = virtAddr) (cs_bulk x) of
        None \<Rightarrow> (MC_DRV_ERR_BLK_BUFF_NOT_FOUND, s)
      | Some b \<Rightarrow>
          on_hist (mckmod_unregisterWsmL2 E (cd_fd d) (bb_handle b))
            (with_session (cd_deviceId d) (cs_sessionId x)
               (\<lambda>x. x\<lparr>cs_bulk := remove_first (\<lambda>b. bb_virtAddr b = virtAddr) (cs_bulk x)\<rparr>) s))"

end
