(* ===== verification/ClientApi.thy ===== *)
theory ClientApi
  imports ClientLib
begin

text \<open>
  The functions of the driver API, \<^verbatim>\<open>ClientLib/ClientLib.cpp\<close>. A pointer argument that may be NULL is an
  option; what a function writes through its pointers is part of its result.
\<close>

abbreviation (input) MC_DRV_ERR_NOTIFICATION :: u32 where "MC_DRV_ERR_NOTIFICATION \<equiv> 2"
abbreviation (input) MC_DRV_ERR_NOT_IMPLEMENTED :: u32 where "MC_DRV_ERR_NOT_IMPLEMENTED \<equiv> 3"
abbreviation (input) MC_DRV_ERR_TIMEOUT :: u32 where "MC_DRV_ERR_TIMEOUT \<equiv> 0xb"
abbreviation (input) MC_DRV_ERR_SESSION_PENDING :: u32 where "MC_DRV_ERR_SESSION_PENDING \<equiv> 0xe"
abbreviation (input) MC_DRV_INFO_NOTIFICATION :: u32 where "MC_DRV_INFO_NOTIFICATION \<equiv> 0x15"
abbreviation (input) MC_DRV_ERR_DAEMON_VERSION :: u32 where "MC_DRV_ERR_DAEMON_VERSION \<equiv> 0x17"
abbreviation (input) MC_DRV_ERR_NULL_POINTER :: u32 where "MC_DRV_ERR_NULL_POINTER \<equiv> MC_DRV_ERR_INVALID_PARAMETER"
abbreviation (input) MC_DRV_ERR_TCI_TOO_BIG :: u32 where "MC_DRV_ERR_TCI_TOO_BIG \<equiv> MC_DRV_ERR_INVALID_PARAMETER"
abbreviation (input) MC_DRV_ERR_WSM_NOT_FOUND :: u32 where "MC_DRV_ERR_WSM_NOT_FOUND \<equiv> MC_DRV_ERR_INVALID_PARAMETER"
abbreviation (input) MC_DEVICE_ID_DEFAULT :: u32 where "MC_DEVICE_ID_DEFAULT \<equiv> 0"
abbreviation (input) MC_MAX_TCI_LEN :: u32 where "MC_MAX_TCI_LEN \<equiv> 0x100000"

definition with_lock :: "(client \<Rightarrow> 'a \<times> client) \<Rightarrow> client \<Rightarrow> 'a \<times> client" where
  "with_lock f s = (let (r, s) = f (dev_lock s) in (r, dev_unlock s))"

text \<open>\<open>CHECK_DEVICE\<close>, and \<open>CHECK_DEVICE_CLOSED\<close>, which knows one more case.\<close>

definition check_device :: "u32 \<Rightarrow> Device act" where
  "check_device deviceId s = (case resolveDeviceId s deviceId of None \<Rightarrow> fail MC_DRV_ERR_UNKNOWN_DEVICE s | Some d \<Rightarrow> give d s)"

definition check_device_closed :: "u32 \<Rightarrow> Device act" where
  "check_device_closed deviceId s =
     (case resolveDeviceId s deviceId of
        None \<Rightarrow> fail (if deviceId = MC_DEVICE_ID_DEFAULT then MC_DRV_ERR_DAEMON_DEVICE_NOT_OPEN else MC_DRV_ERR_UNKNOWN_DEVICE) s
      | Some d \<Rightarrow> give d s)"

definition check_session :: "Device \<Rightarrow> u32 \<Rightarrow> Session act" where
  "check_session d sessionId s = (case resolveSessionId d sessionId of None \<Rightarrow> fail MC_DRV_ERR_UNKNOWN_SESSION s | Some x \<Rightarrow> give x s)"

definition check_not_null :: "'a option \<Rightarrow> 'a act" where
  "check_not_null x s = (case x of None \<Rightarrow> fail MC_DRV_ERR_NULL_POINTER s | Some y \<Rightarrow> give y s)"

definition result_of :: "(u32 + 'a) \<times> client \<Rightarrow> u32 \<times> client" where
  "result_of = (\<lambda>(r, s). (case r of Inl e \<Rightarrow> e | Inr _ \<Rightarrow> MC_DRV_OK, s))"

section \<open>Opening and closing a device\<close>

definition checkVersionOkDAEMON :: "u32 \<Rightarrow> bool" where
  "checkVersionOkDAEMON version \<longleftrightarrow> drop_bit 16 version = 0 \<and> 2 \<le> version AND 0xFFFF"

definition getDaemonVersion :: "client_env \<Rightarrow> nat \<Rightarrow> u32 act" where
  "getDaemonVersion E c =
     and_then (send_to_daemon E c ReqGetVersion) (\<lambda>_.
     and_then (recv_status E c) (\<lambda>_.
     and_then (recv_from_daemon E c 4 [0, 0, 0, 0]) (\<lambda>v. give (le32 v 0))))"

definition hello :: "client_env \<Rightarrow> nat \<Rightarrow> u32 \<Rightarrow> unit act" where
  "hello E c deviceId =
     and_then (getDaemonVersion E c) (\<lambda>version.
     and_then (if \<not> checkVersionOkDAEMON version then fail MC_DRV_ERR_DAEMON_VERSION else give ()) (\<lambda>_.
     and_then (send_to_daemon E c (ReqOpenDevice deviceId)) (\<lambda>_. recv_status E c)))"

text \<open>
  The body of \<^verbatim>\<open>mcOpenDevice\<close>; the second result is \<^verbatim>\<open>devCon\<close>. \<^verbatim>\<open>Device::open\<close> turns the error code of the
  kernel module into a \<^verbatim>\<open>bool\<close>.
\<close>

definition open_device_body :: "client_env \<Rightarrow> u32 \<Rightarrow> client \<Rightarrow> (u32 \<times> nat option) \<times> client" where
  "open_device_body E deviceId s =
     (case resolveDeviceId s deviceId of
        Some _ \<Rightarrow> ((MC_DRV_ERR_DEVICE_ALREADY_OPEN, None), s)
      | None \<Rightarrow>
          let (c, s) = conn_new s; (ok, s) = conn_connect E c s in
          if \<not> ok then ((MC_DRV_ERR_SOCKET_CONNECT, Some c), s)
          else case hello E c deviceId s of
            (Inl e, s) \<Rightarrow> ((e, Some c), s)
          | (Inr _, s) \<Rightarrow>
              let ((err, fd), s) = on_hist (\<lambda>h. let (e, fd, h) = mckmod_open E INVALID_FILE_DESCRIPTOR h in ((e, fd), h)) s;
                  mcResult = (if err \<noteq> 0 then 1 else 0);
                  d = \<lparr>cd_deviceId = deviceId, cd_connection = c, cd_fd = fd, cd_sessions = [], cd_wsms = []\<rparr>
              in if mcResult \<noteq> MC_DRV_OK then ((mcResult, None), delete_device E d s)
                 else ((mcResult, Some c), addDevice d s))"

definition mcOpenDevice :: "client_env \<Rightarrow> u32 \<Rightarrow> client \<Rightarrow> u32 \<times> client" where
  "mcOpenDevice E deviceId s =
     (let ((mcResult, devCon), s) = with_lock (open_device_body E deviceId) s
      in (mcResult, if mcResult \<noteq> MC_DRV_OK then (case devCon of None \<Rightarrow> s | Some c \<Rightarrow> conn_delete c s) else s))"

definition mcCloseDevice :: "client_env \<Rightarrow> u32 \<Rightarrow> client \<Rightarrow> u32 \<times> client" where
  "mcCloseDevice E deviceId = with_lock (\<lambda>s. result_of (and_then (check_device_closed deviceId) (\<lambda>d s.
     (let (alive, s) = conn_alive E (cd_connection d) s in
      if \<not> alive then fail MC_DRV_ERR_DAEMON_UNREACHABLE (snd (removeDevice E deviceId s))
      else if cd_sessions d \<noteq> [] then fail MC_DRV_ERR_SESSION_PENDING s
      else and_then (send_to_daemon E (cd_connection d) ReqCloseDevice) (\<lambda>_.
           and_then (recv_status E (cd_connection d)) (\<lambda>_ s. give () (snd (removeDevice E deviceId s)))) s)) s))"

section \<open>Opening a session\<close>

text \<open>
  The handle of the TCI: that of a contiguous buffer, or of a buffer registered for the purpose,
  which is the second result. \<^verbatim>\<open>mcOpenTrustlet\<close> does not look whether there is a buffer at all.
\<close>

definition tci_contiguous :: "CWsm \<Rightarrow> u32 \<Rightarrow> (u32 \<times> BulkBufferDescriptor option) act" where
  "tci_contiguous w len = (if wsm_len w < len then fail MC_DRV_ERR_TCI_GREATER_THAN_WSM else give (wsm_handle w, None))"

definition tci_register :: "client_env \<Rightarrow> Device \<Rightarrow> u64 \<Rightarrow> u32 \<Rightarrow> (u32 \<times> BulkBufferDescriptor option) act" where
  "tci_register E d tci len s =
     (case mapBulkBuf E d tci len s of
        (Inl _, s) \<Rightarrow> fail MC_DRV_ERR_WSM_NOT_FOUND s
      | (Inr b, s) \<Rightarrow> give (bb_handle b, Some b) s)"

definition tci_of_session :: "client_env \<Rightarrow> Device \<Rightarrow> u64 \<Rightarrow> u32 \<Rightarrow> (u32 \<times> BulkBufferDescriptor option) act" where
  "tci_of_session E d tci len =
     (case findContiguousWsm d tci of
        Some w \<Rightarrow> tci_contiguous w len
      | None \<Rightarrow> if tci \<noteq> 0 \<and> len \<noteq> 0 then tci_register E d tci len
                else if len \<noteq> 0 then fail MC_DRV_ERR_TCI_GREATER_THAN_WSM else give (0, None))"

definition tci_of_trustlet :: "client_env \<Rightarrow> Device \<Rightarrow> u64 \<Rightarrow> u32 \<Rightarrow> (u32 \<times> BulkBufferDescriptor option) act" where
  "tci_of_trustlet E d tci len =
     (case findContiguousWsm d tci of Some w \<Rightarrow> tci_contiguous w len | None \<Rightarrow> tci_register E d tci len)"

text \<open>The code for an answer that is not \<^verbatim>\<open>MC_DRV_OK\<close>: the secure world's own code if it is a known one.\<close>

definition open_error :: "u32 \<Rightarrow> u32" where
  "open_error mcResult =
     (if MC_DRV_ERROR_MAJOR mcResult \<noteq> MC_DRV_ERR_MCP_ERROR then mcResult
      else let mcp = MC_DRV_ERROR_MCP mcResult in
        if mcp = 16 then 0x19 else if mcp = 17 then 0x1a else if mcp = 18 then 0x1b
        else if mcp = 19 then 0x1c else if mcp = 20 then 0x1d else if mcp = 21 then 0x1e
        else if mcp = 22 then 0x1f else if mcp = 23 then 0x20 else MC_DRV_ERR_MCP_ERROR)"

definition recv_open_status :: "client_env \<Rightarrow> nat \<Rightarrow> unit act" where
  "recv_open_status E c = and_then (recv_result E c MC_DRV_OK) (\<lambda>r. if r \<noteq> MC_DRV_OK then fail (open_error r) else give ())"

text \<open>
  What follows the daemon's consent: its identifiers are read, a second connection for the notifications
  is made, and the session object is created. The second result is what is written to
  \<^verbatim>\<open>session->sessionId\<close>, also when the rest fails.
\<close>

definition open_channel :: "client_env \<Rightarrow> Device \<Rightarrow> BulkBufferDescriptor option \<Rightarrow> client \<Rightarrow> (u32 \<times> u32 option) \<times> client" where
  "open_channel E d bulkBuf s =
     (case recv_variable E (cd_connection d) 12 s of
        (Inl e, s) \<Rightarrow> ((e, None), s)
      | (Inr p, s) \<Rightarrow>
          let sessionId = le32 p 0; (c, s) = conn_new s; (ok, s) = conn_connect E c s in
          if \<not> ok then ((MC_DRV_ERR_SOCKET_CONNECT, Some sessionId), conn_delete c s)
          else case and_then (send_to_daemon E c (ReqNqConnect (cd_deviceId d) sessionId (le32 p 4) (le32 p 8)))
                      (\<lambda>_. recv_status E c) s of
            (Inl e, s) \<Rightarrow> ((e, Some sessionId), conn_delete c s)
          | (Inr _, s) \<Rightarrow> ((MC_DRV_OK, Some sessionId), createNewSession (cd_deviceId d) sessionId c bulkBuf s))"

text \<open>
  The part the three ways of opening share. \<open>request\<close> sends the command for a handle. When the call
  fails, the descriptor of a registered TCI is deleted, but the registration is not.
\<close>

definition open_common ::
    "client_env \<Rightarrow> mcSessionHandle_t \<Rightarrow> u32 \<Rightarrow> (Device \<Rightarrow> (u32 \<times> BulkBufferDescriptor option) act) \<Rightarrow> (nat \<Rightarrow> u32 \<Rightarrow> unit act)
     \<Rightarrow> client \<Rightarrow> (u32 \<times> u32 option) \<times> client" where
  "open_common E session len tci_handle request s =
     (if MC_MAX_TCI_LEN < len then ((MC_DRV_ERR_TCI_TOO_BIG, None), s)
      else case and_then (check_device (sh_deviceId session)) (\<lambda>d.
                and_then (tci_handle d) (\<lambda>(handle, bulkBuf).
                and_then (request (cd_connection d) handle) (\<lambda>_.
                and_then (recv_open_status E (cd_connection d)) (\<lambda>_. give (d, bulkBuf))))) s of
             (Inl e, s) \<Rightarrow> ((e, None), s)
           | (Inr (d, bulkBuf), s) \<Rightarrow> open_channel E d bulkBuf s)"

definition open_null :: "(u32 \<times> u32 option) \<times> client \<Rightarrow> mcSessionHandle_t option \<Rightarrow> (u32 \<times> mcSessionHandle_t option) \<times> client" where
  "open_null = (\<lambda>((r, sid), s) session.
     ((r, case sid of None \<Rightarrow> session | Some i \<Rightarrow> map_option (\<lambda>x. x\<lparr>sh_sessionId := i\<rparr>) session), s))"

definition mcOpenSession ::
    "client_env \<Rightarrow> mcSessionHandle_t option \<Rightarrow> mcUuid_t option \<Rightarrow> u64 \<Rightarrow> u32 \<Rightarrow> client \<Rightarrow> (u32 \<times> mcSessionHandle_t option) \<times> client" where
  "mcOpenSession E session uuid tci len = with_lock (\<lambda>s.
     (case (session, uuid) of
        (Some x, Some u) \<Rightarrow> open_null (open_common E x len (\<lambda>d. tci_of_session E d tci len)
          (\<lambda>c handle. send_to_daemon E c (ReqOpenSession (sh_deviceId x) u (tci AND 0xFFF) handle len)) s) session
      | _ \<Rightarrow> ((MC_DRV_ERR_NULL_POINTER, session), s)))"

definition mcOpenTrustlet ::
    "client_env \<Rightarrow> mcSessionHandle_t option \<Rightarrow> u32 \<Rightarrow> u64 \<Rightarrow> u32 \<Rightarrow> u64 \<Rightarrow> u32 \<Rightarrow> client \<Rightarrow> (u32 \<times> mcSessionHandle_t option) \<times> client" where
  "mcOpenTrustlet E session spid trustlet tlen tci len = with_lock (\<lambda>s.
     (case session of
        Some x \<Rightarrow>
          if trustlet = 0 \<or> tci = 0 then ((MC_DRV_ERR_NULL_POINTER, session), s)
          else open_null (open_common E x len (\<lambda>d. tci_of_trustlet E d tci len)
            (\<lambda>c handle. and_then (send_to_daemon E c (ReqOpenTrustlet (sh_deviceId x) spid tlen (tci AND 0xFFF) handle len))
               (\<lambda>_ s. (let (ret, s) = writeData E c None (unat tlen) s in if ret < 0 then fail MC_DRV_ERR_SOCKET_WRITE s else give () s))) s) session
      | None \<Rightarrow> ((MC_DRV_ERR_NULL_POINTER, session), s)))"

definition mcOpenGPTA ::
    "client_env \<Rightarrow> mcSessionHandle_t option \<Rightarrow> mcUuid_t option \<Rightarrow> u64 \<Rightarrow> u32 \<Rightarrow> client \<Rightarrow> (u32 \<times> mcSessionHandle_t option) \<times> client" where
  "mcOpenGPTA E session uuid tci len = with_lock (\<lambda>s.
     (case (session, uuid) of
        (Some x, Some u) \<Rightarrow> open_null (open_common E x len (\<lambda>d. tci_of_session E d tci len)
          (\<lambda>c handle. send_to_daemon E c (ReqOpenTrustedApp (sh_deviceId x) u (tci AND 0xFFF) handle len)) s) session
      | _ \<Rightarrow> ((MC_DRV_ERR_NULL_POINTER, session), s)))"

section \<open>Sessions\<close>

text \<open>
  The end of \<^verbatim>\<open>mcCloseSession\<close>, \<^verbatim>\<open>mcNotify\<close> and \<^verbatim>\<open>mcUnmap\<close>: a result that is the number of a socket error
  removes the device.
\<close>

definition drop_dead_device :: "client_env \<Rightarrow> u32 \<Rightarrow> u32 \<times> client \<Rightarrow> u32 \<times> client" where
  "drop_dead_device E deviceId = (\<lambda>(mcResult, s).
     (mcResult, if mcResult = MC_DRV_ERR_SOCKET_WRITE \<or> mcResult = MC_DRV_ERR_SOCKET_READ
                then snd (removeDevice E deviceId s) else s))"

definition mcCloseSession :: "client_env \<Rightarrow> mcSessionHandle_t option \<Rightarrow> client \<Rightarrow> u32 \<times> client" where
  "mcCloseSession E session = with_lock (\<lambda>s.
     (case session of
        None \<Rightarrow> (MC_DRV_ERR_NULL_POINTER, s)
      | Some h \<Rightarrow> drop_dead_device E (sh_deviceId h) (result_of (
          and_then (check_device (sh_deviceId h)) (\<lambda>d.
          and_then (check_session d (sh_sessionId h)) (\<lambda>_.
          and_then (send_to_daemon E (cd_connection d) (ReqCloseSession (sh_sessionId h))) (\<lambda>_.
          and_then (recv_result E (cd_connection d) MC_DRV_OK) (\<lambda>r s.
            if r \<noteq> MC_DRV_OK then fail MC_DRV_ERR_UNKNOWN_DEVICE s
            else give () (removeSession E (sh_deviceId h) (sh_sessionId h) s))))) s))))"

definition mcNotify :: "client_env \<Rightarrow> mcSessionHandle_t option \<Rightarrow> client \<Rightarrow> u32 \<times> client" where
  "mcNotify E session = with_lock (\<lambda>s.
     (case session of
        None \<Rightarrow> (MC_DRV_ERR_NULL_POINTER, s)
      | Some h \<Rightarrow> drop_dead_device E (sh_deviceId h) (result_of (
          and_then (check_device (sh_deviceId h)) (\<lambda>d.
          and_then (check_session d (sh_sessionId h)) (\<lambda>_.
          send_to_daemon E (cd_connection d) (ReqNotify (sh_sessionId h)))) s))))"

text \<open>
  The loop that drains the notifications of a session, \<open>None\<close> when it never ends. The counter is 32 bits
  wide; after the first notification reads do not wait.
\<close>

partial_function (option) drain ::
    "client_env \<Rightarrow> mcSessionHandle_t \<Rightarrow> nat \<Rightarrow> u32 \<Rightarrow> int \<Rightarrow> client \<Rightarrow> (u32 \<times> client) option" where
  "drain E x c count timeout s =
     (let (numRead, got, s) = readData E c 8 timeout s in
      if count = 0 \<and> numRead = -2 then Some (MC_DRV_ERR_TIMEOUT, s)
      else if count = 0 \<and> numRead = 0 then Some (MC_DRV_ERR_NOTIFICATION, snd (removeDevice E (sh_deviceId x) s))
      else if numRead \<noteq> 8 then Some (if count = 0 then MC_DRV_ERR_NOTIFICATION else MC_DRV_OK, s)
      else if le32 got 4 \<noteq> 0
      then Some (MC_DRV_INFO_NOTIFICATION,
             with_session (sh_deviceId x) (sh_sessionId x) (\<lambda>x. x\<lparr>cs_lastErr := le32 got 4\<rparr>) s)
      else drain E x c (count + 1) 0 s)"

text \<open>The mutex is not taken.\<close>

definition mcWaitNotification :: "client_env \<Rightarrow> mcSessionHandle_t option \<Rightarrow> int \<Rightarrow> client \<Rightarrow> (u32 \<times> client) option" where
  "mcWaitNotification E session timeout s =
     (case session of
        None \<Rightarrow> Some (MC_DRV_ERR_NULL_POINTER, s)
      | Some h \<Rightarrow>
          (case and_then (check_device (sh_deviceId h)) (\<lambda>d. check_session d (sh_sessionId h)) s of
             (Inl e, s) \<Rightarrow> Some (e, s)
           | (Inr x, s) \<Rightarrow> drain E h (cs_connection x) 0 timeout s))"

definition mcGetSessionErrorCode :: "mcSessionHandle_t option \<Rightarrow> u32 option \<Rightarrow> client \<Rightarrow> (u32 \<times> u32 option) \<times> client" where
  "mcGetSessionErrorCode session lastErr = with_lock (\<lambda>s.
     (case (session, lastErr) of
        (Some h, Some _) \<Rightarrow>
          (case and_then (check_device (sh_deviceId h)) (\<lambda>d. check_session d (sh_sessionId h)) s of
             (Inl e, s) \<Rightarrow> ((e, lastErr), s)
           | (Inr x, s) \<Rightarrow> ((MC_DRV_OK, Some (cs_lastErr x)), s))
      | _ \<Rightarrow> ((MC_DRV_ERR_NULL_POINTER, lastErr), s)))"

section \<open>Memory\<close>

definition mcMallocWsm :: "client_env \<Rightarrow> u32 \<Rightarrow> u32 \<Rightarrow> u64 option \<Rightarrow> client \<Rightarrow> (u32 \<times> u64 option) \<times> client" where
  "mcMallocWsm E deviceId len wsm = with_lock (\<lambda>s.
     (case and_then (check_device_closed deviceId) (\<lambda>d. and_then (check_not_null wsm) (\<lambda>_. allocateContiguousWsm E d len)) s of
        (Inl e, s) \<Rightarrow> ((e, wsm), s)
      | (Inr w, s) \<Rightarrow> ((MC_DRV_OK, Some (wsm_virtAddr w)), s)))"

definition mcFreeWsm :: "client_env \<Rightarrow> u32 \<Rightarrow> u64 \<Rightarrow> client \<Rightarrow> u32 \<times> client" where
  "mcFreeWsm E deviceId wsm = with_lock (\<lambda>s.
     (case check_device deviceId s of
        (Inl e, s) \<Rightarrow> (e, s)
      | (Inr d, s) \<Rightarrow>
          (case findContiguousWsm d wsm of
             None \<Rightarrow> (MC_DRV_ERR_WSM_NOT_FOUND, s)
           | Some w \<Rightarrow> freeContiguousWsm E d w s)))"

text \<open>A mapping is the secure address and the length; the third argument is where it is to be written.\<close>

type_synonym mcBulkMap = "u64 \<times> u32"

definition mcMap ::
    "client_env \<Rightarrow> mcSessionHandle_t option \<Rightarrow> u64 \<Rightarrow> u32 \<Rightarrow> mcBulkMap option \<Rightarrow> client \<Rightarrow> (u32 \<times> mcBulkMap option) \<times> client" where
  "mcMap E sessionHandle buf bufLen mapInfo = with_lock (\<lambda>s.
     (case (sessionHandle, mapInfo) of
        (Some h, Some _) \<Rightarrow>
          if buf = 0 then ((MC_DRV_ERR_NULL_POINTER, mapInfo), s)
          else
            (case and_then (check_device (sh_deviceId h)) (\<lambda>d.
                  and_then (check_session d (sh_sessionId h)) (\<lambda>x.
                  and_then (addBulkBuf E d x buf bufLen) (\<lambda>b.
                  and_then (send_to_daemon E (cd_connection d)
                    (ReqMapBulkBuf (cs_sessionId x) (bb_handle b) 0 (bb_virtAddr b AND 0xFFF) (bb_len b))) (\<lambda>_.
                  and_then (recv_result E (cd_connection d) MC_DRV_OK) (\<lambda>r s.
                    if r \<noteq> MC_DRV_OK
                    then fail MC_DRV_ERR_DAEMON_UNREACHABLE
                      (snd (removeBulkBuf E d (x\<lparr>cs_bulk := cs_bulk x @ [b]\<rparr>) buf s))
                    else and_then (recv_variable E (cd_connection d) 8) (\<lambda>p. give (le32 p 4)) s))))) s of
               (Inl e, s) \<Rightarrow> ((e, mapInfo), s)
             | (Inr secureVirtualAdr, s) \<Rightarrow>
                 ((MC_DRV_OK, Some (ucast secureVirtualAdr, bufLen)),
                  with_session (sh_deviceId h) (sh_sessionId h)
                    (\<lambda>x. x\<lparr>cs_bulk := update_first (\<lambda>b. bb_virtAddr b = buf)
                             (\<lambda>b. b\<lparr>bb_sVirtualAddr := ucast secureVirtualAdr\<rparr>) (cs_bulk x)\<rparr>) s))
      | _ \<Rightarrow> ((MC_DRV_ERR_NULL_POINTER, mapInfo), s)))"

definition mcUnmap :: "client_env \<Rightarrow> mcSessionHandle_t option \<Rightarrow> u64 \<Rightarrow> mcBulkMap option \<Rightarrow> client \<Rightarrow> u32 \<times> client" where
  "mcUnmap E sessionHandle buf mapInfo = with_lock (\<lambda>s.
     (case (sessionHandle, mapInfo) of
        (Some h, Some (sVirtualAddr, sVirtualLen)) \<Rightarrow>
          if sVirtualAddr = 0 \<or> buf = 0 then (MC_DRV_ERR_NULL_POINTER, s)
          else drop_dead_device E (sh_deviceId h)
            (case and_then (check_device (sh_deviceId h)) (\<lambda>d.
                  and_then (check_session d (sh_sessionId h)) (\<lambda>x.
                   (let handle = getBufHandle x sVirtualAddr sVirtualLen in
                    if handle = 0 then fail MC_DRV_ERR_BLK_BUFF_NOT_FOUND
                    else
                      and_then (send_to_daemon E (cd_connection d) (ReqUnmapBulkBuf (cs_sessionId x) handle sVirtualAddr sVirtualLen)) (\<lambda>_.
                      and_then (recv_result E (cd_connection d) MC_DRV_ERR_UNKNOWN) (\<lambda>r.
                        if r \<noteq> MC_DRV_OK then fail MC_DRV_ERR_DAEMON_UNREACHABLE else give (d, x)))))) s of
               (Inl e, s) \<Rightarrow> (e, s)
             | (Inr (d, x), s) \<Rightarrow> removeBulkBuf E d x buf s)
      | _ \<Rightarrow> (MC_DRV_ERR_NULL_POINTER, s)))"

section \<open>The rest\<close>

definition mcDriverCtrl :: "client \<Rightarrow> u32 \<times> client" where
  "mcDriverCtrl s = (MC_DRV_ERR_NOT_IMPLEMENTED, s)"

text \<open>The version is a structure of 96 bytes.\<close>

definition mcGetMobiCoreVersion :: "client_env \<Rightarrow> u32 \<Rightarrow> u8 list option \<Rightarrow> client \<Rightarrow> (u32 \<times> u8 list option) \<times> client" where
  "mcGetMobiCoreVersion E deviceId versionInfo = with_lock (\<lambda>s.
     (case and_then (check_device deviceId) (\<lambda>d.
           and_then (check_not_null versionInfo) (\<lambda>_.
           and_then (send_to_daemon E (cd_connection d) ReqGetMobiCoreVersion) (\<lambda>_.
           and_then (recv_result E (cd_connection d) MC_DRV_OK) (\<lambda>r.
             if r \<noteq> MC_DRV_OK then fail MC_DRV_ERR_DAEMON_UNREACHABLE
             else recv_variable E (cd_connection d) 96)))) s of
        (Inl e, s) \<Rightarrow> ((e, versionInfo), s)
      | (Inr v, s) \<Rightarrow> ((MC_DRV_OK, Some v), s)))"

end
