(* ===== verification/ClientLaws.thy ===== *)
theory ClientLaws
  imports ClientApi "HOL-Library.Multiset"
begin

text \<open>
  What the client library keeps, whatever the daemon and the kernel module answer: each live
  connection belongs to one device or session, none is used or deleted when it is not alive, the
  mutex is free between calls, and every buffer a session lists is registered with the kernel
  module of its device.
\<close>

section \<open>Lists searched from the front\<close>

lemma find_split:
  assumes "find P xs = Some x"
  obtains ys zs where "xs = ys @ x # zs" "P x" "\<And>y. y \<in> set ys \<Longrightarrow> \<not> P y"
    "\<And>f. update_first P f xs = ys @ f x # zs" "remove_first P xs = ys @ zs"
proof -
  have "\<exists>ys zs. xs = ys @ x # zs \<and> P x \<and> (\<forall>y \<in> set ys. \<not> P y) \<and>
      (\<forall>f. update_first P f xs = ys @ f x # zs) \<and> remove_first P xs = ys @ zs"
    using assms
  proof (induction xs)
    case (Cons a xs)
    show ?case
    proof (cases "P a")
      case True
      with Cons.prems show ?thesis by (intro exI [of _ "[]"] exI [of _ xs]) auto
    next
      case False
      with Cons obtain ys zs where "xs = ys @ x # zs" "P x" "\<forall>y \<in> set ys. \<not> P y"
        "\<forall>f. update_first P f xs = ys @ f x # zs" "remove_first P xs = ys @ zs" by auto
      with False show ?thesis by (intro exI [of _ "a # ys"] exI [of _ zs]) auto
    qed
  qed simp
  then show thesis using that by blast
qed

section \<open>The invariant\<close>

definition dev_conns :: "Device \<Rightarrow> nat list" where
  "dev_conns d = cd_connection d # map cs_connection (cd_sessions d)"

definition dev_handles :: "Device \<Rightarrow> u32 list" where
  "dev_handles d = concat (map (\<lambda>x. map bb_handle (cs_bulk x)) (cd_sessions d))"

definition owned :: "client \<Rightarrow> nat list" where
  "owned s = concat (map dev_conns (cl_devices s))"

text \<open>
  \<open>cs\<close> are connections a call holds without having given them to an object, \<open>p\<close> the registrations it
  holds, by file descriptor.
\<close>

definition client_inv :: "bool \<Rightarrow> nat list \<Rightarrow> (int \<Rightarrow> u32 multiset) \<Rightarrow> client \<Rightarrow> bool" where
  "client_inv l cs p s \<longleftrightarrow>
     distinct (map cd_deviceId (cl_devices s)) \<and>
     mset (cl_live s) = mset (owned s) + mset cs \<and>
     distinct (cl_live s) \<and> (\<forall>c \<in> set (cl_live s). c < cl_next s) \<and>
     \<not> cl_fault s \<and> cl_locked s = l \<and>
     distinct (map cd_fd (cl_devices s)) \<and>
     (\<forall>d \<in> set (cl_devices s). cd_fd d \<noteq> -1 \<and> cd_fd d \<in> open_fds (cl_hist s) \<and>
        mset (dev_handles d) + p (cd_fd d) \<subseteq># mset (registered (cd_fd d) (cl_hist s)))"

abbreviation no_regs :: "int \<Rightarrow> u32 multiset" where "no_regs \<equiv> (\<lambda>_. {#})"

text \<open>Traffic on a socket leaves everything but the history alone.\<close>

definition sock :: "client \<Rightarrow> client \<Rightarrow> bool" where
  "sock s t \<longleftrightarrow> cl_devices t = cl_devices s \<and> cl_live t = cl_live s \<and> cl_next t = cl_next s \<and>
     cl_locked t = cl_locked s \<and> cl_fault t = cl_fault s \<and>
     open_fds (cl_hist t) = open_fds (cl_hist s) \<and> (\<forall>fd. registered fd (cl_hist t) = registered fd (cl_hist s))"

definition sock_act :: "nat \<Rightarrow> 'a act \<Rightarrow> bool" where
  "sock_act c m \<longleftrightarrow> (\<forall>s. c \<in> set (cl_live s) \<longrightarrow> sock s (snd (m s)))"

named_theorems sock_intros

lemma sock_refl [simp, intro]: "sock s s" by (simp add: sock_def)

lemma sock_trans [trans]: "sock s t \<Longrightarrow> sock t u \<Longrightarrow> sock s u" by (simp add: sock_def)

lemma sockD:
  assumes "sock s t"
  shows "cl_devices t = cl_devices s" "cl_live t = cl_live s" "resolveDeviceId t k = resolveDeviceId s k"
    "cl_next t = cl_next s" "cl_locked t = cl_locked s" "cl_fault t = cl_fault s"
    "open_fds (cl_hist t) = open_fds (cl_hist s)" "registered fd (cl_hist t) = registered fd (cl_hist s)"
  using assms by (simp_all add: sock_def resolveDeviceId_def)

lemma sock_inv: "client_inv l cs p s \<Longrightarrow> sock s t \<Longrightarrow> client_inv l cs p t"
  by (simp add: client_inv_def sock_def owned_def)

lemma sock_actD: "sock_act c m \<Longrightarrow> c \<in> set (cl_live s) \<Longrightarrow> m s = (r, t) \<Longrightarrow> sock s t"
  unfolding sock_act_def by (metis snd_conv)

lemma sock_act_basic [sock_intros]: "sock_act c (fail e)" "sock_act c (give x)"
  by (simp_all add: sock_act_def fail_def give_def)

lemma sock_act_then [sock_intros]:
  "sock_act c m \<Longrightarrow> (\<And>x. sock_act c (k x)) \<Longrightarrow> sock_act c (and_then m k)"
  unfolding sock_act_def and_then_def
  by (auto split: prod.splits sum.splits) (metis fst_conv snd_conv sock_trans sockD(2))+

lemma sock_act_if [sock_intros]: "sock_act c m \<Longrightarrow> sock_act c n \<Longrightarrow> sock_act c (if b then m else n)"
  by simp

lemma sock_writeData: "c \<in> set (cl_live s) \<Longrightarrow> sock s (snd (writeData E c r n s))"
  by (simp add: sock_def writeData_def on_hist_def conn_write_def conn_use_def Let_def fd_step_def reg_step_def)

lemma sock_readData: "c \<in> set (cl_live s) \<Longrightarrow> sock s (snd (snd (readData E c n t s)))"
  by (simp add: sock_def readData_def conn_read_def conn_use_def Let_def fd_step_def reg_step_def split: prod.splits)

lemma sock_conn_alive: "c \<in> set (cl_live s) \<Longrightarrow> sock s (snd (conn_alive E c s))"
  by (simp add: sock_def conn_alive_def on_hist_def isConnectionAlive_def conn_use_def Let_def fd_step_def reg_step_def)

lemma sock_connect: "c \<in> set (cl_live s) \<Longrightarrow> sock s (snd (conn_connect E c s))"
  by (simp add: sock_def conn_connect_def conn_use_def Let_def fd_step_def reg_step_def)

lemma sock_send [sock_intros]: "sock_act c (send_to_daemon E c r)"
  unfolding sock_act_def send_to_daemon_def fail_def give_def Let_def
  using sock_writeData by (auto split: prod.splits) (metis snd_conv)+

lemma sock_recv [sock_intros]: "sock_act c (recv_from_daemon E c n old)"
  unfolding sock_act_def recv_from_daemon_def fail_def give_def Let_def
  using sock_readData by (auto split: prod.splits) (metis snd_conv)+

lemma sock_recv_variable [sock_intros]: "sock_act c (recv_variable E c n)"
  using sock_recv unfolding sock_act_def recv_variable_def by blast

lemma sock_recv_result [sock_intros]: "sock_act c (recv_result E c r)"
  unfolding recv_result_def by (intro sock_intros)

lemma sock_recv_status [sock_intros]: "sock_act c (recv_status E c)"
  unfolding recv_status_def by (intro sock_intros)

lemma sock_recv_open_status [sock_intros]: "sock_act c (recv_open_status E c)"
  unfolding recv_open_status_def by (intro sock_intros)

lemma sock_hello [sock_intros]: "sock_act c (hello E c k)"
  unfolding hello_def getDaemonVersion_def by (intro sock_intros)

lemma sock_act_write [sock_intros]:
  "sock_act c (\<lambda>s. (let (ret, s) = writeData E c r n s in if ret < 0 then fail e s else give x s))"
  unfolding sock_act_def fail_def give_def Let_def
  using sock_writeData by (auto split: prod.splits) (metis snd_conv)+

section \<open>Objects\<close>

lemma inv_device:
  assumes "client_inv l cs p s" "resolveDeviceId s k = Some d"
  shows "d \<in> set (cl_devices s)" "cd_deviceId d = k" "cd_connection d \<in> set (cl_live s)"
    "x \<in> set (cd_sessions d) \<Longrightarrow> cs_connection x \<in> set (cl_live s)"
proof -
  show d: "d \<in> set (cl_devices s)" "cd_deviceId d = k"
    using assms(2) unfolding resolveDeviceId_def by (auto simp: find_Some_iff)
  have "set (dev_conns d) \<subseteq> set (owned s)" using d(1) by (auto simp: owned_def)
  moreover have "set (owned s) \<subseteq> set (cl_live s)"
    using assms(1) unfolding client_inv_def by (metis mset_subset_eq_add_left set_mset_mono set_mset_mset)
  ultimately show "cd_connection d \<in> set (cl_live s)" "x \<in> set (cd_sessions d) \<Longrightarrow> cs_connection x \<in> set (cl_live s)"
    by (auto simp: dev_conns_def)
qed

lemma inv_live: "client_inv l cs p s \<Longrightarrow> c \<in> set cs \<Longrightarrow> c \<in> set (cl_live s)"
  unfolding client_inv_def by (metis in_multiset_in_set union_iff)

lemma inv_unlocked: "client_inv l cs p s \<Longrightarrow> cl_locked s = l \<and> \<not> cl_fault s"
  by (simp add: client_inv_def)

lemma conn_new_inv:
  assumes "client_inv l cs p s" "conn_new s = (c, t)"
  shows "client_inv l (c # cs) p t" "cl_devices t = cl_devices s"
proof -
  have "t = s\<lparr>cl_next := Suc (cl_next s), cl_live := cl_next s # cl_live s, cl_hist := cl_hist s @ [CNew (cl_next s)]\<rparr>" "c = cl_next s"
    using assms(2) by (auto simp: conn_new_def)
  with assms(1) show "client_inv l (c # cs) p t" "cl_devices t = cl_devices s"
    by (auto simp: client_inv_def owned_def fd_step_def reg_step_def less_Suc_eq)
qed

lemma conn_delete_inv:
  assumes "client_inv l (c # cs) p s"
  shows "client_inv l cs p (conn_delete c s)" "cl_devices (conn_delete c s) = cl_devices s"
proof -
  have "c \<in> set (cl_live s)" using assms by (rule inv_live) simp
  moreover have "set (remove1 c (cl_live s)) \<subseteq> set (cl_live s)" by (rule set_remove1_subset)
  ultimately show "client_inv l cs p (conn_delete c s)"
    using assms by (auto simp: client_inv_def conn_delete_def conn_use_def owned_def fd_step_def reg_step_def)
qed (simp add: conn_delete_def conn_use_def)

lemma conn_connect_inv:
  assumes "client_inv l (c # cs) p s" "conn_connect E c s = (ok, t)"
  shows "client_inv l (c # cs) p t" "cl_devices t = cl_devices s"
  using sock_connect [OF inv_live [OF assms(1)], of c E] assms by (auto intro: sock_inv dest: sockD)

lemma inv_change:
  assumes inv: "client_inv l cs p s" and d: "resolveDeviceId s k = Some d"
    and f: "cd_deviceId (f d) = cd_deviceId d" "cd_fd (f d) = cd_fd d"
    and c: "mset (dev_conns (f d)) + mset cs' = mset (dev_conns d) + mset cs"
    and h: "mset (dev_handles (f d)) + p' (cd_fd d) \<subseteq># mset (dev_handles d) + p (cd_fd d)"
    and p: "\<And>fd. fd \<noteq> cd_fd d \<Longrightarrow> p' fd \<subseteq># p fd"
  shows "client_inv l cs' p' (with_device k f s)"
proof -
  from d obtain ys zs where D: "cl_devices s = ys @ d # zs"
    and u: "cl_devices (with_device k f s) = ys @ f d # zs"
    unfolding resolveDeviceId_def with_device_def by (elim find_split) simp
  have fr: "cl_live (with_device k f s) = cl_live s" "cl_hist (with_device k f s) = cl_hist s"
    "cl_fault (with_device k f s) = cl_fault s" "cl_locked (with_device k f s) = cl_locked s"
    "cl_next (with_device k f s) = cl_next s" by (simp_all add: with_device_def)
  have ids: "distinct (map cd_fd (ys @ d # zs))" using inv D by (simp add: client_inv_def)
  have other: "mset (dev_handles d') + p' (cd_fd d') \<subseteq># mset (registered (cd_fd d') (cl_hist s))"
    if "d' \<in> set ys \<union> set zs" for d'
  proof -
    have "cd_fd d' \<noteq> cd_fd d" using that ids by (metis Un_iff distinct_append distinct.simps(2) image_eqI
      list.set_map list.simps(9) map_append not_distinct_conv_prefix append_Cons disjoint_iff list.set_intros(1))
    with p have "mset (dev_handles d') + p' (cd_fd d') \<subseteq># mset (dev_handles d') + p (cd_fd d')" by simp
    also have "\<dots> \<subseteq># mset (registered (cd_fd d') (cl_hist s))" using inv D that by (auto simp: client_inv_def)
    finally show ?thesis .
  qed
  have own: "mset (cl_live s) = mset (owned (with_device k f s)) + mset cs'"
  proof -
    have "mset (cl_live s) = mset (owned s) + mset cs" using inv by (simp add: client_inv_def)
    also have "\<dots> = mset (concat (map dev_conns ys)) + mset (concat (map dev_conns zs)) + (mset (dev_conns d) + mset cs)"
      by (simp add: owned_def D)
    also have "\<dots> = mset (owned (with_device k f s)) + mset cs'" by (simp add: owned_def u flip: c)
    finally show ?thesis .
  qed
  have this_dev: "mset (dev_handles (f d)) + p' (cd_fd d) \<subseteq># mset (registered (cd_fd d) (cl_hist s))"
    using h inv D by (auto simp: client_inv_def intro: subset_mset.trans)
  show ?thesis
    using inv D own this_dev other f unfolding client_inv_def fr u by auto
qed

lemma inv_weaken: "client_inv l cs p s \<Longrightarrow> (\<And>fd. p' fd \<subseteq># p fd) \<Longrightarrow> client_inv l cs p' s"
  unfolding client_inv_def by (meson subset_mset.add_left_mono subset_mset.trans)

section \<open>Destructors\<close>

text \<open>At most the registrations \<open>R\<close> of the descriptor \<open>fd\<close> are given back.\<close>

definition gives_back :: "int \<Rightarrow> u32 multiset \<Rightarrow> client \<Rightarrow> client \<Rightarrow> bool" where
  "gives_back fd R s t \<longleftrightarrow> cl_devices t = cl_devices s \<and> cl_live t = cl_live s \<and> cl_next t = cl_next s \<and>
     cl_locked t = cl_locked s \<and> cl_fault t = cl_fault s \<and> open_fds (cl_hist t) = open_fds (cl_hist s) \<and>
     (\<forall>fd'. fd' \<noteq> fd \<longrightarrow> registered fd' (cl_hist t) = registered fd' (cl_hist s)) \<and>
     mset (registered fd (cl_hist s)) \<subseteq># mset (registered fd (cl_hist t)) + R"

lemma gives_back_refl: "gives_back fd {#} s s" by (simp add: gives_back_def)

lemma gives_back_trans:
  assumes "gives_back fd R s t" "gives_back fd S t u"
  shows "gives_back fd (R + S) s u"
proof -
  have "mset (registered fd (cl_hist s)) \<subseteq># mset (registered fd (cl_hist t)) + R" using assms(1) by (simp add: gives_back_def)
  also have "\<dots> \<subseteq># mset (registered fd (cl_hist u)) + S + R" using assms(2) by (simp add: gives_back_def)
  finally show ?thesis using assms by (simp add: gives_back_def ac_simps)
qed

lemma gives_back_foldl:
  assumes "\<And>s x. gives_back fd (R x) s (f s x)"
  shows "gives_back fd (\<Sum>x\<leftarrow>xs. R x) s (foldl f s xs)"
proof (induction xs arbitrary: s)
  case Nil
  then show ?case by (simp add: gives_back_refl)
next
  case (Cons x xs)
  from gives_back_trans [OF assms Cons.IH] show ?case by simp
qed

lemma subset_minus_one: "A \<subseteq># add_mset a (A - {#a#})"
  by (metis add_mset_add_single subset_eq_diff_conv subset_mset.order_refl)

lemma gives_back_unregister: "gives_back fd {#h#} s (snd (on_hist (mckmod_unregisterWsmL2 E fd h) s))"
  by (auto simp: gives_back_def on_hist_def mckmod_unregisterWsmL2_def Let_def fd_step_def reg_step_def
      subset_minus_one split: bool.splits)

lemma gives_back_free: "gives_back fd {#} s (snd (on_hist (mckmod_free E fd h b n) s))"
  by (auto simp: gives_back_def on_hist_def mckmod_free_def Let_def fd_step_def reg_step_def)

lemma gives_back_buffers:
  "gives_back fd (mset (map bb_handle bs)) s (foldl (\<lambda>s b. snd (on_hist (mckmod_unregisterWsmL2 E fd (bb_handle b)) s)) s bs)"
  using gives_back_foldl [of fd "\<lambda>b. {#bb_handle b#}" "\<lambda>s b. snd (on_hist (mckmod_unregisterWsmL2 E fd (bb_handle b)) s)" bs s]
  by (simp add: gives_back_unregister)


text \<open>What is left of the connections and registrations when an object that owned them is deleted.\<close>

lemma gives_back_inv:
  assumes "client_inv l cs p s" "gives_back fd R s t" "\<And>d. d \<in> set (cl_devices s) \<Longrightarrow> cd_fd d \<noteq> fd"
  shows "client_inv l cs p t"
  using assms by (auto simp: client_inv_def gives_back_def owned_def)

definition deleted :: "int \<Rightarrow> nat list \<Rightarrow> u32 multiset \<Rightarrow> client \<Rightarrow> client \<Rightarrow> bool" where
  "deleted fd cs R s t \<longleftrightarrow> cl_devices t = cl_devices s \<and> cl_next t = cl_next s \<and> cl_locked t = cl_locked s \<and>
     open_fds (cl_hist t) = open_fds (cl_hist s) \<and>
     (\<forall>fd'. fd' \<noteq> fd \<longrightarrow> registered fd' (cl_hist t) = registered fd' (cl_hist s)) \<and>
     mset (registered fd (cl_hist s)) \<subseteq># mset (registered fd (cl_hist t)) + R \<and>
     (mset cs \<subseteq># mset (cl_live s) \<longrightarrow> cl_fault t = cl_fault s \<and> mset (cl_live t) = mset (cl_live s) - mset cs)"

lemma deleted_trans:
  assumes "deleted fd cs R s t" "deleted fd cs' S t u"
  shows "deleted fd (cs @ cs') (R + S) s u"
proof -
  have "mset (registered fd (cl_hist s)) \<subseteq># mset (registered fd (cl_hist t)) + R" using assms(1) by (simp add: deleted_def)
  also have "\<dots> \<subseteq># mset (registered fd (cl_hist u)) + S + R" using assms(2) by (simp add: deleted_def)
  finally have r: "mset (registered fd (cl_hist s)) \<subseteq># mset (registered fd (cl_hist u)) + (R + S)" by (simp add: ac_simps)
  have "cl_fault u = cl_fault s \<and> mset (cl_live u) = mset (cl_live s) - mset (cs @ cs')"
    if sub: "mset (cs @ cs') \<subseteq># mset (cl_live s)"
  proof -
    have "mset cs \<subseteq># mset (cl_live s)" "mset cs' \<subseteq># mset (cl_live s) - mset cs"
      using sub by (auto simp: subset_eq_diff_conv add.commute intro: subset_mset.trans [OF mset_subset_eq_add_left])
        (metis mset_subset_eq_add_left subset_mset.le_diff_conv2 subset_mset.trans add.commute)
    with assms show ?thesis by (simp add: deleted_def)
  qed
  with assms r show ?thesis by (simp add: deleted_def)
qed

lemma deleted_foldl:
  assumes "\<And>s x. deleted fd (C x) (R x) s (f s x)"
  shows "deleted fd (concat (map C xs)) (\<Sum>x\<leftarrow>xs. R x) s (foldl f s xs)"
proof (induction xs arbitrary: s)
  case Nil
  then show ?case by (simp add: deleted_def)
next
  case (Cons x xs)
  from deleted_trans [OF assms Cons.IH] show ?case by simp
qed

lemma gives_back_deleted: "gives_back fd R s t \<Longrightarrow> deleted fd [] R s t"
  by (simp add: gives_back_def deleted_def)

lemma deleted_conn: "deleted fd [c] {#} s (conn_delete c s)"
  by (simp add: deleted_def conn_delete_def conn_use_def fd_step_def reg_step_def)

lemma delete_session_deleted: "deleted fd [cs_connection x] (mset (map bb_handle (cs_bulk x))) s (delete_session E fd x s)"
  using deleted_trans [OF gives_back_deleted [OF gives_back_buffers] deleted_conn] unfolding delete_session_def by simp

lemma distinct_sub: "distinct xs \<Longrightarrow> mset ys \<subseteq># mset xs \<Longrightarrow> distinct ys"
  by (metis distinct_append ex_mset mset_append mset_eq_imp_distinct_iff mset_subset_eq_exists_conv)

lemma deleted_inv:
  assumes inv: "client_inv l (C @ cs) (p(fd := p fd + R)) s" and t: "deleted fd C R s t"
  shows "client_inv l cs p t"
proof -
  have sub: "mset C \<subseteq># mset (cl_live s)" and live: "mset (cl_live s) = mset (owned s) + mset C + mset cs"
    using inv by (simp_all add: client_inv_def)
  then have L: "mset (cl_live t) = mset (owned t) + mset cs" and F: "cl_fault t = cl_fault s"
    using t by (simp_all add: deleted_def owned_def)
  have LS: "mset (cl_live t) \<subseteq># mset (cl_live s)" using t sub by (simp add: deleted_def)
  then have D: "distinct (cl_live t)" using distinct_sub [OF _ LS] inv by (simp add: client_inv_def)
  have N: "\<forall>c \<in> set (cl_live t). c < cl_next t"
  proof -
    have "set (cl_live t) \<subseteq> set (cl_live s)" using set_mset_mono [OF LS] by simp
    with inv t show ?thesis unfolding client_inv_def deleted_def by auto
  qed
  have H: "mset (dev_handles d) + p (cd_fd d) \<subseteq># mset (registered (cd_fd d) (cl_hist t))"
    if "d \<in> set (cl_devices s)" for d
  proof (cases "cd_fd d = fd")
    case True
    then have "mset (dev_handles d) + p fd + R \<subseteq># mset (registered fd (cl_hist s))"
      using inv that by (auto simp: client_inv_def ac_simps)
    also have "\<dots> \<subseteq># mset (registered fd (cl_hist t)) + R" using t by (simp add: deleted_def)
    finally show ?thesis using True by simp
  next
    case False
    then show ?thesis using inv t that by (auto simp: client_inv_def deleted_def)
  qed
  from inv t L F D N H show ?thesis by (auto simp: client_inv_def deleted_def)
qed

lemma delete_session_inv:
  assumes "client_inv l (cs_connection x # cs) (p(fd := p fd + mset (map bb_handle (cs_bulk x)))) s"
  shows "client_inv l cs p (delete_session E fd x s)"
  by (rule deleted_inv [OF _ delete_session_deleted]) (use assms in simp)

lemma on_hist_devices: "snd (on_hist f (s\<lparr>cl_devices := D\<rparr>)) = (snd (on_hist f s))\<lparr>cl_devices := D\<rparr>"
  by (simp add: on_hist_def split_beta)

lemma delete_session_devices:
  "delete_session E fd x (s\<lparr>cl_devices := D\<rparr>) = (delete_session E fd x s)\<lparr>cl_devices := D\<rparr>"
proof -
  have "foldl (\<lambda>s b. snd (on_hist (mckmod_unregisterWsmL2 E fd (bb_handle b)) s)) (s\<lparr>cl_devices := D\<rparr>) bs
      = (foldl (\<lambda>s b. snd (on_hist (mckmod_unregisterWsmL2 E fd (bb_handle b)) s)) s bs)\<lparr>cl_devices := D\<rparr>"
    for bs :: "BulkBufferDescriptor list"
    by (induction bs arbitrary: s) (simp_all add: on_hist_devices)
  then show ?thesis by (simp add: delete_session_def conn_delete_def conn_use_def)
qed

lemma delete_device_inv:
  assumes inv: "client_inv l (dev_conns d @ cs) p s" and fd: "\<And>d'. d' \<in> set (cl_devices s) \<Longrightarrow> cd_fd d' \<noteq> cd_fd d"
  shows "client_inv l cs p (delete_device E d s)" "cl_devices (delete_device E d s) = cl_devices s"
proof -
  define t where "t = conn_delete (cd_connection d)
    (foldl (\<lambda>s w. snd (on_hist (mckmod_free E (cd_fd d) (wsm_handle w) (wsm_virtAddr w) (wsm_len w)) s))
      (foldl (\<lambda>s x. delete_session E (cd_fd d) x s) s (cd_sessions d)) (cd_wsms d))"
  define C where "C = concat (map (\<lambda>x. [cs_connection x]) (cd_sessions d)) @ [cd_connection d]"
  have sessions: "deleted (cd_fd d) (concat (map (\<lambda>x. [cs_connection x]) xs)) (\<Sum>x\<leftarrow>xs. mset (map bb_handle (cs_bulk x)))
      u (foldl (\<lambda>s x. delete_session E (cd_fd d) x s) u xs)" for xs u
    by (rule deleted_foldl) (rule delete_session_deleted)
  have wsms: "deleted (cd_fd d) [] (\<Sum>w\<leftarrow>ws. {#})
      u (foldl (\<lambda>s w. snd (on_hist (mckmod_free E (cd_fd d) (wsm_handle w) (wsm_virtAddr w) (wsm_len w)) s)) u ws)" for ws u
    by (rule gives_back_deleted, rule gives_back_foldl) (rule gives_back_free)
  obtain R where R: "deleted (cd_fd d) C R s t"
    using deleted_trans [OF deleted_trans [OF sessions wsms] deleted_conn] unfolding t_def C_def by fastforce
  have "mset C = mset (dev_conns d)" unfolding C_def dev_conns_def
    by simp
  then have "client_inv l (C @ cs) (p(cd_fd d := p (cd_fd d) + R)) s"
    using inv fd by (simp add: client_inv_def)
  from deleted_inv [OF this R] have t: "client_inv l cs p t" .
  have dev: "cl_devices t = cl_devices s" using R by (simp add: deleted_def)
  have "delete_device E d s = snd (on_hist (mckmod_close E (cd_fd d)) t)" by (simp add: delete_device_def t_def Let_def)
  then show "client_inv l cs p (delete_device E d s)" "cl_devices (delete_device E d s) = cl_devices s"
    using t dev fd by (auto simp: on_hist_def mckmod_close_def Let_def client_inv_def owned_def fd_step_def reg_step_def split: bool.splits)
qed

lemma removeDevice_inv:
  assumes inv: "client_inv l cs p s"
  shows "client_inv l cs p (snd (removeDevice E k s))"
proof (cases "resolveDeviceId s k")
  case None
  with inv show ?thesis by (simp add: removeDevice_def)
next
  case (Some d)
  then obtain ys zs where D: "cl_devices s = ys @ d # zs"
    and r: "remove_first (\<lambda>d. cd_deviceId d = k) (cl_devices s) = ys @ zs"
    unfolding resolveDeviceId_def by (elim find_split) simp
  have "client_inv l (dev_conns d @ cs) p (s\<lparr>cl_devices := ys @ zs\<rparr>)"
    using inv by (simp add: client_inv_def owned_def D)
  moreover have "distinct (map cd_fd (ys @ d # zs))" using inv D by (simp add: client_inv_def)
  then have "\<And>d'. d' \<in> set (ys @ zs) \<Longrightarrow> cd_fd d' \<noteq> cd_fd d" by (auto simp: image_iff)
  ultimately have "client_inv l cs p (delete_device E d (s\<lparr>cl_devices := ys @ zs\<rparr>))" by (intro delete_device_inv) simp_all
  with Some r show ?thesis by (simp add: removeDevice_def)
qed

lemma removeSession_inv:
  assumes inv: "client_inv l cs p s"
  shows "client_inv l cs p (removeSession E k i s)"
proof -
  consider "resolveDeviceId s k = None" | d where "resolveDeviceId s k = Some d" "resolveSessionId d i = None"
    | d x where "resolveDeviceId s k = Some d" "resolveSessionId d i = Some x" by fastforce
  then show ?thesis
  proof cases
    case (3 d x)
    let ?f = "\<lambda>d. d\<lparr>cd_sessions := remove_first (\<lambda>x. cs_sessionId x = i) (cd_sessions d)\<rparr>"
    let ?p = "p(cd_fd d := p (cd_fd d) + mset (map bb_handle (cs_bulk x)))"
    obtain ys zs where "cd_sessions d = ys @ x # zs" "remove_first (\<lambda>x. cs_sessionId x = i) (cd_sessions d) = ys @ zs"
      using 3(2) unfolding resolveSessionId_def by (elim find_split) simp
    then have "client_inv l (cs_connection x # cs) ?p (with_device k ?f s)"
      by (intro inv_change [OF inv 3(1)]) (simp_all add: dev_conns_def dev_handles_def ac_simps)
    then have "client_inv l cs p (delete_session E (cd_fd d) x (with_device k ?f s))" by (rule delete_session_inv)
    moreover have "cl_devices (delete_session E (cd_fd d) x s) = cl_devices s"
      using delete_session_deleted [of "cd_fd d" x s E] by (simp add: deleted_def)
    ultimately show ?thesis using 3 by (simp add: removeSession_def with_device_def delete_session_devices)
  qed (use inv in \<open>simp_all add: removeSession_def\<close>)
qed

section \<open>Buffers\<close>

lemma mapBulkBuf_inv:
  assumes inv: "client_inv l cs p s" and d: "resolveDeviceId s k = Some d" and r: "mapBulkBuf E d buf len s = (r, t)"
  shows "cl_devices t = cl_devices s"
    "r = Inr b \<Longrightarrow> client_inv l cs (p(cd_fd d := add_mset (bb_handle b) (p (cd_fd d)))) t"
    "r = Inl e \<Longrightarrow> client_inv l cs p t"
proof -
  have fd: "cd_fd d \<noteq> -1" using inv inv_device(1) [OF inv d] by (simp add: client_inv_def)
  show "cl_devices t = cl_devices s" "r = Inr b \<Longrightarrow> client_inv l cs (p(cd_fd d := add_mset (bb_handle b) (p (cd_fd d)))) t"
    "r = Inl e \<Longrightarrow> client_inv l cs p t"
  proof -
    let ?h = "cl_hist s"
    consider "ce_reg_wsm E ?h (cd_fd d) buf len = None" "t = s\<lparr>cl_hist := ?h @ [KReg (cd_fd d) buf len None]\<rparr>" "\<exists>e. r = Inl e"
      | i a where "ce_reg_wsm E ?h (cd_fd d) buf len = Some (i, a)" "t = s\<lparr>cl_hist := ?h @ [KReg (cd_fd d) buf len (Some i)]\<rparr>"
        "r = Inr \<lparr>bb_virtAddr = buf, bb_sVirtualAddr = 0, bb_len = len, bb_handle = i\<rparr>"
      using r fd by (cases "ce_reg_wsm E ?h (cd_fd d) buf len")
        (auto simp: mapBulkBuf_def on_hist_def mckmod_registerWsmL2_def fail_def give_def Let_def)
    then show "cl_devices t = cl_devices s" "r = Inr b \<Longrightarrow> client_inv l cs (p(cd_fd d := add_mset (bb_handle b) (p (cd_fd d)))) t"
      "r = Inl e \<Longrightarrow> client_inv l cs p t"
    proof (atomize (full), cases, goal_cases)
      case 1
      then have "sock s t" by (simp add: sock_def fd_step_def reg_step_def)
      with inv 1 show ?case by (auto intro: sock_inv dest: sockD)
    next
      case (2 i a)
      then have regs: "registered fd' (cl_hist t) = (if cd_fd d = fd' then i # registered fd' (cl_hist s) else registered fd' (cl_hist s))"
          "open_fds (cl_hist t) = open_fds (cl_hist s)" for fd'
        by (simp_all add: fd_step_def reg_step_def)
      have fr: "cl_devices t = cl_devices s" "cl_live t = cl_live s" "cl_next t = cl_next s" "cl_fault t = cl_fault s" "cl_locked t = cl_locked s"
        using 2 by simp_all
      have "client_inv l cs (p(cd_fd d := add_mset i (p (cd_fd d)))) t"
        using inv unfolding client_inv_def owned_def regs fr by auto
      with 2 show ?case by auto
    qed
  qed
qed

lemma find_update_first: "find P xs = Some x \<Longrightarrow> P (f x) \<Longrightarrow> find P (update_first P f xs) = Some (f x)"
  by (induction xs) (auto split: if_splits)

lemma resolve_with_device:
  assumes "resolveDeviceId s k = Some d" "cd_deviceId (f d) = cd_deviceId d"
  shows "resolveDeviceId (with_device k f s) k = Some (f d)"
proof -
  have f: "find (\<lambda>d. cd_deviceId d = k) (cl_devices s) = Some d" using assms(1) by (simp add: resolveDeviceId_def)
  then have "cd_deviceId d = k" by (auto simp: find_Some_iff)
  with find_update_first [OF f, of f] assms(2) show ?thesis by (simp add: resolveDeviceId_def with_device_def)
qed

lemma resolve_with_session:
  assumes "resolveDeviceId s k = Some d" "resolveSessionId d i = Some x" "cs_sessionId (f x) = cs_sessionId x"
  obtains d' where "resolveDeviceId (with_session k i f s) k = Some d'" "resolveSessionId d' i = Some (f x)"
    "cd_fd d' = cd_fd d" "cd_connection d' = cd_connection d" "cd_deviceId d' = cd_deviceId d" "cd_wsms d' = cd_wsms d"
proof
  let ?d = "d\<lparr>cd_sessions := update_first (\<lambda>x. cs_sessionId x = i) f (cd_sessions d)\<rparr>"
  show "resolveDeviceId (with_session k i f s) k = Some ?d"
    unfolding with_session_def by (rule resolve_with_device) (use assms in simp_all)
  have "cs_sessionId x = i" using assms(2) by (auto simp: resolveSessionId_def find_Some_iff)
  then show "resolveSessionId ?d i = Some (f x)"
    using assms(2,3) by (simp add: resolveSessionId_def find_update_first)
qed simp_all

lemma with_session_inv:
  assumes inv: "client_inv l cs p s" and d: "resolveDeviceId s k = Some d" and x: "resolveSessionId d i = Some x"
    and f: "cs_connection (f x) = cs_connection x"
    and h: "mset (map bb_handle (cs_bulk (f x))) + p' (cd_fd d) \<subseteq># mset (map bb_handle (cs_bulk x)) + p (cd_fd d)"
    and p: "\<And>fd. fd \<noteq> cd_fd d \<Longrightarrow> p' fd \<subseteq># p fd"
  shows "client_inv l cs p' (with_session k i f s)"
  unfolding with_session_def
proof (rule inv_change [OF inv d])
  obtain ys zs where D: "cd_sessions d = ys @ x # zs"
    and u: "update_first (\<lambda>x. cs_sessionId x = i) f (cd_sessions d) = ys @ f x # zs"
    using x unfolding resolveSessionId_def by (elim find_split) simp
  let ?d = "d\<lparr>cd_sessions := update_first (\<lambda>x. cs_sessionId x = i) f (cd_sessions d)\<rparr>"
  show "mset (dev_conns ?d) + mset cs = mset (dev_conns d) + mset cs" using u by (simp add: dev_conns_def D f)
  have "mset (concat (map (\<lambda>x. map bb_handle (cs_bulk x)) (ys @ zs))) + (mset (map bb_handle (cs_bulk (f x))) + p' (cd_fd d))
      \<subseteq># mset (concat (map (\<lambda>x. map bb_handle (cs_bulk x)) (ys @ zs))) + (mset (map bb_handle (cs_bulk x)) + p (cd_fd d))"
    using h by (rule subset_mset.add_left_mono)
  then show "mset (dev_handles ?d) + p' (cd_fd d) \<subseteq># mset (dev_handles d) + p (cd_fd d)"
    using u by (simp add: dev_handles_def D ac_simps)
qed (use p in simp_all)

lemma createNewSession_inv:
  assumes "client_inv l (c # cs) (p(cd_fd d := p (cd_fd d) + mset (case b of None \<Rightarrow> [] | Some b \<Rightarrow> [bb_handle b]))) s"
    "resolveDeviceId s k = Some d"
  shows "client_inv l cs p (createNewSession k i c b s)"
  unfolding createNewSession_def
  by (rule inv_change [OF assms(1,2)]) (simp_all add: dev_conns_def dev_handles_def ac_simps split: option.splits)

lemma allocateContiguousWsm_inv:
  assumes inv: "client_inv l cs p s" and d: "resolveDeviceId s k = Some d"
  shows "client_inv l cs p (snd (allocateContiguousWsm E d len s))"
proof -
  obtain r t where r: "on_hist (mckmod_mapWsm E (cd_fd d) len) s = (r, t)" by fastforce
  then have "sock s t"
    by (auto simp: on_hist_def mckmod_mapWsm_def Let_def sock_def fd_step_def reg_step_def split: option.splits if_splits prod.splits)
  with inv d have t: "client_inv l cs p t" "resolveDeviceId t k = Some d" "cd_deviceId d = k"
    using inv_device(2) [OF inv d] by (auto intro: sock_inv simp: sockD(3))
  have "client_inv l cs p (with_device k (\<lambda>d. d\<lparr>cd_wsms := cd_wsms d @ [w]\<rparr>) t)" for w
    by (rule inv_change [OF t(1,2)]) (simp_all add: dev_conns_def dev_handles_def)
  with inv r t show ?thesis
    by (auto simp: allocateContiguousWsm_def fail_def give_def Let_def split: sum.splits)
qed

lemma freeContiguousWsm_inv:
  assumes inv: "client_inv l cs p s" and d: "resolveDeviceId s k = Some d"
  shows "client_inv l cs p (snd (freeContiguousWsm E d w s))"
proof -
  obtain r t where r: "on_hist (mckmod_free E (cd_fd d) (wsm_handle w) (wsm_virtAddr w) (wsm_len w)) s = (r, t)" by fastforce
  then have "sock s t"
    by (auto simp: on_hist_def mckmod_free_def Let_def sock_def fd_step_def reg_step_def split: if_splits)
  with inv d have t: "client_inv l cs p t" "resolveDeviceId t k = Some d" "cd_deviceId d = k"
    using inv_device(2) [OF inv d] by (auto intro: sock_inv simp: sockD(3))
  have "client_inv l cs p (with_device k (\<lambda>d. d\<lparr>cd_wsms := remove_first P (cd_wsms d)\<rparr>) t)" for P
    by (rule inv_change [OF t(1,2)]) (simp_all add: dev_conns_def dev_handles_def)
  with t r show ?thesis by (simp add: freeContiguousWsm_def)
qed

lemma addBulkBuf_inv:
  assumes inv: "client_inv l cs p s" and d: "resolveDeviceId s k = Some d" and x: "resolveSessionId d i = Some x"
    and r: "addBulkBuf E d x buf len s = (r, t)"
  shows "client_inv l cs p t"
    "r = Inr b \<Longrightarrow> \<exists>d'. resolveDeviceId t k = Some d' \<and> resolveSessionId d' i = Some (x\<lparr>cs_bulk := cs_bulk x @ [b]\<rparr>) \<and>
       cd_fd d' = cd_fd d \<and> cd_connection d' = cd_connection d \<and> cd_deviceId d' = k"
proof -
  have k: "cd_deviceId d = k" "cs_sessionId x = i"
    using inv_device(2) [OF inv d] x by (auto simp: resolveSessionId_def find_Some_iff)
  have "client_inv l cs p t \<and> (\<forall>b. r = Inr b \<longrightarrow> (\<exists>d'. resolveDeviceId t k = Some d' \<and>
      resolveSessionId d' i = Some (x\<lparr>cs_bulk := cs_bulk x @ [b]\<rparr>) \<and>
      cd_fd d' = cd_fd d \<and> cd_connection d' = cd_connection d \<and> cd_deviceId d' = k))"
  proof (cases "\<exists>b \<in> set (cs_bulk x). bb_virtAddr b = buf")
    case True
    with r inv show ?thesis by (auto simp: addBulkBuf_def fail_def)
  next
    case False
    obtain q u where q: "mapBulkBuf E d buf len s = (q, u)" by fastforce
    note M = mapBulkBuf_inv [OF inv d q]
    show ?thesis
    proof (cases q)
      case (Inl e)
      with M(3) r q False show ?thesis by (auto simp: addBulkBuf_def and_then_def)
    next
      case (Inr b)
      let ?f = "\<lambda>x. x\<lparr>cs_bulk := cs_bulk x @ [b]\<rparr>"
      have t: "r = Inr b" "t = with_session k i ?f u"
        using r q False Inr k by (simp_all add: addBulkBuf_def and_then_def give_def)
      have u: "resolveDeviceId u k = Some d" using d M(1) by (simp add: resolveDeviceId_def)
      have "client_inv l cs p (with_session k i ?f u)"
        by (rule with_session_inv [OF M(2) [OF Inr] u x]) simp_all
      moreover obtain d' where "resolveDeviceId (with_session k i ?f u) k = Some d'" "resolveSessionId d' i = Some (?f x)"
        "cd_fd d' = cd_fd d" "cd_connection d' = cd_connection d" "cd_deviceId d' = cd_deviceId d"
        by (rule resolve_with_session [OF u x, of ?f]) simp_all
      ultimately show ?thesis using t k by auto
    qed
  qed
  then show "client_inv l cs p t"
    "r = Inr b \<Longrightarrow> \<exists>d'. resolveDeviceId t k = Some d' \<and> resolveSessionId d' i = Some (x\<lparr>cs_bulk := cs_bulk x @ [b]\<rparr>) \<and>
       cd_fd d' = cd_fd d \<and> cd_connection d' = cd_connection d \<and> cd_deviceId d' = k" by blast+
qed

lemma removeBulkBuf_inv:
  assumes inv: "client_inv l cs p s" and d: "resolveDeviceId s k = Some d" and x: "resolveSessionId d i = Some x"
  shows "client_inv l cs p (snd (removeBulkBuf E d x buf s))"
proof (cases "find (\<lambda>b. bb_virtAddr b = buf) (cs_bulk x)")
  case None
  with inv show ?thesis by (simp add: removeBulkBuf_def)
next
  case (Some b)
  have k: "cd_deviceId d = k" "cs_sessionId x = i"
    using inv_device(2) [OF inv d] x by (auto simp: resolveSessionId_def find_Some_iff)
  let ?f = "\<lambda>x. x\<lparr>cs_bulk := remove_first (\<lambda>b. bb_virtAddr b = buf) (cs_bulk x)\<rparr>"
  obtain ys zs where "cs_bulk x = ys @ b # zs" "remove_first (\<lambda>b. bb_virtAddr b = buf) (cs_bulk x) = ys @ zs"
    using Some by (elim find_split) simp
  then have "client_inv l cs (p(cd_fd d := p (cd_fd d) + {#bb_handle b#})) (with_session k i ?f s)"
    by (intro with_session_inv [OF inv d x]) simp_all
  then have "client_inv l cs p (snd (on_hist (mckmod_unregisterWsmL2 E (cd_fd d) (bb_handle b)) (with_session k i ?f s)))"
    by (intro deleted_inv [OF _ gives_back_deleted [OF gives_back_unregister]]) simp
  with Some k show ?thesis by (simp add: removeBulkBuf_def)
qed

end
