(* ===== verification/ClientProps.thy ===== *)
theory ClientProps
  imports ClientLaws
begin

text \<open>
  Every function of the driver API keeps the invariant of the client library, so it holds after any
  sequence of calls.
\<close>

section \<open>Steps that keep the invariant\<close>

definition keeps :: "bool \<Rightarrow> nat list \<Rightarrow> (int \<Rightarrow> u32 multiset) \<Rightarrow> (client \<Rightarrow> bool) \<Rightarrow> 'a act \<Rightarrow> ('a \<Rightarrow> client \<Rightarrow> bool) \<Rightarrow> bool" where
  "keeps l cs p P m Q \<longleftrightarrow> (\<forall>s r t. client_inv l cs p s \<and> P s \<and> m s = (r, t) \<longrightarrow>
     client_inv l cs p t \<and> (\<forall>x. r = Inr x \<longrightarrow> Q x t))"

lemma keepsD: "keeps l cs p P m Q \<Longrightarrow> client_inv l cs p s \<Longrightarrow> P s \<Longrightarrow> client_inv l cs p (snd (m s))"
  unfolding keeps_def by (metis prod.collapse)

lemma keepsE:
  assumes "keeps l cs p P m Q" "client_inv l cs p s" "P s" "m s = (r, t)"
  shows "client_inv l cs p t" "r = Inr x \<Longrightarrow> Q x t"
  using assms unfolding keeps_def by blast+

lemma keepsI:
  "(\<And>s r t. client_inv l cs p s \<Longrightarrow> P s \<Longrightarrow> m s = (r, t) \<Longrightarrow> client_inv l cs p t \<and> (\<forall>x. r = Inr x \<longrightarrow> Q x t)) \<Longrightarrow> keeps l cs p P m Q"
  unfolding keeps_def by blast

lemma keeps_then:
  assumes "keeps l cs p P m Q" "\<And>x. keeps l cs p (Q x) (k x) R"
  shows "keeps l cs p P (and_then m k) R"
proof (rule keepsI)
  fix s r t assume s: "client_inv l cs p s" "P s" and r: "and_then m k s = (r, t)"
  obtain q u where q: "m s = (q, u)" by fastforce
  note u = keepsE [OF assms(1) s q]
  show "client_inv l cs p t \<and> (\<forall>x. r = Inr x \<longrightarrow> R x t)"
  proof (cases q)
    case (Inl e)
    with r q u show ?thesis by (auto simp: and_then_def)
  next
    case (Inr x)
    with r q have "k x u = (r, t)" by (simp add: and_then_def)
    from keepsE [OF assms(2) u(1) u(2) [OF Inr] this] show ?thesis by blast
  qed
qed

lemma keeps_fail: "keeps l cs p P (fail e) Q"
  by (simp add: keeps_def fail_def)

lemma keeps_give: "(\<And>s. P s \<Longrightarrow> Q x s) \<Longrightarrow> keeps l cs p P (give x) Q"
  by (simp add: keeps_def give_def)

lemma keeps_if:
  "(b \<Longrightarrow> keeps l cs p P m Q) \<Longrightarrow> (\<not> b \<Longrightarrow> keeps l cs p P n Q) \<Longrightarrow> keeps l cs p P (if b then m else n) Q"
  by simp

lemma keeps_fact: "(A \<Longrightarrow> keeps l cs p P m Q) \<Longrightarrow> keeps l cs p (\<lambda>s. P s \<and> A) m Q"
  unfolding keeps_def by blast

text \<open>The assertions of the functions: a device, and a session of it, have been found.\<close>

definition found :: "u32 \<Rightarrow> Device \<Rightarrow> client \<Rightarrow> bool" where
  "found k d s \<longleftrightarrow> resolveDeviceId s k = Some d"

lemma found_sock: "found k d s \<Longrightarrow> sock s t \<Longrightarrow> found k d t"
  by (simp add: found_def sockD(3))

lemma keeps_sock_live:
  assumes "sock_act c m" "\<And>s. client_inv l cs p s \<Longrightarrow> found k d s \<Longrightarrow> c \<in> set (cl_live s)"
  shows "keeps l cs p (found k d) m (\<lambda>_. found k d)"
proof (rule keepsI)
  fix s r t assume s: "client_inv l cs p s" "found k d s" "m s = (r, t)"
  then have "sock s t" using assms by (meson sock_actD)
  with s show "client_inv l cs p t \<and> (\<forall>x. r = Inr x \<longrightarrow> found k d t)" by (auto intro: sock_inv found_sock)
qed

lemma keeps_sock: "sock_act (cd_connection d) m \<Longrightarrow> keeps l cs p (found k d) m (\<lambda>_. found k d)"
  by (erule keeps_sock_live) (simp add: found_def inv_device(3))

lemma keeps_sock_conn: "sock_act c m \<Longrightarrow> c \<in> set cs \<Longrightarrow> keeps l cs p (found k d) m (\<lambda>_. found k d)"
  by (erule keeps_sock_live) (rule inv_live)

lemma keeps_check_device: "keeps l cs p P (check_device k) (found k)"
  by (auto simp: keeps_def check_device_def fail_def give_def found_def split: option.splits)

lemma keeps_check_device_closed: "keeps l cs p P (check_device_closed k) (found k)"
  by (auto simp: keeps_def check_device_closed_def fail_def give_def found_def split: option.splits)

lemma keeps_check_session:
  "keeps l cs p (found k d) (check_session d i) (\<lambda>x s. found k d s \<and> resolveSessionId d i = Some x)"
  by (auto simp: keeps_def check_session_def fail_def give_def split: option.splits)

lemma keeps_check_not_null: "keeps l cs p P (check_not_null x) (\<lambda>_. P)"
  by (auto simp: keeps_def check_not_null_def fail_def give_def split: option.splits)

lemmas keeps_send = keeps_then [OF keeps_sock [OF sock_send]]
lemmas keeps_result = keeps_then [OF keeps_sock [OF sock_recv_result]]
lemmas keeps_device = keeps_then [OF keeps_check_device]
lemmas keeps_device_closed = keeps_then [OF keeps_check_device_closed]
lemmas keeps_session = keeps_then [OF keeps_check_session]

lemma keeps_any: "keeps l cs p P m Q \<Longrightarrow> keeps l cs p P m (\<lambda>_ _. True)"
  by (auto simp: keeps_def)

lemma keeps_end:
  assumes "\<And>s. client_inv l cs p s \<Longrightarrow> P s \<Longrightarrow> client_inv l cs p (f s)"
  shows "keeps l cs p P (\<lambda>s. give x (f s)) (\<lambda>_ _. True)" "keeps l cs p P (\<lambda>s. fail e (f s)) Q"
  using assms by (auto simp: keeps_def give_def fail_def)

lemma result_of_snd [simp]: "snd (result_of (m s)) = snd (m s)"
  by (simp add: result_of_def split_beta)

lemma drop_dead_device_inv: "client_inv l cs p (snd r) \<Longrightarrow> client_inv l cs p (snd (drop_dead_device E k r))"
  by (simp add: drop_dead_device_def split_beta removeDevice_inv)

lemma dev_lock_inv: "client_inv False cs p s \<Longrightarrow> client_inv True cs p (dev_lock s)"
  by (simp add: client_inv_def dev_lock_def owned_def fd_step_def reg_step_def)

lemma dev_unlock_inv: "client_inv True cs p s \<Longrightarrow> client_inv False cs p (dev_unlock s)"
  by (simp add: client_inv_def dev_unlock_def owned_def fd_step_def reg_step_def)

lemma with_lock_inv:
  assumes "client_inv False cs p s" "\<And>s. client_inv True cs p s \<Longrightarrow> client_inv True cs p (snd (f s))"
  shows "client_inv False cs p (snd (with_lock f s))"
  using assms by (auto simp: with_lock_def split_beta intro: dev_unlock_inv dev_lock_inv)

section \<open>The functions of the API\<close>

abbreviation at_rest :: "client \<Rightarrow> bool" where "at_rest \<equiv> client_inv False [] no_regs"

lemma mcCloseDevice_inv: "at_rest s \<Longrightarrow> at_rest (snd (mcCloseDevice E k s))"
  unfolding mcCloseDevice_def
proof (erule with_lock_inv)
  fix s assume s: "client_inv True [] no_regs s"
  let ?talk = "\<lambda>d. and_then (send_to_daemon E (cd_connection d) ReqCloseDevice) (\<lambda>_.
           and_then (recv_status E (cd_connection d)) (\<lambda>_ s. give () (snd (removeDevice E k s))))"
  have talk: "keeps True [] no_regs (found k d) (?talk d) (\<lambda>_ _. True)" for d
    by (rule keeps_send, rule keeps_then [OF keeps_sock [OF sock_recv_status]], rule keeps_end, rule removeDevice_inv)
  have "keeps True [] no_regs (\<lambda>_. True) (and_then (check_device_closed k) (\<lambda>d s.
     (let (alive, s) = conn_alive E (cd_connection d) s in
      if \<not> alive then fail MC_DRV_ERR_DAEMON_UNREACHABLE (snd (removeDevice E k s))
      else if cd_sessions d \<noteq> [] then fail MC_DRV_ERR_SESSION_PENDING s
      else ?talk d s))) (\<lambda>_ _. True)"
  proof (rule keeps_then [OF keeps_check_device_closed])
    fix d
    show "keeps True [] no_regs (found k d) (\<lambda>s. (let (alive, s) = conn_alive E (cd_connection d) s in
      if \<not> alive then fail MC_DRV_ERR_DAEMON_UNREACHABLE (snd (removeDevice E k s))
      else if cd_sessions d \<noteq> [] then fail MC_DRV_ERR_SESSION_PENDING s
      else ?talk d s)) (\<lambda>_ _. True)"
    proof (rule keepsI, goal_cases)
      case (1 s r u)
      obtain b t where t: "conn_alive E (cd_connection d) s = (b, t)" by fastforce
      have "sock s t" using sock_conn_alive [of "cd_connection d" s E] inv_device(3) [OF 1(1)] 1(2) t by (simp add: found_def)
      with 1 have "client_inv True [] no_regs t" "found k d t" by (auto intro: sock_inv found_sock)
      with 1(3) keepsE(1) [OF talk [of d]] t show ?case
        by (auto simp: fail_def removeDevice_inv split: if_splits)
    qed
  qed
  from keepsD [OF this s] show "client_inv True [] no_regs (snd (result_of (and_then (check_device_closed k) (\<lambda>d s.
     (let (alive, s) = conn_alive E (cd_connection d) s in
      if \<not> alive then fail MC_DRV_ERR_DAEMON_UNREACHABLE (snd (removeDevice E k s))
      else if cd_sessions d \<noteq> [] then fail MC_DRV_ERR_SESSION_PENDING s
      else ?talk d s)) s)))" by simp
qed

lemma mcCloseSession_inv: "at_rest s \<Longrightarrow> at_rest (snd (mcCloseSession E h s))"
  unfolding mcCloseSession_def
proof (erule with_lock_inv, cases h, goal_cases)
  case (2 s x)
  have "keeps True [] no_regs (\<lambda>_. True)
     (and_then (check_device (sh_deviceId x)) (\<lambda>d.
      and_then (check_session d (sh_sessionId x)) (\<lambda>_.
      and_then (send_to_daemon E (cd_connection d) (ReqCloseSession (sh_sessionId x))) (\<lambda>_.
      and_then (recv_result E (cd_connection d) MC_DRV_OK) (\<lambda>r s.
        if r \<noteq> MC_DRV_OK then fail MC_DRV_ERR_UNKNOWN_DEVICE s
        else give () (removeSession E (sh_deviceId x) (sh_sessionId x) s)))))) (\<lambda>_ _. True)"
    by (rule keeps_device, rule keeps_session, rule keeps_fact, rule keeps_send, rule keeps_result)
      (auto simp: keeps_def fail_def give_def removeSession_inv)
  from keepsD [OF this 2(1)] 2(2) show ?case by (simp add: drop_dead_device_inv)
qed simp

lemma mcNotify_inv: "at_rest s \<Longrightarrow> at_rest (snd (mcNotify E h s))"
  unfolding mcNotify_def
proof (erule with_lock_inv, cases h, goal_cases)
  case (2 s x)
  have "keeps True [] no_regs (\<lambda>_. True)
     (and_then (check_device (sh_deviceId x)) (\<lambda>d.
      and_then (check_session d (sh_sessionId x)) (\<lambda>_.
      send_to_daemon E (cd_connection d) (ReqNotify (sh_sessionId x))))) (\<lambda>_ _. True)"
    by (rule keeps_device, rule keeps_session, rule keeps_fact, rule keeps_any [OF keeps_sock [OF sock_send]])
  from keepsD [OF this 2(1)] 2(2) show ?case by (simp add: drop_dead_device_inv)
qed simp

text \<open>A step that fails does not answer \<^verbatim>\<open>MC_DRV_OK\<close>.\<close>

definition real_errors :: "'a act \<Rightarrow> bool" where
  "real_errors m \<longleftrightarrow> (\<forall>s t. m s \<noteq> (Inl MC_DRV_OK, t))"

named_theorems err_intros

lemma real_errors_then [err_intros]:
  "real_errors m \<Longrightarrow> (\<And>x. real_errors (k x)) \<Longrightarrow> real_errors (and_then m k)"
  by (auto simp: real_errors_def and_then_def split: prod.splits sum.splits)

lemma real_errors_if [err_intros]:
  "(b \<Longrightarrow> real_errors m) \<Longrightarrow> (\<not> b \<Longrightarrow> real_errors n) \<Longrightarrow> real_errors (if b then m else n)"
  by simp

lemma real_errors_basic [err_intros]: "e \<noteq> 0 \<Longrightarrow> real_errors (fail e)" "real_errors (give x)"
  by (simp_all add: real_errors_def fail_def give_def)

lemma real_errors_send [err_intros]: "real_errors (send_to_daemon E c r)"
  by (auto simp: real_errors_def send_to_daemon_def fail_def give_def Let_def split: prod.splits if_splits)

lemma real_errors_recv [err_intros]: "real_errors (recv_from_daemon E c n old)"
  by (auto simp: real_errors_def recv_from_daemon_def fail_def give_def Let_def split: prod.splits if_splits)

lemma real_errors_result [err_intros]: "real_errors (recv_result E c r)" "real_errors (recv_status E c)"
  unfolding recv_result_def recv_status_def by (intro err_intros; assumption)+

lemma real_errors_hello: "real_errors (hello E c k)"
  unfolding hello_def getDaemonVersion_def by (intro err_intros) simp

lemma addDevice_inv:
  assumes "client_inv l (c # cs) p s" "resolveDeviceId s k = None" "fd \<noteq> -1" "fd \<notin> open_fds (cl_hist s)" "p fd = {#}"
  shows "client_inv l cs p (addDevice \<lparr>cd_deviceId = k, cd_connection = c, cd_fd = fd, cd_sessions = [], cd_wsms = []\<rparr>
    (s\<lparr>cl_hist := cl_hist s @ [KOpen fd]\<rparr>))"
proof -
  have "fd \<notin> cd_fd ` set (cl_devices s)" using assms(1,4) by (auto simp: client_inv_def)
  moreover have "k \<notin> cd_deviceId ` set (cl_devices s)"
    using assms(2) by (auto simp: resolveDeviceId_def find_None_iff)
  ultimately show ?thesis using assms
    by (auto simp: client_inv_def addDevice_def owned_def dev_conns_def dev_handles_def fd_step_def reg_step_def)
qed

lemma open_device_body_inv:
  assumes E: "fd_fresh E" and inv: "client_inv l [] no_regs s" and r: "open_device_body E k s = ((r, devCon), t)"
  shows "client_inv l (if r \<noteq> MC_DRV_OK then case devCon of None \<Rightarrow> [] | Some c \<Rightarrow> [c] else []) no_regs t"
proof (cases "resolveDeviceId s k")
  case (Some d)
  with r inv show ?thesis by (auto simp: open_device_body_def)
next
  case None
  obtain c u where c: "conn_new s = (c, u)" by fastforce
  note u = conn_new_inv [OF inv c]
  obtain ok v where v: "conn_connect E c u = (ok, v)" by fastforce
  note vv = conn_connect_inv [OF u(1) v]
  have live: "c \<in> set (cl_live v)" using vv(1) by (rule inv_live) simp
  obtain q w where w: "hello E c k v = (q, w)" by fastforce
  have sock: "sock v w" using sock_actD [OF sock_hello live w] .
  have ww: "client_inv l [c] no_regs w" using vv(1) sock by (rule sock_inv)
  have none: "resolveDeviceId w k = None" using None u(2) vv(2) sock by (simp add: resolveDeviceId_def sockD(1))
  have fresh: "ce_open E (cl_hist w) \<notin> open_fds (cl_hist w)" using E by (simp add: fd_fresh_def)
  let ?fd = "ce_open E (cl_hist w)"
  let ?w = "w\<lparr>cl_hist := cl_hist w @ [KOpen ?fd]\<rparr>"
  let ?d = "\<lambda>fd. \<lparr>cd_deviceId = k, cd_connection = c, cd_fd = fd, cd_sessions = [], cd_wsms = []\<rparr>"
  show ?thesis
  proof (cases "ok \<and> q = Inr ()")
    case False
    moreover have "q \<noteq> Inl 0" using real_errors_hello [of E c k] w by (auto simp: real_errors_def)
    ultimately show ?thesis using r None c v w vv ww
      by (cases q) (auto simp: open_device_body_def Let_def split: if_splits)
  next
    case True
    show ?thesis
    proof (cases "?fd = -1")
      case True
      have "client_inv l (dev_conns (?d (-1)) @ []) no_regs ?w"
        using ww True by (auto simp: client_inv_def owned_def dev_conns_def fd_step_def reg_step_def)
      moreover from this have "\<And>d'. d' \<in> set (cl_devices ?w) \<Longrightarrow> cd_fd d' \<noteq> cd_fd (?d (-1))"
        by (simp add: client_inv_def)
      ultimately have "client_inv l [] no_regs (delete_device E (?d (-1)) ?w)" by (rule delete_device_inv(1))
      with True \<open>ok \<and> q = Inr ()\<close> r None c v w show ?thesis
        by (auto simp: open_device_body_def Let_def on_hist_def mckmod_open_def)
    next
      case False
      from addDevice_inv [OF ww none False fresh] False \<open>ok \<and> q = Inr ()\<close> r None c v w show ?thesis
        by (auto simp: open_device_body_def Let_def on_hist_def mckmod_open_def)
    qed
  qed
qed

lemma mcOpenDevice_inv:
  assumes "fd_fresh E" "at_rest s"
  shows "at_rest (snd (mcOpenDevice E k s))"
proof -
  obtain r devCon t where t: "open_device_body E k (dev_lock s) = ((r, devCon), t)" by (metis prod.collapse)
  from open_device_body_inv [OF assms(1) dev_lock_inv [OF assms(2)] t]
  have "client_inv False (if r \<noteq> MC_DRV_OK then case devCon of None \<Rightarrow> [] | Some c \<Rightarrow> [c] else []) no_regs (dev_unlock t)"
    by (rule dev_unlock_inv)
  then show ?thesis using t
    by (auto simp: mcOpenDevice_def with_lock_def Let_def intro: conn_delete_inv split: option.splits if_splits)
qed

lemma mcMallocWsm_inv: "at_rest s \<Longrightarrow> at_rest (snd (mcMallocWsm E k len wsm s))"
  unfolding mcMallocWsm_def
proof (erule with_lock_inv, goal_cases)
  case (1 s)
  have "keeps True [] no_regs (\<lambda>_. True)
     (and_then (check_device_closed k) (\<lambda>d. and_then (check_not_null wsm) (\<lambda>_. allocateContiguousWsm E d len))) (\<lambda>_ _. True)"
    by (rule keeps_device_closed, rule keeps_then [OF keeps_check_not_null])
      (auto simp: keeps_def found_def dest: allocateContiguousWsm_inv [of _ _ _ _ _ _ E len])
  from keepsD [OF this 1] show ?case by (auto split: prod.splits sum.splits)
qed

lemma mcFreeWsm_inv: "at_rest s \<Longrightarrow> at_rest (snd (mcFreeWsm E k wsm s))"
  unfolding mcFreeWsm_def
  by (erule with_lock_inv)
    (auto simp: check_device_def fail_def give_def freeContiguousWsm_inv split: option.splits)

lemma mcGetMobiCoreVersion_inv: "at_rest s \<Longrightarrow> at_rest (snd (mcGetMobiCoreVersion E k v s))"
  unfolding mcGetMobiCoreVersion_def
proof (erule with_lock_inv, goal_cases)
  case (1 s)
  have "keeps True [] no_regs (\<lambda>_. True)
     (and_then (check_device k) (\<lambda>d.
           and_then (check_not_null v) (\<lambda>_.
           and_then (send_to_daemon E (cd_connection d) ReqGetMobiCoreVersion) (\<lambda>_.
           and_then (recv_result E (cd_connection d) MC_DRV_OK) (\<lambda>r.
             if r \<noteq> MC_DRV_OK then fail MC_DRV_ERR_DAEMON_UNREACHABLE
             else recv_variable E (cd_connection d) 96))))) (\<lambda>_ _. True)"
    by (rule keeps_device, rule keeps_then [OF keeps_check_not_null], rule keeps_send, rule keeps_result,
        rule keeps_if, rule keeps_fail, rule keeps_any [OF keeps_sock [OF sock_recv_variable]])
  from keepsD [OF this 1] show ?case by (auto split: prod.splits sum.splits)
qed

lemma mcGetSessionErrorCode_inv: "at_rest s \<Longrightarrow> at_rest (snd (mcGetSessionErrorCode h e s))"
  unfolding mcGetSessionErrorCode_def
proof (erule with_lock_inv, goal_cases)
  case (1 s)
  have "keeps True [] no_regs (\<lambda>_. True) (and_then (check_device k) (\<lambda>d. check_session d i)) (\<lambda>_ _. True)" for k i
    by (rule keeps_device, rule keeps_any [OF keeps_check_session])
  from keepsE(1) [OF this 1] 1 show ?case by (auto split: prod.splits sum.splits option.splits)
qed

section \<open>Opening sessions\<close>

text \<open>The handle of a TCI that had to be registered is held until the session object has it.\<close>

definition tci_regs :: "Device \<Rightarrow> BulkBufferDescriptor option \<Rightarrow> int \<Rightarrow> u32 multiset" where
  "tci_regs d b = no_regs(cd_fd d := mset (case b of None \<Rightarrow> [] | Some b \<Rightarrow> [bb_handle b]))"

lemma tci_regs_None [simp]: "tci_regs d None = no_regs"
  by (auto simp: tci_regs_def)

definition tci_ok :: "Device \<Rightarrow> (u32 \<times> BulkBufferDescriptor option) act \<Rightarrow> bool" where
  "tci_ok d m \<longleftrightarrow> (\<forall>l k s r t. client_inv l [] no_regs s \<and> found k d s \<and> m s = (r, t) \<longrightarrow>
     found k d t \<and> client_inv l [] no_regs t \<and> (\<forall>h b. r = Inr (h, b) \<longrightarrow> client_inv l [] (tci_regs d b) t))"

lemma tci_register_ok: "tci_ok d (tci_register E d tci len)"
  unfolding tci_ok_def
proof (intro allI impI, elim conjE, goal_cases)
  case (1 l k s r t)
  obtain q where q: "mapBulkBuf E d tci len s = (q, t)"
    using 1(3) by (auto simp: tci_register_def fail_def give_def split: prod.splits sum.splits)
  note M = mapBulkBuf_inv [OF 1(1) 1(2)[unfolded found_def] q]
  have f: "found k d t" using 1(2) M(1) by (simp add: found_def resolveDeviceId_def)
  show ?case
  proof (cases q)
    case (Inl e)
    with M(3) f q 1(3) show ?thesis by (auto simp: tci_register_def fail_def)
  next
    case (Inr b)
    from M(2) [OF Inr] have i: "client_inv l [] (tci_regs d (Some b)) t" by (simp add: tci_regs_def)
    then have "client_inv l [] no_regs t" by (rule inv_weaken) simp
    with i f q Inr 1(3) show ?thesis by (auto simp: tci_register_def give_def)
  qed
qed

lemma tci_contiguous_ok: "tci_ok d (tci_contiguous w len)" "tci_ok d (fail e)" "tci_ok d (give (h, None))"
  by (auto simp: tci_ok_def tci_contiguous_def fail_def give_def split: if_splits)

lemma tci_session_ok: "tci_ok d (tci_of_session E d tci len)" "tci_ok d (tci_of_trustlet E d tci len)"
  by (simp_all add: tci_register_ok tci_contiguous_ok tci_of_session_def tci_of_trustlet_def split: option.splits)

lemma open_channel_inv:
  assumes inv: "client_inv l [] (tci_regs d b) s" and f: "found k d s"
  shows "client_inv l [] no_regs (snd (open_channel E d b s))"
proof -
  have k: "cd_deviceId d = k" using inv_device(2) [OF inv f [unfolded found_def]] .
  obtain q u where q: "recv_variable E (cd_connection d) 12 s = (q, u)" by fastforce
  note U = keepsE [OF keeps_sock [OF sock_recv_variable] inv f q]
  have W: "client_inv l cs no_regs x" if "client_inv l cs (tci_regs d b) x" for cs x
    using that by (rule inv_weaken) simp
  show ?thesis
  proof (cases q)
    case (Inl e)
    with q W [OF U(1)] show ?thesis by (simp add: open_channel_def)
  next
    case (Inr p)
    obtain c v where c: "conn_new u = (c, v)" by fastforce
    note V = conn_new_inv [OF U(1) c]
    obtain ok w where w: "conn_connect E c v = (ok, w)" by fastforce
    note X = conn_connect_inv [OF V(1) w]
    have fw: "found k d w" using U(2) [OF Inr] V(2) X(2) by (simp add: found_def resolveDeviceId_def)
    let ?m = "and_then (send_to_daemon E c (ReqNqConnect (cd_deviceId d) (le32 p 0) (le32 p 4) (le32 p 8))) (\<lambda>_. recv_status E c)"
    obtain r y where y: "?m w = (r, y)" by fastforce
    have live: "c \<in> set (cl_live w)" using X(1) by (rule inv_live) simp
    have "sock_act c ?m" by (intro sock_intros)
    from sock_actD [OF this live y] have "client_inv l [c] (tci_regs d b) y" "found k d y"
      using X(1) fw by (auto intro: sock_inv found_sock)
    then have "client_inv l [] no_regs (createNewSession k i c b y)" "client_inv l [] no_regs (conn_delete c y)" for i
      using W [of "[c]" y] by (auto intro!: createNewSession_inv [of l c "[]" no_regs] conn_delete_inv simp: tci_regs_def found_def)
    moreover have "client_inv l [] no_regs (conn_delete c w)" using X(1) W conn_delete_inv(1) by blast
    ultimately show ?thesis using q Inr c w y k
      by (auto simp: open_channel_def Let_def split: sum.splits)
  qed
qed

lemma open_common_inv:
  assumes inv: "client_inv l [] no_regs s" and tci: "\<And>d. tci_ok d (tci d)" and req: "\<And>c h. sock_act c (req c h)"
  shows "client_inv l [] no_regs (snd (open_common E x len tci req s))"
proof (cases "MC_MAX_TCI_LEN < len \<or> resolveDeviceId s (sh_deviceId x) = None")
  case True
  with inv show ?thesis by (auto simp: open_common_def and_then_def check_device_def fail_def)
next
  case False
  then obtain d where d: "\<not> MC_MAX_TCI_LEN < len" "resolveDeviceId s (sh_deviceId x) = Some d" by auto
  then have f: "found (sh_deviceId x) d s" by (simp add: found_def)
  obtain q u where q: "tci d s = (q, u)" by fastforce
  with tci inv f have fu: "found (sh_deviceId x) d u" and U: "client_inv l [] no_regs u"
    and B: "\<And>h b. q = Inr (h, b) \<Longrightarrow> client_inv l [] (tci_regs d b) u" unfolding tci_ok_def by blast+
  show ?thesis
  proof (cases q)
    case (Inl e)
    with d q U show ?thesis by (simp add: open_common_def and_then_def check_device_def give_def)
  next
    case (Inr hb)
    obtain h b where hb: "hb = (h, b)" by fastforce
    let ?m = "and_then (req (cd_connection d) h) (\<lambda>_. recv_open_status E (cd_connection d))"
    have sm: "sock_act (cd_connection d) ?m" by (intro sock_intros req)
    obtain r v where v: "?m u = (r, v)" by fastforce
    note V = keepsE [OF keeps_sock [OF sm] B [OF Inr [unfolded hb]] fu v]
    have "and_then (req (cd_connection d) h) (\<lambda>_. and_then (recv_open_status E (cd_connection d)) (\<lambda>_. give (d, b))) u
        = (case r of Inl e \<Rightarrow> (Inl e, v) | Inr _ \<Rightarrow> (Inr (d, b), v))"
      using v by (auto simp: and_then_def give_def split: prod.splits sum.splits)
    moreover have "client_inv l [] no_regs v" using V(1) by (rule inv_weaken) simp
    moreover have "r = Inr y \<Longrightarrow> client_inv l [] no_regs (snd (open_channel E d b v))" for y
      using open_channel_inv [OF V(1) V(2)] by blast
    ultimately show ?thesis using d q Inr hb
      by (auto simp: open_common_def and_then_def check_device_def give_def split: sum.splits)
  qed
qed

lemma snd_open_null [simp]: "snd (open_null r h) = snd r"
  by (simp add: open_null_def split_beta)

lemma mcOpenSession_inv: "at_rest s \<Longrightarrow> at_rest (snd (mcOpenSession E h u tci len s))"
  unfolding mcOpenSession_def
  by (erule with_lock_inv) (auto intro!: open_common_inv tci_session_ok sock_intros split: option.splits)

lemma mcOpenGPTA_inv: "at_rest s \<Longrightarrow> at_rest (snd (mcOpenGPTA E h u tci len s))"
  unfolding mcOpenGPTA_def
  by (erule with_lock_inv) (auto intro!: open_common_inv tci_session_ok sock_intros split: option.splits)

lemma mcOpenTrustlet_inv: "at_rest s \<Longrightarrow> at_rest (snd (mcOpenTrustlet E h spid trustlet tlen tci len s))"
  unfolding mcOpenTrustlet_def
  by (erule with_lock_inv) (auto intro!: open_common_inv tci_session_ok sock_act_then sock_send sock_act_write [unfolded Let_def] split: option.splits)

section \<open>Bulk buffers and notifications\<close>

lemma resolveSessionId_id: "resolveSessionId d i = Some x \<Longrightarrow> cs_sessionId x = i"
  by (auto simp: resolveSessionId_def find_Some_iff)

lemma removeBulkBuf_cong:
  "cd_fd d = cd_fd d' \<Longrightarrow> cd_deviceId d = cd_deviceId d' \<Longrightarrow> removeBulkBuf E d x buf s = removeBulkBuf E d' x buf s"
  by (simp add: removeBulkBuf_def split: option.split)

text \<open>The device and the session of a buffer that has just been added.\<close>

definition added :: "u32 \<Rightarrow> u32 \<Rightarrow> Device \<Rightarrow> Session \<Rightarrow> Device \<Rightarrow> client \<Rightarrow> bool" where
  "added k i d x d' s \<longleftrightarrow> found k d' s \<and> resolveSessionId d' i = Some x \<and>
     cd_fd d' = cd_fd d \<and> cd_connection d' = cd_connection d \<and> cd_deviceId d' = cd_deviceId d"

lemma mcMap_inv: "at_rest s \<Longrightarrow> at_rest (snd (mcMap E h buf len info s))"
  unfolding mcMap_def
proof (erule with_lock_inv, goal_cases)
  case (1 s)
  show ?case
  proof (cases "h = None \<or> info = None \<or> buf = 0")
    case True
    with 1 show ?thesis by (auto split: option.splits)
  next
    case False
    then obtain y where h: "h = Some y" and nz: "info \<noteq> None" "buf \<noteq> 0" by auto
    let ?k = "sh_deviceId y" and ?i = "sh_sessionId y"
    let ?talk = "\<lambda>d x b. and_then (send_to_daemon E (cd_connection d)
          (ReqMapBulkBuf (cs_sessionId x) (bb_handle b) 0 (bb_virtAddr b AND 0xFFF) (bb_len b))) (\<lambda>_.
        and_then (recv_result E (cd_connection d) MC_DRV_OK) (\<lambda>r s.
          if r \<noteq> MC_DRV_OK
          then fail MC_DRV_ERR_DAEMON_UNREACHABLE (snd (removeBulkBuf E d (x\<lparr>cs_bulk := cs_bulk x @ [b]\<rparr>) buf s))
          else and_then (recv_variable E (cd_connection d) 8) (\<lambda>p. give (le32 p 4)) s))"
    let ?Q = "\<lambda>_ t. \<exists>d x. found ?k d t \<and> resolveSessionId d ?i = Some x"
    have talk: "keeps True [] no_regs (found ?k d') (?talk d x b) ?Q"
      if d': "resolveSessionId d' ?i = Some (x\<lparr>cs_bulk := cs_bulk x @ [b]\<rparr>)" "cd_fd d' = cd_fd d"
        "cd_connection d' = cd_connection d" "cd_deviceId d' = cd_deviceId d" for d d' x b
    proof -
      have rm: "removeBulkBuf E d z buf = removeBulkBuf E d' z buf" for z
        by (intro ext removeBulkBuf_cong) (use d' in simp_all)
      have last: "keeps True [] no_regs (found ?k d') (\<lambda>s.
          if r \<noteq> MC_DRV_OK
          then fail MC_DRV_ERR_DAEMON_UNREACHABLE (snd (removeBulkBuf E d' (x\<lparr>cs_bulk := cs_bulk x @ [b]\<rparr>) buf s))
          else and_then (recv_variable E (cd_connection d') 8) (\<lambda>p. give (le32 p 4)) s) ?Q" for r
      proof (cases "r = MC_DRV_OK")
        case True
        have "keeps True [] no_regs (found ?k d') (and_then (recv_variable E (cd_connection d') 8) (\<lambda>p. give (le32 p 4))) ?Q"
          by (rule keeps_then [OF keeps_sock [OF sock_recv_variable]], rule keeps_give) (use d'(1) in blast)
        with True show ?thesis by simp
      next
        case False
        then show ?thesis using d'(1)
          by (auto simp: keeps_def found_def fail_def removeBulkBuf_inv)
      qed
      show ?thesis unfolding rm d'(3) [symmetric]
        by (rule keeps_send, rule keeps_result, rule last)
    qed
    have all: "keeps True [] no_regs (\<lambda>_. True) (and_then (check_device ?k) (\<lambda>d. and_then (check_session d ?i) (\<lambda>x.
        and_then (addBulkBuf E d x buf len) (?talk d x)))) ?Q"
    proof (rule keeps_device, rule keeps_session, rule keeps_fact, rule keepsI, goal_cases)
      case (1 d x s r t)
      obtain q u where q: "addBulkBuf E d x buf len s = (q, u)" by fastforce
      note A = addBulkBuf_inv [OF 1(2) 1(3) [unfolded found_def] 1(1) q]
      show ?case
      proof (cases q)
        case (Inl e)
        with 1(4) q A(1) show ?thesis by (auto simp: and_then_def)
      next
        case (Inr b)
        from A(2) [OF this] inv_device(2) [OF 1(2) 1(3) [unfolded found_def]] obtain d' where
          d': "found ?k d' u" "resolveSessionId d' ?i = Some (x\<lparr>cs_bulk := cs_bulk x @ [b]\<rparr>)" "cd_fd d' = cd_fd d"
            "cd_connection d' = cd_connection d" "cd_deviceId d' = cd_deviceId d" by (auto simp: found_def)
        have "?talk d x b u = (r, t)" using 1(4) q Inr by (simp add: and_then_def)
        from keepsE [OF talk [OF d'(2-)] A(1) d'(1) this] show ?thesis by blast
      qed
    qed
    obtain r t where r: "and_then (check_device ?k) (\<lambda>d. and_then (check_session d ?i) (\<lambda>x.
        and_then (addBulkBuf E d x buf len) (?talk d x))) s = (r, t)" by fastforce
    note R = keepsE [OF all 1 TrueI r]
    show ?thesis
    proof (cases r)
      case (Inl e)
      with h nz r R(1) show ?thesis by auto
    next
      case (Inr a)
      from R(2) [OF this] obtain d x where dx: "found ?k d t" "resolveSessionId d ?i = Some x" by blast
      have "map bb_handle (update_first P (\<lambda>b. b\<lparr>bb_sVirtualAddr := v\<rparr>) bs) = map bb_handle bs" for P v and bs :: "BulkBufferDescriptor list"
        by (induction bs) auto
      then have "client_inv True [] no_regs (with_session ?k ?i
          (\<lambda>x. x\<lparr>cs_bulk := update_first P (\<lambda>b. b\<lparr>bb_sVirtualAddr := v\<rparr>) (cs_bulk x)\<rparr>) t)" for P v
        using dx by (intro with_session_inv [OF R(1)]) (auto simp: found_def simp flip: mset_map)
      with h nz r Inr show ?thesis by auto
    qed
  qed
qed

lemma mcUnmap_inv: "at_rest s \<Longrightarrow> at_rest (snd (mcUnmap E h buf info s))"
  unfolding mcUnmap_def
proof (erule with_lock_inv, goal_cases)
  case (1 s)
  have "client_inv True [] no_regs (snd (case and_then (check_device k) (\<lambda>d.
                  and_then (check_session d i) (\<lambda>x.
                   (let handle = getBufHandle x a n in
                    if handle = 0 then fail MC_DRV_ERR_BLK_BUFF_NOT_FOUND
                    else
                      and_then (send_to_daemon E (cd_connection d) (ReqUnmapBulkBuf (cs_sessionId x) handle a n)) (\<lambda>_.
                      and_then (recv_result E (cd_connection d) MC_DRV_ERR_UNKNOWN) (\<lambda>r.
                        if r \<noteq> MC_DRV_OK then fail MC_DRV_ERR_DAEMON_UNREACHABLE else give (d, x)))))) s of
               (Inl e, s) \<Rightarrow> (e, s)
             | (Inr (d, x), s) \<Rightarrow> removeBulkBuf E d x buf s))" (is "client_inv _ _ _ (snd (case ?m s of (Inl e, s) \<Rightarrow> _ e s | (Inr p, s) \<Rightarrow> _ p s))") for k i a n
  proof -
    have m: "keeps True [] no_regs (\<lambda>_. True) ?m (\<lambda>(d, x) s. found k d s \<and> resolveSessionId d i = Some x)"
      unfolding Let_def
      by (rule keeps_device, rule keeps_session, rule keeps_fact, rule keeps_if, rule keeps_fail, rule keeps_send,
          rule keeps_result, rule keeps_if, rule keeps_fail, rule keeps_give) simp
    obtain r t where r: "?m s = (r, t)" by fastforce
    note M = keepsE [OF m 1 TrueI r]
    show ?thesis
    proof (cases r)
      case (Inl e)
      with r M(1) show ?thesis by simp
    next
      case (Inr p)
      obtain d x where p: "p = (d, x)" by fastforce
      from M(2) [OF Inr] have "resolveDeviceId t k = Some d" "resolveSessionId d i = Some x" by (simp_all add: p found_def)
      from removeBulkBuf_inv [OF M(1) this] r Inr p show ?thesis by simp
    qed
  qed
  then show ?case using 1 by (auto intro!: drop_dead_device_inv split: option.splits)
qed

definition drain_keeps :: "client_env \<Rightarrow> mcSessionHandle_t \<Rightarrow> nat \<Rightarrow> u32 \<Rightarrow> int \<Rightarrow> client \<Rightarrow> u32 \<times> client \<Rightarrow> bool" where
  "drain_keeps E x c n timeout s y \<longleftrightarrow> (\<forall>l d z. client_inv l [] no_regs s \<and> found (sh_deviceId x) d s \<and>
     resolveSessionId d (sh_sessionId x) = Some z \<and> cs_connection z = c \<longrightarrow> client_inv l [] no_regs (snd y))"

lemma drain_keeps:
  assumes "drain E x c n timeout s = Some y"
  shows "drain_keeps E x c n timeout s y"
proof -
  have step: "drain_keeps E x c n timeout s y"
    if IH: "\<And>E x c n timeout s y. f E x c n timeout s = Some y \<Longrightarrow> drain_keeps E x c n timeout s y"
      and body: "(let (numRead, got, s) = readData E c 8 timeout s in
      if n = 0 \<and> numRead = -2 then Some (MC_DRV_ERR_TIMEOUT, s)
      else if n = 0 \<and> numRead = 0 then Some (MC_DRV_ERR_NOTIFICATION, snd (removeDevice E (sh_deviceId x) s))
      else if numRead \<noteq> 8 then Some (if n = 0 then MC_DRV_ERR_NOTIFICATION else MC_DRV_OK, s)
      else if le32 got 4 \<noteq> 0
      then Some (MC_DRV_INFO_NOTIFICATION,
             with_session (sh_deviceId x) (sh_sessionId x) (\<lambda>x. x\<lparr>cs_lastErr := le32 got 4\<rparr>) s)
      else f E x c (n + 1) 0 s) = Some y" for f E x c n timeout s y
    unfolding drain_keeps_def
  proof (intro allI impI, elim conjE)
    fix l d z assume z: "client_inv l [] no_regs s" "found (sh_deviceId x) d s"
      "resolveSessionId d (sh_sessionId x) = Some z" "cs_connection z = c"
    obtain k got u where u: "readData E c 8 timeout s = (k, got, u)" by (metis prod_cases3)
    have "z \<in> set (cd_sessions d)" using z(3) by (auto simp: resolveSessionId_def find_Some_iff)
    then have "c \<in> set (cl_live s)" using inv_device(4) [OF z(1) z(2) [unfolded found_def]] z(4) by blast
    then have "sock s u" using sock_readData [of c s E 8 timeout] u by simp
    with z have U: "client_inv l [] no_regs u" "found (sh_deviceId x) d u" by (auto intro: sock_inv found_sock)
    have "client_inv l [] no_regs (with_session (sh_deviceId x) (sh_sessionId x) (\<lambda>x. x\<lparr>cs_lastErr := e\<rparr>) u)" for e
      by (rule with_session_inv [OF U(1) U(2) [unfolded found_def] z(3)]) simp_all
    moreover have "client_inv l [] no_regs (snd y)" if "f E x c (n + 1) 0 u = Some y"
      using IH [OF that] U z unfolding drain_keeps_def by blast
    ultimately show "client_inv l [] no_regs (snd y)"
      using u body U(1) removeDevice_inv [OF U(1)] by (auto simp: Let_def split: if_splits)
  qed
  show ?thesis
    by (rule drain.raw_induct [of drain_keeps "(((((E, x), c), n), timeout), s)" y, unfolded prod.case])
      (erule (1) step, rule assms)
qed

lemma mcWaitNotification_inv:
  assumes "at_rest s" "mcWaitNotification E h timeout s = Some (r, t)"
  shows "at_rest t"
proof (cases h)
  case None
  with assms show ?thesis by (simp add: mcWaitNotification_def)
next
  case (Some x)
  let ?m = "and_then (check_device (sh_deviceId x)) (\<lambda>d. check_session d (sh_sessionId x))"
  have m: "keeps False [] no_regs (\<lambda>_. True) ?m (\<lambda>z s. \<exists>d. found (sh_deviceId x) d s \<and> resolveSessionId d (sh_sessionId x) = Some z)"
    by (rule keeps_device) (auto simp: keeps_def check_session_def fail_def give_def split: option.splits)
  obtain q u where q: "?m s = (q, u)" by fastforce
  note M = keepsE [OF m assms(1) TrueI q]
  show ?thesis
  proof (cases q)
    case (Inl e)
    with Some q M assms(2) show ?thesis by (simp add: mcWaitNotification_def)
  next
    case (Inr z)
    with Some q assms(2) have "drain E x (cs_connection z) 0 timeout u = Some (r, t)" by (simp add: mcWaitNotification_def)
    from drain_keeps [OF this] M(1) M(2) [OF Inr] show ?thesis unfolding drain_keeps_def by fastforce
  qed
qed

section \<open>Every sequence of calls\<close>

text \<open>One call of the API, with any arguments.\<close>

inductive api_call :: "client_env \<Rightarrow> client \<Rightarrow> client \<Rightarrow> bool" for E where
  open_device: "api_call E s (snd (mcOpenDevice E deviceId s))"
| close_device: "api_call E s (snd (mcCloseDevice E deviceId s))"
| open_session: "api_call E s (snd (mcOpenSession E session uuid tci len s))"
| open_trustlet: "api_call E s (snd (mcOpenTrustlet E session spid trustlet tlen tci len s))"
| open_gpta: "api_call E s (snd (mcOpenGPTA E session uuid tci len s))"
| close_session: "api_call E s (snd (mcCloseSession E session s))"
| notify: "api_call E s (snd (mcNotify E session s))"
| wait: "mcWaitNotification E session timeout s = Some (r, t) \<Longrightarrow> api_call E s t"
| malloc: "api_call E s (snd (mcMallocWsm E deviceId len wsm s))"
| free: "api_call E s (snd (mcFreeWsm E deviceId addr s))"
| map: "api_call E s (snd (mcMap E session buf len info s))"
| unmap: "api_call E s (snd (mcUnmap E session buf info s))"
| error_code: "api_call E s (snd (mcGetSessionErrorCode session lastErr s))"
| driver_ctrl: "api_call E s (snd (mcDriverCtrl s))"
| version: "api_call E s (snd (mcGetMobiCoreVersion E deviceId versionInfo s))"

lemma api_call_inv: "fd_fresh E \<Longrightarrow> at_rest s \<Longrightarrow> api_call E s t \<Longrightarrow> at_rest t"
  by (erule api_call.cases)
    (auto simp: mcDriverCtrl_def mcOpenDevice_inv mcCloseDevice_inv mcOpenSession_inv mcOpenTrustlet_inv mcOpenGPTA_inv
      mcCloseSession_inv mcNotify_inv mcMallocWsm_inv mcFreeWsm_inv mcMap_inv mcUnmap_inv
      mcGetSessionErrorCode_inv mcGetMobiCoreVersion_inv dest: mcWaitNotification_inv)

section \<open>A sample environment\<close>

text \<open>Everything succeeds; the \<open>k\<close>-th read of any connection brings \<open>answers k\<close>.\<close>

fun next_fd :: "cev list \<Rightarrow> int" where
  "next_fd [] = 3"
| "next_fd (KOpen fd # es) = max (fd + 1) (next_fd es)"
| "next_fd (_ # es) = next_fd es"

fun reads :: "cev list \<Rightarrow> nat" where
  "reads [] = 0"
| "reads (CRecv _ _ # es) = Suc (reads es)"
| "reads (_ # es) = reads es"

definition sample_env :: "(nat \<Rightarrow> u8 list) \<Rightarrow> client_env" where
  "sample_env answers =
     \<lparr>ce_ps = 8, ce_pad = (\<lambda>_. []), ce_connect = (\<lambda>_ _. True), ce_send = (\<lambda>_ _ n. int n),
      ce_select = (\<lambda>h _ _. if answers (reads h) = [] then (0, False) else (1, True)),
      ce_recv = (\<lambda>h _ n. let b = take n (answers (reads h)) in (int (length b), b)),
      ce_poll = (\<lambda>_ _. 0), ce_stack = (\<lambda>_ n. replicate n 0), ce_errno = (\<lambda>_. 12),
      ce_open = next_fd, ce_close = (\<lambda>_ _. True),
      ce_map_wsm = (\<lambda>_ _ _. Some (1, 0x80000000)), ce_mmap = (\<lambda>_ _ _. Some 0x70000000), ce_free_wsm = (\<lambda>_ _ _. True),
      ce_reg_wsm = (\<lambda>_ _ _ _. Some (5, 0x90000000)), ce_unreg_wsm = (\<lambda>_ _ _. True)\<rparr>"

lemma open_fds_opened: "fd \<in> open_fds h \<Longrightarrow> KOpen fd \<in> set h"
  by (induction h rule: rev_induct) (auto simp: fd_step_def split: cev.splits if_splits)

lemma opened_below: "KOpen fd \<in> set h \<Longrightarrow> fd < next_fd h"
  by (induction h rule: next_fd.induct) auto

lemma sample_env_fresh: "fd_fresh (sample_env answers)"
  unfolding fd_fresh_def using open_fds_opened opened_below by (auto simp: sample_env_def)

end
