(* ===== verification/ClientApiLaws.thy ===== *)
theory ClientApiLaws
  imports ClientProps
begin

text \<open>
  Properties of the client library over single calls and over sequences of calls, for any behaviour of
  the daemon and the kernel module.
\<close>

section \<open>A client with a session\<close>

definition script :: "nat \<Rightarrow> u8 list" where
  "script k = (if k = 1 then [2, 0, 0, 0] else if k = 4 then [7, 0, 0, 0, 1, 0, 0, 0, 9, 0, 0, 0]
     else if k = 7 then [7, 0, 0, 0, 0, 0, 0x40, 0] else if k = 9 then [] else [0, 0, 0, 0])"

abbreviation env :: client_env where "env \<equiv> sample_env script"

abbreviation h0 :: mcSessionHandle_t where "h0 \<equiv> \<lparr>sh_sessionId = 7, sh_deviceId = 0\<rparr>"

definition open_client :: client where
  "open_client = snd (mcOpenDevice env 0 new_client)"

definition session_client :: client where
  "session_client = snd (mcOpenSession env (Some h0) (Some (replicate 16 1)) 0x1010 64 open_client)"

lemma open_client_rest: "at_rest open_client"
proof -
  have "at_rest new_client" by (simp add: client_inv_def new_client_def owned_def)
  then show ?thesis unfolding open_client_def by (intro mcOpenDevice_inv sample_env_fresh)
qed

lemma session_client_rest: "at_rest session_client"
  unfolding session_client_def by (intro mcOpenSession_inv open_client_rest)

section \<open>Every reachable state\<close>

text \<open>
  C5: After any sequence of calls, whatever the daemon, the sockets and the kernel module answer: device
  identifiers are distinct, every live connection belongs to exactly one device or session, no
  connection has been used or deleted when it was not alive, the mutex is free and was never taken
  twice, and every buffer that the sessions of a device list has a registration of its own with the
  kernel module.
\<close>

theorem client_invariant:
  assumes "fd_fresh E" "(api_call E)\<^sup>*\<^sup>* new_client s"
  shows "distinct (map cd_deviceId (cl_devices s)) \<and> distinct (owned s) \<and> mset (cl_live s) = mset (owned s)
    \<and> \<not> cl_fault s \<and> \<not> cl_locked s
    \<and> (\<forall>d \<in> set (cl_devices s). mset (dev_handles d) \<subseteq># mset (registered (cd_fd d) (cl_hist s)))"
proof -
  from assms(2) have "at_rest s"
  proof (induction rule: rtranclp_induct)
    case base
    show ?case by (simp add: client_inv_def new_client_def owned_def)
  next
    case (step s t)
    from api_call_inv [OF assms(1) step.IH step.hyps(2)] show ?case .
  qed
  then show ?thesis by (auto simp: client_inv_def dest: mset_eq_imp_distinct_iff)
qed

theorem client_invariant_witness:
  "\<exists>s. (api_call env)\<^sup>*\<^sup>* new_client s \<and> cl_live s = [1, 0] \<and> mset (cl_live s) = mset (owned s)
     \<and> map dev_handles (cl_devices s) = [[5]]"
proof -
  have "api_call env new_client open_client" unfolding open_client_def by (rule open_device)
  moreover have "api_call env open_client session_client" unfolding session_client_def by (rule open_session)
  ultimately have r: "(api_call env)\<^sup>*\<^sup>* new_client session_client" by auto
  have "cl_live session_client = [1, 0]" "map dev_handles (cl_devices session_client) = [[5]]" by code_simp+
  with client_invariant [OF sample_env_fresh r] r show ?thesis by (intro exI [of _ session_client]) simp
qed

section \<open>An error from the daemon takes the device away\<close>

lemma removeDevice_gone:
  assumes inv: "client_inv l cs p s" and d: "resolveDeviceId s k = Some d"
  shows "resolveDeviceId (snd (removeDevice E k s)) k = None" "set (dev_conns d) \<inter> set (cl_live (snd (removeDevice E k s))) = set (dev_conns d) \<inter> set cs"
proof -
  let ?t = "snd (removeDevice E k s)"
  obtain ys zs where D: "cl_devices s = ys @ d # zs" and dk: "cd_deviceId d = k"
    and r: "remove_first (\<lambda>d. cd_deviceId d = k) (cl_devices s) = ys @ zs"
    using d unfolding resolveDeviceId_def by (elim find_split) simp
  have pre: "client_inv l (dev_conns d @ cs) p (s\<lparr>cl_devices := ys @ zs\<rparr>)"
    using inv by (simp add: client_inv_def owned_def D)
  have "distinct (map cd_fd (ys @ d # zs))" using inv D by (simp add: client_inv_def)
  then have "\<And>d'. d' \<in> set (ys @ zs) \<Longrightarrow> cd_fd d' \<noteq> cd_fd d" by (auto simp: image_iff)
  then have t: "cl_devices ?t = ys @ zs" using d r delete_device_inv(2) [OF pre] by (simp add: removeDevice_def)
  have ids: "distinct (map cd_deviceId (ys @ d # zs))" using inv D by (simp add: client_inv_def)
  then have "\<forall>x \<in> set (ys @ zs). cd_deviceId x \<noteq> k" using dk by (auto simp: image_iff)
  then show "resolveDeviceId ?t k = None" by (auto simp: resolveDeviceId_def t find_None_iff)
  have "mset (cl_live ?t) = mset (concat (map dev_conns (ys @ zs))) + mset cs"
    using removeDevice_inv [OF inv, of E k] t by (simp add: client_inv_def owned_def)
  then have T: "set (cl_live ?t) = set (concat (map dev_conns (ys @ zs))) \<union> set cs"
    by (metis set_mset_mset set_mset_union)
  have "mset (cl_live s) = mset (dev_conns d @ concat (map dev_conns (ys @ zs)) @ cs)" "distinct (cl_live s)"
    using inv D by (simp_all add: client_inv_def owned_def)
  then have "distinct (dev_conns d @ concat (map dev_conns (ys @ zs)) @ cs)" by (metis mset_eq_imp_distinct_iff)
  then show "set (dev_conns d) \<inter> set (cl_live ?t) = set (dev_conns d) \<inter> set cs" unfolding T by auto
qed

text \<open>
  C24: The code for an unmap the daemon refuses is the number of a broken socket. So a refusal, of whatever
  kind, removes the whole device: every session of it and all their connections are gone, although the
  connection has just worked.
\<close>

theorem unmap_error_drops_device:
  assumes "at_rest s" "resolveDeviceId s (sh_deviceId h) = Some d" "resolveSessionId d (sh_sessionId h) = Some x"
    and "getBufHandle x a n \<noteq> 0" "a \<noteq> 0" "buf \<noteq> 0"
    and send: "send_to_daemon E (cd_connection d) (ReqUnmapBulkBuf (sh_sessionId h) (getBufHandle x a n) a n) (dev_lock s) = (Inr (), u)"
    and recv: "recv_result E (cd_connection d) MC_DRV_ERR_UNKNOWN u = (Inr r, v)" "r \<noteq> MC_DRV_OK"
    and t: "mcUnmap E (Some h) buf (Some (a, n)) s = (result, t)"
  shows "result = MC_DRV_ERR_DAEMON_UNREACHABLE \<and> resolveDeviceId t (sh_deviceId h) = None
    \<and> set (dev_conns d) \<inter> set (cl_live t) = {}"
proof -
  let ?k = "sh_deviceId h"
  have lock: "resolveDeviceId (dev_lock s) ?k = Some d" "cs_sessionId x = sh_sessionId h"
    using assms(2,3) by (auto simp: resolveDeviceId_def dev_lock_def resolveSessionId_id)
  have L: "client_inv True [] no_regs (dev_lock s)" using assms(1) by (rule dev_lock_inv)
  note U = keepsE [OF keeps_sock [OF sock_send] L, unfolded found_def, OF lock(1) send]
  have "found ?k d u" using U(2) by (simp add: found_def)
  note V = keepsE [OF keeps_sock [OF sock_recv_result] U(1) this recv(1)]
  have fv: "resolveDeviceId v ?k = Some d" using V(2) by (simp add: found_def)
  have "result = MC_DRV_ERR_DAEMON_UNREACHABLE" "t = dev_unlock (snd (removeDevice E ?k v))"
    using t lock assms(3-6) send recv
    by (auto simp: mcUnmap_def with_lock_def and_then_def check_device_def check_session_def give_def fail_def drop_dead_device_def)
  with removeDevice_gone [OF V(1) fv] show ?thesis by (simp add: dev_unlock_def resolveDeviceId_def)
qed

definition mapped_client :: client where
  "mapped_client = snd (mcMap env (Some h0) 0x5010 32 (Some (0, 0)) session_client)"

definition refusing_env :: client_env where
  "refusing_env = sample_env (\<lambda>_. [6, 0, 0, 0])"

lemma mapped_client_rest: "at_rest mapped_client"
  unfolding mapped_client_def by (intro mcMap_inv session_client_rest)

theorem unmap_error_drops_device_witness:
  "resolveDeviceId mapped_client 0 \<noteq> None
   \<and> resolveDeviceId (snd (mcUnmap refusing_env (Some h0) 0x5010 (Some (0x400000, 32)) mapped_client)) 0 = None"
proof -
  define d where "d = the (resolveDeviceId mapped_client 0)"
  define x where "x = the (resolveSessionId d 7)"
  define u where "u = snd (send_to_daemon refusing_env (cd_connection d) (ReqUnmapBulkBuf 7 5 0x400000 32) (dev_lock mapped_client))"
  define v where "v = snd (recv_result refusing_env (cd_connection d) MC_DRV_ERR_UNKNOWN u)"
  have d: "resolveDeviceId mapped_client 0 = Some d" unfolding d_def by code_simp
  have x: "resolveSessionId d 7 = Some x" "getBufHandle x 0x400000 32 = 5" unfolding x_def d_def by code_simp+
  have u: "send_to_daemon refusing_env (cd_connection d) (ReqUnmapBulkBuf 7 5 0x400000 32) (dev_lock mapped_client) = (Inr (), u)"
    unfolding u_def d_def by code_simp
  have v: "recv_result refusing_env (cd_connection d) MC_DRV_ERR_UNKNOWN u = (Inr 6, v)" unfolding v_def u_def d_def by code_simp
  obtain r t where t: "mcUnmap refusing_env (Some h0) 0x5010 (Some (0x400000, 32)) mapped_client = (r, t)" by fastforce
  have "resolveDeviceId t 0 = None"
    using unmap_error_drops_device [of mapped_client h0 d x "0x400000" 32 "0x5010" refusing_env u 6 v r t] d x u v t mapped_client_rest by simp
  with d t show ?thesis by simp
qed

section \<open>What opening a session leaves behind\<close>

text \<open>
  Messages over connections, also connections that are made and deleted, leave the devices and the
  registrations alone; here none of the messages closes a session.
\<close>

definition chat :: "client \<Rightarrow> client \<Rightarrow> bool" where
  "chat s t \<longleftrightarrow> cl_devices t = cl_devices s \<and> (\<forall>fd. registered fd (cl_hist t) = registered fd (cl_hist s)) \<and>
     (\<exists>es. cl_hist t = cl_hist s @ es \<and> (\<forall>c i n. CSend c (Some (ReqCloseSession i)) n \<notin> set es))"

definition chat_act :: "'a act \<Rightarrow> bool" where
  "chat_act m \<longleftrightarrow> (\<forall>s. chat s (snd (m s)))"

named_theorems chat_intros

lemma chat_refl [intro, simp]: "chat s s" by (simp add: chat_def)

lemma chat_trans [trans]: "chat s t \<Longrightarrow> chat t u \<Longrightarrow> chat s u"
  by (auto simp: chat_def)

lemma chat_actD: "chat_act m \<Longrightarrow> m s = (r, t) \<Longrightarrow> chat s t"
  unfolding chat_act_def by (metis snd_conv)

lemma chat_act_then [chat_intros]: "chat_act m \<Longrightarrow> (\<And>x. chat_act (k x)) \<Longrightarrow> chat_act (and_then m k)"
  unfolding chat_act_def and_then_def
  by (auto split: prod.splits sum.splits) (metis snd_conv chat_trans)+

lemma chat_act_basic [chat_intros]: "chat_act (fail e)" "chat_act (give x)"
  by (simp_all add: chat_act_def fail_def give_def)

lemma chat_act_if [chat_intros]: "chat_act m \<Longrightarrow> chat_act n \<Longrightarrow> chat_act (if b then m else n)"
  by simp

lemma chat_write: "(\<And>i. r \<noteq> Some (ReqCloseSession i)) \<Longrightarrow> chat s (snd (writeData E c r n s))"
  by (auto simp: chat_def writeData_def on_hist_def conn_write_def conn_use_def Let_def reg_step_def)

lemma chat_read: "chat s (snd (snd (readData E c n timeout s)))"
  by (auto simp: chat_def readData_def conn_read_def conn_use_def Let_def reg_step_def split: prod.splits)

lemma chat_new: "conn_new s = (c, t) \<Longrightarrow> chat s t"
  by (auto simp: chat_def conn_new_def reg_step_def)

lemma chat_connect: "conn_connect E c s = (ok, t) \<Longrightarrow> chat s t"
  by (auto simp: chat_def conn_connect_def conn_use_def Let_def reg_step_def)

lemma chat_delete: "chat s (conn_delete c s)"
  by (auto simp: chat_def conn_delete_def conn_use_def reg_step_def)

lemma chat_lock: "chat s (dev_lock s)" "chat s (dev_unlock s)"
  by (auto simp: chat_def dev_lock_def dev_unlock_def reg_step_def)

lemma chat_send [chat_intros]: "(\<And>i. r \<noteq> ReqCloseSession i) \<Longrightarrow> chat_act (send_to_daemon E c r)"
  unfolding chat_act_def send_to_daemon_def fail_def give_def Let_def
  using chat_write [of "Some r"] by (auto split: prod.splits) (metis snd_conv)+

lemma chat_recv [chat_intros]: "chat_act (recv_from_daemon E c n old)"
  unfolding chat_act_def recv_from_daemon_def fail_def give_def Let_def
  using chat_read by (auto split: prod.splits) (metis snd_conv)+

lemma chat_recvs [chat_intros]: "chat_act (recv_variable E c n)" "chat_act (recv_result E c r)" "chat_act (recv_status E c)"
  "chat_act (recv_open_status E c)"
proof -
  show "chat_act (recv_variable E c n)" using chat_recv unfolding chat_act_def recv_variable_def by blast
  show r: "chat_act (recv_result E c r)" for r unfolding recv_result_def by (intro chat_intros)
  show "chat_act (recv_status E c)" unfolding recv_status_def by (intro chat_intros r)
  show "chat_act (recv_open_status E c)" unfolding recv_open_status_def by (intro chat_intros r)
qed

lemma open_error_nonzero: "r \<noteq> 0 \<Longrightarrow> open_error r \<noteq> 0"
  by (simp add: open_error_def Let_def)

lemma real_errors_open_status: "real_errors (recv_open_status E c)"
  unfolding recv_open_status_def by (intro err_intros open_error_nonzero) assumption

lemma real_errors_variable: "real_errors (recv_variable E c n)"
  using real_errors_recv unfolding real_errors_def recv_variable_def by blast

text \<open>The part of opening after the TCI has been registered.\<close>

lemma open_channel_outcome:
  assumes r: "open_channel E d b s = ((r, sid), t)"
  shows "r \<noteq> MC_DRV_OK \<Longrightarrow> chat s t"
    "r = MC_DRV_OK \<Longrightarrow> \<exists>i c u. sid = Some i \<and> chat s u \<and> t = createNewSession (cd_deviceId d) i c b u \<and> c = cl_next s"
proof -
  obtain q u where q: "recv_variable E (cd_connection d) 12 s = (q, u)" by fastforce
  have su: "chat s u" "cl_next u = cl_next s" using chat_actD [OF chat_recvs(1) q] q
    by (auto simp: recv_variable_def recv_from_daemon_def readData_def conn_use_def fail_def give_def Let_def split: prod.splits if_splits)
  have nz: "q \<noteq> Inl 0" using real_errors_variable q by (auto simp: real_errors_def)
  have "(r \<noteq> MC_DRV_OK \<longrightarrow> chat s t) \<and>
    (r = MC_DRV_OK \<longrightarrow> (\<exists>i c u. sid = Some i \<and> chat s u \<and> t = createNewSession (cd_deviceId d) i c b u \<and> c = cl_next s))"
  proof (cases q)
    case (Inl e)
    with r q su nz show ?thesis by (auto simp: open_channel_def)
  next
    case (Inr p)
    obtain c v where c: "conn_new u = (c, v)" by fastforce
    obtain ok w where w: "conn_connect E c v = (ok, w)" by fastforce
    have sw: "chat s w" using su(1) chat_new [OF c] chat_connect [OF w] by (blast intro: chat_trans)
    have cn: "c = cl_next s" using c su(2) by (simp add: conn_new_def)
    let ?m = "and_then (send_to_daemon E c (ReqNqConnect (cd_deviceId d) (le32 p 0) (le32 p 4) (le32 p 8))) (\<lambda>_. recv_status E c)"
    obtain x y where y: "?m w = (x, y)" by fastforce
    have "chat_act ?m" by (intro chat_intros) simp
    from chat_actD [OF this y] sw have sy: "chat s y" by (rule chat_trans [rotated])
    have "real_errors ?m" by (intro err_intros)
    then have "x \<noteq> Inl 0" using y by (auto simp: real_errors_def)
    with r q Inr c w y sw sy cn show ?thesis
      by (auto simp: open_channel_def Let_def split: if_splits sum.splits intro: chat_trans [OF _ chat_delete])
  qed
  then show "r \<noteq> MC_DRV_OK \<Longrightarrow> chat s t"
    "r = MC_DRV_OK \<Longrightarrow> \<exists>i c u. sid = Some i \<and> chat s u \<and> t = createNewSession (cd_deviceId d) i c b u \<and> c = cl_next s" by blast+
qed

text \<open>
  C23: Opening a session with a TCI that has to be registered with the kernel module. If it succeeds, exactly
  one session has been added to the device, with a new connection and the TCI as its buffer. If it fails,
  for whatever reason, also after the daemon has opened the session, the registration of the TCI stays
  behind without any object that knows it, the devices are as they were, and the daemon has not been told
  to close anything.
\<close>

theorem open_session_outcome:
  assumes "at_rest s" "resolveDeviceId s (sh_deviceId h) = Some d"
    and "findContiguousWsm d tci = None" "tci \<noteq> 0" "len \<noteq> 0" "len \<le> MC_MAX_TCI_LEN"
    and reg: "ce_reg_wsm E (cl_hist (dev_lock s)) (cd_fd d) tci len = Some (b, phys)"
    and r: "mcOpenSession E (Some h) (Some uuid) tci len s = ((result, h'), t)"
  shows "registered (cd_fd d) (cl_hist t) = b # registered (cd_fd d) (cl_hist s)
    \<and> (\<exists>es. cl_hist t = cl_hist s @ es \<and> (\<forall>c i n. CSend c (Some (ReqCloseSession i)) n \<notin> set es))
    \<and> (result \<noteq> MC_DRV_OK \<longrightarrow> cl_devices t = cl_devices s)
    \<and> (result = MC_DRV_OK \<longrightarrow> (\<exists>i. h' = Some (h\<lparr>sh_sessionId := i\<rparr>) \<and>
         cl_devices t = cl_devices (createNewSession (sh_deviceId h) i (cl_next s)
           (Some \<lparr>bb_virtAddr = tci, bb_sVirtualAddr = 0, bb_len = len, bb_handle = b\<rparr>) s)))"
proof -
  let ?bb = "\<lparr>bb_virtAddr = tci, bb_sVirtualAddr = 0, bb_len = len, bb_handle = b\<rparr>"
  let ?s = "dev_lock s"
  let ?u = "?s\<lparr>cl_hist := cl_hist ?s @ [KReg (cd_fd d) tci len (Some b)]\<rparr>"
  have d: "resolveDeviceId ?s (sh_deviceId h) = Some d" using assms(2) by (simp add: resolveDeviceId_def dev_lock_def)
  have k: "cd_deviceId d = sh_deviceId h" and fd: "cd_fd d \<noteq> -1"
    using inv_device(1,2) [OF assms(1,2)] assms(1) by (auto simp: client_inv_def)
  have tci: "tci_of_session E d tci len ?s = (Inr (b, Some ?bb), ?u)"
    using assms(3-5) reg fd by (simp add: tci_of_session_def tci_register_def mapBulkBuf_def on_hist_def mckmod_registerWsmL2_def give_def)
  let ?m = "and_then (send_to_daemon E (cd_connection d) (ReqOpenSession (sh_deviceId h) uuid (tci AND 0xFFF) b len))
      (\<lambda>_. recv_open_status E (cd_connection d))"
  obtain q v where q: "?m ?u = (q, v)" by fastforce
  have "chat_act ?m" by (intro chat_intros) simp
  from chat_actD [OF this q] have uv: "chat ?u v" .
  have "real_errors ?m" by (intro err_intros real_errors_open_status)
  then have nz: "q \<noteq> Inl 0" using q by (auto simp: real_errors_def)
  have sock: "cl_next v = cl_next s"
  proof -
    have inv: "client_inv True [] no_regs ?s" using assms(1) by (rule dev_lock_inv)
    have "cd_connection d \<in> set (cl_live ?u)" using inv_device(3) [OF inv d] by simp
    moreover have "sock_act (cd_connection d) ?m" by (intro sock_intros)
    ultimately have "sock ?u v" using q by (metis sock_actD)
    then show ?thesis by (simp add: sock_def dev_lock_def)
  qed
  have body: "open_common E h len (\<lambda>d. tci_of_session E d tci len)
      (\<lambda>c handle. send_to_daemon E c (ReqOpenSession (sh_deviceId h) uuid (tci AND 0xFFF) handle len)) ?s
    = (case q of Inl e \<Rightarrow> ((e, None), v) | Inr _ \<Rightarrow> open_channel E d (Some ?bb) v)"
    using assms(6) d tci q by (auto simp: open_common_def and_then_def check_device_def give_def split: prod.splits sum.splits)
  have base: "cl_devices ?u = cl_devices s" "registered (cd_fd d) (cl_hist ?u) = b # registered (cd_fd d) (cl_hist s)"
    "\<exists>es. cl_hist ?u = cl_hist s @ es \<and> (\<forall>c i n. CSend c (Some (ReqCloseSession i)) n \<notin> set es)"
    by (auto simp: dev_lock_def reg_step_def)
  have ext: "registered (cd_fd d) (cl_hist w) = b # registered (cd_fd d) (cl_hist s)
      \<and> (\<exists>es. cl_hist w = cl_hist s @ es \<and> (\<forall>c i n. CSend c (Some (ReqCloseSession i)) n \<notin> set es))
      \<and> cl_devices w = cl_devices s" if w: "chat ?u w" for w
  proof -
    obtain es where es: "cl_hist ?u = cl_hist s @ es" "\<forall>c i n. CSend c (Some (ReqCloseSession i)) n \<notin> set es"
      using base(3) by blast
    obtain es' where es': "cl_hist w = cl_hist ?u @ es'" "\<forall>c i n. CSend c (Some (ReqCloseSession i)) n \<notin> set es'"
      using w unfolding chat_def by blast
    have "cl_hist w = cl_hist s @ (es @ es')" by (simp only: es(1) es'(1) append.assoc)
    moreover have "registered (cd_fd d) (cl_hist w) = b # registered (cd_fd d) (cl_hist s)" "cl_devices w = cl_devices s"
      using w base(1,2) unfolding chat_def by metis+
    ultimately show ?thesis using es(2) es'(2) by fastforce
  qed
  show ?thesis
  proof (cases q)
    case (Inl e)
    then have t: "t = dev_unlock v" "result = e" using r body by (auto simp: mcOpenSession_def with_lock_def open_null_def)
    have "chat ?u t" using uv chat_lock(2) t(1) by (blast intro: chat_trans)
    from ext [OF this] t nz Inl show ?thesis by simp
  next
    case (Inr x)
    obtain rr sid w where w: "open_channel E d (Some ?bb) v = ((rr, sid), w)" by (metis prod.collapse)
    have t: "t = dev_unlock w" "result = rr" "h' = (case sid of None \<Rightarrow> Some h | Some i \<Rightarrow> Some (h\<lparr>sh_sessionId := i\<rparr>))"
      using r body Inr w by (auto simp: mcOpenSession_def with_lock_def open_null_def split: option.splits)
    show ?thesis
    proof (cases "rr = MC_DRV_OK")
      case False
      have "chat ?u t" using uv open_channel_outcome(1) [OF w False] chat_lock(2) t(1) by (blast intro: chat_trans)
      from ext [OF this] t False show ?thesis by simp
    next
      case True
      from open_channel_outcome(2) [OF w True] obtain i y where
        y: "sid = Some i" "chat v y" "w = createNewSession (cd_deviceId d) i (cl_next v) (Some ?bb) y" by blast
      have "chat ?u y" using uv y(2) by (rule chat_trans)
      from ext [OF this] y t True sock k show ?thesis
        by (auto simp: createNewSession_def with_device_def dev_unlock_def reg_step_def)
    qed
  qed
qed

text \<open>The daemon opens the session, but the notification channel cannot be made.\<close>

theorem open_session_outcome_witness:
  "\<exists>t. mcOpenSession (env\<lparr>ce_connect := (\<lambda>_ _. False)\<rparr>) (Some h0) (Some (replicate 16 1)) 0x1010 64 open_client
      = ((MC_DRV_ERR_DAEMON_UNREACHABLE, Some h0), t)
     \<and> cl_devices t = cl_devices open_client \<and> registered 3 (cl_hist t) = [5]"
proof -
  let ?E = "env\<lparr>ce_connect := (\<lambda>_ _. False)\<rparr>"
  define d where "d = the (resolveDeviceId open_client 0)"
  have d: "resolveDeviceId open_client 0 = Some d" "findContiguousWsm d 0x1010 = None" "cd_fd d = 3"
    "registered 3 (cl_hist open_client) = []"
    unfolding d_def by code_simp+
  have reg: "ce_reg_wsm ?E (cl_hist (dev_lock open_client)) 3 0x1010 64 = Some (5, 0x90000000)"
    by (simp add: sample_env_def)
  obtain r h' t where t: "mcOpenSession ?E (Some h0) (Some (replicate 16 1)) 0x1010 64 open_client = ((r, h'), t)" by (metis prod.collapse)
  have "fst (mcOpenSession ?E (Some h0) (Some (replicate 16 1)) 0x1010 64 open_client) = (MC_DRV_ERR_DAEMON_UNREACHABLE, Some h0)"
    by code_simp
  with open_session_outcome [of open_client h0 d "0x1010" 64 ?E 5 "0x90000000" "replicate 16 1" r h' t] open_client_rest d reg t
  show ?thesis by simp
qed

section \<open>Mapping and unmapping\<close>

lemma update_first_twice:
  "(\<And>x. P (g x) = P x) \<Longrightarrow> update_first P f (update_first P g xs) = update_first P (f \<circ> g) xs"
  by (induction xs) auto

lemma update_first_found: "find P xs = Some x \<Longrightarrow> f x = g x \<Longrightarrow> update_first P f xs = update_first P g xs"
  by (induction xs) (auto split: if_splits)

lemma update_first_last: "\<forall>x \<in> set xs. \<not> P x \<Longrightarrow> P y \<Longrightarrow> update_first P f (xs @ [y]) = xs @ [f y]"
  by (induction xs) auto

lemma remove_first_last: "\<forall>x \<in> set xs. \<not> P x \<Longrightarrow> P y \<Longrightarrow> remove_first P (xs @ [y]) = xs"
  by (induction xs) auto

lemma find_append_free: "\<forall>x \<in> set xs. \<not> P x \<Longrightarrow> P y \<Longrightarrow> find P (xs @ [y]) = Some y"
  by (induction xs) auto

lemma update_first_idle: "update_first P (\<lambda>x. x) xs = xs"
  by (induction xs) auto

lemma with_session_same: "cl_devices t = cl_devices s \<Longrightarrow> cl_devices (with_session k i f t) = cl_devices (with_session k i f s)"
  by (simp add: with_session_def with_device_def)

lemma with_session_twice:
  assumes "\<And>x. cs_sessionId (g x) = cs_sessionId x"
  shows "cl_devices (with_session k i f (with_session k i g s)) = cl_devices (with_session k i (f \<circ> g) s)"
  unfolding with_session_def with_device_def
  by (simp add: update_first_twice comp_def assms)

lemma with_session_found:
  assumes d: "resolveDeviceId s k = Some d" and x: "resolveSessionId d i = Some x" and f: "f x = g x"
  shows "cl_devices (with_session k i f s) = cl_devices (with_session k i g s)"
proof -
  have "update_first (\<lambda>x. cs_sessionId x = i) f (cd_sessions d) = update_first (\<lambda>x. cs_sessionId x = i) g (cd_sessions d)"
    using x f unfolding resolveSessionId_def by (rule update_first_found)
  then have "update_first (\<lambda>d. cd_deviceId d = k) (\<lambda>d. d\<lparr>cd_sessions := update_first (\<lambda>x. cs_sessionId x = i) f (cd_sessions d)\<rparr>) (cl_devices s)
      = update_first (\<lambda>d. cd_deviceId d = k) (\<lambda>d. d\<lparr>cd_sessions := update_first (\<lambda>x. cs_sessionId x = i) g (cd_sessions d)\<rparr>) (cl_devices s)"
    by (intro update_first_found [where x = d]) (use d in \<open>simp_all add: resolveDeviceId_def\<close>)
  then show ?thesis by (simp add: with_session_def with_device_def)
qed

lemma with_session_idle: "cl_devices (with_session k i (\<lambda>x. x) s) = cl_devices s"
  by (simp add: with_session_def with_device_def update_first_idle)

lemma with_session_fields [simp]: "cl_hist (with_session k i f s) = cl_hist s" "cl_live (with_session k i f s) = cl_live s"
  by (simp_all add: with_session_def with_device_def)

lemma dev_lock_fields [simp]:
  "cl_devices (dev_lock s) = cl_devices s" "cl_devices (dev_unlock s) = cl_devices s"
  "registered fd (cl_hist (dev_lock s)) = registered fd (cl_hist s)" "registered fd (cl_hist (dev_unlock s)) = registered fd (cl_hist s)"
  by (simp_all add: dev_lock_def dev_unlock_def reg_step_def)

lemma resolve_same: "cl_devices t = cl_devices s \<Longrightarrow> resolveDeviceId t k = resolveDeviceId s k"
  by (simp add: resolveDeviceId_def)

lemma and_then_InrE:
  assumes "and_then m k s = (Inr y, t)"
  obtains x u where "m s = (Inr x, u)" "k x u = (Inr y, t)"
  using assms by (auto simp: and_then_def split: prod.splits sum.splits)

lemma check_device_InrE:
  assumes "check_device k s = (Inr d, t)"
  obtains "resolveDeviceId s k = Some d" "t = s"
  using assms by (auto simp: check_device_def fail_def give_def split: option.splits)

lemma check_session_InrE:
  assumes "check_session d i s = (Inr x, t)"
  obtains "resolveSessionId d i = Some x" "t = s"
  using assms by (auto simp: check_session_def fail_def give_def split: option.splits)

lemma addBulkBuf_InrE:
  assumes "addBulkBuf E d x buf len s = (Inr b, t)"
  obtains n where "\<forall>b \<in> set (cs_bulk x). bb_virtAddr b \<noteq> buf"
    "b = \<lparr>bb_virtAddr = buf, bb_sVirtualAddr = 0, bb_len = len, bb_handle = n\<rparr>"
    "t = with_session (cd_deviceId d) (cs_sessionId x) (\<lambda>x. x\<lparr>cs_bulk := cs_bulk x @ [b]\<rparr>)
       (s\<lparr>cl_hist := cl_hist s @ [KReg (cd_fd d) buf len (Some n)]\<rparr>)"
  using assms
  by (cases "\<exists>b \<in> set (cs_bulk x). bb_virtAddr b = buf"; cases "cd_fd d = -1"; cases "ce_reg_wsm E (cl_hist s) (cd_fd d) buf len")
    (auto simp: addBulkBuf_def and_then_def mapBulkBuf_def on_hist_def mckmod_registerWsmL2_def fail_def give_def Let_def)

lemma real_errors_map:
  "real_errors (check_device k)" "real_errors (check_session d i)" "real_errors (addBulkBuf E d x buf len)"
  by (auto simp: real_errors_def check_device_def check_session_def fail_def give_def split: option.splits)
    (auto simp: addBulkBuf_def and_then_def mapBulkBuf_def on_hist_def mckmod_registerWsmL2_def fail_def give_def Let_def
      split: prod.splits sum.splits if_splits option.splits)

text \<open>A successful map: one buffer more in the session and one registration more with the kernel module.\<close>

lemma mcMap_ok:
  assumes inv: "at_rest s" and r: "mcMap E (Some h) buf len (Some i0) s = ((MC_DRV_OK, info), t)"
  obtains d x a n where "resolveDeviceId s (sh_deviceId h) = Some d" "resolveSessionId d (sh_sessionId h) = Some x"
    "\<forall>b \<in> set (cs_bulk x). bb_virtAddr b \<noteq> buf" "info = Some (a, len)"
    "cl_devices t = cl_devices (with_session (sh_deviceId h) (sh_sessionId h)
       (\<lambda>x. x\<lparr>cs_bulk := cs_bulk x @ [\<lparr>bb_virtAddr = buf, bb_sVirtualAddr = a, bb_len = len, bb_handle = n\<rparr>]\<rparr>) s)"
    "\<And>fd. registered fd (cl_hist t) = (if fd = cd_fd d then n # registered fd (cl_hist s) else registered fd (cl_hist s))"
proof -
  let ?k = "sh_deviceId h" and ?i = "sh_sessionId h" and ?s = "dev_lock s"
  let ?bb = "\<lambda>a n. \<lparr>bb_virtAddr = buf, bb_sVirtualAddr = a, bb_len = len, bb_handle = n\<rparr>"
  let ?f = "\<lambda>a x. x\<lparr>cs_bulk := update_first (\<lambda>b. bb_virtAddr b = buf) (\<lambda>b. b\<lparr>bb_sVirtualAddr := a\<rparr>) (cs_bulk x)\<rparr>"
  let ?rq = "\<lambda>x b. ReqMapBulkBuf (cs_sessionId x) (bb_handle b) 0 (bb_virtAddr b AND 0xFFF) (bb_len b)"
  let ?tail = "\<lambda>d x b r s. if r \<noteq> MC_DRV_OK
      then fail MC_DRV_ERR_DAEMON_UNREACHABLE (snd (removeBulkBuf E d (x\<lparr>cs_bulk := cs_bulk x @ [b]\<rparr>) buf s))
      else and_then (recv_variable E (cd_connection d) 8) (\<lambda>p. give (le32 p 4)) s"
  let ?m = "and_then (check_device ?k) (\<lambda>d. and_then (check_session d ?i) (\<lambda>x. and_then (addBulkBuf E d x buf len) (\<lambda>b.
      and_then (send_to_daemon E (cd_connection d) (?rq x b)) (\<lambda>_. and_then (recv_result E (cd_connection d) MC_DRV_OK) (?tail d x b)))))"
  have L: "client_inv True [] no_regs ?s" using inv by (rule dev_lock_inv)
  have "real_errors (?tail d x b r)" for d x b r
    using real_errors_variable [of E "cd_connection d" 8]
    by (auto simp: real_errors_def fail_def and_then_def give_def split: prod.splits sum.splits)
  then have errs: "real_errors ?m" by (intro real_errors_then err_intros real_errors_map)
  obtain q w where q: "?m ?s = (q, w)" by fastforce
  have "q \<noteq> Inl 0" using errs q by (auto simp: real_errors_def)
  with r q obtain v where w: "?m ?s = (Inr v, w)"
    and t: "info = Some (ucast v, len)" "t = dev_unlock (with_session ?k ?i (?f (ucast v)) w)"
    by (cases q) (auto simp: mcMap_def with_lock_def split: if_splits)
  from w obtain d where d: "resolveDeviceId ?s ?k = Some d" and w1: "and_then (check_session d ?i)
      (\<lambda>x. and_then (addBulkBuf E d x buf len) (\<lambda>b. and_then (send_to_daemon E (cd_connection d) (?rq x b))
      (\<lambda>_. and_then (recv_result E (cd_connection d) MC_DRV_OK) (?tail d x b)))) ?s = (Inr v, w)"
    by (rule and_then_InrE) (erule check_device_InrE, simp)
  from w1 obtain x where x: "resolveSessionId d ?i = Some x" and w2: "and_then (addBulkBuf E d x buf len) (\<lambda>b. and_then (send_to_daemon E (cd_connection d) (?rq x b))
      (\<lambda>_. and_then (recv_result E (cd_connection d) MC_DRV_OK) (?tail d x b))) ?s = (Inr v, w)"
    by (rule and_then_InrE) (erule check_session_InrE, simp)
  from w2 obtain b s1 where b: "addBulkBuf E d x buf len ?s = (Inr b, s1)" and w3: "and_then (send_to_daemon E (cd_connection d) (?rq x b))
      (\<lambda>_. and_then (recv_result E (cd_connection d) MC_DRV_OK) (?tail d x b)) s1 = (Inr v, w)"
    by (rule and_then_InrE)
  from w3 obtain u s2 where sd: "send_to_daemon E (cd_connection d) (?rq x b) s1 = (Inr u, s2)"
    and w4: "and_then (recv_result E (cd_connection d) MC_DRV_OK) (?tail d x b) s2 = (Inr v, w)"
    by (rule and_then_InrE)
  from w4 obtain c s3 where rc: "recv_result E (cd_connection d) MC_DRV_OK s2 = (Inr c, s3)" and w5: "?tail d x b c s3 = (Inr v, w)"
    by (rule and_then_InrE)
  from w5 have w6: "and_then (recv_variable E (cd_connection d) 8) (\<lambda>p. give (le32 p 4)) s3 = (Inr v, w)"
    by (simp add: fail_def split: if_splits)
  then obtain p where rv: "recv_variable E (cd_connection d) 8 s3 = (Inr p, w)"
    by (rule and_then_InrE) (auto simp: give_def)
  have ids: "cd_deviceId d = ?k" "cs_sessionId x = ?i"
    using inv_device(2) [OF L d] resolveSessionId_id [OF x] by simp_all
  obtain n where free: "\<forall>b \<in> set (cs_bulk x). bb_virtAddr b \<noteq> buf" and n: "b = ?bb 0 n"
    and s1: "s1 = with_session ?k ?i (\<lambda>x. x\<lparr>cs_bulk := cs_bulk x @ [?bb 0 n]\<rparr>)
        (?s\<lparr>cl_hist := cl_hist ?s @ [KReg (cd_fd d) buf len (Some n)]\<rparr>)"
    using b ids by (elim addBulkBuf_InrE) simp
  have c1: "cd_connection d \<in> set (cl_live s1)" using inv_device(3) [OF L d] s1 by simp
  have k1: "sock s1 s2" using sock_actD [OF sock_send c1 sd] .
  have c2: "cd_connection d \<in> set (cl_live s2)" using c1 k1 by (simp add: sock_def)
  have k2: "sock s2 s3" using sock_actD [OF sock_recv_result c2 rc] .
  have c3: "cd_connection d \<in> set (cl_live s3)" using c2 k2 by (simp add: sock_def)
  have "sock s3 w" using sock_actD [OF sock_recv_variable c3 rv] .
  with k1 k2 have k: "sock s1 w" by (blast intro: sock_trans)
  have d0: "resolveDeviceId s ?k = Some d" using d by (simp add: resolveDeviceId_def)
  let ?g = "\<lambda>x. x\<lparr>cs_bulk := cs_bulk x @ [?bb 0 n]\<rparr>" and ?fg = "\<lambda>x. x\<lparr>cs_bulk := cs_bulk x @ [?bb (ucast v) n]\<rparr>"
  have "cl_devices t = cl_devices (with_session ?k ?i (?f (ucast v)) s1)"
    using t(2) with_session_same [OF sockD(1) [OF k]] by simp
  also have "\<dots> = cl_devices (with_session ?k ?i (?f (ucast v)) (with_session ?k ?i ?g s))"
    unfolding s1 by (intro with_session_same) (simp add: with_session_same [of _ s])
  also have "\<dots> = cl_devices (with_session ?k ?i (?f (ucast v) \<circ> ?g) s)" by (rule with_session_twice) simp
  also have "\<dots> = cl_devices (with_session ?k ?i ?fg s)"
    using d0 x by (rule with_session_found) (simp add: update_first_last free)
  finally have D: "cl_devices t = cl_devices (with_session ?k ?i ?fg s)" .
  have "registered fd (cl_hist t) = (if fd = cd_fd d then n # registered fd (cl_hist s) else registered fd (cl_hist s))" for fd
    using t(2) sockD(8) [OF k, of fd] s1 by (simp add: reg_step_def)
  with d0 x free t(1) D show ?thesis by (rule that)
qed

text \<open>A successful unmap: the first buffer at the address is taken out and given back.\<close>

lemma mcUnmap_ok:
  assumes inv: "at_rest s" and r: "mcUnmap E (Some h) buf (Some (a, n)) s = (MC_DRV_OK, t)"
  obtains d x b where "resolveDeviceId s (sh_deviceId h) = Some d" "resolveSessionId d (sh_sessionId h) = Some x"
    "find (\<lambda>b. bb_virtAddr b = buf) (cs_bulk x) = Some b"
    "cl_devices t = cl_devices (with_session (sh_deviceId h) (sh_sessionId h)
       (\<lambda>x. x\<lparr>cs_bulk := remove_first (\<lambda>b. bb_virtAddr b = buf) (cs_bulk x)\<rparr>) s)"
    "\<And>fd. registered fd (cl_hist t)
       = (if fd = cd_fd d then remove1 (bb_handle b) (registered fd (cl_hist s)) else registered fd (cl_hist s))"
proof -
  let ?k = "sh_deviceId h" and ?i = "sh_sessionId h" and ?s = "dev_lock s"
  let ?rest = "\<lambda>d x. (let handle = getBufHandle x a n in
      if handle = 0 then fail MC_DRV_ERR_BLK_BUFF_NOT_FOUND
      else and_then (send_to_daemon E (cd_connection d) (ReqUnmapBulkBuf (cs_sessionId x) handle a n)) (\<lambda>_.
           and_then (recv_result E (cd_connection d) MC_DRV_ERR_UNKNOWN) (\<lambda>r.
           if r \<noteq> MC_DRV_OK then fail MC_DRV_ERR_DAEMON_UNREACHABLE else give (d, x))))"
  let ?m = "and_then (check_device ?k) (\<lambda>d. and_then (check_session d ?i) (?rest d))"
  have L: "client_inv True [] no_regs ?s" using inv by (rule dev_lock_inv)
  have errs: "real_errors ?m" unfolding Let_def by (intro real_errors_then err_intros real_errors_map) simp_all
  obtain q w where q: "?m ?s = (q, w)" by fastforce
  have "q \<noteq> Inl 0" using errs q by (auto simp: real_errors_def)
  with r q obtain d x v where w: "?m ?s = (Inr (d, x), w)" and v: "removeBulkBuf E d x buf w = (MC_DRV_OK, v)" "t = dev_unlock v"
    by (cases q; cases "removeBulkBuf E (fst (projr q)) (snd (projr q)) buf w")
      (auto simp: mcUnmap_def with_lock_def drop_dead_device_def split: if_splits)
  from w obtain d' where d: "resolveDeviceId ?s ?k = Some d'" and w1: "and_then (check_session d' ?i) (?rest d') ?s = (Inr (d, x), w)"
    by (rule and_then_InrE) (erule check_device_InrE, simp)
  from w1 obtain x' where x: "resolveSessionId d' ?i = Some x'" and w2: "?rest d' x' ?s = (Inr (d, x), w)"
    by (rule and_then_InrE) (erule check_session_InrE, simp)
  from w2 obtain s1 where sd: "send_to_daemon E (cd_connection d') (ReqUnmapBulkBuf (cs_sessionId x') (getBufHandle x' a n) a n) ?s = (Inr (), s1)"
    and w3: "and_then (recv_result E (cd_connection d') MC_DRV_ERR_UNKNOWN)
      (\<lambda>r. if r \<noteq> MC_DRV_OK then fail MC_DRV_ERR_DAEMON_UNREACHABLE else give (d', x')) s1 = (Inr (d, x), w)"
    by (auto simp: Let_def fail_def split: if_splits elim: and_then_InrE)
  from w3 obtain c where rc: "recv_result E (cd_connection d') MC_DRV_ERR_UNKNOWN s1 = (Inr c, w)" and dx: "d = d'" "x = x'"
    by (rule and_then_InrE) (auto simp: fail_def give_def split: if_splits)
  have ids: "cd_deviceId d = ?k" "cs_sessionId x = ?i"
    using inv_device(2) [OF L d] resolveSessionId_id [OF x] dx by simp_all
  have c0: "cd_connection d' \<in> set (cl_live ?s)" using inv_device(3) [OF L d] .
  have k1: "sock ?s s1" using sock_actD [OF sock_send c0 sd] .
  have c1: "cd_connection d' \<in> set (cl_live s1)" using c0 k1 by (simp add: sock_def)
  have k: "sock ?s w" using k1 sock_actD [OF sock_recv_result c1 rc] by (rule sock_trans)
  from v(1) obtain b where b: "find (\<lambda>b. bb_virtAddr b = buf) (cs_bulk x) = Some b"
    and v': "v = (with_session ?k ?i (\<lambda>x. x\<lparr>cs_bulk := remove_first (\<lambda>b. bb_virtAddr b = buf) (cs_bulk x)\<rparr>) w)
      \<lparr>cl_hist := cl_hist w @ [KUnreg (cd_fd d) (bb_handle b) True]\<rparr>"
    using ids by (auto simp: removeBulkBuf_def on_hist_def mckmod_unregisterWsmL2_def Let_def split: option.splits if_splits)
  have D: "cl_devices t = cl_devices (with_session ?k ?i (\<lambda>x. x\<lparr>cs_bulk := remove_first (\<lambda>b. bb_virtAddr b = buf) (cs_bulk x)\<rparr>) s)"
    unfolding v v' using with_session_same [of w s] sockD(1) [OF k] by simp
  have "registered fd (cl_hist t)
      = (if fd = cd_fd d then remove1 (bb_handle b) (registered fd (cl_hist s)) else registered fd (cl_hist s))" for fd
    unfolding v v' using sockD(8) [OF k, of fd] by (simp add: reg_step_def)
  with d x b D show ?thesis unfolding dx by (intro that [of d' x' b]) (simp_all add: resolveDeviceId_def)
qed

text \<open>
  C22: Mapping a buffer and unmapping it with what the map returned leaves no trace, whatever the daemon and
  the kernel module do besides reporting success: the devices, their sessions and the buffers listed
  there are what they were, and so are the registrations with the kernel module.
\<close>

theorem map_unmap_roundtrip:
  assumes "at_rest s" and m: "mcMap E (Some h) buf len (Some i0) s = ((MC_DRV_OK, info), t)"
    and u: "mcUnmap E' (Some h) buf info t = (MC_DRV_OK, u)"
  shows "cl_devices u = cl_devices s \<and> (\<forall>fd. registered fd (cl_hist u) = registered fd (cl_hist s))"
proof -
  let ?k = "sh_deviceId h" and ?i = "sh_sessionId h"
  let ?rm = "\<lambda>x. x\<lparr>cs_bulk := remove_first (\<lambda>b. bb_virtAddr b = buf) (cs_bulk x)\<rparr>"
  obtain d x a n where d: "resolveDeviceId s ?k = Some d" and x: "resolveSessionId d ?i = Some x"
    and free: "\<forall>b \<in> set (cs_bulk x). bb_virtAddr b \<noteq> buf" and info: "info = Some (a, len)"
    and D: "cl_devices t = cl_devices (with_session ?k ?i
       (\<lambda>x. x\<lparr>cs_bulk := cs_bulk x @ [\<lparr>bb_virtAddr = buf, bb_sVirtualAddr = a, bb_len = len, bb_handle = n\<rparr>]\<rparr>) s)"
    and R: "\<And>fd. registered fd (cl_hist t) = (if fd = cd_fd d then n # registered fd (cl_hist s) else registered fd (cl_hist s))"
    by (rule mcMap_ok [OF assms(1) m]) (rule that; assumption)
  let ?bb = "\<lparr>bb_virtAddr = buf, bb_sVirtualAddr = a, bb_len = len, bb_handle = n\<rparr>"
  let ?add = "\<lambda>x. x\<lparr>cs_bulk := cs_bulk x @ [?bb]\<rparr>"
  have t: "at_rest t" using mcMap_inv [OF assms(1), of E "Some h" buf len "Some i0"] m by simp
  obtain d' x' b where d': "resolveDeviceId t ?k = Some d'" and x': "resolveSessionId d' ?i = Some x'"
    and b: "find (\<lambda>b. bb_virtAddr b = buf) (cs_bulk x') = Some b" and U: "cl_devices u = cl_devices (with_session ?k ?i ?rm t)"
    and V: "\<And>fd. registered fd (cl_hist u)
       = (if fd = cd_fd d' then remove1 (bb_handle b) (registered fd (cl_hist t)) else registered fd (cl_hist t))"
    by (rule mcUnmap_ok [OF t u [unfolded info]]) (rule that; assumption)
  have "x' = ?add x" "cd_fd d' = cd_fd d"
    by (rule resolve_with_session [OF d x, of ?add]; use resolve_same [OF D, of ?k] d' x' in simp)+
  with b free have b': "b = ?bb" "cd_fd d' = cd_fd d" by (simp_all add: find_append_free)
  have "cl_devices u = cl_devices (with_session ?k ?i (?rm \<circ> ?add) s)"
    unfolding U using with_session_same [OF D] with_session_twice [of ?add ?k ?i ?rm s] by simp
  also have "\<dots> = cl_devices (with_session ?k ?i (\<lambda>x. x) s)"
    using d x by (rule with_session_found) (simp add: remove_first_last free)
  finally show ?thesis using R V b' by (simp add: with_session_idle)
qed

theorem map_unmap_roundtrip_witness:
  "cl_devices mapped_client \<noteq> cl_devices session_client
   \<and> cl_devices (snd (mcUnmap env (Some h0) 0x5010 (Some (0x400000, 32)) mapped_client)) = cl_devices session_client"
proof -
  have m: "mcMap env (Some h0) 0x5010 32 (Some (0, 0)) session_client = ((MC_DRV_OK, Some (0x400000, 32)), mapped_client)"
    unfolding mapped_client_def by code_simp
  have u: "fst (mcUnmap env (Some h0) 0x5010 (Some (0x400000, 32)) mapped_client) = MC_DRV_OK" by code_simp
  have "map dev_handles (cl_devices mapped_client) \<noteq> map dev_handles (cl_devices session_client)" by code_simp
  with map_unmap_roundtrip [OF session_client_rest m, of env] u show ?thesis
    by (metis prod.collapse)
qed

end
