(* ===== verification/Fsd.thy ===== *)
theory Fsd
  imports Registry ClientApi
begin

text \<open>
  The file storage daemon (\<^verbatim>\<open>Daemon/FSD/FSD.cpp\<close>): a thread of the daemon that is a client of the storage
  driver in the secure world. The driver writes a request into the buffer they share and notifies;
  the thread reads, writes or deletes one file of a trusted application and notifies back.
\<close>

section \<open>Messages and environment\<close>

abbreviation (input) TEE_SUCCESS :: u32 where "TEE_SUCCESS \<equiv> 0"
abbreviation (input) TEE_ERROR_ACCESS_CONFLICT :: u32 where "TEE_ERROR_ACCESS_CONFLICT \<equiv> 0xFFFF0003"
abbreviation (input) TEE_ERROR_ITEM_NOT_FOUND :: u32 where "TEE_ERROR_ITEM_NOT_FOUND \<equiv> 0xFFFF0008"
abbreviation (input) TEE_ERROR_STORAGE_NO_SPACE :: u32 where "TEE_ERROR_STORAGE_NO_SPACE \<equiv> 0xFFFF3041"
abbreviation (input) TEE_DATA_FLAG_EXCLUSIVE :: u16 where "TEE_DATA_FLAG_EXCLUSIVE \<equiv> 0x400"
abbreviation (input) TEE_UUID_STRING_SIZE :: nat where "TEE_UUID_STRING_SIZE \<equiv> 32"
abbreviation (input) FILENAMESIZE :: nat where "FILENAMESIZE \<equiv> 20"
abbreviation (input) DCI_BUFF_SIZE :: nat where "DCI_BUFF_SIZE \<equiv> 1024000"
abbreviation (input) CMD_ST_SYNC :: u32 where "CMD_ST_SYNC \<equiv> 5"
abbreviation (input) MC_INFINITE_TIMEOUT :: int where "MC_INFINITE_TIMEOUT \<equiv> -1"

text \<open>The payload is the rest of the buffer, 60 bytes from its start.\<close>

record STH_FSD_message_t =
  sth_status :: u32
  sth_type :: u8
  sth_flags :: u16
  sth_payloadLen :: u32
  sth_uuid :: "u8 list"
  sth_filename :: "u8 list"
  sth_payload :: "u8 list"

record dciMessage_t =
  dci_commandId :: u32
  dci_request :: STH_FSD_message_t

text \<open>
  \<open>fw_stack\<close> is the string an uninitialised array on the stack happens to hold. \<open>fw_read\<close> and \<open>fw_written\<close>
  are what \<^verbatim>\<open>fread\<close> and \<^verbatim>\<open>fwrite\<close> return of so many bytes, \<open>fw_flushed\<close> how many of the bytes written are in
  the file after \<^verbatim>\<open>fclose\<close>, which fails when some are missing.
\<close>

record fsdworld =
  fw_rg :: rgworld
  fw_stack :: "nat \<Rightarrow> string"
  fw_read :: "nat \<Rightarrow> nat \<Rightarrow> nat"
  fw_written :: "nat \<Rightarrow> nat \<Rightarrow> nat"
  fw_flushed :: "nat \<Rightarrow> nat \<Rightarrow> nat"
  fw_errno :: "nat \<Rightarrow> nat"

section \<open>Calls that only this component makes\<close>

definition open_new :: "rgworld \<Rightarrow> string \<Rightarrow> rgstate \<Rightarrow> bool \<times> rgstate" where
  "open_new W p s =
     (let (ok, s) = call W (OpenNew p) s in
      if ok \<and> is_dir s (parent p) \<and> fs_get s p = None then (True, fs_put p (File []) s) else (False, s))"

definition open_w :: "rgworld \<Rightarrow> string \<Rightarrow> rgstate \<Rightarrow> bool \<times> rgstate" where
  "open_w W p s =
     (let (ok, s) = call W (OpenWrite p) s in
      if ok \<and> is_dir s (parent p) \<and> \<not> is_dir s p then (True, fs_put p (File []) s) else (False, s))"

text \<open>Closing a file after these bytes have been written to it.\<close>

definition fclose_w :: "fsdworld \<Rightarrow> string \<Rightarrow> u8 list \<Rightarrow> rgstate \<Rightarrow> int \<times> rgstate" where
  "fclose_w W p bs s =
     (let n = min (length bs) (fw_flushed W (rg_time s) (length bs))
      in (if n < length bs then -1 else 0, fs_put p (File (take n bs)) s))"

definition rename_path :: "rgworld \<Rightarrow> string \<Rightarrow> string \<Rightarrow> rgstate \<Rightarrow> int \<times> rgstate" where
  "rename_path W old new s =
     (let (ok, s) = call W (Rename old new) s in
      case fs_get s old of
        Some (File c) \<Rightarrow> if ok \<and> \<not> is_dir s new then (0, fs_put new (File c) (fs_erase old s)) else (-1, s)
      | _ \<Rightarrow> (-1, s))"

text \<open>Copying a string into an array of \<open>cap\<close> characters.\<close>

definition put_string :: "nat \<Rightarrow> string \<Rightarrow> rgstate \<Rightarrow> rgstate" where
  "put_string cap p s = (if length p < cap then s else s\<lparr>rg_faults := (length p + 1, cap) # rg_faults s\<rparr>)"

section \<open>Names\<close>

definition FSD_HexFileName :: "u8 list \<Rightarrow> nat \<Rightarrow> string" where
  "FSD_HexFileName fn elems = byteArrayToString (take elems fn)"

text \<open>The name is appended to what is in the array.\<close>

definition FSD_CreateTaDirName :: "u8 list \<Rightarrow> string \<Rightarrow> nat \<Rightarrow> string" where
  "FSD_CreateTaDirName ta_uuid DirName elems = DirName @ byteArrayToString (take elems ta_uuid)"

definition storage_path :: "rgstate \<Rightarrow> string" where
  "storage_path s = getTlRegistryPath s @ ''/TbStorage''"

text \<open>The path of the directory of the trusted application, and the name of the file.\<close>

definition ta_dir :: "fsdworld \<Rightarrow> STH_FSD_message_t \<Rightarrow> rgstate \<Rightarrow> string \<times> string \<times> rgstate" where
  "ta_dir W m s =
     (let tbstpath = storage_path s;
          tadirname = FSD_CreateTaDirName (sth_uuid m) (fw_stack W (rg_time s)) 16;
          filename = FSD_HexFileName (sth_filename m) FILENAMESIZE;
          TAdirpath = tbstpath @ ''/'' @ tadirname;
          s = put_string (TEE_UUID_STRING_SIZE + 1) tadirname s;
          s = put_string (2 * FILENAMESIZE + 1) filename s;
          s = put_string (length tbstpath + 1 + TEE_UUID_STRING_SIZE + 1) TAdirpath s
      in (TAdirpath, filename, s))"

definition file_path :: "string \<Rightarrow> string \<Rightarrow> nat \<Rightarrow> rgstate \<Rightarrow> string \<times> rgstate" where
  "file_path TAdirpath filename tb s =
     (let Filepath = TAdirpath @ ''/'' @ filename
      in (Filepath, put_string (tb + 1 + TEE_UUID_STRING_SIZE + 1 + 2 * FILENAMESIZE + 1) Filepath s))"

section \<open>File operations\<close>

definition read_stored :: "fsdworld \<Rightarrow> STH_FSD_message_t \<Rightarrow> rgstate \<Rightarrow> u32 \<times> STH_FSD_message_t \<times> rgstate" where
  "read_stored W m s =
     (let (TAdirpath, filename, s) = ta_dir W m s;
          (Filepath, s) = file_path TAdirpath filename (length (storage_path s)) s;
          (pFile, s) = open_rb (fw_rg W) Filepath s
      in case pFile of
           None \<Rightarrow> (TEE_ERROR_ITEM_NOT_FOUND, m, s)
         | Some c \<Rightarrow>
             let n = min (length c) (unat (sth_payloadLen m));
                 res = min n (fw_read W (rg_time s) n);
                 (payload, s) = wr 0 (take res c) (sth_payload m) s
             in (if res \<noteq> unat (sth_payloadLen m) then TEE_ERROR_ITEM_NOT_FOUND else TEE_SUCCESS,
                 m\<lparr>sth_payload := payload\<rparr>, s))"

definition FSD_LookFile :: "fsdworld \<Rightarrow> STH_FSD_message_t \<Rightarrow> rgstate \<Rightarrow> u32 \<times> STH_FSD_message_t \<times> rgstate" where
  "FSD_LookFile = read_stored"

definition FSD_ReadFile :: "fsdworld \<Rightarrow> STH_FSD_message_t \<Rightarrow> rgstate \<Rightarrow> u32 \<times> STH_FSD_message_t \<times> rgstate" where
  "FSD_ReadFile = read_stored"

text \<open>The results of \<^verbatim>\<open>fclose\<close> and \<^verbatim>\<open>rename\<close> are kept in \<^verbatim>\<open>res\<close>, which is unsigned.\<close>

definition replace_file :: "fsdworld \<Rightarrow> string \<Rightarrow> string \<Rightarrow> u8 list \<Rightarrow> rgstate \<Rightarrow> u32 \<times> rgstate" where
  "replace_file W Filepath_new Filepath bs s =
     (let (ret, s) = fclose_w W Filepath_new bs s; res = (word_of_int ret :: u32) in
      if res < 0 then
        let (_, s) = remove_path (fw_rg W) Filepath s; (_, s) = remove_path (fw_rg W) Filepath_new s
        in (TEE_ERROR_STORAGE_NO_SPACE, s)
      else
        let (ret, s) = rename_path (fw_rg W) Filepath_new Filepath s; res = (word_of_int ret :: u32) in
        if res < 0 then
          let (_, s) = remove_path (fw_rg W) Filepath s; (_, s) = remove_path (fw_rg W) Filepath_new s
          in (TEE_ERROR_STORAGE_NO_SPACE, s)
        else (TEE_SUCCESS, s))"

text \<open>Writing the new file next to the old one.\<close>

definition write_new :: "fsdworld \<Rightarrow> STH_FSD_message_t \<Rightarrow> string \<Rightarrow> string \<Rightarrow> rgstate \<Rightarrow> u32 \<times> rgstate" where
  "write_new W m Filepath Filepath_new s =
     (let (ok, s) = open_w (fw_rg W) Filepath_new s
      in if \<not> ok then let (_, s) = remove_path (fw_rg W) Filepath s in (TEE_ERROR_STORAGE_NO_SPACE, s)
         else
           let n = unat (sth_payloadLen m);
               (bs, s) = rd (fw_rg W) (sth_payload m) 0 n s;
               res = min n (fw_written W (rg_time s) n)
           in if res \<noteq> n then
                let (_, s) = fclose_w W Filepath_new (take res bs) s;
                    (_, s) = remove_path (fw_rg W) Filepath s;
                    (_, s) = remove_path (fw_rg W) Filepath_new s
                in (TEE_ERROR_ITEM_NOT_FOUND, s)
              else replace_file W Filepath_new Filepath bs s)"

definition FSD_WriteFile :: "fsdworld \<Rightarrow> STH_FSD_message_t \<Rightarrow> rgstate \<Rightarrow> u32 \<times> rgstate" where
  "FSD_WriteFile W m s =
     (let tb = length (storage_path s);
          (TAdirpath, filename, s) = ta_dir W m s;
          eexist = (fs_get s TAdirpath \<noteq> None);
          (ok, s) = mkdir_path (fw_rg W) TAdirpath s
      in if \<not> ok \<and> \<not> eexist then (TEE_ERROR_STORAGE_NO_SPACE, s)
         else
           let (Filepath, s) = file_path TAdirpath filename tb s;
               Filepath_new = Filepath @ ''.new'';
               s = put_string (tb + TEE_UUID_STRING_SIZE + 2 * FILENAMESIZE + 4 + 1) Filepath_new s;
               exclusive = (sth_flags m = TEE_DATA_FLAG_EXCLUSIVE);
               (ok, s) = (if exclusive then open_new (fw_rg W) Filepath s else (True, s))
           in if exclusive \<and> \<not> ok then (TEE_ERROR_ACCESS_CONFLICT, s) else write_new W m Filepath Filepath_new s)"

text \<open>The result of removing the file is overwritten by that of \<^verbatim>\<open>rmdir\<close>.\<close>

definition FSD_DeleteFile :: "fsdworld \<Rightarrow> STH_FSD_message_t \<Rightarrow> rgstate \<Rightarrow> u32 \<times> rgstate" where
  "FSD_DeleteFile W m s =
     (let tb = length (storage_path s);
          (TAdirpath, filename, s) = ta_dir W m s;
          (Filepath, s) = file_path TAdirpath filename tb s;
          (pFile, s) = open_rb (fw_rg W) Filepath s;
          (res, s) = (case pFile of
              None \<Rightarrow> (TEE_SUCCESS, s)
            | Some _ \<Rightarrow> let (ok, s) = remove_path (fw_rg W) Filepath s in (if ok then 0 else TEE_ERROR_STORAGE_NO_SPACE, s));
          (ok, s) = rmdir_path (fw_rg W) TAdirpath s;
          res = (word_of_int (if ok then 0 else -1) :: u32);
          errno = fw_errno W (rg_time s)
      in (if res < 0 \<and> errno \<noteq> 39 \<and> errno \<noteq> 17 \<and> errno \<noteq> 2 then TEE_ERROR_STORAGE_NO_SPACE else TEE_SUCCESS, s))"

definition FSD_ExecuteCommand :: "fsdworld \<Rightarrow> STH_FSD_message_t \<Rightarrow> rgstate \<Rightarrow> STH_FSD_message_t \<times> rgstate" where
  "FSD_ExecuteCommand W m s =
     (if sth_type m = 0 then let (r, m, s) = FSD_LookFile W m s in (m\<lparr>sth_status := r\<rparr>, s)
      else if sth_type m = 1 then let (r, m, s) = FSD_ReadFile W m s in (m\<lparr>sth_status := r\<rparr>, s)
      else if sth_type m = 2 then let (r, s) = FSD_WriteFile W m s in (m\<lparr>sth_status := r\<rparr>, s)
      else if sth_type m = 3 then let (r, s) = FSD_DeleteFile W m s in (m\<lparr>sth_status := r\<rparr>, s)
      else (m, s))"

section \<open>The thread\<close>

text \<open>
  \<open>fe_addr\<close> is where the buffer is allocated, if it is; \<open>fe_dci\<close> what the storage driver leaves in it
  while the thread waits.
\<close>

record fsdenv =
  fe_client :: client_env
  fe_disk :: fsdworld
  fe_addr :: "u64 option"
  fe_dci :: "cev list \<Rightarrow> dciMessage_t \<Rightarrow> dciMessage_t"

record FSD =
  fs_session :: mcSessionHandle_t
  fs_dci :: "dciMessage_t option"
  fs_files :: rgstate
  fs_client :: client
  fs_null :: bool

definition DRV_STH_UUID :: mcUuid_t where
  "DRV_STH_UUID = [7, 5, 5, 0, 0, 0, 0, 0, 0, 0, 0, 0, 0, 0, 0, 0]"

definition no_session :: mcSessionHandle_t where
  "no_session = \<lparr>sh_sessionId = 0, sh_deviceId = 0\<rparr>"

definition blank_dci :: dciMessage_t where
  "blank_dci = \<lparr>dci_commandId = 0, dci_request = \<lparr>sth_status = 0, sth_type = 0, sth_flags = 0, sth_payloadLen = 0,
     sth_uuid = replicate 16 0, sth_filename = replicate 20 0, sth_payload = replicate (DCI_BUFF_SIZE - 60) 0\<rparr>\<rparr>"

text \<open>The constructor.\<close>

definition new_FSD :: "rgstate \<Rightarrow> client \<Rightarrow> FSD" where
  "new_FSD s c = \<lparr>fs_session = no_session, fs_dci = None, fs_files = s, fs_client = c, fs_null = False\<rparr>"

definition fsd_wait :: "fsdenv \<Rightarrow> FSD \<Rightarrow> (u32 \<times> FSD) option" where
  "fsd_wait E f =
     (case mcWaitNotification (fe_client E) (Some (fs_session f)) MC_INFINITE_TIMEOUT (fs_client f) of
        None \<Rightarrow> None
      | Some (r, c) \<Rightarrow> Some (r, f\<lparr>fs_client := c, fs_dci := map_option (fe_dci E (cl_hist c)) (fs_dci f)\<rparr>))"

definition fsd_notify :: "fsdenv \<Rightarrow> FSD \<Rightarrow> u32 \<times> FSD" where
  "fsd_notify E f = (let (r, c) = mcNotify (fe_client E) (Some (fs_session f)) (fs_client f) in (r, f\<lparr>fs_client := c\<rparr>))"

text \<open>The labels at the end of \<^verbatim>\<open>FSD_Open\<close>.\<close>

definition fsd_error :: "u32 \<Rightarrow> FSD \<Rightarrow> u32 \<times> FSD" where
  "fsd_error r f = (r, f\<lparr>fs_dci := None\<rparr>)"

definition fsd_close_device :: "fsdenv \<Rightarrow> u32 \<Rightarrow> FSD \<Rightarrow> u32 \<times> FSD" where
  "fsd_close_device E r f = fsd_error r (f\<lparr>fs_client := snd (mcCloseDevice (fe_client E) MC_DEVICE_ID_DEFAULT (fs_client f))\<rparr>)"

definition fsd_close_session :: "fsdenv \<Rightarrow> u32 \<Rightarrow> FSD \<Rightarrow> u32 \<times> FSD" where
  "fsd_close_session E r f =
     fsd_close_device E r (f\<lparr>fs_client := snd (mcCloseSession (fe_client E) (Some (fs_session f)) (fs_client f))\<rparr>)"

definition fsd_sync :: "fsdenv \<Rightarrow> FSD \<Rightarrow> (u32 \<times> FSD) option" where
  "fsd_sync E f =
     (case fsd_wait E f of
        None \<Rightarrow> None
      | Some (r, f) \<Rightarrow>
          if r \<noteq> MC_DRV_OK then Some (fsd_close_session E r f)
          else
            let f = f\<lparr>fs_dci := map_option (\<lambda>m. m\<lparr>dci_commandId := CMD_ST_SYNC\<rparr>) (fs_dci f)\<rparr>; (r, f) = fsd_notify E f in
            if r \<noteq> MC_DRV_OK then Some (fsd_close_session E r f)
            else case fsd_wait E f of
                   None \<Rightarrow> None
                 | Some (r, f) \<Rightarrow>
                     if r \<noteq> MC_DRV_OK then Some (fsd_close_session E r f)
                     else let (r, f) = fsd_notify E f in
                          Some (if r \<noteq> MC_DRV_OK then fsd_close_session E r f else (r, f)))"

definition FSD_Open :: "fsdenv \<Rightarrow> FSD \<Rightarrow> (u32 \<times> FSD) option" where
  "FSD_Open E f =
     (let f = f\<lparr>fs_session := no_session\<rparr> in
      case fe_addr E of
        None \<Rightarrow> Some (MC_DRV_ERR_NO_FREE_MEMORY, f\<lparr>fs_dci := None\<rparr>)
      | Some dci \<Rightarrow>
          let f = f\<lparr>fs_dci := Some blank_dci\<rparr>;
              (r, c) = mcOpenDevice (fe_client E) MC_DEVICE_ID_DEFAULT (fs_client f); f = f\<lparr>fs_client := c\<rparr> in
          if r \<noteq> MC_DRV_OK then Some (fsd_error r f)
          else
            let f = f\<lparr>fs_session := (fs_session f)\<lparr>sh_deviceId := MC_DEVICE_ID_DEFAULT\<rparr>\<rparr>;
                ((r, h), c) = mcOpenSession (fe_client E) (Some (fs_session f)) (Some DRV_STH_UUID) dci 1024000 (fs_client f);
                f = f\<lparr>fs_client := c, fs_session := (case h of None \<Rightarrow> fs_session f | Some h \<Rightarrow> h)\<rparr>
            in if r \<noteq> MC_DRV_OK then Some (fsd_close_device E r f) else fsd_sync E f)"

text \<open>\<open>fs_null\<close>: the buffer is cleared through a null pointer.\<close>

definition FSD_Close :: "fsdenv \<Rightarrow> FSD \<Rightarrow> u32 \<times> FSD" where
  "FSD_Close E f =
     (let f = (if fs_dci f = None then f\<lparr>fs_null := True\<rparr> else f);
          (_, c) = mcCloseSession (fe_client E) (Some (fs_session f)) (fs_client f);
          f = f\<lparr>fs_dci := None, fs_session := no_session\<rparr>;
          (r, c) = mcCloseDevice (fe_client E) MC_DEVICE_ID_DEFAULT c
      in (r, f\<lparr>fs_client := c\<rparr>))"

definition fsd_execute :: "fsdenv \<Rightarrow> FSD \<Rightarrow> FSD" where
  "fsd_execute E f =
     (case fs_dci f of
        None \<Rightarrow> f\<lparr>fs_null := True\<rparr>
      | Some d \<Rightarrow>
          let (m, s) = FSD_ExecuteCommand (fe_disk E) (dci_request d) (fs_files f)
          in f\<lparr>fs_dci := Some (d\<lparr>dci_request := m\<rparr>), fs_files := s\<rparr>)"

text \<open>The loop is left when waiting or notifying fails; \<open>None\<close> when it is not.\<close>

partial_function (option) FSD_listenDci :: "fsdenv \<Rightarrow> FSD \<Rightarrow> FSD option" where
  "FSD_listenDci E f =
     (case fsd_wait E f of
        None \<Rightarrow> None
      | Some (r, f) \<Rightarrow>
          if r \<noteq> MC_DRV_OK then Some f
          else let (r, f) = fsd_notify E (fsd_execute E f) in
               if r \<noteq> MC_DRV_OK then Some f else FSD_listenDci E f)"

text \<open>The thread, from the moment it has been told to start.\<close>

definition FSD_run :: "fsdenv \<Rightarrow> FSD \<Rightarrow> FSD option" where
  "FSD_run E f =
     (let tbstpath = storage_path (fs_files f);
          f = (if fs_get (fs_files f) tbstpath = None
               then f\<lparr>fs_files := snd (mkdir_path (fw_rg (fe_disk E)) tbstpath (fs_files f))\<rparr> else f)
      in case FSD_Open E f of
           None \<Rightarrow> None
         | Some (r, f) \<Rightarrow> if r \<noteq> MC_DRV_OK then Some f else FSD_listenDci E f)"

end
