(* ===== verification/FsdLaws.thy ===== *)
theory FsdLaws
  imports Fsd RegistryLaws ClientApiLaws
begin

text \<open>
  What the storage driver can rely on, and what it cannot: each file of a trusted application is one
  entry of a map, requests of one application leave the files of the others alone; but errors of the
  file system are reported as success, and an array is too short by two characters.
\<close>

section \<open>Paths\<close>

type_synonym stored_key = "u8 list \<times> u8 list"

definition key_of :: "STH_FSD_message_t \<Rightarrow> stored_key" where
  "key_of m = (sth_uuid m, sth_filename m)"

definition valid_key :: "stored_key \<Rightarrow> bool" where
  "valid_key k \<longleftrightarrow> length (fst k) = 16 \<and> length (snd k) = 20"

definition dir_of :: "rgstate \<Rightarrow> u8 list \<Rightarrow> string" where
  "dir_of s u = storage_path s @ ''/'' @ byteArrayToString u"

definition path_of :: "rgstate \<Rightarrow> stored_key \<Rightarrow> string" where
  "path_of s k = dir_of s (fst k) @ ''/'' @ byteArrayToString (snd k)"

definition stored :: "rgstate \<Rightarrow> stored_key \<Rightarrow> u8 list option" where
  "stored s k = (if valid_key k then case fs_get s (path_of s k) of Some (File c) \<Rightarrow> Some c | _ \<Rightarrow> None else None)"

text \<open>The uninitialised array happens to start with a zero.\<close>

definition clean_stack :: "fsdworld \<Rightarrow> bool" where
  "clean_stack W \<longleftrightarrow> (\<forall>t. fw_stack W t = '''')"

lemma length_byteArrayToString [simp]: "length (byteArrayToString b) = 2 * length b"
  by (induction b) (simp_all add: byteArrayToString_def)

lemma depth_storage: "5 \<le> depth (dir_of s u)" "depth (path_of s k) = depth (dir_of s (fst k)) + 1"
  "depth (path_of s k @ ''.new'') = depth (dir_of s (fst k)) + 1"
proof -
  have d: "depth ''/TbStorage'' = 1" "depth ''/'' = 1" "depth ''.new'' = 0" by (simp_all add: depth_def slash_def)
  show "depth (path_of s k) = depth (dir_of s (fst k)) + 1" "depth (path_of s k @ ''.new'') = depth (dir_of s (fst k)) + 1"
    by (simp_all add: path_of_def d depth_paths del: append_Cons append_assoc)
  show "5 \<le> depth (dir_of s u)"
    using depth_tlregistry [of s] by (simp add: dir_of_def storage_path_def d depth_paths del: append_Cons append_assoc)
qed

lemma path_differs:
  assumes "valid_key k" "valid_key l" "k \<noteq> l"
  shows "path_of s k \<noteq> path_of s l"
proof
  assume "path_of s k = path_of s l"
  then have "byteArrayToString (fst k) @ ''/'' @ byteArrayToString (snd k) = byteArrayToString (fst l) @ ''/'' @ byteArrayToString (snd l)"
    by (simp add: path_of_def dir_of_def)
  with assms(1,2) have "byteArrayToString (fst k) = byteArrayToString (fst l)" "byteArrayToString (snd k) = byteArrayToString (snd l)"
    by (simp_all add: append_eq_append_conv valid_key_def)
  with assms(3) show False by (simp add: byteArrayToString_inj prod_eq_iff)
qed

lemma new_differs:
  assumes "valid_key k" "valid_key l"
  shows "path_of s k @ ''.new'' \<noteq> path_of s l"
proof
  assume "path_of s k @ ''.new'' = path_of s l"
  then have "length (path_of s k @ ''.new'') = length (path_of s l)" by simp
  with assms show False by (simp add: path_of_def dir_of_def valid_key_def)
qed

lemma dir_differs: "path_of s k \<noteq> dir_of s u"
proof
  assume "path_of s k = dir_of s u"
  then have "length (path_of s k) = length (dir_of s u)" by simp
  moreover have "depth (path_of s k) \<noteq> depth (dir_of s u)"
    by (simp add: path_of_def dir_of_def depth_paths depth_literals del: append_Cons append_assoc)
  ultimately show False using \<open>path_of s k = dir_of s u\<close> by simp
qed

text \<open>The directories a request may change are its own.\<close>

definition own_paths :: "rgstate \<Rightarrow> stored_key \<Rightarrow> string set" where
  "own_paths s k = {dir_of s (fst k), path_of s k, path_of s k @ ''.new''}"

lemma own_paths_deep: "p \<in> own_paths s k \<Longrightarrow> 5 \<le> depth p"
  using depth_storage(2,3) [of s k] depth_storage(1) [of s "fst k"] by (auto simp: own_paths_def)

definition only :: "string set \<Rightarrow> rgstate \<Rightarrow> rgstate \<Rightarrow> bool" where
  "only P s t \<longleftrightarrow> (\<forall>q. q \<notin> P \<longrightarrow> fs_get t q = fs_get s q)"

named_theorems only_intros

lemma only_refl [intro, simp]: "only P s s" by (simp add: only_def)
lemma only_trans [trans]: "only P s t \<Longrightarrow> only P t u \<Longrightarrow> only P s u" by (simp add: only_def)

lemma only_storage:
  assumes "only (own_paths s k) s t"
  shows "storage_path t = storage_path s" "dir_of t = dir_of s" "path_of t = path_of s" "own_paths t = own_paths s"
proof -
  have "q \<notin> own_paths s k" if "depth q = 3" for q using own_paths_deep that by fastforce
  moreover have "depth MC_REGISTRY_DEFAULT_PATH = 3" "depth MC_REGISTRY_FALLBACK_PATH = 3"
    by (simp_all add: depth_def slash_def MC_REGISTRY_DEFAULT_PATH_def MC_REGISTRY_FALLBACK_PATH_def)
  ultimately show s: "storage_path t = storage_path s"
    using assms by (simp add: storage_path_def getTlRegistryPath_def is_dir_def only_def)
  show d: "dir_of t = dir_of s" by (simp add: fun_eq_iff dir_of_def s)
  show p: "path_of t = path_of s" by (simp add: fun_eq_iff path_of_def d)
  show "own_paths t = own_paths s" by (simp add: fun_eq_iff own_paths_def d p)
qed

lemma only_stored:
  assumes "only (own_paths s k) s t" "valid_key k" "l \<noteq> k"
  shows "stored t l = stored s l"
proof (cases "valid_key l")
  case l: True
  have "path_of s l \<notin> own_paths s k"
    using path_differs [OF l assms(2,3), of s] new_differs [OF assms(2) l, of s] dir_differs [of s l "fst k"]
    by (simp add: own_paths_def)
  with assms(1) show ?thesis by (simp add: stored_def only_storage(3) only_def)
qed (simp add: stored_def)


section \<open>What the calls change\<close>

lemma only_calls [only_intros]:
  "only P s (snd (open_rb W p s))"
  "p \<in> P \<Longrightarrow> only P s (snd (open_new W p s))"
  "p \<in> P \<Longrightarrow> only P s (snd (open_w W p s))"
  "p \<in> P \<Longrightarrow> only P s (snd (fclose_w F p bs s))"
  "p \<in> P \<Longrightarrow> p' \<in> P \<Longrightarrow> only P s (snd (rename_path W p p' s))"
  "p \<in> P \<Longrightarrow> only P s (snd (remove_path W p s))"
  "p \<in> P \<Longrightarrow> only P s (snd (rmdir_path W p s))"
  "p \<in> P \<Longrightarrow> only P s (snd (mkdir_path W p s))"
  "only P s (put_string cap str s)"
  "only P s (snd (rd W buf off n s))"
  "only P s (snd (wr off bs buf s))"
  by (auto simp: only_def open_rb_def open_new_def open_w_def fclose_w_def rename_path_def remove_path_def rmdir_path_def
      mkdir_path_def put_string_def rd_def wr_def Let_def split_beta call_def fs_get_def fs_put_def fs_erase_def
      tree.find_put tree.find_erase split: option.splits node.splits)

lemma faults_calls [simp]:
  "rg_faults (snd (open_rb W p s)) = rg_faults s"
  "rg_faults (snd (open_new W p s)) = rg_faults s"
  "rg_faults (snd (open_w W p s)) = rg_faults s"
  "rg_faults (snd (fclose_w F p bs s)) = rg_faults s"
  "rg_faults (snd (rename_path W p p' s)) = rg_faults s"
  "rg_faults (snd (remove_path W p s)) = rg_faults s"
  "rg_faults (snd (rmdir_path W p s)) = rg_faults s"
  "rg_faults (snd (mkdir_path W p s)) = rg_faults s"
  by (auto simp: open_rb_def open_new_def open_w_def fclose_w_def rename_path_def remove_path_def rmdir_path_def
      mkdir_path_def Let_def split_beta call_def fs_put_def fs_erase_def split: option.splits node.splits)

text \<open>With a clean stack the names are the intended ones, and only the name of the new file is too long.\<close>

lemma names:
  assumes "clean_stack W" "valid_key (key_of m)"
  shows "ta_dir W m s = (dir_of s (sth_uuid m), byteArrayToString (sth_filename m), s)"
    "tb = length (storage_path s) \<Longrightarrow> file_path (dir_of s (sth_uuid m)) (byteArrayToString (sth_filename m)) tb t = (path_of s (key_of m), t)"
  using assms
  by (simp_all add: ta_dir_def file_path_def clean_stack_def valid_key_def key_of_def FSD_CreateTaDirName_def FSD_HexFileName_def
      put_string_def Let_def dir_of_def path_of_def)

lemma new_name:
  assumes "valid_key k"
  shows "put_string (length (storage_path s) + 32 + 2 * 20 + 4 + 1) (path_of s k @ ''.new'') t
    = t\<lparr>rg_faults := (length (storage_path s) + 79, length (storage_path s) + 77) # rg_faults t\<rparr>"
  using assms by (simp add: put_string_def path_of_def dir_of_def valid_key_def)

lemma uint_never_negative [simp]: "\<not> (w :: u32) < 0"
  by simp

lemma replace_file_eq:
  "replace_file W new old bs s = (TEE_SUCCESS, snd (rename_path (fw_rg W) new old (snd (fclose_w W new bs s))))"
  by (simp add: replace_file_def Let_def split_beta)

lemma only_next [only_intros]:
  "only P s t \<Longrightarrow> only P s (snd (open_rb W p t))"
  "only P s t \<Longrightarrow> p \<in> P \<Longrightarrow> only P s (snd (open_new W p t))"
  "only P s t \<Longrightarrow> p \<in> P \<Longrightarrow> only P s (snd (open_w W p t))"
  "only P s t \<Longrightarrow> p \<in> P \<Longrightarrow> only P s (snd (fclose_w F p bs t))"
  "only P s t \<Longrightarrow> p \<in> P \<Longrightarrow> p' \<in> P \<Longrightarrow> only P s (snd (rename_path W p p' t))"
  "only P s t \<Longrightarrow> p \<in> P \<Longrightarrow> only P s (snd (remove_path W p t))"
  "only P s t \<Longrightarrow> p \<in> P \<Longrightarrow> only P s (snd (rmdir_path W p t))"
  "only P s t \<Longrightarrow> p \<in> P \<Longrightarrow> only P s (snd (mkdir_path W p t))"
  "only P s t \<Longrightarrow> only P s (put_string cap str t)"
  "only P s t \<Longrightarrow> only P s (snd (rd W buf off n t))"
  "only P s t \<Longrightarrow> only P s (snd (wr off bs buf t))"
  by (erule only_trans, rule only_calls; assumption)+

lemma write_new_only [only_intros]:
  "only P s t \<Longrightarrow> p \<in> P \<Longrightarrow> p' \<in> P \<Longrightarrow> only P s (snd (write_new W m p p' t))"
  unfolding write_new_def Let_def split_beta replace_file_eq by (simp add: only_intros)

text \<open>A write request after its names have been made.\<close>

lemma write_file_eq:
  fixes s :: rgstate
  assumes "clean_stack W" "valid_key (key_of m)"
  defines "p \<equiv> path_of s (key_of m)" and "d \<equiv> mkdir_path (fw_rg W) (dir_of s (sth_uuid m)) s"
  defines "u \<equiv> (snd d)\<lparr>rg_faults := (length (storage_path s) + 79, length (storage_path s) + 77) # rg_faults s\<rparr>"
  shows "FSD_WriteFile W m s =
    (if \<not> fst d \<and> fs_get s (dir_of s (sth_uuid m)) = None then (TEE_ERROR_STORAGE_NO_SPACE, snd d)
     else if sth_flags m = TEE_DATA_FLAG_EXCLUSIVE then
       (if fst (open_new (fw_rg W) p u) then write_new W m p (p @ ''.new'') (snd (open_new (fw_rg W) p u))
        else (TEE_ERROR_ACCESS_CONFLICT, snd (open_new (fw_rg W) p u)))
     else write_new W m p (p @ ''.new'') u)"
  unfolding FSD_WriteFile_def names(1) [OF assms(1,2)] Let_def split_beta fst_conv snd_conv
    names(2) [OF assms(1,2) refl] new_name [OF assms(2)]
  by (simp add: p_def d_def u_def)

lemma write_only:
  assumes "clean_stack W" "valid_key (key_of m)"
  shows "only (own_paths s (key_of m)) s (snd (FSD_WriteFile W m s))"
proof -
  have P: "dir_of s (sth_uuid m) \<in> own_paths s (key_of m)" "path_of s (key_of m) \<in> own_paths s (key_of m)"
    "path_of s (key_of m) @ ''.new'' \<in> own_paths s (key_of m)"
    by (simp_all add: own_paths_def key_of_def)
  have "only Q s (t\<lparr>rg_faults := x\<rparr>) = only Q s t" for Q t x by (simp add: only_def)
  then show ?thesis unfolding write_file_eq [OF assms] by (simp add: only_intros P)
qed

lemma delete_only:
  assumes "clean_stack W" "valid_key (key_of m)"
  shows "only (own_paths s (key_of m)) s (snd (FSD_DeleteFile W m s))" "fst (FSD_DeleteFile W m s) = TEE_SUCCESS"
    "rg_faults (snd (FSD_DeleteFile W m s)) = rg_faults s"
proof -
  have P: "dir_of s (sth_uuid m) \<in> own_paths s (key_of m)" "path_of s (key_of m) \<in> own_paths s (key_of m)"
    by (simp_all add: own_paths_def key_of_def)
  show "only (own_paths s (key_of m)) s (snd (FSD_DeleteFile W m s))"
    unfolding FSD_DeleteFile_def names(1) [OF assms] Let_def split_beta fst_conv snd_conv names(2) [OF assms refl]
    by (simp add: only_intros P split: option.split)
  show "rg_faults (snd (FSD_DeleteFile W m s)) = rg_faults s"
    unfolding FSD_DeleteFile_def names(1) [OF assms] Let_def split_beta fst_conv snd_conv names(2) [OF assms refl]
    by (simp split: option.split)
  show "fst (FSD_DeleteFile W m s) = TEE_SUCCESS" by (simp add: FSD_DeleteFile_def Let_def split_beta)
qed

section \<open>Requests\<close>

text \<open>
  A disk that keeps what it has taken: all bytes are in the file when it is closed, and files can be
  renamed.
\<close>

definition sound_disk :: "fsdworld \<Rightarrow> bool" where
  "sound_disk W \<longleftrightarrow> (\<forall>t n. n \<le> fw_flushed W t n) \<and> (\<forall>t p q. \<not> rg_deny (fw_rg W) t (Rename p q))"

lemma fst_rd: "n \<le> length buf \<Longrightarrow> fst (rd W buf 0 n s) = take n buf"
  by (auto simp: rd_def intro: nth_equalityI)

lemma write_new_success:
  assumes "fst (write_new W m p q s) = TEE_SUCCESS"
  obtains u bs where "snd (write_new W m p q s) = snd (rename_path (fw_rg W) q p (snd (fclose_w W q bs u)))"
    "fs_get u = (fs_get s)(q \<mapsto> File [])" "unat (sth_payloadLen m) \<le> length (sth_payload m) \<Longrightarrow> bs = take (unat (sth_payloadLen m)) (sth_payload m)"
proof -
  let ?u = "snd (rd (fw_rg W) (sth_payload m) 0 (unat (sth_payloadLen m)) (snd (open_w (fw_rg W) q s)))"
    and ?bs = "fst (rd (fw_rg W) (sth_payload m) 0 (unat (sth_payloadLen m)) (snd (open_w (fw_rg W) q s)))"
  have ok: "fst (open_w (fw_rg W) q s)"
    "snd (write_new W m p q s) = snd (rename_path (fw_rg W) q p (snd (fclose_w W q ?bs ?u)))"
    using assms by (auto simp: write_new_def Let_def split_beta replace_file_eq split: if_splits)
  have "fs_get (snd (open_w (fw_rg W) q s)) = (fs_get s)(q \<mapsto> File [])"
    using ok(1) by (auto simp: open_w_def call_def Let_def fun_eq_iff split: if_splits)
  then have "fs_get ?u = (fs_get s)(q \<mapsto> File [])" by (simp add: rd_def fun_eq_iff)
  from that [OF ok(2) this] show ?thesis by (simp add: fst_rd)
qed

lemma write_new_stores:
  assumes "sound_disk W" "fst (write_new W m p q s) = TEE_SUCCESS" "\<not> is_dir s p" "p \<noteq> q"
    and "unat (sth_payloadLen m) \<le> length (sth_payload m)"
  shows "fs_get (snd (write_new W m p q s)) p = Some (File (take (unat (sth_payloadLen m)) (sth_payload m)))"
proof -
  from assms(2) obtain u where t: "snd (write_new W m p q s) = snd (rename_path (fw_rg W) q p
      (snd (fclose_w W q (take (unat (sth_payloadLen m)) (sth_payload m)) u)))" and u: "fs_get u = (fs_get s)(q \<mapsto> File [])"
    using assms(5) by (elim write_new_success) simp
  have "\<not> is_dir u p" using assms(3,4) u by (simp add: is_dir_def)
  then show ?thesis using assms(1,4) unfolding t
    by (auto simp: rename_path_def fclose_w_def sound_disk_def call_def Let_def is_dir_def min_absorb1 min_absorb2 [OF assms(5)])
qed

text \<open>When a file cannot be renamed, the write is a success that changes nothing.\<close>

lemma write_new_lost:
  assumes "\<And>t. rg_deny (fw_rg W) t (Rename q p)" "fst (write_new W m p q s) = TEE_SUCCESS" "p \<noteq> q"
  shows "fs_get (snd (write_new W m p q s)) p = fs_get s p"
proof -
  from assms(2) obtain u bs where t: "snd (write_new W m p q s) = snd (rename_path (fw_rg W) q p (snd (fclose_w W q bs u)))"
      and u: "fs_get u = (fs_get s)(q \<mapsto> File [])"
    by (elim write_new_success)
  show ?thesis using assms(1,3) u unfolding t
    by (auto simp: rename_path_def fclose_w_def call_def Let_def split: option.splits node.splits)
qed

lemma new_name_differs: "path_of s k \<noteq> path_of s k @ ''.new''" by simp

lemma mkdir_elsewhere: "p \<noteq> d \<Longrightarrow> fs_get (snd (mkdir_path W d s)) p = fs_get s p"
  by (auto simp: mkdir_path_def call_def Let_def)

lemma open_new_file: "fst (open_new W p s) \<Longrightarrow> \<not> is_dir (snd (open_new W p s)) p"
  by (auto simp: open_new_def is_dir_def call_def Let_def split: if_splits)

lemma write_stored:
  assumes "clean_stack W" "valid_key (key_of m)" "sound_disk W" "fst (FSD_WriteFile W m s) = TEE_SUCCESS"
    and "\<not> is_dir s (path_of s (key_of m))" "unat (sth_payloadLen m) \<le> length (sth_payload m)"
  shows "stored (snd (FSD_WriteFile W m s)) (key_of m) = Some (take (unat (sth_payloadLen m)) (sth_payload m))"
proof -
  let ?p = "path_of s (key_of m)" and ?t = "snd (FSD_WriteFile W m s)"
  define u where "u = (snd (mkdir_path (fw_rg W) (dir_of s (sth_uuid m)) s))
      \<lparr>rg_faults := (length (storage_path s) + 79, length (storage_path s) + 77) # rg_faults s\<rparr>"
  have u: "\<not> is_dir u ?p" using assms(5) mkdir_elsewhere [OF dir_differs] by (simp add: u_def is_dir_def)
  have "fs_get ?t ?p = Some (File (take (unat (sth_payloadLen m)) (sth_payload m)))"
    using assms(4) write_new_stores [OF assms(3) _ _ new_name_differs assms(6)] u open_new_file
    unfolding write_file_eq [OF assms(1,2)] u_def [symmetric] by (auto split: if_splits)
  then show ?thesis by (simp add: stored_def assms(2) only_storage(3) [OF write_only [OF assms(1,2)]])
qed

lemma write_lost:
  assumes "clean_stack W" "valid_key (key_of m)" "\<And>t p q. rg_deny (fw_rg W) t (Rename p q)"
    and "fst (FSD_WriteFile W m s) = TEE_SUCCESS" "sth_flags m \<noteq> TEE_DATA_FLAG_EXCLUSIVE"
  shows "stored (snd (FSD_WriteFile W m s)) (key_of m) = stored s (key_of m)"
proof -
  let ?p = "path_of s (key_of m)" and ?t = "snd (FSD_WriteFile W m s)"
  have "fs_get ?t ?p = fs_get s ?p"
    using assms(4,5) write_new_lost [OF assms(3) _ new_name_differs] mkdir_elsewhere [OF dir_differs]
    unfolding write_file_eq [OF assms(1,2)] by (simp split: if_splits)
  then show ?thesis by (simp add: stored_def assms(2) only_storage(3) [OF write_only [OF assms(1,2)]])
qed

lemma read_stored_spec:
  assumes "clean_stack W" "valid_key (key_of m)" "read_stored W m s = (r, m', t)"
  shows "fs_get t = fs_get s" "stored t = stored s"
    "r = TEE_SUCCESS \<Longrightarrow> \<exists>c. stored s (key_of m) = Some c \<and> unat (sth_payloadLen m) \<le> length c \<and>
       (unat (sth_payloadLen m) \<le> length (sth_payload m) \<longrightarrow> take (unat (sth_payloadLen m)) (sth_payload m') = take (unat (sth_payloadLen m)) c)"
    "unat (sth_payloadLen m) \<le> length (sth_payload m) \<Longrightarrow> rg_faults t = rg_faults s"
proof -
  let ?n = "unat (sth_payloadLen m)" and ?p = "path_of s (key_of m)"
  obtain f u where f: "open_rb (fw_rg W) ?p s = (f, u)" by fastforce
  note F = open_rb_spec [OF f]
  have rs: "read_stored W m s = (case f of None \<Rightarrow> (TEE_ERROR_ITEM_NOT_FOUND, m, u)
      | Some c \<Rightarrow> let n = min (length c) ?n; res = min n (fw_read W (rg_time u) n);
             (payload, s) = wr 0 (take res c) (sth_payload m) u
         in (if res \<noteq> ?n then TEE_ERROR_ITEM_NOT_FOUND else TEE_SUCCESS, m\<lparr>sth_payload := payload\<rparr>, s))"
    unfolding read_stored_def names(1) [OF assms(1,2)] Let_def prod.case names(2) [OF assms(1,2) refl] f ..
  show g: "fs_get t = fs_get s" using assms(3) F(1) unfolding rs by (auto simp: wr_def Let_def fun_eq_iff split: option.splits if_splits)
  then have "storage_path t = storage_path s" by (simp add: storage_path_def getTlRegistryPath_def is_dir_def)
  then show "stored t = stored s" by (simp add: fun_eq_iff stored_def path_of_def dir_of_def g)
  show "?n \<le> length (sth_payload m) \<Longrightarrow> rg_faults t = rg_faults s"
    using assms(3) F(2) unfolding rs by (auto simp: wr_def Let_def split: option.splits if_splits)
  show "r = TEE_SUCCESS \<Longrightarrow> \<exists>c. stored s (key_of m) = Some c \<and> ?n \<le> length c \<and>
       (?n \<le> length (sth_payload m) \<longrightarrow> take ?n (sth_payload m') = take ?n c)"
  proof -
    assume r: "r = TEE_SUCCESS"
    with assms(3) obtain c where c: "f = Some c" unfolding rs by (cases f) auto
    have st: "stored s (key_of m) = Some c" using F(4) [OF c] assms(2) by (simp add: stored_def)
    define res where "res = min (min (length c) ?n) (fw_read W (rg_time u) (min (length c) ?n))"
    have res: "res = ?n" "m' = m\<lparr>sth_payload := splice_at 0 (take ?n c) (sth_payload m)\<rparr>"
      using assms(3) r unfolding rs c by (auto simp: Let_def wr_def simp flip: res_def split: if_splits)
    then have "?n \<le> length c" by (simp add: res_def)
    with st res(2) show ?thesis by (intro exI [of _ c]) (simp add: splice_at_def min_absorb1 min_absorb2)
  qed
qed

lemma write_new_faults: "x \<in> set (rg_faults v) \<Longrightarrow> x \<in> set (rg_faults (snd (write_new W m p q v)))"
proof -
  have rd: "x \<in> set (rg_faults u) \<Longrightarrow> x \<in> set (rg_faults (snd (rd V buf off n u)))" for V buf off n u by (simp add: rd_def)
  show "x \<in> set (rg_faults v) \<Longrightarrow> x \<in> set (rg_faults (snd (write_new W m p q v)))"
    unfolding write_new_def Let_def split_beta replace_file_eq using rd [of "snd (open_w (fw_rg W) q v)"] by simp
qed

lemma write_faults:
  assumes "clean_stack W" "valid_key (key_of m)" "fst (FSD_WriteFile W m s) = TEE_SUCCESS"
  shows "(length (storage_path s) + 79, length (storage_path s) + 77) \<in> set (rg_faults (snd (FSD_WriteFile W m s)))"
  using assms(3) unfolding write_file_eq [OF assms(1,2)] by (auto intro!: write_new_faults split: if_splits)

section \<open>Properties of the requests\<close>

definition sample_disk :: fsdworld where
  "sample_disk = \<lparr>fw_rg = \<lparr>rg_ps = 8, rg_env = None, rg_deny = (\<lambda>_ _. False), rg_lost = (\<lambda>_. 0), rg_stale = (\<lambda>_. 0)\<rparr>,
     fw_stack = (\<lambda>_. ''''), fw_read = (\<lambda>_ n. n), fw_written = (\<lambda>_ n. n), fw_flushed = (\<lambda>_ n. n), fw_errno = (\<lambda>_. 2)\<rparr>"

definition sample_files :: rgstate where
  "sample_files = \<lparr>rg_files = [(''/data/app/mcRegistry'', Dir), (''/data/app/mcRegistry/TbStorage'', Dir)], rg_time = 0, rg_faults = []\<rparr>"

definition sample_request :: STH_FSD_message_t where
  "sample_request = \<lparr>sth_status = 0, sth_type = 2, sth_flags = 0, sth_payloadLen = 2, sth_uuid = replicate 16 3,
     sth_filename = replicate 20 4, sth_payload = [8, 9, 10]\<rparr>"






definition failing_disk :: fsdworld where
  "failing_disk = sample_disk\<lparr>fw_rg := (fw_rg sample_disk)\<lparr>rg_deny := (\<lambda>_ op. case op of Rename p q \<Rightarrow> True | _ \<Rightarrow> False)\<rparr>\<rparr>"


section \<open>The thread as a whole\<close>

lemma run_mkdir:
  assumes "fs_get s (storage_path s) = None" "t = snd (mkdir_path W (storage_path s) s)"
  shows "stored t = stored s"
proof -
  let ?p = "storage_path s"
  have d: "4 \<le> depth ?p" using depth_tlregistry [of s] by (simp add: storage_path_def depth_def slash_def)
  have g: "fs_get t q = fs_get s q" if "q \<noteq> ?p" for q using mkdir_elsewhere [OF that] assms(2) by simp
  have "depth MC_REGISTRY_DEFAULT_PATH = 3" "depth MC_REGISTRY_FALLBACK_PATH = 3"
    by (simp_all add: depth_def slash_def MC_REGISTRY_DEFAULT_PATH_def MC_REGISTRY_FALLBACK_PATH_def)
  with d have "MC_REGISTRY_DEFAULT_PATH \<noteq> ?p" "MC_REGISTRY_FALLBACK_PATH \<noteq> ?p" by auto
  then have p: "storage_path t = ?p" by (simp add: storage_path_def getTlRegistryPath_def is_dir_def g)
  have "path_of s k \<noteq> ?p" for k by (simp add: path_of_def dir_of_def)
  with p show ?thesis by (simp add: fun_eq_iff stored_def path_of_def dir_of_def g)
qed

text \<open>What the storage driver asks for is on behalf of one trusted application.\<close>

definition asks_for :: "fsdenv \<Rightarrow> u8 list \<Rightarrow> bool" where
  "asks_for E u \<longleftrightarrow> (\<forall>h d. valid_key (key_of (dci_request (fe_dci E h d))) \<and> sth_uuid (dci_request (fe_dci E h d)) = u)"

definition leaves_others :: "u8 list \<Rightarrow> FSD \<Rightarrow> FSD \<Rightarrow> bool" where
  "leaves_others u f g \<longleftrightarrow> (at_rest (fs_client f) \<longrightarrow> at_rest (fs_client g)) \<and>
     (\<forall>k. fst k \<noteq> u \<longrightarrow> stored (fs_files g) k = stored (fs_files f) k)"

lemma leaves_refl: "leaves_others u f f" by (simp add: leaves_others_def)

lemma leaves_trans [trans]: "leaves_others u f g \<Longrightarrow> leaves_others u g h \<Longrightarrow> leaves_others u f h"
  by (simp add: leaves_others_def)

lemma leaves_wait: "fsd_wait E f = Some (r, g) \<Longrightarrow> leaves_others u f g"
  by (auto simp: fsd_wait_def leaves_others_def split: option.splits dest: mcWaitNotification_inv)

lemma leaves_client: "(at_rest (fs_client f) \<Longrightarrow> at_rest c) \<Longrightarrow> leaves_others u f (f\<lparr>fs_client := c\<rparr>)"
  by (simp add: leaves_others_def)

lemma leaves_fields: "leaves_others u f (f\<lparr>fs_dci := d\<rparr>)" "leaves_others u f (f\<lparr>fs_session := h\<rparr>)" "leaves_others u f (f\<lparr>fs_null := n\<rparr>)"
  by (simp_all add: leaves_others_def)

lemma leaves_notify: "fsd_notify E f = (r, g) \<Longrightarrow> leaves_others u f g"
  using mcNotify_inv [of "fs_client f" "fe_client E" "Some (fs_session f)"]
  by (auto simp: fsd_notify_def Let_def split: prod.splits intro: leaves_client)

lemma execute_keeps:
  assumes "clean_stack W" "valid_key (key_of m)" "k \<noteq> key_of m"
  shows "stored (snd (FSD_ExecuteCommand W m s)) k = stored s k"
proof -
  have "stored (snd (snd (read_stored W m s))) = stored s"
    using read_stored_spec(2) [OF assms(1,2)] by (metis prod.collapse)
  then show ?thesis
    using only_stored [OF write_only [OF assms(1,2)] assms(2,3)] only_stored [OF delete_only(1) [OF assms(1,2)] assms(2,3)]
    by (simp add: FSD_ExecuteCommand_def FSD_LookFile_def FSD_ReadFile_def split_beta Let_def)
qed

lemma leaves_execute:
  assumes "clean_stack (fe_disk E)" "\<And>d. fs_dci f = Some d \<Longrightarrow> valid_key (key_of (dci_request d)) \<and> sth_uuid (dci_request d) = u"
  shows "leaves_others u f (fsd_execute E f)"
proof (cases "fs_dci f")
  case None
  then show ?thesis by (simp add: fsd_execute_def leaves_fields)
next
  case (Some d)
  then have "k \<noteq> key_of (dci_request d)" if "fst k \<noteq> u" for k using assms(2) that by (auto simp: key_of_def)
  then show ?thesis using Some assms(2) [OF Some] execute_keeps [OF assms(1)]
    by (simp add: fsd_execute_def leaves_others_def Let_def split_beta)
qed

lemma wait_request:
  "asks_for E u \<Longrightarrow> fsd_wait E f = Some (r, g) \<Longrightarrow> fs_dci g = Some d \<Longrightarrow>
     valid_key (key_of (dci_request d)) \<and> sth_uuid (dci_request d) = u"
  by (auto simp: fsd_wait_def asks_for_def split: option.splits)

definition listen_leaves :: "fsdenv \<Rightarrow> FSD \<Rightarrow> FSD \<Rightarrow> bool" where
  "listen_leaves E f g \<longleftrightarrow> (\<forall>u. clean_stack (fe_disk E) \<longrightarrow> asks_for E u \<longrightarrow> leaves_others u f g)"

lemma listen_leaves:
  assumes "FSD_listenDci E f = Some g"
  shows "listen_leaves E f g"
proof -
  have step: "listen_leaves E f g"
    if IH: "\<And>E f g. L E f = Some g \<Longrightarrow> listen_leaves E f g"
      and body: "(case fsd_wait E f of None \<Rightarrow> None | Some (r, f) \<Rightarrow>
          if r \<noteq> MC_DRV_OK then Some f
          else let (r, f) = fsd_notify E (fsd_execute E f) in if r \<noteq> MC_DRV_OK then Some f else L E f) = Some g" for L E f g
    unfolding listen_leaves_def
  proof (intro allI impI)
    fix u assume u: "clean_stack (fe_disk E)" "asks_for E u"
    obtain r f1 where w: "fsd_wait E f = Some (r, f1)" using body by (auto split: option.splits)
    obtain r' f2 where n: "fsd_notify E (fsd_execute E f1) = (r', f2)" by fastforce
    have k1: "leaves_others u f f1" by (rule leaves_wait [OF w])
    have "leaves_others u f1 (fsd_execute E f1)" by (rule leaves_execute [OF u(1) wait_request [OF u(2) w]])
    with k1 leaves_notify [OF n] have k2: "leaves_others u f f2" by (blast intro: leaves_trans)
    have "leaves_others u f2 g" if "L E f2 = Some g" using IH [OF that] u by (simp add: listen_leaves_def)
    with k1 k2 body w n show "leaves_others u f g" by (auto split: if_splits intro: leaves_trans)
  qed
  show ?thesis
    by (rule FSD_listenDci.raw_induct [of listen_leaves E f g]) (erule (1) step, rule assms)
qed

lemma leaves_close: "leaves_others u f g \<Longrightarrow> leaves_others u f (snd (fsd_close_device E r g))"
  "leaves_others u f g \<Longrightarrow> leaves_others u f (snd (fsd_close_session E r g))"
  by (auto simp: fsd_close_session_def fsd_close_device_def fsd_error_def leaves_others_def mcCloseDevice_inv mcCloseSession_inv)

lemma leaves_sync:
  assumes "fsd_sync E f = Some (r, g)"
  shows "leaves_others u f g"
proof -
  obtain r1 f1 where w: "fsd_wait E f = Some (r1, f1)" using assms by (auto simp: fsd_sync_def split: option.splits)
  note k1 = leaves_wait [OF w, of u]
  let ?f = "f1\<lparr>fs_dci := map_option (\<lambda>m. m\<lparr>dci_commandId := CMD_ST_SYNC\<rparr>) (fs_dci f1)\<rparr>"
  obtain r2 f2 where n: "fsd_notify E ?f = (r2, f2)" by fastforce
  have k2: "leaves_others u f f2" using k1 leaves_fields(1) leaves_notify [OF n] by (blast intro: leaves_trans)
  have close: "leaves_others u f y" if "leaves_others u f x" "fsd_close_session E r' x = (r, y)" for x y r r'
    using leaves_close(2) [OF that(1), of E r'] that(2) by (metis snd_conv)
  show ?thesis
  proof (cases "r1 = MC_DRV_OK \<and> r2 = MC_DRV_OK")
    case False
    then show ?thesis using assms w n k1 k2 close by (auto simp: fsd_sync_def split: if_splits)
  next
    case True
    then obtain r3 f3 where w3: "fsd_wait E f2 = Some (r3, f3)"
      using assms w n by (auto simp: fsd_sync_def split: option.splits)
    have k3: "leaves_others u f f3" using k2 leaves_wait [OF w3] by (rule leaves_trans)
    obtain r4 f4 where n4: "fsd_notify E f3 = (r4, f4)" by fastforce
    have k4: "leaves_others u f f4" using k3 leaves_notify [OF n4] by (rule leaves_trans)
    show ?thesis using assms w n w3 n4 True k3 k4 close by (auto simp: fsd_sync_def split: if_splits)
  qed
qed

lemma leaves_open:
  assumes "fd_fresh (fe_client E)" "FSD_Open E f = Some (r, g)"
  shows "leaves_others u f g"
proof (cases "fe_addr E")
  case None
  with assms(2) show ?thesis by (auto simp: FSD_Open_def leaves_others_def)
next
  case (Some p)
  define f0 where "f0 = f\<lparr>fs_session := no_session, fs_dci := Some blank_dci\<rparr>"
  obtain r1 c1 where o1: "mcOpenDevice (fe_client E) MC_DEVICE_ID_DEFAULT (fs_client f0) = (r1, c1)" by fastforce
  define h1 where "h1 = no_session\<lparr>sh_deviceId := MC_DEVICE_ID_DEFAULT\<rparr>"
  obtain r2 h c2 where o2: "mcOpenSession (fe_client E) (Some h1) (Some DRV_STH_UUID) p 1024000 c1 = ((r2, h), c2)"
    by (metis prod.collapse)
  define f2 where "f2 = f0\<lparr>fs_client := c2, fs_session := (case h of None \<Rightarrow> h1 | Some h \<Rightarrow> h)\<rparr>"
  have o: "FSD_Open E f = (if r1 \<noteq> MC_DRV_OK then Some (fsd_error r1 (f0\<lparr>fs_client := c1\<rparr>))
      else if r2 \<noteq> MC_DRV_OK then Some (fsd_close_device E r2 f2) else fsd_sync E f2)"
    using o1 o2 by (simp add: FSD_Open_def Some Let_def f0_def f2_def h1_def cong: option.case_cong)
  have k1: "at_rest (fs_client f) \<longrightarrow> at_rest c1"
    using mcOpenDevice_inv [OF assms(1), of "fs_client f0" MC_DEVICE_ID_DEFAULT] o1 by (simp add: f0_def)
  have k2: "at_rest c1 \<longrightarrow> at_rest c2"
    using mcOpenSession_inv [of c1 "fe_client E" "Some h1" "Some DRV_STH_UUID" p 1024000] o2 by simp
  have f2: "leaves_others u f f2" using k1 k2 by (simp add: leaves_others_def f2_def f0_def)
  have e: "leaves_others u f (snd (fsd_error r1 (f0\<lparr>fs_client := c1\<rparr>)))" using k1 by (simp add: leaves_others_def fsd_error_def f0_def)
  show ?thesis
    using assms(2) e leaves_close(1) [OF f2, of E r2] leaves_trans [OF f2 leaves_sync] unfolding o
    by (metis option.inject snd_conv)
qed


text \<open>The driver asks to write a file; then no notification comes any more.\<close>

definition sample_fsd :: fsdenv where
  "sample_fsd = \<lparr>fe_client = sample_env (\<lambda>k. if k = 1 then [2, 0, 0, 0]
       else if k = 4 then [7, 0, 0, 0, 1, 0, 0, 0, 9, 0, 0, 0] else if k = 6 \<or> k = 8 \<or> k = 10 then [7, 0, 0, 0, 0, 0, 0, 0]
       else if 6 < k then [] else [0, 0, 0, 0]),
     fe_disk = sample_disk, fe_addr = Some 0x10010,
     fe_dci = (\<lambda>_ _. \<lparr>dci_commandId = 0, dci_request = sample_request\<rparr>)\<rparr>"

abbreviation se :: client_env where "se \<equiv> fe_client sample_fsd"

text \<open>Waiting for at most \<open>k\<close> reads.\<close>

fun drain_fuel :: "nat \<Rightarrow> client_env \<Rightarrow> mcSessionHandle_t \<Rightarrow> nat \<Rightarrow> u32 \<Rightarrow> int \<Rightarrow> client \<Rightarrow> (u32 \<times> client) option" where
  "drain_fuel 0 E x c n timeout s = None"
| "drain_fuel (Suc k) E x c n timeout s =
     (let (numRead, got, s) = readData E c 8 timeout s in
      if n = 0 \<and> numRead = -2 then Some (MC_DRV_ERR_TIMEOUT, s)
      else if n = 0 \<and> numRead = 0 then Some (MC_DRV_ERR_NOTIFICATION, snd (removeDevice E (sh_deviceId x) s))
      else if numRead \<noteq> 8 then Some (if n = 0 then MC_DRV_ERR_NOTIFICATION else MC_DRV_OK, s)
      else if le32 got 4 \<noteq> 0
      then Some (MC_DRV_INFO_NOTIFICATION,
             with_session (sh_deviceId x) (sh_sessionId x) (\<lambda>x. x\<lparr>cs_lastErr := le32 got 4\<rparr>) s)
      else drain_fuel k E x c (n + 1) 0 s)"

lemma drain_fuel: "drain_fuel k E x c n timeout s = Some y \<Longrightarrow> drain E x c n timeout s = Some y"
proof (induction k arbitrary: n timeout s)
  case (Suc k)
  then show ?case by (subst drain.simps) (auto simp: Let_def split: prod.splits if_splits)
qed simp

definition wait_fuel :: "nat \<Rightarrow> client_env \<Rightarrow> mcSessionHandle_t \<Rightarrow> int \<Rightarrow> client \<Rightarrow> (u32 \<times> client) option" where
  "wait_fuel k E h timeout s =
     (case and_then (check_device (sh_deviceId h)) (\<lambda>d. check_session d (sh_sessionId h)) s of
        (Inl e, s) \<Rightarrow> Some (e, s)
      | (Inr x, s) \<Rightarrow> drain_fuel k E h (cs_connection x) 0 timeout s)"

lemma wait_fuel: "wait_fuel k E h timeout s = Some y \<Longrightarrow> mcWaitNotification E (Some h) timeout s = Some y"
  by (auto simp: wait_fuel_def mcWaitNotification_def drain_fuel split: prod.splits sum.splits)

definition driver_wait :: "client \<Rightarrow> client" where
  "driver_wait c = snd (the (wait_fuel (Suc (Suc 0)) se h0 MC_INFINITE_TIMEOUT c))"

definition driver_notify :: "client \<Rightarrow> client" where
  "driver_notify c = snd (mcNotify se (Some h0) c)"

definition driver_client :: client where
  "driver_client = snd (mcOpenSession se (Some no_session) (Some DRV_STH_UUID) 0x10010 1024000
     (snd (mcOpenDevice se 0 new_client)))"

abbreviation (input) driver_round :: "client \<Rightarrow> client" where "driver_round c \<equiv> driver_notify (driver_wait c)"

lemma sample_opened:
  "fst (mcOpenDevice se 0 new_client) = MC_DRV_OK"
  "fst (mcOpenSession se (Some no_session) (Some DRV_STH_UUID) 0x10010 1024000 (snd (mcOpenDevice se 0 new_client)))
     = (MC_DRV_OK, Some h0)"
  by code_simp+

lemma sample_rounds:
  "map_option fst (wait_fuel (Suc (Suc 0)) se h0 MC_INFINITE_TIMEOUT driver_client) = Some MC_DRV_OK"
  "fst (mcNotify se (Some h0) (driver_wait driver_client)) = MC_DRV_OK"
  "map_option fst (wait_fuel (Suc (Suc 0)) se h0 MC_INFINITE_TIMEOUT (driver_round driver_client)) = Some MC_DRV_OK"
  "fst (mcNotify se (Some h0) (driver_wait (driver_round driver_client))) = MC_DRV_OK"
  "map_option fst (wait_fuel (Suc (Suc 0)) se h0 MC_INFINITE_TIMEOUT (driver_round (driver_round driver_client))) = Some MC_DRV_OK"
  "fst (mcNotify se (Some h0) (driver_wait (driver_round (driver_round driver_client)))) = MC_DRV_OK"
  "map_option fst (wait_fuel (Suc (Suc 0)) se h0 MC_INFINITE_TIMEOUT (driver_round (driver_round (driver_round driver_client))))
     = Some MC_DRV_ERR_TIMEOUT"
  by code_simp+

lemma sample_wait:
  assumes "map_option fst (wait_fuel (Suc (Suc 0)) se h0 MC_INFINITE_TIMEOUT c) = Some r"
  shows "fsd_wait sample_fsd \<lparr>fs_session = h0, fs_dci = Some d, fs_files = s, fs_client = c, fs_null = n\<rparr>
    = Some (r, \<lparr>fs_session = h0, fs_dci = Some \<lparr>dci_commandId = 0, dci_request = sample_request\<rparr>, fs_files = s, fs_client = driver_wait c, fs_null = n\<rparr>)"
  using assms
  by (cases "wait_fuel (Suc (Suc 0)) se h0 MC_INFINITE_TIMEOUT c")
    (auto simp: fsd_wait_def driver_wait_def sample_fsd_def dest!: wait_fuel [unfolded sample_fsd_def fsdenv.simps])

lemma sample_notify:
  assumes "fst (mcNotify se (Some h0) c) = r"
  shows "fsd_notify sample_fsd \<lparr>fs_session = h0, fs_dci = d, fs_files = s, fs_client = c, fs_null = n\<rparr>
    = (r, \<lparr>fs_session = h0, fs_dci = d, fs_files = s, fs_client = driver_notify c, fs_null = n\<rparr>)"
  using assms by (simp add: fsd_notify_def driver_notify_def split_beta Let_def)

lemma sample_run:
  obtains g where "FSD_run sample_fsd (new_FSD sample_files new_client) = Some g"
    "fs_files g = snd (FSD_ExecuteCommand sample_disk sample_request sample_files)"
proof -
  have st: "fs_get sample_files (storage_path sample_files) \<noteq> None" by code_simp
  obtain c where c: "mcOpenDevice se 0 new_client = (0, c)" using sample_opened(1) by (metis prod.collapse)
  have o: "mcOpenSession se (Some no_session) (Some DRV_STH_UUID) 0x10010 1024000 c = ((0, Some h0), driver_client)"
    using sample_opened(2) c by (simp add: driver_client_def prod_eq_iff)
  let ?S = "\<lambda>m s c. \<lparr>fs_session = h0, fs_dci = Some m, fs_files = s, fs_client = c, fs_null = False\<rparr>"
  let ?d = "\<lparr>dci_commandId = 0, dci_request = sample_request\<rparr>"
  have "no_session\<lparr>sh_deviceId := 0\<rparr> = no_session" by (simp add: no_session_def)
  then have "FSD_Open sample_fsd (new_FSD sample_files new_client) = fsd_sync sample_fsd (?S blank_dci sample_files driver_client)"
    using c o by (simp add: FSD_Open_def new_FSD_def Let_def sample_fsd_def)
  also have "\<dots> = Some (0, ?S ?d sample_files (driver_round (driver_round driver_client)))"
    using sample_rounds by (simp add: fsd_sync_def sample_wait sample_notify)
  finally have o: "FSD_Open sample_fsd (new_FSD sample_files new_client) = Some (0, ?S ?d sample_files (driver_round (driver_round driver_client)))" .
  obtain m s where e: "FSD_ExecuteCommand sample_disk sample_request sample_files = (m, s)" by fastforce
  have x: "fsd_execute sample_fsd (?S ?d sample_files c) = ?S (?d\<lparr>dci_request := m\<rparr>) s c" for c
    using e by (simp add: fsd_execute_def sample_fsd_def)
  have "FSD_listenDci sample_fsd (?S ?d sample_files (driver_round (driver_round driver_client)))
      = FSD_listenDci sample_fsd (?S (?d\<lparr>dci_request := m\<rparr>) s (driver_round (driver_round (driver_round driver_client))))"
    using sample_rounds by (subst FSD_listenDci.simps) (simp add: sample_wait sample_notify x)
  also have "\<dots> = Some (?S ?d s (driver_wait (driver_round (driver_round (driver_round driver_client)))))"
    using sample_rounds by (subst FSD_listenDci.simps) (simp add: sample_wait)
  finally have "FSD_run sample_fsd (new_FSD sample_files new_client)
      = Some (?S ?d s (driver_wait (driver_round (driver_round (driver_round driver_client)))))"
    using st o by (auto simp: FSD_run_def new_FSD_def Let_def)
  then show ?thesis by (rule that) (simp add: e)
qed


end
