(* ===== verification/Spec2Isabelle.thy ===== *)
theory Spec2Isabelle
  imports Base64 Crc32 McDaemonLaws SessionDiscipline DialogueLaws RegistryLaws CommandHandlerLaws
    ClientWire ClientApiLaws FsdLaws
begin

text \<open>
  A model of the Trustonic MobiCore software of the Exynos 8890 hardware repository and the
  theorems that make it correct.

  The program. \<^verbatim>\<open>src/mobicore\<close> is the normal-world side of a trusted execution environment. Its
  daemon (\<^verbatim>\<open>daemon/Daemon\<close>) is the one process that talks to the secure world: it serves clients
  over sockets, keeps the sessions they open with trusted applications, exchanges MCP messages in
  a shared buffer and notifications in two ring buffers, and lets the secure world run when there
  is work. Its registry stores the containers of service providers. \<^verbatim>\<open>rootpa\<close> provisions those
  containers: it passes the commands of a server to the content management trustlet, in a TCI
  buffer and a mapped buffer, adds the containers a command needs from the registry, and stores
  the ones its response brings. Applications reach the daemon through the client library
  (\<^verbatim>\<open>daemon/ClientLib\<close>), which keeps their devices, sessions and mapped buffers.
  \<^verbatim>\<open>provlib\<close> binds a device at production time.

  Theories and code (paths under \<^verbatim>\<open>src/mobicore\<close>).

  \<^item> \<open>Prelude\<close>: widths, result codes and list lemmas shared by the components.
  \<^item> \<open>NotificationQueue\<close>: \<^verbatim>\<open>Device/NotificationQueue.cpp\<close>, \<^verbatim>\<open>mcinq.h\<close>. The locale \<open>bounded_queue\<close> is
    the interface the interrupt handler relies on; the ring in shared memory interprets it.
  \<^item> \<open>TrustletSession\<close>: \<^verbatim>\<open>Device/TrustletSession.cpp\<close>, the state machine of a session, its queued
    notifications and its bulk buffers.
  \<^item> \<open>World\<close>: the MCP messages (\<^verbatim>\<open>mcimcp.h\<close>, \<^verbatim>\<open>mcLoadFormat.h\<close>), the events of the daemon and what
    it is given: the secure world, the kernel module, the sockets, the registry.
  \<^item> \<open>McDevice\<close>: \<^verbatim>\<open>Device/MobiCoreDevice.cpp\<close> and \<^verbatim>\<open>Platforms/Generic/TrustZoneDevice.cpp\<close>, one
    definition per method. \<open>McDeviceLaws\<close> and \<open>McSessions\<close> hold the invariant of the device and what
    each operation keeps of it, \<open>McProperties\<close> the properties over histories of operations.
  \<^item> \<open>McDaemon\<close>: the handlers of \<^verbatim>\<open>MobiCoreDriverDaemon.cpp\<close> and their dispatcher; \<open>McDaemonLaws\<close> the
    properties over arbitrary requests.
  \<^item> \<open>ClientEnv\<close>: the requests of \<^verbatim>\<open>MobiCoreDriverCmd.h\<close> and their bytes, the sockets of
    \<^verbatim>\<open>Common/Connection.cpp\<close>, the kernel module behind \<^verbatim>\<open>Kernel/CKMod.cpp\<close> and \<^verbatim>\<open>CMcKMod.cpp\<close>.
    \<open>ClientLib\<close>: \<^verbatim>\<open>ClientLib/Device.cpp\<close>, \<^verbatim>\<open>Session.cpp\<close> and the macros and lists of
    \<^verbatim>\<open>ClientLib.cpp\<close>; \<open>ClientApi\<close>: its interface, one definition per function.
    \<open>ClientLaws\<close> and \<open>ClientProps\<close> hold the invariant and what every call keeps of it, \<open>ClientApiLaws\<close>
    the properties of calls; \<open>ClientWire\<close> joins the requests to the handlers of \<open>McDaemon\<close>.
  \<^item> \<open>FileSystem\<close>: files and directories by path and the calls of the C library on them. \<open>Registry\<close>:
    \<^verbatim>\<open>Registry/PrivateRegistry.cpp\<close>, all functions. \<open>RegistryLaws\<close>: the locale \<open>container_file\<close> is what
    a container promises \<^verbatim>\<open>rootpa\<close>; the three kinds of container interpret it, and the files
    refine a map from containers to bytes (\<open>view\<close>).
  \<^item> \<open>Fsd\<close>: \<^verbatim>\<open>Daemon/FSD/FSD.cpp\<close>, the thread that stores the files of trusted applications: a client
    of the client library on the file system of the registry. \<open>FsdLaws\<close>: the map its files refine, and
    what it keeps from request to request.
  \<^item> \<open>Base64\<close>, \<open>Crc32\<close>: \<^verbatim>\<open>rootpa/Code/Common/base64.c\<close> and \<^verbatim>\<open>provlib/src/crc32.c\<close>.
  \<^item> \<open>CLayout\<close>: sizes, alignments and member offsets of C structures. \<open>CmpTypes\<close>: the structures of
    the content management protocol (\<^verbatim>\<open>TlCm/3.0/cmp.h\<close>, \<^verbatim>\<open>cmpMap.h\<close>, \<^verbatim>\<open>mcContainer.h\<close>, \<^verbatim>\<open>mcSo.h\<close>).
  \<^item> \<open>RootpaEnv\<close>: the state of \<^verbatim>\<open>rootpa\<close> with an explicit heap, its environment, and \<^verbatim>\<open>registry.c\<close>.
  \<^item> \<open>TltChannel\<close>: \<^verbatim>\<open>trustletchannel.c\<close>. \<open>Pacmtl\<close>: \<^verbatim>\<open>pacmtl.c\<close>. \<open>Pacmp3\<close>: \<^verbatim>\<open>pacmp3.c\<close>, with its memory
    safety in \<open>Pacmp3Prepare\<close> (commands) and \<open>Pacmp3Store\<close> (responses).
  \<^item> \<open>ContentManager\<close>: \<^verbatim>\<open>contentmanager.c\<close>. \<open>ContentManagerLaws\<close>: a command as a whole.
    \<open>SessionDiscipline\<close>: a request as a whole.
  \<^item> \<open>SeClient\<close>: \<^verbatim>\<open>seclient.c\<close>, one exchange with the service enabler and the callbacks of \<^verbatim>\<open>libcurl\<close>;
    \<open>SeClientLaws\<close> its memory safety, the \<^verbatim>\<open>Link\<close> parser and the reading of a PUT.
  \<^item> \<open>ProvisioningEngine\<close>: \<^verbatim>\<open>provisioningengine.c\<close>, the address of the device and the dialogue with the
    service enabler; \<open>AddressLaws\<close> shows when the address fits its buffer, \<open>DialogueLaws\<close> who owns the
    strings of the dialogue from round to round.
  \<^item> \<open>CommandHandler\<close>: \<^verbatim>\<open>commandhandler.c\<close>, the entry points of \<^verbatim>\<open>rootpa\<close>; a started thread is a
    value with the parameters it owns. \<open>CommandHandlerLaws\<close>: the queries, the structure of a container,
    what \<open>provision\<close> owns, and how its thread ends.

  How the model is written. C++ objects and C structures are records, \<^verbatim>\<open>uint32_t\<close> is a 32-bit word,
  a heap pointer of the daemon is a number that names an object. The daemon model passes the
  device explicitly; every call of the environment takes the history of events, so that an
  arbitrary environment is an arbitrary function, and each call is an event of the new history.
  The rootpa model has a heap of byte blocks: reading or writing outside a live block, freeing
  twice or using a freed pointer adds an entry to the list of faults, so that a program is memory
  safe when that list does not grow. Structures are accessed at the offsets \<open>CLayout\<close> computes;
  the width of a pointer is a parameter. The locks of the daemon are held for the whole of a
  request, which is therefore one step.

  What the lemmas show.

  \<^item> Sessions: requests of one client leave the sessions of another alone; the device invariant is
    kept by every request and interrupt; identifiers of foreign sessions are refused; opening and
    closing a session is balanced in sessions and in buffer locks.
  \<^item> Clients: whatever the daemon answers, after any sequence of calls every connection has one owner and
    every listed buffer a registration of its own; mapping and unmapping cancel out; what a failed open
    or a refused unmap leaves behind; the daemon reads the requests as the client wrote them, in builds
    of the same width only.
  \<^item> Exchanges: an exchange with the secure world ends; the interrupt handler routes every
    notification to one place; the rings refine a list queue over any sequence of operations.
  \<^item> Provisioning: every pointer a content management command goes through is in a live block and
    no block is leaked; the buffer shared with the secure world is large enough; the retry loop
    takes ever larger buffers; containers are written child first; the session of a request is
    given back, except when the request is left early.
  \<^item> Dialogue: an exchange hands out fresh strings and leaves those of the caller alone; over any number
    of rounds the engine uses, frees and overruns nothing it should not, unless the server asks to
    repeat a step, which makes it use freed strings; a dialogue that ends has been reported.
  \<^item> Registry: file names never clash; storing, reading and deleting containers refine a map; deleting a
    provider or the root deletes what is below it and nothing else; which buffers are overrun.
  \<^item> Storage: the files of one trusted application are safe from the requests of another; on a sound disk
    they refine a map; which errors of the file system are reported as success, which array is too short.
  \<^item> Encodings: base64 round trips within its buffers; the table-driven checksum is CRC-32.

  Bounds and fuel. The wait for an MCP answer has the code's own five attempts. The read loop of
  OPEN_TRUSTLET may not end and is a partial function; one theorem gives the condition under
  which it returns and one the condition under which it does not. The server decides how long the
  dialogue of the provisioning engine lasts: it is a while loop of the library, and its safety is
  stated for every number of rounds. The loops that wait for notifications and serve storage requests
  are partial functions, \<open>None\<close> when they never end. The interrupt drain takes as
  many steps as the queue has entries. The retry loop of a command is total: the size of its
  buffer, a 32-bit number, grows in each round.

  Assumptions that appear as hypotheses: the registry returns at most the 4096 bytes it was given
  room for (\<open>registry_sound\<close>), the elements of a response do not wrap around 32 bits (\<open>swd_sound\<close>; the
  code does not check it, which is a finding), \<^verbatim>\<open>realloc\<close> grows a block in place (\<open>no_move\<close>) for the one
  command that keeps an old pointer, also a finding, and shared memory can be given back (\<open>wsm_freed\<close>).
  The XML layer and the callbacks of the provisioning engine leave its strings alone and return fresh
  ones (\<open>engine_contract\<close>), \<^verbatim>\<open>libcurl\<close> asks for the data of a PUT at once (\<open>orderly\<close>),
  an uninitialised array of the storage thread happens to be empty (\<open>clean_stack\<close>), and \<^verbatim>\<open>open\<close> answers
  a descriptor that is not in use (\<open>fd_fresh\<close>).

  Not modelled. The daemon's servers, threads and mutexes and what the daemon calls of the kernel module
  are parameters: they only pass calls to the operating system. Of the client library the calls are one
  step each, so two threads in \<^verbatim>\<open>mcWaitNotification\<close>, which takes no mutex, are not seen to interfere;
  addresses are 64 bits wide, and the lock of a session, which nothing takes, is left out. The rest of
  \<^verbatim>\<open>rootpa\<close> (XML messages) and of \<^verbatim>\<open>provlib\<close>, the client end of the registry (\<^verbatim>\<open>Registry.cpp\<close>), the
  GlobalPlatform interface and the keymaster client consist of calls of libraries
  and of marshalling for trusted applications whose code is not in the repository. The camera, codec,
  gralloc and display layers are hardware glue around driver calls.
\<close>

end
